(* ===== verification/Prelude.thy ===== *)
theory Prelude
  imports Main "HOL-Library.Word"
begin

text \<open>
  Shared vocabulary of the development: the outcomes of C code (a value, a
  failed \<open>assert\<close>, a diagnostic followed by \<open>exit(1)\<close>, undefined behaviour, or
  a recursion that exhausts the stack) as a sum type with its sequencing combinator; the machine types of the
  sources; C characters as bytes with the sign extension of the x86-64 ABI; and
  generic lemmas on lists, options and alignment that the component theories
  share.
\<close>

section \<open>Automation collections\<close>

named_theorems outcome_simps "equations of the sequencing combinator of outcomes"
named_theorems align_simps "facts on rounding sizes up to an alignment"
named_theorems ctype_simps "character classes of the C locale as arithmetic on codes"

section \<open>Outcomes of C code\<close>

datatype kcs_error =
    Assert_Failed
  | Exit_Error string
  | Undefined_Behaviour
  | Stack_Overflow

type_synonym 'a outcome = "kcs_error + 'a"

fun obind :: "'a outcome \<Rightarrow> ('a \<Rightarrow> 'b outcome) \<Rightarrow> 'b outcome" where
  "obind (Inl e) f = Inl e"
| "obind (Inr x) f = f x"

definition oassert :: "bool \<Rightarrow> unit outcome" where
  "oassert b = (if b then Inr () else Inl Assert_Failed)"

lemma obind_Inr_iff [outcome_simps]:
  "obind m f = Inr y \<longleftrightarrow> (\<exists>x. m = Inr x \<and> f x = Inr y)"
  by (cases m) auto

lemma obind_Inl_iff [outcome_simps]:
  "obind m f = Inl e \<longleftrightarrow> m = Inl e \<or> (\<exists>x. m = Inr x \<and> f x = Inl e)"
  by (cases m) auto

lemma oassert_Inr_iff [simp]: "oassert b = Inr u \<longleftrightarrow> b"
  by (simp add: oassert_def)

lemma oassert_Inl_iff [simp]: "oassert b = Inl e \<longleftrightarrow> \<not> b \<and> e = Assert_Failed"
  by (auto simp: oassert_def)

lemma oassert_True [simp]: "oassert True = Inr ()"
  by (simp add: oassert_def)

lemma oassert_False [simp]: "oassert False = Inl Assert_Failed"
  by (simp add: oassert_def)

lemma obind_assoc: "obind (obind m f) g = obind m (\<lambda>x. obind (f x) g)"
  by (cases m) auto

lemma obind_return [simp]: "obind m Inr = m"
  by (cases m) auto

lemma obind_cong [fundef_cong]:
  "\<lbrakk>m = m'; \<And>x. m' = Inr x \<Longrightarrow> f x = f' x\<rbrakk> \<Longrightarrow> obind m f = obind m' f'"
  by (cases m') auto

section \<open>Machine types\<close>

type_synonym u8 = "8 word"
type_synonym u16 = "16 word"
type_synonym u32 = "32 word"
type_synonym u64 = "64 word"

text \<open>
  A C \<open>char\<close> is a byte, read as a signed value on x86-64. A C string is the list
  of its characters up to, and not including, the terminating zero byte.
\<close>

abbreviation code_of :: "char \<Rightarrow> nat" where
  "code_of c \<equiv> (of_char c :: nat)"

definition schar :: "char \<Rightarrow> int" where
  "schar c = (if code_of c < 128 then int (code_of c) else int (code_of c) - 256)"

definition nul_free :: "string \<Rightarrow> bool" where
  "nul_free s \<longleftrightarrow> (\<forall>c \<in> set s. code_of c \<noteq> 0)"

lemma code_of_less_256 [simp]: "code_of c < 256"
  by (cases c) (simp add: of_char_def horner_sum_simps of_bool_def)

lemma code_of_inject [simp]: "code_of c = code_of d \<longleftrightarrow> c = d"
  by simp

lemma signed_byte_inject:
  fixes x y :: nat
  assumes "(if x < 128 then int x else int x - 256) = (if y < 128 then int y else int y - 256)"
    and "x < 256" "y < 256"
  shows "x = y"
  using assms by (auto split: if_splits)

lemma schar_inject: "schar c = schar d \<longleftrightarrow> c = d"
  using signed_byte_inject [of "code_of c" "code_of d"] by (auto simp: schar_def)

section \<open>The \<open>ctype.h\<close> classes in the C locale\<close>

definition isdigit :: "char \<Rightarrow> bool" where
  "isdigit c \<longleftrightarrow> 48 \<le> code_of c \<and> code_of c \<le> 57"

definition isupper :: "char \<Rightarrow> bool" where
  "isupper c \<longleftrightarrow> 65 \<le> code_of c \<and> code_of c \<le> 90"

definition islower :: "char \<Rightarrow> bool" where
  "islower c \<longleftrightarrow> 97 \<le> code_of c \<and> code_of c \<le> 122"

definition isalpha :: "char \<Rightarrow> bool" where
  "isalpha c \<longleftrightarrow> isupper c \<or> islower c"

definition isalnum :: "char \<Rightarrow> bool" where
  "isalnum c \<longleftrightarrow> isalpha c \<or> isdigit c"

definition isxdigit :: "char \<Rightarrow> bool" where
  "isxdigit c \<longleftrightarrow> isdigit c \<or> (65 \<le> code_of c \<and> code_of c \<le> 70) \<or> (97 \<le> code_of c \<and> code_of c \<le> 102)"

definition isspace :: "char \<Rightarrow> bool" where
  "isspace c \<longleftrightarrow> code_of c = 32 \<or> (9 \<le> code_of c \<and> code_of c \<le> 13)"

definition isprint :: "char \<Rightarrow> bool" where
  "isprint c \<longleftrightarrow> 32 \<le> code_of c \<and> code_of c \<le> 126"

definition tolower :: "char \<Rightarrow> char" where
  "tolower c = (if isupper c then char_of (code_of c + 32) else c)"

lemmas ctype_defs [ctype_simps] =
  isdigit_def isupper_def islower_def isalpha_def isalnum_def isxdigit_def isspace_def isprint_def

section \<open>Unsigned arithmetic at its width\<close>

text \<open>Where a count is read as a natural number, the wrap-around of its C type is written out.\<close>

definition wrap32 :: "nat \<Rightarrow> nat" where
  "wrap32 n = n mod 2 ^ 32"

definition wrap64 :: "nat \<Rightarrow> nat" where
  "wrap64 n = n mod 2 ^ 64"

definition sub32 :: "nat \<Rightarrow> nat \<Rightarrow> nat" where
  "sub32 a b = wrap32 (a + 2 ^ 32 - b)"

lemma wrap32_id [simp]: "n < 2 ^ 32 \<Longrightarrow> wrap32 n = n"
  by (simp add: wrap32_def)

lemma wrap32_less [simp]: "wrap32 n < 2 ^ 32"
  by (simp add: wrap32_def)

lemma wrap64_id [simp]: "n < 2 ^ 64 \<Longrightarrow> wrap64 n = n"
  by (simp add: wrap64_def)

lemma wrap64_less [simp]: "wrap64 n < 2 ^ 64"
  by (simp add: wrap64_def)

lemma wrap64_0 [simp]: "wrap64 0 = 0"
  by (simp add: wrap64_def)

lemma sub32_id [simp]: "b \<le> a \<Longrightarrow> a < 2 ^ 32 \<Longrightarrow> sub32 a b = a - b"
proof -
  assume "b \<le> a" "a < 2 ^ 32"
  then have "a + 2 ^ 32 - b = (a - b) + 2 ^ 32" and "a - b < 2 ^ 32" by simp_all
  then show ?thesis by (simp only: sub32_def wrap32_def mod_add_self2 mod_less)
qed

section \<open>Alignment\<close>

definition align_up :: "nat \<Rightarrow> nat \<Rightarrow> nat" where
  "align_up n a = (if n mod a \<noteq> 0 then n + (a - n mod a) else n)"

lemma align_up_dvd [align_simps, simp]: "0 < a \<Longrightarrow> a dvd align_up n a"
proof -
  assume a: "0 < a"
  have "n + (a - n mod a) = (n div a + 1) * a"
  proof -
    have "n mod a < a" using a by simp
    then have "n + (a - n mod a) = (n - n mod a) + a" by (simp add: less_imp_le)
    also have "\<dots> = n div a * a + a" by (simp add: minus_mod_eq_div_mult)
    finally show ?thesis by simp
  qed
  then show ?thesis by (auto simp: align_up_def mod_eq_0_iff_dvd)
qed

lemma align_up_ge [align_simps, simp]: "n \<le> align_up n a"
  by (simp add: align_up_def)

lemma align_up_less [align_simps]: "0 < a \<Longrightarrow> align_up n a < n + a"
  by (auto simp: align_up_def)

lemma align_up_id [align_simps]: "a dvd n \<Longrightarrow> align_up n a = n"
  by (simp add: align_up_def)

lemma align_up_least:
  assumes "a dvd m" "n \<le> m" "0 < a"
  shows "align_up n a \<le> m"
proof (rule ccontr)
  assume "\<not> align_up n a \<le> m"
  then have lt: "m < align_up n a" by simp
  obtain k where k: "align_up n a = a * k" using align_up_dvd [OF assms(3)] by blast
  obtain j where j: "m = a * j" using assms(1) by blast
  have "j < k" using lt k j assms(3) by simp
  then have "a * j + a \<le> a * k" by (metis Suc_leI mult_Suc_right mult_le_mono2 add.commute)
  then have "n + a \<le> align_up n a" using assms(2) k j by linarith
  then show False using align_up_less [OF assms(3), of n] by simp
qed

section \<open>Lists\<close>

lemma takeWhile_all_eq: "(\<forall>x \<in> set xs. P x) \<Longrightarrow> takeWhile P (xs @ ys) = xs @ takeWhile P ys"
  by (induction xs) auto

lemma dropWhile_all_eq: "(\<forall>x \<in> set xs. P x) \<Longrightarrow> dropWhile P (xs @ ys) = dropWhile P ys"
  by (induction xs) auto

lemma list_update_append_last: "(xs @ [y])[length xs := z] = xs @ [z]"
  by (induction xs) auto

lemma dropWhile_length_le [simp]: "length (dropWhile P xs) \<le> length xs"
  by (induction xs) auto

lemma map_of_delete_nth:
  assumes "distinct (map fst xs)" "i < length xs"
  shows "map_of (take i xs @ drop (Suc i) xs) = (map_of xs)(fst (xs ! i) := None)"
proof -
  have xs: "xs = take i xs @ xs ! i # drop (Suc i) xs"
    using assms(2) by (simp add: id_take_nth_drop)
  let ?a = "take i xs" and ?x = "xs ! i" and ?b = "drop (Suc i) xs"
  have "distinct (map fst (?a @ ?x # ?b))" using assms(1) xs by metis
  then have "fst ?x \<notin> fst ` set ?a" "fst ?x \<notin> fst ` set ?b" by auto
  then have n: "map_of ?a (fst ?x) = None" "map_of ?b (fst ?x) = None"
    by (simp_all add: map_of_eq_None_iff)
  have "map_of (?a @ ?b) = (map_of (?a @ ?x # ?b))(fst ?x := None)"
    using n by (auto simp: fun_eq_iff map_add_def split: option.splits)
  then show ?thesis using xs by metis
qed

lemma map_of_snoc_new: "map_of xs k = None \<Longrightarrow> map_of (xs @ [(k, v)]) = (map_of xs)(k \<mapsto> v)"
  by (auto simp: fun_eq_iff map_add_def split: option.splits)

section \<open>Running calls against a specification\<close>

text \<open>
  A component is driven by a sequence of calls. The implementation's step may
  fail with an error; the specification's step is undefined where the contract
  promises nothing.
\<close>

fun run_calls :: "('c \<Rightarrow> 's \<Rightarrow> ('s \<times> 'r) outcome) \<Rightarrow> 's \<Rightarrow> 'c list \<Rightarrow> ('s \<times> 'r list) outcome" where
  "run_calls step s [] = Inr (s, [])"
| "run_calls step s (c # cs) =
     obind (step c s) (\<lambda>(s', r). obind (run_calls step s' cs) (\<lambda>(s'', rs). Inr (s'', r # rs)))"

fun run_spec :: "('c \<Rightarrow> 'a \<Rightarrow> ('a \<times> 'r) option) \<Rightarrow> 'a \<Rightarrow> 'c list \<Rightarrow> ('a \<times> 'r list) option" where
  "run_spec spec a [] = Some (a, [])"
| "run_spec spec a (c # cs) =
     (case spec c a of None \<Rightarrow> None
      | Some (a', r) \<Rightarrow> (case run_spec spec a' cs of None \<Rightarrow> None | Some (a'', rs) \<Rightarrow> Some (a'', r # rs)))"

locale refinement =
  fixes step :: "'c \<Rightarrow> 's \<Rightarrow> ('s \<times> 'r) outcome"
    and spec :: "'c \<Rightarrow> 'a \<Rightarrow> ('a \<times> 'r) option"
    and sinv :: "'s \<Rightarrow> bool"
    and sabs :: "'s \<Rightarrow> 'a"
  assumes step_refines: "sinv s \<Longrightarrow> spec c (sabs s) = Some (a, r) \<Longrightarrow>
      \<exists>s'. step c s = Inr (s', r) \<and> sinv s' \<and> sabs s' = a"
begin

lemma run_refines:
  assumes "sinv s" "run_spec spec (sabs s) cs = Some (a, rs)"
  shows "\<exists>s'. run_calls step s cs = Inr (s', rs) \<and> sinv s' \<and> sabs s' = a"
  using assms
proof (induction cs arbitrary: s rs)
  case (Cons c cs)
  obtain a1 r rs' where sp: "spec c (sabs s) = Some (a1, r)" "run_spec spec a1 cs = Some (a, rs')" "rs = r # rs'"
    using Cons.prems(2) by (auto split: option.splits)
  obtain s1 where s1: "step c s = Inr (s1, r)" "sinv s1" "sabs s1 = a1"
    using step_refines [OF Cons.prems(1) sp(1)] by blast
  obtain s' where "run_calls step s1 cs = Inr (s', rs')" "sinv s'" "sabs s' = a"
    using Cons.IH [of s1 rs'] s1 sp(2) by blast
  then show ?case using s1 sp(3) by auto
qed simp

end

section \<open>Fuel of a recursion over finitely many states\<close>

text \<open>
  A function is given fuel, and \<open>overflow n x\<close> says that \<open>n\<close> levels of recursion do
  not suffice for \<open>x\<close>. What it does at \<open>x\<close>, beyond the first level, depends only on
  a key, of which there are finitely many; and when the fuel does not suffice,
  some recursive call is to blame. Then the number of keys bounds the depth of
  every recursion that ends at all.
\<close>

locale fuel_recursion =
  fixes overflow :: "nat \<Rightarrow> 'x \<Rightarrow> bool"
    and key :: "'x \<Rightarrow> 'k option"
    and keys :: "'k set"
  assumes finite_keys: "finite keys"
    and overflow_0: "overflow 0 x"
    and overflow_mono: "overflow (Suc n) x \<Longrightarrow> overflow n x"
    and key_determines: "key x = Some k \<Longrightarrow> key y = Some k \<Longrightarrow> overflow (Suc n) x = overflow (Suc n) y"
    and overflow_key: "overflow (Suc n) x \<Longrightarrow> \<exists>k \<in> keys. key x = Some k"
    and overflow_call: "overflow (Suc n) x \<Longrightarrow> \<exists>y. overflow n y \<and> (\<forall>m \<ge> n. overflow m y \<longrightarrow> overflow (Suc m) x)"
begin

lemma overflow_antimono: "overflow n x \<Longrightarrow> m \<le> n \<Longrightarrow> overflow m x"
  by (induction n) (auto simp: overflow_0 le_Suc_eq dest: overflow_mono)

definition exactly :: "nat \<Rightarrow> 'x \<Rightarrow> bool" where
  "exactly n x \<longleftrightarrow> overflow n x \<and> \<not> overflow (Suc n) x"

lemma exactly_call: "exactly (Suc n) x \<Longrightarrow> \<exists>y. exactly n y"
proof -
  assume x: "exactly (Suc n) x"
  then obtain y where "overflow n y" "overflow (Suc n) y \<longrightarrow> overflow (Suc (Suc n)) x"
    unfolding exactly_def using overflow_call [of n x] le_SucI [of n n] by blast
  then show ?thesis using x unfolding exactly_def by blast
qed

lemma exactly_below: "exactly n x \<Longrightarrow> m \<le> n \<Longrightarrow> \<exists>y. exactly m y"
proof (induction n arbitrary: x)
  case (Suc n)
  show ?case
  proof (cases "m = Suc n")
    case False
    then have "m \<le> n" using Suc.prems(2) by simp
    then show ?thesis using Suc.IH exactly_call [OF Suc.prems(1)] by blast
  qed (use Suc.prems in blast)
qed auto

lemma exactly_le_card:
  assumes "exactly n x"
  shows "n \<le> card keys"
proof -
  define y where "y m = (SOME y. exactly m y)" for m
  have y: "exactly m (y m)" if "m \<le> n" for m
    unfolding y_def using exactly_below [OF assms that] by (rule someI_ex)
  define f where "f m = the (key (y m))" for m
  have f: "key (y m) = Some (f m)" "f m \<in> keys" if m: "m \<in> {1..n}" for m
  proof -
    have "overflow (Suc (m - 1)) (y m)" using y [of m] m by (simp add: exactly_def)
    then show "key (y m) = Some (f m)" "f m \<in> keys" using overflow_key f_def by fastforce+
  qed
  have less: False if "m \<in> {1..n}" "m' \<in> {1..n}" "f m = f m'" "m < m'" for m m'
  proof -
    have "overflow (Suc m) (y m')" using y [of m'] that overflow_antimono [of m' "y m'" "Suc m"]
      by (simp add: exactly_def)
    then have "overflow (Suc m) (y m)" using key_determines [of "y m" "f m" "y m'" m] f that by simp
    then show False using y [of m] that by (simp add: exactly_def)
  qed
  have "inj_on f {1..n}" by (rule inj_onI) (metis less linorder_neqE_nat)
  then have "card {1..n} \<le> card keys" using f(2) finite_keys by (intro card_inj_on_le) auto
  then show ?thesis by simp
qed

lemma fuel_bound:
  assumes "overflow (Suc (card keys)) x"
  shows "overflow n x"
proof (rule ccontr)
  assume n: "\<not> overflow n x"
  define k where "k = (LEAST k. \<not> overflow k x)"
  have k: "\<not> overflow k x" unfolding k_def using n by (rule LeastI)
  have "k \<noteq> 0" using k overflow_0 by metis
  then obtain j where j: "k = Suc j" by (cases k) auto
  have "overflow j x" using not_less_Least [of j "\<lambda>k. \<not> overflow k x"] j k_def by auto
  then have "j \<le> card keys" using exactly_le_card [of j x] k j by (simp add: exactly_def)
  then show False using overflow_antimono [OF assms, of k] k j by simp
qed

lemma fuel_exact:
  assumes "\<not> overflow n x" "card keys < m"
  shows "\<not> overflow m x"
  using fuel_bound overflow_antimono assms by (meson Suc_leI)

end

section \<open>Padding\<close>

text \<open>The padding macros of \<open>include/kcs.h\<close>.\<close>

definition PAD_N :: "int \<Rightarrow> int \<Rightarrow> int" where
  "PAD_N sz n = (if sz < n then n else sz + (n - sz mod n) mod n)"

definition PAD8 :: "int \<Rightarrow> int" where
  "PAD8 sz = PAD_N sz 8"

end
