(* ===== verification/C_String.thy ===== *)
theory C_String
  imports Prelude
begin

text \<open>
  The compact strings of \<open>include/lacc/string.h\<close> and \<open>src/util/string.c\<close>: a
  16-bit length with fourteen inline bytes, or with a pointer to the characters
  when the length is fourteen or more. The union's two views are two fields;
  which of them is read is decided by the length, as in the sources. Shown here:
  the padding invariant that the word-wise comparison of short strings relies
  on, that comparison decides equality of contents, that construction and
  reading back agree for every length that fits the 16-bit field, and what
  happens when it does not.
\<close>

section \<open>Representation\<close>

definition SHORT_STRING_LEN :: nat where
  "SHORT_STRING_LEN = 14"

record c_string =
  slen :: u16
  sstr :: string
  sptr :: string

definition zero_string :: c_string where
  "zero_string = \<lparr>slen = 0, sstr = replicate SHORT_STRING_LEN (CHR 0x00), sptr = []\<rparr>"

definition is_short :: "c_string \<Rightarrow> bool" where
  "is_short s \<longleftrightarrow> unat (slen s) < SHORT_STRING_LEN"

text \<open>The macro \<open>str_raw\<close> yields a pointer; the model yields the bytes it points to.\<close>

definition str_raw :: "c_string \<Rightarrow> string" where
  "str_raw s = (if slen s = 0 then []
     else if is_short s then sstr s else sptr s)"

definition str_chars :: "c_string \<Rightarrow> string" where
  "str_chars s = take (unat (slen s)) (str_raw s)"

text \<open>Copying \<open>n\<close> bytes over the beginning of a buffer.\<close>

definition memcpy :: "'a list \<Rightarrow> 'a list \<Rightarrow> nat \<Rightarrow> 'a list" where
  "memcpy dst src n = take n src @ drop n dst"

text \<open>The list of duplicated strings is kept so that they can be freed together.\<close>

type_synonym string_free_list = "string list"

definition dup_string :: "string_free_list \<Rightarrow> string \<Rightarrow> string_free_list \<times> string" where
  "dup_string fl str = (str # fl, str)"

definition clear_string_all :: "string_free_list \<Rightarrow> string_free_list" where
  "clear_string_all fl = []"

definition str_init_fl :: "string_free_list \<Rightarrow> string \<Rightarrow> string_free_list \<times> c_string" where
  "str_init_fl fl str =
     (let s = zero_string\<lparr>slen := word_of_nat (length str)\<rparr>
      in if is_short s then (fl, s\<lparr>sstr := memcpy (sstr s) str (unat (slen s))\<rparr>)
         else (let (fl', p) = dup_string fl str in (fl', s\<lparr>sptr := p\<rparr>)))"

definition str_init :: "string \<Rightarrow> c_string" where
  "str_init str = snd (str_init_fl [] str)"

section \<open>Comparison\<close>

fun memcmp :: "string \<Rightarrow> string \<Rightarrow> nat \<Rightarrow> int" where
  "memcmp (a # as) (b # bs) (Suc n) =
     (if a = b then memcmp as bs n else int (code_of a) - int (code_of b))"
| "memcmp _ _ _ = 0"

lemma memcmp_code [code]:
  "memcmp as bs n = (if n = 0 then 0 else case as of [] \<Rightarrow> 0 | a # as' \<Rightarrow>
     (case bs of [] \<Rightarrow> 0 | b # bs' \<Rightarrow> if a = b then memcmp as' bs' (n - 1) else int (code_of a) - int (code_of b)))"
  by (cases n) (simp_all split: list.splits)

definition str_cmp :: "c_string \<Rightarrow> c_string \<Rightarrow> int" where
  "str_cmp s1 s2 =
     (if slen s1 \<noteq> slen s2 then 1
      else if is_short s1 then (if sstr s1 \<noteq> sstr s2 then 1 else 0)
      else memcmp (sptr s1) (sptr s2) (unat (slen s1)))"

section \<open>Printing\<close>

definition octal_digit :: "nat \<Rightarrow> char" where
  "octal_digit d = char_of (48 + d mod 8)"

definition octal3 :: "nat \<Rightarrow> string" where
  "octal3 n = [octal_digit (n div 64), octal_digit (n div 8), octal_digit n]"

text \<open>
  One character in the encoding that both C and the assembler read. The code
  writes to a stream and returns how many characters it wrote; the model returns
  the characters.
\<close>

definition printchar :: "char \<Rightarrow> string" where
  "printchar ch =
     (if isprint ch \<and> ch \<noteq> CHR 0x22 \<and> ch \<noteq> CHR 0x5C then [ch]
      else if ch = CHR 0x08 then [CHR 0x5C, CHR ''b'']
      else if ch = CHR 0x09 then [CHR 0x5C, CHR ''t'']
      else if ch = CHR 0x0A then [CHR 0x5C, CHR ''n'']
      else if ch = CHR 0x0C then [CHR 0x5C, CHR ''f'']
      else if ch = CHR 0x0D then [CHR 0x5C, CHR ''r'']
      else if ch = CHR 0x5C then [CHR 0x5C, CHR 0x5C]
      else if ch = CHR 0x22 then [CHR 0x5C, CHR 0x22]
      else CHR 0x5C # octal3 (code_of ch))"

definition print_body :: "string \<Rightarrow> string" where
  "print_body cs = concat (map printchar cs)"

text \<open>The loop of \<open>fprintstr\<close>: output so far and the running count \<open>n\<close>.\<close>

fun fprintstr_loop :: "string \<Rightarrow> string \<Rightarrow> nat \<Rightarrow> string \<times> nat" where
  "fprintstr_loop out [] n = (out, n)"
| "fprintstr_loop out (c # cs) n = fprintstr_loop (out @ printchar c) cs (n + length (printchar c))"

definition fprintstr :: "string \<Rightarrow> c_string \<Rightarrow> string \<times> nat" where
  "fprintstr out s =
     (let (out', n) = fprintstr_loop (out @ [CHR 0x22]) (str_chars s) 0
      in (out' @ [CHR 0x22], n + 2))"

section \<open>The representation invariant\<close>

text \<open>
  A short string's unused inline bytes are zero, so that comparing the sixteen
  raw bytes compares the contents; a long string's pointer has at least as many
  characters as the length says.
\<close>

definition wf_string :: "c_string \<Rightarrow> bool" where
  "wf_string s \<longleftrightarrow> length (sstr s) = SHORT_STRING_LEN \<and>
     (if is_short s then drop (unat (slen s)) (sstr s) =
          replicate (SHORT_STRING_LEN - unat (slen s)) (CHR 0x00)
      else unat (slen s) \<le> length (sptr s))"

lemmas string_defs = is_short_def str_raw_def str_chars_def SHORT_STRING_LEN_def

lemma length_memcpy [simp]:
  "n \<le> length src \<Longrightarrow> n \<le> length dst \<Longrightarrow> length (memcpy dst src n) = length dst"
  by (simp add: memcpy_def)

lemma take_memcpy [simp]: "n \<le> length src \<Longrightarrow> take n (memcpy dst src n) = take n src"
  by (simp add: memcpy_def)

lemma drop_memcpy [simp]: "n \<le> length src \<Longrightarrow> drop n (memcpy dst src n) = drop n dst"
  by (simp add: memcpy_def)

lemma length_str_chars [simp]: "wf_string s \<Longrightarrow> length (str_chars s) = unat (slen s)"
  by (auto simp: wf_string_def string_defs unat_eq_zero split: if_splits)

lemma str_chars_short: "is_short s \<Longrightarrow> str_chars s = take (unat (slen s)) (sstr s)"
  by (auto simp: string_defs)

lemma str_chars_long: "\<not> is_short s \<Longrightarrow> str_chars s = take (unat (slen s)) (sptr s)"
  by (auto simp: string_defs)

lemma unat_slen_init: "unat (word_of_nat (length str) :: u16) = length str mod 65536"
  by (simp add: unat_of_nat)

lemma unat_slen_init_le: "unat (word_of_nat (length str) :: u16) \<le> length str"
  by (simp add: unat_slen_init)

lemma str_init_simps:
  "slen (str_init str) = word_of_nat (length str)"
  "is_short (str_init str) \<Longrightarrow> sstr (str_init str) =
     memcpy (sstr zero_string) str (unat (word_of_nat (length str) :: u16))"
  "\<not> is_short (str_init str) \<Longrightarrow> sptr (str_init str) = str"
  "\<not> is_short (str_init str) \<Longrightarrow> sstr (str_init str) = sstr zero_string"
  by (auto simp: str_init_def str_init_fl_def is_short_def dup_string_def zero_string_def Let_def)

lemma str_init_wf: "wf_string (str_init str)"
proof (cases "is_short (str_init str)")
  case True
  let ?n = "unat (word_of_nat (length str) :: u16)"
  have "?n < SHORT_STRING_LEN" using True by (simp add: is_short_def str_init_simps)
  then show ?thesis
    using True unat_slen_init_le [of str]
    by (simp add: wf_string_def str_init_simps zero_string_def)
next
  case False
  then show ?thesis
    using unat_slen_init_le [of str]
    by (simp add: wf_string_def str_init_simps zero_string_def)
qed

lemma str_init_fl_snd: "snd (str_init_fl fl str) = str_init str"
  by (simp add: str_init_def str_init_fl_def dup_string_def Let_def)

lemma str_chars_init_mod: "str_chars (str_init str) = take (length str mod 65536) str"
proof (cases "is_short (str_init str)")
  case True
  then show ?thesis
    using unat_slen_init_le [of str]
    by (simp add: str_chars_short str_init_simps unat_slen_init)
next
  case False
  then show ?thesis by (simp add: str_chars_long str_init_simps unat_slen_init)
qed

lemma str_chars_str_init [simp]: "length str < 65536 \<Longrightarrow> str_chars (str_init str) = str"
  by (simp add: str_chars_init_mod)

lemma memcmp_zero_iff:
  "n \<le> length xs \<Longrightarrow> n \<le> length ys \<Longrightarrow> memcmp xs ys n = 0 \<longleftrightarrow> take n xs = take n ys"
proof (induction xs ys n rule: memcmp.induct)
  case (1 a as b bs n)
  then show ?case by simp
qed auto

lemma str_cmp_eq_iff:
  assumes "wf_string s" "wf_string t"
  shows "str_cmp s t = 0 \<longleftrightarrow> str_chars s = str_chars t"
proof (cases "slen s = slen t")
  case False
  then have "length (str_chars s) \<noteq> length (str_chars t)"
    using assms by (simp add: word_unat_eq_iff)
  then show ?thesis using False by (auto simp: str_cmp_def)
next
  case True
  then have same: "is_short s = is_short t" by (simp add: is_short_def)
  show ?thesis
  proof (cases "is_short s")
    case short: True
    have "sstr s = sstr t \<longleftrightarrow> take (unat (slen s)) (sstr s) = take (unat (slen s)) (sstr t)"
    proof
      assume "take (unat (slen s)) (sstr s) = take (unat (slen s)) (sstr t)"
      moreover have "drop (unat (slen s)) (sstr s) = drop (unat (slen s)) (sstr t)"
        using assms short same True by (simp add: wf_string_def)
      ultimately show "sstr s = sstr t" by (metis append_take_drop_id)
    qed simp
    then show ?thesis using short same True by (simp add: str_cmp_def str_chars_short)
  next
    case False
    then show ?thesis
      using assms same True by (simp add: str_cmp_def str_chars_long memcmp_zero_iff wf_string_def)
  qed
qed

lemma fprintstr_loop_eq:
  "fprintstr_loop out cs n = (out @ print_body cs, n + length (print_body cs))"
  by (induction cs arbitrary: out n) (auto simp: print_body_def)

lemma fprintstr_eq:
  "fprintstr out s = (out @ [CHR 0x22] @ print_body (str_chars s) @ [CHR 0x22],
     length (print_body (str_chars s)) + 2)"
  by (simp add: fprintstr_def fprintstr_loop_eq)

lemma print_body_Nil [simp]: "print_body [] = []"
  by (simp add: print_body_def)

lemma print_body_Cons [simp]: "print_body (c # cs) = printchar c @ print_body cs"
  by (simp add: print_body_def)

section \<open>Properties of strings\<close>

text \<open>
  For strings that fit the 16-bit length field, whatever the two
  representations are, \<open>str_cmp\<close> of the strings built from two character
  sequences is zero exactly when the sequences are equal.
\<close>

lemma str_cmp_decides_equality:
  assumes "length a < 65536" "length b < 65536"
  shows "str_cmp (str_init a) (str_init b) = 0 \<longleftrightarrow> a = b"
  using assms str_cmp_eq_iff [OF str_init_wf str_init_wf, of a b] by simp

text \<open>A length that is a multiple of 65536 is truncated to zero: such a string equals the empty one.\<close>

lemma str_init_truncates: "length a = 65536 \<Longrightarrow> str_cmp (str_init a) (str_init []) = 0"
  using str_cmp_eq_iff [OF str_init_wf str_init_wf, of a "[]"] by (simp add: str_chars_init_mod)

end
