(* ===== verification/Hash_Table.thy ===== *)
theory Hash_Table
  imports C_String
begin

text \<open>
  The chained hash table of \<open>src/util/hash.c\<close>. Every slot of the top-level array
  is a chain whose first entry lives in the array itself; the extra slot
  \<open>table[capacity]\<close> heads the list of entries that are free for reuse. An entry
  with no data is only ever the first of its chain. The three operations share
  one walk, as in the code. Elements are abstract: the table is parametrised by
  the client's \<open>key\<close> and \<open>add\<close> callbacks, and the calls of the \<open>del\<close> callback are
  recorded in the order they happen. The interface \<open>key_map\<close> states the
  insert-once map that clients rely on, and the table is shown to refine it.
\<close>

section \<open>State\<close>

record 'v hash_entry =
  edata :: "'v option"
  ehash :: u64

datatype hash_op = HASH_LOOKUP | HASH_INSERT | HASH_REMOVE

record 'v hash_table =
  hcap :: nat
  htable :: "'v hash_entry list list"
  hfree :: "'v hash_entry list"
  hdeleted :: "'v list"

definition empty_entry :: "'v hash_entry" where
  "empty_entry = \<lparr>edata = None, ehash = 0\<rparr>"

text \<open>Characters enter the hash sign-extended, as \<open>c = *p++\<close> reads a plain \<open>char\<close> into an \<open>int\<close>.\<close>

fun djb2_loop :: "u64 \<Rightarrow> string \<Rightarrow> u64" where
  "djb2_loop h [] = h"
| "djb2_loop h (c # cs) = djb2_loop ((push_bit 5 h + h) + word_of_int (schar c)) cs"

definition djb2_hash :: "c_string \<Rightarrow> u64" where
  "djb2_hash str = djb2_loop 5381 (str_chars str)"

section \<open>Entries and their reuse\<close>

definition hash_alloc_entry :: "'v hash_entry list \<Rightarrow> 'v hash_entry list \<times> 'v hash_entry" where
  "hash_alloc_entry free = (case free of [] \<Rightarrow> ([], empty_entry) | _ # rest \<Rightarrow> (rest, empty_entry))"

definition hash_free_entry :: "'v hash_entry list \<Rightarrow> 'v hash_entry \<Rightarrow> 'v hash_entry list" where
  "hash_free_entry free e = e # free"

section \<open>The walk\<close>

text \<open>
  The loop of \<open>hash_walk\<close> on one chain. It returns the chain and the free list
  as they are after the loop, and the position of \<open>ref\<close>, \<open>None\<close> where \<open>ref\<close> is
  \<open>NULL\<close>.
\<close>

fun hash_walk_loop ::
  "('v \<Rightarrow> c_string) \<Rightarrow> hash_op \<Rightarrow> u64 \<Rightarrow> c_string \<Rightarrow> 'v hash_entry list \<Rightarrow> 'v hash_entry list
   \<Rightarrow> 'v hash_entry list \<times> 'v hash_entry list \<times> nat option" where
  "hash_walk_loop key op h k free [] = (free, [], None)"
| "hash_walk_loop key op h k free (e # es) =
     (case edata e of
        None \<Rightarrow> (free, e # es, Some 0)
      | Some v \<Rightarrow>
          (if ehash e = h \<and> str_cmp (key v) k = 0 then (free, e # es, Some 0)
           else if es = [] \<and> op = HASH_INSERT
             then (let (free', n) = hash_alloc_entry free in (free', [e, n], Some 1))
           else (let (free', es', pos) = hash_walk_loop key op h k free es
                 in (free', e # es', map_option Suc pos))))"

definition hash_pos :: "'v hash_table \<Rightarrow> u64 \<Rightarrow> nat" where
  "hash_pos tab h = unat h mod hcap tab"

text \<open>
  Unlinking the entry at position \<open>i\<close>: the first entry is overwritten by its
  successor, or zeroed when it has none; any other is cut out. The entry that is
  no longer used goes to the free list.
\<close>

definition hash_unlink ::
  "'v hash_entry list \<Rightarrow> 'v hash_entry list \<Rightarrow> nat \<Rightarrow> 'v hash_entry list \<times> 'v hash_entry list" where
  "hash_unlink free chain i =
     (if i = 0 then
        (case tl chain of
           [] \<Rightarrow> (free, [empty_entry])
         | e # es \<Rightarrow> (hash_free_entry free e, e # es))
      else (hash_free_entry free (chain ! i), take i chain @ drop (Suc i) chain))"

text \<open>
  The whole walk. The result is the entry that \<open>ref\<close> points to, together with
  its position (\<open>None\<close> when it is the static \<open>deleted\<close> entry), or \<open>None\<close>.
\<close>

definition hash_walk ::
  "('v \<Rightarrow> c_string) \<Rightarrow> 'v hash_table \<Rightarrow> hash_op \<Rightarrow> c_string
   \<Rightarrow> ('v hash_table \<times> ('v hash_entry \<times> nat option) option) outcome" where
  "hash_walk key tab op k =
     (let h = djb2_hash k;
          p = hash_pos tab h;
          (free, chain, pos) = hash_walk_loop key op h k (hfree tab) (htable tab ! p);
          tab' = tab\<lparr>hfree := free, htable := (htable tab)[p := chain]\<rparr>
      in case pos of
           None \<Rightarrow> Inr (tab', None)
         | Some i \<Rightarrow>
             (let ref = chain ! i
              in case op of
                   HASH_LOOKUP \<Rightarrow> Inr (tab', Some (ref, Some i))
                 | HASH_INSERT \<Rightarrow>
                     obind (oassert (edata ref = None \<or> ehash ref = h))
                       (\<lambda>_. let ref' = ref\<lparr>ehash := h\<rparr>
                            in Inr (tab'\<lparr>htable := (htable tab')[p := chain[i := ref']]\<rparr>,
                                    Some (ref', Some i)))
                 | HASH_REMOVE \<Rightarrow>
                     (if edata ref = None then
                        obind (oassert (i = 0 \<and> ehash ref = 0)) (\<lambda>_. Inr (tab', None))
                      else
                        (let (free', chain') = hash_unlink free chain i
                         in Inr (tab'\<lparr>hfree := free', htable := (htable tab')[p := chain']\<rparr>,
                                 Some (ref, None))))))"

section \<open>Operations\<close>

definition hash_init :: "nat \<Rightarrow> 'v hash_table outcome" where
  "hash_init cap =
     obind (oassert (cap > 0))
       (\<lambda>_. Inr \<lparr>hcap = cap, htable = replicate cap [empty_entry], hfree = [], hdeleted = []\<rparr>)"

definition hash_insert ::
  "('v \<Rightarrow> c_string) \<Rightarrow> ('v \<Rightarrow> 'v) \<Rightarrow> 'v hash_table \<Rightarrow> 'v \<Rightarrow> ('v hash_table \<times> 'v) outcome" where
  "hash_insert key add tab val =
     obind (hash_walk key tab HASH_INSERT (key val))
       (\<lambda>(tab', r). case r of
          Some (ref, Some i) \<Rightarrow>
            (case edata ref of
               Some v \<Rightarrow> Inr (tab', v)
             | None \<Rightarrow>
                 (let p = hash_pos tab' (djb2_hash (key val));
                      v = add val
                  in Inr (tab'\<lparr>htable := (htable tab')[p := (htable tab' ! p)[i := ref\<lparr>edata := Some v\<rparr>]]\<rparr>,
                          v)))
        | _ \<Rightarrow> Inl Undefined_Behaviour)"

definition hash_lookup :: "('v \<Rightarrow> c_string) \<Rightarrow> 'v hash_table \<Rightarrow> c_string \<Rightarrow> 'v option outcome" where
  "hash_lookup key tab k =
     obind (hash_walk key tab HASH_LOOKUP k)
       (\<lambda>(tab', r). case r of None \<Rightarrow> Inr None | Some (ref, _) \<Rightarrow> Inr (edata ref))"

definition hash_remove :: "('v \<Rightarrow> c_string) \<Rightarrow> 'v hash_table \<Rightarrow> c_string \<Rightarrow> 'v hash_table outcome" where
  "hash_remove key tab k =
     obind (hash_walk key tab HASH_REMOVE k)
       (\<lambda>(tab', r). case r of
          None \<Rightarrow> Inr tab'
        | Some (ref, _) \<Rightarrow>
            (case edata ref of
               None \<Rightarrow> Inr tab'
             | Some v \<Rightarrow> Inr (tab'\<lparr>hdeleted := hdeleted tab' @ [v]\<rparr>)))"

text \<open>The elements of a chain in the order \<open>hash_chain_clear\<close> deletes them: the last entry first.\<close>

fun hash_chain_clear :: "'v hash_entry list \<Rightarrow> 'v list outcome" where
  "hash_chain_clear [] = Inr []"
| "hash_chain_clear (e # es) =
     (case edata e of
        None \<Rightarrow> Inl Assert_Failed
      | Some v \<Rightarrow> obind (hash_chain_clear es) (\<lambda>vs. Inr (vs @ [v])))"

fun hash_clear_slots ::
  "'v hash_entry list list \<Rightarrow> 'v hash_entry list \<Rightarrow> 'v list \<Rightarrow> ('v hash_entry list \<times> 'v list) outcome" where
  "hash_clear_slots [] free log = Inr (free, log)"
| "hash_clear_slots (chain # rest) free log =
     (case chain of
        [] \<Rightarrow> Inl Undefined_Behaviour
      | ref # rs \<Rightarrow>
          (case edata ref of
             None \<Rightarrow> hash_clear_slots rest free log
           | Some v \<Rightarrow>
               obind (hash_chain_clear rs)
                 (\<lambda>vs. hash_clear_slots rest (rs @ free) (log @ v # vs))))"

definition hash_clear :: "'v hash_table \<Rightarrow> 'v hash_table outcome" where
  "hash_clear tab =
     obind (hash_clear_slots (htable tab) (hfree tab) (hdeleted tab))
       (\<lambda>(free, log). Inr (tab\<lparr>htable := replicate (hcap tab) [empty_entry],
                               hfree := free, hdeleted := log\<rparr>))"

text \<open>\<open>hash_chain_free\<close> deletes from the end of the chain; the first entry of a used slot comes last.\<close>

fun hash_chain_free :: "'v hash_entry list \<Rightarrow> 'v list outcome" where
  "hash_chain_free [] = Inr []"
| "hash_chain_free (e # es) =
     obind (hash_chain_free es)
       (\<lambda>vs. case edata e of None \<Rightarrow> Inr vs | Some v \<Rightarrow> Inr (vs @ [v]))"

fun hash_destroy_slots :: "'v hash_entry list list \<Rightarrow> 'v list \<Rightarrow> 'v list outcome" where
  "hash_destroy_slots [] log = Inr log"
| "hash_destroy_slots (chain # rest) log =
     (case chain of
        [] \<Rightarrow> Inl Undefined_Behaviour
      | ref # rs \<Rightarrow>
          (case edata ref of
             None \<Rightarrow> obind (oassert (rs = [])) (\<lambda>_. hash_destroy_slots rest log)
           | Some v \<Rightarrow> obind (hash_chain_free (ref # rs)) (\<lambda>vs. hash_destroy_slots rest (log @ vs))))"

definition hash_destroy :: "'v hash_table \<Rightarrow> 'v hash_table outcome" where
  "hash_destroy tab =
     obind (hash_destroy_slots (htable tab) (hdeleted tab))
       (\<lambda>log. Inr \<lparr>hcap = 0, htable = [], hfree = [], hdeleted = log\<rparr>)"

section \<open>Invariant and abstraction\<close>

text \<open>The slot of a key, from its characters.\<close>

definition slot_of :: "nat \<Rightarrow> string \<Rightarrow> nat" where
  "slot_of cap s = unat (djb2_loop 5381 s) mod cap"

definition full_entry :: "('v \<Rightarrow> c_string) \<Rightarrow> 'v hash_entry \<Rightarrow> bool" where
  "full_entry key e \<longleftrightarrow>
     (case edata e of None \<Rightarrow> False | Some v \<Rightarrow> wf_string (key v) \<and> ehash e = djb2_hash (key v))"

definition entry_assoc :: "('v \<Rightarrow> c_string) \<Rightarrow> 'v hash_entry \<Rightarrow> string \<times> 'v" where
  "entry_assoc key e = (str_chars (key (the (edata e))), the (edata e))"

definition used_chain :: "('v \<Rightarrow> c_string) \<Rightarrow> nat \<Rightarrow> nat \<Rightarrow> 'v hash_entry list \<Rightarrow> bool" where
  "used_chain key cap p chain \<longleftrightarrow>
     (\<forall>e \<in> set chain. full_entry key e \<and> slot_of cap (fst (entry_assoc key e)) = p) \<and>
     distinct (map fst (map (entry_assoc key) chain))"

definition chain_inv :: "('v \<Rightarrow> c_string) \<Rightarrow> nat \<Rightarrow> nat \<Rightarrow> 'v hash_entry list \<Rightarrow> bool" where
  "chain_inv key cap p chain \<longleftrightarrow>
     chain = [empty_entry] \<or> (chain \<noteq> [] \<and> used_chain key cap p chain)"

definition chain_assoc :: "('v \<Rightarrow> c_string) \<Rightarrow> 'v hash_entry list \<Rightarrow> (string \<times> 'v) list" where
  "chain_assoc key chain = map (entry_assoc key) (filter (\<lambda>e. edata e \<noteq> None) chain)"

definition hash_inv :: "('v \<Rightarrow> c_string) \<Rightarrow> 'v hash_table \<Rightarrow> bool" where
  "hash_inv key tab \<longleftrightarrow> 0 < hcap tab \<and> length (htable tab) = hcap tab \<and>
     (\<forall>p < hcap tab. chain_inv key (hcap tab) p (htable tab ! p))"

definition hash_abs :: "('v \<Rightarrow> c_string) \<Rightarrow> 'v hash_table \<Rightarrow> string \<Rightarrow> 'v option" where
  "hash_abs key tab s = map_of (chain_assoc key (htable tab ! slot_of (hcap tab) s)) s"

definition hash_elements :: "'v hash_table \<Rightarrow> 'v set" where
  "hash_elements tab = {v. \<exists>chain \<in> set (htable tab). \<exists>e \<in> set chain. edata e = Some v}"

lemma djb2_hash_eq: "djb2_hash k = djb2_loop 5381 (str_chars k)"
  by (simp add: djb2_hash_def)

lemma hash_pos_slot: "hash_pos tab (djb2_hash k) = slot_of (hcap tab) (str_chars k)"
  by (simp add: hash_pos_def slot_of_def djb2_hash_def)

lemma edata_empty [simp]: "edata empty_entry = None"
  by (simp add: empty_entry_def)

lemma full_entryD:
  "full_entry key e \<Longrightarrow> \<exists>v. edata e = Some v \<and> wf_string (key v) \<and> ehash e = djb2_hash (key v)"
  by (auto simp: full_entry_def split: option.splits)

lemma used_chain_assoc: "used_chain key cap p chain \<Longrightarrow> chain_assoc key chain = map (entry_assoc key) chain"
proof -
  assume "used_chain key cap p chain"
  then have "filter (\<lambda>e. edata e \<noteq> None) chain = chain"
    by (intro filter_True) (auto simp: used_chain_def dest!: full_entryD)
  then show ?thesis by (simp add: chain_assoc_def)
qed

lemma chain_assoc_empty [simp]: "chain_assoc key [empty_entry] = []"
  by (simp add: chain_assoc_def)

lemma used_chain_tl: "used_chain key cap p (e # es) \<Longrightarrow> used_chain key cap p es"
  by (simp add: used_chain_def)

text \<open>An entry matches a key exactly when its element has that key.\<close>

lemma entry_match:
  assumes "full_entry key e" "wf_string k"
  shows "(case edata e of None \<Rightarrow> False | Some v \<Rightarrow> ehash e = djb2_hash k \<and> str_cmp (key v) k = 0)
     \<longleftrightarrow> fst (entry_assoc key e) = str_chars k"
proof -
  obtain v where v: "edata e = Some v" "wf_string (key v)" "ehash e = djb2_hash (key v)"
    using full_entryD [OF assms(1)] by blast
  then show ?thesis
    using str_cmp_eq_iff [OF v(2) assms(2)] by (auto simp: entry_assoc_def djb2_hash_def)
qed

section \<open>The walk finds what the map says\<close>

lemma walk_hit:
  assumes "used_chain key cap p chain" "wf_string k"
    and "map_of (map (entry_assoc key) chain) (str_chars k) = Some v"
  shows "\<exists>i < length chain. hash_walk_loop key op (djb2_hash k) k free chain = (free, chain, Some i) \<and>
     edata (chain ! i) = Some v \<and> ehash (chain ! i) = djb2_hash k \<and>
     fst (entry_assoc key (chain ! i)) = str_chars k"
  using assms
proof (induction chain)
  case (Cons e es)
  have full: "full_entry key e" using Cons.prems(1) by (simp add: used_chain_def)
  then obtain w where w: "edata e = Some w" "wf_string (key w)" "ehash e = djb2_hash (key w)"
    using full_entryD by blast
  show ?case
  proof (cases "fst (entry_assoc key e) = str_chars k")
    case True
    then have "ehash e = djb2_hash k \<and> str_cmp (key w) k = 0"
      using entry_match [OF full Cons.prems(2)] w by simp
    moreover have "w = v" using True Cons.prems(3) w by (simp add: entry_assoc_def)
    ultimately show ?thesis using True w by (intro exI [of _ 0]) simp
  next
    case False
    then have miss: "\<not> (ehash e = djb2_hash k \<and> str_cmp (key w) k = 0)"
      using entry_match [OF full Cons.prems(2)] w by simp
    have m: "map_of (map (entry_assoc key) es) (str_chars k) = Some v"
      using Cons.prems(3) False by (cases "entry_assoc key e") simp
    then have ne: "es \<noteq> []" by auto
    obtain i where "i < length es" "hash_walk_loop key op (djb2_hash k) k free es = (free, es, Some i)"
        "edata (es ! i) = Some v" "ehash (es ! i) = djb2_hash k"
        "fst (entry_assoc key (es ! i)) = str_chars k"
      using Cons.IH [OF used_chain_tl [OF Cons.prems(1)] Cons.prems(2) m] by blast
    then show ?thesis using miss w ne by (intro exI [of _ "Suc i"]) auto
  qed
qed simp

lemma walk_miss:
  assumes "used_chain key cap p chain" "wf_string k" "op \<noteq> HASH_INSERT"
    and "map_of (map (entry_assoc key) chain) (str_chars k) = None"
  shows "hash_walk_loop key op (djb2_hash k) k free chain = (free, chain, None)"
  using assms
proof (induction chain)
  case (Cons e es)
  have full: "full_entry key e" using Cons.prems(1) by (simp add: used_chain_def)
  then obtain w where w: "edata e = Some w" using full_entryD by blast
  have "fst (entry_assoc key e) \<noteq> str_chars k" and m: "map_of (map (entry_assoc key) es) (str_chars k) = None"
    using Cons.prems(4) by (cases "entry_assoc key e"; simp split: if_splits)+
  then have "\<not> (ehash e = djb2_hash k \<and> str_cmp (key w) k = 0)"
    using entry_match [OF full Cons.prems(2)] w by simp
  then show ?case
    using Cons.IH [OF used_chain_tl [OF Cons.prems(1)] Cons.prems(2,3) m] w Cons.prems(3) by auto
qed simp

lemma walk_extend:
  assumes "used_chain key cap p chain" "wf_string k" "chain \<noteq> []"
    and "map_of (map (entry_assoc key) chain) (str_chars k) = None"
  shows "hash_walk_loop key HASH_INSERT (djb2_hash k) k free chain =
     (fst (hash_alloc_entry free), chain @ [empty_entry], Some (length chain))"
  using assms
proof (induction chain)
  case (Cons e es)
  have full: "full_entry key e" using Cons.prems(1) by (simp add: used_chain_def)
  then obtain w where w: "edata e = Some w" using full_entryD by blast
  have "fst (entry_assoc key e) \<noteq> str_chars k" and m: "map_of (map (entry_assoc key) es) (str_chars k) = None"
    using Cons.prems(4) by (cases "entry_assoc key e"; simp split: if_splits)+
  then have miss: "\<not> (ehash e = djb2_hash k \<and> str_cmp (key w) k = 0)"
    using entry_match [OF full Cons.prems(2)] w by simp
  show ?case
  proof (cases "es = []")
    case True
    then show ?thesis using miss w by (auto simp: hash_alloc_entry_def split: list.splits)
  next
    case False
    then show ?thesis
      using Cons.IH [OF used_chain_tl [OF Cons.prems(1)] Cons.prems(2) False m] miss w by auto
  qed
qed simp

lemma walk_empty: "hash_walk_loop key op h k free [empty_entry] = (free, [empty_entry], Some 0)"
  by simp

section \<open>Slots\<close>

lemma slot_less: "0 < cap \<Longrightarrow> slot_of cap s < cap"
  by (simp add: slot_of_def)

lemma hash_invD:
  "hash_inv key tab \<Longrightarrow> chain_inv key (hcap tab) (slot_of (hcap tab) s) (htable tab ! slot_of (hcap tab) s)"
  by (simp add: hash_inv_def slot_less)

lemma chain_inv_cases:
  assumes "chain_inv key cap p chain"
  obtains (empty) "chain = [empty_entry]" | (used) "chain \<noteq> []" "used_chain key cap p chain"
  using assms by (auto simp: chain_inv_def)

text \<open>Replacing the chain of one slot changes the map at the keys of that slot only.\<close>

lemma hash_inv_upd:
  assumes "hash_inv key tab" "chain_inv key (hcap tab) p chain" "p < hcap tab"
    and "hcap tab' = hcap tab" "htable tab' = (htable tab)[p := chain]"
  shows "hash_inv key tab'"
  using assms by (auto simp: hash_inv_def nth_list_update)

lemma hash_abs_upd:
  assumes "hash_inv key tab" "p < hcap tab"
    and "hcap tab' = hcap tab" "htable tab' = (htable tab)[p := chain]"
  shows "hash_abs key tab' s =
     (if slot_of (hcap tab) s = p then map_of (chain_assoc key chain) s else hash_abs key tab s)"
  using assms by (auto simp: hash_abs_def hash_inv_def)

lemma hash_abs_chain:
  assumes "hash_inv key tab" "p < hcap tab"
    and "hcap tab' = hcap tab" "htable tab' = (htable tab)[p := chain]"
    and "p = slot_of (hcap tab) s0"
    and "map_of (chain_assoc key chain) = (map_of (chain_assoc key (htable tab ! p)))(s0 := x)"
  shows "hash_abs key tab' = (hash_abs key tab)(s0 := x)"
proof
  fix s
  show "hash_abs key tab' s = ((hash_abs key tab)(s0 := x)) s"
    using hash_abs_upd [OF assms(1-4), of s] assms(5,6) by (auto simp: hash_abs_def)
qed

section \<open>Operations against the map\<close>

lemma hash_lookup_abs:
  assumes "hash_inv key tab" "wf_string k"
  shows "hash_lookup key tab k = Inr (hash_abs key tab (str_chars k))"
proof -
  let ?p = "slot_of (hcap tab) (str_chars k)"
  show ?thesis using hash_invD [OF assms(1), of "str_chars k"]
  proof (cases rule: chain_inv_cases)
    case empty
    then show ?thesis
      by (simp add: hash_lookup_def hash_walk_def hash_pos_slot hash_abs_def Let_def)
  next
    case used
    then have as: "chain_assoc key (htable tab ! ?p) = map (entry_assoc key) (htable tab ! ?p)"
      by (simp add: used_chain_assoc)
    show ?thesis
    proof (cases "hash_abs key tab (str_chars k)")
      case None
      then have "hash_walk_loop key HASH_LOOKUP (djb2_hash k) k (hfree tab) (htable tab ! ?p) =
          (hfree tab, htable tab ! ?p, None)"
        using walk_miss [OF used(2) assms(2)] as by (simp add: hash_abs_def)
      then show ?thesis using None by (simp add: hash_lookup_def hash_walk_def hash_pos_slot Let_def)
    next
      case (Some v)
      then obtain i where "hash_walk_loop key HASH_LOOKUP (djb2_hash k) k (hfree tab) (htable tab ! ?p) =
          (hfree tab, htable tab ! ?p, Some i)" "edata (htable tab ! ?p ! i) = Some v"
        using walk_hit [OF used(2) assms(2)] as by (fastforce simp: hash_abs_def)
      then show ?thesis using Some by (simp add: hash_lookup_def hash_walk_def hash_pos_slot Let_def)
    qed
  qed
qed

lemma hash_insert_hit:
  assumes "hash_inv key tab" "wf_string (key val)" "hash_abs key tab (str_chars (key val)) = Some v"
  shows "hash_insert key add tab val = Inr (tab, v)"
proof -
  let ?k = "key val"
  let ?p = "slot_of (hcap tab) (str_chars ?k)"
  let ?c = "htable tab ! ?p"
  have used: "used_chain key (hcap tab) ?p ?c"
    using hash_invD [OF assms(1), of "str_chars ?k"] assms(3)
    by (cases rule: chain_inv_cases) (simp_all add: hash_abs_def)
  then obtain i where i: "i < length ?c" "edata (?c ! i) = Some v" "ehash (?c ! i) = djb2_hash ?k"
      "hash_walk_loop key HASH_INSERT (djb2_hash ?k) ?k (hfree tab) ?c = (hfree tab, ?c, Some i)"
    using walk_hit [OF used assms(2)] assms(3) by (fastforce simp: hash_abs_def used_chain_assoc)
  have "(?c ! i)\<lparr>ehash := djb2_hash ?k\<rparr> = ?c ! i" using i(3) by simp
  then have same: "?c[i := (?c ! i)\<lparr>ehash := djb2_hash ?k\<rparr>] = ?c" by simp
  show ?thesis
    using i by (simp add: hash_insert_def hash_walk_def hash_pos_slot same Let_def)
qed

definition new_entry :: "('v \<Rightarrow> c_string) \<Rightarrow> ('v \<Rightarrow> 'v) \<Rightarrow> 'v \<Rightarrow> 'v hash_entry" where
  "new_entry key add val = \<lparr>edata = Some (add val), ehash = djb2_hash (key val)\<rparr>"

definition grown_chain :: "('v \<Rightarrow> c_string) \<Rightarrow> ('v \<Rightarrow> 'v) \<Rightarrow> 'v hash_entry list \<Rightarrow> 'v \<Rightarrow> 'v hash_entry list" where
  "grown_chain key add chain val =
     (if chain = [empty_entry] then [new_entry key add val] else chain @ [new_entry key add val])"

lemma hash_insert_miss:
  assumes "hash_inv key tab" "wf_string (key val)" "hash_abs key tab (str_chars (key val)) = None"
  shows "\<exists>tab'. hash_insert key add tab val = Inr (tab', add val) \<and> hcap tab' = hcap tab \<and>
     hdeleted tab' = hdeleted tab \<and>
     htable tab' = (htable tab)[slot_of (hcap tab) (str_chars (key val)) :=
        grown_chain key add (htable tab ! slot_of (hcap tab) (str_chars (key val))) val]"
proof -
  let ?k = "key val"
  let ?p = "slot_of (hcap tab) (str_chars ?k)"
  let ?c = "htable tab ! ?p"
  have p: "?p < length (htable tab)" using assms(1) by (simp add: hash_inv_def slot_less)
  show ?thesis using hash_invD [OF assms(1), of "str_chars ?k"]
  proof (cases rule: chain_inv_cases)
    case empty
    then show ?thesis using p
      by (simp add: hash_insert_def hash_walk_def hash_pos_slot hash_pos_def slot_of_def djb2_hash_def
          grown_chain_def new_entry_def empty_entry_def Let_def)
  next
    case used
    have ne: "?c \<noteq> [empty_entry]" using used(2) by (auto simp: used_chain_def full_entry_def)
    have w: "hash_walk_loop key HASH_INSERT (djb2_hash ?k) ?k (hfree tab) ?c =
        (fst (hash_alloc_entry (hfree tab)), ?c @ [empty_entry], Some (length ?c))"
      using walk_extend [OF used(2) assms(2) used(1)] assms(3) used(2)
      by (simp add: hash_abs_def used_chain_assoc)
    have pos: "hash_pos tab' (djb2_hash ?k) = ?p" if "hcap tab' = hcap tab" for tab' :: "'a hash_table"
      using that hash_pos_slot [of tab' ?k] by simp
    show ?thesis using w p ne
      by (simp add: hash_insert_def hash_walk_def pos Let_def grown_chain_def new_entry_def
          list_update_append_last empty_entry_def)
  qed
qed

lemma grown_chain_used:
  assumes "chain_inv key cap p chain" "wf_string (key val)"
    and "wf_string (key (add val))" "str_chars (key (add val)) = str_chars (key val)"
    and "p = slot_of cap (str_chars (key val))"
    and "map_of (chain_assoc key chain) (str_chars (key val)) = None"
  shows "chain_inv key cap p (grown_chain key add chain val)"
    and "map_of (chain_assoc key (grown_chain key add chain val)) =
      (map_of (chain_assoc key chain))(str_chars (key val) \<mapsto> add val)"
proof -
  let ?n = "new_entry key add val"
  have n: "full_entry key ?n" "entry_assoc key ?n = (str_chars (key val), add val)"
    using assms by (simp_all add: new_entry_def full_entry_def entry_assoc_def djb2_hash_def)
  have used_n: "used_chain key cap p [?n]" using n assms(5) by (simp add: used_chain_def)
  have both: "chain_inv key cap p (grown_chain key add chain val) \<and>
     map_of (chain_assoc key (grown_chain key add chain val)) =
      (map_of (chain_assoc key chain))(str_chars (key val) \<mapsto> add val)"
    using assms(1)
  proof (cases rule: chain_inv_cases)
    case empty
    then show ?thesis
      using used_n n used_chain_assoc [OF used_n] by (simp add: grown_chain_def chain_inv_def)
  next
    case used
    have ne: "chain \<noteq> [empty_entry]" using used(2) by (auto simp: used_chain_def full_entry_def)
    have fresh: "str_chars (key val) \<notin> fst ` set (map (entry_assoc key) chain)"
      using assms(6) used(2) by (simp add: used_chain_assoc map_of_eq_None_iff)
    then have u: "used_chain key cap p (chain @ [?n])"
      using used(2) n assms(5) by (auto simp: used_chain_def)
    have "map_of (map (entry_assoc key) (chain @ [?n])) =
        (map_of (map (entry_assoc key) chain))(str_chars (key val) \<mapsto> add val)"
      using assms(6) used(2) n map_of_snoc_new [of "map (entry_assoc key) chain" "str_chars (key val)" "add val"]
      by (simp add: used_chain_assoc)
    then show ?thesis
      using u ne used(2) by (simp add: grown_chain_def chain_inv_def used_chain_assoc)
  qed
  then show "chain_inv key cap p (grown_chain key add chain val)"
    and "map_of (chain_assoc key (grown_chain key add chain val)) =
      (map_of (chain_assoc key chain))(str_chars (key val) \<mapsto> add val)" by blast+
qed

lemma hash_insert_new:
  assumes "hash_inv key tab" "wf_string (key val)" "hash_abs key tab (str_chars (key val)) = None"
    and "wf_string (key (add val))" "str_chars (key (add val)) = str_chars (key val)"
  shows "\<exists>tab'. hash_insert key add tab val = Inr (tab', add val) \<and> hash_inv key tab' \<and>
     hash_abs key tab' = (hash_abs key tab)(str_chars (key val) \<mapsto> add val)"
proof -
  let ?s = "str_chars (key val)"
  let ?p = "slot_of (hcap tab) ?s"
  let ?c = "htable tab ! ?p"
  obtain tab' where t: "hash_insert key add tab val = Inr (tab', add val)" "hcap tab' = hcap tab"
      "htable tab' = (htable tab)[?p := grown_chain key add ?c val]"
    using hash_insert_miss [OF assms(1-3), of add] by blast
  have p: "?p < hcap tab" using assms(1) by (simp add: hash_inv_def slot_less)
  have miss: "map_of (chain_assoc key ?c) ?s = None" using assms(3) by (simp add: hash_abs_def)
  note g = grown_chain_used [where key = key and add = add and val = val,
      OF hash_invD [OF assms(1), of ?s] assms(2,4,5) refl miss]
  have "hash_inv key tab'" by (rule hash_inv_upd [OF assms(1) g(1) p t(2,3)])
  moreover have "hash_abs key tab' = (hash_abs key tab)(?s \<mapsto> add val)"
    by (rule hash_abs_chain [OF assms(1) p t(2,3) refl g(2)])
  ultimately show ?thesis using t(1) by blast
qed

section \<open>Removal\<close>

lemma hash_unlink_used:
  assumes "used_chain key cap p chain" "i < length chain" "hash_unlink free chain i = (free', chain')"
  shows "chain_inv key cap p chain' \<and>
     map_of (chain_assoc key chain') =
       (map_of (chain_assoc key chain))(fst (entry_assoc key (chain ! i)) := None)"
proof -
  let ?cut = "take i chain @ drop (Suc i) chain"
  let ?as = "map (entry_assoc key)"
  have m: "map_of (?as ?cut) = (map_of (?as chain))(fst (entry_assoc key (chain ! i)) := None)"
    using map_of_delete_nth [of "?as chain" i] assms(1,2)
    by (simp add: used_chain_def take_map drop_map)
  have u: "used_chain key cap p ?cut"
  proof -
    have sub: "set ?cut \<subseteq> set chain" using set_take_subset [of i chain] set_drop_subset [of "Suc i" chain] by auto
    have "map (fst \<circ> entry_assoc key) chain = map (fst \<circ> entry_assoc key)
        (take i chain @ chain ! i # drop (Suc i) chain)"
      using assms(2) by (simp add: id_take_nth_drop [symmetric])
    then have "distinct (map (fst \<circ> entry_assoc key) ?cut)"
      using assms(1) by (auto simp: used_chain_def)
    then show ?thesis using assms(1) sub by (auto simp: used_chain_def)
  qed
  show ?thesis
  proof (cases "?cut = []")
    case True
    then have "i = 0" "tl chain = []" using assms(2) by (cases chain; auto)+
    moreover have "map_of (?as ?cut) = Map.empty" using True by simp
    ultimately show ?thesis
      using assms(3) m used_chain_assoc [OF assms(1)]
      by (auto simp: hash_unlink_def chain_inv_def)
  next
    case False
    have "chain' = ?cut"
      using assms(2,3) False
      by (cases "i = 0"; cases chain; auto simp: hash_unlink_def split: list.splits)
    then show ?thesis
      using u m False used_chain_assoc [OF assms(1)] used_chain_assoc [OF u]
      by (simp add: chain_inv_def)
  qed
qed

lemma hash_remove_ok:
  assumes "hash_inv key tab" "wf_string k"
  shows "\<exists>tab'. hash_remove key tab k = Inr tab' \<and> hash_inv key tab' \<and>
     hash_abs key tab' = (hash_abs key tab)(str_chars k := None) \<and>
     hdeleted tab' = hdeleted tab @ (case hash_abs key tab (str_chars k) of None \<Rightarrow> [] | Some v \<Rightarrow> [v])"
proof -
  let ?s = "str_chars k"
  let ?p = "slot_of (hcap tab) ?s"
  let ?c = "htable tab ! ?p"
  have p: "?p < hcap tab" using assms(1) by (simp add: hash_inv_def slot_less)
  show ?thesis
  proof (cases "hash_abs key tab ?s")
    case None
    have "hash_remove key tab k = Inr tab" using hash_invD [OF assms(1), of ?s]
    proof (cases rule: chain_inv_cases)
      case empty
      have same: "(htable tab)[?p := [empty_entry]] = htable tab" using empty by (metis list_update_id)
      show ?thesis using empty
        by (simp add: hash_remove_def hash_walk_def hash_pos_slot Let_def same)
          (simp add: empty_entry_def)
    next
      case used
      then have "hash_walk_loop key HASH_REMOVE (djb2_hash k) k (hfree tab) ?c = (hfree tab, ?c, None)"
        using walk_miss [OF used(2) assms(2)] None by (simp add: hash_abs_def used_chain_assoc)
      then show ?thesis by (simp add: hash_remove_def hash_walk_def hash_pos_slot Let_def)
    qed
    moreover have "hash_abs key tab = (hash_abs key tab)(?s := None)"
      by (rule fun_upd_idem [symmetric]) (rule None)
    ultimately show ?thesis using None assms(1) by auto
  next
    case (Some v)
    have used: "used_chain key (hcap tab) ?p ?c"
      using hash_invD [OF assms(1), of ?s] Some
      by (cases rule: chain_inv_cases) (simp_all add: hash_abs_def)
    then obtain i where i: "i < length ?c" "edata (?c ! i) = Some v"
        "fst (entry_assoc key (?c ! i)) = ?s"
        "hash_walk_loop key HASH_REMOVE (djb2_hash k) k (hfree tab) ?c = (hfree tab, ?c, Some i)"
      using walk_hit [OF used assms(2)] Some by (fastforce simp: hash_abs_def used_chain_assoc)
    obtain free' chain' where ul: "hash_unlink (hfree tab) ?c i = (free', chain')" by fastforce
    note c = hash_unlink_used [OF used i(1) ul, unfolded i(3)]
    let ?t = "tab\<lparr>hfree := free', htable := (htable tab)[?p := chain'], hdeleted := hdeleted tab @ [v]\<rparr>"
    have r: "hash_remove key tab k = Inr ?t"
      using i ul by (simp add: hash_remove_def hash_walk_def hash_pos_slot Let_def)
    have "hash_inv key ?t" by (rule hash_inv_upd [OF assms(1) conjunct1 [OF c] p]) simp_all
    moreover have "hash_abs key ?t = (hash_abs key tab)(?s := None)"
      by (rule hash_abs_chain [OF assms(1) p _ _ refl conjunct2 [OF c]]) simp_all
    ultimately show ?thesis using r Some by auto
  qed
qed

section \<open>Initialisation, clearing, destruction\<close>

lemma hash_init_ok:
  assumes "0 < cap"
  shows "\<exists>tab. hash_init cap = Inr tab \<and> hash_inv key tab \<and> hash_abs key tab = Map.empty \<and> hcap tab = cap"
  using assms by (auto simp: hash_init_def hash_inv_def chain_inv_def hash_abs_def fun_eq_iff slot_less)

lemma hash_chain_clear_used:
  "used_chain key cap p chain \<Longrightarrow> hash_chain_clear chain = Inr (rev (map (the \<circ> edata) chain))"
proof (induction chain)
  case (Cons e es)
  then obtain v where "edata e = Some v" by (auto simp: used_chain_def dest: full_entryD)
  then show ?case using Cons.IH [OF used_chain_tl [OF Cons.prems]] by simp
qed simp

lemma hash_clear_slots_ok:
  assumes "\<forall>c \<in> set cs. \<exists>p. chain_inv key cap p c"
  shows "\<exists>free' vs. hash_clear_slots cs free log = Inr (free', log @ vs) \<and>
     set vs = {v. \<exists>c \<in> set cs. \<exists>e \<in> set c. edata e = Some v}"
  using assms
proof (induction cs arbitrary: free log)
  case (Cons c cs)
  from Cons.prems obtain p where "chain_inv key cap p c" by auto
  then show ?case
  proof (cases rule: chain_inv_cases)
    case empty
    then show ?thesis using Cons.IH [of free log] Cons.prems by fastforce
  next
    case used
    then obtain r rs where c: "c = r # rs" by (cases c) auto
    with used obtain v where v: "edata r = Some v" by (auto simp: used_chain_def dest: full_entryD)
    let ?ds = "v # rev (map (the \<circ> edata) rs)"
    have cl: "hash_chain_clear rs = Inr (rev (map (the \<circ> edata) rs))"
      using hash_chain_clear_used used_chain_tl used(2) c by blast
    have full: "\<forall>e \<in> set rs. \<exists>w. edata e = Some w"
      using used(2) c unfolding used_chain_def by (metis full_entryD list.set_intros(2))
    obtain free' vs where ih: "hash_clear_slots cs (rs @ free) (log @ ?ds) = Inr (free', (log @ ?ds) @ vs)"
        "set vs = {v. \<exists>c \<in> set cs. \<exists>e \<in> set c. edata e = Some v}"
      using Cons.IH [of "rs @ free" "log @ ?ds"] Cons.prems by auto
    have "hash_clear_slots (c # cs) free log = Inr (free', log @ (?ds @ vs))"
      using ih(1) cl v c by simp
    moreover have "set (?ds @ vs) = {v. \<exists>c' \<in> set (c # cs). \<exists>e \<in> set c'. edata e = Some v}"
      using ih(2) v c full by force
    ultimately show ?thesis by blast
  qed
qed simp

lemma hash_clear_ok:
  assumes "hash_inv key tab"
  shows "\<exists>tab' vs. hash_clear tab = Inr tab' \<and> hash_inv key tab' \<and> hash_abs key tab' = Map.empty \<and>
     hdeleted tab' = hdeleted tab @ vs \<and> set vs = hash_elements tab"
proof -
  have "\<forall>c \<in> set (htable tab). \<exists>p. chain_inv key (hcap tab) p c"
    using assms by (metis hash_inv_def in_set_conv_nth)
  then obtain free' vs where s: "hash_clear_slots (htable tab) (hfree tab) (hdeleted tab) =
      Inr (free', hdeleted tab @ vs)" "set vs = hash_elements tab"
    using hash_clear_slots_ok [of "htable tab" key "hcap tab" "hfree tab" "hdeleted tab"]
    unfolding hash_elements_def by blast
  have "0 < hcap tab" using assms by (simp add: hash_inv_def)
  with s show ?thesis
    by (auto simp: hash_clear_def hash_inv_def chain_inv_def hash_abs_def fun_eq_iff slot_less)
qed

lemma hash_elements_abs:
  assumes "hash_inv key tab"
  shows "v \<in> hash_elements tab \<longleftrightarrow> hash_abs key tab (str_chars (key v)) = Some v"
proof
  assume "v \<in> hash_elements tab"
  then obtain p e where pe: "p < hcap tab" "e \<in> set (htable tab ! p)" "edata e = Some v"
    using assms by (auto simp: hash_elements_def hash_inv_def in_set_conv_nth [of _ "htable tab"])
  then have used: "used_chain key (hcap tab) p (htable tab ! p)"
    using assms by (auto simp: hash_inv_def chain_inv_def)
  then have "slot_of (hcap tab) (str_chars (key v)) = p"
    using pe by (auto simp: used_chain_def entry_assoc_def)
  moreover have "map_of (map (entry_assoc key) (htable tab ! p)) (str_chars (key v)) = Some v"
  proof (rule map_of_is_SomeI)
    show "distinct (map fst (map (entry_assoc key) (htable tab ! p)))"
      using used by (simp add: used_chain_def)
    have "entry_assoc key e = (str_chars (key v), v)" using pe by (simp add: entry_assoc_def)
    then show "(str_chars (key v), v) \<in> set (map (entry_assoc key) (htable tab ! p))"
      using pe(2) by (metis image_eqI list.set_map)
  qed
  ultimately show "hash_abs key tab (str_chars (key v)) = Some v"
    using used by (simp add: hash_abs_def used_chain_assoc)
next
  let ?p = "slot_of (hcap tab) (str_chars (key v))"
  assume "hash_abs key tab (str_chars (key v)) = Some v"
  then have "(str_chars (key v), v) \<in> set (chain_assoc key (htable tab ! ?p))"
    by (auto simp: hash_abs_def dest: map_of_SomeD)
  then obtain e where "e \<in> set (htable tab ! ?p)" "edata e = Some v"
    by (auto simp: chain_assoc_def entry_assoc_def)
  moreover have "?p < length (htable tab)" using assms by (simp add: hash_inv_def slot_less)
  ultimately show "v \<in> hash_elements tab" by (auto simp: hash_elements_def)
qed

lemma hash_abs_key:
  assumes "hash_inv key tab" "hash_abs key tab s = Some v"
  shows "str_chars (key v) = s" "wf_string (key v)"
proof -
  let ?c = "htable tab ! slot_of (hcap tab) s"
  have used: "used_chain key (hcap tab) (slot_of (hcap tab) s) ?c"
    using hash_invD [OF assms(1), of s] assms(2)
    by (cases rule: chain_inv_cases) (simp_all add: hash_abs_def)
  have "(s, v) \<in> set (map (entry_assoc key) ?c)"
    using assms(2) used by (auto simp: hash_abs_def used_chain_assoc dest: map_of_SomeD)
  then obtain e where e: "e \<in> set ?c" "entry_assoc key e = (s, v)" by auto
  have "full_entry key e" using used e(1) by (auto simp: used_chain_def)
  then show "str_chars (key v) = s" "wf_string (key v)"
    using e(2) by (auto simp: entry_assoc_def dest: full_entryD)
qed

section \<open>The interface\<close>

text \<open>
  A map from keys to elements in which inserting never replaces: an element
  whose key is present is answered with the one already there.
\<close>

locale key_map =
  fixes tinv :: "'t \<Rightarrow> bool"
    and tmap :: "'t \<Rightarrow> string \<Rightarrow> 'v option"
    and key :: "'v \<Rightarrow> c_string"
    and add :: "'v \<Rightarrow> 'v"
    and insert :: "'t \<Rightarrow> 'v \<Rightarrow> ('t \<times> 'v) outcome"
    and lookup :: "'t \<Rightarrow> c_string \<Rightarrow> 'v option outcome"
    and remove :: "'t \<Rightarrow> c_string \<Rightarrow> 't outcome"
  assumes lookup_map: "tinv t \<Longrightarrow> wf_string k \<Longrightarrow> lookup t k = Inr (tmap t (str_chars k))"
    and insert_fresh: "tinv t \<Longrightarrow> wf_string (key v) \<Longrightarrow> tmap t (str_chars (key v)) = None \<Longrightarrow>
      \<exists>t'. insert t v = Inr (t', add v) \<and> tinv t' \<and> tmap t' = (tmap t)(str_chars (key v) \<mapsto> add v)"
    and insert_present: "tinv t \<Longrightarrow> wf_string (key v) \<Longrightarrow> tmap t (str_chars (key v)) = Some w \<Longrightarrow>
      insert t v = Inr (t, w)"
    and remove_map: "tinv t \<Longrightarrow> wf_string k \<Longrightarrow>
      \<exists>t'. remove t k = Inr t' \<and> tinv t' \<and> tmap t' = (tmap t)(str_chars k := None)"
begin

lemma insert_total:
  assumes "tinv t" "wf_string (key v)"
  shows "\<exists>t' w. insert t v = Inr (t', w) \<and> tinv t' \<and> tmap t' (str_chars (key v)) = Some w"
  using assms insert_fresh [of t v] insert_present [of t v]
  by (cases "tmap t (str_chars (key v))") auto

lemma lookup_after_insert:
  assumes "tinv t" "wf_string (key v)" "insert t v = Inr (t', w)"
  shows "lookup t' (key v) = Inr (Some w)"
  using insert_total [OF assms(1,2)] assms(2,3) lookup_map by auto

lemma insert_frame:
  assumes "tinv t" "wf_string (key v)" "insert t v = Inr (t', w)" "wf_string k"
    and "str_chars k \<noteq> str_chars (key v)"
  shows "lookup t' k = lookup t k"
proof (cases "tmap t (str_chars (key v))")
  case None
  then show ?thesis using insert_fresh [OF assms(1,2)] assms lookup_map by auto
next
  case (Some x)
  then show ?thesis using insert_present [OF assms(1,2) Some] assms(3) by simp
qed

text \<open>Inserting twice under one key yields the same element: what interning relies on.\<close>

lemma insert_interns:
  assumes "tinv t" "wf_string (key v)" "wf_string (key v')" "str_chars (key v') = str_chars (key v)"
    and "insert t v = Inr (t', w)"
  shows "insert t' v' = Inr (t', w)"
  using insert_total [OF assms(1,2)] insert_present [of t' v' w] assms by auto

lemma lookup_after_remove:
  assumes "tinv t" "wf_string k" "remove t k = Inr t'"
  shows "lookup t' k = Inr None"
  using remove_map [OF assms(1,2)] assms(2,3) lookup_map by auto

lemma reinsert_after_remove:
  assumes "tinv t" "wf_string (key v)" "remove t (key v) = Inr t'"
  shows "\<exists>t''. insert t' v = Inr (t'', add v)"
  using remove_map [OF assms(1,2)] assms insert_fresh [of t' v] by auto

end

text \<open>The client's part of the contract: the stored element has the key of the inserted one.\<close>

locale hash_client =
  fixes key :: "'v \<Rightarrow> c_string" and add :: "'v \<Rightarrow> 'v"
  assumes key_add: "wf_string (key v) \<Longrightarrow> wf_string (key (add v)) \<and> str_chars (key (add v)) = str_chars (key v)"

sublocale hash_client \<subseteq> ht: key_map "hash_inv key" "hash_abs key" key add "hash_insert key add"
    "hash_lookup key" "hash_remove key"
proof unfold_locales
  fix t :: "'v hash_table" and v
  assume "hash_inv key t" "wf_string (key v)" "hash_abs key t (str_chars (key v)) = None"
  then show "\<exists>t'. hash_insert key add t v = Inr (t', add v) \<and> hash_inv key t' \<and>
      hash_abs key t' = (hash_abs key t)(str_chars (key v) \<mapsto> add v)"
    using hash_insert_new [of key t v add] key_add [of v] by simp
next
  fix t :: "'v hash_table" and k
  assume "hash_inv key t" "wf_string k"
  then show "\<exists>t'. hash_remove key t k = Inr t' \<and> hash_inv key t' \<and>
      hash_abs key t' = (hash_abs key t)(str_chars k := None)"
    using hash_remove_ok [of key t k] by fast
qed (simp_all add: hash_lookup_abs hash_insert_hit)

section \<open>Properties of hash tables\<close>

datatype 'v hash_call = Insert 'v | Lookup c_string | Remove c_string | Clear

fun hash_do ::
  "('v \<Rightarrow> c_string) \<Rightarrow> ('v \<Rightarrow> 'v) \<Rightarrow> 'v hash_call \<Rightarrow> 'v hash_table \<Rightarrow> ('v hash_table \<times> 'v option) outcome" where
  "hash_do key add (Insert v) t = obind (hash_insert key add t v) (\<lambda>(t', w). Inr (t', Some w))"
| "hash_do key add (Lookup k) t = obind (hash_lookup key t k) (\<lambda>r. Inr (t, r))"
| "hash_do key add (Remove k) t = obind (hash_remove key t k) (\<lambda>t'. Inr (t', None))"
| "hash_do key add Clear t = obind (hash_clear t) (\<lambda>t'. Inr (t', None))"

text \<open>What the calls mean on a map from keys; an insertion under a present key keeps what is there.\<close>

fun map_do ::
  "('v \<Rightarrow> c_string) \<Rightarrow> ('v \<Rightarrow> 'v) \<Rightarrow> 'v hash_call \<Rightarrow> (string \<Rightarrow> 'v option)
   \<Rightarrow> ((string \<Rightarrow> 'v option) \<times> 'v option) option" where
  "map_do key add (Insert v) m =
     (if wf_string (key v) then
        (case m (str_chars (key v)) of
           Some w \<Rightarrow> Some (m, Some w)
         | None \<Rightarrow> Some (m(str_chars (key v) \<mapsto> add v), Some (add v)))
      else None)"
| "map_do key add (Lookup k) m = (if wf_string k then Some (m, m (str_chars k)) else None)"
| "map_do key add (Remove k) m = (if wf_string k then Some (m(str_chars k := None), None) else None)"
| "map_do key add Clear m = Some (Map.empty, None)"

text \<open>Every client of the table gets the refinement of its calls to the map.\<close>

sublocale hash_client \<subseteq> hash: refinement "hash_do key add" "map_do key add" "hash_inv key" "hash_abs key"
proof
  fix s :: "'v hash_table" and c a r
  assume inv: "hash_inv key s" and sp: "map_do key add c (hash_abs key s) = Some (a, r)"
  show "\<exists>s'. hash_do key add c s = Inr (s', r) \<and> hash_inv key s' \<and> hash_abs key s' = a"
  proof (cases c)
    case (Insert v)
    then show ?thesis
      using sp inv ht.insert_fresh [OF inv, of v] ht.insert_present [OF inv, of v]
      by (auto split: if_splits option.splits)
  next
    case (Lookup k)
    then show ?thesis using sp inv ht.lookup_map [OF inv, of k] by (auto split: if_splits)
  next
    case (Remove k)
    then show ?thesis using sp ht.remove_map [OF inv, of k] by (auto split: if_splits)
  next
    case Clear
    then show ?thesis using sp hash_clear_ok [OF inv] by auto
  qed
qed

context hash_client
begin

lemma calls_refine:
  assumes "hash_inv key t" "run_spec (map_do key add) (hash_abs key t) calls = Some (m, rs)"
  shows "\<exists>t'. run_calls (hash_do key add) t calls = Inr (t', rs) \<and> hash_inv key t' \<and> hash_abs key t' = m"
  using assms by (rule hash.run_refines)

end

text \<open>
  Property C1. Every sequence of insertions, look-ups, removals and clearings of
  a well-formed hash table, with any callbacks that keep an element's key, has
  the results of the same sequence on a map from key strings to elements, in
  which an insertion under a present key answers with the element already there.
  Colliding keys, the reuse of freed entries and the removal of the first entry
  of a chain are included; no assertion of the code fails.
\<close>

theorem hash_table_refines_map:
  assumes "\<And>v. wf_string (key v) \<Longrightarrow> wf_string (key (add v)) \<and> str_chars (key (add v)) = str_chars (key v)"
    and "hash_inv key t" "run_spec (map_do key add) (hash_abs key t) calls = Some (m, rs)"
  shows "\<exists>t'. run_calls (hash_do key add) t calls = Inr (t', rs) \<and> hash_inv key t' \<and> hash_abs key t' = m"
proof -
  have "hash_client key add" by unfold_locales (rule assms(1))
  then show ?thesis using assms(2,3) by (rule hash_client.calls_refine)
qed

theorem hash_table_refines_map_witness:
  "\<exists>t'. run_calls (hash_do (\<lambda>s. s) (\<lambda>s. s)) \<lparr>hcap = 1, htable = [[empty_entry]], hfree = [], hdeleted = []\<rparr>
      [Insert (str_init ''a''), Insert (str_init ''b''), Remove (str_init ''a''), Lookup (str_init ''b''), Lookup (str_init ''a'')] =
      Inr (t', [Some (str_init ''a''), Some (str_init ''b''), None, Some (str_init ''b''), None]) \<and>
    hash_inv (\<lambda>s. s) t' \<and> hash_abs (\<lambda>s. s) t' = [''b'' \<mapsto> str_init ''b'']"
proof -
  let ?t = "\<lparr>hcap = 1, htable = [[empty_entry]], hfree = [], hdeleted = []\<rparr> :: c_string hash_table"
  obtain t :: "c_string hash_table" where "hash_init 1 = Inr t" "hash_inv (\<lambda>s. s) t" "hash_abs (\<lambda>s. s) t = Map.empty"
    using hash_init_ok [of 1 "\<lambda>s. s"] by auto
  then have t: "hash_inv (\<lambda>s. s) ?t" "hash_abs (\<lambda>s. s) ?t = Map.empty" by (auto simp: hash_init_def)
  show ?thesis
    by (rule hash_table_refines_map [OF _ t(1)], simp, simp only: t(2), simp add: str_init_wf fun_eq_iff)
qed

text \<open>
  Clearing a table runs the deletion callback on every element that
  was in it, and on no other, and leaves the empty map.
\<close>

lemma hash_clear_deletes_all:
  assumes "hash_inv key tab"
  shows "\<exists>tab' vs. hash_clear tab = Inr tab' \<and> hash_inv key tab' \<and> hash_abs key tab' = Map.empty \<and>
    hdeleted tab' = hdeleted tab @ vs \<and> (\<forall>v. v \<in> set vs \<longleftrightarrow> hash_abs key tab (str_chars (key v)) = Some v)"
  using hash_clear_ok [OF assms] hash_elements_abs [OF assms] by metis

end
