(* ===== verification/Strtab.thy ===== *)
theory Strtab
  imports Hash_Table
begin

text \<open>
  The string table of \<open>src/preprocessor/strtab.c\<close>: identifiers and literals of
  fourteen characters or more are interned in a hash table of 1024 slots, so
  that a string registered twice is stored once; shorter ones are returned
  inline. Concatenation goes through a buffer that only grows. The table is an
  instance of the insert-once map of theory \<open>Hash_Table\<close>.
\<close>

section \<open>State and callbacks\<close>

definition STRTAB_SIZE :: nat where
  "STRTAB_SIZE = 1024"

record strtab =
  st_tab :: "c_string hash_table option"
  catbuf :: string
  catlen :: nat

definition strtab_empty :: strtab where
  "strtab_empty = \<lparr>st_tab = None, catbuf = [], catlen = 0\<rparr>"

text \<open>The stored copy: the \<open>l\<close> characters moved behind the header they are allocated with.\<close>

definition str_hash_add :: "c_string \<Rightarrow> c_string" where
  "str_hash_add s = s\<lparr>sptr := take (unat (slen s)) (sptr s)\<rparr>"

definition str_hash_key :: "c_string \<Rightarrow> c_string" where
  "str_hash_key s = s"

definition strtab_reset :: "strtab \<Rightarrow> strtab outcome" where
  "strtab_reset st =
     obind (case st_tab st of None \<Rightarrow> Inr () | Some t \<Rightarrow> obind (hash_destroy t) (\<lambda>_. Inr ()))
       (\<lambda>_. Inr strtab_empty)"

section \<open>Registration\<close>

text \<open>
  The 16-bit length field truncates. A length whose low sixteen bits are below
  fourteen would make the stored pointer be read as characters, which no caller
  can rely on.
\<close>

definition str_register :: "strtab \<Rightarrow> string \<Rightarrow> nat \<Rightarrow> (strtab \<times> c_string) outcome" where
  "str_register st str len =
     (if len < SHORT_STRING_LEN then
        (if len \<le> length str then
           Inr (st, zero_string\<lparr>sstr := memcpy (sstr zero_string) str len, slen := word_of_nat len\<rparr>)
         else Inl Undefined_Behaviour)
      else
        obind (case st_tab st of Some t \<Rightarrow> Inr t | None \<Rightarrow> hash_init STRTAB_SIZE)
          (\<lambda>t. let data = zero_string\<lparr>sptr := str, slen := word_of_nat len\<rparr>
               in if is_short data \<or> length str < unat (slen data) then Inl Undefined_Behaviour
                  else obind (hash_insert str_hash_key str_hash_add t data)
                         (\<lambda>(t', ref). Inr (st\<lparr>st_tab := Some t'\<rparr>, ref))))"

definition str_cat :: "strtab \<Rightarrow> c_string \<Rightarrow> c_string \<Rightarrow> (strtab \<times> c_string) outcome" where
  "str_cat st a b =
     (let len = unat (slen a) + unat (slen b);
          st1 = (if len > catlen st
                 then st\<lparr>catlen := len, catbuf := catbuf st @ replicate (len - length (catbuf st)) (CHR 0x00)\<rparr>
                 else st);
          buf = memcpy (catbuf st1) (str_raw a) (unat (slen a));
          buf' = take (unat (slen a)) buf @ memcpy (drop (unat (slen a)) buf) (str_raw b) (unat (slen b));
          st2 = st1\<lparr>catbuf := buf'\<rparr>
      in str_register st2 (catbuf st2) len)"

section \<open>Correctness\<close>

definition strtab_inv :: "strtab \<Rightarrow> bool" where
  "strtab_inv st \<longleftrightarrow>
     (case st_tab st of None \<Rightarrow> True
      | Some t \<Rightarrow> hash_inv str_hash_key t \<and> (\<forall>v. hash_abs str_hash_key t (str_chars v) = Some v \<longrightarrow> \<not> is_short v))"

interpretation strtab: hash_client str_hash_key str_hash_add
proof
  fix v
  assume "wf_string (str_hash_key v)"
  then show "wf_string (str_hash_key (str_hash_add v)) \<and>
      str_chars (str_hash_key (str_hash_add v)) = str_chars (str_hash_key v)"
    by (auto simp: str_hash_key_def str_hash_add_def wf_string_def string_defs)
qed

lemma strtab_inv_empty [simp]: "strtab_inv strtab_empty"
  by (simp add: strtab_inv_def strtab_empty_def)

lemma str_hash_key_id [simp]: "str_hash_key s = s"
  by (simp add: str_hash_key_def)

text \<open>The short representation built in place is the one \<open>str_init\<close> builds.\<close>

lemma register_short:
  assumes "len < SHORT_STRING_LEN" "len \<le> length str"
  shows "str_register st str len = Inr (st, str_init (take len str))"
proof -
  have "len < 65536" using assms(1) by (simp add: SHORT_STRING_LEN_def)
  then have "unat (word_of_nat len :: u16) = len" by (simp add: unat_of_nat)
  then show ?thesis
    using assms
    by (simp add: str_register_def str_init_def str_init_fl_def zero_string_def is_short_def
        SHORT_STRING_LEN_def min_def memcpy_def)
qed

definition long_data :: "string \<Rightarrow> nat \<Rightarrow> c_string" where
  "long_data str len = zero_string\<lparr>sptr := str, slen := word_of_nat len\<rparr>"

lemma long_data_props:
  assumes "SHORT_STRING_LEN \<le> len" "len < 65536" "len \<le> length str"
  shows "\<not> is_short (long_data str len)" "wf_string (long_data str len)"
    "str_chars (long_data str len) = take len str" "unat (slen (long_data str len)) = len"
proof -
  show u: "unat (slen (long_data str len)) = len"
    using assms(2) by (simp add: long_data_def unat_of_nat)
  then show s: "\<not> is_short (long_data str len)" using assms(1) by (simp add: is_short_def)
  show "wf_string (long_data str len)"
    using s u assms(3) by (simp add: wf_string_def) (simp add: long_data_def zero_string_def)
  show "str_chars (long_data str len) = take len str"
    using s u by (simp add: str_chars_long) (simp add: long_data_def)
qed

lemma register_long:
  assumes "strtab_inv st" "SHORT_STRING_LEN \<le> len" "len < 65536" "len \<le> length str"
  shows "\<exists>t t' s. (st_tab st = Some t \<or> st_tab st = None \<and> hash_abs str_hash_key t = Map.empty) \<and>
     hash_inv str_hash_key t \<and>
     hash_insert str_hash_key str_hash_add t (long_data str len) = Inr (t', s) \<and>
     str_register st str len = Inr (st\<lparr>st_tab := Some t'\<rparr>, s) \<and> strtab_inv (st\<lparr>st_tab := Some t'\<rparr>) \<and>
     wf_string s \<and> str_chars s = take len str \<and> \<not> is_short s"
proof -
  note d = long_data_props [OF assms(2-4)]
  let ?d = "long_data str len"
  obtain t where t: "(case st_tab st of Some t \<Rightarrow> Inr t | None \<Rightarrow> hash_init STRTAB_SIZE) = Inr t"
      "hash_inv str_hash_key t" "st_tab st = Some t \<or> st_tab st = None \<and> hash_abs str_hash_key t = Map.empty"
      "\<forall>v. hash_abs str_hash_key t (str_chars v) = Some v \<longrightarrow> \<not> is_short v"
    using assms(1) hash_init_ok [of STRTAB_SIZE str_hash_key]
    by (auto simp: strtab_inv_def STRTAB_SIZE_def split: option.splits)
  have eq: "str_register st str len = obind (hash_insert str_hash_key str_hash_add t ?d)
      (\<lambda>(t', ref). Inr (st\<lparr>st_tab := Some t'\<rparr>, ref))"
    using assms(2,4) t(1) d(1,4) by (simp add: str_register_def Let_def long_data_def)
  have wfd: "wf_string (str_hash_key ?d)" using d(2) by simp
  show ?thesis
  proof (cases "hash_abs str_hash_key t (str_chars ?d)")
    case (Some w)
    then have "hash_abs str_hash_key t (str_chars (str_hash_key ?d)) = Some w"
      by (metis str_hash_key_id)
    then have ins: "hash_insert str_hash_key str_hash_add t ?d = Inr (t, w)"
      by (rule hash_insert_hit [OF t(2) wfd])
    have w: "str_chars w = str_chars ?d" "wf_string w"
      using hash_abs_key [OF t(2) Some] by simp_all
    then have "\<not> is_short w" using t(4) Some by metis
    then show ?thesis using t eq ins w d(3) by (auto simp: strtab_inv_def)
  next
    case None
    then obtain t' where t': "hash_insert str_hash_key str_hash_add t ?d = Inr (t', str_hash_add ?d)"
        "hash_inv str_hash_key t'"
        "hash_abs str_hash_key t' = (hash_abs str_hash_key t)(str_chars ?d \<mapsto> str_hash_add ?d)"
      using strtab.ht.insert_fresh [OF t(2) wfd] by auto
    have k: "wf_string (str_hash_add ?d)" "str_chars (str_hash_add ?d) = str_chars ?d"
      using strtab.key_add [OF wfd] by simp_all
    have sh: "\<not> is_short (str_hash_add ?d)"
      using d(1) by (simp add: str_hash_add_def is_short_def)
    have "strtab_inv (st\<lparr>st_tab := Some t'\<rparr>)"
      using t'(2,3) t(4) sh by (auto simp: strtab_inv_def)
    then show ?thesis using t eq t' k sh d(3) by auto
  qed
qed

lemma str_register_ok:
  assumes "strtab_inv st" "len < 65536" "len \<le> length str"
  shows "\<exists>st' s. str_register st str len = Inr (st', s) \<and> strtab_inv st' \<and> wf_string s \<and>
     str_chars s = take len str \<and> catbuf st' = catbuf st \<and> catlen st' = catlen st"
proof (cases "len < SHORT_STRING_LEN")
  case True
  then show ?thesis
    using register_short [OF True assms(3), of st] assms
    by (simp add: str_init_wf)
next
  case False
  then show ?thesis using register_long [OF assms(1) _ assms(2,3)] by fastforce
qed

text \<open>Registering the same characters again yields the identical string and changes nothing.\<close>

lemma str_register_again:
  assumes "strtab_inv st" "len < 65536" "len \<le> length str" "len \<le> length str'"
    and "take len str' = take len str" "str_register st str len = Inr (st', s)"
  shows "str_register st' str' len = Inr (st', s)"
proof (cases "len < SHORT_STRING_LEN")
  case True
  then show ?thesis using register_short assms by simp
next
  case False
  then have L: "SHORT_STRING_LEN \<le> len" by simp
  obtain t t' where t: "hash_inv str_hash_key t"
      "hash_insert str_hash_key str_hash_add t (long_data str len) = Inr (t', s)"
      "st' = st\<lparr>st_tab := Some t'\<rparr>" "strtab_inv st'"
    using register_long [OF assms(1) L assms(2,3)] assms(6) by auto
  note d = long_data_props [OF L assms(2,3)] and d' = long_data_props [OF L assms(2,4)]
  have "hash_insert str_hash_key str_hash_add t' (long_data str' len) = Inr (t', s)"
    using strtab.ht.insert_interns [OF t(1) _ _ _ t(2)] d d' assms(5) by simp
  then show ?thesis
    using L t(3) d'(1,4) assms(4) by (simp add: str_register_def Let_def long_data_def)
qed

text \<open>Later registrations keep the identity of every long string that is in the table.\<close>

definition interned :: "strtab \<Rightarrow> string \<Rightarrow> c_string \<Rightarrow> bool" where
  "interned st cs s \<longleftrightarrow> strtab_inv st \<and>
     (if length cs < SHORT_STRING_LEN then s = str_init cs
      else \<exists>t. st_tab st = Some t \<and> hash_abs str_hash_key t cs = Some s)"

lemma interned_register:
  assumes "interned st cs s" "length cs < 65536" "length cs \<le> length str" "take (length cs) str = cs"
  shows "str_register st str (length cs) = Inr (st, s)"
proof (cases "length cs < SHORT_STRING_LEN")
  case True
  then show ?thesis using assms register_short [OF True assms(3)] by (simp add: interned_def)
next
  case False
  then obtain t where t: "st_tab st = Some t" "hash_abs str_hash_key t cs = Some s" "hash_inv str_hash_key t"
    using assms(1) by (auto simp: interned_def strtab_inv_def)
  note d = long_data_props [OF _ assms(2,3)]
  have "hash_insert str_hash_key str_hash_add t (long_data str (length cs)) = Inr (t, s)"
    using hash_insert_hit [OF t(3), of "long_data str (length cs)" s str_hash_add] d False t(2) assms(4) by simp
  then show ?thesis
    using False t(1) d assms(3) by (simp add: str_register_def Let_def long_data_def)
qed

lemma register_interned:
  assumes "strtab_inv st" "length cs < 65536" "str_register st cs (length cs) = Inr (st', s)"
  shows "interned st' cs s"
proof (cases "length cs < SHORT_STRING_LEN")
  case True
  then show ?thesis using assms register_short [OF True] by (auto simp: interned_def)
next
  case False
  then have L: "SHORT_STRING_LEN \<le> length cs" by simp
  obtain t t' where t: "hash_inv str_hash_key t"
      "hash_insert str_hash_key str_hash_add t (long_data cs (length cs)) = Inr (t', s)"
      "st' = st\<lparr>st_tab := Some t'\<rparr>" "strtab_inv st'"
    using register_long [OF assms(1) L assms(2) order.refl] assms(3) by auto
  note d = long_data_props [OF L assms(2) order.refl]
  have "hash_abs str_hash_key t' cs = Some s"
    using strtab.ht.insert_total [OF t(1), of "long_data cs (length cs)"] t(2) d by auto
  then show ?thesis using False t(3,4) by (auto simp: interned_def)
qed

lemma register_keeps_interned:
  assumes "interned st cs s" "length str < 65536" "str_register st str (length str) = Inr (st', r)"
  shows "interned st' cs s"
proof (cases "length str < SHORT_STRING_LEN \<or> length cs < SHORT_STRING_LEN")
  case True
  have "strtab_inv st" using assms(1) by (simp add: interned_def)
  then have inv: "strtab_inv st'"
    using str_register_ok [OF _ assms(2), of st str] assms(3) by auto
  from True show ?thesis
  proof
    assume "length str < SHORT_STRING_LEN"
    then show ?thesis using assms(1,3) register_short [of "length str" str st] by simp
  next
    assume "length cs < SHORT_STRING_LEN"
    then show ?thesis using assms(1) inv by (simp add: interned_def)
  qed
next
  case False
  then have L: "SHORT_STRING_LEN \<le> length str" by simp
  have inv: "strtab_inv st" using assms(1) by (simp add: interned_def)
  obtain t0 where t0: "st_tab st = Some t0" "hash_abs str_hash_key t0 cs = Some s"
    using assms(1) False by (auto simp: interned_def)
  obtain t' where t: "hash_inv str_hash_key t0" "st' = st\<lparr>st_tab := Some t'\<rparr>" "strtab_inv st'"
      "hash_insert str_hash_key str_hash_add t0 (long_data str (length str)) = Inr (t', r)"
    using register_long [OF inv L assms(2) order.refl] assms(3) t0(1) by auto
  note d = long_data_props [OF L assms(2) order.refl]
  have "hash_abs str_hash_key t' cs = Some s"
  proof (cases "hash_abs str_hash_key t0 str")
    case None
    then show ?thesis
      using strtab.ht.insert_fresh [OF t(1), of "long_data str (length str)"] t(4) d t0(2) by auto
  next
    case (Some w)
    then show ?thesis
      using strtab.ht.insert_present [OF t(1), of "long_data str (length str)" w] t(4) d t0(2) by auto
  qed
  then show ?thesis using t(2,3) False by (auto simp: interned_def)
qed

definition register_call :: "string \<Rightarrow> strtab \<Rightarrow> (strtab \<times> c_string) outcome" where
  "register_call str st = str_register st str (length str)"

lemma registers_keep_interned:
  assumes "interned st cs s" "\<forall>str \<in> set strs. length str < 65536"
    and "run_calls register_call st strs = Inr (st', rs)"
  shows "interned st' cs s"
  using assms
proof (induction strs arbitrary: st rs)
  case (Cons str strs)
  obtain st1 r rs' where st1: "str_register st str (length str) = Inr (st1, r)"
      "run_calls register_call st1 strs = Inr (st', rs')"
    using Cons.prems(3) by (auto simp: outcome_simps register_call_def [of str])
  then show ?case using Cons.IH [OF register_keeps_interned [OF Cons.prems(1) _ st1(1)]] Cons.prems(2) by simp
qed simp

section \<open>Properties of the string table\<close>

text \<open>
  Property C31. A string registered once is returned unchanged by every later
  registration of the same characters, however many other strings were
  registered in between, and the table does not grow again: the identity of
  interned strings is what the symbol and macro tables rely on.
\<close>

theorem str_register_interns:
  assumes "strtab_inv st" "length cs < 65536" "str_register st cs (length cs) = Inr (st1, s)"
    and "\<forall>str \<in> set strs. length str < 65536" "run_calls register_call st1 strs = Inr (st2, rs)"
  shows "str_chars s = cs \<and> str_register st2 cs (length cs) = Inr (st2, s)"
proof -
  have "interned st2 cs s"
    using registers_keep_interned [OF register_interned [OF assms(1-3)] assms(4,5)] .
  then show ?thesis
    using interned_register [of st2 cs s cs] str_register_ok [OF assms(1,2), of cs] assms(2,3) by auto
qed

theorem str_register_interns_witness:
  "\<exists>st1 s st2. str_register strtab_empty ''some_identifier'' (length ''some_identifier'') = Inr (st1, s) \<and>
    run_calls register_call st1 [''x''] = Inr (st2, [str_init ''x'']) \<and> str_chars s = ''some_identifier'' \<and>
    str_register st2 ''some_identifier'' (length ''some_identifier'') = Inr (st2, s)"
proof -
  obtain st1 s where s: "str_register strtab_empty ''some_identifier'' (length ''some_identifier'') = Inr (st1, s)"
    using str_register_ok [of strtab_empty "length ''some_identifier''" "''some_identifier''"] by auto
  have "str_register st1 ''x'' (length ''x'') = Inr (st1, str_init ''x'')"
    using register_short [of "length ''x''" "''x''" st1] by (simp add: SHORT_STRING_LEN_def)
  then have x: "run_calls register_call st1 [''x''] = Inr (st1, [str_init ''x''])"
    by (simp add: register_call_def)
  have "str_chars s = ''some_identifier'' \<and> str_register st1 ''some_identifier'' (length ''some_identifier'') = Inr (st1, s)"
    by (rule str_register_interns [OF strtab_inv_empty _ s _ x]) simp_all
  then show ?thesis using s x by blast
qed

text \<open>
  Concatenating two strings through the shared buffer yields their
  characters in order, registered, whether or not the buffer has to grow.
\<close>

lemma str_cat_concatenates:
  assumes "strtab_inv st" "wf_string a" "wf_string b" "length (catbuf st) = catlen st"
    and "length (str_chars a) + length (str_chars b) < 65536"
  shows "\<exists>st' s. str_cat st a b = Inr (st', s) \<and> strtab_inv st' \<and> wf_string s \<and>
     str_chars s = str_chars a @ str_chars b \<and> length (catbuf st') = catlen st'"
proof -
  let ?la = "unat (slen a)" and ?lb = "unat (slen b)"
  let ?len = "?la + ?lb"
  define st1 where "st1 = (if ?len > catlen st
     then st\<lparr>catlen := ?len, catbuf := catbuf st @ replicate (?len - length (catbuf st)) (CHR 0x00)\<rparr> else st)"
  define buf' where "buf' = str_chars a @ str_chars b @ drop ?len (catbuf st1)"
  have st1: "length (catbuf st1) = catlen st1" "?len \<le> catlen st1" "st_tab st1 = st_tab st"
    using assms(4) by (auto simp: st1_def)
  have ra: "?la \<le> length (str_raw a)" "?lb \<le> length (str_raw b)"
    using length_str_chars [OF assms(2)] length_str_chars [OF assms(3)]
    by (auto simp: str_chars_def)
  have bl: "length buf' = catlen st1"
    using assms(2,3) st1 by (simp add: buf'_def)
  have inv: "strtab_inv (st1\<lparr>catbuf := buf'\<rparr>)"
    using assms(1) st1(3) by (simp add: strtab_inv_def)
  have "memcpy (catbuf st1) (str_raw a) ?la = str_chars a @ drop ?la (catbuf st1)"
    by (simp add: memcpy_def str_chars_def)
  then have eq: "str_cat st a b = str_register (st1\<lparr>catbuf := buf'\<rparr>) buf' ?len"
    using assms(2) ra by (simp add: str_cat_def Let_def st1_def [symmetric] buf'_def memcpy_def str_chars_def min_def
        add.commute)
  have tk: "take ?len buf' = str_chars a @ str_chars b"
    using assms(2,3) by (simp add: buf'_def)
  obtain st' s where "str_register (st1\<lparr>catbuf := buf'\<rparr>) buf' ?len = Inr (st', s)" "strtab_inv st'"
      "wf_string s" "str_chars s = take ?len buf'" "catbuf st' = buf'" "catlen st' = catlen st1"
    using str_register_ok [OF inv, of ?len buf'] assms(2,3,5) bl st1(2) by auto
  then show ?thesis using eq tk bl by auto
qed

end
