(* ===== verification/C_Type.thy ===== *)
theory C_Type
  imports C_String
begin

text \<open>
  The 32-bit type values of \<open>include/lacc/type.h\<close>: a basic type with sign and
  qualifiers, an optional outermost pointer with its own qualifiers, and a
  16-bit reference to the type tree for everything that does not fit. The
  classification macros, the predefined basic types and the qualifier
  operations of \<open>src/parser/typetree.c\<close> that only touch the value are here; the
  type trees are in theory \<open>Typetree\<close>.
\<close>

section \<open>Type values\<close>

datatype type_tag =
    T_PLACEHOLDER
  | T_VOID | T_BOOL | T_CHAR | T_SHORT | T_INT | T_LONG
  | T_FLOAT | T_DOUBLE | T_LDOUBLE
  | T_POINTER | T_FUNCTION | T_ARRAY | T_STRUCT | T_UNION

text \<open>The enumeration values, which the range tests of the macros compare.\<close>

fun type_num :: "type_tag \<Rightarrow> int" where
  "type_num T_PLACEHOLDER = -1"
| "type_num T_VOID = 0"
| "type_num T_BOOL = 1"
| "type_num T_CHAR = 2"
| "type_num T_SHORT = 3"
| "type_num T_INT = 4"
| "type_num T_LONG = 5"
| "type_num T_FLOAT = 6"
| "type_num T_DOUBLE = 7"
| "type_num T_LDOUBLE = 8"
| "type_num T_POINTER = 9"
| "type_num T_FUNCTION = 10"
| "type_num T_ARRAY = 11"
| "type_num T_STRUCT = 12"
| "type_num T_UNION = 13"

record ctype =
  t_type :: type_tag
  t_unsigned :: bool
  t_const :: bool
  t_volatile :: bool
  t_restrict :: bool
  t_pointer :: bool
  t_pointer_const :: bool
  t_pointer_volatile :: bool
  t_pointer_restrict :: bool
  t_ref :: int

definition zero_type :: ctype where
  "zero_type = \<lparr>t_type = T_VOID, t_unsigned = False, t_const = False, t_volatile = False,
     t_restrict = False, t_pointer = False, t_pointer_const = False, t_pointer_volatile = False,
     t_pointer_restrict = False, t_ref = 0\<rparr>"

definition basic_type :: "type_tag \<Rightarrow> ctype" where
  "basic_type tt = zero_type\<lparr>t_type := tt\<rparr>"

definition basic_type_unsigned :: "type_tag \<Rightarrow> ctype" where
  "basic_type_unsigned tt = zero_type\<lparr>t_type := tt, t_unsigned := True\<rparr>"

abbreviation basic_type__void :: ctype where "basic_type__void \<equiv> basic_type T_VOID"
abbreviation basic_type__bool :: ctype where "basic_type__bool \<equiv> basic_type T_BOOL"
abbreviation basic_type__char :: ctype where "basic_type__char \<equiv> basic_type T_CHAR"
abbreviation basic_type__short :: ctype where "basic_type__short \<equiv> basic_type T_SHORT"
abbreviation basic_type__int :: ctype where "basic_type__int \<equiv> basic_type T_INT"
abbreviation basic_type__long :: ctype where "basic_type__long \<equiv> basic_type T_LONG"
abbreviation basic_type__unsigned_char :: ctype where
  "basic_type__unsigned_char \<equiv> basic_type_unsigned T_CHAR"
abbreviation basic_type__unsigned_short :: ctype where
  "basic_type__unsigned_short \<equiv> basic_type_unsigned T_SHORT"
abbreviation basic_type__unsigned_int :: ctype where
  "basic_type__unsigned_int \<equiv> basic_type_unsigned T_INT"
abbreviation basic_type__unsigned_long :: ctype where
  "basic_type__unsigned_long \<equiv> basic_type_unsigned T_LONG"
abbreviation basic_type__float :: ctype where "basic_type__float \<equiv> basic_type T_FLOAT"
abbreviation basic_type__double :: ctype where "basic_type__double \<equiv> basic_type T_DOUBLE"
abbreviation basic_type__long_double :: ctype where
  "basic_type__long_double \<equiv> basic_type T_LDOUBLE"

section \<open>Classification macros\<close>

definition type_of :: "ctype \<Rightarrow> type_tag" where
  "type_of t = (if t_pointer t then T_POINTER else t_type t)"

definition type_between :: "type_tag \<Rightarrow> type_tag \<Rightarrow> ctype \<Rightarrow> bool" where
  "type_between lo hi t \<longleftrightarrow> type_num lo \<le> type_num (type_of t) \<and> type_num (type_of t) \<le> type_num hi"

definition is_function :: "ctype \<Rightarrow> bool" where "is_function t \<longleftrightarrow> type_of t = T_FUNCTION"
definition is_object :: "ctype \<Rightarrow> bool" where "is_object t \<longleftrightarrow> \<not> is_function t"
definition is_struct :: "ctype \<Rightarrow> bool" where "is_struct t \<longleftrightarrow> type_of t = T_STRUCT"
definition is_union :: "ctype \<Rightarrow> bool" where "is_union t \<longleftrightarrow> type_of t = T_UNION"
definition is_struct_or_union :: "ctype \<Rightarrow> bool" where
  "is_struct_or_union t \<longleftrightarrow> is_struct t \<or> is_union t"
definition is_bool :: "ctype \<Rightarrow> bool" where "is_bool t \<longleftrightarrow> type_of t = T_BOOL"
definition is_char :: "ctype \<Rightarrow> bool" where "is_char t \<longleftrightarrow> type_of t = T_CHAR"
definition is_short_type :: "ctype \<Rightarrow> bool" where "is_short_type t \<longleftrightarrow> type_of t = T_SHORT"
definition is_int :: "ctype \<Rightarrow> bool" where "is_int t \<longleftrightarrow> type_of t = T_INT"
definition is_long :: "ctype \<Rightarrow> bool" where "is_long t \<longleftrightarrow> type_of t = T_LONG"
definition is_integer :: "ctype \<Rightarrow> bool" where "is_integer = type_between T_BOOL T_LONG"
definition is_unsigned :: "ctype \<Rightarrow> bool" where
  "is_unsigned t \<longleftrightarrow> (\<not> t_pointer t \<and> t_unsigned t) \<or> is_bool t"
definition is_signed :: "ctype \<Rightarrow> bool" where
  "is_signed t \<longleftrightarrow> \<not> is_unsigned t \<and> is_integer t"
definition is_pointer :: "ctype \<Rightarrow> bool" where "is_pointer t \<longleftrightarrow> type_of t = T_POINTER"
definition is_real :: "ctype \<Rightarrow> bool" where "is_real = type_between T_FLOAT T_LDOUBLE"
definition is_float :: "ctype \<Rightarrow> bool" where "is_float t \<longleftrightarrow> type_of t = T_FLOAT"
definition is_double :: "ctype \<Rightarrow> bool" where "is_double t \<longleftrightarrow> type_of t = T_DOUBLE"
definition is_long_double :: "ctype \<Rightarrow> bool" where "is_long_double t \<longleftrightarrow> type_of t = T_LDOUBLE"
definition is_arithmetic :: "ctype \<Rightarrow> bool" where "is_arithmetic = type_between T_BOOL T_LDOUBLE"
definition is_scalar :: "ctype \<Rightarrow> bool" where "is_scalar = type_between T_BOOL T_POINTER"
definition is_void :: "ctype \<Rightarrow> bool" where "is_void t \<longleftrightarrow> type_of t = T_VOID"
definition is_array :: "ctype \<Rightarrow> bool" where "is_array t \<longleftrightarrow> type_of t = T_ARRAY"
definition is_aggregate :: "ctype \<Rightarrow> bool" where
  "is_aggregate t \<longleftrightarrow> is_array t \<or> is_struct_or_union t"
definition is_const :: "ctype \<Rightarrow> bool" where
  "is_const t \<longleftrightarrow> (if t_pointer t then t_pointer_const t else t_const t)"
definition is_volatile :: "ctype \<Rightarrow> bool" where
  "is_volatile t \<longleftrightarrow> (if t_pointer t then t_pointer_volatile t else t_volatile t)"
definition is_restrict :: "ctype \<Rightarrow> bool" where
  "is_restrict t \<longleftrightarrow> (if t_pointer t then t_pointer_restrict t else t_restrict t)"

named_theorems tclass_simps "classification macros unfolded to the type tag"

lemmas tclass_defs [tclass_simps] =
  is_function_def is_object_def is_struct_def is_union_def is_struct_or_union_def is_bool_def
  is_char_def is_short_type_def is_int_def is_long_def is_integer_def is_unsigned_def is_signed_def
  is_pointer_def is_real_def is_float_def is_double_def is_long_double_def is_arithmetic_def
  is_scalar_def is_void_def is_array_def is_aggregate_def type_between_def

section \<open>Operations on the value alone\<close>

definition is_type_placeholder :: "ctype \<Rightarrow> bool" where
  "is_type_placeholder t \<longleftrightarrow> t_type t = T_PLACEHOLDER"

definition get_type_placeholder :: ctype where
  "get_type_placeholder = zero_type\<lparr>t_type := T_PLACEHOLDER\<rparr>"

definition remove_qualifiers :: "ctype \<Rightarrow> ctype" where
  "remove_qualifiers t =
     (if t_pointer t
      then t\<lparr>t_pointer_const := False, t_pointer_volatile := False, t_pointer_restrict := False\<rparr>
      else t\<lparr>t_const := False, t_volatile := False, t_restrict := False\<rparr>)"

definition type_set_const :: "ctype \<Rightarrow> ctype" where
  "type_set_const t = (if t_pointer t then t\<lparr>t_pointer_const := True\<rparr> else t\<lparr>t_const := True\<rparr>)"

definition type_set_volatile :: "ctype \<Rightarrow> ctype" where
  "type_set_volatile t =
     (if t_pointer t then t\<lparr>t_pointer_volatile := True\<rparr> else t\<lparr>t_volatile := True\<rparr>)"

definition type_set_restrict :: "ctype \<Rightarrow> ctype outcome" where
  "type_set_restrict t =
     (if \<not> is_pointer t
      then Inl (Exit_Error ''Cannot apply 'restrict' qualifier to non-pointer types.'')
      else Inr (if t_pointer t then t\<lparr>t_pointer_restrict := True\<rparr> else t\<lparr>t_restrict := True\<rparr>))"

definition type_apply_qualifiers :: "ctype \<Rightarrow> ctype \<Rightarrow> ctype outcome" where
  "type_apply_qualifiers t other =
     (let t1 = (if is_const other then type_set_const t else t);
          t2 = (if is_volatile other then type_set_volatile t1 else t1)
      in if is_restrict other then type_set_restrict t2 else Inr t2)"

definition backing_type_from_bits :: "int \<Rightarrow> ctype outcome" where
  "backing_type_from_bits bits =
     (if bits = 8 then Inr basic_type__char
      else if bits = 16 then Inr basic_type__short
      else if bits = 32 then Inr basic_type__int
      else obind (oassert (bits = 64)) (\<lambda>_. Inr basic_type__long))"

section \<open>Facts\<close>

lemma type_of_basic [simp]: "type_of (basic_type tt) = tt" "type_of (basic_type_unsigned tt) = tt"
  by (simp_all add: type_of_def basic_type_def basic_type_unsigned_def zero_type_def)

lemma t_pointer_basic [simp]: "\<not> t_pointer (basic_type tt)" "\<not> t_pointer (basic_type_unsigned tt)"
  by (simp_all add: basic_type_def basic_type_unsigned_def zero_type_def)

lemma t_type_basic [simp]: "t_type (basic_type tt) = tt" "t_type (basic_type_unsigned tt) = tt"
  by (simp_all add: basic_type_def basic_type_unsigned_def zero_type_def)

lemma t_unsigned_basic [simp]: "\<not> t_unsigned (basic_type tt)" "t_unsigned (basic_type_unsigned tt)"
  by (simp_all add: basic_type_def basic_type_unsigned_def zero_type_def)

lemma type_num_inject [simp]: "type_num a = type_num b \<longleftrightarrow> a = b"
  by (cases a; cases b) simp_all

lemma is_integer_iff: "is_integer t \<longleftrightarrow> type_of t \<in> {T_BOOL, T_CHAR, T_SHORT, T_INT, T_LONG}"
  by (cases "type_of t") (simp_all add: tclass_simps)

lemma is_arithmetic_iff: "is_arithmetic t \<longleftrightarrow> is_integer t \<or> is_real t"
  by (cases "type_of t") (simp_all add: tclass_simps)

lemma is_scalar_iff: "is_scalar t \<longleftrightarrow> is_arithmetic t \<or> is_pointer t"
  by (cases "type_of t") (simp_all add: tclass_simps)

lemma remove_qualifiers_keeps [simp]:
  "type_of (remove_qualifiers t) = type_of t"
  "t_pointer (remove_qualifiers t) = t_pointer t"
  "t_type (remove_qualifiers t) = t_type t"
  "t_unsigned (remove_qualifiers t) = t_unsigned t"
  "t_ref (remove_qualifiers t) = t_ref t"
  by (simp_all add: remove_qualifiers_def type_of_def)

lemma remove_qualifiers_unqualified [simp]:
  "\<not> is_const (remove_qualifiers t)" "\<not> is_volatile (remove_qualifiers t)"
  "\<not> is_restrict (remove_qualifiers t)"
  by (simp_all add: remove_qualifiers_def is_const_def is_volatile_def is_restrict_def)

lemma remove_qualifiers_idem [simp]: "remove_qualifiers (remove_qualifiers t) = remove_qualifiers t"
  by (simp add: remove_qualifiers_def)

lemma type_of_set_quals [simp]:
  "type_of (type_set_const t) = type_of t" "type_of (type_set_volatile t) = type_of t"
  by (simp_all add: type_set_const_def type_set_volatile_def type_of_def)

lemma is_pointer_set_quals [simp]:
  "is_pointer (type_set_const t) = is_pointer t" "is_pointer (type_set_volatile t) = is_pointer t"
  by (simp_all add: is_pointer_def)

lemma type_set_const_quals [simp]:
  "is_const (type_set_const t)" "is_volatile (type_set_const t) = is_volatile t"
  "is_restrict (type_set_const t) = is_restrict t"
  "remove_qualifiers (type_set_const t) = remove_qualifiers t"
  by (simp_all add: type_set_const_def is_const_def is_volatile_def is_restrict_def remove_qualifiers_def)

lemma type_set_volatile_quals [simp]:
  "is_volatile (type_set_volatile t)" "is_const (type_set_volatile t) = is_const t"
  "is_restrict (type_set_volatile t) = is_restrict t"
  "remove_qualifiers (type_set_volatile t) = remove_qualifiers t"
  by (simp_all add: type_set_volatile_def is_const_def is_volatile_def is_restrict_def remove_qualifiers_def)

lemma type_set_restrict_ok:
  assumes "type_set_restrict t = Inr t'"
  shows "is_restrict t' \<and> is_const t' = is_const t \<and> is_volatile t' = is_volatile t \<and>
    type_of t' = type_of t \<and> remove_qualifiers t' = remove_qualifiers t"
proof -
  have "t' = (if t_pointer t then t\<lparr>t_pointer_restrict := True\<rparr> else t\<lparr>t_restrict := True\<rparr>)"
    using assms by (simp add: type_set_restrict_def split: if_splits)
  then show ?thesis
    by (simp add: is_restrict_def is_const_def is_volatile_def type_of_def remove_qualifiers_def)
qed

text \<open>
  Applying the qualifiers of another type adds exactly those, and fails exactly
  when \<open>restrict\<close> meets a type that is not a pointer.
\<close>

lemma type_apply_qualifiers_ok:
  assumes "type_apply_qualifiers t other = Inr t'"
  shows "is_const t' = (is_const t \<or> is_const other) \<and> is_volatile t' = (is_volatile t \<or> is_volatile other) \<and>
    is_restrict t' = (is_restrict t \<or> is_restrict other) \<and> type_of t' = type_of t \<and>
    remove_qualifiers t' = remove_qualifiers t"
proof -
  let ?a = "if is_const other then type_set_const t else t"
  let ?b = "if is_volatile other then type_set_volatile ?a else ?a"
  have b: "is_const ?b = (is_const t \<or> is_const other)" "is_volatile ?b = (is_volatile t \<or> is_volatile other)"
    "is_restrict ?b = is_restrict t" "type_of ?b = type_of t" "remove_qualifiers ?b = remove_qualifiers t"
    by simp_all
  show ?thesis
  proof (cases "is_restrict other")
    case True
    then have "type_set_restrict ?b = Inr t'" using assms by (simp add: type_apply_qualifiers_def Let_def)
    from type_set_restrict_ok [OF this] show ?thesis using b True by simp
  next
    case False
    then have "t' = ?b" using assms by (simp add: type_apply_qualifiers_def Let_def)
    then show ?thesis using b False by simp
  qed
qed

lemma type_apply_qualifiers_total:
  "(\<exists>t'. type_apply_qualifiers t other = Inr t') \<longleftrightarrow> is_pointer t \<or> \<not> is_restrict other"
  by (auto simp: type_apply_qualifiers_def type_set_restrict_def Let_def)

end
