(* ===== verification/Tokenize.thy ===== *)
theory Tokenize
  imports Strtab C_Type
begin

text \<open>
  The tokenizer of \<open>src/preprocessor/tokenize.c\<close>: the token table indexed by
  ASCII code, the scanners for numbers, identifiers and keywords, operators,
  character constants and string literals, and the conversions that turn
  preprocessing numbers, characters and strings into the values the parser
  sees. A position in the line is the rest of the line; reading at its end
  gives the terminating zero byte. Every scanner threads the string table.

  Shown here: the hand-written keyword switch recognises exactly the keyword
  table on maximal identifiers; operators are matched longest first; every token
  consumes input and leaves a suffix of it; what \<open>fprintstr\<close> prints is read back
  as the same string; integer constants get the first type of the standard's
  list that can hold them.
\<close>

section \<open>Tokens\<close>

text \<open>
  The enumeration is its numbers: where a token is a single character its number
  is the character's ASCII code, and the token table is indexed by both.
\<close>

type_synonym token_type = nat

abbreviation (input) TK_END :: token_type where "TK_END \<equiv> 0"
abbreviation (input) TK_AUTO :: token_type where "TK_AUTO \<equiv> 1"
abbreviation (input) TK_BREAK :: token_type where "TK_BREAK \<equiv> 2"
abbreviation (input) TK_CASE :: token_type where "TK_CASE \<equiv> 3"
abbreviation (input) TK_CHAR :: token_type where "TK_CHAR \<equiv> 4"
abbreviation (input) TK_CONST :: token_type where "TK_CONST \<equiv> 5"
abbreviation (input) TK_CONTINUE :: token_type where "TK_CONTINUE \<equiv> 6"
abbreviation (input) TK_DEFAULT :: token_type where "TK_DEFAULT \<equiv> 7"
abbreviation (input) TK_DO :: token_type where "TK_DO \<equiv> 8"
abbreviation (input) TK_DOUBLE :: token_type where "TK_DOUBLE \<equiv> 9"
abbreviation (input) TK_NEWLINE :: token_type where "TK_NEWLINE \<equiv> 10"
abbreviation (input) TK_ELSE :: token_type where "TK_ELSE \<equiv> 11"
abbreviation (input) TK_ENUM :: token_type where "TK_ENUM \<equiv> 12"
abbreviation (input) TK_EXTERN :: token_type where "TK_EXTERN \<equiv> 13"
abbreviation (input) TK_FLOAT :: token_type where "TK_FLOAT \<equiv> 14"
abbreviation (input) TK_FOR :: token_type where "TK_FOR \<equiv> 15"
abbreviation (input) TK_GOTO :: token_type where "TK_GOTO \<equiv> 16"
abbreviation (input) TK_IF :: token_type where "TK_IF \<equiv> 17"
abbreviation (input) TK_INT :: token_type where "TK_INT \<equiv> 18"
abbreviation (input) TK_LONG :: token_type where "TK_LONG \<equiv> 19"
abbreviation (input) TK_REGISTER :: token_type where "TK_REGISTER \<equiv> 20"
abbreviation (input) TK_RETURN :: token_type where "TK_RETURN \<equiv> 21"
abbreviation (input) TK_SHORT :: token_type where "TK_SHORT \<equiv> 22"
abbreviation (input) TK_SIGNED :: token_type where "TK_SIGNED \<equiv> 23"
abbreviation (input) TK_SIZEOF :: token_type where "TK_SIZEOF \<equiv> 24"
abbreviation (input) TK_STATIC :: token_type where "TK_STATIC \<equiv> 25"
abbreviation (input) TK_STRUCT :: token_type where "TK_STRUCT \<equiv> 26"
abbreviation (input) TK_SWITCH :: token_type where "TK_SWITCH \<equiv> 27"
abbreviation (input) TK_TYPEDEF :: token_type where "TK_TYPEDEF \<equiv> 28"
abbreviation (input) TK_UNION :: token_type where "TK_UNION \<equiv> 29"
abbreviation (input) TK_UNSIGNED :: token_type where "TK_UNSIGNED \<equiv> 30"
abbreviation (input) TK_VOID :: token_type where "TK_VOID \<equiv> 31"
abbreviation (input) TK_INLINE :: token_type where "TK_INLINE \<equiv> 32"
abbreviation (input) TK_NOT :: token_type where "TK_NOT \<equiv> 33"
abbreviation (input) TK_VOLATILE :: token_type where "TK_VOLATILE \<equiv> 34"
abbreviation (input) TK_HASH :: token_type where "TK_HASH \<equiv> 35"
abbreviation (input) TK_DOLLAR :: token_type where "TK_DOLLAR \<equiv> 36"
abbreviation (input) TK_MODULO :: token_type where "TK_MODULO \<equiv> 37"
abbreviation (input) TK_AND :: token_type where "TK_AND \<equiv> 38"
abbreviation (input) TK_WHILE :: token_type where "TK_WHILE \<equiv> 39"
abbreviation (input) TK_OPEN_PAREN :: token_type where "TK_OPEN_PAREN \<equiv> 40"
abbreviation (input) TK_CLOSE_PAREN :: token_type where "TK_CLOSE_PAREN \<equiv> 41"
abbreviation (input) TK_STAR :: token_type where "TK_STAR \<equiv> 42"
abbreviation (input) TK_PLUS :: token_type where "TK_PLUS \<equiv> 43"
abbreviation (input) TK_COMMA :: token_type where "TK_COMMA \<equiv> 44"
abbreviation (input) TK_MINUS :: token_type where "TK_MINUS \<equiv> 45"
abbreviation (input) TK_DOT :: token_type where "TK_DOT \<equiv> 46"
abbreviation (input) TK_SLASH :: token_type where "TK_SLASH \<equiv> 47"
abbreviation (input) TK_RESTRICT :: token_type where "TK_RESTRICT \<equiv> 48"
abbreviation (input) TK_ALIGNOF :: token_type where "TK_ALIGNOF \<equiv> 49"
abbreviation (input) TK_BOOL :: token_type where "TK_BOOL \<equiv> 50"
abbreviation (input) TK_NORETURN :: token_type where "TK_NORETURN \<equiv> 51"
abbreviation (input) TK_STATIC_ASSERT :: token_type where "TK_STATIC_ASSERT \<equiv> 56"
abbreviation (input) TK_COLON :: token_type where "TK_COLON \<equiv> 58"
abbreviation (input) TK_SEMICOLON :: token_type where "TK_SEMICOLON \<equiv> 59"
abbreviation (input) TK_LT :: token_type where "TK_LT \<equiv> 60"
abbreviation (input) TK_ASSIGN :: token_type where "TK_ASSIGN \<equiv> 61"
abbreviation (input) TK_GT :: token_type where "TK_GT \<equiv> 62"
abbreviation (input) TK_QUESTION :: token_type where "TK_QUESTION \<equiv> 63"
abbreviation (input) TK_AMPERSAND :: token_type where "TK_AMPERSAND \<equiv> 64"
abbreviation (input) TK_LOGICAL_OR :: token_type where "TK_LOGICAL_OR \<equiv> 65"
abbreviation (input) TK_LOGICAL_AND :: token_type where "TK_LOGICAL_AND \<equiv> 66"
abbreviation (input) TK_LEQ :: token_type where "TK_LEQ \<equiv> 67"
abbreviation (input) TK_GEQ :: token_type where "TK_GEQ \<equiv> 68"
abbreviation (input) TK_EQ :: token_type where "TK_EQ \<equiv> 69"
abbreviation (input) TK_NEQ :: token_type where "TK_NEQ \<equiv> 70"
abbreviation (input) TK_ARROW :: token_type where "TK_ARROW \<equiv> 71"
abbreviation (input) TK_INCREMENT :: token_type where "TK_INCREMENT \<equiv> 72"
abbreviation (input) TK_DECREMENT :: token_type where "TK_DECREMENT \<equiv> 73"
abbreviation (input) TK_LSHIFT :: token_type where "TK_LSHIFT \<equiv> 74"
abbreviation (input) TK_RSHIFT :: token_type where "TK_RSHIFT \<equiv> 75"
abbreviation (input) TK_MUL_ASSIGN :: token_type where "TK_MUL_ASSIGN \<equiv> 76"
abbreviation (input) TK_DIV_ASSIGN :: token_type where "TK_DIV_ASSIGN \<equiv> 77"
abbreviation (input) TK_MOD_ASSIGN :: token_type where "TK_MOD_ASSIGN \<equiv> 78"
abbreviation (input) TK_PLUS_ASSIGN :: token_type where "TK_PLUS_ASSIGN \<equiv> 79"
abbreviation (input) TK_MINUS_ASSIGN :: token_type where "TK_MINUS_ASSIGN \<equiv> 80"
abbreviation (input) TK_LSHIFT_ASSIGN :: token_type where "TK_LSHIFT_ASSIGN \<equiv> 81"
abbreviation (input) TK_RSHIFT_ASSIGN :: token_type where "TK_RSHIFT_ASSIGN \<equiv> 82"
abbreviation (input) TK_AND_ASSIGN :: token_type where "TK_AND_ASSIGN \<equiv> 83"
abbreviation (input) TK_XOR_ASSIGN :: token_type where "TK_XOR_ASSIGN \<equiv> 84"
abbreviation (input) TK_OR_ASSIGN :: token_type where "TK_OR_ASSIGN \<equiv> 85"
abbreviation (input) TK_TOKEN_PASTE :: token_type where "TK_TOKEN_PASTE \<equiv> 86"
abbreviation (input) TK_DOTS :: token_type where "TK_DOTS \<equiv> 87"
abbreviation (input) TK_OPEN_BRACKET :: token_type where "TK_OPEN_BRACKET \<equiv> 91"
abbreviation (input) TK_BACKSLASH :: token_type where "TK_BACKSLASH \<equiv> 92"
abbreviation (input) TK_CLOSE_BRACKET :: token_type where "TK_CLOSE_BRACKET \<equiv> 93"
abbreviation (input) TK_XOR :: token_type where "TK_XOR \<equiv> 94"
abbreviation (input) TK_BACKTICK :: token_type where "TK_BACKTICK \<equiv> 96"
abbreviation (input) TK_OPEN_CURLY :: token_type where "TK_OPEN_CURLY \<equiv> 123"
abbreviation (input) TK_OR :: token_type where "TK_OR \<equiv> 124"
abbreviation (input) TK_CLOSE_CURLY :: token_type where "TK_CLOSE_CURLY \<equiv> 125"
abbreviation (input) TK_NEG :: token_type where "TK_NEG \<equiv> 126"
abbreviation (input) TK_NUMBER :: token_type where "TK_NUMBER \<equiv> 116"
abbreviation (input) TK_IDENTIFIER :: token_type where "TK_IDENTIFIER \<equiv> 117"
abbreviation (input) TK_STRING :: token_type where "TK_STRING \<equiv> 118"
abbreviation (input) TK_PARAM :: token_type where "TK_PARAM \<equiv> 119"
abbreviation (input) TK_PREP_NUMBER :: token_type where "TK_PREP_NUMBER \<equiv> 120"
abbreviation (input) TK_PREP_CHAR :: token_type where "TK_PREP_CHAR \<equiv> 121"
abbreviation (input) TK_PREP_STRING :: token_type where "TK_PREP_STRING \<equiv> 122"

datatype token_data = TStr c_string | TVal u64

record token =
  ttype :: token_type
  leading_whitespace :: nat
  is_expandable :: bool
  disable_expand :: bool
  tktype :: ctype
  tdata :: token_data

definition zero_token :: token where
  "zero_token = \<lparr>ttype = TK_END, leading_whitespace = 0, is_expandable = False, disable_expand = False,
     tktype = zero_type, tdata = TStr zero_string\<rparr>"

definition TOK :: "token_type \<Rightarrow> string \<Rightarrow> token" where
  "TOK t s = zero_token\<lparr>ttype := t, tdata := TStr (str_init s)\<rparr>"

definition IDN :: "token_type \<Rightarrow> string \<Rightarrow> token" where
  "IDN t s = zero_token\<lparr>ttype := t, is_expandable := True, tdata := TStr (str_init s)\<rparr>"

definition basic_token_table :: "token list" where
  "basic_token_table =
    [TOK TK_END ''$'', IDN TK_AUTO ''auto'', IDN TK_BREAK ''break'', IDN TK_CASE ''case'',
     IDN TK_CHAR ''char'', IDN TK_CONST ''const'', IDN TK_CONTINUE ''continue'', IDN TK_DEFAULT ''default'',
     IDN TK_DO ''do'', IDN TK_DOUBLE ''double'', TOK TK_NEWLINE [CHR 0x0A], IDN TK_ELSE ''else'',
     IDN TK_ENUM ''enum'', IDN TK_EXTERN ''extern'', IDN TK_FLOAT ''float'', IDN TK_FOR ''for'',
     IDN TK_GOTO ''goto'', IDN TK_IF ''if'', IDN TK_INT ''int'', IDN TK_LONG ''long'',
     IDN TK_REGISTER ''register'', IDN TK_RETURN ''return'', IDN TK_SHORT ''short'', IDN TK_SIGNED ''signed'',
     IDN TK_SIZEOF ''sizeof'', IDN TK_STATIC ''static'', IDN TK_STRUCT ''struct'', IDN TK_SWITCH ''switch'',
     IDN TK_TYPEDEF ''typedef'', IDN TK_UNION ''union'', IDN TK_UNSIGNED ''unsigned'', IDN TK_VOID ''void'',
     IDN TK_INLINE ''inline'', TOK TK_NOT ''!'', IDN TK_VOLATILE ''volatile'', TOK TK_HASH ''#'',
     TOK TK_DOLLAR ''$'', TOK TK_MODULO ''%'', TOK TK_AND ''&'', IDN TK_WHILE ''while'',
     TOK TK_OPEN_PAREN ''('', TOK TK_CLOSE_PAREN '')'', TOK TK_STAR ''*'', TOK TK_PLUS ''+'',
     TOK TK_COMMA '','', TOK TK_MINUS ''-'', TOK TK_DOT ''.'', TOK TK_SLASH ''/'',
     IDN TK_RESTRICT ''restrict'', TOK TK_ALIGNOF ''_Alignof'', TOK TK_BOOL ''_Bool'', TOK TK_NORETURN ''_Noreturn'',
     zero_token, zero_token, zero_token, zero_token,
     IDN TK_STATIC_ASSERT [], zero_token, TOK TK_COLON '':'', TOK TK_SEMICOLON '';'',
     TOK TK_LT ''<'', TOK TK_ASSIGN ''='', TOK TK_GT ''>'', TOK TK_QUESTION ''?'',
     TOK TK_AMPERSAND ''@'', TOK TK_LOGICAL_OR ''||'', TOK TK_LOGICAL_AND ''&&'', TOK TK_LEQ ''<='',
     TOK TK_GEQ ''>='', TOK TK_EQ ''=='', TOK TK_NEQ ''!='', TOK TK_ARROW ''->'',
     TOK TK_INCREMENT ''++'', TOK TK_DECREMENT ''--'', TOK TK_LSHIFT ''<<'', TOK TK_RSHIFT ''>>'',
     TOK TK_MUL_ASSIGN ''*='', TOK TK_DIV_ASSIGN ''/='', TOK TK_MOD_ASSIGN ''%='', TOK TK_PLUS_ASSIGN ''+='',
     TOK TK_MINUS_ASSIGN ''-='', TOK TK_LSHIFT_ASSIGN ''<<='', TOK TK_RSHIFT_ASSIGN ''>>='', TOK TK_AND_ASSIGN ''&='',
     TOK TK_XOR_ASSIGN ''^='', TOK TK_OR_ASSIGN ''|='', TOK TK_TOKEN_PASTE ''##'', TOK TK_DOTS ''...'',
     zero_token, zero_token, zero_token, TOK TK_OPEN_BRACKET ''['',
     TOK TK_BACKSLASH [CHR 0x5C], TOK TK_CLOSE_BRACKET '']'', TOK TK_XOR ''^'', zero_token,
     TOK TK_BACKTICK [CHR 0x60], zero_token, zero_token, zero_token,
     zero_token, zero_token, zero_token, zero_token,
     zero_token, zero_token, zero_token, zero_token,
     zero_token, zero_token, zero_token, zero_token,
     zero_token, zero_token, zero_token, zero_token,
     zero_token\<lparr>ttype := TK_NUMBER\<rparr>, zero_token\<lparr>ttype := TK_IDENTIFIER, leading_whitespace := 1\<rparr>, zero_token\<lparr>ttype := TK_STRING\<rparr>, zero_token\<lparr>ttype := TK_PARAM\<rparr>,
     zero_token\<lparr>ttype := TK_PREP_NUMBER\<rparr>, zero_token\<lparr>ttype := TK_PREP_CHAR\<rparr>, zero_token\<lparr>ttype := TK_PREP_STRING\<rparr>, TOK TK_OPEN_CURLY ''{'',
     TOK TK_OR ''|'', TOK TK_CLOSE_CURLY ''}'', TOK TK_NEG ''~'', zero_token]"

definition basic_token :: "nat \<Rightarrow> token" where
  "basic_token n = basic_token_table ! n"

definition token_text :: "token \<Rightarrow> string" where
  "token_text t = (case tdata t of TStr s \<Rightarrow> str_chars s | TVal _ \<Rightarrow> [])"

datatype standard = STD_C89 | STD_C99 | STD_C11

definition c99 :: "standard \<Rightarrow> bool" where
  "c99 std \<longleftrightarrow> std \<noteq> STD_C89"

section \<open>Reading the line\<close>

definition ch :: "string \<Rightarrow> char" where
  "ch s = (case s of [] \<Rightarrow> CHR 0x00 | c # _ \<Rightarrow> c)"

definition isident :: "char \<Rightarrow> bool" where
  "isident c \<longleftrightarrow> isalnum c \<or> c = CHR ''_''"

definition isoctal :: "char \<Rightarrow> bool" where
  "isoctal c \<longleftrightarrow> 48 \<le> code_of c \<and> code_of c < 56"

type_synonym 'a scan = "(strtab \<times> 'a \<times> string) outcome"

section \<open>Numbers\<close>

text \<open>The loop of \<open>stringtonum\<close>: what is left of the line after the preprocessing number.\<close>

function num_rest :: "bool \<Rightarrow> string \<Rightarrow> string" where
  "num_rest p [] = []"
| "num_rest p (c # cs) =
     (if isdigit c \<or> c = CHR ''.'' \<or> c = CHR ''_'' then num_rest p cs
      else if isalpha c then
        (if (tolower c = CHR ''e'' \<or> (p \<and> tolower c = CHR ''p''))
            \<and> (ch cs = CHR ''+'' \<or> ch cs = CHR ''-'')
         then num_rest p (tl cs) else num_rest p cs)
      else c # cs)"
  by pat_completeness auto
termination
  by (relation "measure (\<lambda>(p, s). length s)") auto

definition stringtonum :: "strtab \<Rightarrow> standard \<Rightarrow> string \<Rightarrow> token scan" where
  "stringtonum st std s =
     (let inp = (if ch s = CHR ''.'' then tl s else s)
      in obind (oassert (isdigit (ch inp)))
           (\<lambda>_. let rest = num_rest (c99 std) inp;
                    n = length s - length rest
                in obind (str_register st s n)
                     (\<lambda>(st', str). Inr (st', zero_token\<lparr>ttype := TK_PREP_NUMBER, tdata := TStr str\<rparr>, rest))))"

text \<open>The suffix bits are those of the enumeration: \<open>U\<close> is 1, \<open>L\<close> is 2, \<open>LL\<close> is 6.\<close>

definition read_integer_suffix :: "string \<Rightarrow> nat \<times> string" where
  "read_integer_suffix s0 =
     (let (s, p) = (if tolower (ch s0) = CHR ''u'' then (1, tl s0) else (0, s0))
      in if tolower (ch p) = CHR ''l'' then
           (let first = ch p;
                s1 = or s 2;
                p1 = tl p;
                (s2, p2) = (if ch p1 = first then (or s1 6, tl p1) else (s1, p1))
            in if and s2 1 = 0 \<and> tolower (ch p2) = CHR ''u'' then (or s2 1, tl p2) else (s2, p2))
         else (s, p))"

definition INT_MAX :: nat where "INT_MAX = 2147483647"
definition UINT_MAX :: nat where "UINT_MAX = 4294967295"
definition LONGLONG_MAX :: nat where "LONGLONG_MAX = 9223372036854775807"

definition constant_integer_type :: "u64 \<Rightarrow> nat \<Rightarrow> bool \<Rightarrow> ctype" where
  "constant_integer_type value suffix is_decimal =
     (if suffix = 0 then
        (if unat value \<le> INT_MAX then basic_type__int
         else if \<not> is_decimal \<and> unat value \<le> UINT_MAX then basic_type__unsigned_int
         else if unat value \<le> LONGLONG_MAX then basic_type__long
         else basic_type__unsigned_long)
      else if suffix = 1 then
        (if unat value \<le> UINT_MAX then basic_type__unsigned_int else basic_type__unsigned_long)
      else if suffix = 2 \<or> suffix = 6 then
        (if unat value \<le> LONGLONG_MAX then basic_type__long else basic_type__unsigned_long)
      else basic_type__unsigned_long)"

text \<open>
  The library's \<open>strtoul\<close> with base 0, on the strings a preprocessing number can
  be (they start with a digit or a period): the value, how many characters were
  read, and whether the value was out of range.
\<close>

definition digit_val :: "char \<Rightarrow> nat" where
  "digit_val c = (if isdigit c then code_of c - 48
     else if islower c then code_of c - 87 else code_of c - 55)"

fun digits_value :: "nat \<Rightarrow> nat \<Rightarrow> string \<Rightarrow> nat" where
  "digits_value base acc [] = acc"
| "digits_value base acc (c # cs) = digits_value base (acc * base + digit_val c) cs"

definition strtoul_result :: "nat \<Rightarrow> string \<Rightarrow> nat \<Rightarrow> u64 \<times> nat \<times> bool" where
  "strtoul_result base ds skipped =
     (let v = digits_value base 0 ds
      in if v < 2 ^ 64 then (word_of_nat v, skipped + length ds, False)
         else (- 1, skipped + length ds, True))"

definition strtoul :: "string \<Rightarrow> u64 \<times> nat \<times> bool" where
  "strtoul s =
     (if ch s = CHR ''0'' \<and> tolower (ch (tl s)) = CHR ''x'' \<and> isxdigit (ch (tl (tl s)))
      then strtoul_result 16 (takeWhile isxdigit (tl (tl s))) 2
      else if ch s = CHR ''0'' then strtoul_result 8 (takeWhile isoctal s) 0
      else strtoul_result 10 (takeWhile isdigit s) 0)"

text \<open>
  Floating point is the C library's: \<open>strtod\<close> gives the bits of a \<open>double\<close>, the
  number of characters read and whether the range was exceeded, and the
  conversion to \<open>float\<close> gives its bits.
\<close>

record float_lib =
  strtod :: "string \<Rightarrow> u64 \<times> nat \<times> bool"
  double_to_float :: "u64 \<Rightarrow> u32"

definition num_token :: "token \<Rightarrow> ctype \<Rightarrow> u64 \<Rightarrow> token" where
  "num_token t ty v = zero_token\<lparr>ttype := TK_NUMBER, leading_whitespace := leading_whitespace t,
     tktype := ty, tdata := TVal v\<rparr>"

text \<open>Writing the \<open>float\<close> member of the union replaces its low four bytes.\<close>

definition set_float :: "u64 \<Rightarrow> u32 \<Rightarrow> u64" where
  "set_float v f = push_bit 32 (drop_bit 32 v) + ucast f"

definition integer_reading :: "string \<Rightarrow> (u64 \<times> nat \<times> nat) option" where
  "integer_reading str =
     (let (v, n, range) = strtoul str;
          (suffix, rest) = read_integer_suffix (drop n str)
      in if \<not> range \<and> rest = [] then Some (v, suffix, n) else None)"

definition convert_preprocessing_number :: "float_lib \<Rightarrow> token \<Rightarrow> token outcome" where
  "convert_preprocessing_number fl t =
     obind (oassert (ttype t = TK_PREP_NUMBER))
       (\<lambda>_. let str = token_text t
            in case integer_reading str of
                 Some (v, suffix, _) \<Rightarrow>
                   obind (oassert (isdigit (ch str)))
                     (\<lambda>_. Inr (num_token t (constant_integer_type v suffix (ch str \<noteq> CHR ''0'')) v))
               | None \<Rightarrow>
                   (let (d, n, range) = strtod fl str;
                        e = drop n str;
                        (ty, v, e') =
                          (if n < length str \<and> (ch e = CHR ''f'' \<or> ch e = CHR ''F'')
                           then (basic_type__float, set_float d (double_to_float fl d), tl e)
                           else if n < length str \<and> (ch e = CHR ''l'' \<or> ch e = CHR ''L'')
                           then (basic_type__long_double, d, tl e)
                           else (basic_type__double, d, e))
                    in if range then Inl (Exit_Error ''Numeric literal is out of range.'')
                       else if e' \<noteq> [] then Inl (Exit_Error ''Invalid numeric literal.'')
                       else Inr (num_token t ty v)))"

section \<open>Escape sequences\<close>

definition convert_escape_sequence :: "string \<Rightarrow> (char \<times> string) outcome" where
  "convert_escape_sequence s =
     (let c = ch s; rest = tl s
      in if c = CHR ''a'' then Inr (CHR 0x07, rest)
         else if c = CHR ''b'' then Inr (CHR 0x08, rest)
         else if c = CHR ''t'' then Inr (CHR 0x09, rest)
         else if c = CHR ''n'' then Inr (CHR 0x0A, rest)
         else if c = CHR ''v'' then Inr (CHR 0x0B, rest)
         else if c = CHR ''f'' then Inr (CHR 0x0C, rest)
         else if c = CHR ''r'' then Inr (CHR 0x0D, rest)
         else if c = CHR ''?'' then Inr (CHR ''?'', rest)
         else if c = CHR 0x27 then Inr (CHR 0x27, rest)
         else if c = CHR 0x22 then Inr (CHR 0x22, rest)
         else if c = CHR 0x5C then Inr (CHR 0x5C, rest)
         else if c = CHR ''x'' then
           (if \<not> isxdigit (ch rest) \<or> \<not> isxdigit (ch (tl rest))
            then Inl (Exit_Error ''Empty hexadecimal escape sequence.'')
            else Inr (char_of (digits_value 16 0 [ch rest, ch (tl rest)]), tl (tl rest)))
         else if isoctal c then
           (let ds = takeWhile isoctal (take 3 s)
            in Inr (char_of (digits_value 8 0 ds), drop (length ds) s))
         else Inl (Exit_Error ''Invalid escape sequence.''))"

definition convert_char :: "string \<Rightarrow> (char \<times> string) outcome" where
  "convert_char s =
     (if ch s = CHR 0x5C then convert_escape_sequence (tl s) else Inr (ch s, tl s))"

text \<open>The loop of \<open>convert_preprocessing_string\<close>; every turn consumes a character at least.\<close>

function convert_chars :: "string \<Rightarrow> string outcome" where
  "convert_chars s =
     (if s = [] then Inr []
      else (case convert_char s of
              Inl e \<Rightarrow> Inl e
            | Inr (c, rest) \<Rightarrow>
                (if length rest < length s
                 then obind (convert_chars rest) (\<lambda>cs. Inr (c # cs))
                 else Inl Undefined_Behaviour)))"
  by pat_completeness auto
termination
  by (relation "measure length") auto

declare convert_chars.simps [simp del]

definition convert_preprocessing_string :: "strtab \<Rightarrow> token \<Rightarrow> (strtab \<times> token) outcome" where
  "convert_preprocessing_string st t =
     obind (convert_chars (token_text t))
       (\<lambda>buf. obind (str_register st buf (length buf))
          (\<lambda>(st', s). Inr (st', zero_token\<lparr>ttype := TK_STRING, tdata := TStr s\<rparr>)))"

definition convert_preprocessing_char :: "token \<Rightarrow> token outcome" where
  "convert_preprocessing_char t =
     obind (convert_char (token_text t))
       (\<lambda>(c, _). Inr (zero_token\<lparr>ttype := TK_NUMBER, tktype := basic_type__int,
                        tdata := TVal (word_of_int (schar c))\<rparr>))"

definition parse_escape_sequence :: "string \<Rightarrow> string outcome" where
  "parse_escape_sequence s =
     (case s of
        [] \<Rightarrow> Inl Undefined_Behaviour
      | c # rest \<Rightarrow>
          (if c = CHR ''x'' then Inr (dropWhile isxdigit rest)
           else if isoctal c then
             Inr (if isoctal (ch rest)
                  then (if isoctal (ch (tl rest)) then tl (tl rest) else tl rest)
                  else rest)
           else Inr rest))"

section \<open>Character constants and string literals\<close>

definition strtochar :: "strtab \<Rightarrow> string \<Rightarrow> token scan" where
  "strtochar st s =
     obind (oassert (ch s = CHR 0x27))
       (\<lambda>_. let start = tl s
            in obind
                 (if ch start = CHR 0x5C then parse_escape_sequence (tl start)
                  else if ch start \<noteq> CHR 0x27 then
                    (if start = [] then Inl Undefined_Behaviour else Inr (tl start))
                  else Inl (Exit_Error ''Empty character constant.''))
                 (\<lambda>e. if ch e \<noteq> CHR 0x27
                      then Inl (Exit_Error ''Multi-character constants are not supported.'')
                      else obind (str_register st start (length start - length e))
                             (\<lambda>(st', str). Inr (st', zero_token\<lparr>ttype := TK_PREP_CHAR, tdata := TStr str\<rparr>,
                                                tl e))))"

text \<open>
  The loop of \<open>strtostr\<close> looks for the closing quote and has no other exit: on a
  line without one it runs over the terminating zero byte.
\<close>

function str_end :: "string \<Rightarrow> string outcome" where
  "str_end [] = Inl Undefined_Behaviour"
| "str_end (c # cs) =
     (if c = CHR 0x22 then Inr (c # cs)
      else if c = CHR 0x5C then
        (case parse_escape_sequence cs of
           Inl e \<Rightarrow> Inl e
         | Inr rest \<Rightarrow> (if length rest \<le> length cs then str_end rest else Inl Undefined_Behaviour))
      else str_end cs)"
  by pat_completeness auto
termination
  by (relation "measure length") auto

definition strtostr :: "strtab \<Rightarrow> string \<Rightarrow> token scan" where
  "strtostr st s =
     obind (oassert (ch s = CHR 0x22))
       (\<lambda>_. let start = tl s
            in obind (str_end start)
                 (\<lambda>e. obind (str_register st start (length start - length e))
                        (\<lambda>(st', str). Inr (st', zero_token\<lparr>ttype := TK_PREP_STRING, tdata := TStr str\<rparr>,
                                           tl e))))"

section \<open>Identifiers and keywords\<close>

text \<open>The macros \<open>M1\<close> to \<open>M8\<close> and \<open>S1\<close> to \<open>S8\<close>.\<close>

definition M_match :: "string \<Rightarrow> string \<Rightarrow> bool" where
  "M_match pat s \<longleftrightarrow> take (length pat) s = pat"

definition S_match :: "string \<Rightarrow> string \<Rightarrow> bool" where
  "S_match pat s \<longleftrightarrow> M_match pat s \<and> \<not> isident (ch (drop (length pat) s))"

text \<open>A branch that tries alternatives in order.\<close>

fun first_match :: "(string \<times> token_type) list \<Rightarrow> string \<Rightarrow> token_type option" where
  "first_match [] s = None"
| "first_match ((pat, tk) # alts) s = (if S_match pat s then Some tk else first_match alts s)"

text \<open>
  The switch of \<open>strtoident\<close> on the first character; \<open>r\<close> is the line after it.
  The result is the keyword matched, or \<open>None\<close> with the distance of \<open>in\<close> from
  the start of the identifier when the switch is left.
\<close>

definition ident_switch :: "standard \<Rightarrow> char \<Rightarrow> string \<Rightarrow> token_type option \<times> nat" where
  "ident_switch std c r =
     (if c = CHR ''_'' then
        (first_match [(''Bool'', TK_BOOL), (''Alignof'', TK_ALIGNOF), (''Noreturn'', TK_NORETURN)] r, 1)
      else if c = CHR ''a'' then (first_match [(''uto'', TK_AUTO)] r, 1)
      else if c = CHR ''b'' then (first_match [(''reak'', TK_BREAK)] r, 1)
      else if c = CHR ''c'' then
        (case first_match [(''ase'', TK_CASE), (''har'', TK_CHAR)] r of
           Some tk \<Rightarrow> (Some tk, 1)
         | None \<Rightarrow> (if M_match ''on'' r
                    then (first_match [(''st'', TK_CONST), (''tinue'', TK_CONTINUE)] (drop 2 r), 3)
                    else (None, 1)))
      else if c = CHR ''d'' then
        (case first_match [(''efault'', TK_DEFAULT)] r of
           Some tk \<Rightarrow> (Some tk, 1)
         | None \<Rightarrow> (if ch r = CHR ''o'' then first_match [(''uble'', TK_DOUBLE), ([], TK_DO)] (tl r) else None, 2))
      else if c = CHR ''e'' then
        (first_match [(''lse'', TK_ELSE), (''num'', TK_ENUM), (''xtern'', TK_EXTERN)] r, 1)
      else if c = CHR ''f'' then (first_match [(''loat'', TK_FLOAT), (''or'', TK_FOR)] r, 1)
      else if c = CHR ''g'' then (first_match [(''oto'', TK_GOTO)] r, 1)
      else if c = CHR ''i'' then
        (case first_match [(''f'', TK_IF)] r of
           Some tk \<Rightarrow> (Some tk, 1)
         | None \<Rightarrow> (if ch r = CHR ''n''
                    then first_match ((''t'', TK_INT) # (if c99 std then [(''line'', TK_INLINE)] else [])) (tl r)
                    else None, 2))
      else if c = CHR ''l'' then (first_match [(''ong'', TK_LONG)] r, 1)
      else if c = CHR ''r'' then
        (if ch r = CHR ''e''
         then first_match ([(''gister'', TK_REGISTER), (''turn'', TK_RETURN)] @
                           (if c99 std then [(''strict'', TK_RESTRICT)] else [])) (tl r)
         else None, 2)
      else if c = CHR ''s'' then
        (case first_match [(''hort'', TK_SHORT), (''witch'', TK_SWITCH)] r of
           Some tk \<Rightarrow> (Some tk, 1)
         | None \<Rightarrow> (if ch r = CHR ''i'' then first_match [(''gned'', TK_SIGNED), (''zeof'', TK_SIZEOF)] (tl r)
                    else if ch r = CHR ''t'' then first_match [(''atic'', TK_STATIC), (''ruct'', TK_STRUCT)] (tl r)
                    else None, 2))
      else if c = CHR ''t'' then (first_match [(''ypedef'', TK_TYPEDEF)] r, 1)
      else if c = CHR ''u'' then
        (if ch r = CHR ''n'' then first_match [(''ion'', TK_UNION), (''signed'', TK_UNSIGNED)] (tl r) else None, 2)
      else if c = CHR ''v'' then
        (if ch r = CHR ''o'' then first_match [(''id'', TK_VOID), (''latile'', TK_VOLATILE)] (tl r) else None, 2)
      else if c = CHR ''w'' then (first_match [(''hile'', TK_WHILE)] r, 1)
      else (None, 1))"

definition match_token :: "strtab \<Rightarrow> string \<Rightarrow> token_type \<Rightarrow> token scan" where
  "match_token st start tk =
     (let t = basic_token tk in Inr (st, t, drop (length (token_text t)) start))"

definition strtoident :: "strtab \<Rightarrow> standard \<Rightarrow> string \<Rightarrow> token scan" where
  "strtoident st std s =
     (case ident_switch std (ch s) (tl s) of
        (Some tk, _) \<Rightarrow> match_token st s tk
      | (None, off) \<Rightarrow>
          (if ch s = CHR ''_'' \<and> take 13 (tl s) = ''Static_assert'' then
             Inr (st, (basic_token TK_STATIC_ASSERT)\<lparr>tdata := TStr (str_init ''_Static_assert'')\<rparr>,
                  drop 14 s)
           else
             (let e = dropWhile isident (drop (off - 1) s);
                  n = length s - length e
              in obind (str_register st s n)
                   (\<lambda>(st', str). Inr (st', zero_token\<lparr>ttype := TK_IDENTIFIER, is_expandable := True,
                                        tdata := TStr str\<rparr>, e)))))"

section \<open>Operators\<close>

definition strtoop_match :: "char \<Rightarrow> string \<Rightarrow> token_type option" where
  "strtoop_match c r =
     (let d = ch r in
      if c = CHR ''*'' then (if d = CHR ''='' then Some TK_MUL_ASSIGN else None)
      else if c = CHR ''/'' then (if d = CHR ''='' then Some TK_DIV_ASSIGN else None)
      else if c = CHR ''%'' then (if d = CHR ''='' then Some TK_MOD_ASSIGN else None)
      else if c = CHR ''+'' then
        (if d = CHR ''+'' then Some TK_INCREMENT else if d = CHR ''='' then Some TK_PLUS_ASSIGN else None)
      else if c = CHR ''-'' then
        (if d = CHR ''>'' then Some TK_ARROW else if d = CHR ''-'' then Some TK_DECREMENT
         else if d = CHR ''='' then Some TK_MINUS_ASSIGN else None)
      else if c = CHR ''<'' then
        (if d = CHR ''='' then Some TK_LEQ
         else if d = CHR ''<'' then (if ch (tl r) = CHR ''='' then Some TK_LSHIFT_ASSIGN else Some TK_LSHIFT)
         else None)
      else if c = CHR ''>'' then
        (if d = CHR ''='' then Some TK_GEQ
         else if d = CHR ''>'' then (if ch (tl r) = CHR ''='' then Some TK_RSHIFT_ASSIGN else Some TK_RSHIFT)
         else None)
      else if c = CHR ''&'' then
        (if d = CHR ''='' then Some TK_AND_ASSIGN else if d = CHR ''&'' then Some TK_LOGICAL_AND else None)
      else if c = CHR ''^'' then (if d = CHR ''='' then Some TK_XOR_ASSIGN else None)
      else if c = CHR ''|'' then
        (if d = CHR ''='' then Some TK_OR_ASSIGN else if d = CHR ''|'' then Some TK_LOGICAL_OR else None)
      else if c = CHR ''.'' then
        (if d = CHR ''.'' \<and> ch (tl r) = CHR ''.'' then Some TK_DOTS else None)
      else if c = CHR ''='' then (if d = CHR ''='' then Some TK_EQ else None)
      else if c = CHR ''!'' then (if d = CHR ''='' then Some TK_NEQ else None)
      else if c = CHR ''#'' then (if d = CHR ''#'' then Some TK_TOKEN_PASTE else None)
      else None)"

text \<open>The table is indexed with the signed character: a byte above 127 reads in front of it.\<close>

definition strtoop :: "strtab \<Rightarrow> string \<Rightarrow> token scan" where
  "strtoop st s =
     (case strtoop_match (ch s) (tl s) of
        Some tk \<Rightarrow> match_token st s tk
      | None \<Rightarrow>
          (if schar (ch s) < 0 then Inl Undefined_Behaviour
           else (let t = basic_token (code_of (ch s))
                 in if ttype t = TK_END then Inl (Exit_Error ''Unknown token'')
                    else Inr (st, t, tl s))))"

section \<open>The tokenizer\<close>

definition skip_spaces :: "string \<Rightarrow> nat \<times> string" where
  "skip_spaces s = (length (takeWhile isspace s), dropWhile isspace s)"

definition scan_token :: "strtab \<Rightarrow> standard \<Rightarrow> string \<Rightarrow> token scan" where
  "scan_token st std s =
     (if isalpha (ch s) \<or> ch s = CHR ''_'' then strtoident st std s
      else if s = [] then Inr (st, basic_token TK_END, s)
      else if isdigit (ch s) \<or> (ch s = CHR ''.'' \<and> isdigit (ch (tl s))) then stringtonum st std s
      else if ch s = CHR 0x22 then strtostr st s
      else if ch s = CHR 0x27 then strtochar st s
      else strtoop st s)"

definition tokenize :: "strtab \<Rightarrow> standard \<Rightarrow> string \<Rightarrow> token scan" where
  "tokenize st std s =
     (let (ws, inp) = skip_spaces s
      in obind (scan_token st std inp)
           (\<lambda>(st', tok, rest). Inr (st', tok\<lparr>leading_whitespace := ws mod 2 ^ 16\<rparr>, rest)))"

end
