(* ===== verification/Tokenizer_Correct.thy ===== *)
theory Tokenizer_Correct
  imports Tokenize "HOL-Library.Sublist"
begin

text \<open>
  Correctness of the tokenizer: the hand-written keyword switch against the
  keyword table, longest match for operators, progress, the round trip of
  string literals through \<open>fprintstr\<close>, and the typing of integer constants.
\<close>

section \<open>Maximal identifiers\<close>

lemma isident_ch_nul [simp]: "\<not> isident (CHR 0x00)"
  by (simp add: isident_def ctype_simps)

lemma ch_simps [simp]: "ch [] = CHR 0x00" "ch (c # cs) = c"
  by (simp_all add: ch_def)

lemma not_isident_ch: "\<not> isident (ch s) \<longleftrightarrow> takeWhile isident s = []"
  by (cases s) auto

text \<open>A delimited match is equality with the maximal run of identifier characters.\<close>

lemma S_match_iff:
  assumes "\<forall>c \<in> set pat. isident c"
  shows "S_match pat s \<longleftrightarrow> takeWhile isident s = pat"
  using assms
proof (induction pat arbitrary: s)
  case Nil
  then show ?case by (simp add: S_match_def M_match_def not_isident_ch)
next
  case (Cons p ps)
  then show ?case by (cases s) (auto simp: S_match_def M_match_def)
qed

definition ident_alts :: "(string \<times> token_type) list \<Rightarrow> bool" where
  "ident_alts alts \<longleftrightarrow> (\<forall>(pat, tk) \<in> set alts. \<forall>c \<in> set pat. isident c)"

lemma first_match_map_of:
  "ident_alts alts \<Longrightarrow> first_match alts s = map_of alts (takeWhile isident s)"
  by (induction alts) (auto simp: S_match_iff ident_alts_def)

lemma ch_eq_takeWhile:
  "isident c \<Longrightarrow> ch r = c \<longleftrightarrow> (\<exists>w. takeWhile isident r = c # w)"
  by (cases r) auto

lemma takeWhile_tl: "takeWhile isident r = c # w \<Longrightarrow> takeWhile isident (tl r) = w"
  by (cases r) (auto split: if_splits)

section \<open>The keyword table\<close>

definition keyword_table :: "standard \<Rightarrow> (string \<times> token_type) list" where
  "keyword_table std =
     [(''_Bool'', TK_BOOL), (''_Alignof'', TK_ALIGNOF), (''_Noreturn'', TK_NORETURN),
      (''auto'', TK_AUTO), (''break'', TK_BREAK), (''case'', TK_CASE), (''char'', TK_CHAR),
      (''const'', TK_CONST), (''continue'', TK_CONTINUE), (''default'', TK_DEFAULT),
      (''double'', TK_DOUBLE), (''do'', TK_DO), (''else'', TK_ELSE), (''enum'', TK_ENUM),
      (''extern'', TK_EXTERN), (''float'', TK_FLOAT), (''for'', TK_FOR), (''goto'', TK_GOTO),
      (''if'', TK_IF), (''int'', TK_INT), (''long'', TK_LONG), (''register'', TK_REGISTER),
      (''return'', TK_RETURN), (''short'', TK_SHORT), (''switch'', TK_SWITCH),
      (''signed'', TK_SIGNED), (''sizeof'', TK_SIZEOF), (''static'', TK_STATIC),
      (''struct'', TK_STRUCT), (''typedef'', TK_TYPEDEF), (''union'', TK_UNION),
      (''unsigned'', TK_UNSIGNED), (''void'', TK_VOID), (''volatile'', TK_VOLATILE),
      (''while'', TK_WHILE)] @
     (if c99 std then [(''inline'', TK_INLINE), (''restrict'', TK_RESTRICT)] else [])"

text \<open>The switch with every test expressed on the maximal identifier \<open>c # w\<close>.\<close>

lemma ident_alts_simps [simp]:
  "ident_alts []"
  "ident_alts ((pat, tk) # alts) \<longleftrightarrow> list_all isident pat \<and> ident_alts alts"
  "ident_alts (xs @ ys) \<longleftrightarrow> ident_alts xs \<and> ident_alts ys"
  by (auto simp: ident_alts_def list_all_iff)

lemma isident_letter [simp]:
  "isident CHR ''_''" "isident CHR ''a''" "isident CHR ''b''" "isident CHR ''c''" "isident CHR ''d''"
  "isident CHR ''e''" "isident CHR ''f''" "isident CHR ''g''" "isident CHR ''h''" "isident CHR ''i''"
  "isident CHR ''k''" "isident CHR ''l''" "isident CHR ''m''" "isident CHR ''n''" "isident CHR ''o''"
  "isident CHR ''p''" "isident CHR ''q''" "isident CHR ''r''" "isident CHR ''s''" "isident CHR ''t''"
  "isident CHR ''u''" "isident CHR ''v''" "isident CHR ''w''" "isident CHR ''x''" "isident CHR ''y''"
  "isident CHR ''z''" "isident CHR ''A''" "isident CHR ''B''" "isident CHR ''N''" "isident CHR ''S''"
  by (simp_all add: isident_def ctype_simps)

lemma ch_tail_match:
  assumes "isident d" "ident_alts alts"
  shows "(if ch r = d then first_match alts (tl r) else None) =
     (case takeWhile isident r of [] \<Rightarrow> None | e # w \<Rightarrow> if e = d then map_of alts w else None)"
  using assms by (cases r) (auto simp: first_match_map_of)

lemma M_match_on: "M_match ''on'' r \<longleftrightarrow> (\<exists>w. takeWhile isident r = CHR ''o'' # CHR ''n'' # w)"
  by (cases r; cases "tl r") (auto simp: M_match_def)

lemma drop2_on:
  "takeWhile isident r = CHR ''o'' # CHR ''n'' # w \<Longrightarrow> takeWhile isident (drop 2 r) = w"
  by (cases r; cases "tl r") (auto split: if_splits)

text \<open>Two-stage branches: a first set of alternatives, then one behind a further letter.\<close>

lemma fst_case_option:
  "fst (case x of Some tk \<Rightarrow> (Some tk, i) | None \<Rightarrow> (y, j)) = (case x of Some tk \<Rightarrow> Some tk | None \<Rightarrow> y)"
  by (cases x) simp_all

lemmas switch_simps = ident_switch_def keyword_table_def first_match_map_of ch_tail_match fst_case_option

declare first_match.simps [simp del]

lemma switch_c:
  "fst (ident_switch std CHR ''c'' r) = map_of (keyword_table std) (CHR ''c'' # takeWhile isident r)"
proof (cases "M_match ''on'' r")
  case True
  then obtain w where w: "takeWhile isident r = CHR ''o'' # CHR ''n'' # w" by (auto simp: M_match_on)
  then show ?thesis
    using True drop2_on [OF w] by (simp add: switch_simps)
next
  case False
  then have ne: "\<And>w. takeWhile isident r \<noteq> CHR ''o'' # CHR ''n'' # w" by (auto simp: M_match_on)
  show ?thesis
    using False ne by (simp add: switch_simps)
qed

lemma switch_d:
  "fst (ident_switch std CHR ''d'' r) = map_of (keyword_table std) (CHR ''d'' # takeWhile isident r)"
  by (cases "takeWhile isident r") (simp_all add: switch_simps)

lemma switch_i:
  "fst (ident_switch std CHR ''i'' r) = map_of (keyword_table std) (CHR ''i'' # takeWhile isident r)"
  by (cases "takeWhile isident r") (simp_all add: switch_simps)

lemma switch_r:
  "fst (ident_switch std CHR ''r'' r) = map_of (keyword_table std) (CHR ''r'' # takeWhile isident r)"
  by (cases "takeWhile isident r") (simp_all add: switch_simps)

lemma switch_u:
  "fst (ident_switch std CHR ''u'' r) = map_of (keyword_table std) (CHR ''u'' # takeWhile isident r)"
  by (cases "takeWhile isident r") (simp_all add: switch_simps)

lemma switch_v:
  "fst (ident_switch std CHR ''v'' r) = map_of (keyword_table std) (CHR ''v'' # takeWhile isident r)"
  by (cases "takeWhile isident r") (simp_all add: switch_simps)

lemma switch_plain:
  "c \<in> {CHR ''_'', CHR ''a'', CHR ''b'', CHR ''e'', CHR ''f'', CHR ''g'', CHR ''l'', CHR ''t'', CHR ''w''} \<Longrightarrow>
   fst (ident_switch std c r) = map_of (keyword_table std) (c # takeWhile isident r)"
  by (elim insertE emptyE; simp add: switch_simps)

lemma ch_tail_match2:
  assumes "isident d" "isident e" "d \<noteq> e" "ident_alts xs" "ident_alts ys"
  shows "(if ch r = d then first_match xs (tl r) else if ch r = e then first_match ys (tl r) else None) =
     (case takeWhile isident r of [] \<Rightarrow> None
      | c # w \<Rightarrow> if c = d then map_of xs w else if c = e then map_of ys w else None)"
  using assms by (cases r) (auto simp: first_match_map_of)

lemma switch_s:
  "fst (ident_switch std CHR ''s'' r) = map_of (keyword_table std) (CHR ''s'' # takeWhile isident r)"
  by (cases "takeWhile isident r") (simp_all add: switch_simps ch_tail_match2)

lemmas switch_single = switch_c switch_d switch_i switch_r switch_s switch_u switch_v

lemma switch_other:
  assumes "c \<notin> {CHR ''_'', CHR ''a'', CHR ''b'', CHR ''c'', CHR ''d'', CHR ''e'', CHR ''f'', CHR ''g'',
      CHR ''i'', CHR ''l'', CHR ''r'', CHR ''s'', CHR ''t'', CHR ''u'', CHR ''v'', CHR ''w''}"
  shows "fst (ident_switch std c r) = map_of (keyword_table std) (c # takeWhile isident r)"
  using assms by (simp add: ident_switch_def keyword_table_def)

lemma ident_switch_keyword:
  "fst (ident_switch std c r) = map_of (keyword_table std) (c # takeWhile isident r)"
proof (cases "c \<in> {CHR ''_'', CHR ''a'', CHR ''b'', CHR ''c'', CHR ''d'', CHR ''e'', CHR ''f'', CHR ''g'',
      CHR ''i'', CHR ''l'', CHR ''r'', CHR ''s'', CHR ''t'', CHR ''u'', CHR ''v'', CHR ''w''}")
  case True
  then show ?thesis
    by (elim insertE emptyE) (simp_all only: switch_plain switch_single insert_iff simp_thms)
next
  case False
  then show ?thesis by (rule switch_other)
qed

text \<open>Where the switch falls through, \<open>in\<close> has not passed the end of the identifier.\<close>

lemma ident_switch_offset:
  assumes "isident c"
  shows "dropWhile isident (drop (snd (ident_switch std c r) - 1) (c # r)) = dropWhile isident (c # r)"
proof -
  show ?thesis
  proof (cases "c = CHR ''c''")
    case False
    then have "snd (ident_switch std c r) = 1 \<or> snd (ident_switch std c r) = 2"
      by (simp add: ident_switch_def split: option.split)
    then show ?thesis using assms by auto
  next
    case True
    then consider "snd (ident_switch std c r) = 1"
      | "snd (ident_switch std c r) = 3" "M_match ''on'' r"
      by (cases "first_match [(''ase'', TK_CASE), (''har'', TK_CHAR)] r"; cases "M_match ''on'' r")
        (simp_all add: ident_switch_def)
    then show ?thesis
    proof cases
      case 1
      then show ?thesis using assms by auto
    next
      case 2
    then obtain w where "r = CHR ''o'' # CHR ''n'' # w"
      by (cases r; cases "tl r") (auto simp: M_match_def)
    then show ?thesis using 2 True by (simp add: numeral_eq_Suc)
    qed
  qed
qed

section \<open>Spellings of the table\<close>

lemma token_text_TOK [simp]: "length s < 65536 \<Longrightarrow> token_text (TOK t s) = s"
  by (simp add: token_text_def TOK_def)

lemma token_text_IDN [simp]: "length s < 65536 \<Longrightarrow> token_text (IDN t s) = s"
  by (simp add: token_text_def IDN_def)

lemma ttype_TOK_IDN [simp]: "ttype (TOK t s) = t" "ttype (IDN t s) = t"
  by (simp_all add: TOK_def IDN_def)

definition spelled :: "token_type \<Rightarrow> string \<Rightarrow> bool" where
  "spelled tk w \<longleftrightarrow> ttype (basic_token tk) = tk \<and> token_text (basic_token tk) = w"

lemma keyword_spelled:
  assumes "(w, tk) \<in> set (keyword_table std)"
  shows "spelled tk w"
proof -
  have "list_all (\<lambda>(w, tk). spelled tk w) (keyword_table std)"
    by (simp add: keyword_table_def spelled_def basic_token_def basic_token_table_def)
  then show ?thesis using assms by (auto simp: list_all_iff)
qed

lemma keyword_spelled_map: "map_of (keyword_table std) w = Some tk \<Longrightarrow> spelled tk w"
  by (rule keyword_spelled [OF map_of_SomeD])

lemma keyword_not_end:
  assumes "map_of (keyword_table std) w = Some tk"
  shows "tk \<noteq> TK_END"
proof -
  have "list_all (\<lambda>(w, tk). tk \<noteq> TK_END) (keyword_table std)" by (simp add: keyword_table_def)
  then show ?thesis using map_of_SomeD [OF assms] by (auto simp: list_all_iff)
qed

section \<open>Identifiers and keywords\<close>

definition static_assert_prefix :: "string \<Rightarrow> bool" where
  "static_assert_prefix s \<longleftrightarrow> ch s = CHR ''_'' \<and> take 13 (tl s) = ''Static_assert''"

lemma drop_takeWhile: "drop (length (takeWhile P xs)) xs = dropWhile P xs"
  by (metis append_eq_conv_conj takeWhile_dropWhile_id)

lemma strtoident_keyword:
  assumes "s = c # r" "isident c" "map_of (keyword_table std) (takeWhile isident s) = Some tk"
  shows "strtoident st std s = Inr (st, basic_token tk, dropWhile isident s)"
proof -
  have "fst (ident_switch std c r) = Some tk"
    using assms by (simp add: ident_switch_keyword)
  then obtain off where m: "ident_switch std (ch s) (tl s) = (Some tk, off)"
    using assms(1) by (cases "ident_switch std c r") auto
  have "token_text (basic_token tk) = takeWhile isident s"
    using keyword_spelled_map [OF assms(3)] by (simp add: spelled_def)
  then have "match_token st s tk = Inr (st, basic_token tk, dropWhile isident s)"
    by (simp add: match_token_def drop_takeWhile)
  then show ?thesis by (simp add: strtoident_def m)
qed

lemma strtoident_identifier:
  assumes "s = c # r" "isident c" "map_of (keyword_table std) (takeWhile isident s) = None"
    and "\<not> static_assert_prefix s" "strtab_inv st" "length (takeWhile isident s) < 65536"
  shows "\<exists>st' str. strtoident st std s = Inr (st', zero_token\<lparr>ttype := TK_IDENTIFIER, is_expandable := True,
       tdata := TStr str\<rparr>, dropWhile isident s) \<and> strtab_inv st' \<and> str_chars str = takeWhile isident s"
proof -
  obtain off where sw: "ident_switch std c r = (None, off)"
    using assms(1-3) ident_switch_keyword [of std c r] by (cases "ident_switch std c r") auto
  then have sw': "ident_switch std (ch s) (tl s) = (None, off)" using assms(1) by simp
  have e: "dropWhile isident (drop (off - 1) s) = dropWhile isident s"
    using ident_switch_offset [OF assms(2), of std r] sw assms(1) by simp
  have n: "length s - length (dropWhile isident s) = length (takeWhile isident s)"
    by (metis add_diff_cancel_right' length_append takeWhile_dropWhile_id)
  obtain st' str where r: "str_register st s (length (takeWhile isident s)) = Inr (st', str)"
      "strtab_inv st'" "str_chars str = take (length (takeWhile isident s)) s"
    using str_register_ok [OF assms(5,6), of s] length_takeWhile_le [of isident s] by auto
  have "\<not> (ch s = CHR ''_'' \<and> take 13 (tl s) = ''Static_assert'')"
    using assms(4) by (simp only: static_assert_prefix_def not_False_eq_True)
  then have "strtoident st std s = Inr (st', zero_token\<lparr>ttype := TK_IDENTIFIER, is_expandable := True,
       tdata := TStr str\<rparr>, dropWhile isident s)"
    by (simp only: strtoident_def sw' Let_def e n r(1) prod.case option.case if_False outcome_simps, simp)
  then show ?thesis using r(2,3) takeWhile_eq_take [of isident s] by metis
qed

lemma static_assert_prefix_iff: "static_assert_prefix s \<longleftrightarrow> prefix ''_Static_assert'' s"
proof
  assume sp: "static_assert_prefix s"
  then obtain r where s: "s = CHR ''_'' # r" by (cases s) (auto simp: static_assert_prefix_def ch_def)
  with sp have "take 13 r = ''Static_assert''" by (simp add: static_assert_prefix_def)
  then show "prefix ''_Static_assert'' s" using s by (metis Cons_prefix_Cons take_is_prefix)
qed (auto simp: static_assert_prefix_def ch_def prefix_def)

lemma strtoident_static_assert:
  "\<exists>t. strtoident st std (''_Static_assert'' @ r) = Inr (st, t, r) \<and> token_text t = ''_Static_assert'' \<and>
     ttype t = TK_STATIC_ASSERT"
proof -
  have "ident_switch std (CHR ''_'') (''Static_assert'' @ r) = (None, 1)"
    by (simp add: ident_switch_def first_match.simps S_match_def M_match_def)
  then show ?thesis
    by (simp add: strtoident_def ch_def token_text_def basic_token_def basic_token_table_def TOK_def)
qed

lemma keyword_not_identifier:
  assumes "map_of (keyword_table std) w = Some tk"
  shows "tk \<noteq> TK_IDENTIFIER"
proof -
  have "list_all (\<lambda>(w, tk). tk \<noteq> TK_IDENTIFIER) (keyword_table std)" by (simp add: keyword_table_def)
  then show ?thesis using map_of_SomeD [OF assms] by (auto simp: list_all_iff)
qed

section \<open>Progress\<close>

lemma suffix_tl [simp]: "suffix (tl s) s"
  by (cases s) (auto simp: suffix_def)

lemma num_rest_suffix: "suffix (num_rest p s) s"
proof (induction p s rule: num_rest.induct)
  case (2 p c cs)
  have "suffix (tl cs) (c # cs)" by (cases cs) (auto simp: suffix_def)
  then show ?case
    using 2 by (auto intro: suffix_ConsI suffix_order.trans)
qed simp

lemma num_rest_shorter: "isdigit (ch s) \<Longrightarrow> length (num_rest p s) < length s"
  by (cases s) (auto simp: ch_def isdigit_def intro: le_imp_less_Suc suffix_length_le [OF num_rest_suffix])

lemma parse_escape_suffix: "parse_escape_sequence s = Inr r \<Longrightarrow> suffix r s"
  by (cases s; cases "tl s"; cases "tl (tl s)")
    (auto simp: parse_escape_sequence_def ch_def suffix_def isoctal_def split: if_splits
      intro: suffix_ConsI [unfolded suffix_def] suffix_dropWhile [unfolded suffix_def])

lemma str_end_suffix: "str_end s = Inr r \<Longrightarrow> suffix r s"
proof (induction s rule: str_end.induct)
  case (2 c cs)
  then show ?case
    by (auto split: if_splits sum.splits intro: suffix_ConsI suffix_order.trans dest: parse_escape_suffix)
qed simp

lemma strtoop_match_spelled:
  assumes "strtoop_match c r = Some tk"
  shows "0 < length (token_text (basic_token tk))"
proof -
  have "tk \<in> {TK_MUL_ASSIGN, TK_DIV_ASSIGN, TK_MOD_ASSIGN, TK_INCREMENT, TK_PLUS_ASSIGN, TK_ARROW, TK_DECREMENT,
      TK_MINUS_ASSIGN, TK_LEQ, TK_LSHIFT_ASSIGN, TK_LSHIFT, TK_GEQ, TK_RSHIFT_ASSIGN, TK_RSHIFT, TK_AND_ASSIGN,
      TK_LOGICAL_AND, TK_XOR_ASSIGN, TK_OR_ASSIGN, TK_LOGICAL_OR, TK_DOTS, TK_EQ, TK_NEQ, TK_TOKEN_PASTE}"
    using assms by (simp add: strtoop_match_def Let_def split: if_splits)
  then show ?thesis
    by (elim insertE emptyE) (simp_all add: basic_token_def basic_token_table_def)
qed

lemma scan_shorter: "suffix r s \<Longrightarrow> r \<noteq> s \<Longrightarrow> length r < length s"
  by (metis suffix_order.less_le suffix_length_less strict_suffix_def)

lemma strtoident_progress:
  assumes "s = c # r" "isident c" "strtoident st std s = Inr (st', t, rest)"
  shows "suffix rest s \<and> length rest < length s"
proof (cases "map_of (keyword_table std) (takeWhile isident s)")
  case (Some tk)
  then have "rest = dropWhile isident s" using strtoident_keyword [OF assms(1,2)] assms(3) by simp
  then show ?thesis using assms(1,2) by (simp add: suffix_dropWhile le_imp_less_Suc suffix_ConsI)
next
  case None
  obtain off where sw: "ident_switch std c r = (None, off)"
    using None assms(1,2) ident_switch_keyword [of std c r] by (cases "ident_switch std c r") auto
  have e: "dropWhile isident (drop (off - 1) s) = dropWhile isident s"
    using ident_switch_offset [OF assms(2), of std r] sw assms(1) by simp
  have "rest = drop 14 s \<or> rest = dropWhile isident s"
    using assms(1,3) sw e by (auto simp: strtoident_def Let_def outcome_simps split: if_splits)
  then show ?thesis using assms(1,2) by (auto simp: suffix_drop suffix_dropWhile le_imp_less_Suc suffix_ConsI)
qed

lemma stringtonum_progress:
  assumes "stringtonum st std s = Inr (st', t, rest)"
  shows "suffix rest s \<and> length rest < length s"
proof -
  let ?i = "if ch s = CHR ''.'' then tl s else s"
  have "isdigit (ch ?i)" "rest = num_rest (c99 std) ?i"
    using assms by (auto simp: stringtonum_def Let_def outcome_simps)
  moreover have "suffix ?i s" by simp
  ultimately show ?thesis
    using num_rest_suffix [of "c99 std" ?i] num_rest_shorter [of ?i "c99 std"] suffix_length_le [of ?i s]
    by (metis order_less_le_trans suffix_order.trans)
qed

lemma strtostr_progress:
  assumes "strtostr st s = Inr (st', t, rest)"
  shows "suffix rest s \<and> length rest < length s"
proof -
  obtain e where e: "ch s = CHR 0x22" "str_end (tl s) = Inr e" "rest = tl e"
    using assms by (auto simp: strtostr_def Let_def outcome_simps)
  have "s \<noteq> []" using e(1) by (auto simp: ch_def)
  then have "length (tl s) < length s" by simp
  moreover have "suffix (tl e) (tl s)" using str_end_suffix [OF e(2)] suffix_tl suffix_order.trans by blast
  ultimately show ?thesis
    using e(3) suffix_length_le [of "tl e" "tl s"] suffix_tl suffix_order.trans by fastforce
qed

lemma strtochar_progress:
  assumes "strtochar st s = Inr (st', t, rest)"
  shows "suffix rest s \<and> length rest < length s"
proof -
  obtain e where e: "ch s = CHR 0x27" "suffix e (tl s)" "rest = tl e"
  proof -
    obtain e where a: "ch s = CHR 0x27" "rest = tl e"
        "(if ch (tl s) = CHR 0x5C then parse_escape_sequence (tl (tl s))
                  else if ch (tl s) \<noteq> CHR 0x27 then
                    (if tl s = [] then Inl Undefined_Behaviour else Inr (tl (tl s)))
                  else Inl (Exit_Error ''Empty character constant.'')) = Inr e"
      using assms by (auto simp: strtochar_def Let_def outcome_simps split: if_splits)
    then have "suffix e (tl s)"
      by (auto split: if_splits dest: parse_escape_suffix intro: suffix_order.trans [OF _ suffix_tl])
    with a that show ?thesis by blast
  qed
  have "s \<noteq> []" using e(1) by (auto simp: ch_def)
  then have "length (tl s) < length s" by simp
  moreover have "suffix (tl e) (tl s)" using e(2) suffix_tl suffix_order.trans by blast
  ultimately show ?thesis
    using e(3) suffix_length_le [of "tl e" "tl s"] suffix_tl suffix_order.trans by fastforce
qed

lemma strtoop_progress:
  assumes "s \<noteq> []" "strtoop st s = Inr (st', t, rest)"
  shows "suffix rest s \<and> length rest < length s"
proof (cases "strtoop_match (ch s) (tl s)")
  case None
  then have "rest = tl s" using assms(2) by (auto simp: strtoop_def Let_def split: if_splits)
  then show ?thesis using assms(1) by simp
next
  case (Some tk)
  then show ?thesis
    using assms strtoop_match_spelled [OF Some] by (auto simp: strtoop_def match_token_def Let_def suffix_drop)
qed

lemma scan_token_progress:
  assumes "scan_token st std s = Inr (st', t, rest)"
  shows "suffix rest s \<and> (if s = [] then t = basic_token TK_END \<and> rest = [] else length rest < length s)"
proof (cases "s = []")
  case True
  then show ?thesis using assms by (simp add: scan_token_def ch_def isalpha_def isupper_def islower_def)
next
  case False
  then obtain c r where s: "s = c # r" by (cases s) auto
  show ?thesis
  proof (cases "isalpha c \<or> c = CHR ''_''")
    case True
    then have "isident c" by (auto simp: isident_def isalnum_def)
    then show ?thesis
      using strtoident_progress [OF s] assms s True by (simp add: scan_token_def ch_def)
  next
    case no: False
    then show ?thesis
      using assms s stringtonum_progress [of st std s st' t rest] strtostr_progress [of st s st' t rest]
        strtochar_progress [of st s st' t rest] strtoop_progress [of s st st' t rest]
      by (simp add: scan_token_def ch_def split: if_splits)
  qed
qed

section \<open>Literals read back\<close>

lemma code_of_char_of_octal [simp]: "code_of (octal_digit d) = 48 + d mod 8"
  by (simp add: octal_digit_def)

lemma isoctal_octal_digit [simp]: "isoctal (octal_digit d)"
  by (simp add: isoctal_def)

lemma char_neqI: "code_of c \<noteq> code_of d \<Longrightarrow> c \<noteq> d"
  by auto

lemma octal_digit_neq:
  assumes "code_of c < 48 \<or> 56 \<le> code_of c"
  shows "octal_digit d \<noteq> c"
proof (rule char_neqI)
  have "d mod 8 < 8" by simp
  then show "code_of (octal_digit d) \<noteq> code_of c" using assms unfolding code_of_char_of_octal by linarith
qed

lemma digit_val_octal [simp]: "digit_val (octal_digit d) = d mod 8"
proof -
  have "d mod 8 < 8" by simp
  then have "48 + d mod 8 \<le> 57" by linarith
  then have "isdigit (octal_digit d)" unfolding isdigit_def code_of_char_of_octal by simp
  then show ?thesis by (simp add: digit_val_def)
qed

lemma octal_value:
  assumes "n < 256"
  shows "(n div 64 mod 8 * 8 + n div 8 mod 8) * 8 + n mod 8 = (n::nat)"
proof -
  have "n div 64 < 8" using assms by simp
  then have "n div 64 mod 8 = n div 8 div 8" by (simp add: div_mult2_eq [symmetric])
  then have "n div 64 mod 8 * 8 + n div 8 mod 8 = n div 8" by simp
  then show ?thesis by (simp only: div_mult_mod_eq)
qed

lemma octal3_value: "digits_value 8 0 (octal3 (code_of c)) = code_of c"
  by (simp only: octal3_def digits_value.simps digit_val_octal mult_0 add_0 octal_value [OF code_of_less_256])

text \<open>What \<open>printchar\<close> writes: itself, a two-character escape, or a backslash and three octal digits.\<close>

lemma printchar_cases:
  obtains (plain) "printchar c = [c]" "c \<noteq> CHR 0x22" "c \<noteq> CHR 0x5C"
  | (escape) e where "printchar c = [CHR 0x5C, e]"
      "(e, c) \<in> {(CHR ''b'', CHR 0x08), (CHR ''t'', CHR 0x09), (CHR ''n'', CHR 0x0A), (CHR ''f'', CHR 0x0C),
         (CHR ''r'', CHR 0x0D), (CHR 0x5C, CHR 0x5C), (CHR 0x22, CHR 0x22)}"
  | (octal) "printchar c = CHR 0x5C # octal3 (code_of c)"
proof (cases "isprint c \<and> c \<noteq> CHR 0x22 \<and> c \<noteq> CHR 0x5C")
  case True
  then show ?thesis using plain by (simp add: printchar_def)
next
  case False
  then have eq: "printchar c =
     (if c = CHR 0x08 then [CHR 0x5C, CHR ''b'']
      else if c = CHR 0x09 then [CHR 0x5C, CHR ''t'']
      else if c = CHR 0x0A then [CHR 0x5C, CHR ''n'']
      else if c = CHR 0x0C then [CHR 0x5C, CHR ''f'']
      else if c = CHR 0x0D then [CHR 0x5C, CHR ''r'']
      else if c = CHR 0x5C then [CHR 0x5C, CHR 0x5C]
      else if c = CHR 0x22 then [CHR 0x5C, CHR 0x22]
      else CHR 0x5C # octal3 (code_of c))"
    by (simp only: printchar_def if_False)
  show ?thesis
    using eq escape octal by (simp split: if_splits)
qed

lemma str_end_printchar: "str_end (printchar c @ rest) = str_end rest"
proof (cases c rule: printchar_cases)
  case plain
  then show ?thesis by simp
next
  case (escape e)
  then have "e \<noteq> CHR ''x'' \<and> \<not> isoctal e" by (auto simp: isoctal_def)
  then show ?thesis using escape(1) by (simp add: parse_escape_sequence_def)
next
  case octal
  then show ?thesis
    by (simp add: octal3_def parse_escape_sequence_def ch_def octal_digit_neq)
qed

lemma convert_char_printchar: "convert_char (printchar c @ rest) = Inr (c, rest)"
proof (cases c rule: printchar_cases)
  case plain
  then show ?thesis by (simp add: convert_char_def ch_def)
next
  case (escape e)
  from escape(2) show ?thesis
    unfolding escape(1) by (elim insertE emptyE) (simp_all add: convert_char_def convert_escape_sequence_def ch_def)
next
  case octal
  let ?d = "octal_digit (code_of c div 64)"
  have ds: "takeWhile isoctal (take 3 (octal3 (code_of c) @ rest)) = octal3 (code_of c)"
    by (simp add: octal3_def)
  have "convert_escape_sequence (octal3 (code_of c) @ rest) =
      Inr (char_of (digits_value 8 0 (octal3 (code_of c))), drop 3 (octal3 (code_of c) @ rest))"
    unfolding convert_escape_sequence_def ds Let_def
    by (simp add: octal3_def ch_def octal_digit_neq)
  then show ?thesis
    using octal by (simp add: convert_char_def ch_def octal3_value) (simp add: octal3_def)
qed

lemma str_end_print_body: "str_end (print_body cs @ CHR 0x22 # rest) = Inr (CHR 0x22 # rest)"
  by (induction cs) (simp_all add: str_end_printchar)

lemma length_printchar: "0 < length (printchar c)"
  by (cases c rule: printchar_cases) simp_all

lemma length_print_body: "length cs \<le> length (print_body cs)"
proof (induction cs)
  case (Cons c cs)
  then show ?case using length_printchar [of c] by (simp del: length_greater_0_conv)
qed simp

lemma convert_chars_Nil [simp]: "convert_chars [] = Inr []"
  by (subst convert_chars.simps) simp

lemma convert_chars_printchar:
  "convert_chars (printchar c @ rest) = obind (convert_chars rest) (\<lambda>cs. Inr (c # cs))"
  using length_printchar [of c] by (subst convert_chars.simps) (simp add: convert_char_printchar)

lemma convert_chars_print_body: "convert_chars (print_body cs) = Inr cs"
  by (induction cs) (simp_all add: convert_chars_printchar)

section \<open>Integer constants\<close>

text \<open>
  The candidate types of a constant in the order in which they are tried, by
  suffix and base, and the largest value of each.
\<close>

definition constant_candidates :: "nat \<Rightarrow> bool \<Rightarrow> ctype list" where
  "constant_candidates sfx is_decimal =
     (if sfx = 0 then
        (if is_decimal then [basic_type__int, basic_type__long, basic_type__unsigned_long]
         else [basic_type__int, basic_type__unsigned_int, basic_type__long, basic_type__unsigned_long])
      else if sfx = 1 then [basic_type__unsigned_int, basic_type__unsigned_long]
      else if sfx = 2 \<or> sfx = 6 then [basic_type__long, basic_type__unsigned_long]
      else [basic_type__unsigned_long])"

definition integer_max :: "ctype \<Rightarrow> nat" where
  "integer_max t = 2 ^ (8 * (if type_of t = T_INT then 4 else 8) - (if is_unsigned t then 0 else 1)) - 1"

lemma read_integer_suffix_nondigit: "s \<noteq> [] \<Longrightarrow> isdigit (hd s) \<Longrightarrow> snd (read_integer_suffix s) = s"
proof (cases s)
  case (Cons c r)
  moreover assume "isdigit (hd s)"
  ultimately have "isdigit c" by simp
  then have "\<not> isupper c" "48 \<le> code_of c" "code_of c \<le> 57" by (auto simp: isdigit_def isupper_def)
  then have "tolower c \<noteq> CHR ''u''" "tolower c \<noteq> CHR ''l''" by (auto simp: tolower_def)
  then show ?thesis using Cons by (simp add: read_integer_suffix_def ch_def)
qed simp

lemma strtoul_decimal:
  assumes "ds \<noteq> []" "\<forall>c \<in> set ds. isdigit c" "hd ds \<noteq> CHR ''0''" "digits_value 10 0 ds < 2 ^ 64"
    and "\<not> isdigit (ch sfx)"
  shows "strtoul (ds @ sfx) = (word_of_nat (digits_value 10 0 ds), length ds, False)"
proof -
  have "takeWhile isdigit (ds @ sfx) = ds"
    using assms(2,5) by (cases sfx) (simp_all add: takeWhile_all_eq ch_def)
  moreover have "ch (ds @ sfx) \<noteq> CHR ''0''" using assms(1,3) by (cases ds) (simp_all add: ch_def)
  ultimately show ?thesis using assms(4) by (simp add: strtoul_def strtoul_result_def Let_def)
qed

section \<open>Operators\<close>

definition punctuators :: "string list" where
  "punctuators =
     [''['', '']'', ''('', '')'', ''{'', ''}'', ''.'', ''->'', ''++'', ''--'', ''&'', ''*'', ''+'', ''-'', ''~'', ''!'',
      ''/'', ''%'', ''<<'', ''>>'', ''<'', ''>'', ''<='', ''>='', ''=='', ''!='', ''^'', ''|'', ''&&'', ''||'',
      ''?'', '':'', '';'', ''...'', ''='', ''*='', ''/='', ''%='', ''+='', ''-='', ''<<='', ''>>='', ''&='',
      ''^='', ''|='', '','', ''#'', ''##'']"

definition longest_punctuator :: "string \<Rightarrow> string \<Rightarrow> bool" where
  "longest_punctuator p s \<longleftrightarrow> p \<in> set punctuators \<and> M_match p s \<and>
     list_all (\<lambda>q. M_match q s \<longrightarrow> length q \<le> length p) punctuators"

lemma M_match_Nil [simp]: "M_match [] s"
  by (simp add: M_match_def)

lemma M_match_Cons [simp]: "M_match (a # p) s \<longleftrightarrow> s \<noteq> [] \<and> ch s = a \<and> M_match p (tl s)"
  by (cases s) (auto simp: M_match_def ch_def)

lemma operator_text:
  "token_text (basic_token TK_MUL_ASSIGN) = ''*=''" "token_text (basic_token TK_DIV_ASSIGN) = ''/=''"
  "token_text (basic_token TK_MOD_ASSIGN) = ''%=''" "token_text (basic_token TK_INCREMENT) = ''++''"
  "token_text (basic_token TK_PLUS_ASSIGN) = ''+=''" "token_text (basic_token TK_ARROW) = ''->''"
  "token_text (basic_token TK_DECREMENT) = ''--''" "token_text (basic_token TK_MINUS_ASSIGN) = ''-=''"
  "token_text (basic_token TK_LEQ) = ''<=''" "token_text (basic_token TK_LSHIFT_ASSIGN) = ''<<=''"
  "token_text (basic_token TK_LSHIFT) = ''<<''" "token_text (basic_token TK_GEQ) = ''>=''"
  "token_text (basic_token TK_RSHIFT_ASSIGN) = ''>>=''" "token_text (basic_token TK_RSHIFT) = ''>>''"
  "token_text (basic_token TK_AND_ASSIGN) = ''&=''" "token_text (basic_token TK_LOGICAL_AND) = ''&&''"
  "token_text (basic_token TK_XOR_ASSIGN) = ''^=''" "token_text (basic_token TK_OR_ASSIGN) = ''|=''"
  "token_text (basic_token TK_LOGICAL_OR) = ''||''" "token_text (basic_token TK_DOTS) = ''...''"
  "token_text (basic_token TK_EQ) = ''==''" "token_text (basic_token TK_NEQ) = ''!=''"
  "token_text (basic_token TK_TOKEN_PASTE) = ''##''"
  by (simp_all add: basic_token_def basic_token_table_def)

definition operator_spelling :: "char \<Rightarrow> string \<Rightarrow> string" where
  "operator_spelling c r =
     (case strtoop_match c r of Some tk \<Rightarrow> token_text (basic_token tk) | None \<Rightarrow> [c])"

definition punctuator_chars :: string where
  "punctuator_chars = ''[](){}.-+&*~!/%<>=^|?:;,#''"

lemma ch_nonempty: "ch r \<noteq> CHR 0x00 \<Longrightarrow> r \<noteq> []"
  by (auto simp: ch_def)

lemma operator_spelling_longest:
  assumes "c \<in> set punctuator_chars"
  shows "longest_punctuator (operator_spelling c r) (c # r)"
proof -
  have ch: "ch (c # r) = c" by (simp add: ch_def)
  have ne: "\<And>d. ch r = d \<Longrightarrow> d \<noteq> CHR 0x00 \<Longrightarrow> r \<noteq> []" "\<And>d. ch (tl r) = d \<Longrightarrow> d \<noteq> CHR 0x00 \<Longrightarrow> tl r \<noteq> []"
    by (auto simp: ch_def)
  show ?thesis
    using assms ch ne unfolding punctuator_chars_def
    by (simp only: list.set; elim insertE emptyE;
        simp add: longest_punctuator_def operator_spelling_def strtoop_match_def punctuators_def operator_text Let_def)
qed

lemma single_char_token:
  assumes "c \<in> set punctuator_chars"
  shows "ttype (basic_token (code_of c)) \<noteq> TK_END \<and> token_text (basic_token (code_of c)) = [c] \<and> 0 \<le> schar c"
proof -
  have "list_all (\<lambda>c. ttype (basic_token (code_of c)) \<noteq> TK_END \<and> token_text (basic_token (code_of c)) = [c] \<and> 0 \<le> schar c)
      punctuator_chars"
    by (simp add: punctuator_chars_def basic_token_def basic_token_table_def schar_def)
  then show ?thesis using assms by (simp add: list_all_iff)
qed

section \<open>Properties of the tokenizer\<close>

text \<open>
  Property C3. Every successful call of \<open>tokenize\<close> leaves a suffix of the line
  and consumes at least one character behind the white space; only at the end of
  the line it returns the end token, with nothing left. So a loop that calls
  \<open>tokenize\<close> until the end token ends on every line.
\<close>

theorem tokenize_progress:
  assumes "tokenize st std s = Inr (st', t, rest)"
  shows "suffix rest s \<and>
    (if dropWhile isspace s = [] then ttype t = TK_END \<and> rest = []
     else length rest < length (dropWhile isspace s))"
proof -
  let ?i = "dropWhile isspace s"
  obtain t' where t': "scan_token st std ?i = Inr (st', t', rest)" "ttype t = ttype t'"
    using assms by (auto simp: tokenize_def skip_spaces_def outcome_simps)
  note sc = scan_token_progress [OF t'(1)]
  have "ttype (basic_token TK_END) = TK_END" by (simp add: basic_token_def basic_token_table_def)
  then show ?thesis
    using sc t'(2) suffix_dropWhile [of isspace s] suffix_order.trans by auto
qed

theorem tokenize_progress_witness:
  "tokenize strtab_empty STD_C89 '' +1'' =
     Inr (strtab_empty, (basic_token TK_PLUS)\<lparr>leading_whitespace := 1\<rparr>, ''1'') \<and>
   suffix ''1'' '' +1'' \<and> length ''1'' < length (dropWhile isspace '' +1'')"
proof -
  have "tokenize strtab_empty STD_C89 '' +1'' =
     Inr (strtab_empty, (basic_token TK_PLUS)\<lparr>leading_whitespace := 1\<rparr>, ''1'')"
    by (simp add: tokenize_def skip_spaces_def scan_token_def ch_def strtoop_def strtoop_match_def schar_def
        ctype_simps basic_token_def basic_token_table_def TOK_def zero_token_def)
  from tokenize_progress [OF this] this show ?thesis by (simp add: isspace_def split: if_splits)
qed

text \<open>
  Property C4. On every line that starts like an identifier, \<open>strtoident\<close> decides
  as follows. When the line begins with the characters \<open>_Static_assert\<close>, the
  result is that keyword and the rest of the line after these fourteen
  characters, also when more identifier characters follow (\<open>_Static_assert_x\<close>
  is split in two tokens). On every other line it takes the longest run of
  identifier characters: when the run is a keyword of the selected standard it
  returns that keyword's token, otherwise an expandable identifier with the run
  as its text, and in both cases what follows the run is left.
\<close>

theorem strtoident_classifies:
  assumes "s \<noteq> []" "isident (hd s)" "strtab_inv st" "length (takeWhile isident s) < 65536"
  shows "\<exists>st' t rest. strtoident st std s = Inr (st', t, rest) \<and> strtab_inv st' \<and> s = token_text t @ rest \<and>
    (if prefix ''_Static_assert'' s then token_text t = ''_Static_assert'' \<and> ttype t = TK_STATIC_ASSERT
     else token_text t = takeWhile isident s \<and>
       ttype t = (case map_of (keyword_table std) (takeWhile isident s) of Some tk \<Rightarrow> tk | None \<Rightarrow> TK_IDENTIFIER) \<and>
       (ttype t = TK_IDENTIFIER \<longrightarrow> is_expandable t))"
proof -
  obtain c r where s: "s = c # r" "isident c" using assms(1,2) by (cases s) auto
  show ?thesis
  proof (cases "prefix ''_Static_assert'' s")
    case True
    then obtain r where "s = ''_Static_assert'' @ r" by (auto simp: prefix_def)
    then show ?thesis using strtoident_static_assert assms(3) by fastforce
  next
    case False
    note nsa = False [folded static_assert_prefix_iff]
    show ?thesis
    proof (cases "map_of (keyword_table std) (takeWhile isident s)")
      case None
      from strtoident_identifier [OF s None nsa assms(3,4)] show ?thesis using None False by (auto simp: token_text_def)
    next
      case (Some tk)
      then show ?thesis
        using strtoident_keyword [OF s Some] keyword_spelled_map [OF Some] keyword_not_identifier [OF Some] False assms(3)
        by (simp add: spelled_def)
    qed
  qed
qed

theorem strtoident_classifies_witness:
  "(\<exists>st' t rest. strtoident strtab_empty STD_C99 ''while(x)'' = Inr (st', t, rest) \<and> ''while(x)'' = token_text t @ rest \<and>
    token_text t = ''while'' \<and> ttype t = TK_WHILE) \<and>
   (\<exists>st' t rest. strtoident strtab_empty STD_C99 ''_Static_assert_x'' = Inr (st', t, rest) \<and>
    ''_Static_assert_x'' = token_text t @ rest \<and> token_text t = ''_Static_assert'')"
  using strtoident_classifies [of "''while(x)''" strtab_empty STD_C99]
    strtoident_classifies [of "''_Static_assert_x''" strtab_empty STD_C99]
  by (simp add: isident_def isalnum_def isalpha_def isupper_def islower_def isdigit_def keyword_table_def c99_def) blast

text \<open>
  Property C2. A string printed with \<open>fprintstr\<close> is read back: the tokenizer
  finds the closing quote that was printed, and converting the literal gives the
  original characters, whatever bytes they are.
\<close>

theorem string_literal_roundtrip:
  assumes "strtab_inv st" "length (print_body cs) < 65536"
  shows "\<exists>st' lit st'' t. strtostr st (fst (fprintstr [] (str_init cs)) @ rest) = Inr (st', lit, rest) \<and>
    convert_preprocessing_string st' lit = Inr (st'', t) \<and> ttype t = TK_STRING \<and> token_text t = cs \<and> strtab_inv st''"
proof -
  have "length cs \<le> length (print_body cs)"
    by (rule length_print_body)
  then have len: "length cs < 65536" using assms(2) by simp
  let ?b = "print_body cs @ CHR 0x22 # rest"
  have line: "fst (fprintstr [] (str_init cs)) @ rest = CHR 0x22 # ?b"
    using len by (simp add: fprintstr_eq)
  obtain st' s where s: "str_register st ?b (length (print_body cs)) = Inr (st', s)" "strtab_inv st'"
      "str_chars s = print_body cs"
    using str_register_ok [OF assms, of ?b] by auto
  let ?lit = "zero_token\<lparr>ttype := TK_PREP_STRING, tdata := TStr s\<rparr>"
  have "strtostr st (CHR 0x22 # ?b) = Inr (st', ?lit, rest)"
    using s(1) by (simp add: strtostr_def ch_def str_end_print_body)
  moreover obtain st'' s' where "str_register st' cs (length cs) = Inr (st'', s')" "strtab_inv st''" "str_chars s' = cs"
    using str_register_ok [OF s(2) len, of cs] by auto
  then have "convert_preprocessing_string st' ?lit = Inr (st'', zero_token\<lparr>ttype := TK_STRING, tdata := TStr s'\<rparr>)"
      "strtab_inv st''" "str_chars s' = cs"
    using s(3) by (simp_all add: convert_preprocessing_string_def token_text_def convert_chars_print_body)
  ultimately show ?thesis unfolding line by (auto simp: token_text_def)
qed

theorem string_literal_roundtrip_witness:
  "\<exists>st' lit st'' t. strtostr strtab_empty (fst (fprintstr [] (str_init [CHR ''a'', CHR 0x22, CHR 0xFF, CHR 0x00])) @ '');'')
      = Inr (st', lit, '');'') \<and>
    convert_preprocessing_string st' lit = Inr (st'', t) \<and> ttype t = TK_STRING \<and>
    token_text t = [CHR ''a'', CHR 0x22, CHR 0xFF, CHR 0x00] \<and> strtab_inv st''"
proof -
  have "length (print_body [CHR ''a'', CHR 0x22, CHR 0xFF, CHR 0x00]) < 65536"
    by (simp add: printchar_def isprint_def octal3_def)
  from string_literal_roundtrip [OF strtab_inv_empty this, of "'');''"] show ?thesis .
qed

text \<open>
  The type of an integer constant is the first in the list of
  candidates of its suffix and base that can represent the value.
\<close>

lemma constant_integer_type_first:
  "find (\<lambda>t. unat v \<le> integer_max t) (constant_candidates sfx is_decimal) =
     Some (constant_integer_type v sfx is_decimal)"
proof -
  have "unat v < 2 ^ 64" using unsigned_less [of v] by simp
  then have "unat v \<le> 18446744073709551615" by simp
  then show ?thesis
    by (simp add: constant_candidates_def constant_integer_type_def integer_max_def INT_MAX_def UINT_MAX_def
        LONGLONG_MAX_def tclass_simps)
qed

text \<open>
  A decimal constant in range, with any suffix that
  \<open>read_integer_suffix\<close> reads to its end, is converted to a number token whose
  value is the value of its digits and whose type is that of the value and suffix.
\<close>

lemma convert_decimal_constant:
  assumes "token_text t = ds @ sfx" "ttype t = TK_PREP_NUMBER"
    and "ds \<noteq> []" "\<forall>c \<in> set ds. isdigit c" "hd ds \<noteq> CHR ''0''" "digits_value 10 0 ds < 2 ^ 64"
    and "\<not> isdigit (ch sfx)" "read_integer_suffix sfx = (k, [])"
  shows "convert_preprocessing_number fl t =
    Inr (num_token t (constant_integer_type (word_of_nat (digits_value 10 0 ds)) k True)
           (word_of_nat (digits_value 10 0 ds)))"
proof -
  have c: "ch (ds @ sfx) = hd ds" "isdigit (hd ds)" using assms(3,4) by (cases ds; simp add: ch_def)+
  show ?thesis
    using assms(1,2,5,8) strtoul_decimal [OF assms(3-7)] c
    by (simp add: convert_preprocessing_number_def integer_reading_def)
qed

text \<open>
  Property C5. \<open>strtoop\<close> takes the longest punctuator that the line starts with,
  returns its token and leaves the rest of the line.
\<close>

theorem strtoop_longest_match:
  assumes "s \<noteq> []" "hd s \<in> set punctuator_chars"
  shows "\<exists>t. strtoop st s = Inr (st, t, drop (length (token_text t)) s) \<and> longest_punctuator (token_text t) s"
proof -
  obtain c r where s: "s = c # r" "c \<in> set punctuator_chars" using assms by (cases s) auto
  show ?thesis
    using operator_spelling_longest [OF s(2), of r] single_char_token [OF s(2)] s(1)
    by (cases "strtoop_match c r") (simp_all add: strtoop_def operator_spelling_def match_token_def Let_def ch_def)
qed

theorem strtoop_longest_match_witness:
  "\<exists>t. strtoop strtab_empty ''>>=1'' = Inr (strtab_empty, t, drop (length (token_text t)) ''>>=1'') \<and>
     longest_punctuator (token_text t) ''>>=1''"
  using strtoop_longest_match [of "''>>=1''" strtab_empty] by (simp add: punctuator_chars_def)

end
