(* ===== verification/Dyn_Array.thy ===== *)
theory Dyn_Array
  imports Prelude
begin

text \<open>
  The growable arrays and double-ended queues that every part of the compiler is
  built on: the macros of \<open>include/lacc/array.h\<close> and \<open>include/lacc/deque.h\<close>. A
  block of memory is a list of cells, a cell without a value is one that was
  never written; unsigned counts wrap at 32 bits, and an access outside the
  block is undefined behaviour. The interfaces \<open>seq_buffer\<close> and
  \<open>front_buffer\<close> say what clients rely on; the array and the deque are shown to
  provide them.
\<close>

section \<open>Arrays\<close>

record 'a dyn_array =
  capacity :: nat
  alen :: nat
  adata :: "'a option list"

definition ARRAY_CAPACITY_INITIAL :: nat where
  "ARRAY_CAPACITY_INITIAL = 16"

definition array_new :: "'a dyn_array" where
  "array_new = \<lparr>capacity = 0, alen = 0, adata = []\<rparr>"

text \<open>\<open>realloc\<close> keeps the cells that fit; the new ones are indeterminate.\<close>

definition realloc_cells :: "'a option list \<Rightarrow> nat \<Rightarrow> 'a option list" where
  "realloc_cells cells n = take n cells @ replicate (n - length cells) None"

text \<open>\<open>memset\<close> to zero of \<open>n\<close> cells from index \<open>i\<close>.\<close>

definition zero_cells :: "'a \<Rightarrow> 'a option list \<Rightarrow> nat \<Rightarrow> nat \<Rightarrow> 'a option list outcome" where
  "zero_cells z cells i n =
     (if i + n \<le> length cells
      then Inr (take i cells @ replicate n (Some z) @ drop (i + n) cells)
      else Inl Undefined_Behaviour)"

text \<open>\<open>memmove\<close> of \<open>n\<close> cells from \<open>src\<close> (at \<open>j\<close>) to \<open>dst\<close> (at \<open>i\<close>).\<close>

definition move_cells ::
  "'a option list \<Rightarrow> nat \<Rightarrow> 'a option list \<Rightarrow> nat \<Rightarrow> nat \<Rightarrow> 'a option list outcome" where
  "move_cells dst i src j n =
     (if i + n \<le> length dst \<and> j + n \<le> length src
      then Inr (take i dst @ take n (drop j src) @ drop (i + n) dst)
      else Inl Undefined_Behaviour)"

definition array_increase_cap :: "'a \<Rightarrow> 'a dyn_array \<Rightarrow> 'a dyn_array outcome" where
  "array_increase_cap z arr =
     (if alen arr = capacity arr then
        (if capacity arr = 0 then
           Inr (arr\<lparr>capacity := ARRAY_CAPACITY_INITIAL,
                    adata := replicate ARRAY_CAPACITY_INITIAL (Some z)\<rparr>)
         else
           (let cap = wrap32 (capacity arr * 2);
                cells = realloc_cells (adata arr) cap
            in obind (zero_cells z cells (alen arr) (sub32 cap (alen arr)))
                 (\<lambda>cells'. Inr (arr\<lparr>capacity := cap, adata := cells'\<rparr>))))
      else Inr arr)"

definition array_set :: "'a dyn_array \<Rightarrow> nat \<Rightarrow> 'a \<Rightarrow> 'a dyn_array outcome" where
  "array_set arr i x =
     (if i < length (adata arr) then Inr (arr\<lparr>adata := (adata arr)[i := Some x]\<rparr>)
      else Inl Undefined_Behaviour)"

definition array_get :: "'a dyn_array \<Rightarrow> nat \<Rightarrow> 'a outcome" where
  "array_get arr i =
     (if i < length (adata arr)
      then (case adata arr ! i of Some x \<Rightarrow> Inr x | None \<Rightarrow> Inl Undefined_Behaviour)
      else Inl Undefined_Behaviour)"

definition array_push_back :: "'a \<Rightarrow> 'a dyn_array \<Rightarrow> 'a \<Rightarrow> 'a dyn_array outcome" where
  "array_push_back z arr x =
     obind (array_increase_cap z arr)
       (\<lambda>arr'. obind (array_set arr' (alen arr') x)
         (\<lambda>arr''. Inr (arr''\<lparr>alen := wrap32 (alen arr'' + 1)\<rparr>)))"

definition array_concat :: "'a dyn_array \<Rightarrow> 'a dyn_array \<Rightarrow> 'a dyn_array outcome" where
  "array_concat a b =
     (let a' = (if capacity a < wrap32 (alen a + alen b) then
                  (let cap = wrap32 (alen a + alen b + ARRAY_CAPACITY_INITIAL)
                   in a\<lparr>capacity := cap, adata := realloc_cells (adata a) cap\<rparr>)
                else a)
      in obind (move_cells (adata a') (alen a') (adata b) 0 (alen b))
           (\<lambda>cells. Inr (a'\<lparr>adata := cells, alen := wrap32 (alen a' + alen b)\<rparr>)))"

definition array_pop_back :: "'a dyn_array \<Rightarrow> ('a dyn_array \<times> 'a) outcome" where
  "array_pop_back arr =
     (let n = sub32 (alen arr) 1
      in obind (array_get arr n) (\<lambda>x. Inr (arr\<lparr>alen := n\<rparr>, x)))"

definition array_erase :: "'a dyn_array \<Rightarrow> nat \<Rightarrow> 'a dyn_array outcome" where
  "array_erase arr i =
     obind (oassert (alen arr \<noteq> 0))
       (\<lambda>_. obind (move_cells (adata arr) i (adata arr) (i + 1) (sub32 (sub32 (alen arr) i) 1))
         (\<lambda>cells. Inr (arr\<lparr>adata := cells, alen := sub32 (alen arr) 1\<rparr>)))"

definition array_back :: "'a dyn_array \<Rightarrow> 'a outcome" where
  "array_back arr = array_get arr (sub32 (alen arr) 1)"

definition array_empty :: "'a dyn_array \<Rightarrow> 'a dyn_array" where
  "array_empty arr = arr\<lparr>alen := 0\<rparr>"

definition array_realloc :: "'a \<Rightarrow> 'a dyn_array \<Rightarrow> nat \<Rightarrow> 'a dyn_array outcome" where
  "array_realloc z arr len =
     (if len > capacity arr then
        obind (zero_cells z (realloc_cells (adata arr) len) (alen arr) (sub32 len (alen arr)))
          (\<lambda>cells. Inr (arr\<lparr>adata := cells, capacity := len\<rparr>))
      else Inr arr)"

definition array_zero :: "'a \<Rightarrow> 'a dyn_array \<Rightarrow> 'a dyn_array outcome" where
  "array_zero z arr =
     (if alen arr \<noteq> 0 then
        obind (zero_cells z (adata arr) 0 (alen arr)) (\<lambda>cells. Inr (arr\<lparr>adata := cells\<rparr>))
      else Inr arr)"

definition array_clear :: "'a dyn_array \<Rightarrow> 'a dyn_array" where
  "array_clear arr = arr\<lparr>alen := 0, capacity := 0, adata := []\<rparr>"

section \<open>Deques\<close>

record 'a deque =
  cursor :: nat
  darray :: "'a dyn_array"

definition deque_new :: "'a deque" where
  "deque_new = \<lparr>cursor = 0, darray = array_new\<rparr>"

definition deque_len :: "'a deque \<Rightarrow> nat" where
  "deque_len d = sub32 (alen (darray d)) (cursor d)"

definition deque_push_back :: "'a \<Rightarrow> 'a deque \<Rightarrow> 'a \<Rightarrow> 'a deque outcome" where
  "deque_push_back z d x =
     obind
       (if cursor d \<noteq> 0 \<and> alen (darray d) = capacity (darray d) then
          obind (move_cells (adata (darray d)) 0 (adata (darray d)) (cursor d) (deque_len d))
            (\<lambda>cells. Inr (d\<lparr>darray := (darray d)\<lparr>adata := cells, alen := deque_len d\<rparr>,
                            cursor := 0\<rparr>))
        else Inr d)
       (\<lambda>d'. obind (array_push_back z (darray d') x) (\<lambda>arr. Inr (d'\<lparr>darray := arr\<rparr>)))"

definition deque_get :: "'a deque \<Rightarrow> nat \<Rightarrow> 'a outcome" where
  "deque_get d i = array_get (darray d) (wrap32 (cursor d + i))"

definition deque_back :: "'a deque \<Rightarrow> 'a outcome" where
  "deque_back d = deque_get d (sub32 (deque_len d) 1)"

definition deque_pop_back :: "'a deque \<Rightarrow> ('a deque \<times> 'a) outcome" where
  "deque_pop_back d =
     obind (array_pop_back (darray d)) (\<lambda>(arr, x). Inr (d\<lparr>darray := arr\<rparr>, x))"

definition deque_pop_front :: "'a deque \<Rightarrow> ('a deque \<times> 'a) outcome" where
  "deque_pop_front d =
     obind (array_get (darray d) (cursor d)) (\<lambda>x. Inr (d\<lparr>cursor := wrap32 (cursor d + 1)\<rparr>, x))"

definition deque_empty :: "'a deque \<Rightarrow> 'a deque" where
  "deque_empty d = d\<lparr>cursor := 0, darray := array_empty (darray d)\<rparr>"

definition deque_destroy :: "'a deque \<Rightarrow> 'a deque" where
  "deque_destroy d = d\<lparr>cursor := 0, darray := array_clear (darray d)\<rparr>"

section \<open>Invariants and abstraction\<close>

definition array_inv :: "'a dyn_array \<Rightarrow> bool" where
  "array_inv arr \<longleftrightarrow> alen arr \<le> capacity arr \<and> length (adata arr) = capacity arr \<and>
     capacity arr < 2 ^ 32 \<and> (\<forall>i < alen arr. adata arr ! i \<noteq> None)"

definition array_list :: "'a dyn_array \<Rightarrow> 'a list" where
  "array_list arr = map the (take (alen arr) (adata arr))"

definition deque_inv :: "'a deque \<Rightarrow> bool" where
  "deque_inv d \<longleftrightarrow> array_inv (darray d) \<and> cursor d \<le> alen (darray d)"

definition deque_list :: "'a deque \<Rightarrow> 'a list" where
  "deque_list d = drop (cursor d) (array_list (darray d))"

section \<open>The interface of a sequence buffer\<close>

text \<open>
  What the clients of arrays and deques rely on: a buffer stands for a list,
  pushing appends, popping takes from the end, indexing reads, and all of this
  succeeds on well-formed buffers until the 32-bit count is exhausted.
\<close>

datatype 'a seq_call = Push 'a | Pop | Pop_Front | Get nat

fun list_call :: "'a seq_call \<Rightarrow> 'a list \<Rightarrow> ('a list \<times> 'a option) option" where
  "list_call (Push x) xs = (if length xs < 2 ^ 31 then Some (xs @ [x], None) else None)"
| "list_call Pop xs = (if xs = [] then None else Some (butlast xs, Some (last xs)))"
| "list_call Pop_Front xs = (if xs = [] then None else Some (tl xs, Some (hd xs)))"
| "list_call (Get i) xs = (if i < length xs then Some (xs, Some (xs ! i)) else None)"

fun is_front :: "'a seq_call \<Rightarrow> bool" where
  "is_front Pop_Front = True"
| "is_front _ = False"

locale seq_buffer =
  fixes buf_inv :: "'b \<Rightarrow> bool"
    and elems :: "'b \<Rightarrow> 'a list"
    and push :: "'b \<Rightarrow> 'a \<Rightarrow> 'b outcome"
    and pop :: "'b \<Rightarrow> ('b \<times> 'a) outcome"
    and get :: "'b \<Rightarrow> nat \<Rightarrow> 'a outcome"
  assumes push_ok: "buf_inv b \<Longrightarrow> length (elems b) < 2 ^ 31 \<Longrightarrow>
      \<exists>b'. push b x = Inr b' \<and> buf_inv b' \<and> elems b' = elems b @ [x]"
    and pop_ok: "buf_inv b \<Longrightarrow> elems b \<noteq> [] \<Longrightarrow>
      \<exists>b'. pop b = Inr (b', last (elems b)) \<and> buf_inv b' \<and> elems b' = butlast (elems b)"
    and get_ok: "buf_inv b \<Longrightarrow> i < length (elems b) \<Longrightarrow> get b i = Inr (elems b ! i)"
begin

lemma pop_after_push:
  assumes "buf_inv b" "length (elems b) < 2 ^ 31"
  shows "\<exists>b' b''. push b x = Inr b' \<and> pop b' = Inr (b'', x) \<and> buf_inv b'' \<and> elems b'' = elems b"
proof -
  obtain b' where b': "push b x = Inr b'" "buf_inv b'" "elems b' = elems b @ [x]"
    using push_ok [OF assms] by blast
  then obtain b'' where "pop b' = Inr (b'', last (elems b'))" "buf_inv b''"
      "elems b'' = butlast (elems b')"
    using pop_ok [of b'] by auto
  with b' show ?thesis by auto
qed

text \<open>One call on the buffer is the call on the list, consumption from the front excepted.\<close>

lemma call_refines:
  assumes "buf_inv b" "\<not> is_front c" "list_call c (elems b) = Some (xs, r)"
  shows "(case c of
      Push x \<Rightarrow> \<exists>b'. push b x = Inr b' \<and> buf_inv b' \<and> elems b' = xs \<and> r = None
    | Pop \<Rightarrow> \<exists>b' y. pop b = Inr (b', y) \<and> buf_inv b' \<and> elems b' = xs \<and> r = Some y
    | Get i \<Rightarrow> \<exists>y. get b i = Inr y \<and> elems b = xs \<and> r = Some y
    | Pop_Front \<Rightarrow> False)"
  using assms push_ok [of b] pop_ok [of b] get_ok [of b]
  by (cases c) (auto split: if_splits)

end

text \<open>A buffer that can also be consumed from the front.\<close>

locale front_buffer = seq_buffer buf_inv elems push pop get
  for buf_inv :: "'b \<Rightarrow> bool" and elems :: "'b \<Rightarrow> 'a list" and push pop get +
  fixes pop_front :: "'b \<Rightarrow> ('b \<times> 'a) outcome"
  assumes pop_front_ok: "buf_inv b \<Longrightarrow> elems b \<noteq> [] \<Longrightarrow>
      \<exists>b'. pop_front b = Inr (b', hd (elems b)) \<and> buf_inv b' \<and> elems b' = tl (elems b)"
begin

text \<open>First in, first out: what is pushed comes out behind everything that was there.\<close>

lemma fifo_order:
  assumes "buf_inv b" "length (elems b) < 2 ^ 31" "elems b = y # ys"
  shows "\<exists>b' b''. push b x = Inr b' \<and> pop_front b' = Inr (b'', y) \<and> elems b'' = ys @ [x]"
proof -
  obtain b' where b': "push b x = Inr b'" "buf_inv b'" "elems b' = y # ys @ [x]"
    using push_ok [OF assms(1,2), of x] assms(3) by auto
  then obtain b'' where "pop_front b' = Inr (b'', y)" "elems b'' = ys @ [x]"
    using pop_front_ok [of b'] by auto
  with b' show ?thesis by blast
qed

end

section \<open>Arrays provide it\<close>

lemma length_realloc_cells [simp]: "length (realloc_cells cells n) = n"
  by (simp add: realloc_cells_def)

lemma take_realloc_cells [simp]:
  "k \<le> length cells \<Longrightarrow> length cells \<le> n \<Longrightarrow> take k (realloc_cells cells n) = take k cells"
  by (simp add: realloc_cells_def)

lemma array_inv_new [simp]: "array_inv array_new"
  by (simp add: array_inv_def array_new_def)

lemma array_list_new [simp]: "array_list array_new = []"
  by (simp add: array_list_def array_new_def)

lemma length_array_list [simp]: "array_inv arr \<Longrightarrow> length (array_list arr) = alen arr"
  by (simp add: array_inv_def array_list_def)

lemma array_list_nth: "array_inv arr \<Longrightarrow> i < alen arr \<Longrightarrow> array_list arr ! i = the (adata arr ! i)"
  by (simp add: array_inv_def array_list_def)

lemma array_list_upd: "array_list (arr\<lparr>adata := cells, alen := k\<rparr>) = map the (take k cells)"
  by (simp add: array_list_def)

lemma array_get_list:
  "array_inv arr \<Longrightarrow> i < alen arr \<Longrightarrow> array_get arr i = Inr (array_list arr ! i)"
  by (auto simp: array_get_def array_list_nth array_inv_def split: option.splits)

text \<open>Room to grow: the next doubling still fits the 32-bit count.\<close>

definition array_room :: "'a dyn_array \<Rightarrow> bool" where
  "array_room arr \<longleftrightarrow> alen arr < capacity arr \<or> capacity arr < 2 ^ 31"

lemma array_increase_cap_ok:
  assumes "array_inv arr" "array_room arr"
  shows "\<exists>arr'. array_increase_cap z arr = Inr arr' \<and> array_inv arr' \<and>
     alen arr' = alen arr \<and> alen arr' < capacity arr' \<and> take (alen arr) (adata arr') = take (alen arr) (adata arr)"
proof (cases "alen arr = capacity arr \<and> capacity arr \<noteq> 0")
  case False
  then show ?thesis
    using assms by (auto simp: array_increase_cap_def array_inv_def ARRAY_CAPACITY_INITIAL_def)
next
  case True
  let ?n = "capacity arr"
  have n: "?n < 2 ^ 31" "alen arr = ?n" "length (adata arr) = ?n" "0 < ?n"
    using assms True by (auto simp: array_room_def array_inv_def)
  have cap: "wrap32 (?n * 2) = ?n * 2" using n by simp
  have sub: "sub32 (?n * 2) ?n = ?n" using n by simp
  have eq: "array_increase_cap z arr =
      Inr (arr\<lparr>capacity := ?n * 2, adata := adata arr @ replicate ?n (Some z)\<rparr>)"
    using n True by (simp add: array_increase_cap_def cap sub zero_cells_def realloc_cells_def)
  show ?thesis
    unfolding eq using assms(1) n by (auto simp: array_inv_def nth_append)
qed

lemma array_push_back_ok:
  assumes "array_inv arr" "array_room arr"
  shows "\<exists>arr'. array_push_back z arr x = Inr arr' \<and> array_inv arr' \<and>
     array_list arr' = array_list arr @ [x]"
proof -
  obtain arr1 where a1: "array_increase_cap z arr = Inr arr1" "array_inv arr1"
      "alen arr1 = alen arr" "alen arr1 < capacity arr1"
      "take (alen arr) (adata arr1) = take (alen arr) (adata arr)"
    using array_increase_cap_ok [OF assms] by blast
  let ?arr2 = "arr1\<lparr>adata := (adata arr1)[alen arr1 := Some x], alen := alen arr1 + 1\<rparr>"
  have len: "alen arr1 < length (adata arr1)" "alen arr1 + 1 < 2 ^ 32"
    using a1 by (auto simp: array_inv_def)
  then have eq: "array_push_back z arr x = Inr ?arr2"
    using a1 by (simp add: array_push_back_def array_set_def)
  have "array_inv ?arr2"
    using a1 len by (auto simp: array_inv_def less_Suc_eq nth_list_update)
  moreover have "array_list ?arr2 = array_list arr @ [x]"
    using a1 len by (simp add: array_list_def take_Suc_conv_app_nth)
  ultimately show ?thesis using eq by blast
qed

lemma array_pop_back_ok:
  assumes "array_inv arr" "array_list arr \<noteq> []"
  shows "\<exists>arr'. array_pop_back arr = Inr (arr', last (array_list arr)) \<and> array_inv arr' \<and>
     array_list arr' = butlast (array_list arr)"
proof -
  have pos: "0 < alen arr" using assms by (auto simp: array_list_def)
  have sub: "sub32 (alen arr) 1 = alen arr - 1" using assms(1) pos by (simp add: array_inv_def)
  have "array_list arr ! (alen arr - 1) = last (array_list arr)"
    using assms by (simp add: last_conv_nth)
  then have eq: "array_pop_back arr = Inr (arr\<lparr>alen := alen arr - 1\<rparr>, last (array_list arr))"
    unfolding array_pop_back_def sub Let_def using assms(1) pos by (simp add: array_get_list)
  have "array_list (arr\<lparr>alen := alen arr - 1\<rparr>) = butlast (array_list arr)"
    using assms(1) pos by (cases "alen arr") (simp_all add: array_list_def array_inv_def take_Suc_conv_app_nth)
  moreover have "array_inv (arr\<lparr>alen := alen arr - 1\<rparr>)"
    using assms(1) by (auto simp: array_inv_def)
  ultimately show ?thesis using eq by blast
qed

text \<open>A block that is full has as many cells as elements.\<close>

lemma array_room_short: "array_inv arr \<Longrightarrow> length (array_list arr) < 2 ^ 31 \<Longrightarrow> array_room arr"
  by (auto simp: array_room_def array_inv_def)

interpretation arr: seq_buffer array_inv array_list "array_push_back z" array_pop_back array_get for z
  by unfold_locales (simp_all add: array_push_back_ok array_room_short array_pop_back_ok array_get_list)

fun array_call :: "'a \<Rightarrow> 'a seq_call \<Rightarrow> 'a dyn_array \<Rightarrow> ('a dyn_array \<times> 'a option) outcome" where
  "array_call z (Push x) a = obind (array_push_back z a x) (\<lambda>a'. Inr (a', None))"
| "array_call z Pop a = obind (array_pop_back a) (\<lambda>(a', x). Inr (a', Some x))"
| "array_call z (Get i) a = obind (array_get a i) (\<lambda>x. Inr (a, Some x))"
| "array_call z Pop_Front a = Inl Undefined_Behaviour"

definition array_spec :: "'a seq_call \<Rightarrow> 'a list \<Rightarrow> ('a list \<times> 'a option) option" where
  "array_spec c xs = (if is_front c then None else list_call c xs)"

interpretation array: refinement "array_call z" array_spec array_inv array_list for z
proof
  fix s :: "'a dyn_array" and c a r
  assume inv: "array_inv s" and "array_spec c (array_list s) = Some (a, r)"
  then have c: "\<not> is_front c" "list_call c (array_list s) = Some (a, r)"
    by (simp_all add: array_spec_def split: if_splits)
  show "\<exists>s'. array_call z c s = Inr (s', r) \<and> array_inv s' \<and> array_list s' = a"
    using arr.call_refines [OF inv c, of z] inv by (cases c) auto
qed

lemma array_erase_ok:
  assumes "array_inv arr" "i < alen arr"
  shows "\<exists>arr'. array_erase arr i = Inr arr' \<and> array_inv arr' \<and>
     array_list arr' = take i (array_list arr) @ drop (Suc i) (array_list arr)"
proof -
  let ?n = "alen arr" and ?d = "adata arr"
  let ?d' = "take i ?d @ take (?n - i - 1) (drop (Suc i) ?d) @ drop (?n - 1) ?d"
  have n: "?n \<le> capacity arr" "length ?d = capacity arr" "?n < 2 ^ 32"
    using assms by (auto simp: array_inv_def)
  have s1: "sub32 ?n i = ?n - i" and s2: "sub32 (?n - i) 1 = ?n - i - 1" and s3: "sub32 ?n 1 = ?n - 1"
    using n assms(2) by simp_all
  have eq: "array_erase arr i = Inr (arr\<lparr>adata := ?d', alen := ?n - 1\<rparr>)"
    unfolding array_erase_def s1 s2 s3 move_cells_def using n assms(2) by auto
  have tk: "take (?n - 1) ?d' = take i ?d @ drop (Suc i) (take ?n ?d)"
  proof (cases "i = ?n - 1")
    case True
    then show ?thesis using n assms(2) by simp
  next
    case False
    then have "i < ?n - 1" using assms(2) by arith
    then show ?thesis using n by (simp add: drop_take min_def)
  qed
  have al: "array_list (arr\<lparr>adata := ?d', alen := ?n - 1\<rparr>) =
      take i (array_list arr) @ drop (Suc i) (array_list arr)"
    unfolding array_list_upd tk using assms(2) by (simp add: array_list_def take_map drop_map min_def)
  have "\<forall>k < ?n - 1. ?d' ! k \<noteq> None"
  proof (intro allI impI)
    fix k assume k: "k < ?n - 1"
    have "?d' ! k = (take (?n - 1) ?d') ! k" by (rule nth_take [OF k, symmetric])
    also have "\<dots> = (if k < i then ?d ! k else ?d ! Suc k)"
      unfolding tk using k assms(2) n by (auto simp: nth_append min_def)
    also have "\<dots> \<noteq> None" using k assms by (auto simp: array_inv_def)
    finally show "?d' ! k \<noteq> None" .
  qed
  then have "array_inv (arr\<lparr>adata := ?d', alen := ?n - 1\<rparr>)"
    using n assms by (auto simp: array_inv_def)
  with eq al show ?thesis by blast
qed

lemma array_concat_ok:
  assumes "array_inv a" "array_inv b" "alen a + alen b + 16 < 2 ^ 32"
  shows "\<exists>c. array_concat a b = Inr c \<and> array_inv c \<and> array_list c = array_list a @ array_list b"
proof -
  let ?s = "alen a + alen b"
  define a' where "a' = (if capacity a < ?s then
      a\<lparr>capacity := ?s + 16, adata := realloc_cells (adata a) (?s + 16)\<rparr> else a)"
  have a': "alen a' = alen a" "length (adata a') = capacity a'" "?s \<le> capacity a'"
      "capacity a' < 2 ^ 32" "take (alen a) (adata a') = take (alen a) (adata a)"
    using assms by (auto simp: a'_def array_inv_def)
  let ?c = "a'\<lparr>adata := take (alen a) (adata a) @ take (alen b) (adata b) @ drop ?s (adata a'), alen := ?s\<rparr>"
  have la: "length (adata a) \<ge> alen a" "length (adata b) \<ge> alen b"
    using assms by (auto simp: array_inv_def)
  have wr: "wrap32 ?s = ?s" "wrap32 (?s + 16) = ?s + 16" using assms(3) by simp_all
  have "array_concat a b = obind (move_cells (adata a') (alen a') (adata b) 0 (alen b))
           (\<lambda>cells. Inr (a'\<lparr>adata := cells, alen := wrap32 (alen a' + alen b)\<rparr>))"
    by (simp only: array_concat_def ARRAY_CAPACITY_INITIAL_def wr Let_def a'_def)
  also have "\<dots> = Inr ?c"
    using a' la wr by (simp add: move_cells_def)
  finally have "array_concat a b = Inr ?c" .
  moreover have "array_inv ?c"
    using assms a' la by (auto simp: array_inv_def nth_append)
  moreover have "array_list ?c = array_list a @ array_list b"
    using la by (simp add: array_list_def)
  ultimately show ?thesis by blast
qed

section \<open>Deques provide the extended interface\<close>

definition deque_room :: "'a deque \<Rightarrow> bool" where
  "deque_room d \<longleftrightarrow> array_room (darray d)"

lemma deque_inv_new [simp]: "deque_inv deque_new"
  by (simp add: deque_inv_def deque_new_def array_new_def array_inv_def)

lemma length_deque_list [simp]: "deque_inv d \<Longrightarrow> length (deque_list d) = alen (darray d) - cursor d"
  by (simp add: deque_inv_def deque_list_def)

lemma deque_len_eq: "deque_inv d \<Longrightarrow> deque_len d = length (deque_list d)"
  by (simp add: deque_len_def deque_inv_def array_inv_def deque_list_def array_list_def)

text \<open>Reclaiming the consumed prefix of a full block keeps the contents.\<close>

lemma deque_compact:
  assumes "deque_inv d"
  shows "let d' = d\<lparr>darray := (darray d)\<lparr>
            adata := take (deque_len d) (drop (cursor d) (adata (darray d))) @ drop (deque_len d) (adata (darray d)),
            alen := deque_len d\<rparr>, cursor := 0\<rparr>
         in deque_inv d' \<and> deque_list d' = deque_list d"
proof -
  let ?a = "darray d" and ?k = "cursor d"
  have inv: "array_inv ?a" "?k \<le> alen ?a" using assms by (auto simp: deque_inv_def)
  have len: "deque_len d = alen ?a - ?k"
    using inv by (simp add: deque_len_def array_inv_def)
  let ?d = "take (alen ?a - ?k) (drop ?k (adata ?a)) @ drop (alen ?a - ?k) (adata ?a)"
  have "\<forall>i < alen ?a - ?k. ?d ! i \<noteq> None"
    using inv by (auto simp: array_inv_def nth_append)
  then have "array_inv (?a\<lparr>adata := ?d, alen := alen ?a - ?k\<rparr>)"
    using inv by (auto simp: array_inv_def)
  moreover have "array_list (?a\<lparr>adata := ?d, alen := alen ?a - ?k\<rparr>) = drop ?k (array_list ?a)"
    using inv by (simp add: array_list_def array_inv_def drop_map drop_take min_def)
  ultimately show ?thesis unfolding len by (simp add: deque_inv_def deque_list_def Let_def)
qed

lemma deque_push_plain:
  assumes "deque_inv d" "deque_room d"
  shows "\<exists>d'. obind (array_push_back z (darray d) x) (\<lambda>arr. Inr (d\<lparr>darray := arr\<rparr>)) = Inr d' \<and>
     deque_inv d' \<and> deque_list d' = deque_list d @ [x]"
proof -
  have inv: "array_inv (darray d)" "array_room (darray d)" "cursor d \<le> alen (darray d)"
    using assms by (auto simp: deque_inv_def deque_room_def)
  obtain arr where arr: "array_push_back z (darray d) x = Inr arr" "array_inv arr"
      "array_list arr = array_list (darray d) @ [x]"
    using array_push_back_ok [OF inv(1,2)] by blast
  have "alen arr = Suc (alen (darray d))"
    using arr inv(1) by (metis length_append_singleton length_array_list)
  then show ?thesis using arr inv by (simp add: deque_inv_def deque_list_def)
qed

lemma deque_push_back_ok:
  assumes "deque_inv d" "length (deque_list d) < 2 ^ 31"
  shows "\<exists>d'. deque_push_back z d x = Inr d' \<and> deque_inv d' \<and> deque_list d' = deque_list d @ [x]"
proof (cases "cursor d \<noteq> 0 \<and> alen (darray d) = capacity (darray d)")
  case False
  then have "deque_room d"
    using assms by (auto simp: deque_room_def array_room_def deque_inv_def array_inv_def deque_list_def array_list_def)
  then show ?thesis
    using deque_push_plain [OF assms(1) _, of z x] False by (auto simp: deque_push_back_def)
next
  case True
  let ?a = "darray d"
  define d1 where "d1 = d\<lparr>darray := (darray d)\<lparr>
            adata := take (deque_len d) (drop (cursor d) (adata (darray d))) @ drop (deque_len d) (adata (darray d)),
            alen := deque_len d\<rparr>, cursor := 0\<rparr>"
  have d1: "deque_inv d1" "deque_list d1 = deque_list d"
    using deque_compact [OF assms(1)] by (simp_all add: d1_def Let_def)
  have len: "deque_len d = alen ?a - cursor d" "cursor d \<le> alen ?a" "length (adata ?a) = capacity ?a"
    using assms by (simp_all add: deque_len_def deque_inv_def array_inv_def)
  have room: "deque_room d1"
    using len True by (simp add: deque_room_def array_room_def d1_def)
  have "deque_push_back z d x = obind (array_push_back z (darray d1) x) (\<lambda>arr. Inr (d1\<lparr>darray := arr\<rparr>))"
    using True len by (simp add: deque_push_back_def move_cells_def d1_def)
  then show ?thesis using deque_push_plain [OF d1(1) room, of z x] d1(2) by simp
qed

lemma deque_get_list:
  assumes "deque_inv d" "i < length (deque_list d)"
  shows "deque_get d i = Inr (deque_list d ! i)"
proof -
  have "cursor d + i < alen (darray d)" "alen (darray d) < 2 ^ 32" "array_inv (darray d)"
    using assms by (auto simp: deque_inv_def array_inv_def deque_list_def array_list_def)
  then show ?thesis
    using assms(1) by (simp add: deque_get_def array_get_list deque_list_def deque_inv_def)
qed

lemma deque_pop_back_ok:
  assumes "deque_inv d" "deque_list d \<noteq> []"
  shows "\<exists>d'. deque_pop_back d = Inr (d', last (deque_list d)) \<and> deque_inv d' \<and>
     deque_list d' = butlast (deque_list d)"
proof -
  have inv: "array_inv (darray d)" "cursor d < alen (darray d)"
    using assms by (auto simp: deque_inv_def deque_list_def)
  then have ne: "array_list (darray d) \<noteq> []"
    by (metis length_array_list length_0_conv not_less_zero)
  obtain arr where arr: "array_pop_back (darray d) = Inr (arr, last (array_list (darray d)))"
      "array_inv arr" "array_list arr = butlast (array_list (darray d))"
    using array_pop_back_ok [OF inv(1) ne] by blast
  have "alen arr = alen (darray d) - 1"
    using arr inv(1) by (metis length_butlast length_array_list)
  then have "deque_inv (d\<lparr>darray := arr\<rparr>)"
    using arr inv by (simp add: deque_inv_def)
  then show ?thesis
    using arr inv assms by (simp add: deque_pop_back_def deque_list_def last_drop butlast_drop)
qed

lemma deque_pop_front_ok:
  assumes "deque_inv d" "deque_list d \<noteq> []"
  shows "\<exists>d'. deque_pop_front d = Inr (d', hd (deque_list d)) \<and> deque_inv d' \<and>
     deque_list d' = tl (deque_list d)"
proof -
  have inv: "array_inv (darray d)" "cursor d < alen (darray d)" "alen (darray d) < 2 ^ 32"
    using assms by (auto simp: deque_inv_def deque_list_def array_inv_def)
  have "cursor d < length (array_list (darray d))" using inv by simp
  then show ?thesis
    using inv by (simp add: deque_pop_front_def array_get_list deque_list_def deque_inv_def
        hd_drop_conv_nth tl_drop drop_Suc)
qed

interpretation deq: front_buffer deque_inv deque_list "deque_push_back z" deque_pop_back deque_get deque_pop_front
  for z
  by unfold_locales (simp_all add: deque_push_back_ok deque_pop_back_ok deque_get_list deque_pop_front_ok del: length_deque_list)

fun deque_call :: "'a \<Rightarrow> 'a seq_call \<Rightarrow> 'a deque \<Rightarrow> ('a deque \<times> 'a option) outcome" where
  "deque_call z (Push x) d = obind (deque_push_back z d x) (\<lambda>d'. Inr (d', None))"
| "deque_call z Pop d = obind (deque_pop_back d) (\<lambda>(d', x). Inr (d', Some x))"
| "deque_call z (Get i) d = obind (deque_get d i) (\<lambda>x. Inr (d, Some x))"
| "deque_call z Pop_Front d = obind (deque_pop_front d) (\<lambda>(d', x). Inr (d', Some x))"

interpretation deque: refinement "deque_call z" list_call deque_inv deque_list for z
proof
  fix s :: "'a deque" and c a r
  assume inv: "deque_inv s" and sp: "list_call c (deque_list s) = Some (a, r)"
  show "\<exists>s'. deque_call z c s = Inr (s', r) \<and> deque_inv s' \<and> deque_list s' = a"
  proof (cases "is_front c")
    case False
    then show ?thesis using deq.call_refines [OF inv False sp, of z] inv by (cases c) auto
  next
    case True
    then have "c = Pop_Front" by (cases c) auto
    then show ?thesis using deq.pop_front_ok [OF inv] sp by (auto split: if_splits)
  qed
qed

section \<open>Properties of arrays and deques\<close>

text \<open>
  Any sequence of pushes, pops and reads on an array behaves as on
  the list of its elements, with the same results, as long as the list holds at
  most 2^31 elements and only what is there is popped or read: no index leaves
  the block, growth loses nothing, and the array stays well-formed.
\<close>

lemma array_refines_list:
  assumes "array_inv arr" "run_spec array_spec (array_list arr) calls = Some (xs, rs)"
  shows "\<exists>arr'. run_calls (array_call z) arr calls = Inr (arr', rs) \<and> array_inv arr' \<and> array_list arr' = xs"
  using assms by (rule array.run_refines)

text \<open>
  Property C32. The same for deques, which are also consumed from the front: any
  sequence of calls behaves as on the list of the elements behind the cursor,
  also when pushing on a full block first moves them to its beginning.
\<close>

theorem deque_refines_list:
  assumes "deque_inv d" "run_spec list_call (deque_list d) calls = Some (xs, rs)"
  shows "\<exists>d'. run_calls (deque_call z) d calls = Inr (d', rs) \<and> deque_inv d' \<and> deque_list d' = xs"
  using assms by (rule deque.run_refines)

theorem deque_refines_list_witness:
  "\<exists>d'. run_calls (deque_call 0) deque_new [Push 5, Push 7, Pop_Front, Push 9, Pop] =
      Inr (d', [None, None, Some 5, None, Some 9]) \<and> deque_inv d' \<and> deque_list d' = [7::nat]"
  using deque_refines_list [of "deque_new :: nat deque" "[Push 5, Push 7, Pop_Front, Push 9, Pop]" "[7]"
      "[None, None, Some 5, None, Some 9]" 0]
  by (simp add: deque_list_def deque_new_def array_list_def array_new_def deque_inv_def array_inv_def)

text \<open>
  Erasing removes exactly the element at the index, and
  concatenation appends the second array's elements, both within the block.
\<close>

lemma array_erase_concat:
  assumes "array_inv a" "array_inv b" "alen a + alen b + 16 < 2 ^ 32" "i < alen a"
  shows "\<exists>a' c. array_erase a i = Inr a' \<and> array_inv a' \<and>
    array_list a' = take i (array_list a) @ drop (Suc i) (array_list a) \<and>
    array_concat a b = Inr c \<and> array_inv c \<and> array_list c = array_list a @ array_list b"
  using array_erase_ok [OF assms(1,4)] array_concat_ok [OF assms(1-3)] by blast

end
