(* ===== verification/Symbol.thy ===== *)
theory Symbol
  imports C_Type
begin

text \<open>
  The symbols of \<open>include/lacc/symbol.h\<close>, which types, variables and the
  intermediate representation point to, and the two functions of
  \<open>src/parser/symtab.c\<close> that name them. A pointer to a symbol is a number; the
  symbols themselves are a function from these numbers, so that the fields a
  pass assigns can be updated in one place.
\<close>

datatype symtype =
    SYM_DEFINITION | SYM_TENTATIVE | SYM_DECLARATION | SYM_TYPEDEF | SYM_STRING_VALUE
  | SYM_CONSTANT | SYM_LABEL | SYM_TABLE | SYM_TABLE_ENTRY | SYM_TAG

datatype linkage = LINK_NONE | LINK_INTERN | LINK_EXTERN

type_synonym symref = nat

text \<open>
  The union \<open>value\<close> of \<open>include/lacc/token.h\<close>: its members \<open>i\<close>, \<open>u\<close> and \<open>d\<close> share the first
  eight bytes with \<open>ld\<close>, which is declared \<open>double\<close>, and \<open>f\<close> is the lower half of them.
  Floating point members are read as their bit patterns. Assigning \<open>f\<close> leaves the other
  bytes as they are.
\<close>

record cvalue =
  val_u :: u64

definition val_i :: "cvalue \<Rightarrow> int" where
  "val_i v = sint (val_u v)"

definition imm_of :: "int \<Rightarrow> cvalue" where
  "imm_of i = \<lparr>val_u = word_of_int i\<rparr>"

lemma val_i_imm_of: "- (2 ^ 63) \<le> i \<Longrightarrow> i < 2 ^ 63 \<Longrightarrow> val_i (imm_of i) = i"
  unfolding val_i_def imm_of_def by simp (transfer, simp add: signed_take_bit_int_eq_self)

text \<open>What a symbol holds; an unset union is zero. Blocks and symbols are referred to by number.\<close>

datatype sym_value =
    No_Value
  | Constant cvalue
  | String_Value c_string
  | Label nat
  | Vla_Address symref

record symbol =
  s_name :: c_string
  s_type :: ctype
  s_symtype :: symtype
  s_linkage :: linkage
  s_referenced :: bool
  s_slot :: nat
  s_index :: nat
  s_n :: int
  s_depth :: int
  s_stack_offset :: int
  s_global_offset :: int
  s_value :: sym_value

type_synonym symbols = "symref \<Rightarrow> symbol"

section \<open>Names\<close>

text \<open>The conversions \<open>%lu\<close> and \<open>%d\<close> of the printf family.\<close>

fun print_nat :: "nat \<Rightarrow> string" where
  "print_nat n = (if n < 10 then [char_of (48 + n)] else print_nat (n div 10) @ [char_of (48 + n mod 10)])"

declare print_nat.simps [simp del]

definition print_int :: "int \<Rightarrow> string" where
  "print_int i = (if i < 0 then CHR ''-'' # print_nat (nat (- i)) else print_nat (nat i))"

text \<open>
  The name of a symbol with its number appended. The static buffer that holds
  the text between two calls is not modelled: the result is the text.
\<close>

definition sym_name :: "symbol \<Rightarrow> string outcome" where
  "sym_name sy =
     (let raw = takeWhile (\<lambda>c. c \<noteq> CHR 0x00) (str_raw (s_name sy)) in
      if s_n sy = 0 then Inr raw
      else if length raw > 100 then Inl (Exit_Error (''Symbol name '' @ raw @ '' exceeds limit.''))
      else Inr (raw @ (if take 1 raw = ''.'' then [] else ''.'') @ print_int (s_n sy)))"

definition is_temporary :: "symbol \<Rightarrow> bool" where
  "is_temporary sy \<longleftrightarrow> takeWhile (\<lambda>c. c \<noteq> CHR 0x00) (str_raw (s_name sy)) = ''.t''"

section \<open>Printed numbers\<close>

fun digits_value :: "string \<Rightarrow> nat" where
  "digits_value [] = 0"
| "digits_value (c # cs) = (code_of c - 48) * 10 ^ length cs + digits_value cs"

lemma digits_value_snoc: "digits_value (ds @ [c]) = digits_value ds * 10 + (code_of c - 48)"
  by (induction ds) (auto simp: algebra_simps)

lemma code_of_digit [simp]: "d < 10 \<Longrightarrow> code_of (char_of (48 + d)) = 48 + d"
  by simp

lemma print_nat_value [simp]: "digits_value (print_nat n) = n"
proof (induction n rule: less_induct)
  case (less n)
  show ?case
  proof (cases "n < 10")
    case True
    then show ?thesis by (simp add: print_nat.simps [of n])
  next
    case False
    then have "digits_value (print_nat n) = digits_value (print_nat (n div 10)) * 10 + n mod 10"
      by (simp add: print_nat.simps [of n] digits_value_snoc)
    also have "digits_value (print_nat (n div 10)) = n div 10" using less False by simp
    finally show ?thesis by simp
  qed
qed

lemma print_nat_inject: "print_nat m = print_nat n \<longleftrightarrow> m = n"
  by (metis print_nat_value)

end
