(* ===== verification/Typetree.thy ===== *)
theory Typetree
  imports Symbol
begin

text \<open>
  The type trees of \<open>src/parser/typetree.c\<close>: the list \<open>types\<close> that type values
  refer to by number, and every operation that creates, changes, measures,
  compares or prints a type. The list of trees is an explicit store with the
  capacity of its block, because a handle into it dangles once the block moves.
  Sizes are natural numbers with the wrap-around of \<open>size_t\<close> written out.

  The recursive operations follow references in the store, and a cycle of
  references makes them recurse until the stack is exhausted. They are given
  fuel; running out of it is the outcome \<open>Stack_Overflow\<close>. An operation that does
  not change the store and calls itself for the same reference (or pair of
  references) again never returns, so the number of references, or of pairs,
  bounds the fuel that a call which returns can need.
\<close>

section \<open>Representation\<close>

record member =
  m_name :: c_string
  m_type :: ctype
  m_offset :: nat
  m_field_width :: int
  m_field_offset :: int
  m_field_backing :: int
  m_sym :: "symref option"

definition zero_member :: member where
  "zero_member = \<lparr>m_name = zero_string, m_type = zero_type, m_offset = 0, m_field_width = 0,
     m_field_offset = 0, m_field_backing = 0, m_sym = None\<rparr>"

record typetree =
  tt_type :: type_tag
  tt_unsigned :: bool
  tt_const :: bool
  tt_volatile :: bool
  tt_restrict :: bool
  tt_vararg :: bool
  tt_flexible :: bool
  tt_vla :: bool
  tt_incomplete :: bool
  tt_size :: nat
  tt_vlen :: "symref option"
  tt_members :: "member list"
  tt_next :: ctype
  tt_tag :: "symref option"

definition zero_tree :: typetree where
  "zero_tree = \<lparr>tt_type = T_VOID, tt_unsigned = False, tt_const = False, tt_volatile = False,
     tt_restrict = False, tt_vararg = False, tt_flexible = False, tt_vla = False,
     tt_incomplete = False, tt_size = 0, tt_vlen = None, tt_members = [], tt_next = zero_type,
     tt_tag = None\<rparr>"

record type_store =
  trees :: "typetree list"
  trees_cap :: nat

definition empty_types :: type_store where
  "empty_types = \<lparr>trees = [], trees_cap = 0\<rparr>"

definition LONGLONG_MAX :: nat where
  "LONGLONG_MAX = 0x7FFFFFFFFFFFFFFF"

text \<open>Conversion of a number to the 16-bit signed field \<open>ref\<close>.\<close>

definition ref16 :: "nat \<Rightarrow> int" where
  "ref16 n = (int n + 32768) mod 65536 - 32768"

definition get_typetree_handle :: "type_store \<Rightarrow> int \<Rightarrow> typetree outcome" where
  "get_typetree_handle st ref =
     obind (oassert (ref > 0)) (\<lambda>_.
     obind (oassert (ref \<le> int (length (trees st)))) (\<lambda>_.
       Inr (trees st ! nat (ref - 1))))"

text \<open>Assignment through a valid handle.\<close>

definition set_tree :: "type_store \<Rightarrow> int \<Rightarrow> typetree \<Rightarrow> type_store" where
  "set_tree st ref t = st\<lparr>trees := (trees st)[nat (ref - 1) := t]\<rparr>"

definition get_type_handle :: "type_store \<Rightarrow> int \<Rightarrow> ctype outcome" where
  "get_type_handle st ref =
     obind (get_typetree_handle st ref) (\<lambda>t.
       if tt_type t = T_POINTER then
         obind (oassert (\<not> t_pointer (tt_next t))) (\<lambda>_.
           Inr (zero_type\<lparr>t_type := t_type (tt_next t), t_unsigned := t_unsigned (tt_next t),
             t_const := t_const (tt_next t), t_volatile := t_volatile (tt_next t),
             t_restrict := t_restrict (tt_next t), t_ref := t_ref (tt_next t), t_pointer := True,
             t_pointer_const := tt_const t, t_pointer_volatile := tt_volatile t,
             t_pointer_restrict := tt_restrict t\<rparr>))
       else
         Inr (zero_type\<lparr>t_type := tt_type t, t_unsigned := tt_unsigned t,
           t_volatile := tt_volatile t, t_const := tt_const t, t_restrict := tt_restrict t,
           t_ref := (if tt_type t \<in> {T_FUNCTION, T_ARRAY, T_STRUCT, T_UNION} then ref else 0)\<rparr>))"

definition type_create :: "type_store \<Rightarrow> type_tag \<Rightarrow> type_store \<times> ctype" where
  "type_create st tt =
     (let cap = (if length (trees st) = trees_cap st
                 then (if trees_cap st = 0 then 16 else trees_cap st * 2) else trees_cap st);
          ts = trees st @ [zero_tree\<lparr>tt_type := tt\<rparr>]
      in (\<lparr>trees = ts, trees_cap = cap\<rparr>, zero_type\<lparr>t_type := tt, t_ref := ref16 (length ts)\<rparr>))"

section \<open>Reading types\<close>

definition nmembers :: "type_store \<Rightarrow> ctype \<Rightarrow> nat outcome" where
  "nmembers st type = obind (get_typetree_handle st (t_ref type)) (\<lambda>t. Inr (length (tt_members t)))"

definition get_member :: "type_store \<Rightarrow> ctype \<Rightarrow> int \<Rightarrow> member outcome" where
  "get_member st type n =
     obind (oassert (n \<ge> 0)) (\<lambda>_.
     obind (get_typetree_handle st (t_ref type)) (\<lambda>t.
     obind (oassert (int (length (tt_members t)) > n)) (\<lambda>_.
       Inr (tt_members t ! nat n))))"

definition type_deref :: "type_store \<Rightarrow> ctype \<Rightarrow> ctype outcome" where
  "type_deref st type =
     obind (oassert (is_pointer type)) (\<lambda>_.
       if t_pointer type then Inr ((remove_qualifiers type)\<lparr>t_pointer := False\<rparr>)
       else get_type_handle st (t_ref type))"

definition type_next :: "type_store \<Rightarrow> ctype \<Rightarrow> ctype outcome" where
  "type_next st type =
     (if is_pointer type then type_deref st type
      else obind (oassert (is_function type \<or> is_array type)) (\<lambda>_.
        obind (get_typetree_handle st (t_ref type)) (\<lambda>t. Inr (tt_next t))))"

definition type_array_len :: "type_store \<Rightarrow> ctype \<Rightarrow> nat outcome" where
  "type_array_len st type =
     obind (oassert (is_array type)) (\<lambda>_.
       obind (get_typetree_handle st (t_ref type)) (\<lambda>t. Inr (tt_size t)))"

text \<open>The sizes that do not depend on the store.\<close>

definition scalar_size :: "type_tag \<Rightarrow> nat" where
  "scalar_size tt =
     (case tt of T_BOOL \<Rightarrow> 1 | T_CHAR \<Rightarrow> 1 | T_SHORT \<Rightarrow> 2 | T_INT \<Rightarrow> 4 | T_FLOAT \<Rightarrow> 4
      | T_LONG \<Rightarrow> 8 | T_DOUBLE \<Rightarrow> 8 | T_POINTER \<Rightarrow> 8 | T_LDOUBLE \<Rightarrow> 16 | _ \<Rightarrow> 0)"

fun size_of_fuel :: "nat \<Rightarrow> type_store \<Rightarrow> ctype \<Rightarrow> nat outcome" where
  "size_of_fuel 0 st type = Inl Stack_Overflow"
| "size_of_fuel (Suc n) st type =
     (if is_struct_or_union type then
        obind (get_typetree_handle st (t_ref type)) (\<lambda>t. Inr (tt_size t))
      else if is_array type then
        obind (get_typetree_handle st (t_ref type)) (\<lambda>t.
          obind (size_of_fuel n st (tt_next t)) (\<lambda>s. Inr (wrap64 (tt_size t * s))))
      else Inr (scalar_size (type_of type)))"

definition max_depth :: "type_store \<Rightarrow> nat" where
  "max_depth st = Suc (length (trees st))"

text \<open>A reference can be met as an array or as a struct, with or without a pointer to it in the value.\<close>

definition max_path :: "type_store \<Rightarrow> nat" where
  "max_path st = 2 * length (trees st) + 2"

definition size_of :: "type_store \<Rightarrow> ctype \<Rightarrow> nat outcome" where
  "size_of st type = size_of_fuel (max_depth st) st type"

text \<open>The loop over the members: \<open>m\<close> is the largest alignment so far.\<close>

fun max_alignment :: "(ctype \<Rightarrow> nat outcome) \<Rightarrow> member list \<Rightarrow> nat \<Rightarrow> nat outcome" where
  "max_alignment f [] m = Inr m"
| "max_alignment f (x # xs) m = obind (f (m_type x)) (\<lambda>d. max_alignment f xs (if d > m then d else m))"

fun type_alignment_fuel :: "nat \<Rightarrow> type_store \<Rightarrow> ctype \<Rightarrow> nat outcome" where
  "type_alignment_fuel 0 st type = Inl Stack_Overflow"
| "type_alignment_fuel (Suc n) st type =
     obind (oassert (is_object type)) (\<lambda>_.
       if is_array type then obind (type_next st type) (type_alignment_fuel n st)
       else if is_struct_or_union type then
         obind (get_typetree_handle st (t_ref type)) (\<lambda>t.
         obind (max_alignment (type_alignment_fuel n st) (tt_members t) 0) (\<lambda>m.
         obind (oassert (m \<noteq> 0)) (\<lambda>_. Inr m)))
       else size_of st type)"

definition type_alignment :: "type_store \<Rightarrow> ctype \<Rightarrow> nat outcome" where
  "type_alignment st type = type_alignment_fuel (max_path st) st type"

definition is_vararg :: "type_store \<Rightarrow> ctype \<Rightarrow> bool outcome" where
  "is_vararg st type =
     obind (oassert (is_function type)) (\<lambda>_.
       obind (get_typetree_handle st (t_ref type)) (\<lambda>t. Inr (tt_vararg t)))"

fun is_vla_fuel :: "nat \<Rightarrow> type_store \<Rightarrow> ctype \<Rightarrow> bool outcome" where
  "is_vla_fuel 0 st type = Inl Stack_Overflow"
| "is_vla_fuel (Suc n) st type =
     (if is_array type then
        obind (get_typetree_handle st (t_ref type)) (\<lambda>t.
          if tt_vla t then Inr True else is_vla_fuel n st (tt_next t))
      else Inr False)"

definition is_vla :: "type_store \<Rightarrow> ctype \<Rightarrow> bool outcome" where
  "is_vla st type = is_vla_fuel (max_depth st) st type"

definition is_flexible :: "type_store \<Rightarrow> ctype \<Rightarrow> bool outcome" where
  "is_flexible st type =
     (if is_struct_or_union type
      then obind (get_typetree_handle st (t_ref type)) (\<lambda>t. Inr (tt_flexible t))
      else Inr False)"

fun is_variably_modified_fuel :: "nat \<Rightarrow> type_store \<Rightarrow> ctype \<Rightarrow> bool outcome" where
  "is_variably_modified_fuel 0 st type = Inl Stack_Overflow"
| "is_variably_modified_fuel (Suc n) st type =
     (if is_pointer type then obind (type_next st type) (is_variably_modified_fuel n st)
      else if is_array type then is_vla st type
      else Inr False)"

definition is_variably_modified :: "type_store \<Rightarrow> ctype \<Rightarrow> bool outcome" where
  "is_variably_modified st type = is_variably_modified_fuel (max_path st) st type"

definition is_complete :: "type_store \<Rightarrow> ctype \<Rightarrow> bool outcome" where
  "is_complete st type =
     (if is_array type \<or> is_function type
      then obind (get_typetree_handle st (t_ref type)) (\<lambda>t. Inr (\<not> tt_incomplete t))
      else Inr True)"

definition type_vla_length :: "type_store \<Rightarrow> ctype \<Rightarrow> symref option outcome" where
  "type_vla_length st type =
     obind (is_vla st type) (\<lambda>v. obind (oassert v) (\<lambda>_.
       obind (get_typetree_handle st (t_ref type)) (\<lambda>t. Inr (tt_vlen t))))"

text \<open>The member of a name with its index, which the code writes to \<open>*index\<close>.\<close>

fun find_member :: "c_string \<Rightarrow> member list \<Rightarrow> nat \<Rightarrow> (member \<times> nat) option" where
  "find_member name [] i = None"
| "find_member name (m # ms) i =
     (if str_cmp name (m_name m) = 0 then Some (m, i) else find_member name ms (Suc i))"

definition find_type_member :: "type_store \<Rightarrow> ctype \<Rightarrow> c_string \<Rightarrow> (member \<times> nat) option outcome" where
  "find_type_member st type name =
     obind (oassert (is_struct_or_union type \<or> is_function type)) (\<lambda>_.
       obind (get_typetree_handle st (t_ref type)) (\<lambda>t. Inr (find_member name (tt_members t) 0)))"

section \<open>Members of structs, unions and functions\<close>

definition quoted :: "c_string \<Rightarrow> string" where
  "quoted name = [CHR 0x27] @ str_chars name @ [CHR 0x27]"

text \<open>
  \<open>add_member\<close> returns the index of the new member, or nothing for the ellipsis.
  The test against \<open>LONGLONG_MAX\<close> is an unsigned subtraction.
\<close>

definition add_object_member :: "type_store \<Rightarrow> ctype \<Rightarrow> typetree \<Rightarrow> member \<Rightarrow> typetree outcome" where
  "add_object_member st parent t m =
     obind (size_of st (m_type m)) (\<lambda>sz.
     obind (if sz = 0
            then (if is_array (m_type m) \<and> \<not> tt_flexible t then Inr (t\<lparr>tt_flexible := True\<rparr>)
                  else Inl (Exit_Error (''Member '' @ quoted (m_name m) @ '' has incomplete type.'')))
            else Inr t) (\<lambda>t1.
     obind (is_flexible st (m_type m)) (\<lambda>fl.
     obind (if fl then (if is_struct parent then Inl (Exit_Error ''Cannot add flexible struct member.'')
                        else Inr (t1\<lparr>tt_flexible := True\<rparr>))
            else Inr t1) (\<lambda>t2.
     if wrap64 (LONGLONG_MAX + 2 ^ 64 - m_offset m) < sz then Inl (Exit_Error ''Object is too large.'')
     else Inr (if tt_size t2 < wrap64 (m_offset m + sz) then t2\<lparr>tt_size := wrap64 (m_offset m + sz)\<rparr> else t2)))))"

definition add_member :: "type_store \<Rightarrow> ctype \<Rightarrow> member \<Rightarrow> (type_store \<times> nat option) outcome" where
  "add_member st parent m =
     obind (oassert (is_struct_or_union parent \<or> is_function parent)) (\<lambda>_.
     obind (get_typetree_handle st (t_ref parent)) (\<lambda>t.
     if str_cmp (m_name m) (str_init ''...'') = 0 then
       obind (oassert (\<not> tt_vararg t)) (\<lambda>_.
       obind (oassert (is_function parent)) (\<lambda>_.
       obind (oassert (\<not> tt_incomplete t)) (\<lambda>_.
         Inr (set_tree st (t_ref parent) (t\<lparr>tt_vararg := True\<rparr>), None))))
     else
       obind (if slen (m_name m) = 0 then Inr None else find_type_member st parent (m_name m)) (\<lambda>found.
       if found \<noteq> None then Inl (Exit_Error (''Member '' @ quoted (m_name m) @ '' already exists.''))
       else
         let t1 = t\<lparr>tt_members := tt_members t @ [m]\<rparr>;
             st1 = set_tree st (t_ref parent) t1
         in obind (if is_struct_or_union parent then add_object_member st1 parent t1 m
                   else Inr (t1\<lparr>tt_incomplete := is_type_placeholder (m_type m)\<rparr>)) (\<lambda>t2.
              Inr (set_tree st (t_ref parent) t2, Some (length (tt_members t)))))))"

definition adjust_member_alignment :: "type_store \<Rightarrow> ctype \<Rightarrow> ctype \<Rightarrow> (type_store \<times> nat) outcome" where
  "adjust_member_alignment st parent type =
     obind (oassert (is_struct_or_union parent)) (\<lambda>_.
       if is_struct parent then
         obind (get_typetree_handle st (t_ref parent)) (\<lambda>t.
         obind (type_alignment st type) (\<lambda>align.
         if align = 0 then Inl Undefined_Behaviour
         else if tt_size t mod align \<noteq> 0 then
           (let size' = wrap64 (tt_size t + (align - tt_size t mod align)) in
            obind (oassert (size' mod align = 0)) (\<lambda>_.
              Inr (set_tree st (t_ref parent) (t\<lparr>tt_size := size'\<rparr>), size')))
         else Inr (st, tt_size t)))
       else Inr (st, 0))"

definition type_add_member :: "type_store \<Rightarrow> ctype \<Rightarrow> c_string \<Rightarrow> ctype \<Rightarrow> (type_store \<times> nat option) outcome" where
  "type_add_member st parent name type =
     obind (oassert (is_struct_or_union parent \<or> is_function parent)) (\<lambda>_.
     obind (if is_function parent then Inr (st, 0) else adjust_member_alignment st parent type) (\<lambda>(st1, off).
       add_member st1 parent (zero_member\<lparr>m_offset := off, m_name := name, m_type := type\<rparr>)))"

section \<open>Bit-fields\<close>

text \<open>The loop that gives the fields of the last storage unit a larger backing, from the end.\<close>

fun widen_backing :: "nat \<Rightarrow> int \<Rightarrow> nat \<Rightarrow> member list \<Rightarrow> member list" where
  "widen_backing off backing 0 ms = ms"
| "widen_backing off backing (Suc i) ms =
     (if m_field_width (ms ! i) \<noteq> 0 \<and> m_offset (ms ! i) = off
      then widen_backing off backing i (ms[i := (ms ! i)\<lparr>m_field_backing := backing\<rparr>])
      else ms)"

text \<open>The members and the field as packed behind the last one, or nothing.\<close>

definition pack_field_member :: "member list \<Rightarrow> member \<Rightarrow> (member list \<times> member) option" where
  "pack_field_member ms field =
     (if ms = [] then None
      else let l = last ms in
        if m_field_width l = 0 then None
        else
          let bits = m_field_offset l + m_field_width l + m_field_width field;
              packed = field\<lparr>m_offset := m_offset l, m_field_offset := m_field_offset l + m_field_width l\<rparr>
          in if bits \<le> m_field_backing l then Some (ms, packed\<lparr>m_field_backing := m_field_backing l\<rparr>)
             else if bits \<le> m_field_backing field
             then Some (widen_backing (m_offset l) (m_field_backing field) (length ms) ms, packed)
             else None)"

text \<open>
  \<open>type_add_field\<close> and \<open>reset_field_alignment\<close> call each other. Each is written
  over the other one as a parameter; three levels are enough to close the
  recursion, which lemma \<open>type_add_field_recursion\<close> of theory \<open>Typetree_Correct\<close> shows.
\<close>

definition pad_last_field_with ::
  "(type_store \<Rightarrow> ctype \<Rightarrow> c_string \<Rightarrow> ctype \<Rightarrow> nat \<Rightarrow> type_store outcome) \<Rightarrow>
   type_store \<Rightarrow> ctype \<Rightarrow> int \<Rightarrow> member \<Rightarrow> type_store outcome" where
  "pad_last_field_with add_field st type clear_bits m =
     (let bits = m_field_offset m + m_field_width m in
      if m_field_width m = 0 then Inr st
      else obind (backing_type_from_bits (m_field_backing m)) (\<lambda>backing.
        if clear_bits \<ge> m_field_backing m then
          obind (oassert (bits \<le> m_field_backing m)) (\<lambda>_.
            if bits \<noteq> m_field_backing m
            then add_field st type zero_string backing (nat (m_field_backing m - bits))
            else Inr st)
        else if bits > clear_bits then
          (if bits mod clear_bits \<noteq> 0
           then add_field st type zero_string backing (nat (bits mod clear_bits)) else Inr st)
        else add_field st type zero_string backing (nat (clear_bits - bits))))"

definition clear_struct_size :: "type_store \<Rightarrow> ctype \<Rightarrow> nat \<Rightarrow> type_store outcome" where
  "clear_struct_size st type clear_size =
     obind (get_typetree_handle st (t_ref type)) (\<lambda>t.
       if tt_size t < clear_size then Inr (set_tree st (t_ref type) (t\<lparr>tt_size := clear_size\<rparr>))
       else if tt_size t mod clear_size \<noteq> 0
       then Inr (set_tree st (t_ref type) (t\<lparr>tt_size := wrap64 (tt_size t + tt_size t mod clear_size)\<rparr>))
       else Inr st)"

definition reset_field_alignment_with ::
  "(type_store \<Rightarrow> ctype \<Rightarrow> c_string \<Rightarrow> ctype \<Rightarrow> nat \<Rightarrow> type_store outcome) \<Rightarrow>
   type_store \<Rightarrow> ctype \<Rightarrow> ctype \<Rightarrow> type_store outcome" where
  "reset_field_alignment_with add_field st type clear =
     obind (oassert (is_struct type)) (\<lambda>_.
     obind (get_typetree_handle st (t_ref type)) (\<lambda>t.
     if tt_members t = [] then Inr st
     else
       obind (size_of st clear) (\<lambda>clear_size.
       obind (pad_last_field_with add_field st type (int clear_size * 8) (last (tt_members t))) (\<lambda>st1.
         clear_struct_size st1 type clear_size))))"

definition place_field :: "type_store \<Rightarrow> ctype \<Rightarrow> ctype \<Rightarrow> member \<Rightarrow> (type_store \<times> member) outcome" where
  "place_field st parent type m =
     (if is_struct parent then
        obind (get_typetree_handle st (t_ref parent)) (\<lambda>t.
          case pack_field_member (tt_members t) m of
            Some (ms, m1) \<Rightarrow> Inr (set_tree st (t_ref parent) (t\<lparr>tt_members := ms\<rparr>), m1)
          | None \<Rightarrow>
              obind (adjust_member_alignment st parent type) (\<lambda>(st1, off).
                Inr (st1, m\<lparr>m_field_offset := 0, m_offset := off\<rparr>)))
      else Inr (st, m))"

definition type_add_field_with ::
  "(type_store \<Rightarrow> ctype \<Rightarrow> ctype \<Rightarrow> type_store outcome) \<Rightarrow>
   type_store \<Rightarrow> ctype \<Rightarrow> c_string \<Rightarrow> ctype \<Rightarrow> nat \<Rightarrow> type_store outcome" where
  "type_add_field_with reset st parent name type width =
     obind (oassert (is_struct_or_union parent)) (\<lambda>_.
     obind (oassert (is_integer type)) (\<lambda>_.
     obind (size_of st type) (\<lambda>sz.
     if width > sz * 8 \<or> is_bool type \<and> width > 1
     then Inl (Exit_Error ''Width of bit-field exceeds width of type.'')
     else if slen name \<noteq> 0 \<and> width = 0 then Inl (Exit_Error (''Zero length field '' @ str_chars name @ ''.''))
     else if is_union parent \<and> slen name = 0 then Inr st
     else
       obind (place_field st parent type
                (zero_member\<lparr>m_name := name, m_type := type, m_field_width := int width,
                   m_field_backing := int sz * 8\<rparr>)) (\<lambda>(st1, m).
         if width = 0 then reset st1 parent type
         else obind (add_member st1 parent m) (\<lambda>(st2, _). Inr st2)))))"

fun type_add_field_level ::
  "nat \<Rightarrow> type_store \<Rightarrow> ctype \<Rightarrow> c_string \<Rightarrow> ctype \<Rightarrow> nat \<Rightarrow> type_store outcome" where
  "type_add_field_level 0 = (\<lambda>st parent name type width. Inl Stack_Overflow)"
| "type_add_field_level (Suc n) = type_add_field_with (reset_field_alignment_with (type_add_field_level n))"

definition type_add_field :: "type_store \<Rightarrow> ctype \<Rightarrow> c_string \<Rightarrow> ctype \<Rightarrow> nat \<Rightarrow> type_store outcome" where
  "type_add_field = type_add_field_level 3"

definition reset_field_alignment :: "type_store \<Rightarrow> ctype \<Rightarrow> ctype \<Rightarrow> type_store outcome" where
  "reset_field_alignment = reset_field_alignment_with type_add_field"

section \<open>Anonymous members and sealing\<close>

text \<open>
  The loop over the members of the anonymous struct or union: member \<open>i\<close> is read
  from the store at every iteration, and handed to \<open>f\<close>.
\<close>

fun anonymous_loop ::
  "(type_store \<Rightarrow> member \<Rightarrow> (type_store \<times> nat option) outcome) \<Rightarrow> ctype \<Rightarrow> nat list \<Rightarrow> type_store \<Rightarrow>
   type_store outcome" where
  "anonymous_loop f type [] st = Inr st"
| "anonymous_loop f type (i # is) st =
     obind (get_member st type (int i)) (\<lambda>m. obind (f st m) (\<lambda>(st1, _). anonymous_loop f type is st1))"

definition type_add_anonymous_member :: "type_store \<Rightarrow> ctype \<Rightarrow> ctype \<Rightarrow> type_store outcome" where
  "type_add_anonymous_member st parent type =
     obind (oassert (is_struct_or_union parent)) (\<lambda>_.
     obind (oassert (is_struct_or_union type)) (\<lambda>_.
     obind (nmembers st type) (\<lambda>n.
     if is_struct parent \<and> is_union type then
       obind (adjust_member_alignment st parent type) (\<lambda>(st1, off).
         anonymous_loop (\<lambda>s m. add_member s parent (m\<lparr>m_offset := wrap64 (m_offset m + off)\<rparr>)) type [0..<n] st1)
     else if is_union parent \<and> is_struct type then
       anonymous_loop (\<lambda>s m. add_member s parent m) type [0..<n] st
     else
       anonymous_loop (\<lambda>s m. type_add_member s parent (m_name m) (m_type m)) type [0..<n] st)))"

text \<open>The loop runs from the last member to the first and erases those without a name.\<close>

fun remove_anonymous_loop :: "type_store \<Rightarrow> nat \<Rightarrow> member list \<Rightarrow> nat \<Rightarrow> (member list \<times> nat) outcome" where
  "remove_anonymous_loop st 0 ms maxalign = Inr (ms, maxalign)"
| "remove_anonymous_loop st (Suc i) ms maxalign =
     (if slen (m_name (ms ! i)) = 0 then remove_anonymous_loop st i (take i ms @ drop (Suc i) ms) maxalign
      else obind (type_alignment st (m_type (ms ! i))) (\<lambda>align.
        remove_anonymous_loop st i ms (if align > maxalign then align else maxalign)))"

definition remove_anonymous_fields :: "type_store \<Rightarrow> typetree \<Rightarrow> (typetree \<times> nat) outcome" where
  "remove_anonymous_fields st t =
     obind (remove_anonymous_loop st (length (tt_members t)) (tt_members t) 0) (\<lambda>(ms, align).
       Inr (t\<lparr>tt_members := ms\<rparr>, align))"

definition type_seal :: "type_store \<Rightarrow> ctype \<Rightarrow> type_store outcome" where
  "type_seal st type =
     obind (get_typetree_handle st (t_ref type)) (\<lambda>t.
     if tt_type t = T_FUNCTION then Inr (set_tree st (t_ref type) (t\<lparr>tt_incomplete := False\<rparr>))
     else
       obind (oassert (is_struct_or_union type)) (\<lambda>_.
       obind (remove_anonymous_fields st t) (\<lambda>(t1, align).
       if align = 0
       then Inl (Exit_Error ((if is_struct type then ''Struct'' else ''Union'') @ '' has no named members.''))
       else Inr (set_tree st (t_ref type)
              (if tt_size t1 mod align \<noteq> 0
               then t1\<lparr>tt_size := wrap64 (tt_size t1 + (align - tt_size t1 mod align))\<rparr> else t1)))))"

section \<open>Creating and changing types\<close>

definition type_create_pointer :: "type_store \<Rightarrow> ctype \<Rightarrow> (type_store \<times> ctype) outcome" where
  "type_create_pointer st next =
     (if t_pointer next then
        let (st1, type) = type_create st T_POINTER
        in obind (get_typetree_handle st1 (t_ref type)) (\<lambda>t.
             Inr (set_tree st1 (t_ref type)
                    (t\<lparr>tt_const := is_const next, tt_volatile := is_volatile next,
                       tt_next := (remove_qualifiers next)\<lparr>t_pointer := False\<rparr>\<rparr>), type))
      else Inr (st, next\<lparr>t_pointer := True\<rparr>))"

definition type_create_function :: "type_store \<Rightarrow> ctype \<Rightarrow> (type_store \<times> ctype) outcome" where
  "type_create_function st next =
     (let (st1, type) = type_create st T_FUNCTION
      in obind (get_typetree_handle st1 (t_ref type)) (\<lambda>t.
           Inr (set_tree st1 (t_ref type) (t\<lparr>tt_next := next, tt_incomplete := True\<rparr>), type)))"

definition type_create_array :: "type_store \<Rightarrow> ctype \<Rightarrow> nat \<Rightarrow> (type_store \<times> ctype) outcome" where
  "type_create_array st next count =
     obind (size_of st next) (\<lambda>sz.
     if wrap64 (count * sz) > LONGLONG_MAX
     then Inl (Exit_Error (''Array is too large ('' @ print_nat count @ '' elements).''))
     else
       let (st1, type) = type_create st T_ARRAY
       in obind (get_typetree_handle st1 (t_ref type)) (\<lambda>t.
            Inr (set_tree st1 (t_ref type) (t\<lparr>tt_size := count, tt_next := next\<rparr>), type)))"

definition type_create_incomplete :: "type_store \<Rightarrow> ctype \<Rightarrow> (type_store \<times> ctype) outcome" where
  "type_create_incomplete st next =
     (let (st1, type) = type_create st T_ARRAY
      in obind (get_typetree_handle st1 (t_ref type)) (\<lambda>t.
           Inr (set_tree st1 (t_ref type) (t\<lparr>tt_next := next, tt_incomplete := True\<rparr>), type)))"

definition type_create_vla :: "type_store \<Rightarrow> ctype \<Rightarrow> symref option \<Rightarrow> (type_store \<times> ctype) outcome" where
  "type_create_vla st next count =
     obind (oassert (count \<noteq> None)) (\<lambda>_.
     obind (type_create_array st next 0) (\<lambda>(st1, type).
     obind (get_typetree_handle st1 (t_ref type)) (\<lambda>t.
       Inr (set_tree st1 (t_ref type) (t\<lparr>tt_vlen := count, tt_vla := True\<rparr>), type))))"

text \<open>
  The assignment \<open>t->next = ...\<close> writes through a handle taken before the
  recursive call. When that call moved the block of trees, the handle dangles.
\<close>

fun type_patch_declarator_fuel ::
  "nat \<Rightarrow> type_store \<Rightarrow> ctype \<Rightarrow> ctype \<Rightarrow> (type_store \<times> ctype) outcome" where
  "type_patch_declarator_fuel 0 st head target = Inl Stack_Overflow"
| "type_patch_declarator_fuel (Suc n) st head target =
     (if is_void head then Inr (st, target)
      else if is_pointer head then
        obind (type_next st head) (\<lambda>next.
        obind (type_patch_declarator_fuel n st next target) (\<lambda>(st1, next1).
        obind (type_create_pointer st1 next1) (\<lambda>(st2, next2).
        obind (type_apply_qualifiers next2 head) (\<lambda>next3. Inr (st2, next3)))))
      else
        obind (oassert (is_function head \<or> is_array head)) (\<lambda>_.
        obind (get_typetree_handle st (t_ref head)) (\<lambda>t.
        obind (type_patch_declarator_fuel n st (tt_next t) target) (\<lambda>(st1, next1).
        if trees_cap st1 \<noteq> trees_cap st then Inl Undefined_Behaviour
        else obind (get_typetree_handle st1 (t_ref head)) (\<lambda>t1.
          Inr (set_tree st1 (t_ref head) (t1\<lparr>tt_next := next1\<rparr>), head))))))"

definition type_patch_declarator :: "type_store \<Rightarrow> ctype \<Rightarrow> ctype \<Rightarrow> (type_store \<times> ctype) outcome" where
  "type_patch_declarator st head target = type_patch_declarator_fuel (max_path st) st head target"

fun clean_members ::
  "(type_store \<Rightarrow> ctype \<Rightarrow> type_store outcome) \<Rightarrow> int \<Rightarrow> nat list \<Rightarrow> type_store \<Rightarrow> type_store outcome" where
  "clean_members f ref [] st = Inr st"
| "clean_members f ref (i # is) st =
     obind (get_typetree_handle st ref) (\<lambda>t.
     let m = (tt_members t ! i)\<lparr>m_sym := None\<rparr>;
         st1 = set_tree st ref (t\<lparr>tt_members := (tt_members t)[i := m]\<rparr>)
     in obind (f st1 (m_type m)) (clean_members f ref is))"

fun type_clean_prototype_fuel :: "nat \<Rightarrow> type_store \<Rightarrow> ctype \<Rightarrow> type_store outcome" where
  "type_clean_prototype_fuel 0 st type = Inl Stack_Overflow"
| "type_clean_prototype_fuel (Suc n) st type =
     (if is_pointer type then obind (type_next st type) (type_clean_prototype_fuel n st)
      else if is_array type then
        obind (get_typetree_handle st (t_ref type)) (\<lambda>t.
          let st1 = (if tt_vla t then set_tree st (t_ref type) (t\<lparr>tt_vlen := None\<rparr>) else st)
          in type_clean_prototype_fuel n st1 (tt_next t))
      else if is_struct_or_union type \<or> is_function type then
        obind (get_typetree_handle st (t_ref type)) (\<lambda>t.
          if is_struct_or_union type \<and> tt_tag t \<noteq> None then Inr st
          else clean_members (type_clean_prototype_fuel n) (t_ref type) [0..<length (tt_members t)] st)
      else Inr st)"

definition type_clean_prototype :: "type_store \<Rightarrow> ctype \<Rightarrow> type_store outcome" where
  "type_clean_prototype st type = type_clean_prototype_fuel (max_path st) st type"

definition type_set_tag :: "symbols \<Rightarrow> type_store \<Rightarrow> ctype \<Rightarrow> symref \<Rightarrow> type_store outcome" where
  "type_set_tag syms st type tag =
     obind (oassert (s_symtype (syms tag) = SYM_TAG \<or> s_symtype (syms tag) = SYM_TYPEDEF)) (\<lambda>_.
       if t_ref type \<noteq> 0 then
         obind (get_typetree_handle st (t_ref type)) (\<lambda>t.
           Inr (if tt_tag t = None \<or> s_symtype (syms tag) \<noteq> SYM_TYPEDEF
                then set_tree st (t_ref type) (t\<lparr>tt_tag := Some tag\<rparr>) else st))
       else Inr st)"

text \<open>
  The copy takes over the members by value. In the code both trees share the
  array of members; the parser copies arrays only, which have none.
\<close>

definition type_copy_incomplete :: "type_store \<Rightarrow> ctype \<Rightarrow> (type_store \<times> ctype) outcome" where
  "type_copy_incomplete st type =
     (let (st1, tp0) = type_create st (t_type type);
          tp = type\<lparr>t_ref := t_ref tp0\<rparr>
      in obind (get_typetree_handle st1 (t_ref type)) (\<lambda>tb.
         obind (get_typetree_handle st1 (t_ref tp)) (\<lambda>_.
           Inr (set_tree st1 (t_ref tp) (tb\<lparr>tt_incomplete := True\<rparr>), tp))))"

definition set_array_length :: "type_store \<Rightarrow> ctype \<Rightarrow> nat \<Rightarrow> type_store outcome" where
  "set_array_length st type n =
     obind (oassert (is_array type)) (\<lambda>_.
     obind (get_typetree_handle st (t_ref type)) (\<lambda>t.
     obind (oassert (tt_incomplete t)) (\<lambda>_.
       Inr (set_tree st (t_ref type) (t\<lparr>tt_size := n, tt_incomplete := False\<rparr>)))))"

section \<open>Comparing types\<close>

fun members_equal :: "(ctype \<Rightarrow> ctype \<Rightarrow> bool outcome) \<Rightarrow> bool \<Rightarrow> member list \<Rightarrow> member list \<Rightarrow> bool outcome" where
  "members_equal eq fn (a # as) (b # bs) =
     obind (eq (m_type a) (m_type b)) (\<lambda>e.
       if \<not> e then Inr False
       else if \<not> fn then
         obind (oassert (m_offset a = m_offset b)) (\<lambda>_.
           if str_cmp (m_name a) (m_name b) \<noteq> 0 then Inr False else members_equal eq fn as bs)
       else members_equal eq fn as bs)"
| "members_equal eq fn _ _ = Inr True"

definition typetree_equal :: "(ctype \<Rightarrow> ctype \<Rightarrow> bool outcome) \<Rightarrow> typetree \<Rightarrow> typetree \<Rightarrow> bool outcome" where
  "typetree_equal eq a b =
     (if tt_type a \<noteq> tt_type b \<or> tt_size a \<noteq> tt_size b \<or> tt_unsigned a \<noteq> tt_unsigned b
         \<or> tt_vararg a \<noteq> tt_vararg b \<or> tt_flexible a \<noteq> tt_flexible b \<or> tt_vla a \<noteq> tt_vla b
         \<or> tt_incomplete a \<noteq> tt_incomplete b
      then Inr False
      else if length (tt_members a) \<noteq> length (tt_members b) then Inr False
      else members_equal eq (tt_type a = T_FUNCTION) (tt_members a) (tt_members b))"

fun type_equal_fuel :: "nat \<Rightarrow> type_store \<Rightarrow> ctype \<Rightarrow> ctype \<Rightarrow> bool outcome" where
  "type_equal_fuel 0 st a b = Inl Stack_Overflow"
| "type_equal_fuel (Suc n) st a b =
     (if a = b then Inr True
      else if t_type a \<noteq> t_type b \<or> t_unsigned a \<noteq> t_unsigned b then Inr False
      else if (t_ref a = 0) \<noteq> (t_ref b = 0) then Inr False
      else if t_ref a \<noteq> 0 \<and> t_ref b \<noteq> 0 then
        obind (get_typetree_handle st (t_ref a)) (\<lambda>ta.
        obind (get_typetree_handle st (t_ref b)) (\<lambda>tb.
          typetree_equal (type_equal_fuel n st) ta tb))
      else Inr True)"

definition type_equal :: "type_store \<Rightarrow> ctype \<Rightarrow> ctype \<Rightarrow> bool outcome" where
  "type_equal st a b = type_equal_fuel (Suc (length (trees st) * length (trees st))) st a b"

fun is_compatible_fuel :: "nat \<Rightarrow> type_store \<Rightarrow> ctype \<Rightarrow> ctype \<Rightarrow> bool outcome" where
  "is_compatible_fuel 0 st l r = Inl Stack_Overflow"
| "is_compatible_fuel (Suc n) st l r =
     (if type_of l \<noteq> type_of r \<or> is_const l \<noteq> is_const r \<or> is_volatile l \<noteq> is_volatile r
         \<or> is_restrict l \<noteq> is_restrict r
      then Inr False
      else if is_arithmetic l then Inr True
      else if is_pointer l then
        obind (type_next st l) (\<lambda>l'. obind (type_next st r) (\<lambda>r'. is_compatible_fuel n st l' r'))
      else if is_array l then
        obind (type_array_len st l) (\<lambda>s1. obind (type_array_len st r) (\<lambda>s2.
          if s1 = 0 \<or> s2 = 0 \<or> s1 = s2
          then obind (type_next st l) (\<lambda>l'. obind (type_next st r) (\<lambda>r'. is_compatible_fuel n st l' r'))
          else Inr False))
      else if is_function l then
        obind (type_next st l) (\<lambda>l'. obind (type_next st r) (\<lambda>r'.
        obind (type_equal st l' r') (\<lambda>e.
          if \<not> e then Inr False
          else obind (is_complete st l) (\<lambda>cl. obind (if cl then is_complete st r else Inr False) (\<lambda>c.
            if \<not> c then Inr True else type_equal st l r)))))
      else type_equal st l r)"

text \<open>A pair of a path is given by two references, each with or without an outer pointer.\<close>

definition is_compatible :: "type_store \<Rightarrow> ctype \<Rightarrow> ctype \<Rightarrow> bool outcome" where
  "is_compatible st l r = is_compatible_fuel (max_path st * max_path st) st l r"

definition is_compatible_unqualified :: "type_store \<Rightarrow> ctype \<Rightarrow> ctype \<Rightarrow> bool outcome" where
  "is_compatible_unqualified st l r = is_compatible st (remove_qualifiers l) (remove_qualifiers r)"

definition promote_integer :: "type_store \<Rightarrow> ctype \<Rightarrow> ctype outcome" where
  "promote_integer st type =
     obind (oassert (is_integer type)) (\<lambda>_.
       obind (size_of st type) (\<lambda>sz. Inr (if sz < 4 then basic_type__int else type)))"

definition usual_arithmetic_conversion :: "type_store \<Rightarrow> ctype \<Rightarrow> ctype \<Rightarrow> ctype outcome" where
  "usual_arithmetic_conversion st t1 t2 =
     obind (oassert (is_arithmetic t1)) (\<lambda>_.
     obind (oassert (is_arithmetic t2)) (\<lambda>_.
     obind (if is_long_double t1 \<or> is_long_double t2 then Inr basic_type__long_double
            else if is_double t1 \<or> is_double t2 then Inr basic_type__double
            else if is_float t1 \<or> is_float t2 then Inr basic_type__float
            else
              obind (promote_integer st t1) (\<lambda>p1. obind (promote_integer st t2) (\<lambda>p2.
              obind (size_of st p1) (\<lambda>s1. obind (size_of st p2) (\<lambda>s2.
                Inr (if s1 > s2 then p1 else if s2 > s1 then p2 else if is_unsigned p1 then p1 else p2)))))) (\<lambda>res.
       Inr (remove_qualifiers res))))"

section \<open>Printing and clearing\<close>

text \<open>
  The text that \<open>fprinttype\<close> writes; the count it returns is not modelled. The
  branch for each type is a definition of its own over the recursive call \<open>pr\<close>.
\<close>

definition type_keyword :: "type_tag \<Rightarrow> string" where
  "type_keyword tt =
     (case tt of T_VOID \<Rightarrow> ''void'' | T_BOOL \<Rightarrow> ''_Bool'' | T_CHAR \<Rightarrow> ''char'' | T_SHORT \<Rightarrow> ''short''
      | T_INT \<Rightarrow> ''int'' | T_LONG \<Rightarrow> ''long'' | T_FLOAT \<Rightarrow> ''float'' | T_DOUBLE \<Rightarrow> ''double''
      | T_LDOUBLE \<Rightarrow> ''long double'' | _ \<Rightarrow> [])"

definition print_qualifiers :: "ctype \<Rightarrow> string" where
  "print_qualifiers type =
     (if is_const type then ''const '' else []) @ (if is_volatile type then ''volatile '' else []) @
     (if is_restrict type then ''restrict '' else []) @
     (if is_unsigned type \<and> \<not> is_bool type then ''unsigned '' else [])"

fun print_separated :: "('a \<Rightarrow> string outcome) \<Rightarrow> 'a list \<Rightarrow> string outcome" where
  "print_separated f [] = Inr []"
| "print_separated f [x] = f x"
| "print_separated f (x # y # xs) =
     obind (f x) (\<lambda>s. obind (print_separated f (y # xs)) (\<lambda>r. Inr (s @ '', '' @ r)))"

definition print_parameter :: "(ctype \<Rightarrow> string outcome) \<Rightarrow> member \<Rightarrow> string outcome" where
  "print_parameter pr m =
     obind (if m_offset m \<noteq> 0
            then obind (oassert (is_pointer (m_type m))) (\<lambda>_. Inr (''static('' @ print_nat (m_offset m) @ '') ''))
            else Inr []) (\<lambda>s. obind (pr (m_type m)) (\<lambda>r. Inr (s @ r)))"

definition print_function :: "(ctype \<Rightarrow> string outcome) \<Rightarrow> typetree \<Rightarrow> string outcome" where
  "print_function pr t =
     obind (if \<not> tt_incomplete t \<and> tt_members t = [] then Inr ''void''
            else obind (print_separated (print_parameter pr) (tt_members t)) (\<lambda>s.
              Inr (s @ (if tt_vararg t then '', ...'' else [])))) (\<lambda>s.
     obind (pr (tt_next t)) (\<lambda>r. Inr (''('' @ s @ '') -> '' @ r)))"

definition print_array :: "symbols \<Rightarrow> (ctype \<Rightarrow> string outcome) \<Rightarrow> typetree \<Rightarrow> string outcome" where
  "print_array syms pr t =
     obind (if tt_vla t then
              (case tt_vlen t of
                 Some v \<Rightarrow> obind (sym_name (syms v)) (\<lambda>n. Inr (''['' @ n @ ''] ''))
               | None \<Rightarrow> Inr ''[*] '')
            else if tt_incomplete t then Inr ''[] ''
            else Inr (''['' @ print_nat (tt_size t) @ ''] '')) (\<lambda>s.
     obind (pr (tt_next t)) (\<lambda>r. Inr (s @ r)))"

definition print_field :: "(ctype \<Rightarrow> string outcome) \<Rightarrow> member \<Rightarrow> string outcome" where
  "print_field pr m =
     obind (pr (m_type m)) (\<lambda>r.
       Inr (''.'' @ str_chars (m_name m) @ ''::'' @ r @
         (if m_field_width m \<noteq> 0
          then '' (+'' @ print_nat (m_offset m) @ '':'' @ print_int (m_field_offset m) @ '':'' @
               print_int (m_field_width m) @ ''):'' @ print_int (m_field_backing m)
          else '' (+'' @ print_nat (m_offset m) @ '')'')))"

definition print_aggregate ::
  "symbols \<Rightarrow> (ctype \<Rightarrow> string outcome) \<Rightarrow> bool \<Rightarrow> symref option \<Rightarrow> typetree \<Rightarrow> string outcome" where
  "print_aggregate syms pr un expand t =
     (case tt_tag t of
        Some tag \<Rightarrow>
          if Some tag \<noteq> expand then
            (if s_symtype (syms tag) = SYM_TAG
             then obind (sym_name (syms tag)) (\<lambda>n. Inr ((if un then ''union '' else ''struct '') @ n))
             else obind (oassert (s_symtype (syms tag) = SYM_TYPEDEF)) (\<lambda>_. sym_name (syms tag)))
          else obind (print_separated (print_field pr) (tt_members t)) (\<lambda>s. Inr (''{'' @ s @ ''}''))
      | None \<Rightarrow> obind (print_separated (print_field pr) (tt_members t)) (\<lambda>s. Inr (''{'' @ s @ ''}'')))"

fun fprinttype_fuel :: "nat \<Rightarrow> symbols \<Rightarrow> type_store \<Rightarrow> ctype \<Rightarrow> symref option \<Rightarrow> string outcome" where
  "fprinttype_fuel 0 syms st type expand = Inl Stack_Overflow"
| "fprinttype_fuel (Suc n) syms st type expand =
     obind
       (if is_pointer type then
          obind (type_deref st type) (\<lambda>d. obind (fprinttype_fuel n syms st d None) (\<lambda>s. Inr (''* '' @ s)))
        else if is_function type \<or> is_array type \<or> is_struct_or_union type then
          obind (get_typetree_handle st (t_ref type)) (\<lambda>t.
            let pr = (\<lambda>ty. fprinttype_fuel n syms st ty None)
            in if is_function type then print_function pr t
               else if is_array type then print_array syms pr t
               else print_aggregate syms pr (is_union type) expand t)
        else Inr (type_keyword (type_of type)))
       (\<lambda>s. Inr (print_qualifiers type @ s))"

definition fprinttype :: "symbols \<Rightarrow> type_store \<Rightarrow> ctype \<Rightarrow> symref option \<Rightarrow> string outcome" where
  "fprinttype syms st type expand = fprinttype_fuel (max_path st) syms st type expand"

fun print_types :: "symbols \<Rightarrow> type_store \<Rightarrow> nat list \<Rightarrow> string outcome" where
  "print_types syms st [] = Inr []"
| "print_types syms st (i # is) =
     obind (get_type_handle st (int i + 1)) (\<lambda>type.
     obind (fprinttype syms st type None) (\<lambda>s.
     obind (print_types syms st is) (\<lambda>r. Inr (s @ [CHR 0x0A] @ r))))"

text \<open>Clearing returns what it prints when given a stream, and the empty list of types.\<close>

definition clear_types :: "symbols \<Rightarrow> bool \<Rightarrow> type_store \<Rightarrow> (type_store \<times> string) outcome" where
  "clear_types syms stream st =
     obind (if stream then print_types syms st [0..<length (trees st)] else Inr []) (\<lambda>s.
       Inr (empty_types, s))"

end
