(* ===== verification/Symtab.thy ===== *)
theory Symtab
  imports Typetree Hash_Table
begin

text \<open>
  The symbol table of \<open>src/parser/symtab.c\<close>: name spaces with a stack of scopes, each
  a hash table that is set up when its first symbol arrives, the declaration and
  redeclaration of symbols, and the symbols that the compiler makes up. Static
  variables of the code are fields of the record \<open>symtab\<close>. A symbol that is freed
  keeps its number. The counters that number generated symbols do not reach
  the maximum of \<open>int\<close>; they are stored in 16 bits. Verbose output is not modelled.
\<close>

section \<open>State\<close>

datatype scope_state = SCOPE_CREATED | SCOPE_DIRTY | SCOPE_INITIALIZED

record scope =
  sco_table :: "symref hash_table"
  sco_state :: scope_state

text \<open>
  The list holds all scopes that were ever pushed, \<open>max_scope_depth\<close> of them; those from
  \<open>ns_depth\<close> on are kept for reuse.
\<close>

record namespace =
  ns_symbol :: "symref list"
  ns_scope :: "scope list"
  ns_depth :: nat
  ns_cursor :: nat

datatype ns_id = Ns_ident | Ns_label | Ns_tag

datatype decltype = DECL_NORMAL | DECL_FUNCBODY

record symtab =
  sy_heap :: symbols
  sy_next :: symref
  sy_temporaries :: "symref list"
  sy_types :: type_store
  ns_ident :: namespace
  ns_label :: namespace
  ns_tag :: namespace
  string_types :: "(nat \<times> ctype) list"
  decl_memcpy :: "symref option"
  sy_functions :: "symref hash_table option"
  global_offset :: int
  n_add :: nat
  n_temporary :: nat
  n_unnamed :: nat
  n_label :: nat
  n_constant :: nat
  n_string :: nat
  n_table :: nat
  sy_errors :: "string list"

fun get_ns :: "ns_id \<Rightarrow> symtab \<Rightarrow> namespace" where
  "get_ns Ns_ident st = ns_ident st"
| "get_ns Ns_label st = ns_label st"
| "get_ns Ns_tag st = ns_tag st"

fun put_ns :: "ns_id \<Rightarrow> namespace \<Rightarrow> symtab \<Rightarrow> symtab" where
  "put_ns Ns_ident ns st = st\<lparr>ns_ident := ns\<rparr>"
| "put_ns Ns_label ns st = st\<lparr>ns_label := ns\<rparr>"
| "put_ns Ns_tag ns st = st\<lparr>ns_tag := ns\<rparr>"

definition update_symbol :: "symref \<Rightarrow> (symbol \<Rightarrow> symbol) \<Rightarrow> symtab \<Rightarrow> symtab" where
  "update_symbol r f st = st\<lparr>sy_heap := (sy_heap st)(r := f (sy_heap st r))\<rparr>"

text \<open>Conversion to a 16-bit field, and of such a field to \<open>unsigned\<close>.\<close>

definition int16 :: "int \<Rightarrow> int" where
  "int16 x = (x + 32768) mod 65536 - 32768"

definition unsigned_of :: "int \<Rightarrow> int" where
  "unsigned_of x = x mod 2 ^ 32"

section \<open>Allocation\<close>

definition zero_symbol :: symbol where
  "zero_symbol = \<lparr>s_name = zero_string, s_type = zero_type, s_symtype = SYM_DEFINITION, s_linkage = LINK_NONE,
     s_referenced = False, s_slot = 0, s_index = 0, s_n = 0, s_depth = 0, s_stack_offset = 0, s_global_offset = 0,
     s_value = No_Value\<rparr>"

definition alloc_sym :: "symtab \<Rightarrow> symtab \<times> symref" where
  "alloc_sym st =
     (let (st1, r) =
        (if sy_temporaries st \<noteq> []
         then (st\<lparr>sy_temporaries := butlast (sy_temporaries st)\<rparr>, last (sy_temporaries st))
         else (st\<lparr>sy_next := sy_next st + 1\<rparr>, sy_next st))
      in (update_symbol r (\<lambda>_. zero_symbol\<lparr>s_global_offset := -1\<rparr>) st1, r))"

definition sym_discard :: "symtab \<Rightarrow> symref \<Rightarrow> symtab" where
  "sym_discard st r = st\<lparr>sy_temporaries := sy_temporaries st @ [r]\<rparr>"

definition add_global_variable_size :: "symtab \<Rightarrow> int \<Rightarrow> symtab" where
  "add_global_variable_size st sz =
     (if sz > 0 then st\<lparr>global_offset := global_offset st + PAD8 sz\<rparr> else st)"

definition get_string_type :: "symtab \<Rightarrow> nat \<Rightarrow> (symtab \<times> ctype) outcome" where
  "get_string_type st len =
     (case map_of (string_types st) len of
        Some t \<Rightarrow> Inr (st, t)
      | None \<Rightarrow>
          obind (type_create_array (sy_types st) basic_type__char len) (\<lambda>(ts, t).
            Inr (st\<lparr>sy_types := ts, string_types := string_types st @ [(len, t)]\<rparr>, t)))"

section \<open>Scopes\<close>

text \<open>An error message with the quoted name of the symbol in it.\<close>

definition quote_name :: "string \<Rightarrow> string" where
  "quote_name n = CHR 0x27 # n @ [CHR 0x27]"

definition sym_error :: "symbol \<Rightarrow> string \<Rightarrow> string \<Rightarrow> 'a outcome" where
  "sym_error s pre post = obind (sym_name s) (\<lambda>n. Inl (Exit_Error (pre @ quote_name n @ post)))"

definition sym_hash_key :: "symbols \<Rightarrow> symref \<Rightarrow> c_string" where
  "sym_hash_key h r = s_name (h r)"

definition current_scope_hash_cap :: "namespace \<Rightarrow> nat outcome" where
  "current_scope_hash_cap ns =
     obind (oassert (ns_depth ns > 0)) (\<lambda>_.
       Inr (if ns_depth ns < 6 then [256, 16, 128, 64, 32, 16] ! (ns_depth ns - 1) else 8))"

definition empty_scope :: scope where
  "empty_scope = \<lparr>sco_table = \<lparr>hcap = 0, htable = [], hfree = [], hdeleted = []\<rparr>, sco_state = SCOPE_CREATED\<rparr>"

definition push_scope :: "namespace \<Rightarrow> namespace" where
  "push_scope ns =
     (let d = ns_depth ns in
      if d < length (ns_scope ns) then
        ns\<lparr>ns_depth := d + 1, ns_scope :=
          (if sco_state (ns_scope ns ! d) = SCOPE_INITIALIZED
           then (ns_scope ns)[d := (ns_scope ns ! d)\<lparr>sco_state := SCOPE_DIRTY\<rparr>] else ns_scope ns)\<rparr>
      else ns\<lparr>ns_depth := d + 1, ns_scope := ns_scope ns @ [empty_scope]\<rparr>)"

fun destroy_scopes :: "scope list \<Rightarrow> unit outcome" where
  "destroy_scopes [] = Inr ()"
| "destroy_scopes (s # ss) =
     obind (if sco_state s \<noteq> SCOPE_CREATED then obind (hash_destroy (sco_table s)) (\<lambda>_. Inr ()) else Inr ()) (\<lambda>_.
       destroy_scopes ss)"

text \<open>The labels of a function that were used and never defined are reported.\<close>

fun undefined_labels :: "symbols \<Rightarrow> symref list \<Rightarrow> string list outcome" where
  "undefined_labels h [] = Inr []"
| "undefined_labels h (r # rs) =
     obind (if s_symtype (h r) = SYM_TENTATIVE
            then obind (sym_name (h r)) (\<lambda>n. Inr [''Undefined label '' @ quote_name n @ ''.'']) else Inr []) (\<lambda>es.
     obind (undefined_labels h rs) (\<lambda>fs. Inr (es @ fs)))"

definition symtab_reset_buffers :: "symtab \<Rightarrow> symtab outcome" where
  "symtab_reset_buffers st =
     (case sy_functions st of
        None \<Rightarrow> Inl Assert_Failed
      | Some t \<Rightarrow>
          obind (hash_clear t) (\<lambda>t'.
            Inr (st\<lparr>ns_tag := (ns_tag st)\<lparr>ns_cursor := 0\<rparr>, ns_ident := (ns_ident st)\<lparr>ns_cursor := 0\<rparr>,
              ns_label := (ns_label st)\<lparr>ns_cursor := 0\<rparr>, decl_memcpy := None, string_types := [],
              sy_functions := Some t'\<rparr>)))"

definition pop_scope :: "ns_id \<Rightarrow> symtab \<Rightarrow> symtab outcome" where
  "pop_scope i st =
     (let ns = get_ns i st in
      obind (oassert (ns_depth ns > 0)) (\<lambda>_.
        if ns_depth ns = 1 then
          obind (destroy_scopes (ns_scope ns)) (\<lambda>_.
          obind (if i = Ns_label then undefined_labels (sy_heap st) (ns_symbol ns) else Inr []) (\<lambda>es.
            let st1 = (put_ns i (ns\<lparr>ns_scope := [], ns_depth := 0, ns_symbol := []\<rparr>) st)\<lparr>sy_errors := sy_errors st @ es\<rparr> in
            if i = Ns_ident then symtab_reset_buffers st1 else Inr st1))
        else Inr (put_ns i (ns\<lparr>ns_depth := ns_depth ns - 1\<rparr>) st)))"

definition current_scope_depth :: "namespace \<Rightarrow> nat outcome" where
  "current_scope_depth ns = obind (oassert (ns_depth ns > 0)) (\<lambda>_. Inr (ns_depth ns - 1))"

text \<open>The scopes that are in use, the innermost first.\<close>

definition active_scopes :: "namespace \<Rightarrow> scope list" where
  "active_scopes ns = rev (take (ns_depth ns) (ns_scope ns))"

fun lookup_scopes :: "(symref \<Rightarrow> c_string) \<Rightarrow> scope list \<Rightarrow> c_string \<Rightarrow> symref option outcome" where
  "lookup_scopes key [] name = Inr None"
| "lookup_scopes key (s # ss) name =
     (if sco_state s = SCOPE_INITIALIZED then
        obind (hash_lookup key (sco_table s) name) (\<lambda>r.
          case r of Some x \<Rightarrow> Inr (Some x) | None \<Rightarrow> lookup_scopes key ss name)
      else lookup_scopes key ss name)"

definition sym_lookup :: "ns_id \<Rightarrow> symtab \<Rightarrow> c_string \<Rightarrow> (symtab \<times> symref option) outcome" where
  "sym_lookup i st name =
     obind (lookup_scopes (sym_hash_key (sy_heap st)) (active_scopes (get_ns i st)) name) (\<lambda>r.
       case r of
         Some x \<Rightarrow> Inr (update_symbol x (\<lambda>s. s\<lparr>s_referenced := True\<rparr>) st, Some x)
       | None \<Rightarrow> Inr (st, None))"

definition sym_make_visible :: "ns_id \<Rightarrow> symtab \<Rightarrow> symref \<Rightarrow> symtab outcome" where
  "sym_make_visible i st r =
     (let ns = get_ns i st; d = ns_depth ns - 1; s = ns_scope ns ! d in
      if ns_depth ns = 0 then Inl Undefined_Behaviour
      else
        obind (case sco_state s of
                 SCOPE_CREATED \<Rightarrow> obind (current_scope_hash_cap ns) hash_init
               | SCOPE_DIRTY \<Rightarrow> hash_clear (sco_table s)
               | SCOPE_INITIALIZED \<Rightarrow> Inr (sco_table s)) (\<lambda>t.
        obind (hash_insert (sym_hash_key (sy_heap st)) (\<lambda>x. x) t r) (\<lambda>(t', _).
          Inr (put_ns i (ns\<lparr>ns_scope := (ns_scope ns)[d := \<lparr>sco_table = t', sco_state = SCOPE_INITIALIZED\<rparr>]\<rparr>) st))))"

section \<open>Declarations\<close>

definition sym_lookup_function :: "symtab \<Rightarrow> c_string \<Rightarrow> (symtab \<times> symref option) outcome" where
  "sym_lookup_function st name =
     obind (case sy_functions st of None \<Rightarrow> hash_init 1024 | Some t \<Rightarrow> Inr t) (\<lambda>t.
     obind (hash_lookup (sym_hash_key (sy_heap st)) t name) (\<lambda>r.
       Inr (st\<lparr>sy_functions := Some t\<rparr>, r)))"

text \<open>Whether two functions return the same type, or two arrays have the same elements.\<close>

definition same_next :: "type_store \<Rightarrow> ctype \<Rightarrow> ctype \<Rightarrow> bool outcome" where
  "same_next ts a b = obind (type_next ts a) (\<lambda>x. obind (type_next ts b) (\<lambda>y. type_equal ts x y))"

definition sym_check_type :: "symtab \<Rightarrow> symref \<Rightarrow> ctype \<Rightarrow> symtab outcome" where
  "sym_check_type st r type =
     obind (type_equal (sy_types st) (s_type (sy_heap st r)) type) (\<lambda>eq.
       if eq then Inr st else sym_error (sy_heap st r) [] '' declared with different types.'')"

definition sym_apply_type :: "symtab \<Rightarrow> symref \<Rightarrow> ctype \<Rightarrow> symtab outcome" where
  "sym_apply_type st r type =
     (let ts = sy_types st; old = s_type (sy_heap st r) in
      obind (if is_function old \<and> is_function type then same_next ts old type else Inr False) (\<lambda>fn.
        if fn then
          obind (is_complete ts old) (\<lambda>co.
            if \<not> co then sym_check_type (update_symbol r (\<lambda>s. s\<lparr>s_type := type\<rparr>) st) r type
            else obind (is_complete ts type) (\<lambda>ct.
              if \<not> ct then Inr st
              else obind (is_compatible ts old type) (\<lambda>comp.
                sym_check_type (if comp then update_symbol r (\<lambda>s. s\<lparr>s_type := type\<rparr>) st else st) r type)))
        else if is_array old \<and> is_array type then
          obind (same_next ts old type) (\<lambda>eq.
            if eq then
              obind (is_complete ts old) (\<lambda>co. obind (is_complete ts type) (\<lambda>ct.
                if \<not> co \<and> ct then
                  obind (type_array_len ts type) (\<lambda>n. obind (set_array_length ts old n) (\<lambda>ts'.
                    sym_check_type (st\<lparr>sy_types := ts'\<rparr>) r type))
                else if \<not> ct then Inr st
                else sym_check_type st r type))
            else sym_check_type st r type)
        else sym_check_type st r type))"

text \<open>The first switch of \<open>sym_redeclare\<close>, over the linkage of the new declaration.\<close>

definition redeclare_linkage :: "ns_id \<Rightarrow> symtab \<Rightarrow> symref \<Rightarrow> symtype \<Rightarrow> linkage \<Rightarrow> symtab outcome" where
  "redeclare_linkage i st r symtype linkage =
     (let s = sy_heap st r in
      case linkage of
        LINK_INTERN \<Rightarrow>
          (if s_linkage s = LINK_EXTERN then sym_error s [] '' was previously defined non-static.''
           else Inr (update_symbol r (\<lambda>s. s\<lparr>s_linkage := LINK_INTERN\<rparr>) st))
      | LINK_EXTERN \<Rightarrow>
          (if s_linkage s = LINK_INTERN \<and> (symtype = SYM_DEFINITION \<or> symtype = SYM_TENTATIVE)
           then sym_error s [] '' was previously declared static.'' else Inr st)
      | LINK_NONE \<Rightarrow>
          obind (current_scope_depth (get_ns i st)) (\<lambda>d.
            if unsigned_of (s_depth s) = int d \<and> s_depth s \<noteq> 0 then sym_error s ''Duplicate definition of '' ''.''
            else Inr st))"

text \<open>The second switch, over the kind of symbol. The kinds it does not list fall through it.\<close>

definition redeclare_symtype :: "symtab \<Rightarrow> symref \<Rightarrow> ctype \<Rightarrow> symtype \<Rightarrow> decltype \<Rightarrow> symtab outcome" where
  "redeclare_symtype st r type symtype decltype =
     (let s = sy_heap st r in
      if symtype = SYM_TENTATIVE \<or> symtype = SYM_DECLARATION then
        (let st1 = (if symtype = SYM_TENTATIVE \<and> s_symtype s = SYM_DECLARATION
                    then update_symbol r (\<lambda>s. s\<lparr>s_symtype := SYM_TENTATIVE\<rparr>) st else st)
         in if s_symtype (sy_heap st1 r) = SYM_DEFINITION then
              obind (type_equal (sy_types st1) (s_type s) type) (\<lambda>eq.
                if \<not> eq then sym_error s [] '' redeclared with different type.''
                else if is_function (s_type s) \<and> decltype = DECL_FUNCBODY then sym_error s ''The function '' '' already has a body.''
                else Inr st1)
            else sym_apply_type st1 r type)
      else if symtype = SYM_DEFINITION then
        sym_apply_type (update_symbol r (\<lambda>s. s\<lparr>s_symtype := SYM_DEFINITION\<rparr>) st) r type
      else if symtype = SYM_TAG \<or> symtype = SYM_TYPEDEF \<or> symtype = SYM_CONSTANT then
        (if s_symtype s \<noteq> symtype then sym_error s ''Conflicting declaration of '' ''.''
         else obind (type_equal (sy_types st) (s_type s) type) (\<lambda>eq.
           if eq then Inr st else sym_error s ''Conflicting declaration of '' ''.''))
      else if symtype = SYM_LABEL \<or> symtype = SYM_STRING_VALUE then Inl Assert_Failed
      else Inr st)"

definition sym_redeclare ::
  "ns_id \<Rightarrow> symtab \<Rightarrow> symref \<Rightarrow> ctype \<Rightarrow> symtype \<Rightarrow> linkage \<Rightarrow> decltype \<Rightarrow> (symtab \<times> symref) outcome" where
  "sym_redeclare i st r type symtype linkage decltype =
     obind (redeclare_linkage i st r symtype linkage) (\<lambda>st1.
     obind (redeclare_symtype st1 r type symtype decltype) (\<lambda>st2. Inr (st2, r)))"

text \<open>The part of \<open>sym_add\<close> that makes a new symbol.\<close>

definition sym_insert_new ::
  "ns_id \<Rightarrow> symtab \<Rightarrow> c_string \<Rightarrow> ctype \<Rightarrow> symtype \<Rightarrow> linkage \<Rightarrow> nat \<Rightarrow> (symtab \<times> symref) outcome" where
  "sym_insert_new i st name type symtype linkage depth =
     (let (st1, r) = alloc_sym st;
          st2 = update_symbol r (\<lambda>s. s\<lparr>s_depth := int16 (int depth), s_name := name, s_type := type,
            s_symtype := symtype, s_linkage := linkage\<rparr>) st1;
          st3 = (if decl_memcpy st2 = None \<and> str_cmp (str_init ''memcpy'') name = 0 then st2\<lparr>decl_memcpy := Some r\<rparr> else st2);
          st4 = (if linkage = LINK_INTERN \<and> int16 (int depth) \<noteq> 0
                 then update_symbol r (\<lambda>s. s\<lparr>s_n := int16 (int (n_add st3 + 1))\<rparr>) (st3\<lparr>n_add := n_add st3 + 1\<rparr>) else st3)
      in obind (if symtype = SYM_TAG \<or> symtype = SYM_TYPEDEF
                then obind (type_set_tag (sy_heap st4) (sy_types st4) type r) (\<lambda>ts. Inr (st4\<lparr>sy_types := ts\<rparr>))
                else Inr st4) (\<lambda>st5.
         obind (sym_make_visible i
             (put_ns i ((get_ns i st5)\<lparr>ns_symbol := ns_symbol (get_ns i st5) @ [r]\<rparr>) st5) r) (\<lambda>st6.
         if symtype \<noteq> SYM_TYPEDEF \<and> is_function type then
           (case sy_functions st6 of
              None \<Rightarrow> Inl Undefined_Behaviour
            | Some t \<Rightarrow> obind (hash_insert (sym_hash_key (sy_heap st6)) (\<lambda>x. x) t r) (\<lambda>(t', _).
                Inr (st6\<lparr>sy_functions := Some t'\<rparr>, r)))
         else Inr (st6, r))))"

definition sym_add ::
  "ns_id \<Rightarrow> symtab \<Rightarrow> c_string \<Rightarrow> ctype \<Rightarrow> symtype \<Rightarrow> linkage \<Rightarrow> decltype \<Rightarrow> (symtab \<times> symref) outcome" where
  "sym_add i st name type symtype linkage decltype =
     obind (oassert (symtype \<noteq> SYM_LABEL)) (\<lambda>_.
     obind (oassert (symtype = SYM_TAG \<longrightarrow> i = Ns_tag)) (\<lambda>_.
     obind (sym_lookup i st name) (\<lambda>(st1, found).
     obind (current_scope_depth (get_ns i st1)) (\<lambda>depth.
       case found of
         None \<Rightarrow>
           if symtype \<noteq> SYM_TYPEDEF \<and> is_function type then
             obind (oassert (i = Ns_ident)) (\<lambda>_.
             obind (sym_lookup_function st1 name) (\<lambda>(st2, fn).
               case fn of
                 Some r \<Rightarrow>
                   obind (sym_apply_type st2 r type) (\<lambda>st3.
                   obind (sym_make_visible i st3 r) (\<lambda>st4.
                     Inr (if int depth < unsigned_of (s_depth (sy_heap st4 r))
                          then update_symbol r (\<lambda>s. s\<lparr>s_depth := int16 (int depth)\<rparr>) st4 else st4, r)))
               | None \<Rightarrow> sym_insert_new i st2 name type symtype linkage depth))
           else sym_insert_new i st1 name type symtype linkage depth
       | Some r \<Rightarrow>
           if (depth = 0 \<or> linkage = LINK_EXTERN) \<and> s_depth (sy_heap st1 r) = 0
           then sym_redeclare i st1 r type symtype linkage decltype
           else sym_insert_new i st1 name type symtype linkage depth))))"

section \<open>Generated symbols\<close>

definition sym_create_temporary :: "symtab \<Rightarrow> ctype \<Rightarrow> symtab \<times> symref" where
  "sym_create_temporary st type =
     (let (st1, r) = alloc_sym st; n = n_temporary st1 + 1
      in (update_symbol r (\<lambda>s. s\<lparr>s_symtype := SYM_DEFINITION, s_linkage := LINK_NONE, s_name := str_init ''.t'',
            s_type := type, s_n := int16 (int n)\<rparr>) (st1\<lparr>n_temporary := n\<rparr>), r))"

definition push_ident :: "symref \<Rightarrow> symtab \<Rightarrow> symtab" where
  "push_ident r st = st\<lparr>ns_ident := (ns_ident st)\<lparr>ns_symbol := ns_symbol (ns_ident st) @ [r]\<rparr>\<rparr>"

definition sym_create_unnamed :: "symtab \<Rightarrow> ctype \<Rightarrow> (symtab \<times> symref) outcome" where
  "sym_create_unnamed st type =
     (let (st1, r) = alloc_sym st; n = n_unnamed st1 + 1 in
      obind (current_scope_depth (ns_ident st1)) (\<lambda>d.
        Inr (push_ident r (update_symbol r (\<lambda>s. s\<lparr>s_linkage := (if d = 0 then LINK_INTERN else LINK_NONE),
          s_symtype := SYM_DEFINITION, s_name := str_init ''.u'', s_type := type, s_n := int16 (int n)\<rparr>)
          (st1\<lparr>n_unnamed := n\<rparr>)), r)))"

definition sym_create_label :: "symtab \<Rightarrow> symtab \<times> symref" where
  "sym_create_label st =
     (let (st1, r) = alloc_sym st; n = n_label st1 + 1
      in (update_symbol r (\<lambda>s. s\<lparr>s_type := basic_type__void, s_symtype := SYM_LABEL, s_linkage := LINK_INTERN,
            s_name := str_init ''.L'', s_n := int16 (int n)\<rparr>) (st1\<lparr>n_label := n\<rparr>), r))"

definition sym_create_constant :: "symtab \<Rightarrow> ctype \<Rightarrow> cvalue \<Rightarrow> symtab \<times> symref" where
  "sym_create_constant st type v =
     (let (st1, r) = alloc_sym st; n = n_constant st1 + 1
      in (push_ident r (update_symbol r (\<lambda>s. s\<lparr>s_type := type, s_value := Constant v, s_symtype := SYM_CONSTANT,
            s_linkage := LINK_INTERN, s_name := str_init ''.C'', s_n := int16 (int n)\<rparr>) (st1\<lparr>n_constant := n\<rparr>)), r))"

definition sym_create_string :: "symtab \<Rightarrow> c_string \<Rightarrow> (symtab \<times> symref) outcome" where
  "sym_create_string st str =
     (let (st1, r) = alloc_sym st; n = n_string st1 + 1 in
      obind (get_string_type st1 (unat (slen str) + 1)) (\<lambda>(st2, type).
        Inr (push_ident r (update_symbol r (\<lambda>s. s\<lparr>s_type := type, s_value := String_Value str, s_symtype := SYM_STRING_VALUE,
            s_linkage := LINK_INTERN, s_name := str_init ''.LC'', s_n := int16 (int n)\<rparr>) (st2\<lparr>n_string := n\<rparr>)), r)))"

definition sym_create_table :: "symtab \<Rightarrow> symtab \<times> symref" where
  "sym_create_table st =
     (let (st1, r) = alloc_sym st; n = n_table st1 + 1
      in (push_ident r (update_symbol r (\<lambda>s. s\<lparr>s_symtype := SYM_TABLE, s_linkage := LINK_INTERN,
            s_name := str_init ''.T'', s_n := int16 (int n)\<rparr>) (st1\<lparr>n_table := n\<rparr>)), r))"

definition sym_create_table_entry :: "symtab \<Rightarrow> symref \<Rightarrow> (symtab \<times> symref) outcome" where
  "sym_create_table_entry st base =
     (let (st1, r) = alloc_sym st in
      obind (oassert (s_symtype (sy_heap st1 base) = SYM_LABEL)) (\<lambda>_.
      obind (sym_name (sy_heap st1 base)) (\<lambda>nm.
        Inr (push_ident r (update_symbol r (\<lambda>s. s\<lparr>s_type := basic_type__void, s_symtype := SYM_TABLE_ENTRY,
          s_linkage := LINK_INTERN, s_name := str_init nm\<rparr>) st1), r))))"

section \<open>Iteration over declarations\<close>

definition yields :: "symtab \<Rightarrow> symref \<Rightarrow> bool" where
  "yields st r =
     (let s = sy_heap st r in
      case s_symtype s of
        SYM_TENTATIVE \<Rightarrow> True
      | SYM_STRING_VALUE \<Rightarrow> True
      | SYM_CONSTANT \<Rightarrow> is_real (s_type s)
      | SYM_DECLARATION \<Rightarrow> s_linkage s = LINK_EXTERN \<and> (s_referenced s \<or> decl_memcpy st = Some r)
      | _ \<Rightarrow> False)"

text \<open>The loop from the cursor on: how many symbols it passes, and the one it returns.\<close>

fun yield_from :: "symtab \<Rightarrow> symref list \<Rightarrow> nat \<times> symref option" where
  "yield_from st [] = (0, None)"
| "yield_from st (r # rs) =
     (if yields st r then (1, Some r) else let (n, y) = yield_from st rs in (n + 1, y))"

definition yield_declaration :: "ns_id \<Rightarrow> symtab \<Rightarrow> symtab \<times> symref option" where
  "yield_declaration i st =
     (let ns = get_ns i st; (n, y) = yield_from st (drop (ns_cursor ns) (ns_symbol ns))
      in (put_ns i (ns\<lparr>ns_cursor := ns_cursor ns + n\<rparr>) st, y))"

definition symtab_finalize :: "symtab \<Rightarrow> symtab outcome" where
  "symtab_finalize st =
     obind (case sy_functions st of Some t \<Rightarrow> obind (hash_destroy t) (\<lambda>t'. Inr (Some t')) | None \<Rightarrow> Inr None) (\<lambda>f.
       Inr (st\<lparr>sy_temporaries := [], string_types := [], sy_functions := f\<rparr>))"

end
