(* ===== verification/Symtab_Correct.thy ===== *)
theory Symtab_Correct
  imports Symtab
begin

text \<open>
  Correctness of the symbol table. Pushing and popping scopes, adding symbols to
  the innermost scope and looking names up refine a stack of maps, in spite of the
  lazy set-up and the reuse of the hash tables. On top of this, what \<open>sym_add\<close>
  does inside functions and at file scope, and how far generated names are unique.
\<close>

section \<open>Scopes as a stack of maps\<close>

definition scope_map :: "(symref \<Rightarrow> c_string) \<Rightarrow> scope \<Rightarrow> string \<Rightarrow> symref option" where
  "scope_map key s = (if sco_state s = SCOPE_INITIALIZED then hash_abs key (sco_table s) else Map.empty)"

definition scope_ok :: "(symref \<Rightarrow> c_string) \<Rightarrow> scope \<Rightarrow> bool" where
  "scope_ok key s \<longleftrightarrow> (sco_state s \<noteq> SCOPE_CREATED \<longrightarrow> hash_inv key (sco_table s))"

definition ns_ok :: "(symref \<Rightarrow> c_string) \<Rightarrow> namespace \<Rightarrow> bool" where
  "ns_ok key ns \<longleftrightarrow> ns_depth ns \<le> length (ns_scope ns) \<and> (\<forall>s \<in> set (ns_scope ns). scope_ok key s)"

definition ns_maps :: "(symref \<Rightarrow> c_string) \<Rightarrow> namespace \<Rightarrow> (string \<Rightarrow> symref option) list" where
  "ns_maps key ns = map (scope_map key) (active_scopes ns)"

fun resolve :: "(string \<Rightarrow> symref option) list \<Rightarrow> string \<Rightarrow> symref option" where
  "resolve [] x = None"
| "resolve (m # ms) x = (case m x of Some r \<Rightarrow> Some r | None \<Rightarrow> resolve ms x)"

text \<open>Adding to a map keeps what is there.\<close>

definition add_once :: "string \<Rightarrow> symref \<Rightarrow> (string \<Rightarrow> symref option) \<Rightarrow> string \<Rightarrow> symref option" where
  "add_once x r m = (if m x = None then m(x \<mapsto> r) else m)"

interpretation sym_hash: hash_client key "\<lambda>x. x" for key :: "symref \<Rightarrow> c_string"
  by unfold_locales simp

lemma lookup_scopes_resolve:
  assumes "wf_string name" "\<forall>s \<in> set ss. scope_ok key s"
  shows "lookup_scopes key ss name = Inr (resolve (map (scope_map key) ss) (str_chars name))"
  using assms(2)
proof (induction ss)
  case (Cons s ss)
  then show ?case
    using hash_lookup_abs [of key "sco_table s", OF _ assms(1)]
    by (cases "sco_state s") (auto simp: scope_ok_def scope_map_def split: option.splits)
qed simp

lemma active_scopes_ok: "ns_ok key ns \<Longrightarrow> s \<in> set (active_scopes ns) \<Longrightarrow> scope_ok key s"
  by (auto simp: ns_ok_def active_scopes_def dest: in_set_takeD)

lemma push_scope_maps:
  assumes "ns_ok key ns"
  shows "ns_ok key (push_scope ns)" "ns_maps key (push_scope ns) = Map.empty # ns_maps key ns"
proof -
  let ?d = "ns_depth ns"
  show "ns_ok key (push_scope ns)"
    using assms by (auto simp: ns_ok_def push_scope_def Let_def scope_ok_def empty_scope_def dest!: set_update_subset_insert [THEN subsetD])
  show "ns_maps key (push_scope ns) = Map.empty # ns_maps key ns"
  proof (cases "?d < length (ns_scope ns)")
    case True
    then show ?thesis
      by (auto simp: ns_maps_def active_scopes_def push_scope_def Let_def take_Suc_conv_app_nth scope_map_def)
  next
    case False
    then have "?d = length (ns_scope ns)" using assms by (simp add: ns_ok_def)
    then show ?thesis
      by (simp add: ns_maps_def active_scopes_def push_scope_def Let_def scope_map_def empty_scope_def)
  qed
qed

lemma active_scopes_Cons:
  assumes "ns_depth ns \<le> length (ns_scope ns)" "0 < ns_depth ns"
  shows "active_scopes ns = ns_scope ns ! (ns_depth ns - 1) # rev (take (ns_depth ns - 1) (ns_scope ns))"
  using assms by (cases "ns_depth ns") (auto simp: active_scopes_def take_Suc_conv_app_nth)

lemma hash_cap_positive: "0 < ns_depth ns \<Longrightarrow> \<exists>c. current_scope_hash_cap ns = Inr c \<and> 0 < c"
proof -
  assume d: "0 < ns_depth ns"
  have "i < 5 \<Longrightarrow> 0 < [256, 16, 128, 64, 32, 16 :: nat] ! i" for i
    by (simp add: nth_Cons split: nat.splits)
  then show ?thesis using d by (auto simp: current_scope_hash_cap_def)
qed

lemma get_put_ns [simp]: "get_ns i (put_ns i ns st) = ns" "sy_heap (put_ns i ns st) = sy_heap st"
  by (cases i; simp)+

lemma sym_make_visible_maps:
  assumes ok: "ns_ok (sym_hash_key (sy_heap st)) (get_ns i st)" and wf: "wf_string (s_name (sy_heap st r))"
    and "0 < ns_depth (get_ns i st)"
  defines "key \<equiv> sym_hash_key (sy_heap st)" and "ns \<equiv> get_ns i st"
  shows "\<exists>ns'. sym_make_visible i st r = Inr (put_ns i ns' st) \<and> ns_ok key ns' \<and>
    ns_maps key ns' = add_once (str_chars (s_name (sy_heap st r))) r (hd (ns_maps key ns)) # tl (ns_maps key ns) \<and>
    ns_symbol ns' = ns_symbol ns \<and> ns_depth ns' = ns_depth ns \<and> ns_cursor ns' = ns_cursor ns \<and>
    length (ns_scope ns') = length (ns_scope ns)"
proof -
  let ?d = "ns_depth ns - 1"
  let ?s = "ns_scope ns ! ?d"
  let ?x = "str_chars (s_name (sy_heap st r))"
  have d: "?d < length (ns_scope ns)" "ns_depth ns = Suc ?d" using assms by (auto simp: ns_ok_def)
  have sok: "scope_ok key ?s" using ok d unfolding ns_ok_def key_def ns_def by simp
  have keyr: "key r = s_name (sy_heap st r)" by (simp add: key_def sym_hash_key_def)
  have "\<exists>t. (case sco_state ?s of SCOPE_CREATED \<Rightarrow> obind (current_scope_hash_cap ns) hash_init
        | SCOPE_DIRTY \<Rightarrow> hash_clear (sco_table ?s) | SCOPE_INITIALIZED \<Rightarrow> Inr (sco_table ?s)) = Inr t \<and>
      hash_inv key t \<and> hash_abs key t = scope_map key ?s"
  proof (cases "sco_state ?s")
    case SCOPE_CREATED
    obtain c where c: "current_scope_hash_cap ns = Inr c" "0 < c" using hash_cap_positive assms(3) ns_def by blast
    then show ?thesis using SCOPE_CREATED hash_init_ok [OF c(2), of key] by (auto simp: scope_map_def)
  next
    case SCOPE_DIRTY
    then show ?thesis using sok hash_clear_ok [of key "sco_table ?s"] by (auto simp: scope_ok_def scope_map_def)
  qed (use sok in \<open>auto simp: scope_ok_def scope_map_def\<close>)
  then obtain t where t: "(case sco_state ?s of SCOPE_CREATED \<Rightarrow> obind (current_scope_hash_cap ns) hash_init
        | SCOPE_DIRTY \<Rightarrow> hash_clear (sco_table ?s) | SCOPE_INITIALIZED \<Rightarrow> Inr (sco_table ?s)) = Inr t"
      "hash_inv key t" "hash_abs key t = scope_map key ?s" by blast
  obtain t' w where t': "hash_insert key (\<lambda>x. x) t r = Inr (t', w)" "hash_inv key t'"
      "hash_abs key t' = add_once ?x r (scope_map key ?s)"
    using sym_hash.ht.insert_fresh [OF t(2), of r] sym_hash.ht.insert_present [OF t(2), of r] wf keyr t(2,3)
    by (cases "hash_abs key t ?x") (auto simp: add_once_def)
  let ?s' = "\<lparr>sco_table = t', sco_state = SCOPE_INITIALIZED\<rparr>"
  let ?ns = "ns\<lparr>ns_scope := (ns_scope ns)[?d := ?s']\<rparr>"
  have "sym_make_visible i st r = Inr (put_ns i ?ns st)"
    using t(1) t'(1) assms(3) unfolding sym_make_visible_def Let_def key_def ns_def by simp
  moreover have "ns_ok key ?ns"
    using ok t'(2) d unfolding ns_ok_def key_def ns_def
    by (auto simp: scope_ok_def dest!: set_update_subset_insert [THEN subsetD])
  moreover have "ns_maps key ?ns = add_once ?x r (scope_map key ?s) # map (scope_map key) (rev (take ?d (ns_scope ns)))"
    using d t'(3) by (simp add: ns_maps_def active_scopes_Cons scope_map_def)
  moreover have "ns_maps key ns = scope_map key ?s # map (scope_map key) (rev (take ?d (ns_scope ns)))"
    using d by (simp add: ns_maps_def active_scopes_Cons)
  ultimately show ?thesis by (intro exI [of _ ?ns]) simp
qed


lemma sym_hash_key_referenced [simp]:
  "sym_hash_key (sy_heap (update_symbol r (\<lambda>s. s\<lparr>s_referenced := b\<rparr>) st)) = sym_hash_key (sy_heap st)"
  by (auto simp: sym_hash_key_def update_symbol_def fun_eq_iff)

lemma get_ns_update_symbol [simp]: "get_ns i (update_symbol r f st) = get_ns i st"
  by (cases i) (simp_all add: update_symbol_def)

lemma sym_lookup_maps:
  assumes "ns_ok (sym_hash_key (sy_heap st)) (get_ns i st)" "wf_string name"
  defines "r \<equiv> resolve (ns_maps (sym_hash_key (sy_heap st)) (get_ns i st)) (str_chars name)"
  shows "sym_lookup i st name =
    Inr (case r of Some x \<Rightarrow> update_symbol x (\<lambda>s. s\<lparr>s_referenced := True\<rparr>) st | None \<Rightarrow> st, r)"
  using lookup_scopes_resolve [OF assms(2), of "active_scopes (get_ns i st)"] active_scopes_ok [OF assms(1)]
  by (auto simp: sym_lookup_def ns_maps_def r_def split: option.splits)



type_synonym scope_spec = "(symref \<Rightarrow> c_string) \<times> (string \<Rightarrow> symref option) list"


definition scopes_inv :: "ns_id \<Rightarrow> symtab \<Rightarrow> bool" where
  "scopes_inv i st \<longleftrightarrow> ns_ok (sym_hash_key (sy_heap st)) (get_ns i st)"

definition scopes_abs :: "ns_id \<Rightarrow> symtab \<Rightarrow> scope_spec" where
  "scopes_abs i st = (sym_hash_key (sy_heap st), ns_maps (sym_hash_key (sy_heap st)) (get_ns i st))"



text \<open>A symbol table with no scopes, whose symbols number 0 and 1 have the names \<open>a\<close> and \<open>b\<close>.\<close>

definition ex_namespace :: namespace where
  "ex_namespace = \<lparr>ns_symbol = [], ns_scope = [], ns_depth = 0, ns_cursor = 0\<rparr>"

definition ex_symtab :: symtab where
  "ex_symtab = \<lparr>sy_heap = (\<lambda>r. zero_symbol\<lparr>s_name := str_init (if r = 0 then ''a'' else ''b''), s_type := basic_type__int\<rparr>),
     sy_next = 2, sy_temporaries = [], sy_types = empty_types, ns_ident = ex_namespace, ns_label = ex_namespace,
     ns_tag = ex_namespace, string_types = [], decl_memcpy = None, sy_functions = None, global_offset = 0, n_add = 0,
     n_temporary = 0, n_unnamed = 0, n_label = 0, n_constant = 0, n_string = 0, n_table = 0, sy_errors = []\<rparr>"

lemma ex_symtab_ok: "scopes_inv i ex_symtab" "snd (scopes_abs i ex_symtab) = []"
  by (cases i; simp add: scopes_inv_def scopes_abs_def ns_ok_def ns_maps_def active_scopes_def ex_symtab_def ex_namespace_def)+


section \<open>New symbols\<close>

text \<open>Only the keys of the elements matter to a table.\<close>

lemma hash_inv_cong:
  assumes "hash_inv key t" "\<And>v. v \<in> hash_elements t \<Longrightarrow> key' v = key v"
  shows "hash_inv key' t" "hash_abs key' t = hash_abs key t"
proof -
  have fe: "full_entry key' e = full_entry key e" "entry_assoc key' e = entry_assoc key e"
    if ce: "c \<in> set (htable t)" "e \<in> set c" "edata e \<noteq> None" for c e
  proof -
    obtain v where v: "edata e = Some v" using ce(3) by blast
    then have "key' v = key v" using assms(2) [of v] ce(1,2) unfolding hash_elements_def by blast
    then show "full_entry key' e = full_entry key e" "entry_assoc key' e = entry_assoc key e"
      using v by (simp_all add: full_entry_def entry_assoc_def)
  qed
  have used: "used_chain key' cap p c" if u: "used_chain key cap p c" and c: "c \<in> set (htable t)" for cap p c
  proof -
    have e: "edata e \<noteq> None" if "e \<in> set c" for e
      using u that by (cases "edata e") (auto simp: used_chain_def full_entry_def)
    then have "map (entry_assoc key') c = map (entry_assoc key) c" using fe(2) [OF c] by (intro map_cong) auto
    then show ?thesis using u e fe [OF c] unfolding used_chain_def by metis
  qed
  show "hash_inv key' t" using assms(1) used unfolding hash_inv_def chain_inv_def by (metis nth_mem)
  have "chain_assoc key' c = chain_assoc key c" if "c \<in> set (htable t)" for c
    using fe(2) [OF that] unfolding chain_assoc_def by (intro map_cong) auto
  moreover have "htable t ! slot_of (hcap t) x \<in> set (htable t)" for x
    using assms(1) slot_less [of "hcap t" x] unfolding hash_inv_def by (metis nth_mem)
  ultimately show "hash_abs key' t = hash_abs key t" by (simp add: fun_eq_iff hash_abs_def)
qed

definition ns_refs :: "namespace \<Rightarrow> symref set" where
  "ns_refs ns = (\<Union>s \<in> set (ns_scope ns). hash_elements (sco_table s))"

lemma ns_ok_cong:
  assumes "ns_ok key ns" "\<And>v. v \<in> ns_refs ns \<Longrightarrow> key' v = key v"
  shows "ns_ok key' ns" "ns_maps key' ns = ns_maps key ns"
proof -
  have k: "key' v = key v" if "s \<in> set (ns_scope ns)" "v \<in> hash_elements (sco_table s)" for s v
    using assms(2) that unfolding ns_refs_def by blast
  then show "ns_ok key' ns"
    using assms(1) hash_inv_cong(1) unfolding ns_ok_def scope_ok_def by metis
  have "scope_map key' s = scope_map key s" if s: "s \<in> set (ns_scope ns)" for s
    using assms(1) hash_inv_cong(2) [of key "sco_table s" key'] k [OF s] s by (auto simp: scope_map_def ns_ok_def scope_ok_def)
  then show "ns_maps key' ns = ns_maps key ns"
    unfolding ns_maps_def active_scopes_def by (intro map_cong) (auto dest: in_set_takeD)
qed

text \<open>No scope of the name space refers to a symbol that can be allocated.\<close>

definition unallocated :: "symtab \<Rightarrow> symref \<Rightarrow> bool" where
  "unallocated st r \<longleftrightarrow> r \<in> set (sy_temporaries st) \<or> sy_next st \<le> r"

definition refs_ok :: "ns_id \<Rightarrow> symtab \<Rightarrow> bool" where
  "refs_ok i st \<longleftrightarrow> (\<forall>r \<in> ns_refs (get_ns i st). \<not> unallocated st r)"

lemma alloc_sym_fresh:
  assumes "alloc_sym st = (st', r)"
  shows "unallocated st r" "st' = update_symbol r (\<lambda>_. zero_symbol\<lparr>s_global_offset := -1\<rparr>)
      (st\<lparr>sy_temporaries := sy_temporaries st', sy_next := sy_next st'\<rparr>)"
  using assms by (auto simp: alloc_sym_def unallocated_def update_symbol_def split: if_splits)

lemma get_ns_other [simp]:
  "get_ns i (st\<lparr>decl_memcpy := a\<rparr>) = get_ns i st" "get_ns i (st\<lparr>n_add := b\<rparr>) = get_ns i st"
  "get_ns i (st\<lparr>sy_temporaries := c\<rparr>) = get_ns i st" "get_ns i (st\<lparr>sy_next := n\<rparr>) = get_ns i st"
  by (cases i; simp)+

lemma int16_id [simp]: "- 32768 \<le> x \<Longrightarrow> x < 32768 \<Longrightarrow> int16 x = x"
  by (simp add: int16_def)

lemma sy_heap_update [simp]: "sy_heap (update_symbol r f st) = (sy_heap st)(r := f (sy_heap st r))"
  by (simp add: update_symbol_def)

lemma sym_insert_new_maps:
  assumes inv: "scopes_inv i st" "refs_ok i st" and wf: "wf_string name" and d: "0 < ns_depth (get_ns i st)"
    and kind: "symtype \<notin> {SYM_TAG, SYM_TYPEDEF}" "\<not> is_function type" and dep: "depth < 2 ^ 15"
  shows "\<exists>st' r. sym_insert_new i st name type symtype linkage depth = Inr (st', r) \<and> unallocated st r \<and> scopes_inv i st' \<and>
    (let s = sy_heap st' r in s_name s = name \<and> s_type s = type \<and> s_symtype s = symtype \<and> s_linkage s = linkage \<and> s_depth s = int depth) \<and>
    snd (scopes_abs i st') = add_once (str_chars name) r (hd (snd (scopes_abs i st))) # tl (snd (scopes_abs i st))"
proof -
  let ?key = "sym_hash_key (sy_heap st)" and ?ns = "get_ns i st"
  obtain st1 r where al: "alloc_sym st = (st1, r)" by (cases "alloc_sym st")
  note f = alloc_sym_fresh [OF al]
  define st2 where "st2 = update_symbol r (\<lambda>s. s\<lparr>s_depth := int16 (int depth), s_name := name, s_type := type,
      s_symtype := symtype, s_linkage := linkage\<rparr>) st1"
  define st3 where "st3 = (if decl_memcpy st2 = None \<and> str_cmp (str_init ''memcpy'') name = 0 then st2\<lparr>decl_memcpy := Some r\<rparr> else st2)"
  define st4 where "st4 = (if linkage = LINK_INTERN \<and> int16 (int depth) \<noteq> 0
      then update_symbol r (\<lambda>s. s\<lparr>s_n := int16 (int (n_add st3 + 1))\<rparr>) (st3\<lparr>n_add := n_add st3 + 1\<rparr>) else st3)"
  define ns1 where "ns1 = ?ns\<lparr>ns_symbol := ns_symbol ?ns @ [r]\<rparr>"
  define st5 where "st5 = put_ns i ns1 st4"
  let ?key4 = "sym_hash_key (sy_heap st4)"
  have st1: "get_ns i st1 = ?ns" "\<And>x. x \<noteq> r \<Longrightarrow> sy_heap st1 x = sy_heap st x" by (subst f(2), simp)+
  have g: "get_ns i st4 = ?ns" using st1(1) by (simp add: st4_def st3_def st2_def)
  have h: "x \<noteq> r \<Longrightarrow> sy_heap st4 x = sy_heap st x" for x using st1(2) by (simp add: st4_def st3_def st2_def)
  have s: "s_name (sy_heap st4 r) = name" "s_type (sy_heap st4 r) = type" "s_symtype (sy_heap st4 r) = symtype"
      "s_linkage (sy_heap st4 r) = linkage" "s_depth (sy_heap st4 r) = int depth"
    using dep by (simp_all add: st4_def st3_def st2_def)
  have "v \<noteq> r" if "v \<in> ns_refs ?ns" for v using that f(1) inv(2) by (auto simp: refs_ok_def)
  then have kc: "v \<in> ns_refs ?ns \<Longrightarrow> ?key4 v = ?key v" for v using h by (simp add: sym_hash_key_def)
  note c = ns_ok_cong [OF inv(1) [unfolded scopes_inv_def] kc]
  have eq1: "ns_ok key ns1 = ns_ok key ?ns" "ns_maps key ns1 = ns_maps key ?ns" for key
    by (simp_all add: ns1_def ns_ok_def ns_maps_def active_scopes_def)
  have v: "sy_heap st5 = sy_heap st4" "get_ns i st5 = ns1" by (simp_all add: st5_def)
  obtain ns' where ns': "sym_make_visible i st5 r = Inr (put_ns i ns' st5)" "ns_ok ?key4 ns'"
      "ns_maps ?key4 ns' = add_once (str_chars name) r (hd (ns_maps ?key4 ns1)) # tl (ns_maps ?key4 ns1)"
    using sym_make_visible_maps [of st5 i r] c(1) eq1 s(1) v wf d by (auto simp: ns1_def)
  have "sym_insert_new i st name type symtype linkage depth = Inr (put_ns i ns' st5, r)"
    unfolding sym_insert_new_def Let_def al prod.case st2_def [symmetric] st3_def [symmetric] st4_def [symmetric]
    using ns'(1) kind by (simp add: g ns1_def [symmetric] st5_def [symmetric])
  then show ?thesis
    using f(1) s v ns'(2,3) c(2) eq1(2) by (simp add: scopes_inv_def scopes_abs_def Let_def)
qed

text \<open>
  Inside a function, declaring anything but a function, a type name
  or an external object always makes a new symbol, with the given name, type and
  linkage and the depth of the scope. When the innermost scope does not have the
  name, the name then denotes this symbol. When it already has the name, no
  error is reported: the name keeps its old meaning and the new symbol is not found.
\<close>

lemma sym_add_local:
  assumes inv: "scopes_inv i st" "refs_ok i st" and wf: "wf_string name"
    and loc: "1 < ns_depth (get_ns i st)" "ns_depth (get_ns i st) \<le> 2 ^ 15"
    and kind: "linkage \<noteq> LINK_EXTERN" "symtype \<notin> {SYM_LABEL, SYM_TAG, SYM_TYPEDEF}" "\<not> is_function type"
  shows "\<exists>st' r. sym_add i st name type symtype linkage d = Inr (st', r) \<and> unallocated st r \<and> scopes_inv i st' \<and>
    (let s = sy_heap st' r in s_name s = name \<and> s_type s = type \<and> s_symtype s = symtype \<and> s_linkage s = linkage \<and>
       s_depth s = int (ns_depth (get_ns i st)) - 1) \<and>
    snd (scopes_abs i st') = add_once (str_chars name) r (hd (snd (scopes_abs i st))) # tl (snd (scopes_abs i st))"
proof -
  let ?key = "sym_hash_key (sy_heap st)" and ?dep = "ns_depth (get_ns i st) - 1"
  define found where "found = resolve (ns_maps ?key (get_ns i st)) (str_chars name)"
  define st1 where "st1 = (case found of Some x \<Rightarrow> update_symbol x (\<lambda>s. s\<lparr>s_referenced := True\<rparr>) st | None \<Rightarrow> st)"
  have lk: "sym_lookup i st name = Inr (st1, found)"
    using sym_lookup_maps [OF inv(1) [unfolded scopes_inv_def] wf] by (simp add: st1_def found_def)
  have g: "get_ns i st1 = get_ns i st" "sym_hash_key (sy_heap st1) = ?key"
    by (simp_all add: st1_def del: sy_heap_update split: option.splits)
  have un: "unallocated st1 = unallocated st"
    by (auto simp: st1_def unallocated_def fun_eq_iff update_symbol_def split: option.splits)
  have "sym_add i st name type symtype linkage d = sym_insert_new i st1 name type symtype linkage ?dep"
    using lk loc kind g(1) by (auto simp: sym_add_def current_scope_depth_def split: option.splits)
  moreover have "scopes_inv i st1" "refs_ok i st1" "snd (scopes_abs i st1) = snd (scopes_abs i st)"
    using inv g un by (simp_all add: scopes_inv_def refs_ok_def scopes_abs_def)
  ultimately show ?thesis
    using sym_insert_new_maps [of i st1 name symtype type ?dep linkage] wf loc kind g un by (auto simp: of_nat_diff)
qed

definition ex_inner :: symtab where
  "ex_inner = put_ns Ns_ident (push_scope (push_scope (ns_ident ex_symtab))) ex_symtab"

lemma ex_inner_ok: "scopes_inv Ns_ident ex_inner" "refs_ok Ns_ident ex_inner" "ns_depth (get_ns Ns_ident ex_inner) = 2"
proof -
  have "sym_hash_key (sy_heap ex_inner) = sym_hash_key (sy_heap ex_symtab)" by (simp add: ex_inner_def)
  then show "scopes_inv Ns_ident ex_inner"
    using push_scope_maps(1) [OF push_scope_maps(1)] ex_symtab_ok(1) [of Ns_ident] by (simp add: scopes_inv_def ex_inner_def)
  show "refs_ok Ns_ident ex_inner" "ns_depth (get_ns Ns_ident ex_inner) = 2"
    by (simp_all add: refs_ok_def ns_refs_def ex_inner_def ex_symtab_def ex_namespace_def push_scope_def empty_scope_def hash_elements_def)
qed

section \<open>Declarations at file scope\<close>

lemma sym_check_type_same: "sym_check_type st r type = Inr st' \<Longrightarrow> st' = st"
  by (auto simp: sym_check_type_def sym_error_def obind_Inr_iff split: if_splits)

text \<open>Applying a type changes types only.\<close>

definition types_only :: "symtab \<Rightarrow> symtab \<Rightarrow> bool" where
  "types_only st st' \<longleftrightarrow> (\<exists>h ts. st' = st\<lparr>sy_heap := h, sy_types := ts\<rparr> \<and> (\<forall>x. h x = (sy_heap st x)\<lparr>s_type := s_type (h x)\<rparr>))"

lemma types_only_refl: "types_only st st"
  by (auto simp: types_only_def intro!: exI [of _ "sy_heap st"] exI [of _ "sy_types st"])

lemma types_only_update: "types_only st (update_symbol r (\<lambda>s. s\<lparr>s_type := type\<rparr>) st)"
  by (auto simp: types_only_def update_symbol_def intro!: exI [of _ "sy_types st"])

lemma types_only_types: "types_only st (st\<lparr>sy_types := ts\<rparr>)"
  by (auto simp: types_only_def intro!: exI [of _ "sy_heap st"])

lemma sym_apply_type_types_only: "sym_apply_type st r type = Inr st' \<Longrightarrow> types_only st st'"
  unfolding sym_apply_type_def Let_def
  by (auto simp: obind_Inr_iff types_only_refl types_only_update types_only_types dest!: sym_check_type_same split: if_splits)

lemma types_only_symbol:
  assumes "types_only st st'"
  shows "s_linkage (sy_heap st' x) = s_linkage (sy_heap st x)" "s_symtype (sy_heap st' x) = s_symtype (sy_heap st x)"
    "get_ns i st' = get_ns i st" "sy_next st' = sy_next st" "sy_temporaries st' = sy_temporaries st"
proof -
  obtain h ts where h: "st' = st\<lparr>sy_heap := h, sy_types := ts\<rparr>" "h x = (sy_heap st x)\<lparr>s_type := s_type (h x)\<rparr>"
    using assms unfolding types_only_def by blast
  show "get_ns i st' = get_ns i st" using h(1) by (cases i) simp_all
  show "sy_next st' = sy_next st" "sy_temporaries st' = sy_temporaries st" using h(1) by simp_all
  have "sy_heap st' x = (sy_heap st x)\<lparr>s_type := s_type (h x)\<rparr>" using h by simp
  then show "s_linkage (sy_heap st' x) = s_linkage (sy_heap st x)" "s_symtype (sy_heap st' x) = s_symtype (sy_heap st x)"
    by simp_all
qed

lemma redeclare_linkage_result:
  assumes "redeclare_linkage i st r symtype linkage = Inr st'"
  shows "st' = (if linkage = LINK_INTERN then update_symbol r (\<lambda>s. s\<lparr>s_linkage := LINK_INTERN\<rparr>) st else st)"
    "linkage = LINK_INTERN \<Longrightarrow> s_linkage (sy_heap st r) \<noteq> LINK_EXTERN"
    "linkage = LINK_EXTERN \<Longrightarrow> s_linkage (sy_heap st r) = LINK_INTERN \<Longrightarrow> symtype \<notin> {SYM_DEFINITION, SYM_TENTATIVE}"
  using assms by (auto simp: redeclare_linkage_def Let_def sym_error_def obind_Inr_iff split: linkage.splits if_splits)

text \<open>The kind of a symbol after a redeclaration: it moves on from declaration over tentative definition to definition.\<close>

definition next_symtype :: "symtype \<Rightarrow> symtype \<Rightarrow> symtype" where
  "next_symtype old new =
     (if new = SYM_DEFINITION \<or> (new = SYM_TENTATIVE \<and> old = SYM_DECLARATION) then new else old)"

lemma redeclare_symtype_result:
  assumes "redeclare_symtype st r type symtype d = Inr st'"
  shows "s_symtype (sy_heap st' r) = next_symtype (s_symtype (sy_heap st r)) symtype"
    "s_linkage (sy_heap st' r) = s_linkage (sy_heap st r)"
    "get_ns i st' = get_ns i st" "sy_next st' = sy_next st" "sy_temporaries st' = sy_temporaries st"
proof -
  define st1 where "st1 = update_symbol r (\<lambda>s. s\<lparr>s_symtype := next_symtype (s_symtype (sy_heap st r)) symtype\<rparr>) st"
  have st: "st1 = st" if "next_symtype (s_symtype (sy_heap st r)) symtype = s_symtype (sy_heap st r)"
    using that by (simp add: st1_def update_symbol_def)
  have "st' = st1 \<or> types_only st1 st'"
    using assms st unfolding redeclare_symtype_def Let_def
    by (cases symtype)
      (auto simp: sym_error_def obind_Inr_iff next_symtype_def st1_def dest!: sym_apply_type_types_only split: if_splits)
  then have t: "types_only st1 st'" using types_only_refl by blast
  have u: "s_symtype (sy_heap st1 r) = next_symtype (s_symtype (sy_heap st r)) symtype" "s_linkage (sy_heap st1 r) = s_linkage (sy_heap st r)"
      "get_ns i st1 = get_ns i st" by (simp_all add: st1_def)
  have w: "sy_next st1 = sy_next st" "sy_temporaries st1 = sy_temporaries st" by (simp_all add: st1_def update_symbol_def)
  show "s_symtype (sy_heap st' r) = next_symtype (s_symtype (sy_heap st r)) symtype"
    "s_linkage (sy_heap st' r) = s_linkage (sy_heap st r)"
    "get_ns i st' = get_ns i st" "sy_next st' = sy_next st" "sy_temporaries st' = sy_temporaries st"
    using types_only_symbol [OF t] u w by simp_all
qed

text \<open>
  Property C23. At file scope, declaring a name that already denotes a symbol of
  file scope makes no new symbol: when the declaration is accepted, it returns this
  symbol and leaves the scopes as they are. A declaration accepted as static was not
  external before, a definition accepted as external was not static; the linkage
  changes to static only, and the kind of the symbol moves on from declaration over
  tentative definition to definition, never back.
\<close>

theorem sym_add_file_scope:
  assumes inv: "scopes_inv i st" and wf: "wf_string name" and top: "ns_depth (get_ns i st) = 1"
    and r: "resolve (snd (scopes_abs i st)) (str_chars name) = Some r" "s_depth (sy_heap st r) = 0"
    and add: "sym_add i st name type symtype linkage d = Inr (st', r')"
  defines "old \<equiv> sy_heap st r"
  shows "r' = r \<and> get_ns i st' = get_ns i st \<and> sy_next st' = sy_next st \<and> sy_temporaries st' = sy_temporaries st \<and>
    \<not> (linkage = LINK_INTERN \<and> s_linkage old = LINK_EXTERN) \<and>
    \<not> (linkage = LINK_EXTERN \<and> s_linkage old = LINK_INTERN \<and> symtype \<in> {SYM_DEFINITION, SYM_TENTATIVE}) \<and>
    s_linkage (sy_heap st' r) = (if linkage = LINK_INTERN then LINK_INTERN else s_linkage old) \<and>
    s_symtype (sy_heap st' r) = next_symtype (s_symtype old) symtype"
proof -
  define st1 where "st1 = update_symbol r (\<lambda>s. s\<lparr>s_referenced := True\<rparr>) st"
  have lk: "sym_lookup i st name = Inr (st1, Some r)"
    using sym_lookup_maps [OF inv [unfolded scopes_inv_def] wf] r(1) by (simp add: st1_def scopes_abs_def)
  have s1: "s_depth (sy_heap st1 r) = 0" "get_ns i st1 = get_ns i st" "s_linkage (sy_heap st1 r) = s_linkage old"
      "s_symtype (sy_heap st1 r) = s_symtype old" using r(2) by (simp_all add: st1_def old_def)
  have n1: "sy_next st1 = sy_next st" "sy_temporaries st1 = sy_temporaries st" by (simp_all add: st1_def update_symbol_def)
  have "sym_redeclare i st1 r type symtype linkage d = Inr (st', r')"
    using add lk s1 top unfolding sym_add_def by (auto simp: current_scope_depth_def obind_Inr_iff)
  then obtain st2 where l: "redeclare_linkage i st1 r symtype linkage = Inr st2" and t: "redeclare_symtype st2 r type symtype d = Inr st'"
      and eq: "r' = r" by (auto simp: sym_redeclare_def obind_Inr_iff)
  note ll = redeclare_linkage_result [OF l] and tt = redeclare_symtype_result [OF t]
  have "s_linkage (sy_heap st2 r) = (if linkage = LINK_INTERN then LINK_INTERN else s_linkage old)"
      "s_symtype (sy_heap st2 r) = s_symtype old" "get_ns i st2 = get_ns i st"
    using ll(1) s1 by simp_all
  moreover have "sy_next st2 = sy_next st" "sy_temporaries st2 = sy_temporaries st" using ll(1) n1 by (simp_all add: update_symbol_def)
  ultimately show ?thesis using tt eq ll(2,3) s1 by auto
qed

lemma ex_file_scope:
  "\<exists>ns. ns_depth ns = 1 \<and> scopes_inv Ns_ident (put_ns Ns_ident ns ex_symtab) \<and>
     snd (scopes_abs Ns_ident (put_ns Ns_ident ns ex_symtab)) = [[''a'' \<mapsto> 0]]"
proof -
  let ?st = "put_ns Ns_ident (push_scope (ns_ident ex_symtab)) ex_symtab"
  have p: "ns_ok (sym_hash_key (sy_heap ex_symtab)) (push_scope (ns_ident ex_symtab))"
      "ns_maps (sym_hash_key (sy_heap ex_symtab)) (push_scope (ns_ident ex_symtab)) = [Map.empty]"
    using push_scope_maps [OF ex_symtab_ok(1) [of Ns_ident, unfolded scopes_inv_def]] ex_symtab_ok(2) [of Ns_ident]
    by (simp_all add: scopes_abs_def)
  have k: "s_name (sy_heap ex_symtab 0) = str_init ''a''" by (simp add: ex_symtab_def)
  have d: "ns_depth (push_scope (ns_ident ex_symtab)) = 1" by (simp add: ex_symtab_def ex_namespace_def push_scope_def)
  obtain ns where "sym_make_visible Ns_ident ?st 0 = Inr (put_ns Ns_ident ns ?st)" "ns_ok (sym_hash_key (sy_heap ex_symtab)) ns"
      "ns_maps (sym_hash_key (sy_heap ex_symtab)) ns = [[''a'' \<mapsto> 0]]" "ns_depth ns = 1"
    using sym_make_visible_maps [of ?st Ns_ident 0] p k d str_init_wf [of "''a''"] by (auto simp: add_once_def)
  then show ?thesis by (intro exI [of _ ns]) (simp add: scopes_inv_def scopes_abs_def)
qed

theorem sym_add_file_scope_witness:
  "\<exists>st st'. sym_add Ns_ident st (str_init ''a'') basic_type__int SYM_TENTATIVE LINK_EXTERN DECL_NORMAL = Inr (st', 0) \<and>
     get_ns Ns_ident st' = get_ns Ns_ident st \<and> s_symtype (sy_heap st' 0) = SYM_DEFINITION"
proof -
  obtain ns where ns: "ns_depth ns = 1" "scopes_inv Ns_ident (put_ns Ns_ident ns ex_symtab)"
      "snd (scopes_abs Ns_ident (put_ns Ns_ident ns ex_symtab)) = [[''a'' \<mapsto> 0]]"
    using ex_file_scope by blast
  let ?st = "put_ns Ns_ident ns ex_symtab"
  let ?st1 = "update_symbol 0 (\<lambda>s. s\<lparr>s_referenced := True\<rparr>) ?st"
  have lk: "sym_lookup Ns_ident ?st (str_init ''a'') = Inr (?st1, Some 0)"
    using sym_lookup_maps [OF ns(2) [unfolded scopes_inv_def] str_init_wf, of "''a''"] ns(3) by (simp add: scopes_abs_def)
  have h: "s_depth (sy_heap ?st1 0) = 0" "s_linkage (sy_heap ?st1 0) = LINK_NONE" "s_symtype (sy_heap ?st1 0) = SYM_DEFINITION"
      "s_type (sy_heap ?st1 0) = basic_type__int" "sy_types ?st1 = empty_types"
    by (simp_all add: ex_symtab_def zero_symbol_def update_symbol_def)
  have n1: "ns_ident ?st1 = ns" by (simp add: update_symbol_def)
  have t: "type_equal empty_types basic_type__int basic_type__int = Inr True" "\<not> is_function basic_type__int" by code_simp+
  have "sym_redeclare Ns_ident ?st1 0 basic_type__int SYM_TENTATIVE LINK_EXTERN DECL_NORMAL = Inr (?st1, 0)"
    unfolding sym_redeclare_def redeclare_linkage_def redeclare_symtype_def Let_def using h t by simp
  then have add: "sym_add Ns_ident ?st (str_init ''a'') basic_type__int SYM_TENTATIVE LINK_EXTERN DECL_NORMAL = Inr (?st1, 0)"
    unfolding sym_add_def using lk ns(1) h(1) n1 by (simp add: current_scope_depth_def)
  have "s_depth (sy_heap ?st 0) = 0" "ns_depth (get_ns Ns_ident ?st) = 1" "s_symtype (sy_heap ?st 0) = SYM_DEFINITION"
    using ns(1) by (simp_all add: ex_symtab_def zero_symbol_def)
  then have "get_ns Ns_ident ?st1 = get_ns Ns_ident ?st \<and> s_symtype (sy_heap ?st1 0) = SYM_DEFINITION"
    using sym_add_file_scope [OF ns(2) str_init_wf _ _ _ add] ns(3) by (simp add: next_symtype_def)
  then show ?thesis using add by blast
qed

section \<open>Generated names\<close>

lemma int16_eq_iff: "int16 (int a) = int16 (int b) \<longleftrightarrow> a mod 65536 = b mod 65536"
proof -
  have "int16 (int a) = int16 (int b) \<longleftrightarrow> (int a + 32768) mod 65536 = (int b + 32768) mod 65536" by (simp add: int16_def)
  also have "\<dots> \<longleftrightarrow> int a mod 65536 = int b mod 65536" by (simp add: mod_eq_dvd_iff)
  also have "\<dots> \<longleftrightarrow> int (a mod 65536) = int (b mod 65536)" by (simp add: zmod_int)
  finally show ?thesis by simp
qed

lemma print_nat_digits: "c \<in> set (print_nat n) \<Longrightarrow> c \<noteq> CHR ''-''"
proof (induction n rule: less_induct)
  case (less n)
  have digit: "char_of (48 + d) \<noteq> CHR ''-''" if "d < 10" for d :: nat
  proof
    assume "char_of (48 + d) = CHR ''-''"
    then have "code_of (CHR ''-'') = 48 + d" using code_of_digit [OF that] by simp
    then show False by simp
  qed
  show ?case
  proof (cases "n < 10")
    case True
    then show ?thesis using less.prems digit [of n] print_nat.simps [of n] by auto
  next
    case False
    then have "n div 10 < n" by simp
    then show ?thesis
      using less.prems less.IH [of "n div 10"] digit [of "n mod 10"] print_nat.simps [of n] False by (auto simp del: char_of_eq_iff)
  qed
qed

lemma print_nat_nonempty: "print_nat n \<noteq> []"
  by (simp add: print_nat.simps [of n])

lemma print_int_inject: "print_int a = print_int b \<longleftrightarrow> a = b"
proof
  assume eq: "print_int a = print_int b"
  have hd: "hd (print_nat n) \<noteq> CHR ''-''" for n using print_nat_digits [of "hd (print_nat n)" n] print_nat_nonempty by auto
  have "a < 0 \<longleftrightarrow> b < 0" using eq hd by (auto simp: print_int_def split: if_splits) (metis list.sel(1))+
  then show "a = b" using eq by (auto simp: print_int_def print_nat_inject split: if_splits)
qed simp

lemma print_int_nonempty: "print_int a \<noteq> []" "[] \<noteq> print_int a"
  by (auto simp: print_int_def print_nat_nonempty dest: sym)

text \<open>
  The counter that tells labels apart is stored in 16 bits: the names
  of the labels number \<open>m\<close> and \<open>n\<close> are the same exactly when the numbers agree modulo
  65536. The first 65536 labels have distinct names, and the next one repeats a name.
\<close>

lemma label_names_repeat:
  assumes "sym_create_label st = (st1, r1)" "sym_create_label st' = (st2, r2)"
  shows "sym_name (sy_heap st1 r1) = sym_name (sy_heap st2 r2) \<longleftrightarrow> n_label st mod 65536 = n_label st' mod 65536"
proof -
  have raw: "takeWhile (\<lambda>c. c \<noteq> CHR 0x00) (str_raw (str_init ''.L'')) = ''.L''" by code_simp
  have name: "sym_name (sy_heap s2 r) = Inr (if int16 (int (n_label s + 1)) = 0 then ''.L'' else ''.L'' @ print_int (int16 (int (n_label s + 1))))"
    if "sym_create_label s = (s2, r)" for s s2 r
  proof -
    obtain s1 r' where al: "alloc_sym s = (s1, r')" by (cases "alloc_sym s")
    then have "r' = r" using that by (simp add: sym_create_label_def Let_def)
    moreover have "n_label s1 = n_label s" by (subst alloc_sym_fresh(2) [OF al]) (simp add: update_symbol_def)
    ultimately have "s_name (sy_heap s2 r) = str_init ''.L''" "s_n (sy_heap s2 r) = int16 (int (n_label s + 1))"
      using that al by (auto simp: sym_create_label_def Let_def)
    then show ?thesis using raw by (simp add: sym_name_def Let_def)
  qed
  have "int16 (int (n_label st + 1)) = int16 (int (n_label st' + 1)) \<longleftrightarrow> n_label st mod 65536 = n_label st' mod 65536"
    unfolding int16_eq_iff by (simp add: mod_Suc)
  then show ?thesis
    unfolding name [OF assms(1)] name [OF assms(2)] using print_int_inject print_int_nonempty by auto
qed

end
