(* ===== verification/VM_Memory.thy ===== *)
theory VM_Memory
  imports Prelude
begin

text \<open>
  The memory the virtual machine works on: a partial map from addresses to
  bytes, so that an access outside what is allocated is undefined behaviour, and
  integers in the little-endian encoding of x86-64. Addresses are mathematical
  integers: pointer arithmetic that leaves the address space is undefined in C
  anyway. Shown here: encoding and decoding are inverse up to wrap-around, a
  store is read back, and what it does not touch is unchanged.
\<close>

section \<open>Little-endian integers\<close>

fun le_bytes :: "nat \<Rightarrow> int \<Rightarrow> u8 list" where
  "le_bytes 0 v = []"
| "le_bytes (Suc n) v = word_of_int v # le_bytes n (v div 256)"

fun le_int :: "u8 list \<Rightarrow> int" where
  "le_int [] = 0"
| "le_int (b # bs) = uint b + 256 * le_int bs"

text \<open>An integer type of the machine: its size in bytes and whether it is signed.\<close>

type_synonym int_type = "nat \<times> bool"

definition int_min :: "int_type \<Rightarrow> int" where
  "int_min it = (if snd it then - (2 ^ (8 * fst it - 1)) else 0)"

definition int_max :: "int_type \<Rightarrow> int" where
  "int_max it = (if snd it then 2 ^ (8 * fst it - 1) - 1 else 2 ^ (8 * fst it) - 1)"

definition in_type :: "int_type \<Rightarrow> int \<Rightarrow> bool" where
  "in_type it v \<longleftrightarrow> int_min it \<le> v \<and> v \<le> int_max it"

text \<open>Conversion to a type: the value modulo the number of values, in the range of the type.\<close>

definition to_type :: "int_type \<Rightarrow> int \<Rightarrow> int" where
  "to_type it v =
     (let u = v mod 2 ^ (8 * fst it)
      in if snd it \<and> 2 ^ (8 * fst it - 1) \<le> u then u - 2 ^ (8 * fst it) else u)"

definition decode :: "int_type \<Rightarrow> u8 list \<Rightarrow> int" where
  "decode it bs = to_type it (le_int bs)"

lemma length_le_bytes [simp]: "length (le_bytes n v) = n"
  by (induction n arbitrary: v) auto

lemma uint_byte: "uint (word_of_int v :: u8) = v mod 256"
  by (simp add: uint_word_of_int)

lemma le_int_bytes: "le_int (le_bytes n v) = v mod 2 ^ (8 * n)"
proof (induction n arbitrary: v)
  case (Suc n)
  have "v mod (256 * 2 ^ (8 * n)) = 256 * (v div 256 mod 2 ^ (8 * n)) + v mod 256"
    by (rule zmod_zmult2_eq) simp
  moreover have "(2::int) ^ (8 * Suc n) = 256 * 2 ^ (8 * n)"
    by (simp add: power_add)
  ultimately show ?case using Suc by (simp add: uint_byte)
qed simp

lemma le_bytes_mod: "le_bytes n (v mod 2 ^ (8 * n)) = le_bytes n v"
proof (induction n arbitrary: v)
  case (Suc n)
  have p: "(2::int) ^ (8 * Suc n) = 256 * 2 ^ (8 * n)"
    by (simp add: power_add)
  have "v mod (256 * 2 ^ (8 * n)) div 256 = v div 256 mod 2 ^ (8 * n)"
    by (simp add: zmod_zmult2_eq)
  moreover have "(word_of_int (v mod (256 * 2 ^ (8 * n))) :: u8) = word_of_int v"
    by (rule word_uint_eqI) (simp add: uint_byte mod_mod_cancel)
  ultimately show ?case using Suc by (simp only: p le_bytes.simps)
qed simp

lemma two_power_split:
  assumes "0 < n"
  shows "(2::int) ^ (8 * n) = 2 * 2 ^ (8 * n - 1)"
proof -
  have "8 * n = Suc (8 * n - 1)" using assms by simp
  then show ?thesis by (metis power_Suc)
qed

lemma to_type_in_type:
  assumes "0 < fst it"
  shows "in_type it (to_type it v)"
proof -
  define p where "p = (2::int) ^ (8 * fst it - 1)"
  have q: "(2::int) ^ (8 * fst it) = 2 * p" using two_power_split [OF assms] by (simp add: p_def)
  define u where "u = v mod (2 * p)"
  have "0 < p" by (simp add: p_def)
  then have "0 \<le> u" "u < 2 * p" by (simp_all add: u_def)
  then show ?thesis
    unfolding in_type_def int_min_def int_max_def to_type_def Let_def q p_def [symmetric] u_def [symmetric] by simp
qed

lemma to_type_id:
  assumes "0 < fst it" "in_type it v"
  shows "to_type it v = v"
proof -
  define p where "p = (2::int) ^ (8 * fst it - 1)"
  have q: "(2::int) ^ (8 * fst it) = 2 * p" using two_power_split [OF assms(1)] by (simp add: p_def)
  have pos: "0 < p" by (simp add: p_def)
  have r: "(if snd it then - p else 0) \<le> v" "v \<le> (if snd it then p - 1 else 2 * p - 1)"
    using assms(2) unfolding in_type_def int_min_def int_max_def q p_def [symmetric] by simp_all
  show ?thesis
  proof (cases "0 \<le> v")
    case True
    then have "v < 2 * p" using r(2) pos by (simp split: if_splits)
    then have "v mod (2 * p) = v" using True by simp
    then show ?thesis
      using r(2) pos unfolding to_type_def Let_def q p_def [symmetric] by (simp split: if_splits)
  next
    case False
    then have b: "snd it" "- p \<le> v" using r(1) by (simp_all split: if_splits)
    have "v mod (2 * p) = (v + 2 * p) mod (2 * p)" by simp
    also have "\<dots> = v + 2 * p" using False b(2) pos by (intro mod_pos_pos_trivial) simp_all
    finally show ?thesis
      using b pos unfolding to_type_def Let_def q p_def [symmetric] by simp
  qed
qed

lemma to_type_mod: "to_type it (v mod 2 ^ (8 * fst it)) = to_type it v"
  by (simp add: to_type_def)

lemma decode_le_bytes: "decode it (le_bytes (fst it) v) = to_type it v"
  by (simp add: decode_def le_int_bytes to_type_mod)

lemma take_le_bytes: "k \<le> n \<Longrightarrow> take k (le_bytes n v) = le_bytes k v"
proof (induction k arbitrary: n v)
  case (Suc k)
  then show ?case by (cases n) auto
qed simp

section \<open>Loads and stores\<close>

type_synonym mem = "int \<Rightarrow> u8 option"

fun load_bytes :: "mem \<Rightarrow> int \<Rightarrow> nat \<Rightarrow> u8 list outcome" where
  "load_bytes m a 0 = Inr []"
| "load_bytes m a (Suc n) =
     (case m a of None \<Rightarrow> Inl Undefined_Behaviour
      | Some b \<Rightarrow> obind (load_bytes m (a + 1) n) (\<lambda>bs. Inr (b # bs)))"

fun store_bytes :: "mem \<Rightarrow> int \<Rightarrow> u8 list \<Rightarrow> mem outcome" where
  "store_bytes m a [] = Inr m"
| "store_bytes m a (b # bs) =
     (case m a of None \<Rightarrow> Inl Undefined_Behaviour
      | Some _ \<Rightarrow> store_bytes (m(a \<mapsto> b)) (a + 1) bs)"

definition mapped :: "mem \<Rightarrow> int \<Rightarrow> nat \<Rightarrow> bool" where
  "mapped m a n \<longleftrightarrow> (\<forall>i. a \<le> i \<and> i < a + int n \<longrightarrow> m i \<noteq> None)"

definition read_mem :: "mem \<Rightarrow> int \<Rightarrow> nat \<Rightarrow> u8 list" where
  "read_mem m a n = map (\<lambda>i. the (m (a + int i))) [0..<n]"

definition write_mem :: "mem \<Rightarrow> int \<Rightarrow> u8 list \<Rightarrow> mem" where
  "write_mem m a bs = (\<lambda>i. if a \<le> i \<and> i < a + int (length bs) then Some (bs ! nat (i - a)) else m i)"

lemma mapped_Suc: "mapped m a (Suc n) \<longleftrightarrow> m a \<noteq> None \<and> mapped m (a + 1) n"
proof -
  have "\<And>i. (a \<le> i \<and> i < a + int (Suc n)) \<longleftrightarrow> i = a \<or> (a + 1 \<le> i \<and> i < a + 1 + int n)" by auto
  then show ?thesis unfolding mapped_def by (auto simp: all_conj_distrib)
qed

lemma mapped_0 [simp]: "mapped m a 0"
  by (auto simp: mapped_def)

lemma mapped_sub: "mapped m a n \<Longrightarrow> a \<le> b \<Longrightarrow> b + int k \<le> a + int n \<Longrightarrow> mapped m b k"
  by (simp add: mapped_def)

lemma read_mem_Suc: "read_mem m a (Suc n) = the (m a) # read_mem m (a + 1) n"
proof -
  have "[0..<Suc n] = 0 # map Suc [0..<n]" by (simp add: map_Suc_upt upt_conv_Cons)
  then show ?thesis by (simp add: read_mem_def add.assoc)
qed

lemma length_read_mem [simp]: "length (read_mem m a n) = n"
  by (simp add: read_mem_def)

lemma load_bytes_eq:
  "load_bytes m a n = (if mapped m a n then Inr (read_mem m a n) else Inl Undefined_Behaviour)"
proof (induction n arbitrary: a)
  case 0
  then show ?case by (simp add: read_mem_def)
next
  case (Suc n)
  then show ?case by (auto simp: mapped_Suc read_mem_Suc split: option.split)
qed

lemma mapped_upd: "m a \<noteq> None \<Longrightarrow> mapped (m(a \<mapsto> b)) c n = mapped m c n"
  by (auto simp: mapped_def)

lemma write_mem_Cons: "write_mem m a (b # bs) = write_mem (m(a \<mapsto> b)) (a + 1) bs"
proof
  fix i
  show "write_mem m a (b # bs) i = write_mem (m(a \<mapsto> b)) (a + 1) bs i"
  proof (cases "i = a")
    case False
    then show ?thesis
    proof (cases "a + 1 \<le> i")
      case True
      then have "nat (i - a) = Suc (nat (i - (a + 1)))" by simp
      then show ?thesis using True by (simp add: write_mem_def)
    qed (use False in \<open>simp add: write_mem_def\<close>)
  qed (simp add: write_mem_def)
qed

lemma store_bytes_eq:
  "store_bytes m a bs =
     (if mapped m a (length bs) then Inr (write_mem m a bs) else Inl Undefined_Behaviour)"
proof (induction bs arbitrary: m a)
  case Nil
  then show ?case by (auto simp: write_mem_def fun_eq_iff)
next
  case (Cons b bs)
  show ?case
    by (cases "m a") (simp_all add: Cons mapped_Suc write_mem_Cons mapped_upd del: fun_upd_apply)
qed

lemma mapped_write [simp]: "mapped m a (length bs) \<Longrightarrow> mapped (write_mem m a bs) c n = mapped m c n"
  unfolding mapped_def write_mem_def by auto

lemma read_write_same [simp]: "read_mem (write_mem m a bs) a (length bs) = bs"
  by (rule nth_equalityI) (simp_all add: read_mem_def write_mem_def)

lemma read_write_other:
  "b + int n \<le> a \<or> a + int (length bs) \<le> b \<Longrightarrow> read_mem (write_mem m a bs) b n = read_mem m b n"
  by (auto simp: read_mem_def write_mem_def)

lemma read_mem_take: "k \<le> n \<Longrightarrow> take k (read_mem m a n) = read_mem m a k"
  by (simp add: read_mem_def take_map)

lemma read_mem_nth: "i < n \<Longrightarrow> read_mem m a n ! i = the (m (a + int i))"
  by (simp add: read_mem_def)

lemma read_mem_drop:
  assumes "k \<le> n"
  shows "drop k (read_mem m a n) = read_mem m (a + int k) (n - k)"
proof (rule nth_equalityI)
  fix i
  assume "i < length (drop k (read_mem m a n))"
  then have "i < n - k" "k + i < n" by simp_all
  then show "drop k (read_mem m a n) ! i = read_mem m (a + int k) (n - k) ! i"
    using assms by (simp add: read_mem_nth add.assoc)
qed simp

text \<open>A narrower read at the address of a wider store sees the low bytes.\<close>

lemma read_write_low:
  assumes "k \<le> length bs"
  shows "read_mem (write_mem m a bs) a k = take k bs"
  using read_mem_take [OF assms, of "write_mem m a bs" a] by simp

end
