(* ===== verification/Host_Float.thy ===== *)
theory Host_Float
  imports Prelude
begin

text \<open>
  The floating point types of the host, which the compiler uses to fold constants
  and the interpreter to run programs. Values are bit patterns; arithmetic,
  comparison and conversion are those of the machine and enter as parameters.
\<close>

datatype float_kind = FLT | DBL | LDBL

fun float_size :: "float_kind \<Rightarrow> nat" where
  "float_size FLT = 4"
| "float_size DBL = 8"
| "float_size LDBL = 10"

datatype arith_op = Add | Sub | Mul | Div
datatype cmp_op = Eq | Ne | Ge | Gt | Le | Lt

text \<open>
  What the compiler uses. An integer is converted by its value; the value of a
  floating point number without its fraction is missing for infinities and numbers
  that are none.
\<close>

record host_floats =
  h_arith :: "float_kind \<Rightarrow> arith_op \<Rightarrow> int \<Rightarrow> int \<Rightarrow> int"
  h_neg :: "float_kind \<Rightarrow> int \<Rightarrow> int"
  h_cmp :: "float_kind \<Rightarrow> cmp_op \<Rightarrow> int \<Rightarrow> int \<Rightarrow> bool"
  h_of_int :: "float_kind \<Rightarrow> int \<Rightarrow> int"
  h_trunc :: "float_kind \<Rightarrow> int \<Rightarrow> int option"
  h_conv :: "float_kind \<Rightarrow> float_kind \<Rightarrow> int \<Rightarrow> int"

end
