(* ===== verification/C_Arith.thy ===== *)
theory C_Arith
  imports VM_Memory Host_Float "HOL-Library.Signed_Division"
begin

text \<open>
  Integer arithmetic of C on values of a type, as both the interpreter and the
  evaluation of constant expressions in the compiler use it: the result is exact,
  reduced modulo the number of values of an unsigned type, and undefined where the
  standard leaves it undefined.
\<close>

abbreviation u64_type :: int_type where "u64_type \<equiv> (8, False)"
abbreviation i64_type :: int_type where "i64_type \<equiv> (8, True)"
abbreviation i32_type :: int_type where "i32_type \<equiv> (4, True)"

section \<open>Operations\<close>

text \<open>Types narrower than \<open>int\<close> are promoted to it before an operation.\<close>

definition promote :: "int_type \<Rightarrow> int_type" where
  "promote it = (if fst it < 4 then i32_type else it)"

text \<open>The exact result in the promoted type: undefined on signed overflow, reduced when unsigned.\<close>

definition c_result :: "int_type \<Rightarrow> int \<Rightarrow> int outcome" where
  "c_result it r =
     (let t = promote it in
      if snd t then (if in_type t r then Inr r else Inl Undefined_Behaviour)
      else Inr (r mod 2 ^ (8 * fst t)))"

definition c_add :: "int_type \<Rightarrow> int \<Rightarrow> int \<Rightarrow> int outcome" where "c_add it a b = c_result it (a + b)"
definition c_sub :: "int_type \<Rightarrow> int \<Rightarrow> int \<Rightarrow> int outcome" where "c_sub it a b = c_result it (a - b)"
definition c_mul :: "int_type \<Rightarrow> int \<Rightarrow> int \<Rightarrow> int outcome" where "c_mul it a b = c_result it (a * b)"

definition c_div :: "int_type \<Rightarrow> int \<Rightarrow> int \<Rightarrow> int outcome" where
  "c_div it a b = (if b = 0 then Inl Undefined_Behaviour else c_result it (a sdiv b))"

definition c_mod :: "int_type \<Rightarrow> int \<Rightarrow> int \<Rightarrow> int outcome" where
  "c_mod it a b =
     (if b = 0 then Inl Undefined_Behaviour else obind (c_result it (a sdiv b)) (\<lambda>_. c_result it (a smod b)))"

definition c_and :: "int_type \<Rightarrow> int \<Rightarrow> int \<Rightarrow> int outcome" where "c_and it a b = c_result it (and a b)"
definition c_or :: "int_type \<Rightarrow> int \<Rightarrow> int \<Rightarrow> int outcome" where "c_or it a b = c_result it (or a b)"
definition c_xor :: "int_type \<Rightarrow> int \<Rightarrow> int \<Rightarrow> int outcome" where "c_xor it a b = c_result it (xor a b)"

definition c_shl :: "int_type \<Rightarrow> int \<Rightarrow> int \<Rightarrow> int outcome" where
  "c_shl it a k =
     (let t = promote it in
      if k < 0 \<or> k \<ge> int (8 * fst t) \<or> (snd t \<and> a < 0) then Inl Undefined_Behaviour
      else c_result it (a * 2 ^ nat k))"

definition c_shr :: "int_type \<Rightarrow> int \<Rightarrow> int \<Rightarrow> int outcome" where
  "c_shr it a k =
     (if k < 0 \<or> k \<ge> int (8 * fst (promote it)) then Inl Undefined_Behaviour
      else c_result it (a div 2 ^ nat k))"

fun cmp_int :: "cmp_op \<Rightarrow> int \<Rightarrow> int \<Rightarrow> bool" where
  "cmp_int Eq a b = (a = b)"
| "cmp_int Ne a b = (a \<noteq> b)"
| "cmp_int Ge a b = (a \<ge> b)"
| "cmp_int Gt a b = (a > b)"
| "cmp_int Le a b = (a \<le> b)"
| "cmp_int Lt a b = (a < b)"

definition bool_int :: "bool \<Rightarrow> int" where
  "bool_int b = (if b then 1 else 0)"

definition c_cmp :: "cmp_op \<Rightarrow> int_type \<Rightarrow> int \<Rightarrow> int \<Rightarrow> int outcome" where
  "c_cmp op it a b = Inr (bool_int (cmp_int op a b))"

definition c_not :: "int_type \<Rightarrow> int \<Rightarrow> int outcome" where "c_not it a = c_result it (- a - 1)"
definition c_neg :: "int_type \<Rightarrow> int \<Rightarrow> int outcome" where "c_neg it a = c_result it (- a)"

end
