(* ===== verification/VM.thy ===== *)
theory VM
  imports C_Type C_Arith
begin

text \<open>
  The interpreter of the linear intermediate representation,
  \<open>src/backend/vm/vmrunlir.c\<close> with the instruction format of \<open>vminstr.h\<close>: one
  definition per instruction, in the order of the dispatch. The machine keeps
  the instruction, stack, base and global pointers; values live in eight-byte
  slots (sixteen for \<open>long double\<close>) of one byte-addressed memory. Signed
  overflow, division by zero, shifts out of range and accesses outside of the
  allocated memory are undefined behaviour of the interpreter; a null pointer
  and a missing function end it with a diagnostic. Floating point arithmetic and
  the builtin functions are parameters. Long doubles are the ten bytes that
  x86-64 stores.
\<close>

section \<open>Instructions\<close>

datatype vm_opcode =
    VM_NOP | VM_LABEL | VM_HALT | VM_STORE | VM_FZERO | VM_CALL | VM_RET | VM_CLUP | VM_CLPOP
  | VM_ENTER | VM_DEREF | VM_CAST | VM_ALLOCA | VM_JMP | VM_JZ | VM_JNZ | VM_PUSH | VM_POP | VM_DEPOP
  | VM_NOT | VM_NEG | VM_ADD | VM_SUB | VM_MUL | VM_DIV | VM_MOD | VM_AND | VM_OR | VM_XOR | VM_SHL | VM_SHR
  | VM_EQ | VM_NE | VM_GE | VM_GT | VM_LE | VM_LT | VM_INC | VM_DEC | VM_JMPTBL | VM_TBL_ENTRY
  | VM_GLOBAL | VM_REFLIB | VM_SAVE_RETVAL | VM_SETJMP | VM_LONGJMP

datatype vm_optype =
    VMOP_NONE | VMOP_LABEL | VMOP_INT8 | VMOP_INT16 | VMOP_INT32 | VMOP_INT64
  | VMOP_UINT8 | VMOP_UINT16 | VMOP_UINT32 | VMOP_UINT64 | VMOP_FLT | VMOP_DBL | VMOP_LDBL | VMOP_CHARP
  | VMOP_VARI | VMOP_VARU | VMOP_VARFL | VMOP_VAROBJ | VMOP_ADDR | VMOP_FUNCNAME | VMOP_FUNCADDR | VMOP_BUILTIN

text \<open>The pointer to a builtin function is an address, zero where there is none.\<close>

record vm_address =
  a_global :: bool
  a_index :: int
  a_base :: int
  a_offset :: int
  a_size :: int
  a_func :: int

text \<open>The union of an instruction: the member that was written. An immediate is its sixteen bytes.\<close>

datatype vm_data =
    D_None
  | D_Size int
  | D_Cast ctype ctype
  | D_Addr vm_address
  | D_Imm "u8 list"

record vm_code =
  opcode :: vm_opcode
  optype :: vm_optype
  vd :: vm_data

fun d_size :: "vm_data \<Rightarrow> int outcome" where
  "d_size (D_Size n) = Inr n"
| "d_size _ = Inl Undefined_Behaviour"

fun d_addr :: "vm_data \<Rightarrow> vm_address outcome" where
  "d_addr (D_Addr a) = Inr a"
| "d_addr _ = Inl Undefined_Behaviour"

fun d_imm :: "vm_data \<Rightarrow> u8 list outcome" where
  "d_imm (D_Imm bs) = Inr bs"
| "d_imm _ = Inl Undefined_Behaviour"

fun d_cast :: "vm_data \<Rightarrow> (ctype \<times> ctype) outcome" where
  "d_cast (D_Cast src dst) = Inr (src, dst)"
| "d_cast _ = Inl Undefined_Behaviour"

section \<open>What the interpreter is run with\<close>

text \<open>
  Floating point values are their bit patterns. A conversion to an integer may
  be undefined, when the value does not fit.
\<close>

record vm_env =
  stack_addr :: int
  f_arith :: "float_kind \<Rightarrow> arith_op \<Rightarrow> int \<Rightarrow> int \<Rightarrow> int"
  f_neg :: "float_kind \<Rightarrow> int \<Rightarrow> int"
  f_cmp :: "float_kind \<Rightarrow> cmp_op \<Rightarrow> int \<Rightarrow> int \<Rightarrow> bool"
  f_of_u64 :: "float_kind \<Rightarrow> int \<Rightarrow> int"
  f_to_uint :: "float_kind \<Rightarrow> nat \<Rightarrow> int \<Rightarrow> int outcome"
  f_conv :: "float_kind \<Rightarrow> float_kind \<Rightarrow> int \<Rightarrow> int"
  builtin :: "int \<Rightarrow> mem \<Rightarrow> int \<Rightarrow> (mem \<times> int) outcome"

record vm_state =
  vmem :: mem
  vip :: int
  vsp :: int
  vbp :: int
  vgp :: int
  vretval :: int
  vretsize :: "int option"

definition SIZE_OF_VM_STACK :: int where
  "SIZE_OF_VM_STACK = 16 * 1024 * 1024"

section \<open>Access to the stack\<close>

definition at_sp :: "vm_env \<Rightarrow> vm_state \<Rightarrow> int \<Rightarrow> int" where
  "at_sp env s off = stack_addr env + vsp s + off"

definition load_int :: "vm_state \<Rightarrow> int \<Rightarrow> int_type \<Rightarrow> int outcome" where
  "load_int s a it = obind (load_bytes (vmem s) a (fst it)) (\<lambda>bs. Inr (decode it bs))"

definition store_int :: "vm_state \<Rightarrow> int \<Rightarrow> nat \<Rightarrow> int \<Rightarrow> vm_state outcome" where
  "store_int s a n v = obind (store_bytes (vmem s) a (le_bytes n v)) (\<lambda>m. Inr (s\<lparr>vmem := m\<rparr>))"

definition copy_mem :: "vm_state \<Rightarrow> int \<Rightarrow> int \<Rightarrow> int \<Rightarrow> vm_state outcome" where
  "copy_mem s dst src n =
     (if n < 0 then Inl Undefined_Behaviour
      else obind (load_bytes (vmem s) src (nat n))
             (\<lambda>bs. obind (store_bytes (vmem s) dst bs) (\<lambda>m. Inr (s\<lparr>vmem := m\<rparr>))))"

definition add_sp :: "int \<Rightarrow> vm_state \<Rightarrow> vm_state" where
  "add_sp n s = s\<lparr>vsp := vsp s + n\<rparr>"

definition next_ip :: "vm_state \<Rightarrow> vm_state outcome" where
  "next_ip s = Inr (s\<lparr>vip := vip s + 1\<rparr>)"

definition PUSHI :: "vm_env \<Rightarrow> int \<Rightarrow> vm_state \<Rightarrow> vm_state outcome" where
  "PUSHI env v s = obind (store_int s (at_sp env s 0) 8 v) (\<lambda>s'. Inr (add_sp 8 s'))"

text \<open>\<open>PUSHF\<close>, \<open>PUSHD\<close> and \<open>PUSHLD\<close>: the bytes of the value, and the slot of its kind.\<close>

definition float_slot :: "float_kind \<Rightarrow> int" where
  "float_slot k = (case k of LDBL \<Rightarrow> 16 | _ \<Rightarrow> 8)"

definition PUSH_float :: "vm_env \<Rightarrow> float_kind \<Rightarrow> int \<Rightarrow> vm_state \<Rightarrow> vm_state outcome" where
  "PUSH_float env k v s =
     obind (store_int s (at_sp env s 0) (float_size k) v) (\<lambda>s'. Inr (add_sp (float_slot k) s'))"

text \<open>\<open>POPI\<close> into a local of the given type: the mask leaves the value as it is.\<close>

definition POPI :: "vm_env \<Rightarrow> int_type \<Rightarrow> vm_state \<Rightarrow> (vm_state \<times> int) outcome" where
  "POPI env it s =
     (let s1 = add_sp (-8) s in obind (load_int s1 (at_sp env s1 0) it) (\<lambda>v. Inr (s1, v)))"

definition load_float :: "vm_state \<Rightarrow> int \<Rightarrow> float_kind \<Rightarrow> int outcome" where
  "load_float s a k = load_int s a (float_size k, False)"

definition POP_float :: "vm_env \<Rightarrow> float_kind \<Rightarrow> vm_state \<Rightarrow> (vm_state \<times> int) outcome" where
  "POP_float env k s =
     (let s1 = add_sp (- float_slot k) s in obind (load_float s1 (at_sp env s1 0) k) (\<lambda>v. Inr (s1, v)))"

definition NULLCHK :: "int \<Rightarrow> unit outcome" where
  "NULLCHK addr = (if addr < 0x1000 \<and> 0 \<le> addr then Inl (Exit_Error ''Oops, null-pointer access.'') else Inr ())"

text \<open>The scalar operand types: integer types and floating point kinds.\<close>

fun int_type_of :: "vm_optype \<Rightarrow> int_type option" where
  "int_type_of VMOP_INT8 = Some (1, True)"
| "int_type_of VMOP_INT16 = Some (2, True)"
| "int_type_of VMOP_INT32 = Some (4, True)"
| "int_type_of VMOP_INT64 = Some (8, True)"
| "int_type_of VMOP_UINT8 = Some (1, False)"
| "int_type_of VMOP_UINT16 = Some (2, False)"
| "int_type_of VMOP_UINT32 = Some (4, False)"
| "int_type_of VMOP_UINT64 = Some (8, False)"
| "int_type_of _ = None"

fun float_kind_of :: "vm_optype \<Rightarrow> float_kind option" where
  "float_kind_of VMOP_FLT = Some FLT"
| "float_kind_of VMOP_DBL = Some DBL"
| "float_kind_of VMOP_LDBL = Some LDBL"
| "float_kind_of _ = None"

text \<open>How many bytes a scalar store moves, and the slot it takes them from.\<close>

definition scalar_slot :: "vm_optype \<Rightarrow> (nat \<times> int) option" where
  "scalar_slot ty =
     (case int_type_of ty of
        Some it \<Rightarrow> Some (fst it, 8)
      | None \<Rightarrow> (case float_kind_of ty of
                   Some k \<Rightarrow> Some (float_size k, float_slot k)
                 | None \<Rightarrow> (if ty = VMOP_CHARP then Some (8, 8) else None)))"

definition gbp :: "vm_state \<Rightarrow> vm_address \<Rightarrow> int" where
  "gbp s a = (if a_global a then vgp s else vbp s)"

definition var_addr :: "vm_env \<Rightarrow> vm_state \<Rightarrow> vm_address \<Rightarrow> int" where
  "var_addr env s a = stack_addr env + gbp s a + a_index a"

section \<open>Stores and calls\<close>

text \<open>The default branch copies an object from above the stack pointer, as the code does.\<close>

definition vm_store :: "vm_env \<Rightarrow> vm_code \<Rightarrow> vm_state \<Rightarrow> vm_state outcome" where
  "vm_store env code s =
     obind (d_addr (vd code)) (\<lambda>a.
       obind (case scalar_slot (optype code) of
                Some (n, slot) \<Rightarrow> copy_mem s (var_addr env s a) (at_sp env s (- slot)) (int n)
              | None \<Rightarrow> copy_mem s (var_addr env s a) (at_sp env s 0) (a_size a))
         next_ip)"

definition zero_mem :: "vm_state \<Rightarrow> int \<Rightarrow> nat \<Rightarrow> vm_state outcome" where
  "zero_mem s a n = obind (store_bytes (vmem s) a (replicate n 0)) (\<lambda>m. Inr (s\<lparr>vmem := m\<rparr>))"

definition vm_fzero :: "vm_env \<Rightarrow> vm_code \<Rightarrow> vm_state \<Rightarrow> vm_state outcome" where
  "vm_fzero env code s =
     obind (d_addr (vd code)) (\<lambda>a.
       obind (if a_size a > 8 \<or> a_size a \<in> {1, 2, 4, 8}
              then zero_mem s (var_addr env s a) (nat (a_size a)) else Inr s)
         next_ip)"

definition vm_call :: "vm_env \<Rightarrow> vm_code \<Rightarrow> vm_state \<Rightarrow> vm_state outcome" where
  "vm_call env code s =
     (if optype code = VMOP_FUNCADDR then
        obind (d_addr (vd code)) (\<lambda>a. obind (PUSHI env (vip s + 1) s) (\<lambda>s1. Inr (s1\<lparr>vip := a_index a\<rparr>)))
      else if optype code = VMOP_ADDR then
        obind (d_addr (vd code)) (\<lambda>a. obind (PUSHI env (vip s + 1) s) (\<lambda>s1.
          obind (load_int s1 (var_addr env s1 a) u64_type) (\<lambda>v. Inr (s1\<lparr>vip := to_type i64_type v\<rparr>))))
      else if optype code = VMOP_BUILTIN then
        obind (d_addr (vd code)) (\<lambda>a.
          if a_func a = 0 then Inl (Exit_Error ''Oops, function is not available.'')
          else obind (builtin env (a_func a) (vmem s) (vsp s)) (\<lambda>(m, r).
            next_ip (add_sp r (s\<lparr>vmem := m, vretsize := Some r\<rparr>))))
      else if optype code = VMOP_FUNCNAME then Inl (Exit_Error ''Oops, function is not available.'')
      else Inr s)"

text \<open>A 64-bit offset assigned to a variable of type \<open>int\<close>.\<close>

definition to_int :: "int \<Rightarrow> int" where
  "to_int v = to_type i32_type v"

text \<open>
  The return value moves down over the frame: an object by \<open>memmove\<close>, a single
  slot by an assignment.
\<close>

definition move_result :: "vm_env \<Rightarrow> vm_state \<Rightarrow> int \<Rightarrow> int \<Rightarrow> vm_state outcome" where
  "move_result env s vp sz = copy_mem s (at_sp env s 0) (stack_addr env + vp) (if sz > 8 then sz else 8)"

definition vm_ret :: "vm_env \<Rightarrow> vm_code \<Rightarrow> vm_state \<Rightarrow> vm_state outcome" where
  "vm_ret env code s =
     obind (d_size (vd code)) (\<lambda>n.
       let sz = PAD8 n;
           vp = to_int (vsp s - sz);
           s1 = s\<lparr>vsp := vbp s\<rparr>
       in obind (POPI env i64_type s1) (\<lambda>(s2, bp).
          obind (POPI env i64_type (s2\<lparr>vbp := bp\<rparr>)) (\<lambda>(s3, ip).
          obind (move_result env (s3\<lparr>vip := ip\<rparr>) vp sz) (\<lambda>s4.
          Inr ((add_sp sz s4)\<lparr>vretsize := Some sz\<rparr>)))))"

definition vm_clup :: "vm_env \<Rightarrow> vm_code \<Rightarrow> vm_state \<Rightarrow> vm_state outcome" where
  "vm_clup env code s =
     obind (d_size (vd code)) (\<lambda>n.
       obind (oassert (n > 0)) (\<lambda>_.
         case vretsize s of
           None \<Rightarrow> Inl Undefined_Behaviour
         | Some r \<Rightarrow>
             (let vp = to_int (vsp s - r);
                  s1 = s\<lparr>vsp := vp - n\<rparr>
              in obind (move_result env s1 vp r) (\<lambda>s2. next_ip (add_sp r s2)))))"

definition vm_clpop :: "vm_code \<Rightarrow> vm_state \<Rightarrow> vm_state outcome" where
  "vm_clpop code s =
     obind (d_size (vd code)) (\<lambda>n. obind (oassert (n > 0)) (\<lambda>_. next_ip (add_sp (- n) s)))"

definition vm_enter :: "vm_env \<Rightarrow> vm_code \<Rightarrow> vm_state \<Rightarrow> vm_state outcome" where
  "vm_enter env code s =
     obind (d_size (vd code)) (\<lambda>n.
       obind (PUSHI env (vbp s) s) (\<lambda>s1. next_ip (add_sp n (s1\<lparr>vbp := vsp s1\<rparr>))))"

definition vm_deref :: "vm_env \<Rightarrow> vm_code \<Rightarrow> vm_state \<Rightarrow> vm_state outcome" where
  "vm_deref env code s =
     obind (POPI env u64_type s) (\<lambda>(s1, addr).
       obind (case int_type_of (optype code) of
                Some it \<Rightarrow> obind (NULLCHK addr) (\<lambda>_. obind (load_int s1 addr it) (\<lambda>v. PUSHI env v s1))
              | None \<Rightarrow>
                  (case float_kind_of (optype code) of
                     Some k \<Rightarrow> obind (NULLCHK addr) (\<lambda>_. obind (load_float s1 addr k) (\<lambda>v. PUSH_float env k v s1))
                   | None \<Rightarrow>
                       obind (d_addr (vd code)) (\<lambda>a.
                         obind (copy_mem s1 (at_sp env s1 0) addr (a_size a)) (\<lambda>s2. Inr (add_sp (PAD8 (a_size a)) s2)))))
         next_ip)"

section \<open>Conversions\<close>

definition int_size :: "type_tag \<Rightarrow> nat option" where
  "int_size t = (case t of T_BOOL \<Rightarrow> Some 1 | T_CHAR \<Rightarrow> Some 1 | T_SHORT \<Rightarrow> Some 2 | T_INT \<Rightarrow> Some 4 | T_LONG \<Rightarrow> Some 8 | _ \<Rightarrow> None)"

definition float_kind_tag :: "type_tag \<Rightarrow> float_kind option" where
  "float_kind_tag t = (case t of T_FLOAT \<Rightarrow> Some FLT | T_DOUBLE \<Rightarrow> Some DBL | T_LDOUBLE \<Rightarrow> Some LDBL | _ \<Rightarrow> None)"

text \<open>
  \<open>CAST_FROM\<close>: both branches of its test of \<open>is_unsigned(dst)\<close> are the same. The
  conversion to floating point starts from the unsigned slot.
\<close>

definition CAST_FROM :: "vm_env \<Rightarrow> nat \<Rightarrow> ctype \<Rightarrow> ctype \<Rightarrow> vm_state \<Rightarrow> vm_state outcome" where
  "CAST_FROM env n src dst s =
     (let top = at_sp env s (-8) in
      case int_size (type_of dst) of
        Some k \<Rightarrow>
          obind (load_int s top u64_type) (\<lambda>v.
            store_int s top k (if type_of dst = T_BOOL then (if v \<noteq> 0 then 1 else 0) else to_type (n, is_signed src) v))
      | None \<Rightarrow>
          (case float_kind_tag (type_of dst) of
             Some f \<Rightarrow>
               obind (load_int s top u64_type) (\<lambda>v.
                 obind (store_int s top (float_size f) (f_of_u64 env f v)) (\<lambda>s1. Inr (add_sp (float_slot f - 8) s1)))
           | None \<Rightarrow> Inr s))"

definition cast_float :: "vm_env \<Rightarrow> float_kind \<Rightarrow> ctype \<Rightarrow> vm_state \<Rightarrow> vm_state outcome" where
  "cast_float env f dst s =
     (let top = at_sp env s (-8) in
      case int_size (type_of dst) of
        Some k \<Rightarrow> obind (load_float s top f) (\<lambda>v. obind (f_to_uint env f k v) (\<lambda>r. store_int s top k r))
      | None \<Rightarrow>
          (case float_kind_tag (type_of dst) of
             Some LDBL \<Rightarrow>
               obind (load_float s top DBL) (\<lambda>v.
                 obind (store_int s top 10 (f_conv env DBL LDBL v)) (\<lambda>s1. Inr (add_sp 8 s1)))
           | Some g \<Rightarrow>
               (if g = f then Inr s
                else obind (load_float s top f) (\<lambda>v. store_int s top (float_size g) (f_conv env f g v)))
           | None \<Rightarrow> Inr s))"

definition cast_long_double :: "vm_env \<Rightarrow> ctype \<Rightarrow> vm_state \<Rightarrow> vm_state outcome" where
  "cast_long_double env dst s =
     (let top = at_sp env s (-16) in
      obind
        (case int_size (type_of dst) of
           Some k \<Rightarrow> obind (load_float s top DBL) (\<lambda>v. obind (f_to_uint env DBL k v) (\<lambda>r. store_int s top k r))
         | None \<Rightarrow>
             (case float_kind_tag (type_of dst) of
                Some FLT \<Rightarrow> obind (load_float s top LDBL) (\<lambda>v. store_int s top 4 (f_conv env LDBL FLT v))
              | Some DBL \<Rightarrow> obind (load_float s top LDBL) (\<lambda>v. store_int s top 8 (f_conv env LDBL DBL v))
              | _ \<Rightarrow> Inr s))
        (\<lambda>s1. Inr (add_sp (-8) s1)))"

definition vm_cast :: "vm_env \<Rightarrow> vm_code \<Rightarrow> vm_state \<Rightarrow> vm_state outcome" where
  "vm_cast env code s =
     obind (d_cast (vd code)) (\<lambda>(src, dst).
       obind (case int_size (type_of src) of
                Some n \<Rightarrow> CAST_FROM env n src dst s
              | None \<Rightarrow> (case float_kind_tag (type_of src) of
                          Some LDBL \<Rightarrow> cast_long_double env dst s
                        | Some f \<Rightarrow> cast_float env f dst s
                        | None \<Rightarrow> Inr s))
         next_ip)"

section \<open>Jumps\<close>

definition vm_jmp :: "vm_code \<Rightarrow> vm_state \<Rightarrow> vm_state outcome" where
  "vm_jmp code s = obind (d_addr (vd code)) (\<lambda>a. Inr (s\<lparr>vip := vip s + a_index a\<rparr>))"

definition vm_jz :: "vm_env \<Rightarrow> vm_code \<Rightarrow> vm_state \<Rightarrow> vm_state outcome" where
  "vm_jz env code s =
     obind (POPI env u64_type s) (\<lambda>(s1, cond). if cond = 0 then vm_jmp code s1 else next_ip s1)"

definition vm_jnz :: "vm_env \<Rightarrow> vm_code \<Rightarrow> vm_state \<Rightarrow> vm_state outcome" where
  "vm_jnz env code s =
     obind (POPI env u64_type s) (\<lambda>(s1, cond). if cond \<noteq> 0 then vm_jmp code s1 else next_ip s1)"

section \<open>Push and pop\<close>

definition push_object :: "vm_env \<Rightarrow> vm_address \<Rightarrow> vm_state \<Rightarrow> vm_state outcome" where
  "push_object env a s =
     obind (copy_mem s (at_sp env s 0) (var_addr env s a) (a_size a)) (\<lambda>s1. Inr (add_sp (PAD8 (a_size a)) s1))"

definition push_var :: "vm_env \<Rightarrow> bool \<Rightarrow> vm_address \<Rightarrow> vm_state \<Rightarrow> vm_state outcome" where
  "push_var env sg a s =
     (if a_size a \<in> {1, 2, 4, 8}
      then obind (load_int s (var_addr env s a) (nat (a_size a), sg)) (\<lambda>v. PUSHI env v s)
      else push_object env a s)"

definition push_float_var :: "vm_env \<Rightarrow> vm_address \<Rightarrow> vm_state \<Rightarrow> vm_state outcome" where
  "push_float_var env a s =
     (if a_size a = 4 then obind (load_float s (var_addr env s a) FLT) (\<lambda>v. PUSH_float env FLT v s)
      else if a_size a = 8 then obind (load_float s (var_addr env s a) DBL) (\<lambda>v. PUSH_float env DBL v s)
      else if a_size a = 16 then obind (load_float s (var_addr env s a) LDBL) (\<lambda>v. PUSH_float env LDBL v s)
      else Inr s)"

definition push_imm :: "vm_env \<Rightarrow> int_type \<Rightarrow> u8 list \<Rightarrow> vm_state \<Rightarrow> vm_state outcome" where
  "push_imm env it bs s = PUSHI env (decode it (take (fst it) bs)) s"

definition vm_push :: "vm_env \<Rightarrow> vm_code \<Rightarrow> vm_state \<Rightarrow> vm_state outcome" where
  "vm_push env code s =
     obind
       (case int_type_of (optype code) of
          Some it \<Rightarrow> obind (d_imm (vd code)) (\<lambda>bs. push_imm env it bs s)
        | None \<Rightarrow>
            (case float_kind_of (optype code) of
               Some k \<Rightarrow> obind (d_imm (vd code)) (\<lambda>bs. PUSH_float env k (le_int (take (float_size k) bs)) s)
             | None \<Rightarrow>
                 (case optype code of
                    VMOP_CHARP \<Rightarrow> obind (d_imm (vd code)) (\<lambda>bs. push_imm env u64_type bs s)
                  | VMOP_VARI \<Rightarrow> obind (d_addr (vd code)) (\<lambda>a. push_var env True a s)
                  | VMOP_VARU \<Rightarrow> obind (d_addr (vd code)) (\<lambda>a. push_var env False a s)
                  | VMOP_VAROBJ \<Rightarrow> obind (d_addr (vd code)) (\<lambda>a. push_object env a s)
                  | VMOP_VARFL \<Rightarrow> obind (d_addr (vd code)) (\<lambda>a. push_float_var env a s)
                  | VMOP_ADDR \<Rightarrow> obind (d_addr (vd code)) (\<lambda>a. PUSHI env (var_addr env s a) s)
                  | VMOP_FUNCADDR \<Rightarrow> obind (d_addr (vd code)) (\<lambda>a. PUSHI env (a_index a) s)
                  | VMOP_BUILTIN \<Rightarrow> obind (d_addr (vd code)) (\<lambda>a. PUSHI env (a_func a) s)
                  | _ \<Rightarrow> Inr s)))
       next_ip"

text \<open>The slot, or the padded object, at the top goes to an address.\<close>

definition pop_to :: "vm_env \<Rightarrow> vm_optype \<Rightarrow> int \<Rightarrow> int \<Rightarrow> vm_state \<Rightarrow> vm_state outcome" where
  "pop_to env ty sz addr s =
     (case scalar_slot ty of
        Some (n, slot) \<Rightarrow> (let s1 = add_sp (- slot) s in copy_mem s1 addr (at_sp env s1 0) (int n))
      | None \<Rightarrow> (let s1 = add_sp (- PAD8 sz) s in copy_mem s1 addr (at_sp env s1 0) sz))"

definition vm_pop :: "vm_env \<Rightarrow> vm_code \<Rightarrow> vm_state \<Rightarrow> vm_state outcome" where
  "vm_pop env code s =
     obind
       (if optype code = VMOP_NONE then obind (d_size (vd code)) (\<lambda>n. Inr (add_sp (- n) s))
        else obind (d_addr (vd code)) (\<lambda>a. pop_to env (optype code) (a_size a) (var_addr env s a) s))
       next_ip"

definition vm_depop :: "vm_env \<Rightarrow> vm_code \<Rightarrow> vm_state \<Rightarrow> vm_state outcome" where
  "vm_depop env code s =
     obind (d_addr (vd code)) (\<lambda>a.
       obind (load_int s (stack_addr env + gbp s a + a_base a) u64_type) (\<lambda>addr.
         obind (NULLCHK addr) (\<lambda>_.
           obind (pop_to env (optype code) (a_size a) (addr + a_offset a) s) next_ip)))"

section \<open>Arithmetic instructions\<close>

definition OP2I :: "vm_env \<Rightarrow> (int_type \<Rightarrow> int \<Rightarrow> int \<Rightarrow> int outcome) \<Rightarrow> int_type \<Rightarrow> vm_state \<Rightarrow> vm_state outcome" where
  "OP2I env f it s =
     obind (POPI env it s) (\<lambda>(s1, v2).
       obind (load_int s1 (at_sp env s1 (-8)) it) (\<lambda>v1.
         obind (f it v1 v2) (\<lambda>r. store_int s1 (at_sp env s1 (-8)) 8 r)))"

text \<open>\<open>OP2F\<close>, \<open>OP2D\<close>, \<open>OP2LD\<close>: the result replaces the bytes of the first operand.\<close>

definition OP2_float :: "vm_env \<Rightarrow> arith_op \<Rightarrow> float_kind \<Rightarrow> vm_state \<Rightarrow> vm_state outcome" where
  "OP2_float env op k s =
     obind (POP_float env k s) (\<lambda>(s1, v2).
       let a = at_sp env s1 (- float_slot k)
       in obind (load_float s1 a k) (\<lambda>v1. store_int s1 a (float_size k) (f_arith env k op v1 v2)))"

text \<open>\<open>OP2DC\<close> and \<open>OP2LDC\<close>: the outcome of a comparison goes to the slot eight bytes below the top.\<close>

definition OP2_cmp :: "vm_env \<Rightarrow> cmp_op \<Rightarrow> float_kind \<Rightarrow> vm_state \<Rightarrow> vm_state outcome" where
  "OP2_cmp env op k s =
     obind (POP_float env k s) (\<lambda>(s1, v2).
       obind (load_float s1 (at_sp env s1 (- float_slot k)) k) (\<lambda>v1.
         store_int s1 (at_sp env s1 (-8)) 8 (bool_int (f_cmp env k op v1 v2))))"

text \<open>The shift count is read as an \<open>int32_t\<close>; the mask of the narrow types keeps its low bits only.\<close>

definition OP2S :: "vm_env \<Rightarrow> (int_type \<Rightarrow> int \<Rightarrow> int \<Rightarrow> int outcome) \<Rightarrow> int_type \<Rightarrow> vm_state \<Rightarrow> vm_state outcome" where
  "OP2S env f it s =
     obind (POPI env i32_type s) (\<lambda>(s1, v2).
       let k = (if fst it < 4 then v2 mod 2 ^ (8 * fst it) else v2)
       in obind (POPI env it s1) (\<lambda>(s2, v1). obind (f it v1 k) (\<lambda>r. PUSHI env r s2)))"

definition by_int :: "vm_code \<Rightarrow> (int_type \<Rightarrow> vm_state \<Rightarrow> vm_state outcome) \<Rightarrow> vm_state \<Rightarrow> vm_state outcome" where
  "by_int code f s = obind (case int_type_of (optype code) of Some it \<Rightarrow> f it s | None \<Rightarrow> Inr s) next_ip"

definition by_type ::
  "vm_code \<Rightarrow> (int_type \<Rightarrow> vm_state \<Rightarrow> vm_state outcome) \<Rightarrow> (float_kind \<Rightarrow> vm_state \<Rightarrow> vm_state outcome)
   \<Rightarrow> vm_state \<Rightarrow> vm_state outcome" where
  "by_type code f g s =
     obind (case int_type_of (optype code) of
              Some it \<Rightarrow> f it s
            | None \<Rightarrow> (case float_kind_of (optype code) of Some k \<Rightarrow> g k s | None \<Rightarrow> Inr s))
       next_ip"

definition NOT_int :: "vm_env \<Rightarrow> int_type \<Rightarrow> vm_state \<Rightarrow> vm_state outcome" where
  "NOT_int env it s = obind (POPI env it s) (\<lambda>(s1, v). obind (c_not it v) (\<lambda>r. PUSHI env r s1))"

definition NEGI :: "vm_env \<Rightarrow> int_type \<Rightarrow> vm_state \<Rightarrow> vm_state outcome" where
  "NEGI env it s =
     obind (load_int s (at_sp env s (-8)) it) (\<lambda>v. obind (c_neg it v) (\<lambda>r. store_int s (at_sp env s (-8)) 8 r))"

definition NEG_float :: "vm_env \<Rightarrow> float_kind \<Rightarrow> vm_state \<Rightarrow> vm_state outcome" where
  "NEG_float env k s =
     (let a = at_sp env s (- float_slot k)
      in obind (load_float s a k) (\<lambda>v. store_int s a (float_size k) (f_neg env k v)))"

definition vm_not :: "vm_env \<Rightarrow> vm_code \<Rightarrow> vm_state \<Rightarrow> vm_state outcome" where
  "vm_not env code = by_int code (NOT_int env)"
definition vm_neg :: "vm_env \<Rightarrow> vm_code \<Rightarrow> vm_state \<Rightarrow> vm_state outcome" where
  "vm_neg env code = by_type code (NEGI env) (NEG_float env)"
definition vm_add :: "vm_env \<Rightarrow> vm_code \<Rightarrow> vm_state \<Rightarrow> vm_state outcome" where
  "vm_add env code = by_type code (OP2I env c_add) (OP2_float env Add)"
definition vm_sub :: "vm_env \<Rightarrow> vm_code \<Rightarrow> vm_state \<Rightarrow> vm_state outcome" where
  "vm_sub env code = by_type code (OP2I env c_sub) (OP2_float env Sub)"
definition vm_mul :: "vm_env \<Rightarrow> vm_code \<Rightarrow> vm_state \<Rightarrow> vm_state outcome" where
  "vm_mul env code = by_type code (OP2I env c_mul) (OP2_float env Mul)"
definition vm_div :: "vm_env \<Rightarrow> vm_code \<Rightarrow> vm_state \<Rightarrow> vm_state outcome" where
  "vm_div env code = by_type code (OP2I env c_div) (OP2_float env Div)"
definition vm_mod :: "vm_env \<Rightarrow> vm_code \<Rightarrow> vm_state \<Rightarrow> vm_state outcome" where
  "vm_mod env code = by_int code (OP2I env c_mod)"
definition vm_and :: "vm_env \<Rightarrow> vm_code \<Rightarrow> vm_state \<Rightarrow> vm_state outcome" where
  "vm_and env code = by_int code (OP2I env c_and)"
definition vm_or :: "vm_env \<Rightarrow> vm_code \<Rightarrow> vm_state \<Rightarrow> vm_state outcome" where
  "vm_or env code = by_int code (OP2I env c_or)"
definition vm_xor :: "vm_env \<Rightarrow> vm_code \<Rightarrow> vm_state \<Rightarrow> vm_state outcome" where
  "vm_xor env code = by_int code (OP2I env c_xor)"
definition vm_shl :: "vm_env \<Rightarrow> vm_code \<Rightarrow> vm_state \<Rightarrow> vm_state outcome" where
  "vm_shl env code = by_int code (OP2S env c_shl)"
definition vm_shr :: "vm_env \<Rightarrow> vm_code \<Rightarrow> vm_state \<Rightarrow> vm_state outcome" where
  "vm_shr env code = by_int code (OP2S env c_shr)"
definition vm_eq :: "vm_env \<Rightarrow> vm_code \<Rightarrow> vm_state \<Rightarrow> vm_state outcome" where
  "vm_eq env code = by_type code (OP2I env (c_cmp Eq)) (OP2_cmp env Eq)"
definition vm_ne :: "vm_env \<Rightarrow> vm_code \<Rightarrow> vm_state \<Rightarrow> vm_state outcome" where
  "vm_ne env code = by_type code (OP2I env (c_cmp Ne)) (OP2_cmp env Ne)"
definition vm_ge :: "vm_env \<Rightarrow> vm_code \<Rightarrow> vm_state \<Rightarrow> vm_state outcome" where
  "vm_ge env code = by_type code (OP2I env (c_cmp Ge)) (OP2_cmp env Ge)"
definition vm_gt :: "vm_env \<Rightarrow> vm_code \<Rightarrow> vm_state \<Rightarrow> vm_state outcome" where
  "vm_gt env code = by_type code (OP2I env (c_cmp Gt)) (OP2_cmp env Gt)"
definition vm_le :: "vm_env \<Rightarrow> vm_code \<Rightarrow> vm_state \<Rightarrow> vm_state outcome" where
  "vm_le env code = by_type code (OP2I env (c_cmp Le)) (OP2_cmp env Le)"
definition vm_lt :: "vm_env \<Rightarrow> vm_code \<Rightarrow> vm_state \<Rightarrow> vm_state outcome" where
  "vm_lt env code = by_type code (OP2I env (c_cmp Lt)) (OP2_cmp env Lt)"

text \<open>\<open>++\<close> and \<open>--\<close> on the low four bytes of the top slot.\<close>

definition vm_inc :: "vm_env \<Rightarrow> vm_state \<Rightarrow> vm_state outcome" where
  "vm_inc env s =
     obind (load_int s (at_sp env s (-8)) i32_type) (\<lambda>v.
       obind (c_add i32_type v 1) (\<lambda>r. obind (store_int s (at_sp env s (-8)) 4 r) next_ip))"

definition vm_dec :: "vm_env \<Rightarrow> vm_state \<Rightarrow> vm_state outcome" where
  "vm_dec env s =
     obind (load_int s (at_sp env s (-8)) i32_type) (\<lambda>v.
       obind (c_sub i32_type v 1) (\<lambda>r. obind (store_int s (at_sp env s (-8)) 4 r) next_ip))"

section \<open>Tables, return value and non-local jumps\<close>

type_synonym vm_program = "vm_code list"

definition fetch :: "vm_program \<Rightarrow> int \<Rightarrow> vm_code outcome" where
  "fetch prog ip = (if 0 \<le> ip \<and> ip < int (length prog) then Inr (prog ! nat ip) else Inl Undefined_Behaviour)"

definition vm_jmptbl :: "vm_env \<Rightarrow> vm_program \<Rightarrow> vm_state \<Rightarrow> vm_state outcome" where
  "vm_jmptbl env prog s =
     obind (POPI env (4, False) s) (\<lambda>(s1, index).
       let ip = vip s1 + (index + 1) mod 2 ^ 32
       in obind (fetch prog ip) (\<lambda>e. obind (d_addr (vd e)) (\<lambda>a. Inr (s1\<lparr>vip := ip + a_index a\<rparr>))))"

definition vm_save_retval :: "vm_env \<Rightarrow> vm_state \<Rightarrow> vm_state outcome" where
  "vm_save_retval env s =
     obind (load_int s (at_sp env s (-8)) i64_type) (\<lambda>v. next_ip (s\<lparr>vretval := v\<rparr>))"

definition vm_setjmp :: "vm_env \<Rightarrow> vm_state \<Rightarrow> vm_state outcome" where
  "vm_setjmp env s =
     obind (load_int s (at_sp env s (-8)) u64_type) (\<lambda>jmpbuf.
       let s1 = s\<lparr>vip := vip s + 1\<rparr> in
       obind (store_int s1 jmpbuf 8 (vip s1)) (\<lambda>s2.
         obind (store_int s2 (jmpbuf + 8) 8 (vbp s2)) (\<lambda>s3.
           obind (store_int s3 (jmpbuf + 16) 8 (vsp s3)) (\<lambda>s4.
             store_int s4 (at_sp env s4 (-8)) 8 0))))"

definition vm_longjmp :: "vm_env \<Rightarrow> vm_state \<Rightarrow> vm_state outcome" where
  "vm_longjmp env s =
     obind (load_int s (at_sp env s (-8)) u64_type) (\<lambda>jmpbuf.
       obind (load_int s (at_sp env s (-16)) i64_type) (\<lambda>r.
         obind (load_int s jmpbuf i64_type) (\<lambda>ip.
           obind (load_int s (jmpbuf + 8) i64_type) (\<lambda>bp.
             obind (load_int s (jmpbuf + 16) i64_type) (\<lambda>sp.
               PUSHI env r (s\<lparr>vip := ip, vbp := bp, vsp := sp\<rparr>))))))"

section \<open>The dispatch\<close>

datatype vm_result = Running vm_state | Halted vm_state

definition vm_dispatch :: "vm_env \<Rightarrow> vm_program \<Rightarrow> vm_code \<Rightarrow> vm_state \<Rightarrow> vm_state outcome" where
  "vm_dispatch env prog code s =
     (case opcode code of
        VM_NOP \<Rightarrow> next_ip s
      | VM_LABEL \<Rightarrow> Inl Assert_Failed
      | VM_STORE \<Rightarrow> vm_store env code s
      | VM_FZERO \<Rightarrow> vm_fzero env code s
      | VM_CALL \<Rightarrow> vm_call env code s
      | VM_RET \<Rightarrow> vm_ret env code s
      | VM_CLUP \<Rightarrow> vm_clup env code s
      | VM_CLPOP \<Rightarrow> vm_clpop code s
      | VM_ENTER \<Rightarrow> vm_enter env code s
      | VM_DEREF \<Rightarrow> vm_deref env code s
      | VM_CAST \<Rightarrow> vm_cast env code s
      | VM_ALLOCA \<Rightarrow> next_ip s
      | VM_JMP \<Rightarrow> vm_jmp code s
      | VM_JZ \<Rightarrow> vm_jz env code s
      | VM_JNZ \<Rightarrow> vm_jnz env code s
      | VM_PUSH \<Rightarrow> vm_push env code s
      | VM_POP \<Rightarrow> vm_pop env code s
      | VM_DEPOP \<Rightarrow> vm_depop env code s
      | VM_NOT \<Rightarrow> vm_not env code s
      | VM_NEG \<Rightarrow> vm_neg env code s
      | VM_ADD \<Rightarrow> vm_add env code s
      | VM_SUB \<Rightarrow> vm_sub env code s
      | VM_MUL \<Rightarrow> vm_mul env code s
      | VM_DIV \<Rightarrow> vm_div env code s
      | VM_MOD \<Rightarrow> vm_mod env code s
      | VM_AND \<Rightarrow> vm_and env code s
      | VM_OR \<Rightarrow> vm_or env code s
      | VM_XOR \<Rightarrow> vm_xor env code s
      | VM_SHL \<Rightarrow> vm_shl env code s
      | VM_SHR \<Rightarrow> vm_shr env code s
      | VM_EQ \<Rightarrow> vm_eq env code s
      | VM_NE \<Rightarrow> vm_ne env code s
      | VM_GE \<Rightarrow> vm_ge env code s
      | VM_GT \<Rightarrow> vm_gt env code s
      | VM_LE \<Rightarrow> vm_le env code s
      | VM_LT \<Rightarrow> vm_lt env code s
      | VM_INC \<Rightarrow> vm_inc env s
      | VM_DEC \<Rightarrow> vm_dec env s
      | VM_JMPTBL \<Rightarrow> vm_jmptbl env prog s
      | VM_SAVE_RETVAL \<Rightarrow> vm_save_retval env s
      | VM_SETJMP \<Rightarrow> vm_setjmp env s
      | VM_LONGJMP \<Rightarrow> vm_longjmp env s
      | _ \<Rightarrow> Inr (s\<lparr>vip := -1\<rparr>))"

text \<open>The opcodes that no code handles share the entry of \<open>VM_HALT\<close> in the dispatch table.\<close>

definition halting :: "vm_opcode \<Rightarrow> bool" where
  "halting op \<longleftrightarrow> op \<in> {VM_HALT, VM_TBL_ENTRY, VM_GLOBAL, VM_REFLIB}"

definition vm_step :: "vm_env \<Rightarrow> vm_program \<Rightarrow> vm_state \<Rightarrow> vm_result outcome" where
  "vm_step env prog s =
     obind (fetch prog (vip s)) (\<lambda>code.
       obind (vm_dispatch env prog code s) (\<lambda>s'. Inr (if halting (opcode code) then Halted s' else Running s')))"

text \<open>The loop may run forever: it is given fuel, and \<open>None\<close> says that the fuel did not suffice.\<close>

fun run_vm :: "nat \<Rightarrow> vm_env \<Rightarrow> vm_program \<Rightarrow> vm_state \<Rightarrow> vm_state outcome option" where
  "run_vm 0 env prog s = None"
| "run_vm (Suc n) env prog s =
     (case vm_step env prog s of
        Inl e \<Rightarrow> Some (Inl e)
      | Inr (Halted s') \<Rightarrow> Some (Inr s')
      | Inr (Running s') \<Rightarrow> run_vm n env prog s')"

definition vm_initial :: "mem \<Rightarrow> int \<Rightarrow> int \<Rightarrow> vm_state" where
  "vm_initial m ip bp =
     \<lparr>vmem = m, vip = ip, vsp = bp, vbp = bp, vgp = bp + 8, vretval = 0, vretsize = None\<rparr>"

definition run_vm_by_lir :: "nat \<Rightarrow> vm_env \<Rightarrow> vm_program \<Rightarrow> int \<Rightarrow> mem \<Rightarrow> int \<Rightarrow> int outcome option" where
  "run_vm_by_lir fuel env prog ip m bp =
     map_option (\<lambda>r. obind r (\<lambda>s. Inr (to_int (vretval s)))) (run_vm fuel env prog (vm_initial m ip bp))"

text \<open>
  The memory of a run: \<open>other\<close> is what the process has besides, then the zeroed
  block of the stack with the global data copied to its beginning.
\<close>

definition vm_memory :: "mem \<Rightarrow> int \<Rightarrow> u8 list \<Rightarrow> mem" where
  "vm_memory other base global =
     (\<lambda>i. if base \<le> i \<and> i < base + int (length global) then Some (global ! nat (i - base))
          else if base \<le> i \<and> i < base + SIZE_OF_VM_STACK + int (length global) + 1 then Some 0
          else other i)"

definition vm_run_lir_impl :: "nat \<Rightarrow> vm_env \<Rightarrow> vm_program \<Rightarrow> int \<Rightarrow> mem \<Rightarrow> u8 list \<Rightarrow> int outcome option" where
  "vm_run_lir_impl fuel env prog entry other global =
     run_vm_by_lir fuel env prog entry (vm_memory other (stack_addr env) global) (PAD_N (int (length global) + 1) 16)"

end
