(* ===== verification/VM_Correct.thy ===== *)
theory VM_Correct
  imports VM
begin

text \<open>
  What the interpreter's instructions do, stated on whole values: integer
  operations compute the C result or are undefined exactly where C says so,
  integer casts convert, variables are stored and read back, a call with its
  return restores the caller's frame and leaves the result, \<open>longjmp\<close> resumes
  after \<open>setjmp\<close>, the stack stays aligned, and the fuel of a run does not matter
  once it suffices.
\<close>

named_theorems vm_simps "memory primitives of the interpreter in terms of reads and writes"

definition value_at :: "mem \<Rightarrow> int \<Rightarrow> int_type \<Rightarrow> int" where
  "value_at m a it = decode it (read_mem m a (fst it))"

section \<open>Primitives\<close>

lemma load_int_eq [vm_simps]:
  "load_int s a it = (if mapped (vmem s) a (fst it) then Inr (value_at (vmem s) a it) else Inl Undefined_Behaviour)"
  by (simp add: load_int_def load_bytes_eq value_at_def)

lemma store_int_eq [vm_simps]:
  "store_int s a n v =
     (if mapped (vmem s) a n then Inr (s\<lparr>vmem := write_mem (vmem s) a (le_bytes n v)\<rparr>) else Inl Undefined_Behaviour)"
  by (simp add: store_int_def store_bytes_eq)

lemma copy_mem_eq [vm_simps]:
  "copy_mem s dst src n =
     (if 0 \<le> n \<and> mapped (vmem s) src (nat n) \<and> mapped (vmem s) dst (nat n)
      then Inr (s\<lparr>vmem := write_mem (vmem s) dst (read_mem (vmem s) src (nat n))\<rparr>) else Inl Undefined_Behaviour)"
  by (simp add: copy_mem_def load_bytes_eq store_bytes_eq)

lemma at_sp_add_sp [simp]: "at_sp env (add_sp n s) k = at_sp env s (n + k)"
  by (simp add: at_sp_def add_sp_def)

lemma at_sp_upd [simp]:
  "at_sp env (s\<lparr>vmem := m\<rparr>) k = at_sp env s k" "at_sp env (s\<lparr>vip := i\<rparr>) k = at_sp env s k"
  "at_sp env (s\<lparr>vbp := b\<rparr>) k = at_sp env s k" "at_sp env (s\<lparr>vretsize := r\<rparr>) k = at_sp env s k"
  by (simp_all add: at_sp_def)

lemma add_sp_fields [simp]:
  "vmem (add_sp n s) = vmem s" "vip (add_sp n s) = vip s" "vbp (add_sp n s) = vbp s"
  "vgp (add_sp n s) = vgp s" "vsp (add_sp n s) = vsp s + n" "vretval (add_sp n s) = vretval s"
  "vretsize (add_sp n s) = vretsize s"
  by (simp_all add: add_sp_def)

lemma add_sp_upd [simp]:
  "add_sp n (s\<lparr>vmem := m\<rparr>) = (add_sp n s)\<lparr>vmem := m\<rparr>" "add_sp n (s\<lparr>vip := i\<rparr>) = (add_sp n s)\<lparr>vip := i\<rparr>"
  by (simp_all add: add_sp_def)

lemma add_sp_add_sp [simp]: "add_sp n (add_sp k s) = add_sp (n + k) s"
  by (simp add: add_sp_def)

lemma add_sp_0 [simp]: "add_sp 0 s = s"
  by (simp add: add_sp_def)

lemma POPI_eq [vm_simps]:
  "POPI env it s =
     (if mapped (vmem s) (at_sp env s (-8)) (fst it)
      then Inr (add_sp (-8) s, value_at (vmem s) (at_sp env s (-8)) it) else Inl Undefined_Behaviour)"
  by (simp add: POPI_def load_int_eq)

lemma PUSHI_eq [vm_simps]:
  "PUSHI env v s =
     (if mapped (vmem s) (at_sp env s 0) 8
      then Inr (add_sp 8 (s\<lparr>vmem := write_mem (vmem s) (at_sp env s 0) (le_bytes 8 v)\<rparr>))
      else Inl Undefined_Behaviour)"
  by (simp add: PUSHI_def store_int_eq)

lemma int_type_pos: "int_type_of ty = Some it \<Longrightarrow> 0 < fst it \<and> fst it \<le> 8"
  by (cases ty) auto

text \<open>A value written to a slot and read at a narrower type is converted to that type.\<close>

lemma value_at_slot:
  assumes "fst it \<le> n"
  shows "value_at (write_mem m a (le_bytes n v)) a it = to_type it v"
  using assms by (simp add: value_at_def read_write_low take_le_bytes decode_le_bytes)

lemma value_at_other:
  "b + int (fst it) \<le> a \<or> a + int (length bs) \<le> b \<Longrightarrow> value_at (write_mem m a bs) b it = value_at m b it"
  by (simp add: value_at_def read_write_other)

section \<open>Integer operations\<close>

definition binary_of :: "vm_opcode \<Rightarrow> (int_type \<Rightarrow> int \<Rightarrow> int \<Rightarrow> int outcome) option" where
  "binary_of op =
     (case op of VM_ADD \<Rightarrow> Some c_add | VM_SUB \<Rightarrow> Some c_sub | VM_MUL \<Rightarrow> Some c_mul | VM_DIV \<Rightarrow> Some c_div
      | VM_MOD \<Rightarrow> Some c_mod | VM_AND \<Rightarrow> Some c_and | VM_OR \<Rightarrow> Some c_or | VM_XOR \<Rightarrow> Some c_xor
      | VM_EQ \<Rightarrow> Some (c_cmp Eq) | VM_NE \<Rightarrow> Some (c_cmp Ne) | VM_GE \<Rightarrow> Some (c_cmp Ge)
      | VM_GT \<Rightarrow> Some (c_cmp Gt) | VM_LE \<Rightarrow> Some (c_cmp Le) | VM_LT \<Rightarrow> Some (c_cmp Lt) | _ \<Rightarrow> None)"

lemma dispatch_binary:
  assumes "binary_of (opcode code) = Some f" "int_type_of (optype code) = Some it"
  shows "vm_dispatch env prog code s = obind (OP2I env f it s) next_ip"
  using assms
  by (cases "opcode code")
    (simp_all add: binary_of_def vm_dispatch_def by_type_def by_int_def vm_add_def vm_sub_def vm_mul_def vm_div_def
      vm_mod_def vm_and_def vm_or_def vm_xor_def vm_eq_def vm_ne_def vm_ge_def vm_gt_def vm_le_def vm_lt_def)

lemma OP2I_eq:
  assumes "mapped (vmem s) (at_sp env s (-16)) 16" "fst it \<le> 8"
  shows "OP2I env f it s =
    obind (f it (value_at (vmem s) (at_sp env s (-16)) it) (value_at (vmem s) (at_sp env s (-8)) it))
      (\<lambda>r. Inr (add_sp (-8) (s\<lparr>vmem := write_mem (vmem s) (at_sp env s (-16)) (le_bytes 8 r)\<rparr>)))"
proof -
  have "mapped (vmem s) (at_sp env s (-8)) (fst it)" "mapped (vmem s) (at_sp env s (-16)) (fst it)"
    "mapped (vmem s) (at_sp env s (-16)) 8"
    using mapped_sub [OF assms(1)] assms(2) by (auto simp: at_sp_def)
  then show ?thesis by (simp add: OP2I_def vm_simps)
qed

definition after_binary :: "vm_env \<Rightarrow> vm_state \<Rightarrow> int \<Rightarrow> vm_state" where
  "after_binary env s r =
     s\<lparr>vmem := write_mem (vmem s) (at_sp env s (-16)) (le_bytes 8 r), vsp := vsp s - 8, vip := vip s + 1\<rparr>"

lemma dispatch_binary_eq:
  assumes "binary_of (opcode code) = Some f" "int_type_of (optype code) = Some it"
    and "mapped (vmem s) (at_sp env s (-16)) 16"
  shows "vm_dispatch env prog code s =
    obind (f it (value_at (vmem s) (at_sp env s (-16)) it) (value_at (vmem s) (at_sp env s (-8)) it))
      (\<lambda>r. Inr (after_binary env s r))"
proof -
  have "fst it \<le> 8" using int_type_pos [OF assms(2)] by simp
  then show ?thesis
    using dispatch_binary [OF assms(1,2)] OP2I_eq [OF assms(3)]
    by (simp add: obind_assoc next_ip_def add_sp_def after_binary_def)
qed

lemma slot_below_kept:
  "b + int n \<le> at_sp env s (-16) \<Longrightarrow> read_mem (vmem (after_binary env s r)) b n = read_mem (vmem s) b n"
  by (simp add: after_binary_def read_write_other)

section \<open>Division\<close>

lemma int_typeD:
  "int_type_of ty = Some it \<Longrightarrow> it \<in> {(1, True), (2, True), (4, True), (8, True), (1, False), (2, False), (4, False), (8, False)}"
  by (cases ty) auto

lemma sdiv_nonneg: "0 \<le> a \<Longrightarrow> 0 \<le> b \<Longrightarrow> a sdiv b = a div (b::int)"
  by (cases "a = 0 \<or> b = 0") (auto simp: signed_divide_int_def sgn_if)

lemma abs_sdiv_le: "\<bar>a sdiv b\<bar> \<le> \<bar>a :: int\<bar>"
  using sdiv_int_range [of a b] by (auto simp: abs_le_iff)

lemma sdiv_smod: "b * (a sdiv b) + a smod b = (a :: int)"
  by (rule mult_sdiv_smod_eq)

lemma abs_smod_less: "b \<noteq> 0 \<Longrightarrow> \<bar>a smod b\<bar> < \<bar>b :: int\<bar>"
  by (simp add: smod_int_alt_def abs_mult abs_sgn_eq)

lemma sdiv_eq_minus:
  assumes "a \<noteq> 0" "a sdiv b = - (a :: int)"
  shows "b = -1"
proof -
  have b: "b \<noteq> 0" using assms by (auto simp: signed_divide_int_def)
  have nn: "0 \<le> \<bar>a\<bar> div \<bar>b\<bar>" using b by (simp add: pos_imp_zdiv_nonneg_iff)
  have "\<bar>a sdiv b\<bar> = \<bar>a\<bar> div \<bar>b\<bar>"
    using assms(1) b nn by (simp add: signed_divide_int_def abs_mult abs_sgn_eq)
  then have "\<bar>a\<bar> div \<bar>b\<bar> = \<bar>a\<bar>" using assms(2) by simp
  then have one: "\<bar>b\<bar> = 1"
    using int_div_less_self [of "\<bar>a\<bar>" "\<bar>b\<bar>"] assms(1) b by linarith
  then show ?thesis using assms by (auto simp: abs_if split: if_splits)
qed

lemma c_div_undefined:
  assumes "int_type_of ty = Some it" "in_type it a" "in_type it b"
  shows "c_div it a b = Inl e \<longleftrightarrow> e = Undefined_Behaviour \<and>
    (b = 0 \<or> snd it \<and> 4 \<le> fst it \<and> a = int_min it \<and> b = -1)"
proof (cases "b = 0 \<or> \<not> snd (promote it)")
  case True
  then have "b = 0 \<or> \<not> snd it" by (auto simp: promote_def split: if_splits)
  then show ?thesis using True by (auto simp: c_div_def c_result_def Let_def)
next
  case False
  note le = abs_sdiv_le [of a b]
  show ?thesis
  proof (cases "fst it < 4")
    case True
    have "\<bar>a\<bar> \<le> 65536"
      using int_typeD [OF assms(1)] True assms(2) by (auto simp: in_type_def int_min_def int_max_def)
    then have "in_type i32_type (a sdiv b)" using le by (auto simp: in_type_def int_min_def int_max_def)
    then show ?thesis using True False by (auto simp: c_div_def c_result_def promote_def)
  next
    case wide: False
    then have it: "promote it = it" "snd it" using False by (auto simp: promote_def split: if_splits)
    define p where "p = (2::int) ^ (8 * fst it - 1)"
    have p: "int_min it = - p" "int_max it = p - 1" "0 < p" using it by (simp_all add: int_min_def int_max_def p_def)
    have a: "- p \<le> a" "a < p" using assms(2) p by (simp_all add: in_type_def)
    have "\<not> in_type it (a sdiv b) \<longleftrightarrow> a = - p \<and> b = -1"
    proof
      assume "\<not> in_type it (a sdiv b)"
      then have "a sdiv b < - p \<or> p \<le> a sdiv b" by (auto simp: in_type_def p)
      then have "\<bar>a\<bar> = p" "a sdiv b = p" using le a by linarith+
      then have "a = - p" "a sdiv b = - a" using a by linarith+
      then show "a = - p \<and> b = -1" using sdiv_eq_minus [of a b] p(3) by simp
    qed (simp add: in_type_def p)
    then show ?thesis using it wide False p(1) by (auto simp: c_div_def c_result_def)
  qed
qed

lemma c_result_exact:
  assumes "in_type (promote it) r" "fst it \<le> 8" "0 < fst it"
  shows "c_result it r = Inr r"
proof (cases "snd (promote it)")
  case False
  then have "0 \<le> r" "r < 2 ^ (8 * fst (promote it))"
    using assms by (auto simp: in_type_def int_min_def int_max_def)
  then show ?thesis using False by (simp add: c_result_def Let_def)
qed (use assms in \<open>simp add: c_result_def Let_def\<close>)

text \<open>Where they are defined, quotient and remainder are the exact ones.\<close>

lemma c_quotient_exact:
  assumes "int_type_of ty = Some it" "in_type it a" "in_type it b"
    and "\<not> (b = 0 \<or> snd it \<and> 4 \<le> fst it \<and> a = int_min it \<and> b = -1)"
  shows "c_div it a b = Inr (a sdiv b)"
proof -
  have def: "\<And>e. c_div it a b \<noteq> Inl e" using c_div_undefined [OF assms(1-3)] assms(4) by simp
  show ?thesis
  proof (cases "snd (promote it)")
    case True
    then have "in_type (promote it) (a sdiv b)"
      using def [of Undefined_Behaviour] assms(4) by (auto simp: c_div_def c_result_def Let_def split: if_splits)
    then show ?thesis using True assms(4) by (auto simp: c_div_def c_result_def Let_def)
  next
    case False
    then have t: "promote it = it" "\<not> snd it" by (auto simp: promote_def split: if_splits)
    then have n: "0 \<le> a" "0 \<le> b" using assms(2,3) by (simp_all add: in_type_def int_min_def)
    then have "0 \<le> a sdiv b" "a sdiv b \<le> a" using abs_sdiv_le [of a b] sdiv_nonneg [OF n]
      by (simp_all add: div_int_pos_iff)
    then have "in_type it (a sdiv b)" using assms(2) t by (simp add: in_type_def int_min_def)
    then show ?thesis
      using c_result_exact [of it "a sdiv b"] t int_type_pos [OF assms(1)] assms(4) by (simp add: c_div_def)
  qed
qed

lemma in_type_promote:
  "int_type_of ty = Some it \<Longrightarrow> in_type it v \<Longrightarrow> in_type (promote it) v"
  using int_typeD [of ty it] by (auto simp: promote_def in_type_def int_min_def int_max_def)

lemma c_remainder_exact:
  assumes "int_type_of ty = Some it" "in_type it a" "in_type it b"
    and "\<not> (b = 0 \<or> snd it \<and> 4 \<le> fst it \<and> a = int_min it \<and> b = -1)"
  shows "c_mod it a b = Inr (a smod b)"
proof -
  have "\<exists>q. c_result it (a sdiv b) = Inr q"
    using c_quotient_exact [OF assms] assms(4) by (auto simp: c_div_def)
  moreover have "in_type it (a smod b)"
  proof -
    have "0 \<le> \<bar>a\<bar> mod \<bar>b\<bar>" using assms(4) by simp
    moreover have "\<bar>a\<bar> mod \<bar>b\<bar> \<le> \<bar>a\<bar>" by (rule zmod_le_nonneg_dividend) simp
    ultimately have "0 \<le> a \<Longrightarrow> 0 \<le> a smod b \<and> a smod b \<le> a" "a < 0 \<Longrightarrow> a smod b \<le> 0 \<and> a \<le> a smod b"
      by (simp_all add: smod_int_alt_def sgn_if)
    then show ?thesis
      using assms(2) by (cases "0 \<le> a") (auto simp: in_type_def int_min_def int_max_def split: if_splits)
  qed
  then have "c_result it (a smod b) = Inr (a smod b)"
    using c_result_exact [OF in_type_promote [OF assms(1)]] int_type_pos [OF assms(1)] by simp
  ultimately show ?thesis using assms(4) by (auto simp: c_mod_def)
qed

section \<open>Properties of integer instructions\<close>

text \<open>
  Every binary integer instruction but the shifts, on two mapped slots, reads both at
  the type of the instruction, and either fails as the C operation does or
  leaves its result, converted to 64 bits, in the lower slot, with the stack one
  slot shorter, the next instruction selected and nothing else changed.
\<close>

lemma vm_binary_int:
  assumes "binary_of (opcode code) = Some f" "int_type_of (optype code) = Some it"
    and "mapped (vmem s) (at_sp env s (-16)) 16"
  shows "vm_dispatch env prog code s =
    (case f it (value_at (vmem s) (at_sp env s (-16)) it) (value_at (vmem s) (at_sp env s (-8)) it) of
       Inl e \<Rightarrow> Inl e
     | Inr r \<Rightarrow> Inr (s\<lparr>vmem := write_mem (vmem s) (at_sp env s (-16)) (le_bytes 8 r),
                      vsp := vsp s - 8, vip := vip s + 1\<rparr>))"
  using dispatch_binary_eq [OF assms] by (simp add: after_binary_def split: sum.split)

definition demo_env :: vm_env where
  "demo_env = \<lparr>stack_addr = 0x10000, f_arith = \<lambda>k op a b. 0, f_neg = \<lambda>k a. 0, f_cmp = \<lambda>k op a b. False,
     f_of_u64 = \<lambda>k v. v, f_to_uint = \<lambda>k n v. Inr v, f_conv = \<lambda>k k' v. v, builtin = \<lambda>f m sp. Inr (m, 8)\<rparr>"

text \<open>Sixty-four bytes of stack; the stack pointer is behind two slots that hold -7 and 2.\<close>

definition demo_mem :: mem where
  "demo_mem = write_mem (write_mem (\<lambda>i. if 0x10000 \<le> i \<and> i < 0x10040 then Some 0 else None)
     0x10000 (le_bytes 8 (-7))) 0x10008 (le_bytes 8 2)"

definition demo_state :: vm_state where
  "demo_state = (vm_initial demo_mem 0 0)\<lparr>vsp := 16\<rparr>"

lemma mapped_demo: "0x10000 \<le> a \<Longrightarrow> a + int n \<le> 0x10040 \<Longrightarrow> mapped demo_mem a n"
  by (simp add: mapped_def demo_mem_def write_mem_def)

lemma at_sp_demo [simp]: "at_sp demo_env demo_state k = 0x10010 + k"
  by (simp add: at_sp_def demo_env_def demo_state_def)

lemma vmem_demo [simp]: "vmem demo_state = demo_mem" "vsp demo_state = 16" "vip demo_state = 0"
  by (simp_all add: demo_state_def vm_initial_def)

lemma demo_values:
  "fst it \<le> 8 \<Longrightarrow> value_at demo_mem 0x10000 it = to_type it (-7)" "fst it \<le> 8 \<Longrightarrow> value_at demo_mem 0x10008 it = to_type it 2"
  by (simp_all add: demo_mem_def value_at_slot value_at_other)

text \<open>
  Property C34. Division and remainder fail exactly for a zero divisor, and for
  the smallest value of a type of 32 or 64 signed bits divided by -1; otherwise
  the quotient and the remainder left on the stack satisfy the division
  identity, with a remainder smaller than the divisor.
\<close>

theorem vm_division:
  assumes "int_type_of (optype code) = Some it" "mapped (vmem s) (at_sp env s (-16)) 16"
    and "a = value_at (vmem s) (at_sp env s (-16)) it" "b = value_at (vmem s) (at_sp env s (-8)) it"
    and "d = vm_dispatch env prog (code\<lparr>opcode := VM_DIV\<rparr>) s" "m = vm_dispatch env prog (code\<lparr>opcode := VM_MOD\<rparr>) s"
  shows "if b = 0 \<or> snd it \<and> 4 \<le> fst it \<and> a = int_min it \<and> b = -1
    then d = Inl Undefined_Behaviour \<and> m = Inl Undefined_Behaviour
    else \<exists>q r. d = Inr (after_binary env s q) \<and> m = Inr (after_binary env s r) \<and> a = b * q + r \<and> \<bar>r\<bar> < \<bar>b\<bar>"
proof -
  have bin: "binary_of VM_DIV = Some c_div" "binary_of VM_MOD = Some c_mod" by (simp_all add: binary_of_def)
  have d: "d = obind (c_div it a b) (\<lambda>r. Inr (after_binary env s r))"
    using dispatch_binary_eq [of "code\<lparr>opcode := VM_DIV\<rparr>", OF _ _ assms(2)] bin assms by simp
  have m: "m = obind (c_mod it a b) (\<lambda>r. Inr (after_binary env s r))"
    using dispatch_binary_eq [of "code\<lparr>opcode := VM_MOD\<rparr>", OF _ _ assms(2)] bin assms by simp
  have ab: "in_type it a" "in_type it b"
    using assms(3,4) int_type_pos [OF assms(1)] by (simp_all add: value_at_def decode_def to_type_in_type)
  let ?bad = "b = 0 \<or> snd it \<and> 4 \<le> fst it \<and> a = int_min it \<and> b = -1"
  show ?thesis
  proof (cases ?bad)
    case True
    then have "c_div it a b = Inl Undefined_Behaviour" using c_div_undefined [OF assms(1) ab] by simp
    moreover from this have "c_mod it a b = Inl Undefined_Behaviour" by (simp add: c_mod_def c_div_def split: if_splits)
    ultimately show ?thesis using True d m by simp
  next
    case False
    note exact = c_quotient_exact [OF assms(1) ab] c_remainder_exact [OF assms(1) ab]
    have "d = Inr (after_binary env s (a sdiv b)) \<and> m = Inr (after_binary env s (a smod b)) \<and>
        a = b * (a sdiv b) + a smod b \<and> \<bar>a smod b\<bar> < \<bar>b\<bar>"
      using False d m exact [OF False] sdiv_smod [of b a] abs_smod_less [of b a] by simp
    then show ?thesis using False by (simp only: if_False) blast
  qed
qed

theorem vm_division_witness:
  "\<exists>q r. vm_dispatch demo_env [] \<lparr>opcode = VM_DIV, optype = VMOP_INT32, vd = D_None\<rparr> demo_state =
       Inr (after_binary demo_env demo_state q) \<and>
     vm_dispatch demo_env [] \<lparr>opcode = VM_MOD, optype = VMOP_INT32, vd = D_None\<rparr> demo_state =
       Inr (after_binary demo_env demo_state r) \<and> -7 = 2 * q + r \<and> \<bar>r\<bar> < 2"
proof -
  let ?c = "\<lparr>opcode = VM_DIV, optype = VMOP_INT32, vd = D_None\<rparr>"
  have h: "int_type_of (optype ?c) = Some (4, True)" "mapped (vmem demo_state) (at_sp demo_env demo_state (-16)) 16"
    using mapped_demo [of "0x10000" 16] by simp_all
  show ?thesis
    using vm_division [OF h refl refl refl refl, of "[]"] by (simp add: demo_values to_type_def)
qed

section \<open>Integer casts and variables\<close>

lemma int_size_pos: "int_size t = Some n \<Longrightarrow> 0 < n \<and> n \<le> 8"
  by (cases t) (auto simp: int_size_def)

text \<open>A conversion to a type that is as wide or narrower is not changed by an earlier one to 64 bits.\<close>

lemma to_type_cong: "v mod 2 ^ (8 * fst it) = w mod 2 ^ (8 * fst it) \<Longrightarrow> to_type it v = to_type it w"
  by (simp add: to_type_def)

lemma to_type_mod_64:
  assumes "fst it \<le> 8"
  shows "to_type it (v mod 2 ^ 64) = to_type it v"
proof (rule to_type_cong)
  have "(2::int) ^ (8 * fst it) dvd 2 ^ 64" using assms by (intro le_imp_power_dvd) simp
  then show "v mod 2 ^ 64 mod 2 ^ (8 * fst it) = v mod 2 ^ (8 * fst it)" by (rule mod_mod_cancel)
qed

lemma in_type_small:
  assumes "in_type it x" "fst it \<le> 8" "0 < fst it"
  shows "- (2 ^ 63) \<le> x \<and> x < 2 ^ 64"
proof -
  have "(2::int) ^ (8 * fst it - 1) \<le> 2 ^ 63" "(2::int) ^ (8 * fst it) \<le> 2 ^ 64"
    by (rule power_increasing; use assms(2,3) in simp)+
  then show ?thesis
    using assms(1) by (auto simp: in_type_def int_min_def int_max_def split: if_splits)
qed

lemma mod_64_eq_0:
  assumes "in_type it x" "fst it \<le> 8" "0 < fst it"
  shows "x mod 2 ^ 64 = 0 \<longleftrightarrow> x = 0"
proof
  assume "x mod 2 ^ 64 = 0"
  then obtain k where "x = 2 ^ 64 * k" by (auto simp: mod_eq_0_iff_dvd)
  then show "x = 0" using in_type_small [OF assms] by (auto simp: )
qed simp

lemma dispatch_cast_int:
  assumes "opcode code = VM_CAST" "vd code = D_Cast src dst"
    and "int_size (type_of src) = Some n" "int_size (type_of dst) = Some k"
    and "mapped (vmem s) (at_sp env s (-8)) 8" "value_at (vmem s) (at_sp env s (-8)) u64_type = v"
  shows "vm_dispatch env prog code s = Inr (s\<lparr>vmem := write_mem (vmem s) (at_sp env s (-8))
      (le_bytes k (if type_of dst = T_BOOL then bool_int (v \<noteq> 0) else to_type (n, is_signed src) v)), vip := vip s + 1\<rparr>)"
proof -
  have "mapped (vmem s) (at_sp env s (-8)) k"
    using mapped_sub [OF assms(5)] int_size_pos [OF assms(4)] by simp
  then show ?thesis
    using assms by (simp add: vm_dispatch_def vm_cast_def CAST_FROM_def vm_simps next_ip_def bool_int_def)
qed

lemma to_type_after_narrow:
  assumes "k \<le> m"
  shows "to_type (k, sg) (to_type (m, sg') v) = to_type (k, sg) v"
proof (rule to_type_cong)
  have d: "(2::int) ^ (8 * k) dvd 2 ^ (8 * m)" using assms by (intro le_imp_power_dvd) simp
  have "to_type (m, sg') v mod 2 ^ (8 * m) = v mod 2 ^ (8 * m)" by (simp add: to_type_def Let_def)
  then show "to_type (m, sg') v mod 2 ^ (8 * fst (k, sg)) = v mod 2 ^ (8 * fst (k, sg))"
    using mod_mod_cancel [OF d] by (metis fst_conv)
qed

lemma le_int_take: "k \<le> length bs \<Longrightarrow> le_int (take k bs) = le_int bs mod 2 ^ (8 * k)"
proof (induction k arbitrary: bs)
  case (Suc k)
  then obtain b cs where bs: "bs = b # cs" by (cases bs) auto
  have p: "(2::int) ^ (8 * Suc k) = 256 * 2 ^ (8 * k)" by (simp add: power_add)
  have b: "0 \<le> uint b" "uint b < 256" using uint_bounded [of b] by simp_all
  have "(uint b + 256 * le_int cs) mod (256 * 2 ^ (8 * k)) = 256 * (le_int cs mod 2 ^ (8 * k)) + uint b"
    using b by (simp add: zmod_zmult2_eq)
  then show ?case using Suc bs p by simp
qed simp

lemma to_type_i64:
  assumes "k \<in> {1, 2, 4, 8}"
  shows "to_type i64_type (to_type (k, sg) v) = (if sg \<or> k < 8 then to_type (k, sg) v else to_type i64_type v)"
proof (cases "sg \<or> k < 8")
  case True
  have r: "in_type (k, sg) (to_type (k, sg) v)" using assms by (intro to_type_in_type) auto
  then have "in_type i64_type (to_type (k, sg) v)"
    using True assms by (cases sg) (auto simp: in_type_def int_min_def int_max_def)
  then show ?thesis using True by (simp add: to_type_id)
next
  case False
  then show ?thesis using assms by (auto simp: to_type_after_narrow)
qed

text \<open>
  A cast between integer types takes a value of the source type,
  extended to the slot, to its conversion to the destination type: unchanged
  where it fits, reduced modulo the width otherwise, and to 0 or 1 for \<open>_Bool\<close>.
  Only the slot at the top changes.
\<close>

lemma vm_cast_integer:
  assumes "opcode code = VM_CAST" "vd code = D_Cast src dst"
    and "int_size (type_of src) = Some n" "int_size (type_of dst) = Some k"
    and "mapped (vmem s) (at_sp env s (-8)) 8" "value_at (vmem s) (at_sp env s (-8)) u64_type = x mod 2 ^ 64"
    and "in_type (n, is_signed src) x"
  shows "\<exists>s'. vm_dispatch env prog code s = Inr s' \<and> vip s' = vip s + 1 \<and> vsp s' = vsp s \<and> vbp s' = vbp s \<and>
    value_at (vmem s') (at_sp env s (-8)) (k, is_signed dst) =
      (if type_of dst = T_BOOL then bool_int (x \<noteq> 0) else to_type (k, is_signed dst) x) \<and>
    (\<forall>b j. b + int j \<le> at_sp env s (-8) \<longrightarrow> read_mem (vmem s') b j = read_mem (vmem s) b j)"
proof -
  note n = int_size_pos [OF assms(3)] and k = int_size_pos [OF assms(4)]
  let ?r = "if type_of dst = T_BOOL then bool_int (x mod 2 ^ 64 \<noteq> 0) else to_type (n, is_signed src) (x mod 2 ^ 64)"
  have x: "to_type (n, is_signed src) (x mod 2 ^ 64) = x"
    using to_type_mod_64 [of "(n, is_signed src)" x] to_type_id [OF _ assms(7)] n by simp
  have z: "(x mod 2 ^ 64 \<noteq> 0) = (x \<noteq> 0)" using mod_64_eq_0 [OF assms(7)] n by simp
  have b: "type_of dst = T_BOOL \<Longrightarrow> to_type (k, is_signed dst) (bool_int (x \<noteq> 0)) = bool_int (x \<noteq> 0)"
    using k assms(4) by (intro to_type_id)
      (auto simp: int_size_def is_signed_def is_unsigned_def is_bool_def in_type_def int_min_def int_max_def bool_int_def)
  have d: "vm_dispatch env prog code s = Inr (s\<lparr>vmem := write_mem (vmem s) (at_sp env s (-8)) (le_bytes k ?r), vip := vip s + 1\<rparr>)"
    using dispatch_cast_int [OF assms(1-6)] by simp
  show ?thesis
    unfolding d x z using b by (simp add: value_at_slot read_write_other)
qed

text \<open>
  A cast from an integer type to a floating point type converts the
  slot as an unsigned 64-bit number, also when the source type is signed: a
  negative value x is converted as x + 2^64.
\<close>

lemma vm_cast_int_to_float:
  assumes "opcode code = VM_CAST" "vd code = D_Cast src dst"
    and "int_size (type_of src) = Some n" "float_kind_tag (type_of dst) = Some f" "f \<noteq> LDBL"
    and "mapped (vmem s) (at_sp env s (-8)) 8" "value_at (vmem s) (at_sp env s (-8)) u64_type = x mod 2 ^ 64"
    and "- (2 ^ 63) \<le> x" "x < 0"
  shows "vm_dispatch env prog code s = Inr (s\<lparr>vmem := write_mem (vmem s) (at_sp env s (-8))
     (le_bytes (float_size f) (f_of_u64 env f (x + 2 ^ 64))), vip := vip s + 1\<rparr>)"
proof -
  have "x mod 2 ^ 64 = (x + 2 ^ 64) mod 2 ^ 64" by simp
  also have "\<dots> = x + 2 ^ 64" using assms(8,9) by (intro mod_pos_pos_trivial) simp_all
  finally have x: "x mod 2 ^ 64 = x + 2 ^ 64" .
  have none: "int_size (type_of dst) = None"
    using assms(4) by (cases "type_of dst") (simp_all add: float_kind_tag_def int_size_def)
  have "float_size f \<le> 8" "float_slot f = 8" using assms(5) by (cases f; simp add: float_slot_def)+
  moreover from this have "mapped (vmem s) (at_sp env s (-8)) (float_size f)"
    using mapped_sub [OF assms(6)] by simp
  ultimately show ?thesis
    using assms none x by (simp add: vm_dispatch_def vm_cast_def CAST_FROM_def vm_simps next_ip_def)
qed

text \<open>
  Popping an integer into a variable and pushing the variable back
  leaves the stack where it was and the value converted to the variable's type
  in the slot, sign-extended for signed reads and zero-extended for unsigned.
\<close>

lemma vm_pop_push_variable:
  assumes "opcode p = VM_POP" "int_type_of (optype p) = Some (k, sg)" "vd p = D_Addr a" "a_size a = int k"
    and "opcode q = VM_PUSH" "optype q = (if sg' then VMOP_VARI else VMOP_VARU)" "vd q = D_Addr a"
    and "mapped (vmem s) (at_sp env s (-8)) 8" "mapped (vmem s) (var_addr env s a) k"
  shows "\<exists>s1 s2. vm_dispatch env prog p s = Inr s1 \<and> vm_dispatch env prog q s1 = Inr s2 \<and>
    vsp s2 = vsp s \<and> vip s2 = vip s + 2 \<and>
    value_at (vmem s2) (at_sp env s (-8)) i64_type =
      (if sg' \<or> k < 8 then to_type (k, sg') (value_at (vmem s) (at_sp env s (-8)) i64_type)
       else value_at (vmem s) (at_sp env s (-8)) i64_type)"
proof -
  let ?v = "value_at (vmem s) (at_sp env s (-8)) i64_type"
  let ?bs = "read_mem (vmem s) (at_sp env s (-8)) k"
  let ?s1 = "(add_sp (-8) s)\<lparr>vmem := write_mem (vmem s) (var_addr env s a) ?bs, vip := vip s + 1\<rparr>"
  have k: "k \<in> {1, 2, 4, 8}" using int_typeD [OF assms(2)] by auto
  then have ks: "a_size a \<in> {1, 2, 4, 8}" "k \<le> 8" "0 < k" using assms(4) by auto
  have m: "mapped (vmem s) (at_sp env s (-8)) k" using mapped_sub [OF assms(8)] ks by simp
  have va: "var_addr env (add_sp (-8) s) a = var_addr env s a" "var_addr env ?s1 a = var_addr env s a"
    by (simp_all add: var_addr_def gbp_def)
  have p: "vm_dispatch env prog p s = Inr ?s1"
    using assms m va
    by (auto simp: vm_dispatch_def vm_pop_def pop_to_def scalar_slot_def vm_simps next_ip_def)
  have bs: "to_type (k, sg') (le_int ?bs) = to_type (k, sg') ?v"
  proof -
    have "?bs = take k (read_mem (vmem s) (at_sp env s (-8)) 8)" using ks by (simp add: read_mem_take)
    then show ?thesis using ks le_int_take [of k "read_mem (vmem s) (at_sp env s (-8)) 8"]
      by (simp add: value_at_def decode_def to_type_after_narrow to_type_mod [of "(k, sg')", unfolded fst_conv])
  qed
  have ld: "value_at (vmem ?s1) (var_addr env ?s1 a) (k, sg') = to_type (k, sg') ?v"
    using bs read_write_same [of "vmem s" "var_addr env s a" ?bs] va by (simp add: value_at_def decode_def)
  let ?s2 = "add_sp 8 (?s1\<lparr>vmem := write_mem (vmem ?s1) (at_sp env s (-8)) (le_bytes 8 (to_type (k, sg') ?v)), vip := vip s + 2\<rparr>)"
  have q: "vm_dispatch env prog q ?s1 = Inr ?s2"
    using assms(5-9) ks ld va m assms(4)
    by (cases sg') (simp_all add: vm_dispatch_def vm_push_def push_var_def vm_simps next_ip_def)
  have "value_at (vmem ?s2) (at_sp env s (-8)) i64_type = to_type i64_type (to_type (k, sg') ?v)"
    by (simp add: value_at_slot)
  also have "\<dots> = (if sg' \<or> k < 8 then to_type (k, sg') ?v else ?v)"
    using to_type_i64 [OF k, of sg' ?v] by (simp add: value_at_def decode_def to_type_after_narrow)
  finally show ?thesis using p q by auto
qed

section \<open>Calls\<close>

lemma PAD8_bounds: "8 \<le> PAD8 n" "n \<le> PAD8 n" "PAD8 n mod 8 = 0"
proof -
  show "8 \<le> PAD8 n" "n \<le> PAD8 n" by (auto simp: PAD8_def PAD_N_def)
  have "n \<ge> 8 \<Longrightarrow> (n + (8 - n mod 8) mod 8) mod 8 = 0" by presburger
  then show "PAD8 n mod 8 = 0" by (auto simp: PAD8_def PAD_N_def)
qed

lemma to_int_id: "0 \<le> v \<Longrightarrow> v < 2 ^ 31 \<Longrightarrow> to_int v = v"
  unfolding to_int_def by (rule to_type_id) (simp_all add: in_type_def int_min_def int_max_def)

lemma call_enter:
  assumes "optype c = VMOP_FUNCADDR" "vd c = D_Addr a" "opcode c = VM_CALL" "opcode e = VM_ENTER" "vd e = D_Size n"
    and "mapped (vmem s) (at_sp env s 0) 16"
  shows "\<exists>s1. vm_dispatch env prog c s = Inr s1 \<and> vip s1 = a_index a \<and>
    vm_dispatch env prog e s1 = Inr (s\<lparr>vmem := write_mem (write_mem (vmem s) (at_sp env s 0) (le_bytes 8 (vip s + 1)))
        (at_sp env s 8) (le_bytes 8 (vbp s)), vip := a_index a + 1, vbp := vsp s + 16, vsp := vsp s + 16 + n\<rparr>)"
proof -
  have m: "mapped (vmem s) (at_sp env s 0) 8" "mapped (vmem s) (at_sp env s 8) 8"
    using mapped_sub [OF assms(6)] by (simp_all add: at_sp_def)
  let ?s1 = "add_sp 8 (s\<lparr>vmem := write_mem (vmem s) (at_sp env s 0) (le_bytes 8 (vip s + 1)), vip := a_index a\<rparr>)"
  have "vm_dispatch env prog c s = Inr ?s1"
    using assms m by (simp add: vm_dispatch_def vm_call_def vm_simps)
  moreover have "vm_dispatch env prog e ?s1 = Inr (s\<lparr>vmem := write_mem (write_mem (vmem s) (at_sp env s 0) (le_bytes 8 (vip s + 1)))
        (at_sp env s 8) (le_bytes 8 (vbp s)), vip := a_index a + 1, vbp := vsp s + 16, vsp := vsp s + 16 + n\<rparr>)"
    using assms m by (cases s) (simp add: vm_dispatch_def vm_enter_def vm_simps next_ip_def add_sp_def at_sp_def algebra_simps)
  ultimately show ?thesis by fastforce
qed

lemma ret_eq:
  assumes "opcode r = VM_RET" "vd r = D_Size k"
    and "mapped (vmem s) (stack_addr env + vbp s - 16) (16 + nat (PAD8 k))"
    and "mapped (vmem s) (stack_addr env + vsp s - PAD8 k) (nat (PAD8 k))"
    and "0 \<le> vsp s - PAD8 k" "vsp s - PAD8 k < 2 ^ 31"
  shows "vm_dispatch env prog r s = Inr (s\<lparr>
      vmem := write_mem (vmem s) (stack_addr env + vbp s - 16) (read_mem (vmem s) (stack_addr env + vsp s - PAD8 k) (nat (PAD8 k))),
      vip := value_at (vmem s) (stack_addr env + vbp s - 16) i64_type,
      vbp := value_at (vmem s) (stack_addr env + vbp s - 8) i64_type,
      vsp := vbp s - 16 + PAD8 k, vretsize := Some (PAD8 k)\<rparr>)"
proof -
  let ?z = "PAD8 k"
  note z = PAD8_bounds [of k]
  have vp: "to_int (vsp s - ?z) = vsp s - ?z" using assms(5,6) by (rule to_int_id)
  have m: "mapped (vmem s) (stack_addr env + vbp s - 8) 8" "mapped (vmem s) (stack_addr env + vbp s - 16) 8"
    "mapped (vmem s) (stack_addr env + vbp s - 16) (nat ?z)"
    using mapped_sub [OF assms(3)] by simp_all
  have sz: "(if ?z > 8 then ?z else 8) = ?z" using z by simp
  show ?thesis
    using assms(1,2,4) m z
    by (simp add: vm_dispatch_def vm_ret_def Let_def vp POPI_eq move_result_def sz copy_mem_eq at_sp_def add_sp_def
        algebra_simps)
qed

text \<open>
  Property C33. The call protocol: calling a function and entering it saves the
  return address and the caller's frame; whatever the function does, if it keeps
  those two slots and its frame pointer, its return instruction brings back the
  caller's frame, continues behind the call, and leaves the padded result where
  the return address was.
\<close>

theorem vm_call_return:
  assumes "opcode c = VM_CALL" "optype c = VMOP_FUNCADDR" "vd c = D_Addr a" "opcode e = VM_ENTER" "vd e = D_Size n"
    and "opcode r = VM_RET" "vd r = D_Size k"
    and "mapped (vmem s) (at_sp env s 0) 16" "in_type i64_type (vip s + 1)" "in_type i64_type (vbp s)"
    and "vm_dispatch env prog c s = Inr s1" "vm_dispatch env prog e s1 = Inr s2"
    and "vbp t = vbp s2" "read_mem (vmem t) (at_sp env s 0) 16 = read_mem (vmem s2) (at_sp env s 0) 16"
    and "mapped (vmem t) (at_sp env s 0) (16 + nat (PAD8 k))"
    and "mapped (vmem t) (at_sp env t (- PAD8 k)) (nat (PAD8 k))" "0 \<le> vsp t - PAD8 k" "vsp t - PAD8 k < 2 ^ 31"
  shows "vip s2 = a_index a + 1 \<and> vsp s2 = vbp s2 + n \<and>
    (\<exists>u. vm_dispatch env prog r t = Inr u \<and> vip u = vip s + 1 \<and> vbp u = vbp s \<and> vsp u = vsp s + PAD8 k \<and>
      read_mem (vmem u) (at_sp env s 0) (nat (PAD8 k)) = read_mem (vmem t) (at_sp env t (- PAD8 k)) (nat (PAD8 k)))"
proof -
  let ?m = "write_mem (write_mem (vmem s) (at_sp env s 0) (le_bytes 8 (vip s + 1))) (at_sp env s 8) (le_bytes 8 (vbp s))"
  have s2: "s2 = s\<lparr>vmem := ?m, vip := a_index a + 1, vbp := vsp s + 16, vsp := vsp s + 16 + n\<rparr>"
    using call_enter [OF assms(2,3,1,4,5,8), of prog] assms(11,12) by auto
  have base: "stack_addr env + vbp t - 16 = at_sp env s 0" "stack_addr env + vbp t - 8 = at_sp env s 8"
    "stack_addr env + vsp t - PAD8 k = at_sp env t (- PAD8 k)"
    using assms(13) s2 by (simp_all add: at_sp_def)
  have "read_mem (vmem t) (at_sp env s 0) 8 = read_mem ?m (at_sp env s 0) 8"
    "read_mem (vmem t) (at_sp env s 8) 8 = read_mem ?m (at_sp env s 8) 8"
    using arg_cong [OF assms(14), of "take 8"] arg_cong [OF assms(14), of "drop 8"] s2
    by (simp_all add: read_mem_take read_mem_drop at_sp_def algebra_simps)
  then have v: "value_at (vmem t) (at_sp env s 0) i64_type = value_at ?m (at_sp env s 0) i64_type"
    "value_at (vmem t) (at_sp env s 8) i64_type = value_at ?m (at_sp env s 8) i64_type"
    by (simp_all add: value_at_def)
  have ip: "value_at ?m (at_sp env s 0) i64_type = vip s + 1"
    using to_type_id [OF _ assms(9)] by (simp add: value_at_other value_at_slot at_sp_def)
  have bp: "value_at ?m (at_sp env s 8) i64_type = vbp s"
    using to_type_id [OF _ assms(10)] by (simp add: value_at_slot)
  let ?bs = "read_mem (vmem t) (at_sp env t (- PAD8 k)) (nat (PAD8 k))"
  have "vm_dispatch env prog r t = Inr (t\<lparr>vmem := write_mem (vmem t) (at_sp env s 0) ?bs,
      vip := vip s + 1, vbp := vbp s, vsp := vsp s + PAD8 k, vretsize := Some (PAD8 k)\<rparr>)"
    using ret_eq [OF assms(6,7), of t env prog, unfolded base] assms(13,15-18) v ip bp s2 by simp
  moreover have "read_mem (write_mem (vmem t) (at_sp env s 0) ?bs) (at_sp env s 0) (nat (PAD8 k)) = ?bs"
    using read_write_same [of "vmem t" "at_sp env s 0" ?bs] by simp
  ultimately show ?thesis using s2 by simp
qed

definition demo_block :: vm_state where
  "demo_block = vm_initial (\<lambda>i. if 0x10000 \<le> i \<and> i < 0x10100 then Some 7 else None) 5 32"

lemma mapped_block: "0x10000 \<le> a \<Longrightarrow> a + int n \<le> 0x10100 \<Longrightarrow> mapped (vmem demo_block) a n"
  by (simp add: mapped_def demo_block_def vm_initial_def)

theorem vm_call_return_witness:
  "\<exists>s1 s2 u. vm_dispatch demo_env [] \<lparr>opcode = VM_CALL, optype = VMOP_FUNCADDR,
        vd = D_Addr \<lparr>a_global = True, a_index = 40, a_base = 0, a_offset = 0, a_size = 0, a_func = 0\<rparr>\<rparr> demo_block = Inr s1 \<and>
     vm_dispatch demo_env [] \<lparr>opcode = VM_ENTER, optype = VMOP_NONE, vd = D_Size 16\<rparr> s1 = Inr s2 \<and> vip s2 = 41 \<and>
     vm_dispatch demo_env [] \<lparr>opcode = VM_RET, optype = VMOP_NONE, vd = D_Size 4\<rparr> s2 = Inr u \<and>
     vip u = 6 \<and> vbp u = 32 \<and> vsp u = 40"
proof -
  let ?a = "\<lparr>a_global = True, a_index = 40, a_base = 0, a_offset = 0, a_size = 0, a_func = 0\<rparr> :: vm_address"
  let ?c = "\<lparr>opcode = VM_CALL, optype = VMOP_FUNCADDR, vd = D_Addr ?a\<rparr>"
  let ?e = "\<lparr>opcode = VM_ENTER, optype = VMOP_NONE, vd = D_Size 16\<rparr>"
  let ?r = "\<lparr>opcode = VM_RET, optype = VMOP_NONE, vd = D_Size 4\<rparr>"
  have p: "PAD8 4 = 8" by (simp add: PAD8_def PAD_N_def)
  have at: "at_sp demo_env demo_block k = 0x10020 + k" for k
    by (simp add: at_sp_def demo_env_def demo_block_def vm_initial_def)
  have st: "vip demo_block = 5" "vbp demo_block = 32" "vsp demo_block = 32" by (simp_all add: demo_block_def vm_initial_def)
  have m16: "mapped (vmem demo_block) (at_sp demo_env demo_block 0) 16" by (simp add: at mapped_block)
  obtain s1 s2 where s: "vm_dispatch demo_env [] ?c demo_block = Inr s1" "vm_dispatch demo_env [] ?e s1 = Inr s2"
      "vmem s2 = write_mem (write_mem (vmem demo_block) 0x10020 (le_bytes 8 6)) 0x10028 (le_bytes 8 32)" "vsp s2 = 64"
    using call_enter [of ?c ?a ?e 16 demo_block demo_env "[]"] m16 by (auto simp: at st)
  have m2: "mapped (vmem s2) x n = mapped (vmem demo_block) x n" for x n
    using mapped_block [of "0x10020" 8] mapped_block [of "0x10028" 8] by (simp add: s(3))
  have at2: "at_sp demo_env s2 k = 0x10040 + k" for k by (simp add: at_sp_def demo_env_def s(4))
  show ?thesis
    using vm_call_return [of ?c ?a ?e 16 ?r 4 demo_block demo_env "[]" s1 s2 s2] s m16 p
    by (auto simp: at at2 st m2 mapped_block in_type_def int_min_def int_max_def)
qed

section \<open>Alignment of the stack\<close>

text \<open>Instructions that leave frame and return size alone and move the stack pointer by whole slots.\<close>

definition keeps :: "vm_state \<Rightarrow> vm_state \<Rightarrow> bool" where
  "keeps s s' \<longleftrightarrow> vbp s' = vbp s \<and> vretsize s' = vretsize s \<and> 8 dvd (vsp s' - vsp s)"

lemma keeps_refl [simp]: "keeps s s"
  by (simp add: keeps_def)

lemma keeps_trans:
  assumes "keeps s t" "keeps t u"
  shows "keeps s u"
proof -
  have "8 dvd ((vsp t - vsp s) + (vsp u - vsp t))" using assms by (intro dvd_add) (simp_all add: keeps_def)
  then show ?thesis using assms by (simp add: keeps_def)
qed

lemma keeps_upd [simp]:
  "keeps s (t\<lparr>vmem := m\<rparr>) = keeps s t" "keeps s (t\<lparr>vip := i\<rparr>) = keeps s t" "keeps s (t\<lparr>vretval := r\<rparr>) = keeps s t"
  "keeps (s\<lparr>vmem := m\<rparr>) t = keeps s t" "keeps (s\<lparr>vip := i\<rparr>) t = keeps s t" "keeps (s\<lparr>vretval := r\<rparr>) t = keeps s t"
  by (simp_all add: keeps_def)

lemma keeps_add_sp [simp]: "keeps s (add_sp n s) \<longleftrightarrow> 8 dvd n"
  by (simp add: keeps_def)

lemma keeps_add_sp_trans: "keeps s t \<Longrightarrow> 8 dvd n \<Longrightarrow> keeps s (add_sp n t)"
  by (rule keeps_trans [of _ t]) simp_all

lemma keeps_from_add_sp: "keeps (add_sp n t) u \<Longrightarrow> 8 dvd n \<Longrightarrow> keeps t u"
  by (rule keeps_trans [of _ "add_sp n t"]) simp_all

lemma PAD8_dvd [simp]: "8 dvd PAD8 n"
  using PAD8_bounds(3) [of n] by (simp add: mod_eq_0_iff_dvd)

lemma float_slot_dvd [simp]: "8 dvd float_slot k" "8 dvd (float_slot k - 8)"
  by (cases k; simp add: float_slot_def)+

lemma store_int_keeps: "store_int s a n v = Inr s' \<Longrightarrow> keeps s s'"
  by (auto simp: store_int_eq split: if_splits)

lemma copy_mem_keeps: "copy_mem s d a n = Inr s' \<Longrightarrow> keeps s s'"
  by (auto simp: copy_mem_eq split: if_splits)

lemma PUSHI_keeps: "PUSHI env v s = Inr s' \<Longrightarrow> keeps s s'"
  by (auto simp: PUSHI_eq split: if_splits)

lemma POPI_keeps: "POPI env it s = Inr (s', v) \<Longrightarrow> keeps s s'"
  by (auto simp: POPI_eq split: if_splits)

lemma PUSH_float_keeps: "PUSH_float env k v s = Inr s' \<Longrightarrow> keeps s s'"
  by (auto simp: PUSH_float_def store_int_eq split: if_splits)

lemma POP_float_keeps: "POP_float env k s = Inr (s', v) \<Longrightarrow> keeps s s'"
  by (auto simp: POP_float_def outcome_simps Let_def)

lemma next_ip_keeps: "next_ip s = Inr s' \<Longrightarrow> keeps s s'"
  by (auto simp: next_ip_def)

lemma obind_keeps:
  assumes "obind m f = Inr s'" "\<And>t. m = Inr t \<Longrightarrow> keeps s t" "\<And>t. f t = Inr s' \<Longrightarrow> keeps t s'"
  shows "keeps s s'"
proof -
  obtain t where "m = Inr t" "f t = Inr s'" using assms(1) by (auto simp: obind_Inr_iff)
  then show ?thesis using assms(2,3) keeps_trans by blast
qed

lemma obind_keeps_value:
  assumes "obind m f = Inr s'" "\<And>v. f v = Inr s' \<Longrightarrow> keeps s s'"
  shows "keeps s s'"
  using assms by (auto simp: obind_Inr_iff)

lemma obind_keeps_pop:
  assumes "obind m f = Inr s'" "\<And>t v. m = Inr (t, v) \<Longrightarrow> keeps s t" "\<And>t v. f (t, v) = Inr s' \<Longrightarrow> keeps t s'"
  shows "keeps s s'"
proof -
  obtain t v where "m = Inr (t, v)" "f (t, v) = Inr s'" using assms(1) by (auto simp: obind_Inr_iff)
  then show ?thesis using assms(2,3) keeps_trans by blast
qed

lemmas keeps_prims = store_int_keeps copy_mem_keeps PUSHI_keeps POPI_keeps PUSH_float_keeps POP_float_keeps next_ip_keeps

section \<open>Which instructions keep the frame\<close>

lemma pop_to_keeps: "pop_to env ty sz a s = Inr s' \<Longrightarrow> keeps s s'"
proof -
  have slot: "scalar_slot ty = Some (n, k) \<Longrightarrow> 8 dvd k" for n k
    by (auto simp: scalar_slot_def split: option.splits if_splits)
  assume "pop_to env ty sz a s = Inr s'"
  then show ?thesis
    using slot by (auto simp: pop_to_def Let_def copy_mem_eq split: option.splits if_splits)
qed

lemma vm_store_keeps: "vm_store env code s = Inr s' \<Longrightarrow> keeps s s'"
  unfolding vm_store_def
  by (cases "scalar_slot (optype code)")
    (auto simp: outcome_simps intro: keeps_trans dest!: copy_mem_keeps next_ip_keeps)

lemma vm_fzero_keeps: "vm_fzero env code s = Inr s' \<Longrightarrow> keeps s s'"
  by (auto simp: vm_fzero_def zero_mem_def next_ip_def outcome_simps split: if_splits)

lemma push_object_keeps: "push_object env a s = Inr s' \<Longrightarrow> keeps s s'"
  by (auto simp: push_object_def copy_mem_eq split: if_splits)

lemma vm_deref_keeps: "vm_deref env code s = Inr s' \<Longrightarrow> keeps s s'"
  unfolding vm_deref_def
  by (erule obind_keeps_pop, erule POPI_keeps)
    (auto simp: outcome_simps copy_mem_eq split: option.splits if_splits
      intro: keeps_trans keeps_from_add_sp dest!: keeps_prims)

lemma push_var_keeps: "push_var env sg a s = Inr s' \<Longrightarrow> keeps s s'"
  by (auto simp: push_var_def outcome_simps split: if_splits dest: PUSHI_keeps push_object_keeps)

lemma push_float_var_keeps: "push_float_var env a s = Inr s' \<Longrightarrow> keeps s s'"
  by (auto simp: push_float_var_def outcome_simps split: if_splits dest: PUSH_float_keeps)

lemma vm_push_keeps: "vm_push env code s = Inr s' \<Longrightarrow> keeps s s'"
  unfolding vm_push_def
  by (erule obind_keeps)
    (auto simp: outcome_simps push_imm_def split: option.splits vm_optype.splits
      dest: keeps_prims push_var_keeps push_float_var_keeps push_object_keeps)

lemma vm_depop_keeps: "vm_depop env code s = Inr s' \<Longrightarrow> keeps s s'"
  by (auto simp: vm_depop_def outcome_simps intro: keeps_trans dest!: pop_to_keeps next_ip_keeps)

lemma CAST_FROM_keeps: "CAST_FROM env n src dst s = Inr s' \<Longrightarrow> keeps s s'"
  unfolding CAST_FROM_def Let_def
  by (cases "int_size (type_of dst)"; cases "float_kind_tag (type_of dst)")
    (auto simp: outcome_simps intro: keeps_add_sp_trans dest!: store_int_keeps)

lemma cast_float_keeps: "cast_float env f dst s = Inr s' \<Longrightarrow> keeps s s'"
  unfolding cast_float_def Let_def
  by (cases "int_size (type_of dst)"; cases "float_kind_tag (type_of dst)"; cases "the (float_kind_tag (type_of dst))")
    (auto simp: outcome_simps split: if_splits intro: keeps_add_sp_trans dest!: store_int_keeps)

lemma cast_long_double_keeps: "cast_long_double env dst s = Inr s' \<Longrightarrow> keeps s s'"
  unfolding cast_long_double_def Let_def
  by (cases "int_size (type_of dst)"; cases "float_kind_tag (type_of dst)"; cases "the (float_kind_tag (type_of dst))")
    (auto simp: outcome_simps intro: keeps_add_sp_trans dest!: store_int_keeps)

lemma vm_cast_keeps: "vm_cast env code s = Inr s' \<Longrightarrow> keeps s s'"
proof -
  assume "vm_cast env code s = Inr s'"
  then obtain src dst t where t: "next_ip t = Inr s'"
      "(case int_size (type_of src) of
                Some n \<Rightarrow> CAST_FROM env n src dst s
              | None \<Rightarrow> (case float_kind_tag (type_of src) of
                          Some LDBL \<Rightarrow> cast_long_double env dst s
                        | Some f \<Rightarrow> cast_float env f dst s
                        | None \<Rightarrow> Inr s)) = Inr t"
    by (auto simp: vm_cast_def outcome_simps)
  have "keeps s t"
    using t(2) by (cases "int_size (type_of src)"; cases "float_kind_tag (type_of src)"; cases "the (float_kind_tag (type_of src))")
      (auto dest: CAST_FROM_keeps cast_float_keeps cast_long_double_keeps)
  then show ?thesis using keeps_trans next_ip_keeps [OF t(1)] by blast
qed

lemma vm_jmp_keeps: "vm_jmp code s = Inr s' \<Longrightarrow> keeps s s'"
  by (auto simp: vm_jmp_def outcome_simps)

lemma vm_jump_keeps: "vm_jz env code s = Inr s' \<Longrightarrow> keeps s s'" "vm_jnz env code s = Inr s' \<Longrightarrow> keeps s s'"
  by (auto simp: vm_jz_def vm_jnz_def outcome_simps split: if_splits
      intro: keeps_trans dest!: POPI_keeps vm_jmp_keeps next_ip_keeps)

lemma OP2I_keeps: "OP2I env f it s = Inr s' \<Longrightarrow> keeps s s'"
  unfolding OP2I_def
  by (erule obind_keeps_pop, erule POPI_keeps) (auto simp: outcome_simps dest!: store_int_keeps)

lemma OP2S_keeps: "OP2S env f it s = Inr s' \<Longrightarrow> keeps s s'"
  unfolding OP2S_def
  by (erule obind_keeps_pop, erule POPI_keeps)
    (auto simp: outcome_simps Let_def intro: keeps_trans dest!: POPI_keeps PUSHI_keeps)

lemma OP2_float_keeps: "OP2_float env op k s = Inr s' \<Longrightarrow> keeps s s'"
  unfolding OP2_float_def
  by (erule obind_keeps_pop, erule POP_float_keeps) (auto simp: outcome_simps Let_def dest!: store_int_keeps)

lemma OP2_cmp_keeps: "OP2_cmp env op k s = Inr s' \<Longrightarrow> keeps s s'"
  unfolding OP2_cmp_def
  by (erule obind_keeps_pop, erule POP_float_keeps) (auto simp: outcome_simps dest!: store_int_keeps)

lemma unary_keeps:
  "NOT_int env it s = Inr s' \<Longrightarrow> keeps s s'" "NEGI env it s = Inr s' \<Longrightarrow> keeps s s'" "NEG_float env k s = Inr s' \<Longrightarrow> keeps s s'"
  by (auto simp: NOT_int_def NEGI_def NEG_float_def Let_def outcome_simps intro: keeps_trans
      dest!: POPI_keeps PUSHI_keeps store_int_keeps)

lemma by_int_keeps:
  assumes "by_int code f s = Inr s'" "\<And>it t. f it s = Inr t \<Longrightarrow> keeps s t"
  shows "keeps s s'"
  using assms by (auto simp: by_int_def outcome_simps next_ip_def split: option.splits)

lemma by_type_keeps:
  assumes "by_type code f g s = Inr s'" "\<And>it t. f it s = Inr t \<Longrightarrow> keeps s t" "\<And>k t. g k s = Inr t \<Longrightarrow> keeps s t"
  shows "keeps s s'"
  using assms by (auto simp: by_type_def outcome_simps next_ip_def split: option.splits)

lemma arith_keeps:
  "vm_not env code s = Inr s' \<Longrightarrow> keeps s s'" "vm_neg env code s = Inr s' \<Longrightarrow> keeps s s'"
  "vm_add env code s = Inr s' \<Longrightarrow> keeps s s'" "vm_sub env code s = Inr s' \<Longrightarrow> keeps s s'"
  "vm_mul env code s = Inr s' \<Longrightarrow> keeps s s'" "vm_div env code s = Inr s' \<Longrightarrow> keeps s s'"
  "vm_mod env code s = Inr s' \<Longrightarrow> keeps s s'" "vm_and env code s = Inr s' \<Longrightarrow> keeps s s'"
  "vm_or env code s = Inr s' \<Longrightarrow> keeps s s'" "vm_xor env code s = Inr s' \<Longrightarrow> keeps s s'"
  "vm_shl env code s = Inr s' \<Longrightarrow> keeps s s'" "vm_shr env code s = Inr s' \<Longrightarrow> keeps s s'"
  "vm_eq env code s = Inr s' \<Longrightarrow> keeps s s'" "vm_ne env code s = Inr s' \<Longrightarrow> keeps s s'"
  "vm_ge env code s = Inr s' \<Longrightarrow> keeps s s'" "vm_gt env code s = Inr s' \<Longrightarrow> keeps s s'"
  "vm_le env code s = Inr s' \<Longrightarrow> keeps s s'" "vm_lt env code s = Inr s' \<Longrightarrow> keeps s s'"
  unfolding vm_not_def vm_neg_def vm_add_def vm_sub_def vm_mul_def vm_div_def vm_mod_def vm_and_def vm_or_def vm_xor_def
    vm_shl_def vm_shr_def vm_eq_def vm_ne_def vm_ge_def vm_gt_def vm_le_def vm_lt_def
  by ((erule by_int_keeps | erule by_type_keeps);
      erule unary_keeps OP2I_keeps OP2S_keeps OP2_float_keeps OP2_cmp_keeps)+

lemma misc_keeps:
  "vm_inc env s = Inr s' \<Longrightarrow> keeps s s'" "vm_dec env s = Inr s' \<Longrightarrow> keeps s s'"
  "vm_jmptbl env prog s = Inr s' \<Longrightarrow> keeps s s'" "vm_save_retval env s = Inr s' \<Longrightarrow> keeps s s'"
  by (auto simp: vm_inc_def vm_dec_def vm_jmptbl_def vm_save_retval_def Let_def outcome_simps
      intro: keeps_trans dest!: store_int_keeps next_ip_keeps POPI_keeps)

lemma vm_setjmp_keeps: "vm_setjmp env s = Inr s' \<Longrightarrow> keeps s s'"
  by (auto simp: vm_setjmp_def Let_def store_int_eq outcome_simps split: if_splits)

definition stack_aligned :: "vm_state \<Rightarrow> bool" where
  "stack_aligned s \<longleftrightarrow> 8 dvd vsp s \<and> 8 dvd vbp s \<and> (\<forall>r. vretsize s = Some r \<longrightarrow> 8 dvd r)"

definition code_aligned :: "vm_code \<Rightarrow> bool" where
  "code_aligned code \<longleftrightarrow> (\<forall>n. vd code = D_Size n \<longrightarrow> opcode code \<noteq> VM_RET \<longrightarrow> 8 dvd n)"

definition builtin_aligned :: "vm_env \<Rightarrow> bool" where
  "builtin_aligned env \<longleftrightarrow> (\<forall>f m sp m' r. builtin env f m sp = Inr (m', r) \<longrightarrow> 8 dvd r)"

lemma keeps_aligned:
  assumes "keeps s s'" "stack_aligned s"
  shows "stack_aligned s'"
proof -
  have "8 dvd ((vsp s' - vsp s) + vsp s)" using assms by (intro dvd_add) (simp_all add: keeps_def stack_aligned_def)
  then show ?thesis using assms by (simp add: keeps_def stack_aligned_def)
qed

lemma d_sizeD: "d_size d = Inr n \<Longrightarrow> d = D_Size n"
  by (cases d) auto

lemma vm_pop_aligned: "vm_pop env code s = Inr s' \<Longrightarrow> code_aligned code \<Longrightarrow> opcode code = VM_POP \<Longrightarrow> keeps s s'"
  by (auto simp: vm_pop_def outcome_simps code_aligned_def next_ip_def dest!: d_sizeD pop_to_keeps split: if_splits)

lemma vm_clpop_aligned: "vm_clpop code s = Inr s' \<Longrightarrow> code_aligned code \<Longrightarrow> opcode code = VM_CLPOP \<Longrightarrow> keeps s s'"
  by (auto simp: vm_clpop_def outcome_simps code_aligned_def next_ip_def dest!: d_sizeD)

lemma vm_call_aligned:
  assumes "vm_call env code s = Inr s'" "builtin_aligned env" "stack_aligned s"
  shows "stack_aligned s'"
proof (cases "optype code = VMOP_BUILTIN")
  case True
  then show ?thesis
    using assms by (auto simp: vm_call_def outcome_simps next_ip_def builtin_aligned_def stack_aligned_def split: if_splits)
next
  case False
  then have "keeps s s'"
    using assms(1) by (auto simp: vm_call_def outcome_simps split: if_splits dest!: PUSHI_keeps)
  then show ?thesis using assms(3) by (rule keeps_aligned)
qed

lemma vm_enter_aligned:
  assumes "vm_enter env code s = Inr s'" "code_aligned code" "opcode code = VM_ENTER" "stack_aligned s"
  shows "stack_aligned s'"
proof -
  obtain n t where n: "vd code = D_Size n" "PUSHI env (vbp s) s = Inr t"
      "s' = (add_sp n (t\<lparr>vbp := vsp t\<rparr>))\<lparr>vip := vip t + 1\<rparr>"
    using assms(1) by (auto simp: vm_enter_def outcome_simps next_ip_def dest!: d_sizeD)
  have "stack_aligned t" "8 dvd n"
    using keeps_aligned [OF PUSHI_keeps [OF n(2)] assms(4)] n(1) assms(2,3) by (simp_all add: code_aligned_def)
  then show ?thesis using n(3) by (simp add: stack_aligned_def)
qed

lemma to_int_dvd: "8 dvd v \<Longrightarrow> 8 dvd to_int v"
proof -
  assume "8 dvd v"
  then have "8 dvd v mod 4294967296" by (simp add: dvd_mod)
  then show ?thesis by (simp add: to_int_def to_type_def Let_def)
qed

lemma vm_ret_aligned:
  assumes "vm_ret env code s = Inr s'" "stack_aligned s"
    and "8 dvd value_at (vmem s) (stack_addr env + vbp s - 8) i64_type"
  shows "stack_aligned s'"
  using assms
  by (auto simp: vm_ret_def outcome_simps Let_def POPI_eq move_result_def copy_mem_eq stack_aligned_def at_sp_def
      add_sp_def algebra_simps split: if_splits)

lemma vm_clup_aligned:
  assumes "vm_clup env code s = Inr s'" "code_aligned code" "opcode code = VM_CLUP" "stack_aligned s"
  shows "stack_aligned s'"
proof -
  obtain n r m where r: "vretsize s = Some r" "vd code = D_Size n" "vsp s' = to_int (vsp s - r) - n + r"
      "vbp s' = vbp s" "vretsize s' = vretsize s"
    using assms(1)
    by (auto simp: vm_clup_def outcome_simps Let_def move_result_def copy_mem_eq next_ip_def add_sp_def
        dest!: d_sizeD split: option.splits if_splits)
  have "8 dvd r" "8 dvd n" "8 dvd vsp s" using assms r by (auto simp: stack_aligned_def code_aligned_def)
  then have "8 dvd vsp s'" using to_int_dvd [of "vsp s - r"] r(3) by simp
  then show ?thesis using assms(4) r by (simp add: stack_aligned_def)
qed

lemmas dispatch_keeps = vm_store_keeps vm_fzero_keeps vm_deref_keeps vm_push_keeps vm_depop_keeps vm_cast_keeps
  vm_jmp_keeps vm_jump_keeps arith_keeps misc_keeps vm_setjmp_keeps next_ip_keeps

text \<open>
  Property C35. The stack stays aligned to eight bytes: from an aligned state
  every instruction with aligned frame sizes, with builtins that push whole
  slots, leads to an aligned state; a return needs the saved frame pointer to be
  aligned, and only \<open>longjmp\<close> takes the pointers from its buffer.
\<close>

theorem vm_stack_alignment:
  assumes "stack_aligned s" "code_aligned code" "builtin_aligned env" "opcode code \<noteq> VM_LONGJMP"
    and "opcode code = VM_RET \<longrightarrow> 8 dvd value_at (vmem s) (stack_addr env + vbp s - 8) i64_type"
    and "vm_dispatch env prog code s = Inr s'"
  shows "stack_aligned s'"
proof -
  have k: "keeps s s' \<Longrightarrow> stack_aligned s'" using keeps_aligned assms(1) by blast
  show ?thesis
  proof (cases "opcode code \<in> {VM_RET, VM_CALL, VM_ENTER, VM_CLUP}")
    case True
    then show ?thesis
      using assms k
      by (auto simp: vm_dispatch_def intro: vm_ret_aligned vm_call_aligned vm_enter_aligned vm_clup_aligned)
  next
    case False
    have "keeps s s'"
      using assms(2,4,6) False
      by (cases "opcode code") (auto simp: vm_dispatch_def dest: dispatch_keeps vm_pop_aligned vm_clpop_aligned)
    then show ?thesis by (rule k)
  qed
qed

theorem vm_stack_alignment_witness:
  "\<exists>s'. vm_dispatch demo_env [] \<lparr>opcode = VM_ENTER, optype = VMOP_NONE, vd = D_Size 24\<rparr> demo_block = Inr s' \<and>
     stack_aligned s'"
proof -
  let ?e = "\<lparr>opcode = VM_ENTER, optype = VMOP_NONE, vd = D_Size 24\<rparr>"
  have m: "mapped (vmem demo_block) (at_sp demo_env demo_block 0) 8"
    by (simp add: mapped_block at_sp_def demo_env_def) (simp add: demo_block_def vm_initial_def mapped_def)
  obtain s' where s': "vm_dispatch demo_env [] ?e demo_block = Inr s'"
    using m by (simp add: vm_dispatch_def vm_enter_def PUSHI_eq next_ip_def)
  have "stack_aligned s'"
    by (rule vm_stack_alignment [OF _ _ _ _ _ s'])
      (simp_all add: stack_aligned_def code_aligned_def builtin_aligned_def demo_env_def demo_block_def vm_initial_def)
  then show ?thesis using s' by blast
qed

section \<open>Non-local jumps and fuel\<close>

text \<open>
  A \<open>longjmp\<close> with the buffer that \<open>setjmp\<close> filled, as long as the
  buffer is unchanged, continues behind the \<open>setjmp\<close> with its frame pointer,
  and with the given value in a new slot on top of the stack as it was then.
\<close>

lemma vm_longjmp_returns:
  assumes "value_at (vmem s) (at_sp env s (-8)) u64_type = j"
    and "mapped (vmem s) (at_sp env s (-8)) 8" "mapped (vmem s) j 24"
    and "j + 24 \<le> at_sp env s (-8) \<or> at_sp env s 0 \<le> j"
    and "in_type i64_type (vip s + 1)" "in_type i64_type (vbp s)" "in_type i64_type (vsp s)"
    and "value_at (vmem t) (at_sp env t (-8)) u64_type = j" "value_at (vmem t) (at_sp env t (-16)) i64_type = r"
    and "mapped (vmem t) (at_sp env t (-16)) 16" "mapped (vmem t) j 24" "mapped (vmem t) (at_sp env s 0) 8"
    and "vm_setjmp env s = Inr s1" "read_mem (vmem t) j 24 = read_mem (vmem s1) j 24"
  shows "vip s1 = vip s + 1 \<and> value_at (vmem s1) (at_sp env s1 (-8)) u64_type = 0 \<and>
    (\<exists>u. vm_longjmp env t = Inr u \<and> vip u = vip s1 \<and> vbp u = vbp s1 \<and> vsp u = vsp s1 + 8 \<and>
      value_at (vmem u) (at_sp env u (-8)) i64_type = r)"
proof -
  have ms: "mapped (vmem s) j 8" "mapped (vmem s) (j + 8) 8" "mapped (vmem s) (j + 16) 8"
    using mapped_sub [OF assms(3)] by simp_all
  have mt: "mapped (vmem t) j 8" "mapped (vmem t) (j + 8) 8" "mapped (vmem t) (j + 16) 8"
    "mapped (vmem t) (at_sp env t (-8)) 8" "mapped (vmem t) (at_sp env t (-16)) 8"
    using mapped_sub [OF assms(11)] mapped_sub [OF assms(10)] by (simp_all add: at_sp_def)
  define m1 where "m1 = write_mem (write_mem (write_mem (vmem s) j (le_bytes 8 (vip s + 1))) (j + 8) (le_bytes 8 (vbp s)))
    (j + 16) (le_bytes 8 (vsp s))"
  have s1: "s1 = s\<lparr>vip := vip s + 1, vmem := write_mem m1 (at_sp env s (-8)) (le_bytes 8 0)\<rparr>"
    using assms(1,2,13) ms by (cases s) (simp add: vm_setjmp_def vm_simps m1_def at_sp_def)
  have dis: "j + 24 \<le> at_sp env s (-8) \<or> at_sp env s (-8) + 8 \<le> j"
    using assms(4) by (simp add: at_sp_def)
  have v1: "value_at (vmem s1) j i64_type = vip s + 1" "value_at (vmem s1) (j + 8) i64_type = vbp s"
    "value_at (vmem s1) (j + 16) i64_type = vsp s"
    using dis assms(5-7) by (auto simp: s1 m1_def value_at_other value_at_slot to_type_id)
  have same: "value_at (vmem t) (j + int k) i64_type = value_at (vmem s1) (j + int k) i64_type" if "k + 8 \<le> 24" for k
  proof -
    have "read_mem (vmem t) (j + int k) 8 = take 8 (drop k (read_mem (vmem t) j 24))"
      "read_mem (vmem s1) (j + int k) 8 = take 8 (drop k (read_mem (vmem s1) j 24))"
      using that by (simp_all add: read_mem_drop read_mem_take)
    then show ?thesis using assms(14) by (simp add: value_at_def)
  qed
  have vt: "value_at (vmem t) j i64_type = vip s + 1" "value_at (vmem t) (j + 8) i64_type = vbp s"
    "value_at (vmem t) (j + 16) i64_type = vsp s"
    using same [of 0] same [of 8] same [of 16] v1 by simp_all
  let ?u = "t\<lparr>vip := vip s + 1, vbp := vbp s, vsp := vsp s + 8, vmem := write_mem (vmem t) (at_sp env s 0) (le_bytes 8 r)\<rparr>"
  have "vm_longjmp env t = Inr ?u"
    using assms(8,9,12) mt vt
    by (cases t) (simp add: vm_longjmp_def load_int_eq PUSHI_eq at_sp_def add_sp_def)
  moreover have "value_at (vmem ?u) (at_sp env ?u (-8)) i64_type = r"
  proof -
    have "in_type i64_type r" using assms(9) by (auto simp: value_at_def decode_def intro: to_type_in_type)
    then show ?thesis by (simp add: at_sp_def value_at_slot to_type_id)
  qed
  moreover have "value_at (vmem s1) (at_sp env s1 (-8)) u64_type = 0"
    by (simp add: s1 at_sp_def value_at_slot to_type_def)
  ultimately show ?thesis by (simp add: s1)
qed

lemma run_vm_more: "run_vm n env prog s = Some r \<Longrightarrow> run_vm (n + k) env prog s = Some r"
proof (induction n arbitrary: s)
  case (Suc n)
  then show ?case by (auto split: sum.splits vm_result.splits)
qed simp

text \<open>
  The fuel of a run is only a bound: a run that ends gives the same
  outcome with any larger fuel.
\<close>

lemma vm_fuel_irrelevant:
  assumes "vm_run_lir_impl n env prog entry other global = Some r" "n \<le> k"
  shows "vm_run_lir_impl k env prog entry other global = Some r"
proof -
  let ?s = "vm_initial (vm_memory other (stack_addr env) global) entry (PAD_N (int (length global) + 1) 16)"
  obtain x where x: "run_vm n env prog ?s = Some x" "r = obind x (\<lambda>s. Inr (to_int (vretval s)))"
    using assms by (auto simp: vm_run_lir_impl_def run_vm_by_lir_def)
  then have "run_vm k env prog ?s = Some x" using run_vm_more [of n env prog ?s x "k - n"] assms(2) by simp
  then show ?thesis using x(2) by (simp add: vm_run_lir_impl_def run_vm_by_lir_def)
qed

end
