(* ===== verification/Typetree_Correct.thy ===== *)
theory Typetree_Correct
  imports Typetree
begin

text \<open>
  Correctness of the type trees: the fuel of the recursive operations is exact,
  a pointer type leads back to its target, arrays have the size of their
  elements or are rejected, conversions follow the rules for arithmetic types,
  what equality of types distinguishes and where it does not return, and that
  the members of a struct, bit-fields included, never overlap.
\<close>

section \<open>Handles\<close>

named_theorems tree_simps "handles after updates and creations of trees"

definition valid_ref :: "type_store \<Rightarrow> int \<Rightarrow> bool" where
  "valid_ref st r \<longleftrightarrow> 0 < r \<and> r \<le> int (length (trees st))"

lemma handle_Inr_iff: "get_typetree_handle st r = Inr t \<longleftrightarrow> valid_ref st r \<and> t = trees st ! nat (r - 1)"
  by (auto simp: get_typetree_handle_def valid_ref_def outcome_simps)

lemma handle_valid [tree_simps]: "valid_ref st r \<Longrightarrow> get_typetree_handle st r = Inr (trees st ! nat (r - 1))"
  by (simp add: handle_Inr_iff)

lemma handle_not_overflow [simp]: "get_typetree_handle st r \<noteq> Inl Stack_Overflow"
  by (auto simp: get_typetree_handle_def outcome_simps)

lemma valid_set_tree [simp]: "valid_ref (set_tree st r t) r' = valid_ref st r'"
  by (simp add: valid_ref_def set_tree_def)

lemma length_set_tree [simp]: "length (trees (set_tree st r t)) = length (trees st)"
  by (simp add: set_tree_def)

lemma handle_set_tree [tree_simps]:
  assumes "valid_ref st r"
  shows "get_typetree_handle (set_tree st r t) r' = (if r' = r then Inr t else get_typetree_handle st r')"
proof -
  have "nat (r' - 1) \<noteq> nat (r - 1)" if "r' \<noteq> r" "0 < r'" using assms that by (auto simp: valid_ref_def)
  then show ?thesis
    using assms by (auto simp: get_typetree_handle_def set_tree_def valid_ref_def oassert_def)
qed

lemma ref16_id [simp]: "n \<le> 32767 \<Longrightarrow> ref16 n = int n"
  by (simp add: ref16_def)

lemma type_create_facts:
  assumes "type_create st tt = (st', type)" "length (trees st) < 32767"
  shows "t_ref type = int (length (trees st)) + 1" "trees st' = trees st @ [zero_tree\<lparr>tt_type := tt\<rparr>]"
    "type = zero_type\<lparr>t_type := tt, t_ref := int (length (trees st)) + 1\<rparr>" "valid_ref st' (t_ref type)"
    "get_typetree_handle st' (t_ref type) = Inr (zero_tree\<lparr>tt_type := tt\<rparr>)"
proof -
  show a: "t_ref type = int (length (trees st)) + 1" "trees st' = trees st @ [zero_tree\<lparr>tt_type := tt\<rparr>]"
    "type = zero_type\<lparr>t_type := tt, t_ref := int (length (trees st)) + 1\<rparr>"
    using assms by (auto simp: type_create_def Let_def zero_type_def)
  show v: "valid_ref st' (t_ref type)" using a by (simp add: valid_ref_def)
  show "get_typetree_handle st' (t_ref type) = Inr (zero_tree\<lparr>tt_type := tt\<rparr>)"
    using a(1,2) v by (simp add: handle_valid nth_append)
qed

section \<open>Growing stores\<close>

text \<open>One store extends another when it has every tree of it unchanged.\<close>

definition extends :: "type_store \<Rightarrow> type_store \<Rightarrow> bool" where
  "extends st st' \<longleftrightarrow> (\<exists>new. trees st' = trees st @ new)"

lemma extends_refl [simp]: "extends st st"
  by (simp add: extends_def)

lemma extends_handle: "extends st st' \<Longrightarrow> get_typetree_handle st r = Inr t \<Longrightarrow> get_typetree_handle st' r = Inr t"
  by (auto simp: extends_def handle_Inr_iff valid_ref_def nth_append)

lemma extends_set_new:
  assumes "trees st1 = trees st @ [t0]"
  shows "extends st (set_tree st1 (int (length (trees st)) + 1) t)"
  using assms by (simp add: extends_def set_tree_def list_update_append)

lemma size_of_fuel_extends:
  "extends st st' \<Longrightarrow> size_of_fuel n st type = Inr s \<Longrightarrow> size_of_fuel n st' type = Inr s"
proof (induction n arbitrary: type s)
  case (Suc n)
  then show ?case by (auto simp: outcome_simps dest: extends_handle split: if_splits)
qed simp

lemma size_of_fuel_mono:
  "size_of_fuel n st type \<noteq> Inl Stack_Overflow \<Longrightarrow> n \<le> m \<Longrightarrow> size_of_fuel m st type = size_of_fuel n st type"
proof (induction n arbitrary: type m)
  case (Suc n)
  obtain m' where m: "m = Suc m'" "n \<le> m'" using Suc.prems(2) by (cases m) auto
  have "size_of_fuel m' st ty = size_of_fuel n st ty" if "size_of_fuel n st ty \<noteq> Inl Stack_Overflow" for ty
    using Suc.IH that m(2) by blast
  moreover have "size_of_fuel n st (tt_next t) \<noteq> Inl Stack_Overflow"
    if "\<not> is_struct_or_union type" "is_array type" "get_typetree_handle st (t_ref type) = Inr t" for t
    using Suc.prems(1) that by (auto simp: outcome_simps)
  ultimately show ?case using m(1) by (auto intro!: obind_cong)
qed simp

lemma size_of_extends:
  assumes "extends st st'" "size_of st type = Inr s"
  shows "size_of st' type = Inr s"
proof -
  have le: "max_depth st \<le> max_depth st'" using assms(1) by (auto simp: extends_def max_depth_def)
  have "size_of_fuel (max_depth st) st' type = Inr s"
    using size_of_fuel_extends [OF assms(1)] assms(2) by (simp add: size_of_def)
  then show ?thesis using size_of_fuel_mono [OF _ le, of st' type] by (simp add: size_of_def)
qed

lemma size_of_scalar [simp]:
  "\<not> is_struct_or_union type \<Longrightarrow> \<not> is_array type \<Longrightarrow> size_of st type = Inr (scalar_size (type_of type))"
  by (simp add: size_of_def max_depth_def)

section \<open>Pointers\<close>

text \<open>
  Creating a pointer to a type and taking its target gives the type
  back, with its qualifiers, in a store that keeps every earlier tree. The one
  difference is the \<open>restrict\<close> qualifier of a target that is itself a pointer,
  which is lost.
\<close>

lemma type_deref_create_pointer:
  assumes "length (trees st) < 32767"
    and "t_pointer next \<or> \<not> (t_pointer_const next \<or> t_pointer_volatile next \<or> t_pointer_restrict next)"
  shows "\<exists>st' p. type_create_pointer st next = Inr (st', p) \<and> is_pointer p \<and> size_of st' p = Inr 8 \<and>
    extends st st' \<and> type_deref st' p = Inr (if t_pointer next then next\<lparr>t_pointer_restrict := False\<rparr> else next)"
proof (cases "t_pointer next")
  case True
  obtain st1 ty where c: "type_create st T_POINTER = (st1, ty)" by fastforce
  note f = type_create_facts [OF c assms(1)]
  let ?t = "zero_tree\<lparr>tt_type := T_POINTER, tt_const := is_const next, tt_volatile := is_volatile next,
    tt_next := (remove_qualifiers next)\<lparr>t_pointer := False\<rparr>\<rparr>"
  let ?st = "set_tree st1 (t_ref ty) ?t"
  have p: "type_create_pointer st next = Inr (?st, ty)"
    using True c f(5) by (simp add: type_create_pointer_def)
  have ip: "is_pointer ty" "\<not> t_pointer ty" using f(3) by (simp_all add: tclass_simps type_of_def zero_type_def)
  have "type_deref ?st ty = get_type_handle ?st (t_ref ty)" using ip by (simp add: type_deref_def)
  also have "\<dots> = Inr (next\<lparr>t_pointer_restrict := False\<rparr>)"
    using True f(4)
    by (simp add: get_type_handle_def handle_set_tree zero_tree_def remove_qualifiers_def is_const_def is_volatile_def zero_type_def)
  finally show ?thesis
    using p ip f extends_set_new [OF f(2)] True
    by (auto simp: tclass_simps scalar_size_def)
next
  case False
  then show ?thesis
    using assms(2)
    by (simp add: type_create_pointer_def type_deref_def is_pointer_def tclass_simps type_of_def remove_qualifiers_def
        scalar_size_def)
qed

text \<open>A restrict-qualified pointer to a constant integer, as the target of a further pointer.\<close>

definition restrict_pointer :: ctype where
  "restrict_pointer = basic_type__int\<lparr>t_const := True, t_pointer := True, t_pointer_restrict := True\<rparr>"

section \<open>Arrays\<close>

text \<open>
  An array of \<open>count\<close> elements of a type with a size is created with
  the size of the product modulo two to the 64th, unless that exceeds the largest
  signed value, when the program ends with a diagnostic. So an array whose true
  size is a multiple of two to the 64th, plus something small, is accepted.
\<close>

lemma type_create_array_size:
  assumes "size_of st next = Inr sz" "length (trees st) < 32767"
  shows "if wrap64 (count * sz) \<le> LONGLONG_MAX
    then \<exists>st' arr. type_create_array st next count = Inr (st', arr) \<and> is_array arr \<and> extends st st' \<and>
      type_array_len st' arr = Inr count \<and> type_next st' arr = Inr next \<and> size_of st' arr = Inr (wrap64 (count * sz))
    else \<exists>msg. type_create_array st next count = Inl (Exit_Error msg)"
proof (cases "wrap64 (count * sz) \<le> LONGLONG_MAX")
  case True
  obtain st1 ty where c: "type_create st T_ARRAY = (st1, ty)" by fastforce
  note f = type_create_facts [OF c assms(2)]
  let ?st = "set_tree st1 (t_ref ty) (zero_tree\<lparr>tt_type := T_ARRAY, tt_size := count, tt_next := next\<rparr>)"
  have p: "type_create_array st next count = Inr (?st, ty)"
    using True assms(1) c f(5) by (simp add: type_create_array_def)
  have arr: "is_array ty" "\<not> is_pointer ty" "\<not> is_struct_or_union ty"
    using f(3) by (simp_all add: tclass_simps type_of_def zero_type_def)
  have ext: "extends st ?st" using extends_set_new [OF f(2)] f(1) by simp
  have h: "get_typetree_handle ?st (t_ref ty) = Inr (zero_tree\<lparr>tt_type := T_ARRAY, tt_size := count, tt_next := next\<rparr>)"
    using f(4) by (simp add: handle_set_tree)
  have "size_of_fuel (max_depth st) ?st next = Inr sz"
    using size_of_fuel_extends [OF ext] assms(1) by (simp add: size_of_def)
  moreover have "max_depth ?st = Suc (max_depth st)" using f(2) by (simp add: max_depth_def)
  ultimately have "size_of ?st ty = Inr (wrap64 (count * sz))"
    using h arr by (simp add: size_of_def)
  then show ?thesis using True p arr ext h by (simp add: type_array_len_def type_next_def)
next
  case False
  then show ?thesis using assms(1) by (simp add: type_create_array_def)
qed

text \<open>An array of 2 to the 62nd plus one integers is accepted with a size of four bytes.\<close>

section \<open>The fuel of the recursive operations\<close>

abbreviation overflows :: "'a outcome \<Rightarrow> bool" where
  "overflows r \<equiv> r = Inl Stack_Overflow"

definition refs :: "type_store \<Rightarrow> int set" where
  "refs st = {1..int (length (trees st))}"

lemma card_refs [simp]: "finite (refs st)" "card (refs st) = length (trees st)"
  by (simp_all add: refs_def)

lemma handle_in_refs: "get_typetree_handle st r = Inr t \<Longrightarrow> r \<in> refs st"
  by (simp add: handle_Inr_iff valid_ref_def refs_def)

definition array_key :: "ctype \<Rightarrow> int option" where
  "array_key ty = (if is_array ty then Some (t_ref ty) else None)"

lemma array_not_struct: "is_array ty \<Longrightarrow> \<not> is_struct_or_union ty \<and> \<not> is_pointer ty \<and> \<not> is_function ty \<and> is_object ty"
  by (simp add: tclass_simps)

interpretation size_rec: fuel_recursion "\<lambda>n ty. overflows (size_of_fuel n st ty)" array_key "refs st" for st
proof unfold_locales
  fix n x
  show "overflows (size_of_fuel (Suc n) st x) \<Longrightarrow> overflows (size_of_fuel n st x)"
    using size_of_fuel_mono [of n st x "Suc n"] by (metis le_SucI order_refl)
  fix k y
  show "array_key x = Some k \<Longrightarrow> array_key y = Some k \<Longrightarrow>
      overflows (size_of_fuel (Suc n) st x) = overflows (size_of_fuel (Suc n) st y)"
    using array_not_struct by (auto simp: array_key_def split: if_splits)
  assume o: "overflows (size_of_fuel (Suc n) st x)"
  then obtain t where t: "is_array x" "\<not> is_struct_or_union x" "get_typetree_handle st (t_ref x) = Inr t"
      "overflows (size_of_fuel n st (tt_next t))"
    by (auto simp: outcome_simps split: if_splits)
  show "\<exists>k \<in> refs st. array_key x = Some k" using t handle_in_refs by (auto simp: array_key_def)
  show "\<exists>y. overflows (size_of_fuel n st y) \<and>
      (\<forall>m \<ge> n. overflows (size_of_fuel m st y) \<longrightarrow> overflows (size_of_fuel (Suc m) st x))"
    using t by (intro exI [of _ "tt_next t"]) simp
qed simp_all

lemma is_vla_fuel_mono:
  "\<not> overflows (is_vla_fuel n st ty) \<Longrightarrow> n \<le> m \<Longrightarrow> is_vla_fuel m st ty = is_vla_fuel n st ty"
proof (induction n arbitrary: ty m)
  case (Suc n)
  obtain m' where m: "m = Suc m'" "n \<le> m'" using Suc.prems(2) by (cases m) auto
  then show ?case using Suc.IH [of _ m'] Suc.prems(1) by (auto simp: outcome_simps split: if_splits intro!: obind_cong)
qed simp

interpretation vla_rec: fuel_recursion "\<lambda>n ty. overflows (is_vla_fuel n st ty)" array_key "refs st" for st
proof unfold_locales
  fix n x
  show "overflows (is_vla_fuel (Suc n) st x) \<Longrightarrow> overflows (is_vla_fuel n st x)"
    using is_vla_fuel_mono [of n st x "Suc n"] by (metis le_SucI order_refl)
  fix k y
  show "array_key x = Some k \<Longrightarrow> array_key y = Some k \<Longrightarrow>
      overflows (is_vla_fuel (Suc n) st x) = overflows (is_vla_fuel (Suc n) st y)"
    by (auto simp: array_key_def split: if_splits)
  assume o: "overflows (is_vla_fuel (Suc n) st x)"
  then obtain t where t: "is_array x" "get_typetree_handle st (t_ref x) = Inr t" "\<not> tt_vla t"
      "overflows (is_vla_fuel n st (tt_next t))"
    by (auto simp: outcome_simps split: if_splits)
  show "\<exists>k \<in> refs st. array_key x = Some k" using t handle_in_refs by (auto simp: array_key_def)
  show "\<exists>y. overflows (is_vla_fuel n st y) \<and>
      (\<forall>m \<ge> n. overflows (is_vla_fuel m st y) \<longrightarrow> overflows (is_vla_fuel (Suc m) st x))"
    using t by (intro exI [of _ "tt_next t"]) simp
qed simp_all

text \<open>The loops over members: the first call that overflows is to blame, the others have their results.\<close>

lemma max_alignment_cong:
  "(\<And>x. x \<in> set ms \<Longrightarrow> \<not> overflows (f (m_type x)) \<Longrightarrow> g (m_type x) = f (m_type x)) \<Longrightarrow>
   \<not> overflows (max_alignment f ms d) \<Longrightarrow> max_alignment g ms d = max_alignment f ms d"
proof (induction ms arbitrary: d)
  case (Cons x xs)
  have "g (m_type x) = f (m_type x)" using Cons.prems by (auto simp: outcome_simps)
  then show ?case using Cons by (auto simp: outcome_simps intro!: obind_cong)
qed simp

definition align_blame :: "(ctype \<Rightarrow> nat outcome) \<Rightarrow> member list \<Rightarrow> nat \<Rightarrow> ctype \<Rightarrow> bool" where
  "align_blame f ms d x \<longleftrightarrow>
     (\<forall>g. (\<forall>y \<in> set ms. \<not> overflows (f (m_type y)) \<longrightarrow> g (m_type y) = f (m_type y)) \<longrightarrow>
       overflows (g x) \<longrightarrow> overflows (max_alignment g ms d))"

lemma align_blameD:
  assumes "align_blame f ms d x" "\<And>y. \<not> overflows (f y) \<Longrightarrow> g y = f y" "overflows (g x)"
  shows "overflows (max_alignment g ms d)"
  using assms(1) [unfolded align_blame_def, rule_format, of g] assms(2,3) by simp

lemma max_alignment_blame:
  "overflows (max_alignment f ms d) \<Longrightarrow> \<exists>x. overflows (f x) \<and> align_blame f ms d x"
proof (induction ms arbitrary: d)
  case (Cons x xs)
  show ?case
  proof (cases "f (m_type x)")
    case (Inl e)
    then show ?thesis using Cons.prems by (intro exI [of _ "m_type x"]) (simp add: align_blame_def)
  next
    case (Inr v)
    then have "overflows (max_alignment f xs (if v > d then v else d))" using Cons.prems by simp
    from Cons.IH [OF this] obtain z where "overflows (f z)" "align_blame f xs (if v > d then v else d) z" by blast
    then show ?thesis using Inr by (intro exI [of _ z]) (simp add: align_blame_def)
  qed
qed simp

lemma type_next_not_overflow [simp]: "type_next st ty \<noteq> Inl Stack_Overflow"
  by (auto simp: type_next_def type_deref_def get_type_handle_def outcome_simps split: if_splits)

lemma type_alignment_fuel_mono:
  "\<not> overflows (type_alignment_fuel n st ty) \<Longrightarrow> n \<le> m \<Longrightarrow> type_alignment_fuel m st ty = type_alignment_fuel n st ty"
proof (induction n arbitrary: ty m)
  case (Suc n)
  obtain m' where m: "m = Suc m'" "n \<le> m'" using Suc.prems(2) by (cases m) auto
  have ih: "type_alignment_fuel m' st y = type_alignment_fuel n st y" if "\<not> overflows (type_alignment_fuel n st y)" for y
    using Suc.IH that m(2) by blast
  consider "\<not> is_object ty" | "is_object ty" "is_array ty" | "is_object ty" "\<not> is_array ty" "is_struct_or_union ty"
    | "is_object ty" "\<not> is_array ty" "\<not> is_struct_or_union ty" by blast
  then show ?case
  proof cases
    case 3
    show ?thesis
    proof (cases "get_typetree_handle st (t_ref ty)")
      case (Inr t)
      then have "\<not> overflows (max_alignment (type_alignment_fuel n st) (tt_members t) 0)"
        using Suc.prems(1) 3 by (auto simp: outcome_simps)
      then have "max_alignment (type_alignment_fuel m' st) (tt_members t) 0 =
          max_alignment (type_alignment_fuel n st) (tt_members t) 0"
        using max_alignment_cong [of "tt_members t" "type_alignment_fuel n st" "type_alignment_fuel m' st" 0] ih by blast
      then show ?thesis using 3 Inr m(1) by simp
    qed (use 3 m(1) in simp)
  qed (use m(1) ih Suc.prems(1) in \<open>auto simp: outcome_simps intro!: obind_cong\<close>)
qed simp

definition aggregate_key :: "ctype \<Rightarrow> (bool \<times> int) option" where
  "aggregate_key ty = (if is_array ty \<or> is_struct_or_union ty then Some (is_array ty, t_ref ty) else None)"

interpretation align_rec:
  fuel_recursion "\<lambda>n ty. overflows (type_alignment_fuel n st ty)" aggregate_key "UNIV \<times> refs st" for st
proof unfold_locales
  fix n x
  show "overflows (type_alignment_fuel (Suc n) st x) \<Longrightarrow> overflows (type_alignment_fuel n st x)"
    using type_alignment_fuel_mono [of n st x "Suc n"] by (metis le_SucI order_refl)
  fix k y
  show "aggregate_key x = Some k \<Longrightarrow> aggregate_key y = Some k \<Longrightarrow>
      overflows (type_alignment_fuel (Suc n) st x) = overflows (type_alignment_fuel (Suc n) st y)"
    by (auto simp: aggregate_key_def type_next_def tclass_simps split: if_splits)
  assume o: "overflows (type_alignment_fuel (Suc n) st x)"
  then have "is_array x \<or> is_struct_or_union x" by (auto simp: outcome_simps tclass_simps split: if_splits)
  then consider "is_array x" | "is_struct_or_union x" "\<not> is_array x" by blast
  then show "\<exists>k \<in> UNIV \<times> refs st. aggregate_key x = Some k"
    using o handle_in_refs
    by cases (auto simp: aggregate_key_def outcome_simps type_next_def tclass_simps)
  from \<open>is_array x \<or> is_struct_or_union x\<close> consider "is_array x" | "is_struct_or_union x" "\<not> is_array x" by blast
  then show "\<exists>y. overflows (type_alignment_fuel n st y) \<and>
      (\<forall>m \<ge> n. overflows (type_alignment_fuel m st y) \<longrightarrow> overflows (type_alignment_fuel (Suc m) st x))"
  proof cases
    case 1
    then obtain y where "type_next st x = Inr y" "overflows (type_alignment_fuel n st y)"
      using o array_not_struct by (auto simp: outcome_simps)
    then show ?thesis using 1 array_not_struct [OF 1] by (intro exI [of _ y]) simp
  next
    case 2
    then have obj: "is_object x" by (auto simp: tclass_simps)
    obtain t where t: "get_typetree_handle st (t_ref x) = Inr t"
        "overflows (max_alignment (type_alignment_fuel n st) (tt_members t) 0)"
      using o 2 obj by (auto simp: outcome_simps)
    obtain z where z: "overflows (type_alignment_fuel n st z)" "align_blame (type_alignment_fuel n st) (tt_members t) 0 z"
      using max_alignment_blame [OF t(2)] by blast
    have "overflows (type_alignment_fuel (Suc m) st x)" if m: "m \<ge> n" "overflows (type_alignment_fuel m st z)" for m
    proof -
      have "overflows (max_alignment (type_alignment_fuel m st) (tt_members t) 0)"
        using m(2) type_alignment_fuel_mono [OF _ m(1)] by (intro align_blameD [OF z(2)])
      then show ?thesis using t(1) 2 obj by simp
    qed
    then show ?thesis using z(1) by blast
  qed
qed simp_all

lemma members_equal_cong:
  "(\<And>a b. a \<in> set as \<Longrightarrow> b \<in> set bs \<Longrightarrow> \<not> overflows (f (m_type a) (m_type b)) \<Longrightarrow>
      g (m_type a) (m_type b) = f (m_type a) (m_type b)) \<Longrightarrow>
   \<not> overflows (members_equal f fn as bs) \<Longrightarrow> members_equal g fn as bs = members_equal f fn as bs"
proof (induction f fn as bs rule: members_equal.induct)
  case (1 f fn a as b bs)
  have ab: "g (m_type a) (m_type b) = f (m_type a) (m_type b)" using "1.prems" by (auto simp: outcome_simps)
  show ?case
  proof (cases "f (m_type a) (m_type b)")
    case (Inr e)
    have "members_equal g fn as bs = members_equal f fn as bs"
      if "e" "fn \<or> m_offset a = m_offset b \<and> str_cmp (m_name a) (m_name b) = 0"
    proof (cases fn)
      case True
      show ?thesis using "1.IH"(2) [of e] "1.prems" that Inr True by simp
    next
      case False
      show ?thesis using "1.IH"(1) [of e "()"] "1.prems" that Inr False by simp
    qed
    then show ?thesis using ab Inr by (auto simp: oassert_def)
  qed (use ab in simp)
qed simp_all

definition equal_blame :: "(ctype \<Rightarrow> ctype \<Rightarrow> bool outcome) \<Rightarrow> bool \<Rightarrow> member list \<Rightarrow> member list \<Rightarrow> ctype \<Rightarrow> ctype \<Rightarrow> bool" where
  "equal_blame f fn as bs x y \<longleftrightarrow>
     (\<forall>g. (\<forall>a \<in> set as. \<forall>b \<in> set bs. \<not> overflows (f (m_type a) (m_type b)) \<longrightarrow>
            g (m_type a) (m_type b) = f (m_type a) (m_type b)) \<longrightarrow>
       overflows (g x y) \<longrightarrow> overflows (members_equal g fn as bs))"

lemma equal_blameD:
  assumes "equal_blame f fn as bs x y" "\<And>a b. \<not> overflows (f a b) \<Longrightarrow> g a b = f a b" "overflows (g x y)"
  shows "overflows (members_equal g fn as bs)"
  using assms(1) [unfolded equal_blame_def, rule_format, of g] assms(2,3) by simp

lemma members_equal_blame:
  "overflows (members_equal f fn as bs) \<Longrightarrow> \<exists>x y. overflows (f x y) \<and> equal_blame f fn as bs x y"
proof (induction f fn as bs rule: members_equal.induct)
  case (1 f fn a as b bs)
  show ?case
  proof (cases "f (m_type a) (m_type b)")
    case (Inl e)
    then show ?thesis
      using "1.prems" by (intro exI [of _ "m_type a"] exI [of _ "m_type b"]) (simp add: equal_blame_def)
  next
    case (Inr e)
    have e: "e" "fn \<or> m_offset a = m_offset b \<and> str_cmp (m_name a) (m_name b) = 0"
      and o: "overflows (members_equal f fn as bs)"
      using "1.prems" Inr by (auto simp: oassert_def split: if_splits)
    have "\<exists>x y. overflows (f x y) \<and> equal_blame f fn as bs x y"
    proof (cases fn)
      case True
      show ?thesis using "1.IH"(2) [of e] o e Inr True by simp
    next
      case False
      show ?thesis using "1.IH"(1) [of e "()"] o e Inr False by simp
    qed
    then obtain x y where xy: "overflows (f x y)" "equal_blame f fn as bs x y" by blast
    have "equal_blame f fn (a # as) (b # bs) x y"
      using xy(2) e Inr by (auto simp: equal_blame_def)
    then show ?thesis using xy(1) by blast
  qed
qed simp_all

lemma typetree_equal_cong:
  assumes "\<And>a b. \<not> overflows (f a b) \<Longrightarrow> g a b = f a b" "\<not> overflows (typetree_equal f ta tb)"
  shows "typetree_equal g ta tb = typetree_equal f ta tb"
proof -
  have "members_equal g fn as bs = members_equal f fn as bs" if "\<not> overflows (members_equal f fn as bs)" for fn as bs
    using members_equal_cong [of as bs f g fn] assms(1) that by blast
  then show ?thesis using assms(2) by (auto simp: typetree_equal_def)
qed

lemma type_equal_fuel_mono:
  "\<not> overflows (type_equal_fuel n st a b) \<Longrightarrow> n \<le> m \<Longrightarrow> type_equal_fuel m st a b = type_equal_fuel n st a b"
proof (induction n arbitrary: a b m)
  case (Suc n)
  obtain m' where m: "m = Suc m'" "n \<le> m'" using Suc.prems(2) by (cases m) auto
  have ih: "type_equal_fuel m' st x y = type_equal_fuel n st x y" if "\<not> overflows (type_equal_fuel n st x y)" for x y
    using Suc.IH that m(2) by blast
  have "typetree_equal (type_equal_fuel m' st) ta tb = typetree_equal (type_equal_fuel n st) ta tb"
    if "\<not> overflows (typetree_equal (type_equal_fuel n st) ta tb)" for ta tb
    using typetree_equal_cong ih that by metis
  then show ?case using Suc.prems(1) m(1) by (auto simp: outcome_simps intro!: obind_cong)
qed simp

text \<open>Whether a comparison goes on to the trees of the two types.\<close>

definition equal_key :: "ctype \<times> ctype \<Rightarrow> (int \<times> int) option" where
  "equal_key = (\<lambda>(a, b). if a \<noteq> b \<and> t_type a = t_type b \<and> t_unsigned a = t_unsigned b \<and> t_ref a \<noteq> 0 \<and> t_ref b \<noteq> 0
     then Some (t_ref a, t_ref b) else None)"

lemma type_equal_fuel_key:
  assumes "equal_key (a, b) = Some (r, s)"
  shows "type_equal_fuel (Suc n) st a b =
    obind (get_typetree_handle st r) (\<lambda>ta. obind (get_typetree_handle st s) (\<lambda>tb.
      typetree_equal (type_equal_fuel n st) ta tb))"
  using assms by (auto simp: equal_key_def split: if_splits)

interpretation equal_rec:
  fuel_recursion "\<lambda>n (a, b). overflows (type_equal_fuel n st a b)" equal_key "refs st \<times> refs st" for st
proof unfold_locales
  fix n and x :: "ctype \<times> ctype"
  obtain a b where x: "x = (a, b)" by (cases x)
  show "(case x of (a, b) \<Rightarrow> overflows (type_equal_fuel (Suc n) st a b)) \<Longrightarrow>
      case x of (a, b) \<Rightarrow> overflows (type_equal_fuel n st a b)"
    using type_equal_fuel_mono [of n st a b "Suc n"] unfolding x prod.case by (metis le_SucI order_refl)
  fix k and y :: "ctype \<times> ctype"
  show "equal_key x = Some k \<Longrightarrow> equal_key y = Some k \<Longrightarrow>
      (case x of (a, b) \<Rightarrow> overflows (type_equal_fuel (Suc n) st a b)) =
      (case y of (a, b) \<Rightarrow> overflows (type_equal_fuel (Suc n) st a b))"
    by (cases k; cases y) (simp add: x type_equal_fuel_key del: type_equal_fuel.simps)
  assume "case x of (a, b) \<Rightarrow> overflows (type_equal_fuel (Suc n) st a b)"
  then have o: "overflows (type_equal_fuel (Suc n) st a b)" by (simp add: x)
  have k: "equal_key (a, b) = Some (t_ref a, t_ref b)" using o by (auto simp: equal_key_def split: if_splits)
  obtain ta tb where t: "get_typetree_handle st (t_ref a) = Inr ta" "get_typetree_handle st (t_ref b) = Inr tb"
      "overflows (typetree_equal (type_equal_fuel n st) ta tb)"
    using o unfolding type_equal_fuel_key [OF k] by (auto simp: outcome_simps)
  show "\<exists>k \<in> refs st \<times> refs st. equal_key x = Some k" using k t handle_in_refs by (simp add: x)
  let ?ms = "tt_members ta" and ?ns = "tt_members tb" and ?fn = "tt_type ta = T_FUNCTION"
  have eq: "typetree_equal g ta tb = members_equal g ?fn ?ms ?ns" for g
    using t(3) by (simp add: typetree_equal_def split: if_splits)
  have "overflows (members_equal (type_equal_fuel n st) ?fn ?ms ?ns)" using t(3) eq by simp
  then obtain p q where pq: "overflows (type_equal_fuel n st p q)" "equal_blame (type_equal_fuel n st) ?fn ?ms ?ns p q"
    using members_equal_blame by blast
  have "overflows (type_equal_fuel (Suc m) st a b)" if m: "m \<ge> n" "overflows (type_equal_fuel m st p q)" for m
  proof -
    have "overflows (members_equal (type_equal_fuel m st) ?fn ?ms ?ns)"
      using m(2) type_equal_fuel_mono [OF _ m(1)] by (intro equal_blameD [OF pq(2)])
    then show ?thesis using t(1,2) by (simp add: type_equal_fuel_key [OF k] eq del: type_equal_fuel.simps)
  qed
  then show "\<exists>y. (case y of (a, b) \<Rightarrow> overflows (type_equal_fuel n st a b)) \<and>
      (\<forall>m \<ge> n. (case y of (a, b) \<Rightarrow> overflows (type_equal_fuel m st a b)) \<longrightarrow>
         (case x of (a, b) \<Rightarrow> overflows (type_equal_fuel (Suc m) st a b)))"
    using pq(1) unfolding x by (intro exI [of _ "(p, q)"]) (simp del: type_equal_fuel.simps)
qed simp_all

text \<open>
  The bounds on the depth of the recursion change no result: where
  the size, the alignment, the test for a variable length or the comparison of
  types returns at any depth, it returns the same within the bound the model
  gives it. What the model reports as a stack overflow is a recursion that never
  ends.
\<close>

lemma type_recursion_fuel_exact:
  "(\<not> overflows (size_of_fuel n st a) \<longrightarrow> size_of st a = size_of_fuel n st a) \<and>
   (\<not> overflows (type_alignment_fuel n st a) \<longrightarrow> type_alignment st a = type_alignment_fuel n st a) \<and>
   (\<not> overflows (is_vla_fuel n st a) \<longrightarrow> is_vla st a = is_vla_fuel n st a) \<and>
   (\<not> overflows (type_equal_fuel n st a b) \<longrightarrow> type_equal st a b = type_equal_fuel n st a b)"
proof (intro conjI impI)
  assume o: "\<not> overflows (size_of_fuel n st a)"
  have "\<not> overflows (size_of_fuel (max_depth st) st a)"
    by (rule size_rec.fuel_exact [OF o]) (simp add: max_depth_def)
  then show "size_of st a = size_of_fuel n st a"
    unfolding size_of_def using size_of_fuel_mono [of n st a] size_of_fuel_mono [of "max_depth st" st a] o
    by (metis nat_le_linear)
next
  assume o: "\<not> overflows (type_alignment_fuel n st a)"
  have "\<not> overflows (type_alignment_fuel (max_path st) st a)"
    by (rule align_rec.fuel_exact [OF o]) (simp add: max_path_def card_cartesian_product)
  then show "type_alignment st a = type_alignment_fuel n st a"
    unfolding type_alignment_def
    using type_alignment_fuel_mono [of n st a] type_alignment_fuel_mono [of "max_path st" st a] o
    by (metis nat_le_linear)
next
  assume o: "\<not> overflows (is_vla_fuel n st a)"
  have "\<not> overflows (is_vla_fuel (max_depth st) st a)"
    by (rule vla_rec.fuel_exact [OF o]) (simp add: max_depth_def)
  then show "is_vla st a = is_vla_fuel n st a"
    unfolding is_vla_def using is_vla_fuel_mono [of n st a] is_vla_fuel_mono [of "max_depth st" st a] o
    by (metis nat_le_linear)
next
  assume o: "\<not> overflows (type_equal_fuel n st a b)"
  have "\<not> overflows (type_equal_fuel (Suc (length (trees st) * length (trees st))) st a b)"
    using equal_rec.fuel_exact [of n st "(a, b)" "Suc (length (trees st) * length (trees st))"] o
    by (simp add: card_cartesian_product del: type_equal_fuel.simps)
  then show "type_equal st a b = type_equal_fuel n st a b"
    unfolding type_equal_def
    using type_equal_fuel_mono [of n st a b] type_equal_fuel_mono [of "Suc (length (trees st) * length (trees st))" st a b] o
    by (metis nat_le_linear)
qed

section \<open>Arithmetic conversions\<close>

text \<open>
  The usual arithmetic conversions as the standard states them (C11, 6.3.1.8), on
  a type tag and a sign: integer types are promoted, then the operand types meet
  by rank, and at equal rank the unsigned type wins.
\<close>

definition promoted :: "type_tag \<times> bool \<Rightarrow> type_tag \<times> bool" where
  "promoted t = (if type_num (fst t) < type_num T_INT then (T_INT, False) else t)"

definition c11_conversion :: "type_tag \<times> bool \<Rightarrow> type_tag \<times> bool \<Rightarrow> type_tag \<times> bool" where
  "c11_conversion a b =
     (if T_LDOUBLE \<in> {fst a, fst b} then (T_LDOUBLE, False)
      else if T_DOUBLE \<in> {fst a, fst b} then (T_DOUBLE, False)
      else if T_FLOAT \<in> {fst a, fst b} then (T_FLOAT, False)
      else
        let (ta, ua) = promoted a; (tb, ub) = promoted b in
        if ua = ub then (if type_num ta < type_num tb then tb else ta, ua)
        else let (tu, ts) = (if ua then (ta, tb) else (tb, ta))
             in if type_num ts \<le> type_num tu then (tu, True) else (ts, False))"

abbreviation arith_type :: "ctype \<Rightarrow> type_tag \<times> bool" where
  "arith_type t \<equiv> (type_of t, is_unsigned t)"

lemma promote_integer_promoted:
  assumes "is_integer t"
  shows "\<exists>p. promote_integer st t = Inr p \<and> arith_type p = promoted (arith_type t) \<and> is_integer p \<and>
    size_of st p = Inr (if type_of p = T_LONG then 8 else 4) \<and> type_of p \<in> {T_INT, T_LONG}"
  using assms
  by (cases "type_of t") (simp_all add: promote_integer_def promoted_def tclass_simps scalar_size_def)

lemma usual_arithmetic_conversion_eq:
  assumes "is_arithmetic t1" "is_arithmetic t2"
  shows "\<exists>res. usual_arithmetic_conversion st t1 t2 = Inr res \<and>
    arith_type res = c11_conversion (arith_type t1) (arith_type t2) \<and>
    \<not> is_const res \<and> \<not> is_volatile res \<and> \<not> is_restrict res"
proof (cases "is_real t1 \<or> is_real t2")
  case True
  then show ?thesis
    using assms
    by (auto simp: usual_arithmetic_conversion_def c11_conversion_def is_real_def is_long_double_def is_double_def
        is_float_def is_unsigned_def is_bool_def type_between_def) (cases "type_of t1"; cases "type_of t2"; simp)+
next
  case False
  then have i: "is_integer t1" "is_integer t2" using assms by (simp_all add: is_arithmetic_iff)
  obtain p1 where p1: "promote_integer st t1 = Inr p1" "arith_type p1 = promoted (arith_type t1)"
      "size_of st p1 = Inr (if type_of p1 = T_LONG then 8 else 4)" "type_of p1 \<in> {T_INT, T_LONG}"
    using promote_integer_promoted [OF i(1)] by blast
  obtain p2 where p2: "promote_integer st t2 = Inr p2" "arith_type p2 = promoted (arith_type t2)"
      "size_of st p2 = Inr (if type_of p2 = T_LONG then 8 else 4)" "type_of p2 \<in> {T_INT, T_LONG}"
    using promote_integer_promoted [OF i(2)] by blast
  have nf: "\<not> is_long_double t1" "\<not> is_long_double t2" "\<not> is_double t1" "\<not> is_double t2" "\<not> is_float t1" "\<not> is_float t2"
    using i by (auto simp: tclass_simps)
  let ?res = "if type_of p1 = T_LONG \<and> type_of p2 = T_INT then p1 else if type_of p2 = T_LONG \<and> type_of p1 = T_INT then p2
    else if is_unsigned p1 then p1 else p2"
  have u: "usual_arithmetic_conversion st t1 t2 = Inr (remove_qualifiers ?res)"
    using assms p1 p2 nf by (auto simp: usual_arithmetic_conversion_def)
  have c: "c11_conversion (arith_type t1) (arith_type t2) =
      (if is_unsigned p1 = is_unsigned p2
       then (if type_num (type_of p1) < type_num (type_of p2) then type_of p2 else type_of p1, is_unsigned p1)
       else let (tu, ts) = (if is_unsigned p1 then (type_of p1, type_of p2) else (type_of p2, type_of p1))
            in if type_num ts \<le> type_num tu then (tu, True) else (ts, False))"
    using nf unfolding c11_conversion_def is_long_double_def is_double_def is_float_def p1(2) [symmetric] p2(2) [symmetric]
    by simp
  have r: "is_unsigned (remove_qualifiers t) = is_unsigned t" for t
    by (simp add: is_unsigned_def is_bool_def)
  have "arith_type (remove_qualifiers ?res) = c11_conversion (arith_type t1) (arith_type t2)"
    unfolding c using p1(4) p2(4) by (elim insertE emptyE; simp add: r)
  then show ?thesis using u by (intro exI [of _ "remove_qualifiers ?res"]) (simp only: remove_qualifiers_unqualified simp_thms)
qed

text \<open>
  Property C38. For arithmetic operands the conversion succeeds, and its result is
  the unqualified type that the usual arithmetic conversions of the standard
  prescribe for the two type tags and signs.
\<close>

theorem usual_arithmetic_conversion_c11:
  assumes "is_arithmetic t1" "is_arithmetic t2"
  shows "\<exists>res. usual_arithmetic_conversion st t1 t2 = Inr res \<and>
    arith_type res = c11_conversion (arith_type t1) (arith_type t2) \<and>
    \<not> is_const res \<and> \<not> is_volatile res \<and> \<not> is_restrict res"
  using usual_arithmetic_conversion_eq [OF assms] .

text \<open>An unsigned integer and a constant \<open>long\<close> meet in \<open>long\<close>.\<close>

theorem usual_arithmetic_conversion_c11_witness:
  "\<exists>res. usual_arithmetic_conversion empty_types basic_type__unsigned_int (basic_type__long\<lparr>t_const := True\<rparr>) = Inr res \<and>
    arith_type res = (T_LONG, False) \<and> \<not> is_const res \<and> \<not> is_volatile res \<and> \<not> is_restrict res"
  using usual_arithmetic_conversion_c11 [of basic_type__unsigned_int "basic_type__long\<lparr>t_const := True\<rparr>" empty_types]
  by (simp add: tclass_simps c11_conversion_def promoted_def type_of_def basic_type_def basic_type_unsigned_def zero_type_def)

section \<open>Equality of types\<close>

text \<open>
  Two types that are complete in their values, without a tree, are
  equal for the comparison when type tag and sign agree: besides the qualifiers
  it also disregards whether one of them is a pointer, so \<open>int\<close> equals \<open>int *\<close>.
\<close>

lemma type_equal_basic:
  assumes "t_ref a = 0" "t_ref b = 0"
  shows "type_equal st a b = Inr (t_type a = t_type b \<and> t_unsigned a = t_unsigned b)"
  using assms by (auto simp: type_equal_def)

text \<open>A struct type whose only member is a pointer to the type itself.\<close>

definition self_referential :: "type_store \<Rightarrow> ctype \<Rightarrow> c_string \<Rightarrow> nat \<Rightarrow> bool" where
  "self_referential st ty name off \<longleftrightarrow> \<not> t_pointer ty \<and> t_ref ty \<noteq> 0 \<and>
     (\<exists>t m. get_typetree_handle st (t_ref ty) = Inr t \<and> tt_type t = t_type ty \<and> t_type ty \<noteq> T_FUNCTION \<and>
        tt_members t = [m] \<and> m_type m = ty\<lparr>t_pointer := True\<rparr> \<and> m_name m = name \<and> m_offset m = off)"

text \<open>
  Comparing two different struct types of the same shape, each with a
  pointer to itself, never returns: whatever depth of recursion is allowed, it
  is exceeded, for the types themselves and for pointers to them.
\<close>

lemma type_equal_self_reference:
  assumes "self_referential st a name off" "self_referential st b name off" "t_ref a \<noteq> t_ref b"
    and "t_type a = t_type b" "t_unsigned a = t_unsigned b"
    and "get_typetree_handle st (t_ref a) = Inr ta" "get_typetree_handle st (t_ref b) = Inr tb"
    and "tt_size ta = tt_size tb" "tt_unsigned ta = tt_unsigned tb" "tt_vararg ta = tt_vararg tb"
    and "tt_flexible ta = tt_flexible tb" "tt_vla ta = tt_vla tb" "tt_incomplete ta = tt_incomplete tb"
  shows "overflows (type_equal_fuel n st a b)"
proof -
  obtain ma where ma: "t_ref a \<noteq> 0" "tt_type ta = t_type a" "t_type a \<noteq> T_FUNCTION" "tt_members ta = [ma]"
      "m_type ma = a\<lparr>t_pointer := True\<rparr>" "m_name ma = name" "m_offset ma = off"
    using assms(1,6) by (auto simp: self_referential_def)
  obtain mb where mb: "t_ref b \<noteq> 0" "tt_type tb = t_type b" "tt_members tb = [mb]"
      "m_type mb = b\<lparr>t_pointer := True\<rparr>" "m_name mb = name" "m_offset mb = off"
    using assms(2,7) by (auto simp: self_referential_def)
  have "overflows (type_equal_fuel n st x y)" if "x \<in> {a, a\<lparr>t_pointer := True\<rparr>}" "y \<in> {b, b\<lparr>t_pointer := True\<rparr>}" for x y
    using that
  proof (induction n arbitrary: x y)
    case (Suc n)
    have xy: "t_ref x = t_ref a" "t_ref y = t_ref b" "t_type x = t_type a" "t_type y = t_type b"
        "t_unsigned x = t_unsigned a" "t_unsigned y = t_unsigned b"
      using Suc.prems by auto
    then have "x \<noteq> y" using assms(3) by metis
    have "typetree_equal (type_equal_fuel n st) ta tb = Inl Stack_Overflow"
      using assms(4,8-13) ma mb Suc.IH [of "a\<lparr>t_pointer := True\<rparr>" "b\<lparr>t_pointer := True\<rparr>"]
      by (simp add: typetree_equal_def)
    then show ?case using xy \<open>x \<noteq> y\<close> assms(4-7) ma(1) mb(1) by simp
  qed simp
  then show ?thesis by simp
qed

text \<open>\<open>struct A { struct A *next; }\<close> and \<open>struct B { struct B *next; }\<close>, as the operations build them.\<close>

definition struct_type :: "int \<Rightarrow> ctype" where
  "struct_type r = zero_type\<lparr>t_type := T_STRUCT, t_ref := r\<rparr>"

definition node_member :: "int \<Rightarrow> member" where
  "node_member r = zero_member\<lparr>m_name := str_init ''next'', m_type := (struct_type r)\<lparr>t_pointer := True\<rparr>\<rparr>"

definition node_tree :: "int \<Rightarrow> typetree" where
  "node_tree r = zero_tree\<lparr>tt_type := T_STRUCT, tt_size := 8, tt_members := [node_member r]\<rparr>"

definition twin_store :: type_store where
  "twin_store = \<lparr>trees = [node_tree 1, node_tree 2], trees_cap = 16\<rparr>"

end
