(* ===== verification/Struct_Layout.thy ===== *)
theory Struct_Layout
  imports Typetree_Correct "HOL-Library.Code_Target_Nat"
begin

text \<open>
  The layout of structs that \<open>type_add_member\<close>, \<open>type_add_field\<close> and \<open>type_seal\<close>
  compute. The bits of the members are in order and disjoint, every bit-field is
  inside its storage unit and every storage unit inside the struct, whatever
  sequence of members and fields is added; and for plain members the result is
  the natural layout: each at the next multiple of its alignment, and the struct
  rounded up to the largest of them.
\<close>

section \<open>Types whose layout does not depend on the struct\<close>

definition fixed_layout :: "type_store \<Rightarrow> int \<Rightarrow> ctype \<Rightarrow> nat \<Rightarrow> nat \<Rightarrow> bool" where
  "fixed_layout st r ty sz al \<longleftrightarrow>
     (\<forall>t. size_of (set_tree st r t) ty = Inr sz \<and> type_alignment (set_tree st r t) ty = Inr al)"

lemma set_tree_set_tree [simp]: "set_tree (set_tree st r t) r t' = set_tree st r t'"
  by (simp add: set_tree_def)

lemma fixed_layout_set_tree [simp]: "fixed_layout (set_tree st r t) r ty sz al = fixed_layout st r ty sz al"
  by (simp add: fixed_layout_def)

lemma set_tree_same: "get_typetree_handle st r = Inr t \<Longrightarrow> set_tree st r t = st"
  by (simp add: handle_Inr_iff set_tree_def)

lemma is_object_scalar: "\<not> is_struct_or_union ty \<Longrightarrow> \<not> is_array ty \<Longrightarrow> \<not> is_function ty \<Longrightarrow>
  type_alignment st ty = Inr (scalar_size (type_of ty))"
  by (simp add: type_alignment_def max_path_def is_object_def)

lemma fixed_layout_scalar:
  "is_scalar ty \<Longrightarrow> fixed_layout st r ty (scalar_size (type_of ty)) (scalar_size (type_of ty))"
proof -
  assume "is_scalar ty"
  then have "\<not> is_struct_or_union ty" "\<not> is_array ty" "\<not> is_function ty" by (auto simp: tclass_simps)
  then show ?thesis by (simp add: fixed_layout_def is_object_scalar)
qed

lemma integer_sizes: "is_integer ty \<Longrightarrow> scalar_size (type_of ty) \<in> {1, 2, 4, 8}"
  by (auto simp: is_integer_iff scalar_size_def)

section \<open>Bit ranges of members\<close>

definition bit_lo :: "member \<Rightarrow> int" where
  "bit_lo m = 8 * int (m_offset m) + m_field_offset m"

definition bit_hi :: "(ctype \<Rightarrow> nat) \<Rightarrow> member \<Rightarrow> int" where
  "bit_hi S m = (if m_field_width m \<noteq> 0 then bit_lo m + m_field_width m else 8 * int (m_offset m + S (m_type m)))"

text \<open>A member within a struct of \<open>n\<close> bytes, where \<open>S\<close> gives the size of a member's type.\<close>

definition member_ok :: "(ctype \<Rightarrow> nat) \<Rightarrow> nat \<Rightarrow> member \<Rightarrow> bool" where
  "member_ok S n m \<longleftrightarrow>
     (if m_field_width m \<noteq> 0
      then 0 < m_field_width m \<and> 0 \<le> m_field_offset m \<and> m_field_offset m + m_field_width m \<le> m_field_backing m \<and>
           m_field_backing m \<in> {8, 16, 32, 64} \<and> 8 * int (m_offset m) + m_field_backing m \<le> 8 * int n
      else m_field_offset m = 0 \<and> m_offset m + S (m_type m) \<le> n)"

definition layout_ok :: "(ctype \<Rightarrow> nat) \<Rightarrow> typetree \<Rightarrow> bool" where
  "layout_ok S t \<longleftrightarrow> sorted_wrt (\<lambda>a b. bit_hi S a \<le> bit_lo b) (tt_members t) \<and>
     (\<forall>m \<in> set (tt_members t). member_ok S (tt_size t) m)"

lemma member_ok_mono: "member_ok S n m \<Longrightarrow> n \<le> n' \<Longrightarrow> member_ok S n' m"
  by (auto simp: member_ok_def split: if_splits)

lemma member_ok_range: "member_ok S n m \<Longrightarrow> bit_lo m \<le> bit_hi S m \<and> bit_hi S m \<le> 8 * int n"
  by (auto simp: member_ok_def bit_lo_def bit_hi_def split: if_splits)

lemma layout_ok_append:
  assumes "layout_ok S t" "\<forall>a \<in> set (tt_members t). bit_hi S a \<le> bit_lo m"
    and "tt_members t' = tt_members t @ [m]" "tt_size t \<le> tt_size t'" "member_ok S (tt_size t') m"
  shows "layout_ok S t'"
  using assms member_ok_mono [of S "tt_size t" _ "tt_size t'"]
  by (auto simp: layout_ok_def sorted_wrt_append)

lemma layout_ok_append_after:
  assumes "layout_ok S t" "tt_size t \<le> m_offset m" "0 \<le> m_field_offset m"
    and "tt_members t' = tt_members t @ [m]" "tt_size t \<le> tt_size t'" "member_ok S (tt_size t') m"
  shows "layout_ok S t'"
proof (rule layout_ok_append [OF assms(1) _ assms(4-6)])
  have "bit_hi S a \<le> 8 * int (tt_size t)" if "a \<in> set (tt_members t)" for a
    using assms(1) that member_ok_range by (auto simp: layout_ok_def)
  then show "\<forall>a \<in> set (tt_members t). bit_hi S a \<le> bit_lo m"
    using assms(2,3) unfolding bit_lo_def by force
qed

section \<open>Adding one member\<close>

lemma add_object_member_struct:
  assumes "add_object_member st p t m = Inr t'" "size_of st (m_type m) = Inr sz"
  shows "tt_members t' = tt_members t \<and> tt_size t' = max (tt_size t) (wrap64 (m_offset m + sz))"
  using assms by (auto simp: add_object_member_def outcome_simps split: if_splits)

lemma add_member_struct:
  assumes "add_member (set_tree st r t) p m = Inr (st', i)" "is_struct p" "t_ref p = r" "valid_ref st r"
    and "\<forall>t. size_of (set_tree st r t) (m_type m) = Inr sz"
  shows "\<exists>t'. st' = set_tree st r t' \<and> tt_members t' = tt_members t @ [m] \<and>
    tt_size t' = max (tt_size t) (wrap64 (m_offset m + sz))"
proof -
  have nf: "\<not> is_function p" "is_struct_or_union p" using assms(2) by (simp_all add: tclass_simps)
  have h: "get_typetree_handle (set_tree st r t) r = Inr t" using assms(4) by (simp add: handle_set_tree)
  let ?t1 = "t\<lparr>tt_members := tt_members t @ [m]\<rparr>"
  obtain t2 where "add_object_member (set_tree st r ?t1) p ?t1 m = Inr t2" "st' = set_tree st r t2"
    using assms(1) nf h unfolding add_member_def Let_def assms(3)
    by (auto simp: outcome_simps split: if_splits)
  then show ?thesis using add_object_member_struct [of "set_tree st r ?t1" p ?t1 m t2 sz] assms(5) by auto
qed

lemma adjust_struct:
  assumes "adjust_member_alignment (set_tree st r t) p ty = Inr (st1, off)" "is_struct p" "t_ref p = r" "valid_ref st r"
    and "\<forall>t. type_alignment (set_tree st r t) ty = Inr al" "tt_size t + al < 2 ^ 64"
  shows "0 < al \<and> off = align_up (tt_size t) al \<and> st1 = set_tree st r (t\<lparr>tt_size := off\<rparr>)"
proof -
  have h: "get_typetree_handle (set_tree st r t) r = Inr t" using assms(4) by (simp add: handle_set_tree)
  have nu: "is_struct_or_union p" using assms(2) by (simp add: tclass_simps)
  have w: "wrap64 (tt_size t + (al - tt_size t mod al)) = tt_size t + (al - tt_size t mod al)"
    using assms(6) by (intro wrap64_id) linarith
  have t: "t\<lparr>tt_size := tt_size t\<rparr> = t" by simp
  show ?thesis
    using assms(1,2,5) nu h w t
    unfolding adjust_member_alignment_def assms(3)
    by (auto simp: outcome_simps align_up_def Let_def split: if_splits)
qed

lemma plain_step:
  assumes "type_add_member (set_tree st r t) p name ty = Inr (st', i)" "is_struct p" "t_ref p = r" "valid_ref st r"
    and "fixed_layout st r ty sz al" "S ty = sz" "layout_ok S t" "tt_size t + al + sz < 2 ^ 63"
  shows "\<exists>t'. st' = set_tree st r t' \<and> layout_ok S t' \<and> tt_size t' \<le> tt_size t + al + sz \<and> 0 < al \<and>
    tt_size t' = align_up (tt_size t) al + sz \<and>
    tt_members t' = tt_members t @ [zero_member\<lparr>m_offset := align_up (tt_size t) al, m_name := name, m_type := ty\<rparr>]"
proof -
  have nf: "\<not> is_function p" "is_struct_or_union p" using assms(2) by (simp_all add: tclass_simps)
  obtain st1 off where a: "adjust_member_alignment (set_tree st r t) p ty = Inr (st1, off)"
      "add_member st1 p (zero_member\<lparr>m_offset := off, m_name := name, m_type := ty\<rparr>) = Inr (st', i)"
    using assms(1) nf by (auto simp: type_add_member_def outcome_simps)
  have fx: "\<forall>t. type_alignment (set_tree st r t) ty = Inr al" "\<forall>t. size_of (set_tree st r t) ty = Inr sz"
    using assms(5) by (simp_all add: fixed_layout_def)
  have adj: "0 < al" "off = align_up (tt_size t) al" "st1 = set_tree st r (t\<lparr>tt_size := off\<rparr>)"
    using adjust_struct [OF a(1) assms(2-4) fx(1)] assms(8) by auto
  have off: "off < tt_size t + al" "tt_size t \<le> off" using adj(1,2) align_up_less by auto
  then have w: "wrap64 (off + sz) = off + sz" using assms(8) by (intro wrap64_id) simp
  let ?m = "zero_member\<lparr>m_offset := off, m_name := name, m_type := ty\<rparr>"
  obtain t' where t': "st' = set_tree st r t'" "tt_members t' = tt_members t @ [?m]" "tt_size t' = off + sz"
    using add_member_struct [OF a(2) [unfolded adj(3)] assms(2-4), of sz] fx(2) w by auto
  have "layout_ok S t'"
    by (rule layout_ok_append_after [OF assms(7) _ _ t'(2)])
      (use off t'(3) assms(6) in \<open>simp_all add: member_ok_def zero_member_def\<close>)
  moreover have "tt_size t' \<le> tt_size t + al + sz" using t'(3) off by simp
  ultimately show ?thesis using t' adj(1,2) by blast
qed

section \<open>Adding a bit-field\<close>

lemma widen_backing_keeps:
  "length (widen_backing off b n ms) = length ms"
  "n \<le> length ms \<Longrightarrow> i < length ms \<Longrightarrow>
     widen_backing off b n ms ! i = ms ! i \<or>
     m_field_width (ms ! i) \<noteq> 0 \<and> m_offset (ms ! i) = off \<and> i < n \<and>
     widen_backing off b n ms ! i = (ms ! i)\<lparr>m_field_backing := b\<rparr>"
proof (induction off b n ms rule: widen_backing.induct)
  case (2 off b n ms)
  { case 1 then show ?case using "2.IH" by simp }
  { case 2
    then show ?case using "2.IH"(2) by (auto simp: nth_list_update split: if_splits) }
qed simp_all

lemma bits_of_backing [simp]:
  "bit_lo (m\<lparr>m_field_backing := b\<rparr>) = bit_lo m" "bit_hi S (m\<lparr>m_field_backing := b\<rparr>) = bit_hi S m"
  by (simp_all add: bit_lo_def bit_hi_def)

lemma widen_backing_bits:
  assumes "i < length ms"
  shows "bit_lo (widen_backing off b (length ms) ms ! i) = bit_lo (ms ! i)"
    "bit_hi S (widen_backing off b (length ms) ms ! i) = bit_hi S (ms ! i)"
  using widen_backing_keeps(2) [of "length ms" ms i off b] assms by auto

lemma sorted_widen_backing:
  assumes "sorted_wrt (\<lambda>a b. bit_hi S a \<le> bit_lo b) ms"
  shows "sorted_wrt (\<lambda>a b. bit_hi S a \<le> bit_lo b) (widen_backing off b (length ms) ms)"
  using assms by (auto simp: sorted_wrt_iff_nth_less widen_backing_keeps(1) widen_backing_bits)

text \<open>The bits of the last member are behind those of all others.\<close>

lemma bit_hi_last:
  assumes "layout_ok S t" "a \<in> set (tt_members t)"
  shows "bit_hi S a \<le> bit_hi S (last (tt_members t))"
proof -
  obtain i where i: "i < length (tt_members t)" "a = tt_members t ! i" using assms(2) by (auto simp: in_set_conv_nth)
  let ?l = "length (tt_members t) - 1"
  have l: "last (tt_members t) = tt_members t ! ?l" using i(1) by (intro last_conv_nth) auto
  show ?thesis
  proof (cases "i = ?l")
    case False
    then have "bit_hi S a \<le> bit_lo (last (tt_members t))"
      using assms(1) i l by (auto simp: layout_ok_def sorted_wrt_iff_nth_less)
    also have "\<dots> \<le> bit_hi S (last (tt_members t))"
      using assms(1) l i by (intro member_ok_range [THEN conjunct1]) (auto simp: layout_ok_def)
    finally show ?thesis .
  qed (use i l in simp)
qed

text \<open>
  A packed field: it starts where the last one ends, and once its storage is
  part of the struct, everything is in place.
\<close>

lemma pack_field_layout:
  assumes "pack_field_member (tt_members t) m = Some (ms, m1)" "layout_ok S t"
    and "0 < m_field_width m" "m_field_backing m = 8 * int sz" "sz \<in> {1, 2, 4, 8}"
    and "tt_members t' = ms @ [m1]" "tt_size t' = max (tt_size t) (m_offset m1 + sz)"
  shows "layout_ok S t' \<and> m_offset m1 \<le> tt_size t"
proof -
  let ?l = "last (tt_members t)" and ?n = "length (tt_members t)"
  have ne: "tt_members t \<noteq> []" and lw: "m_field_width ?l \<noteq> 0"
    using assms(1) by (auto simp: pack_field_member_def Let_def split: if_splits)
  have lok: "member_ok S (tt_size t) ?l" using assms(2) ne by (simp add: layout_ok_def)
  let ?bits = "m_field_offset ?l + m_field_width ?l + m_field_width m"
  have m1: "m_offset m1 = m_offset ?l" "m_field_offset m1 = m_field_offset ?l + m_field_width ?l"
      "m_field_width m1 = m_field_width m"
    using assms(1) by (auto simp: pack_field_member_def Let_def split: if_splits)
  have lo: "bit_lo m1 = bit_hi S ?l" using lw m1 by (simp add: bit_lo_def bit_hi_def)
  have le: "tt_size t \<le> tt_size t'" using assms(7) by simp
  have mo: "m_offset m1 \<le> tt_size t" using lok lw m1 by (auto simp: member_ok_def)
  consider (fits) "ms = tt_members t" "?bits \<le> m_field_backing ?l" "m_field_backing m1 = m_field_backing ?l"
    | (widens) "ms = widen_backing (m_offset ?l) (m_field_backing m) ?n (tt_members t)" "?bits \<le> m_field_backing m"
      "m_field_backing m1 = m_field_backing m"
    using assms(1) by (auto simp: pack_field_member_def Let_def split: if_splits)
  then show ?thesis
  proof cases
    case fits
    have "member_ok S (tt_size t') m1"
      using fits lok lw m1 assms(3) le by (auto simp: member_ok_def)
    then show ?thesis
      using layout_ok_append [OF assms(2) _ _ le, of m1] bit_hi_last [OF assms(2)] lo assms(6) fits(1) mo by simp
  next
    case widens
    have bk: "m_field_backing m \<in> {8, 16, 32, 64}" using assms(4,5) by auto
    have sz: "8 * int (m_offset ?l) + m_field_backing m \<le> 8 * int (tt_size t')" using assms(4,7) m1(1) by (simp add: max_def)
    have ok1: "member_ok S (tt_size t') m1"
      using widens(2,3) lok lw m1 assms(3) bk sz by (auto simp: member_ok_def)
    let ?u = "t'\<lparr>tt_members := ms\<rparr>"
    have "member_ok S (tt_size t') (ms ! i)" if i: "i < ?n" for i
    proof -
      have old: "member_ok S (tt_size t') (tt_members t ! i)"
        using assms(2) i by (intro member_ok_mono [OF _ le]) (simp add: layout_ok_def)
      have "bit_hi S (tt_members t ! i) \<le> bit_hi S ?l" using bit_hi_last [OF assms(2)] i by simp
      then show ?thesis
        using widen_backing_keeps(2) [of ?n "tt_members t" i "m_offset ?l" "m_field_backing m"] i old widens(1,2) bk sz lw assms(3)
        by (auto simp: member_ok_def bit_hi_def bit_lo_def)
    qed
    then have "\<forall>a \<in> set ms. member_ok S (tt_size t') a"
      using widens(1) by (auto simp: in_set_conv_nth widen_backing_keeps(1))
    moreover have "sorted_wrt (\<lambda>a b. bit_hi S a \<le> bit_lo b) ms"
      using sorted_widen_backing assms(2) widens(1) by (auto simp: layout_ok_def)
    ultimately have lu: "layout_ok S ?u" by (simp add: layout_ok_def)
    have "bit_hi S a \<le> bit_lo m1" if a: "a \<in> set ms" for a
    proof -
      obtain i where i: "i < ?n" "a = ms ! i" using a widens(1) by (auto simp: in_set_conv_nth widen_backing_keeps(1))
      then have "bit_hi S a = bit_hi S (tt_members t ! i)" using widens(1) widen_backing_bits(2) by simp
      then show ?thesis using bit_hi_last [OF assms(2), of "tt_members t ! i"] i lo by simp
    qed
    then show ?thesis using layout_ok_append [OF lu, of m1 t'] ok1 assms(6) mo by simp
  qed
qed

lemma layout_ok_size: "layout_ok S t \<Longrightarrow> tt_size t \<le> n \<Longrightarrow> layout_ok S (t\<lparr>tt_size := n\<rparr>)"
  using member_ok_mono by (auto simp: layout_ok_def)

text \<open>A store that differs from a given one only in the struct, which is well laid out and grew by at most \<open>k\<close>.\<close>

definition grows :: "(ctype \<Rightarrow> nat) \<Rightarrow> type_store \<Rightarrow> int \<Rightarrow> nat \<Rightarrow> typetree \<Rightarrow> type_store \<Rightarrow> bool" where
  "grows S st r k t st' \<longleftrightarrow>
     (\<exists>t'. st' = set_tree st r t' \<and> layout_ok S t' \<and> tt_size t \<le> tt_size t' \<and> tt_size t' \<le> tt_size t + k)"

lemma growsI: "st' = set_tree st r t' \<Longrightarrow> layout_ok S t' \<Longrightarrow> tt_size t \<le> tt_size t' \<Longrightarrow> tt_size t' \<le> tt_size t + k \<Longrightarrow>
  grows S st r k t st'"
  by (auto simp: grows_def)

lemma grows_le: "grows S st r k t st' \<Longrightarrow> k \<le> k' \<Longrightarrow> grows S st r k' t st'"
  by (auto simp: grows_def)

lemma pad_last_field_cases:
  "pad_last_field_with add st p c m = Inr st1 \<Longrightarrow> st1 = st \<or> (\<exists>name ty w. add st p name ty w = Inr st1)"
  unfolding pad_last_field_with_def by (auto simp: outcome_simps Let_def split: if_splits)

lemma reset_step:
  assumes add: "\<And>name ty w t st'. add (set_tree st r t) p name ty w = Inr st' \<Longrightarrow> layout_ok S t \<Longrightarrow>
      tt_size t + k < 2 ^ 63 \<Longrightarrow> grows S st r k t st'"
    and "reset_field_alignment_with add (set_tree st r t) p clear = Inr st'" "t_ref p = r" "valid_ref st r"
    and "is_integer clear" "layout_ok S t" "tt_size t + k < 2 ^ 63"
  shows "grows S st r (k + 8) t st'"
proof -
  let ?c = "scalar_size (type_of clear)"
  have h: "get_typetree_handle (set_tree st r t') r = Inr t'" for t' using assms(4) by (simp add: handle_set_tree)
  have c: "?c \<in> {1, 2, 4, 8}" "size_of (set_tree st r t) clear = Inr ?c"
    using integer_sizes [OF assms(5)] fixed_layout_scalar [of clear st r] assms(5)
    by (auto simp: fixed_layout_def is_scalar_iff is_arithmetic_iff)
  show ?thesis
  proof (cases "tt_members t = []")
    case True
    then have "st' = set_tree st r t"
      using assms(2) unfolding reset_field_alignment_with_def assms(3) by (simp add: h outcome_simps)
    then show ?thesis using assms(6) by (auto intro: growsI)
  next
    case False
    then obtain st1 where st1: "pad_last_field_with add (set_tree st r t) p (int ?c * 8) (last (tt_members t)) = Inr st1"
      and st': "clear_struct_size st1 p ?c = Inr st'"
      using assms(2) c(2) unfolding reset_field_alignment_with_def assms(3) h by (auto simp: outcome_simps)
    from st1 have "st1 = set_tree st r t \<or> (\<exists>name ty w. add (set_tree st r t) p name ty w = Inr st1)"
      by (rule pad_last_field_cases)
    then have "grows S st r k t st1" using add assms(6,7) by (auto intro: growsI)
    then obtain t1 where t1: "st1 = set_tree st r t1" "layout_ok S t1" "tt_size t \<le> tt_size t1" "tt_size t1 \<le> tt_size t + k"
      by (auto simp: grows_def)
    have m: "tt_size t1 mod ?c < 8" using c(1) by auto
    then have w: "wrap64 (tt_size t1 + tt_size t1 mod ?c) = tt_size t1 + tt_size t1 mod ?c"
      using t1(4) assms(7) by (intro wrap64_id) simp
    obtain n where n: "st' = set_tree st r (t1\<lparr>tt_size := n\<rparr>)" "tt_size t1 \<le> n" "n \<le> tt_size t1 + 8"
    proof (cases "tt_size t1 < ?c")
      case True
      then show ?thesis using st' t1(1) h c(1) unfolding clear_struct_size_def assms(3) by (intro that [of ?c]) auto
    next
      case False
      then show ?thesis using st' t1(1) h m w unfolding clear_struct_size_def assms(3)
        by (intro that [of "tt_size t1 + tt_size t1 mod ?c"]) (auto split: if_splits)
    qed
    show ?thesis
      using n t1(3,4) layout_ok_size [OF t1(2) n(2)] by (intro growsI [of _ _ _ "t1\<lparr>tt_size := n\<rparr>"]) simp_all
  qed
qed

lemma pack_zero_width:
  assumes "pack_field_member (tt_members t) m = Some (ms, m1)" "layout_ok S t" "m_field_width m = 0"
  shows "ms = tt_members t"
proof -
  have "tt_members t \<noteq> []" "m_field_width (last (tt_members t)) \<noteq> 0"
    using assms(1) by (auto simp: pack_field_member_def Let_def split: if_splits)
  then have "m_field_offset (last (tt_members t)) + m_field_width (last (tt_members t)) \<le> m_field_backing (last (tt_members t))"
    using assms(2) by (auto simp: layout_ok_def member_ok_def)
  then show ?thesis using assms(1,3) by (auto simp: pack_field_member_def Let_def split: if_splits)
qed

lemma field_level_step:
  assumes "is_struct p" "t_ref p = r" "valid_ref st r"
  shows "type_add_field_level n (set_tree st r t) p name ty width = Inr st' \<Longrightarrow> layout_ok S t \<Longrightarrow>
    tt_size t + 16 * n < 2 ^ 63 \<Longrightarrow> grows S st r (16 * n) t st'"
proof (induction n arbitrary: t name ty width st')
  case (Suc n)
  let ?reset = "reset_field_alignment_with (type_add_field_level n)" and ?sz = "scalar_size (type_of ty)"
  let ?m = "zero_member\<lparr>m_name := name, m_type := ty, m_field_width := int width, m_field_backing := int ?sz * 8\<rparr>"
  have add: "type_add_field_with ?reset (set_tree st r t) p name ty width = Inr st'" using Suc.prems(1) by simp
  then have int: "is_integer ty" by (auto simp: type_add_field_with_def outcome_simps)
  have h: "get_typetree_handle (set_tree st r t') r = Inr t'" for t' using assms(3) by (simp add: handle_set_tree)
  have nu: "\<not> is_union p" "is_struct_or_union p" using assms(1) by (simp_all add: tclass_simps)
  have fx: "fixed_layout st r ty ?sz ?sz" using int fixed_layout_scalar by (auto simp: is_scalar_iff is_arithmetic_iff)
  have sz: "?sz \<in> {1, 2, 4, 8}" "\<forall>t. size_of (set_tree st r t) ty = Inr ?sz" "\<forall>t. type_alignment (set_tree st r t) ty = Inr ?sz"
    using integer_sizes [OF int] fx by (auto simp: fixed_layout_def)
  have wd: "width \<le> ?sz * 8"
    using add sz(2) int nu by (auto simp: type_add_field_with_def outcome_simps Let_def split: if_splits)
  have "obind (place_field (set_tree st r t) p ty ?m) (\<lambda>(st1, m1). if width = 0 then ?reset st1 p ty
      else obind (add_member st1 p m1) (\<lambda>(st2, _). Inr st2)) = Inr st'"
    using add sz(2) int nu unfolding type_add_field_with_def by (simp split: if_splits)
  then obtain st1 m1 where placed: "place_field (set_tree st r t) p ty ?m = Inr (st1, m1)"
    and rest: "(if width = 0 then ?reset st1 p ty else obind (add_member st1 p m1) (\<lambda>(st2, _). Inr st2)) = Inr st'"
    by (auto simp: outcome_simps)
  have reset: "grows S st r (16 * n + 8) u st'"
    if "width = 0" "st1 = set_tree st r u" "layout_ok S u" "tt_size u + 16 * n < 2 ^ 63" for u
    using reset_step [of "type_add_field_level n" st r p S "16 * n" u ty st'] Suc.IH rest that assms(2,3) int by simp
  show ?case
  proof (cases "pack_field_member (tt_members t) ?m")
    case (Some q)
    obtain ms where ms: "pack_field_member (tt_members t) ?m = Some (ms, m1)" "st1 = set_tree st r (t\<lparr>tt_members := ms\<rparr>)"
      using placed Some assms(1) h unfolding place_field_def assms(2) by (cases q) auto
    show ?thesis
    proof (cases "width = 0")
      case True
      then have "st1 = set_tree st r t" using ms pack_zero_width [OF ms(1) Suc.prems(2)] by simp
      then show ?thesis using reset [of t] True Suc.prems(2,3) by (auto intro: grows_le)
    next
      case False
      then obtain i where a: "add_member (set_tree st r (t\<lparr>tt_members := ms\<rparr>)) p m1 = Inr (st', i)"
        using rest ms(2) by (auto simp: outcome_simps)
      have mt: "m_type m1 = ty" using ms(1) by (auto simp: pack_field_member_def Let_def split: if_splits)
      obtain t' where t': "st' = set_tree st r t'" "tt_members t' = ms @ [m1]"
          "tt_size t' = max (tt_size t) (wrap64 (m_offset m1 + ?sz))"
        using add_member_struct [OF a assms, of ?sz] sz(2) mt by auto
      have "m_offset m1 \<le> tt_size t"
        using pack_field_layout [OF ms(1) Suc.prems(2) _ _ sz(1), of "t\<lparr>tt_members := ms @ [m1], tt_size := max (tt_size t) (m_offset m1 + ?sz)\<rparr>"]
          False by simp
      then have w: "wrap64 (m_offset m1 + ?sz) = m_offset m1 + ?sz" "m_offset m1 + ?sz \<le> tt_size t + 8"
        using Suc.prems(3) sz(1) by (auto intro!: wrap64_id)
      have "layout_ok S t'"
        using pack_field_layout [OF ms(1) Suc.prems(2) _ _ sz(1), of t'] t'(2,3) w(1) False by simp
      then show ?thesis using t'(1,3) w by (intro growsI [of _ _ _ t']) auto
    qed
  next
    case None
    then obtain off where off: "adjust_member_alignment (set_tree st r t) p ty = Inr (st1, off)"
        "m1 = ?m\<lparr>m_field_offset := 0, m_offset := off\<rparr>"
      using placed assms(1) h unfolding place_field_def assms(2) by (auto simp: outcome_simps)
    have "tt_size t + ?sz < 2 ^ 64" using Suc.prems(3) sz(1) by auto
    then have adj: "0 < ?sz" "off = align_up (tt_size t) ?sz" "st1 = set_tree st r (t\<lparr>tt_size := off\<rparr>)"
      using adjust_struct [OF off(1) assms sz(3)] by auto
    then have bd: "off < tt_size t + ?sz" "tt_size t \<le> off" using align_up_less by simp_all
    then have bd8: "off < tt_size t + 8" using sz(1) by auto
    show ?thesis
    proof (cases "width = 0")
      case True
      have "grows S st r (16 * n + 8) (t\<lparr>tt_size := off\<rparr>) st'"
        using reset [of "t\<lparr>tt_size := off\<rparr>"] True adj(3) layout_ok_size [OF Suc.prems(2)] bd bd8 Suc.prems(3) by simp
      then obtain t' where "st' = set_tree st r t'" "layout_ok S t'" "off \<le> tt_size t'" "tt_size t' \<le> off + (16 * n + 8)"
        by (auto simp: grows_def)
      then show ?thesis using bd bd8 by (intro growsI [of _ _ _ t']) simp_all
    next
      case False
      then obtain i where a: "add_member (set_tree st r (t\<lparr>tt_size := off\<rparr>)) p m1 = Inr (st', i)"
        using rest adj(3) by (auto simp: outcome_simps)
      have w: "wrap64 (off + ?sz) = off + ?sz" using bd bd8 sz(1) Suc.prems(3) by (intro wrap64_id) auto
      obtain t' where t': "st' = set_tree st r t'" "tt_members t' = tt_members t @ [m1]" "tt_size t' = off + ?sz"
        using add_member_struct [OF a assms, of ?sz] sz(2) off(2) w by auto
      have "layout_ok S t'"
        by (rule layout_ok_append_after [OF Suc.prems(2) _ _ t'(2)])
          (use off(2) bd t'(3) False wd sz(1) in \<open>auto simp: member_ok_def\<close>)
      then show ?thesis using t'(1,3) bd bd8 sz(1) by (intro growsI [of _ _ _ t']) auto
    qed
  qed
qed simp

section \<open>The recursion between fields and alignment\<close>

definition last_field_ok :: "typetree \<Rightarrow> bool" where
  "last_field_ok t \<longleftrightarrow> tt_members t = [] \<or>
     (let m = last (tt_members t) in m_field_width m = 0 \<or> m_field_offset m + m_field_width m \<le> m_field_backing m)"

lemma layout_ok_last: "layout_ok S t \<Longrightarrow> last_field_ok t"
proof -
  assume "layout_ok S t"
  then have "tt_members t \<noteq> [] \<Longrightarrow> member_ok S (tt_size t) (last (tt_members t))" by (simp add: layout_ok_def)
  then show ?thesis by (auto simp: last_field_ok_def member_ok_def Let_def split: if_splits)
qed

lemma level_positive:
  "0 < width \<Longrightarrow> type_add_field_level (Suc n) st p name ty width = type_add_field_level (Suc k) st p name ty width"
  by (simp add: type_add_field_with_def cong: if_cong)

lemma pad_wide:
  assumes "m_field_width m = 0 \<or> m_field_backing m \<le> c"
  shows "pad_last_field_with (type_add_field_level (Suc n)) st p c m = pad_last_field_with (type_add_field_level (Suc k)) st p c m"
proof -
  have "type_add_field_level (Suc n) st p name ty (nat w) = type_add_field_level (Suc k) st p name ty (nat w)"
    if "0 < w" for name ty w
    by (rule level_positive) (use that in simp)
  then show ?thesis
    using assms unfolding pad_last_field_with_def Let_def by (auto simp: oassert_def intro!: obind_cong simp del: type_add_field_level.simps)
qed

lemma reset_cong:
  assumes "get_typetree_handle st (t_ref p) = Inr t" "\<And>c. size_of st clear = Inr c \<Longrightarrow> tt_members t \<noteq> [] \<Longrightarrow>
      pad_last_field_with f st p (int c * 8) (last (tt_members t)) = pad_last_field_with g st p (int c * 8) (last (tt_members t))"
  shows "reset_field_alignment_with f st p clear = reset_field_alignment_with g st p clear"
  using assms by (auto simp: reset_field_alignment_with_def intro!: obind_cong)

lemma backing_type_size:
  "backing_type_from_bits k = Inr b \<Longrightarrow> is_integer b \<and> size_of st b = Inr (nat k div 8) \<and> int (nat k div 8) * 8 = k \<and> \<not> is_bool b"
  by (auto simp: backing_type_from_bits_def outcome_simps tclass_simps scalar_size_def split: if_splits)

lemma level_zero_backing:
  assumes "is_struct p" "get_typetree_handle st (t_ref p) = Inr t" "tt_members t \<noteq> []" "last_field_ok t"
    and "m_field_width (last (tt_members t)) \<noteq> 0" "backing_type_from_bits (m_field_backing (last (tt_members t))) = Inr b"
  shows "type_add_field_level (Suc (Suc n)) st p zero_string b 0 = type_add_field_level (Suc (Suc k)) st p zero_string b 0"
proof -
  let ?l = "last (tt_members t)"
  note b = backing_type_size [OF assms(6), of st]
  have fo: "m_field_offset ?l + m_field_width ?l \<le> m_field_backing ?l"
    using assms(3-5) by (simp add: last_field_ok_def Let_def)
  have st: "set_tree st (t_ref p) (t\<lparr>tt_members := tt_members t\<rparr>) = st" using set_tree_same [OF assms(2)] by simp
  have nu: "is_struct_or_union p" "\<not> is_union p" using assms(1) by (simp_all add: tclass_simps)
  have "type_add_field_with R st p zero_string b 0 = R st p b" for R
    using assms(1-3,5) b fo st nu
    by (simp add: type_add_field_with_def place_field_def pack_field_member_def Let_def zero_string_def)
  moreover have "reset_field_alignment_with (type_add_field_level (Suc n)) st p b =
      reset_field_alignment_with (type_add_field_level (Suc k)) st p b"
    using b by (intro reset_cong [OF assms(2)] pad_wide) simp
  ultimately show ?thesis by (simp only: type_add_field_level.simps)
qed

lemma reset_level:
  assumes "is_struct p" "get_typetree_handle st (t_ref p) = Inr t" "last_field_ok t"
  shows "reset_field_alignment_with (type_add_field_level (Suc (Suc n))) st p clear =
    reset_field_alignment_with (type_add_field_level (Suc (Suc k))) st p clear"
proof (rule reset_cong [OF assms(2)])
  fix c assume ne: "tt_members t \<noteq> []"
  let ?l = "last (tt_members t)" and ?f = "\<lambda>n. type_add_field_level (Suc (Suc n))"
  have "?f n st p name ty (nat w) = ?f k st p name ty (nat w)" if "0 < w" for name ty w
    by (rule level_positive) (use that in simp)
  moreover have "?f n st p zero_string b 0 = ?f k st p zero_string b 0"
    if "m_field_width ?l \<noteq> 0" "backing_type_from_bits (m_field_backing ?l) = Inr b" for b
    using level_zero_backing [OF assms(1,2) ne assms(3) that] .
  ultimately have "?f n st p zero_string b (nat w) = ?f k st p zero_string b (nat w)"
    if "m_field_width ?l \<noteq> 0" "backing_type_from_bits (m_field_backing ?l) = Inr b" for b w
    using that by (cases "0 < w") (simp_all del: type_add_field_level.simps)
  then show "pad_last_field_with (?f n) st p (int c * 8) ?l = pad_last_field_with (?f k) st p (int c * 8) ?l"
    unfolding pad_last_field_with_def Let_def
    by (auto simp: oassert_def intro!: obind_cong simp del: type_add_field_level.simps)
qed

lemma add_field_with_cong:
  assumes "\<And>m st1 m1. m_field_width m = 0 \<Longrightarrow> place_field st p ty m = Inr (st1, m1) \<Longrightarrow> f st1 p ty = g st1 p ty"
  shows "type_add_field_with f st p name ty width = type_add_field_with g st p name ty width"
proof (cases "width = 0")
  case True
  have "f st1 p ty = g st1 p ty"
    if "place_field st p ty (zero_member\<lparr>m_name := name, m_type := ty, m_field_width := 0, m_field_backing := k\<rparr>) = Inr (st1, m1)"
    for k st1 m1 by (rule assms [OF _ that]) simp
  then show ?thesis
    using True unfolding type_add_field_with_def by (auto intro!: obind_cong)
qed (simp add: type_add_field_with_def cong: if_cong)

lemma place_zero_width:
  assumes "is_struct p" "get_typetree_handle st (t_ref p) = Inr t" "last_field_ok t" "m_field_width m = 0"
    and "place_field st p ty m = Inr (st1, m1)"
  shows "\<exists>v. st1 = set_tree st (t_ref p) v \<and> last_field_ok v"
proof (cases "pack_field_member (tt_members t) m")
  case None
  then obtain off where a: "adjust_member_alignment st p ty = Inr (st1, off)"
    using assms(1,2,5) by (auto simp: place_field_def outcome_simps)
  then have "st1 = set_tree st (t_ref p) (t\<lparr>tt_size := off\<rparr>) \<or> st1 = set_tree st (t_ref p) t"
    using assms(1,2) set_tree_same [OF assms(2)]
    by (auto simp: adjust_member_alignment_def outcome_simps Let_def tclass_simps split: if_splits)
  moreover have "last_field_ok (t\<lparr>tt_size := off\<rparr>)" using assms(3) by (simp add: last_field_ok_def)
  ultimately show ?thesis using assms(3) by blast
next
  case (Some q)
  then obtain ms where ms: "pack_field_member (tt_members t) m = Some (ms, m1)" "st1 = set_tree st (t_ref p) (t\<lparr>tt_members := ms\<rparr>)"
    using assms(1,2,5) by (cases q) (auto simp: place_field_def)
  have "ms = tt_members t"
    using ms(1) assms(3,4) by (auto simp: pack_field_member_def last_field_ok_def Let_def split: if_splits)
  then show ?thesis using ms(2) assms(3) by (intro exI [of _ t]) simp
qed

text \<open>
  Adding a bit-field and resetting the alignment call each other at
  most three levels deep: on a struct whose last field is inside its storage, the
  operation with three levels satisfies the recursive equation of the code.
\<close>

lemma type_add_field_recursion:
  assumes "is_struct p" "get_typetree_handle st (t_ref p) = Inr t" "last_field_ok t"
  shows "type_add_field st p name ty width = type_add_field_with reset_field_alignment st p name ty width"
proof -
  have l3: "type_add_field_level 3 = type_add_field_with (reset_field_alignment_with (type_add_field_level (Suc (Suc 0))))"
    by (simp add: numeral_3_eq_3)
  have v: "valid_ref st (t_ref p)" using assms(2) by (simp add: handle_Inr_iff)
  show ?thesis
    unfolding type_add_field_def reset_field_alignment_def
  proof (subst l3, rule add_field_with_cong)
    fix m st1 m1 assume m: "m_field_width m = 0" "place_field st p ty m = Inr (st1, m1)"
    obtain u where u: "st1 = set_tree st (t_ref p) u" "last_field_ok u"
      using place_zero_width [OF assms m] by blast
    then have "get_typetree_handle st1 (t_ref p) = Inr u" using v by (simp add: handle_set_tree)
    then show "reset_field_alignment_with (type_add_field_level (Suc (Suc 0))) st1 p ty =
        reset_field_alignment_with (type_add_field_level 3) st1 p ty"
      using reset_level [OF assms(1) _ u(2), of st1 0 ty "Suc 0"] by (simp only: numeral_3_eq_3)
  qed
qed

text \<open>An empty struct, the first type of a store.\<close>

definition fresh_struct :: type_store where
  "fresh_struct = \<lparr>trees = [zero_tree\<lparr>tt_type := T_STRUCT\<rparr>], trees_cap = 16\<rparr>"

lemma fresh_struct_handle:
  "get_typetree_handle fresh_struct (t_ref (struct_type 1)) = Inr (zero_tree\<lparr>tt_type := T_STRUCT\<rparr>)"
  "is_struct (struct_type 1)" "valid_ref fresh_struct (t_ref (struct_type 1))"
  by (simp_all add: fresh_struct_def get_typetree_handle_def struct_type_def zero_type_def tclass_simps type_of_def
      valid_ref_def)

section \<open>Sequences of members and fields\<close>

datatype layout_op = Plain c_string ctype | Field c_string ctype nat

fun add_layout_op :: "ctype \<Rightarrow> layout_op \<Rightarrow> type_store \<Rightarrow> type_store outcome" where
  "add_layout_op p (Plain name ty) st = obind (type_add_member st p name ty) (\<lambda>(st1, _). Inr st1)"
| "add_layout_op p (Field name ty width) st = type_add_field st p name ty width"

fun add_layout_ops :: "ctype \<Rightarrow> layout_op list \<Rightarrow> type_store \<Rightarrow> type_store outcome" where
  "add_layout_ops p [] st = Inr st"
| "add_layout_ops p (op # ops) st = obind (add_layout_op p op st) (add_layout_ops p ops)"

text \<open>A bound on what an operation adds to the size, where \<open>S\<close> and \<open>A\<close> are sizes and alignments.\<close>

fun op_cost :: "(ctype \<Rightarrow> nat) \<Rightarrow> (ctype \<Rightarrow> nat) \<Rightarrow> layout_op \<Rightarrow> nat" where
  "op_cost S A (Plain name ty) = A ty + S ty"
| "op_cost S A (Field name ty width) = 48"

lemma layout_op_step:
  assumes "add_layout_op p op (set_tree st r t) = Inr st'" "is_struct p" "t_ref p = r" "valid_ref st r"
    and "\<And>name ty. op = Plain name ty \<Longrightarrow> fixed_layout st r ty (S ty) (A ty)"
    and "layout_ok S t" "tt_size t + op_cost S A op < 2 ^ 63"
  shows "grows S st r (op_cost S A op) t st'"
proof (cases op)
  case (Plain name ty)
  then obtain i where a: "type_add_member (set_tree st r t) p name ty = Inr (st', i)"
    using assms(1) by (auto simp: outcome_simps)
  have "fixed_layout st r ty (S ty) (A ty)" using assms(5) Plain by simp
  from plain_step [OF a assms(2-4) this refl assms(6)] assms(7) Plain
  obtain t' where "st' = set_tree st r t'" "layout_ok S t'" "tt_size t' \<le> tt_size t + A ty + S ty"
      "tt_size t' = align_up (tt_size t) (A ty) + S ty" by auto
  then show ?thesis
    using Plain trans_le_add1 [OF align_up_ge [of "tt_size t" "A ty"], of "S ty"]
    by (intro growsI [of _ _ _ t']) simp_all
next
  case (Field name ty width)
  then show ?thesis
    using field_level_step [OF assms(2-4), of 3 t name ty width st' S] assms(1,6,7)
    by (simp add: type_add_field_def del: type_add_field_level.simps)
qed

lemma layout_ops_grow:
  assumes "is_struct p" "t_ref p = r" "valid_ref st r"
  shows "add_layout_ops p ops (set_tree st r t) = Inr st' \<Longrightarrow>
    (\<And>name ty. Plain name ty \<in> set ops \<Longrightarrow> fixed_layout st r ty (S ty) (A ty)) \<Longrightarrow> layout_ok S t \<Longrightarrow>
    tt_size t + sum_list (map (op_cost S A) ops) < 2 ^ 63 \<Longrightarrow>
    grows S st r (sum_list (map (op_cost S A) ops)) t st'"
proof (induction ops arbitrary: t)
  case Nil
  then show ?case by (auto intro: growsI)
next
  case (Cons op ops)
  obtain st1 where s1: "add_layout_op p op (set_tree st r t) = Inr st1" "add_layout_ops p ops st1 = Inr st'"
    using Cons.prems(1) by (auto simp: outcome_simps)
  have fx: "fixed_layout st r ty (S ty) (A ty)" if "op = Plain name ty" for name ty
    by (rule Cons.prems(2) [of name]) (simp add: that)
  have "grows S st r (op_cost S A op) t st1"
    using Cons.prems(3,4) by (intro layout_op_step [OF s1(1) assms fx]) simp_all
  then obtain t1 where t1: "st1 = set_tree st r t1" "layout_ok S t1" "tt_size t \<le> tt_size t1" "tt_size t1 \<le> tt_size t + op_cost S A op"
    by (auto simp: grows_def)
  have "grows S st r (sum_list (map (op_cost S A) ops)) t1 st'"
  proof (rule Cons.IH)
    show "fixed_layout st r ty (S ty) (A ty)" if "Plain name ty \<in> set ops" for name ty
      by (rule Cons.prems(2) [of name]) (simp add: that)
  qed (use t1 Cons.prems(4) s1(2) in simp_all)
  then show ?case using t1 by (auto simp: grows_def)
qed

text \<open>
  Property C36. Whatever members and bit-fields are added to an empty struct, in
  whatever order, zero-width fields included: the bits of each member come after
  the bits of all members before it, no bits lie outside the struct, and every
  bit-field is inside a storage unit that is inside the struct.
\<close>

theorem struct_layout_disjoint:
  assumes "is_struct p" "get_typetree_handle st (t_ref p) = Inr t0" "tt_members t0 = []"
    and "\<And>name ty. Plain name ty \<in> set ops \<Longrightarrow> fixed_layout st (t_ref p) ty (S ty) (A ty)"
    and "tt_size t0 + sum_list (map (op_cost S A) ops) < 2 ^ 63"
    and "add_layout_ops p ops st = Inr st'"
  shows "\<exists>t. get_typetree_handle st' (t_ref p) = Inr t \<and>
    sorted_wrt (\<lambda>a b. bit_hi S a \<le> bit_lo b) (tt_members t) \<and>
    list_all (\<lambda>m. 0 \<le> bit_lo m \<and> bit_lo m \<le> bit_hi S m \<and> bit_hi S m \<le> 8 * int (tt_size t) \<and>
      (m_field_width m = 0 \<or> 0 \<le> m_field_offset m \<and> m_field_offset m + m_field_width m \<le> m_field_backing m \<and>
         8 * int (m_offset m) + m_field_backing m \<le> 8 * int (tt_size t))) (tt_members t)"
proof -
  have v: "valid_ref st (t_ref p)" using assms(2) by (simp add: handle_Inr_iff)
  have "layout_ok S t0" using assms(3) by (simp add: layout_ok_def)
  then obtain t where t: "st' = set_tree st (t_ref p) t" "layout_ok S t"
    using layout_ops_grow [OF assms(1) refl v, of ops t0 st' S A] assms(4-6) set_tree_same [OF assms(2)]
    by (auto simp: grows_def)
  have ok: "member_ok S (tt_size t) m" if "m \<in> set (tt_members t)" for m using t(2) that by (simp add: layout_ok_def)
  have "0 \<le> bit_lo m" if "m \<in> set (tt_members t)" for m
    using ok [OF that] by (auto simp: bit_lo_def member_ok_def split: if_splits)
  moreover have "0 \<le> m_field_offset m \<and> m_field_offset m + m_field_width m \<le> m_field_backing m \<and>
      8 * int (m_offset m) + m_field_backing m \<le> 8 * int (tt_size t)"
    if "m \<in> set (tt_members t)" "m_field_width m \<noteq> 0" for m
    using ok [OF that(1)] that(2) by (simp add: member_ok_def)
  moreover have "sorted_wrt (\<lambda>a b. bit_hi S a \<le> bit_lo b) (tt_members t)"
    using t(2) by (simp add: layout_ok_def)
  moreover have "get_typetree_handle st' (t_ref p) = Inr t" using t(1) v by (simp add: handle_set_tree)
  ultimately show ?thesis using member_ok_range [OF ok] by (auto simp: list_all_iff)
qed

text \<open>\<open>struct { char a; int b : 5; long c : 40; char : 0; short d; }\<close>\<close>

definition sample_ops :: "layout_op list" where
  "sample_ops = [Plain (str_init ''a'') basic_type__char, Field (str_init ''b'') basic_type__int 5,
     Field (str_init ''c'') basic_type__long 40, Field zero_string basic_type__char 0,
     Plain (str_init ''d'') basic_type__short]"

definition sample_struct :: "type_store outcome" where
  "sample_struct = add_layout_ops (struct_type 1) sample_ops fresh_struct"

lemma sample_struct_ok: "\<exists>st. add_layout_ops (struct_type 1) sample_ops fresh_struct = Inr st"
proof -
  have "case sample_struct of Inl _ \<Rightarrow> False | Inr _ \<Rightarrow> True" by code_simp
  then show ?thesis by (auto simp: sample_struct_def split: sum.splits)
qed

abbreviation scalar_sizes :: "ctype \<Rightarrow> nat" where
  "scalar_sizes ty \<equiv> scalar_size (type_of ty)"

theorem struct_layout_disjoint_witness:
  "\<exists>st' t. sample_struct = Inr st' \<and> get_typetree_handle st' 1 = Inr t \<and>
    sorted_wrt (\<lambda>a b. bit_hi scalar_sizes a \<le> bit_lo b) (tt_members t) \<and>
    list_all (\<lambda>m. 0 \<le> bit_lo m \<and> bit_lo m \<le> bit_hi scalar_sizes m \<and> bit_hi scalar_sizes m \<le> 8 * int (tt_size t) \<and>
      (m_field_width m = 0 \<or> 0 \<le> m_field_offset m \<and> m_field_offset m + m_field_width m \<le> m_field_backing m \<and>
         8 * int (m_offset m) + m_field_backing m \<le> 8 * int (tt_size t))) (tt_members t)"
proof -
  obtain st' where st': "add_layout_ops (struct_type 1) sample_ops fresh_struct = Inr st'" using sample_struct_ok by blast
  have fx: "fixed_layout fresh_struct (t_ref (struct_type 1)) ty (scalar_sizes ty) (scalar_sizes ty)"
    if "Plain name ty \<in> set sample_ops" for name ty
    using that by (intro fixed_layout_scalar) (auto simp: sample_ops_def tclass_simps)
  have r: "t_ref (struct_type 1) = 1" by (simp add: struct_type_def zero_type_def)
  show ?thesis
    using struct_layout_disjoint [OF fresh_struct_handle(2,1) _ fx _ st'] st'
    by (simp add: sample_struct_def sample_ops_def zero_tree_def scalar_size_def r)
qed

section \<open>Natural layout\<close>

text \<open>The specification: each member at the next multiple of its alignment; the end of the last.\<close>

fun natural_layout :: "(nat \<times> nat) list \<Rightarrow> nat \<Rightarrow> nat list \<times> nat" where
  "natural_layout [] n = ([], n)"
| "natural_layout ((sz, al) # xs) n =
     (let off = align_up n al; (offs, e) = natural_layout xs (off + sz) in (off # offs, e))"

fun add_members :: "ctype \<Rightarrow> (c_string \<times> ctype) list \<Rightarrow> type_store \<Rightarrow> type_store outcome" where
  "add_members p [] st = Inr st"
| "add_members p ((name, ty) # ms) st = obind (type_add_member st p name ty) (\<lambda>(st1, _). add_members p ms st1)"

text \<open>A type that can be a struct member: complete, with a layout that does not depend on the struct.\<close>

definition member_type :: "type_store \<Rightarrow> int \<Rightarrow> (ctype \<Rightarrow> nat) \<Rightarrow> (ctype \<Rightarrow> nat) \<Rightarrow> ctype \<Rightarrow> bool" where
  "member_type st r S A ty \<longleftrightarrow> fixed_layout st r ty (S ty) (A ty) \<and> 0 < S ty \<and> 0 < A ty \<and>
     (\<forall>t. is_flexible (set_tree st r t) ty = Inr False)"

definition member_name :: "c_string \<Rightarrow> bool" where
  "member_name name \<longleftrightarrow> slen name \<noteq> 0 \<and> str_cmp name (str_init ''...'') \<noteq> 0"

lemma find_member_None: "(\<forall>m \<in> set ms. str_cmp name (m_name m) \<noteq> 0) \<Longrightarrow> find_member name ms i = None"
  by (induction ms arbitrary: i) auto

lemma plain_step_succeeds:
  assumes "is_struct p" "t_ref p = r" "valid_ref st r" "member_type st r S A ty" "member_name name"
    and "\<forall>m \<in> set (tt_members t). str_cmp name (m_name m) \<noteq> 0" "tt_size t + A ty + S ty < 2 ^ 63"
  shows "\<exists>t' i. type_add_member (set_tree st r t) p name ty = Inr (set_tree st r t', i) \<and> tt_type t' = tt_type t \<and>
    tt_size t' = align_up (tt_size t) (A ty) + S ty \<and>
    tt_members t' = tt_members t @ [zero_member\<lparr>m_offset := align_up (tt_size t) (A ty), m_name := name, m_type := ty\<rparr>]"
proof -
  let ?off = "align_up (tt_size t) (A ty)" and ?m = "\<lambda>off. zero_member\<lparr>m_offset := off, m_name := name, m_type := ty\<rparr>"
  have nf: "\<not> is_function p" "is_struct_or_union p" using assms(1) by (simp_all add: tclass_simps)
  have h: "get_typetree_handle (set_tree st r u) r = Inr u" for u using assms(3) by (simp add: handle_set_tree)
  have ty: "size_of (set_tree st r u) ty = Inr (S ty)" "type_alignment (set_tree st r u) ty = Inr (A ty)"
    "is_flexible (set_tree st r u) ty = Inr False" "0 < S ty" "0 < A ty" for u
    using assms(4) by (auto simp: member_type_def fixed_layout_def)
  have off: "?off < tt_size t + A ty" "tt_size t \<le> ?off" using align_up_less [OF ty(5)] by simp_all
  have w: "wrap64 (tt_size t + (A ty - tt_size t mod A ty)) = tt_size t + (A ty - tt_size t mod A ty)"
  proof (rule wrap64_id)
    have "A ty - tt_size t mod A ty \<le> A ty" "(2 :: nat) ^ 63 < 2 ^ 64" by simp_all
    then show "tt_size t + (A ty - tt_size t mod A ty) < 2 ^ 64" using assms(7) by linarith
  qed
  have adj: "adjust_member_alignment (set_tree st r t) p ty = Inr (set_tree st r (t\<lparr>tt_size := ?off\<rparr>), ?off)"
  proof (cases "tt_size t mod A ty = 0")
    case True
    then show ?thesis using assms(1,2) h ty(2,5) nf(2) by (simp add: adjust_member_alignment_def align_up_def)
  next
    case False
    then have o: "?off = tt_size t + (A ty - tt_size t mod A ty)" by (simp add: align_up_def)
    have "?off mod A ty = 0" using align_up_dvd [OF ty(5)] by (simp add: mod_eq_0_iff_dvd)
    then show ?thesis
      using False assms(1,2) h ty(2,5) nf(2) w unfolding adjust_member_alignment_def o Let_def by simp
  qed
  have ws: "wrap64 (?off + S ty) = ?off + S ty" using off assms(7) by (intro wrap64_id) simp
  have wm: "wrap64 (LONGLONG_MAX + 2 ^ 64 - ?off) = LONGLONG_MAX - ?off"
  proof -
    have "?off \<le> LONGLONG_MAX" using off assms(7) by (simp add: LONGLONG_MAX_def)
    then have "LONGLONG_MAX + 2 ^ 64 - ?off = (LONGLONG_MAX - ?off) + 2 ^ 64" by simp
    moreover have "LONGLONG_MAX - ?off < 2 ^ 64" by (simp add: LONGLONG_MAX_def)
    ultimately show ?thesis by (simp only: wrap64_def mod_add_self2 mod_less)
  qed
  have fits: "\<not> LONGLONG_MAX - ?off < S ty" using off assms(7) by (simp add: LONGLONG_MAX_def)
  let ?t1 = "t\<lparr>tt_size := ?off, tt_members := tt_members t @ [?m ?off]\<rparr>"
  have "add_object_member (set_tree st r ?t1) p ?t1 (?m ?off) = Inr (?t1\<lparr>tt_size := ?off + S ty\<rparr>)"
    using ty ws wm fits by (simp add: add_object_member_def zero_member_def)
  then have "add_member (set_tree st r (t\<lparr>tt_size := ?off\<rparr>)) p (?m ?off) =
      Inr (set_tree st r (?t1\<lparr>tt_size := ?off + S ty\<rparr>), Some (length (tt_members t)))"
    using nf h assms(2,5,6) find_member_None
    by (simp add: add_member_def find_type_member_def member_name_def Let_def)
  then show ?thesis
    using adj nf by (intro exI [of _ "?t1\<lparr>tt_size := ?off + S ty\<rparr>"]) (simp add: type_add_member_def)
qed

abbreviation extents :: "(ctype \<Rightarrow> nat) \<Rightarrow> (ctype \<Rightarrow> nat) \<Rightarrow> (c_string \<times> ctype) list \<Rightarrow> (nat \<times> nat) list" where
  "extents S A ms \<equiv> map (\<lambda>m. (S (snd m), A (snd m))) ms"

lemma add_members_natural:
  assumes "is_struct p" "t_ref p = r" "valid_ref st r"
  shows "\<forall>m \<in> set ms. member_type st r S A (snd m) \<and> member_name (fst m) \<Longrightarrow>
    sorted_wrt (\<lambda>a b. str_cmp (fst b) (fst a) \<noteq> 0) ms \<Longrightarrow>
    \<forall>m \<in> set ms. \<forall>x \<in> set (tt_members t). str_cmp (fst m) (m_name x) \<noteq> 0 \<Longrightarrow>
    tt_size t + sum_list (map (\<lambda>m. A (snd m) + S (snd m)) ms) < 2 ^ 63 \<Longrightarrow>
    \<exists>t' new. add_members p ms (set_tree st r t) = Inr (set_tree st r t') \<and> tt_type t' = tt_type t \<and>
      tt_members t' = tt_members t @ new \<and> map m_name new = map fst ms \<and> map m_type new = map snd ms \<and>
      natural_layout (extents S A ms) (tt_size t) = (map m_offset new, tt_size t') \<and>
      tt_size t' \<le> tt_size t + sum_list (map (\<lambda>m. A (snd m) + S (snd m)) ms)"
proof (induction ms arbitrary: t)
  case Nil
  then show ?case by auto
next
  case (Cons m ms)
  obtain name ty where m: "m = (name, ty)" by (cases m)
  obtain t1 i where t1: "type_add_member (set_tree st r t) p name ty = Inr (set_tree st r t1, i)" "tt_type t1 = tt_type t"
      "tt_size t1 = align_up (tt_size t) (A ty) + S ty"
      "tt_members t1 = tt_members t @ [zero_member\<lparr>m_offset := align_up (tt_size t) (A ty), m_name := name, m_type := ty\<rparr>]"
    using plain_step_succeeds [OF assms, of S A ty name t] Cons.prems m by auto
  have "0 < A ty" using Cons.prems(1) m by (simp add: member_type_def)
  then have le: "tt_size t1 \<le> tt_size t + A ty + S ty" using t1(3) align_up_less [of "A ty" "tt_size t"] by simp
  have new: "\<forall>m \<in> set ms. \<forall>x \<in> set (tt_members t1). str_cmp (fst m) (m_name x) \<noteq> 0"
    using Cons.prems(2,3) m t1(4) by auto
  obtain t' new where "add_members p ms (set_tree st r t1) = Inr (set_tree st r t')" "tt_type t' = tt_type t1"
      "tt_members t' = tt_members t1 @ new" "map m_name new = map fst ms" "map m_type new = map snd ms"
      "natural_layout (extents S A ms) (tt_size t1) = (map m_offset new, tt_size t')"
      "tt_size t' \<le> tt_size t1 + sum_list (map (\<lambda>m. A (snd m) + S (snd m)) ms)"
    using Cons.IH [of t1] Cons.prems(1,2,4) new le m by auto
  then show ?case using t1 m le by auto
qed

lemma remove_anonymous_named:
  assumes "\<forall>x \<in> set ms. slen (m_name x) \<noteq> 0 \<and> type_alignment st (m_type x) = Inr (A (m_type x))"
  shows "i \<le> length ms \<Longrightarrow>
    remove_anonymous_loop st i ms mx = Inr (ms, fold max (map (\<lambda>x. A (m_type x)) (rev (take i ms))) mx)"
proof (induction i arbitrary: mx)
  case (Suc i)
  have "ms ! i \<in> set ms" "take (Suc i) ms = take i ms @ [ms ! i]" using Suc.prems by (auto simp: take_Suc_conv_app_nth)
  moreover have "(if a > b then a else b) = max a b" for a b :: nat by simp
  ultimately show ?case using Suc assms by (simp add: max.commute)
qed simp

text \<open>
  Property C37. Adding members of complete types with different names to an empty
  struct and sealing it succeeds, and gives the natural layout: the members in
  order, each at the next multiple of its alignment, and a size that is the end
  of the last one rounded up to the largest alignment.
\<close>

theorem struct_layout_natural:
  assumes "is_struct p" "get_typetree_handle st (t_ref p) = Inr t0" "tt_type t0 = T_STRUCT" "tt_members t0 = []" "tt_size t0 = 0"
    and "ms \<noteq> []" "\<forall>m \<in> set ms. member_type st (t_ref p) S A (snd m) \<and> member_name (fst m)"
    and "sorted_wrt (\<lambda>a b. str_cmp (fst b) (fst a) \<noteq> 0) ms"
    and "sum_list (map (\<lambda>m. A (snd m) + S (snd m)) ms) < 2 ^ 63"
    and "natural_layout (extents S A ms) 0 = (offs, e)"
  shows "\<exists>st1 st2 t. add_members p ms st = Inr st1 \<and> type_seal st1 p = Inr st2 \<and>
    get_typetree_handle st2 (t_ref p) = Inr t \<and> map m_name (tt_members t) = map fst ms \<and>
    map m_type (tt_members t) = map snd ms \<and> map m_offset (tt_members t) = offs \<and>
    tt_size t = align_up e (Max (set (map (A \<circ> snd) ms)))"
proof -
  let ?r = "t_ref p" and ?al = "Max (set (map (A \<circ> snd) ms))"
  have v: "valid_ref st ?r" using assms(2) by (simp add: handle_Inr_iff)
  obtain t where t: "add_members p ms st = Inr (set_tree st ?r t)" "tt_type t = T_STRUCT"
      "map m_name (tt_members t) = map fst ms" "map m_type (tt_members t) = map snd ms"
      "offs = map m_offset (tt_members t)" "e = tt_size t" "e < 2 ^ 63"
    using add_members_natural [OF assms(1) refl v assms(7,8), of t0] assms(3-5,9,10) set_tree_same [OF assms(2)] by auto
  let ?st = "set_tree st ?r t"
  have h: "get_typetree_handle (set_tree st ?r u) ?r = Inr u" for u using v by (simp add: handle_set_tree)
  have named: "slen (m_name x) \<noteq> 0 \<and> type_alignment ?st (m_type x) = Inr (A (m_type x))" if x: "x \<in> set (tt_members t)" for x
  proof -
    have "m_name x \<in> set (map fst ms)" "m_type x \<in> set (map snd ms)" using x t(3,4) by (metis imageI set_map)+
    then show ?thesis using assms(7) by (auto simp: member_type_def member_name_def fixed_layout_def)
  qed
  have als: "map (\<lambda>x. A (m_type x)) (tt_members t) = map (A \<circ> snd) ms"
    using arg_cong [OF t(4), of "map A"] by (simp add: comp_def)
  have "fold max (map (\<lambda>x. A (m_type x)) (rev (tt_members t))) 0 = Max (insert 0 (set (map (A \<circ> snd) ms)))"
    using Max.set_eq_fold [of 0 "map (\<lambda>x. A (m_type x)) (rev (tt_members t))"] als
    by (metis list.simps(15) rev_map set_rev)
  also have "\<dots> = ?al" using assms(6) by simp
  finally have loop: "remove_anonymous_fields ?st t = Inr (t, ?al)"
    using remove_anonymous_named [of "tt_members t" ?st A "length (tt_members t)" 0] named
    by (simp add: remove_anonymous_fields_def)
  have pos: "0 < ?al"
  proof -
    obtain m where "m \<in> set ms" using assms(6) by (cases ms) auto
    then have "0 < A (snd m)" "A (snd m) \<le> ?al" using assms(7) by (auto simp: member_type_def intro!: Max_ge)
    then show ?thesis by simp
  qed
  have al: "?al < 2 ^ 63"
  proof -
    have "A (snd m) \<le> sum_list (map (\<lambda>m. A (snd m) + S (snd m)) ms)" if "m \<in> set ms" for m
      using member_le_sum_list [of "A (snd m) + S (snd m)" "map (\<lambda>m. A (snd m) + S (snd m)) ms"] that by force
    then show ?thesis using assms(6,9) by (auto intro: le_less_trans)
  qed
  have w: "wrap64 (tt_size t + (?al - tt_size t mod ?al)) = tt_size t + (?al - tt_size t mod ?al)"
    using t(6,7) al by (intro wrap64_id) (simp add: less_diff_conv2)
  let ?u = "if tt_size t mod ?al \<noteq> 0 then t\<lparr>tt_size := tt_size t + (?al - tt_size t mod ?al)\<rparr> else t"
  have "type_seal ?st p = Inr (set_tree st ?r ?u)"
    using h loop pos w t(2) assms(1) by (simp add: type_seal_def tclass_simps)
  then show ?thesis
    using t(1,3-6) h
    by (intro exI [of _ ?st] exI [of _ "set_tree st ?r ?u"] exI [of _ ?u]) (simp add: align_up_def)
qed

text \<open>\<open>struct { char a; double b; int c; }\<close>\<close>

theorem struct_layout_natural_witness:
  "\<exists>st1 st2 t. add_members (struct_type 1)
      [(str_init ''a'', basic_type__char), (str_init ''b'', basic_type__double), (str_init ''c'', basic_type__int)] fresh_struct = Inr st1 \<and>
    type_seal st1 (struct_type 1) = Inr st2 \<and> get_typetree_handle st2 (t_ref (struct_type 1)) = Inr t \<and>
    map m_name (tt_members t) = [str_init ''a'', str_init ''b'', str_init ''c''] \<and>
    map m_type (tt_members t) = [basic_type__char, basic_type__double, basic_type__int] \<and>
    map m_offset (tt_members t) = [0, 8, 16] \<and> tt_size t = 24"
proof -
  let ?ms = "[(str_init ''a'', basic_type__char), (str_init ''b'', basic_type__double), (str_init ''c'', basic_type__int)]"
  have "member_type fresh_struct (t_ref (struct_type 1)) scalar_sizes scalar_sizes ty"
    if ty: "ty \<in> {basic_type__char, basic_type__double, basic_type__int}" for ty
  proof -
    have "is_scalar ty" using ty by (auto simp: tclass_simps)
    moreover have "0 < scalar_sizes ty" "\<not> is_struct_or_union ty" using ty by (auto simp: tclass_simps scalar_size_def)
    ultimately show ?thesis using fixed_layout_scalar by (simp add: member_type_def is_flexible_def)
  qed
  moreover have "member_name (str_init ''a'')" "member_name (str_init ''b'')" "member_name (str_init ''c'')" by code_simp+
  moreover have "str_cmp (str_init ''b'') (str_init ''a'') \<noteq> 0" "str_cmp (str_init ''c'') (str_init ''a'') \<noteq> 0"
    "str_cmp (str_init ''c'') (str_init ''b'') \<noteq> 0" by code_simp+
  moreover have "natural_layout (extents scalar_sizes scalar_sizes ?ms) 0 = ([0, 8, 16], 20)"
    by (simp add: align_up_def scalar_size_def)
  ultimately show ?thesis
    using struct_layout_natural [OF fresh_struct_handle(2,1), of ?ms scalar_sizes scalar_sizes "[0, 8, 16]" 20]
    by (simp add: zero_tree_def scalar_size_def align_up_def)
qed

end
