(* ===== verification/IR.thy ===== *)
theory IR
  imports Typetree
begin

text \<open>
  The intermediate representation of \<open>include/lacc/ir.h\<close>: operands, expressions
  and statements of three-address code, and the basic blocks of a function. A
  pointer to a block is its number in the list of blocks of the function, a
  pointer to a symbol its number in the symbols; a null pointer is \<open>None\<close>.
\<close>

section \<open>Operands, expressions and statements\<close>

datatype var_kind = DIRECT | ADDRESS | DEREF | IMMEDIATE

record var =
  v_kind :: var_kind
  v_type :: ctype
  v_symbol :: "symref option"
  v_offset :: nat
  v_field_width :: int
  v_field_offset :: int
  v_lvalue :: bool
  v_imm :: cvalue

datatype optype =
    IR_OP_CAST | IR_OP_CALL | IR_OP_VA_ARG | IR_OP_NOT | IR_OP_NEG
  | IR_OP_ADD | IR_OP_SUB | IR_OP_MUL | IR_OP_DIV | IR_OP_MOD
  | IR_OP_AND | IR_OP_OR | IR_OP_XOR | IR_OP_SHL | IR_OP_SHR
  | IR_OP_EQ | IR_OP_NE | IR_OP_GE | IR_OP_GT

record expression =
  e_op :: optype
  e_type :: ctype
  e_l :: var
  e_r :: var

datatype sttype = IR_EXPR | IR_PARAM | IR_VA_START | IR_ASSIGN | IR_VLA_ALLOC

record statement =
  st_st :: sttype
  st_out :: u64
  st_t :: var
  st_expr :: expression

definition has_side_effects :: "expression \<Rightarrow> bool" where
  "has_side_effects e \<longleftrightarrow> e_op e = IR_OP_CALL \<or> e_op e = IR_OP_VA_ARG"

definition is_identity :: "type_store \<Rightarrow> expression \<Rightarrow> bool outcome" where
  "is_identity ts e = (if e_op e = IR_OP_CAST then type_equal ts (e_type e) (v_type (e_l e)) else Inr False)"

text \<open>The operators with a second operand: the default branch of the switches over operators.\<close>

definition is_binary :: "optype \<Rightarrow> bool" where
  "is_binary op \<longleftrightarrow> op \<notin> {IR_OP_CAST, IR_OP_NOT, IR_OP_NEG, IR_OP_CALL, IR_OP_VA_ARG}"

section \<open>Basic blocks\<close>

type_synonym blockref = nat

datatype color = WHITE | BLACK

record jump_pair =
  jp_value :: int
  jp_label :: blockref
  jp_symbol :: "symref option"

record block =
  b_label :: "symref option"
  b_code :: "statement list"
  b_expr :: expression
  b_jump0 :: "blockref option"
  b_jump1 :: "blockref option"
  b_has_jump_table :: bool
  b_table_offset :: "var option"
  b_jump_table :: "jump_pair list"
  b_body :: "blockref option"
  b_has_return_value :: bool
  b_has_init_value :: bool
  b_color :: color
  b_in :: u64
  b_out :: u64

type_synonym cfg = "block list"

definition get_block :: "cfg \<Rightarrow> blockref \<Rightarrow> block outcome" where
  "get_block g i = (if i < length g then Inr (g ! i) else Inl Undefined_Behaviour)"

text \<open>Whether the expression of a block is evaluated: it decides a branch, or is returned.\<close>

definition uses_expr :: "block \<Rightarrow> bool" where
  "uses_expr b \<longleftrightarrow> b_jump1 b \<noteq> None \<or> b_has_return_value b"

lemma get_block_Inr: "get_block g i = Inr b \<longleftrightarrow> i < length g \<and> b = g ! i"
  by (auto simp: get_block_def)

end
