(* ===== verification/Optimizer.thy ===== *)
theory Optimizer
  imports IR
begin

unbundle bit_operations_syntax

text \<open>
  The optimizer of \<open>src/optimizer\<close>: liveness analysis on 64-bit sets of symbols,
  removal of dead stores, merging of chained assignments, and the driver that
  serializes the control flow graph, numbers the symbols and iterates the passes.
  The list of blocks, the numbered symbols and the level are the state that the
  code keeps in static variables. Its loops may run forever on some graphs, so
  they take fuel, and \<open>None\<close> says that the fuel did not suffice.
\<close>

section \<open>Sets of symbols\<close>

text \<open>
  The bit of a symbol with a number. A number above 64, which the driver never
  assigns, would shift by more than the width.
\<close>

definition sym_bit :: "nat \<Rightarrow> u64 outcome" where
  "sym_bit i = (if 1 \<le> i \<and> i \<le> 64 then Inr (push_bit (i - 1) 1) else Inl Undefined_Behaviour)"

definition all_bits :: u64 where
  "all_bits = 0xFFFFFFFFFFFFFFFF"

definition deref_sym :: "symbols \<Rightarrow> symref option \<Rightarrow> symbol outcome" where
  "deref_sym syms s = (case s of None \<Rightarrow> Inl Undefined_Behaviour | Some x \<Rightarrow> Inr (syms x))"

definition set_def_bit :: "symbols \<Rightarrow> var \<Rightarrow> u64 outcome" where
  "set_def_bit syms v =
     (if v_kind v = DIRECT then
        obind (deref_sym syms (v_symbol v)) (\<lambda>s.
          if is_scalar (s_type s) \<and> s_index s \<noteq> 0 then sym_bit (s_index s) else Inr 0)
      else Inr 0)"

definition set_use_bit :: "symbols \<Rightarrow> var \<Rightarrow> u64 outcome" where
  "set_use_bit syms v =
     (case v_kind v of
        DEREF \<Rightarrow> Inr all_bits
      | IMMEDIATE \<Rightarrow>
          (case v_symbol v of
             None \<Rightarrow> Inr 0
           | Some x \<Rightarrow>
               obind (oassert (s_symtype (syms x) = SYM_STRING_VALUE \<or> s_symtype (syms x) = SYM_CONSTANT)) (\<lambda>_.
               obind (oassert (s_index (syms x) \<noteq> 0)) (\<lambda>_. sym_bit (s_index (syms x)))))
      | _ \<Rightarrow>
          obind (deref_sym syms (v_symbol v)) (\<lambda>s.
            if is_object (s_type s) then obind (oassert (s_index s \<noteq> 0)) (\<lambda>_. sym_bit (s_index s)) else Inr 0))"

definition use :: "symbols \<Rightarrow> expression \<Rightarrow> u64 outcome" where
  "use syms e =
     obind (if is_binary (e_op e) then set_use_bit syms (e_r e) else Inr 0) (\<lambda>r.
     obind (set_use_bit syms (e_l e)) (\<lambda>l. Inr (r OR l)))"

fun any_member :: "(ctype \<Rightarrow> bool outcome) \<Rightarrow> member list \<Rightarrow> bool outcome" where
  "any_member f [] = Inr False"
| "any_member f (m # ms) = obind (f (m_type m)) (\<lambda>b. if b then Inr True else any_member f ms)"

fun is_or_has_pointer_fuel :: "nat \<Rightarrow> type_store \<Rightarrow> ctype \<Rightarrow> bool outcome" where
  "is_or_has_pointer_fuel 0 ts type = Inl Stack_Overflow"
| "is_or_has_pointer_fuel (Suc n) ts type =
     (if is_pointer type then Inr True
      else if is_struct_or_union type then
        obind (get_typetree_handle ts (t_ref type)) (\<lambda>t. any_member (is_or_has_pointer_fuel n ts) (tt_members t))
      else Inr False)"

definition is_or_has_pointer :: "type_store \<Rightarrow> ctype \<Rightarrow> bool outcome" where
  "is_or_has_pointer ts type = is_or_has_pointer_fuel (max_depth ts) ts type"

definition uses :: "type_store \<Rightarrow> symbols \<Rightarrow> statement \<Rightarrow> u64 outcome" where
  "uses ts syms s =
     obind (use syms (st_expr s)) (\<lambda>r.
       case st_st s of
         IR_ASSIGN \<Rightarrow>
           (if v_kind (st_t s) = DEREF \<and> v_symbol (st_t s) \<noteq> None
            then obind (set_use_bit syms ((st_t s)\<lparr>v_kind := DIRECT\<rparr>)) (\<lambda>u. Inr (r OR u))
            else Inr r)
       | IR_PARAM \<Rightarrow>
           obind (is_or_has_pointer ts (e_type (st_expr s))) (\<lambda>p. Inr (if p then r OR all_bits else r))
       | _ \<Rightarrow> Inr r)"

definition def :: "symbols \<Rightarrow> statement \<Rightarrow> u64 outcome" where
  "def syms s = (if st_st s = IR_ASSIGN then set_def_bit syms (st_t s) else Inr 0)"

section \<open>Liveness of a block\<close>

text \<open>
  The statements from the last to the first: each is annotated with what is live
  behind it, and the result carries what is live before the first.
\<close>

fun live_code :: "type_store \<Rightarrow> symbols \<Rightarrow> u64 \<Rightarrow> statement list \<Rightarrow> (statement list \<times> u64) outcome" where
  "live_code ts syms out [] = Inr ([], out)"
| "live_code ts syms out (s # ss) =
     obind (live_code ts syms out ss) (\<lambda>(ss', live).
     obind (def syms s) (\<lambda>d. obind (uses ts syms s) (\<lambda>u.
       Inr (s\<lparr>st_out := live\<rparr> # ss', (live AND NOT d) OR u))))"

definition jump_in :: "cfg \<Rightarrow> blockref option \<Rightarrow> u64 outcome" where
  "jump_in g j = (case j of None \<Rightarrow> Inr 0 | Some i \<Rightarrow> obind (get_block g i) (\<lambda>b. Inr (b_in b)))"

definition children_in :: "cfg \<Rightarrow> block \<Rightarrow> u64 outcome" where
  "children_in g b =
     (if b_jump0 b = None then Inr 0
      else obind (jump_in g (b_jump0 b)) (\<lambda>x. obind (jump_in g (b_jump1 b)) (\<lambda>y. Inr (x OR y))))"

definition live_variable_analysis :: "type_store \<Rightarrow> symbols \<Rightarrow> cfg \<Rightarrow> blockref \<Rightarrow> (cfg \<times> bool) outcome" where
  "live_variable_analysis ts syms g i =
     obind (get_block g i) (\<lambda>b.
     obind (children_in g b) (\<lambda>out.
     obind (if uses_expr b then use syms (b_expr b) else Inr 0) (\<lambda>u.
     obind (live_code ts syms (out OR u) (b_code b)) (\<lambda>(code, live).
       Inr (g[i := b\<lparr>b_code := code, b_in := live, b_out := out\<rparr>], b_in b \<noteq> live)))))"

section \<open>Transformations\<close>

definition is_live_after :: "bool \<Rightarrow> symbols \<Rightarrow> symref option \<Rightarrow> statement \<Rightarrow> bool outcome" where
  "is_live_after level syms sy st =
     obind (deref_sym syms sy) (\<lambda>s.
       if level \<and> is_object (s_type s)
       then obind (oassert (s_index s \<noteq> 0)) (\<lambda>_. obind (sym_bit (s_index s)) (\<lambda>b. Inr (st_out st AND b \<noteq> 0)))
       else Inr True)"

text \<open>The short-circuit conjunction of outcomes.\<close>

definition oand :: "bool outcome \<Rightarrow> bool outcome \<Rightarrow> bool outcome" where
  "oand a b = obind a (\<lambda>x. if x then b else Inr False)"

definition var_equal :: "type_store \<Rightarrow> var \<Rightarrow> var \<Rightarrow> bool outcome" where
  "var_equal ts a b =
     oand (type_equal ts (v_type a) (v_type b))
       (Inr (v_symbol a = v_symbol b \<and> v_kind a = v_kind b \<and> v_field_width a = v_field_width b
          \<and> v_field_offset a = v_field_offset b \<and> v_offset a = v_offset b))"

definition can_merge :: "bool \<Rightarrow> type_store \<Rightarrow> symbols \<Rightarrow> statement \<Rightarrow> statement \<Rightarrow> bool outcome" where
  "can_merge level ts syms s1 s2 =
     oand (Inr (st_st s1 = IR_ASSIGN \<and> st_st s2 = IR_ASSIGN))
     (oand (is_identity ts (st_expr s2))
     (oand (var_equal ts (st_t s1) (e_l (st_expr s2)))
     (oand (type_equal ts (v_type (st_t s1)) (v_type (st_t s2)))
     (oand (Inr (v_kind (st_t s1) = DIRECT))
     (oand (obind (deref_sym syms (v_symbol (st_t s1))) (\<lambda>s. Inr (s_linkage s = LINK_NONE)))
       (obind (is_live_after level syms (v_symbol (st_t s1)) s2) (\<lambda>l. Inr (\<not> l))))))))"

text \<open>The loop of \<open>merge_chained_assignment\<close>: \<open>s1\<close> is the statement that the next one may be merged into.\<close>

fun merge_code :: "bool \<Rightarrow> type_store \<Rightarrow> symbols \<Rightarrow> statement \<Rightarrow> statement list \<Rightarrow> statement list outcome" where
  "merge_code level ts syms s1 [] = Inr [s1]"
| "merge_code level ts syms s1 (s2 # ss) =
     obind (can_merge level ts syms s1 s2) (\<lambda>m.
       if m then merge_code level ts syms (s1\<lparr>st_t := st_t s2\<rparr>) ss
       else obind (merge_code level ts syms s2 ss) (\<lambda>r. Inr (s1 # r)))"

definition merge_chained_assignment :: "bool \<Rightarrow> type_store \<Rightarrow> symbols \<Rightarrow> cfg \<Rightarrow> blockref \<Rightarrow> (cfg \<times> nat) outcome" where
  "merge_chained_assignment level ts syms g i =
     obind (get_block g i) (\<lambda>b.
       case b_code b of
         [] \<Rightarrow> Inr (g, 0)
       | s1 # ss \<Rightarrow> obind (merge_code level ts syms s1 ss) (\<lambda>code. Inr (g[i := b\<lparr>b_code := code\<rparr>], 0)))"

definition is_dead_store :: "bool \<Rightarrow> symbols \<Rightarrow> statement \<Rightarrow> bool outcome" where
  "is_dead_store level syms s =
     oand (Inr (st_st s = IR_ASSIGN \<and> v_kind (st_t s) = DIRECT))
     (oand (obind (is_live_after level syms (v_symbol (st_t s)) s) (\<lambda>l. Inr (\<not> l)))
       (obind (deref_sym syms (v_symbol (st_t s))) (\<lambda>x. Inr (s_linkage x = LINK_NONE))))"

fun eliminate_code :: "bool \<Rightarrow> symbols \<Rightarrow> statement list \<Rightarrow> (statement list \<times> nat) outcome" where
  "eliminate_code level syms [] = Inr ([], 0)"
| "eliminate_code level syms (s # ss) =
     obind (is_dead_store level syms s) (\<lambda>dead.
     obind (eliminate_code level syms ss) (\<lambda>(ss', c).
       if dead then Inr ((if has_side_effects (st_expr s) then [s\<lparr>st_st := IR_EXPR\<rparr>] else []) @ ss', c + 1)
       else Inr (s # ss', c)))"

definition dead_store_elimination :: "bool \<Rightarrow> symbols \<Rightarrow> cfg \<Rightarrow> blockref \<Rightarrow> (cfg \<times> nat) outcome" where
  "dead_store_elimination level syms g i =
     obind (get_block g i) (\<lambda>b.
     obind (eliminate_code level syms (b_code b)) (\<lambda>(code, c).
       Inr (g[i := b\<lparr>b_code := code\<rparr>], c)))"

section \<open>The driver\<close>

text \<open>
  The recursion of \<open>serialize_basic_blocks\<close> colors a block before it visits the
  targets, so each call that goes on leaves one white block less, and the number
  of blocks bounds the depth.
\<close>

fun serialize_fuel :: "nat \<Rightarrow> blockref \<Rightarrow> cfg \<times> blockref list \<Rightarrow> (cfg \<times> blockref list) outcome" where
  "serialize_fuel 0 i gl = Inl Stack_Overflow"
| "serialize_fuel (Suc n) i (g, bl) =
     obind (get_block g i) (\<lambda>b.
       if b_color b = BLACK then Inr (g, bl)
       else
         let gl = (g[i := b\<lparr>b_color := BLACK\<rparr>], bl @ [i]) in
         case b_jump0 b of
           None \<Rightarrow> Inr gl
         | Some j \<Rightarrow>
             obind (serialize_fuel n j gl) (\<lambda>gl1.
               case b_jump1 b of None \<Rightarrow> Inr gl1 | Some k \<Rightarrow> serialize_fuel n k gl1))"

definition serialize_basic_blocks :: "cfg \<Rightarrow> blockref \<Rightarrow> (cfg \<times> blockref list) outcome" where
  "serialize_basic_blocks g i = serialize_fuel (length g + 1) i (g, [])"

text \<open>\<open>traverse\<close> runs a callback on the serialized blocks and adds up its results.\<close>

fun traverse :: "('s \<Rightarrow> blockref \<Rightarrow> ('s \<times> nat) outcome) \<Rightarrow> blockref list \<Rightarrow> 's \<Rightarrow> ('s \<times> nat) outcome" where
  "traverse f [] s = Inr (s, 0)"
| "traverse f (i # is) s = obind (f s i) (\<lambda>(s1, n). obind (traverse f is s1) (\<lambda>(s2, k). Inr (s2, n + k)))"

definition initialize_block :: "cfg \<Rightarrow> blockref \<Rightarrow> (cfg \<times> nat) outcome" where
  "initialize_block g i =
     obind (get_block g i) (\<lambda>b.
       Inr (g[i := b\<lparr>b_in := 0, b_out := 0, b_code := map (\<lambda>s. s\<lparr>st_out := 0\<rparr>) (b_code b)\<rparr>], 0))"

definition initialize_dataflow :: "blockref list \<Rightarrow> cfg \<Rightarrow> cfg outcome" where
  "initialize_dataflow bl g = obind (traverse initialize_block bl g) (\<lambda>(g1, _). Inr g1)"

text \<open>The numbered symbols: \<open>symbols\<close> of the code with the list of those that have a number.\<close>

type_synonym numbering = "symbols \<times> symref list"

definition count_symbol :: "symref option \<Rightarrow> numbering \<Rightarrow> (numbering \<times> nat) outcome" where
  "count_symbol sy nb =
     (case sy of
        None \<Rightarrow> Inr (nb, 0)
      | Some x \<Rightarrow>
          (let (syms, l) = nb; s = syms x in
           if is_object (s_type s) then
             (if s_index s = 0 \<and> length l < 64
              then Inr ((syms(x := s\<lparr>s_index := length l + 1\<rparr>), l @ [x]), 1) else Inr (nb, 0))
           else obind (oassert (s_index s = 0)) (\<lambda>_. Inr (nb, 0))))"

definition count_expr :: "expression \<Rightarrow> numbering \<Rightarrow> (numbering \<times> nat) outcome" where
  "count_expr e nb =
     obind (if is_binary (e_op e) then count_symbol (v_symbol (e_r e)) nb else Inr (nb, 0)) (\<lambda>(nb1, n).
     obind (count_symbol (v_symbol (e_l e)) nb1) (\<lambda>(nb2, k). Inr (nb2, n + k)))"

fun count_code :: "statement list \<Rightarrow> numbering \<Rightarrow> (numbering \<times> nat) outcome" where
  "count_code [] nb = Inr (nb, 0)"
| "count_code (s # ss) nb =
     obind (count_expr (st_expr s) nb) (\<lambda>(nb1, n1).
     obind (if st_st s = IR_ASSIGN then count_symbol (v_symbol (st_t s)) nb1 else Inr (nb1, 0)) (\<lambda>(nb2, n2).
     obind (count_code ss nb2) (\<lambda>(nb3, n3). Inr (nb3, n1 + n2 + n3))))"

definition enumerate_used_symbols :: "cfg \<Rightarrow> numbering \<Rightarrow> blockref \<Rightarrow> (numbering \<times> nat) outcome" where
  "enumerate_used_symbols g nb i =
     obind (get_block g i) (\<lambda>b.
     obind (count_code (b_code b) nb) (\<lambda>(nb1, n).
     obind (if uses_expr b then count_expr (b_expr b) nb1 else Inr (nb1, 0)) (\<lambda>(nb2, k). Inr (nb2, n + k))))"

fun reset_symbol_indexes :: "symref list \<Rightarrow> symbols \<Rightarrow> symbols outcome" where
  "reset_symbol_indexes [] syms = Inr syms"
| "reset_symbol_indexes (x # xs) syms =
     obind (oassert (s_index (syms x) \<noteq> 0)) (\<lambda>_.
       reset_symbol_indexes xs (syms(x := (syms x)\<lparr>s_index := 0\<rparr>)))"

definition color_white :: "cfg \<Rightarrow> blockref \<Rightarrow> (cfg \<times> nat) outcome" where
  "color_white g i = obind (get_block g i) (\<lambda>b. Inr (g[i := b\<lparr>b_color := WHITE\<rparr>], 0))"

text \<open>Following the jumps of empty blocks; the loop does not end on a cycle of them.\<close>

fun skip_target :: "nat \<Rightarrow> cfg \<Rightarrow> blockref \<Rightarrow> blockref outcome option" where
  "skip_target 0 g j = None"
| "skip_target (Suc n) g j =
     (case get_block g j of
        Inl e \<Rightarrow> Some (Inl e)
      | Inr b \<Rightarrow>
          (if b_code b = [] \<and> b_jump1 b = None
           then (case b_jump0 b of None \<Rightarrow> Some (Inr j) | Some k \<Rightarrow> skip_target n g k)
           else Some (Inr j)))"

text \<open>
  The loop over the two targets reads the block anew for each jump, since a
  block may jump to itself; it stops at a missing first target.
\<close>

definition skip_empty_blocks :: "nat \<Rightarrow> cfg \<Rightarrow> blockref \<Rightarrow> cfg outcome option" where
  "skip_empty_blocks fuel g i =
     (case get_block g i of
        Inl e \<Rightarrow> Some (Inl e)
      | Inr b \<Rightarrow>
          (case b_jump0 b of
             None \<Rightarrow> Some (Inr g)
           | Some j \<Rightarrow>
               (case skip_target fuel g j of
                  None \<Rightarrow> None
                | Some (Inl e) \<Rightarrow> Some (Inl e)
                | Some (Inr j') \<Rightarrow>
                    (let g1 = g[i := b\<lparr>b_jump0 := Some j'\<rparr>] in
                     case b_jump1 b of
                       None \<Rightarrow> Some (Inr g1)
                     | Some k \<Rightarrow>
                         (case skip_target fuel g1 k of
                            None \<Rightarrow> None
                          | Some (Inl e) \<Rightarrow> Some (Inl e)
                          | Some (Inr k') \<Rightarrow> Some (Inr (g1[i := (g1 ! i)\<lparr>b_jump1 := Some k'\<rparr>])))))))"

fun skip_all :: "nat \<Rightarrow> blockref list \<Rightarrow> cfg \<Rightarrow> cfg outcome option" where
  "skip_all fuel [] g = Some (Inr g)"
| "skip_all fuel (i # is) g =
     (case skip_empty_blocks fuel g i of
        Some (Inr g1) \<Rightarrow> skip_all fuel is g1
      | r \<Rightarrow> r)"

definition analyse_pass :: "type_store \<Rightarrow> symbols \<Rightarrow> blockref list \<Rightarrow> cfg \<Rightarrow> (cfg \<times> nat) outcome" where
  "analyse_pass ts syms bl g =
     traverse (\<lambda>g i. obind (live_variable_analysis ts syms g i) (\<lambda>(g1, c). Inr (g1, if c then 1 else 0))) bl g"

fun execute_iterative_dataflow ::
  "nat \<Rightarrow> type_store \<Rightarrow> symbols \<Rightarrow> blockref list \<Rightarrow> cfg \<Rightarrow> cfg outcome option" where
  "execute_iterative_dataflow 0 ts syms bl g = None"
| "execute_iterative_dataflow (Suc n) ts syms bl g =
     (case analyse_pass ts syms bl g of
        Inl e \<Rightarrow> Some (Inl e)
      | Inr (g1, changes) \<Rightarrow>
          if changes = 0 then Some (Inr g1) else execute_iterative_dataflow n ts syms bl g1)"

fun optimize_loop :: "nat \<Rightarrow> bool \<Rightarrow> type_store \<Rightarrow> symbols \<Rightarrow> blockref list \<Rightarrow> cfg \<Rightarrow> cfg outcome option" where
  "optimize_loop 0 level ts syms bl g = None"
| "optimize_loop (Suc n) level ts syms bl g =
     (case execute_iterative_dataflow n ts syms bl g of
        None \<Rightarrow> None
      | Some (Inl e) \<Rightarrow> Some (Inl e)
      | Some (Inr g1) \<Rightarrow>
          (case obind (traverse (dead_store_elimination level syms) bl g1) (\<lambda>(g2, c).
                 obind (traverse (merge_chained_assignment level ts syms) bl g2) (\<lambda>(g3, k). Inr (g3, c + k))) of
             Inl e \<Rightarrow> Some (Inl e)
           | Inr (g3, c) \<Rightarrow> if c = 0 then Some (Inr g3) else optimize_loop n level ts syms bl g3))"

text \<open>The symbol of the definition is \<open>fsym\<close>, its entry block \<open>body\<close>. The result has the symbols back without numbers.\<close>

definition optimize ::
  "nat \<Rightarrow> bool \<Rightarrow> type_store \<Rightarrow> symbols \<Rightarrow> symref \<Rightarrow> blockref \<Rightarrow> cfg \<Rightarrow> (cfg \<times> symbols) outcome option" where
  "optimize fuel level ts syms fsym body g =
     (if \<not> level \<or> \<not> is_function (s_type (syms fsym)) then Some (Inr (g, syms))
      else
        case serialize_basic_blocks g body of
          Inl e \<Rightarrow> Some (Inl e)
        | Inr (g1, bl) \<Rightarrow>
            (case skip_all fuel bl g1 of
               None \<Rightarrow> None
             | Some (Inl e) \<Rightarrow> Some (Inl e)
             | Some (Inr g2) \<Rightarrow>
                 (case traverse (enumerate_used_symbols g2) bl (syms, []) of
                    Inl e \<Rightarrow> Some (Inl e)
                  | Inr ((syms1, l), n) \<Rightarrow>
                      (case (if n < 64 then
                               (case initialize_dataflow bl g2 of
                                  Inl e \<Rightarrow> Some (Inl e)
                                | Inr g3 \<Rightarrow> optimize_loop fuel level ts syms1 bl g3)
                             else Some (Inr g2)) of
                         None \<Rightarrow> None
                       | Some (Inl e) \<Rightarrow> Some (Inl e)
                       | Some (Inr g4) \<Rightarrow>
                           Some (obind (reset_symbol_indexes l syms1) (\<lambda>syms2.
                             obind (traverse color_white bl g4) (\<lambda>(g5, _). Inr (g5, syms2)))))))) "

end
