(* ===== verification/Liveness_Correct.thy ===== *)
theory Liveness_Correct
  imports Optimizer
begin

unbundle bit_operations_syntax

text \<open>
  Correctness of the liveness analysis, in two steps. First on sets of bits: from empty sets, the
  iteration ends after at most 64 passes for each block, and leaves behind every statement the least
  solution of the equations of its transfer functions. Then on symbols: what statements and
  branches read and overwrite is specified by the meaning of the intermediate representation,
  and for objects that are not accessed in other ways the sets are exact for paths along all edges of the graph.
\<close>

section \<open>Paths in terms of the sets\<close>

definition stmt_def :: "symbols \<Rightarrow> statement \<Rightarrow> nat \<Rightarrow> bool" where
  "stmt_def syms s k \<longleftrightarrow> (case def syms s of Inr w \<Rightarrow> bit w k | _ \<Rightarrow> False)"

definition stmt_use :: "type_store \<Rightarrow> symbols \<Rightarrow> statement \<Rightarrow> nat \<Rightarrow> bool" where
  "stmt_use ts syms s k \<longleftrightarrow> (case uses ts syms s of Inr w \<Rightarrow> bit w k | _ \<Rightarrow> False)"

definition expr_use :: "symbols \<Rightarrow> block \<Rightarrow> nat \<Rightarrow> bool" where
  "expr_use syms b k \<longleftrightarrow> uses_expr b \<and> (case use syms (b_expr b) of Inr w \<Rightarrow> bit w k | _ \<Rightarrow> False)"

text \<open>The branch targets of a block, without those of a jump table, which the analysis does not follow.\<close>

definition jumps :: "block \<Rightarrow> blockref set" where
  "jumps b = (case b_jump0 b of None \<Rightarrow> {} | Some j \<Rightarrow> {j} \<union> set_option (b_jump1 b))"

text \<open>The symbol with bit \<open>k\<close> is live before statement \<open>j\<close> of block \<open>i\<close>, or at its end.\<close>

inductive live :: "type_store \<Rightarrow> symbols \<Rightarrow> cfg \<Rightarrow> nat \<Rightarrow> blockref \<Rightarrow> nat \<Rightarrow> bool" for ts syms g k where
  live_use: "i < length g \<Longrightarrow> j < length (b_code (g ! i)) \<Longrightarrow> stmt_use ts syms (b_code (g ! i) ! j) k \<Longrightarrow> live ts syms g k i j"
| live_pass: "i < length g \<Longrightarrow> j < length (b_code (g ! i)) \<Longrightarrow> \<not> stmt_def syms (b_code (g ! i) ! j) k \<Longrightarrow>
    live ts syms g k i (Suc j) \<Longrightarrow> live ts syms g k i j"
| live_expr: "i < length g \<Longrightarrow> expr_use syms (g ! i) k \<Longrightarrow> live ts syms g k i (length (b_code (g ! i)))"
| live_jump: "i < length g \<Longrightarrow> t \<in> jumps (g ! i) \<Longrightarrow> live ts syms g k t 0 \<Longrightarrow>
    live ts syms g k i (length (b_code (g ! i)))"

inductive_cases live_cases: "live ts syms g k i j"

section \<open>Graphs without errors\<close>

definition stmt_ok :: "type_store \<Rightarrow> symbols \<Rightarrow> statement \<Rightarrow> bool" where
  "stmt_ok ts syms s \<longleftrightarrow> (\<exists>d. def syms s = Inr d) \<and> (\<exists>u. uses ts syms s = Inr u)"

text \<open>The serialized blocks: closed under jumps, and every set of symbols they need is defined.\<close>

definition graph_ok :: "type_store \<Rightarrow> symbols \<Rightarrow> blockref list \<Rightarrow> cfg \<Rightarrow> bool" where
  "graph_ok ts syms bl g \<longleftrightarrow> (\<forall>i \<in> set bl. i < length g \<and> jumps (g ! i) \<subseteq> set bl \<and>
     (b_jump0 (g ! i) = None \<longrightarrow> b_jump1 (g ! i) = None) \<and>
     (\<forall>s \<in> set (b_code (g ! i)). stmt_ok ts syms s) \<and>
     (uses_expr (g ! i) \<longrightarrow> (\<exists>u. use syms (b_expr (g ! i)) = Inr u)))"

text \<open>Blocks that differ in annotations only.\<close>

definition strip_stmt :: "statement \<Rightarrow> statement" where
  "strip_stmt s = s\<lparr>st_out := 0\<rparr>"

definition strip :: "block \<Rightarrow> block" where
  "strip b = b\<lparr>b_code := map strip_stmt (b_code b), b_in := 0, b_out := 0\<rparr>"

definition same_graph :: "cfg \<Rightarrow> cfg \<Rightarrow> bool" where
  "same_graph g g' \<longleftrightarrow> map strip g = map strip g'"

lemma same_graph_refl [simp]: "same_graph g g"
  by (simp add: same_graph_def)

lemma same_graph_sym: "same_graph g g' \<Longrightarrow> same_graph g' g"
  by (simp add: same_graph_def)

lemma same_graph_trans: "same_graph g g' \<Longrightarrow> same_graph g' g'' \<Longrightarrow> same_graph g g''"
  by (simp add: same_graph_def)

lemma strip_facts:
  assumes "strip b = strip b'"
  shows "b_jump0 b = b_jump0 b'" "b_jump1 b = b_jump1 b'" "b_expr b = b_expr b'"
    "b_has_return_value b = b_has_return_value b'" "map strip_stmt (b_code b) = map strip_stmt (b_code b')"
  using arg_cong [OF assms, of b_jump0] arg_cong [OF assms, of b_jump1] arg_cong [OF assms, of b_expr]
    arg_cong [OF assms, of b_has_return_value] arg_cong [OF assms, of b_code]
  by (simp_all add: strip_def)

lemma same_graph_update: "strip b = strip (g ! i) \<Longrightarrow> same_graph g (g[i := b])"
  by (metis list_update_id map_update same_graph_def)

lemma same_graph_length: "same_graph g g' \<Longrightarrow> length g = length g'"
  unfolding same_graph_def by (metis length_map)

lemma same_graph_nth: "same_graph g g' \<Longrightarrow> i < length g \<Longrightarrow> strip (g ! i) = strip (g' ! i)"
  unfolding same_graph_def by (metis length_map nth_map)

lemma strip_stmt_keeps [simp]:
  "def syms (strip_stmt s) = def syms s" "uses ts syms (strip_stmt s) = uses ts syms s"
proof -
  show "def syms (strip_stmt s) = def syms s" by (simp add: def_def strip_stmt_def)
  have "st_expr (strip_stmt s) = st_expr s" "st_t (strip_stmt s) = st_t s" "st_st (strip_stmt s) = st_st s"
    by (simp_all add: strip_stmt_def)
  then show "uses ts syms (strip_stmt s) = uses ts syms s" by (simp only: uses_def)
qed

lemma strip_stmt_cong:
  assumes "strip_stmt s = strip_stmt s'"
  shows "stmt_def syms s = stmt_def syms s'" "stmt_use ts syms s = stmt_use ts syms s'" "stmt_ok ts syms s = stmt_ok ts syms s'"
proof -
  have "def syms s = def syms s'" by (metis assms strip_stmt_keeps(1))
  moreover have "uses ts syms s = uses ts syms s'" by (metis assms strip_stmt_keeps(2))
  ultimately show "stmt_def syms s = stmt_def syms s'" "stmt_use ts syms s = stmt_use ts syms s'" "stmt_ok ts syms s = stmt_ok ts syms s'"
    by (simp_all add: fun_eq_iff stmt_def_def stmt_use_def stmt_ok_def)
qed

section \<open>The transfer function of a block\<close>

text \<open>Whether a symbol is live before a list of statements, given whether it is live behind them.\<close>

fun flow :: "type_store \<Rightarrow> symbols \<Rightarrow> nat \<Rightarrow> statement list \<Rightarrow> bool \<Rightarrow> bool" where
  "flow ts syms k [] out = out"
| "flow ts syms k (s # ss) out = (stmt_use ts syms s k \<or> \<not> stmt_def syms s k \<and> flow ts syms k ss out)"

definition at_end :: "symbols \<Rightarrow> cfg \<Rightarrow> nat \<Rightarrow> (blockref \<Rightarrow> bool) \<Rightarrow> blockref \<Rightarrow> bool" where
  "at_end syms g k X i \<longleftrightarrow> expr_use syms (g ! i) k \<or> (\<exists>t \<in> jumps (g ! i). X t)"

lemma flow_mono: "flow ts syms k ss a \<Longrightarrow> (a \<Longrightarrow> b) \<Longrightarrow> flow ts syms k ss b"
  by (induction ss) auto

lemma at_end_mono: "at_end syms g k X i \<Longrightarrow> (\<And>t. t \<in> jumps (g ! i) \<Longrightarrow> X t \<Longrightarrow> Y t) \<Longrightarrow> at_end syms g k Y i"
  by (auto simp: at_end_def)

lemma flow_strip: "map strip_stmt ss = map strip_stmt ss' \<Longrightarrow> flow ts syms k ss out = flow ts syms k ss' out"
proof (induction ss arbitrary: ss')
  case (Cons s ss)
  then obtain s' rs where r: "ss' = s' # rs" "strip_stmt s = strip_stmt s'" "map strip_stmt ss = map strip_stmt rs"
    by (cases ss') auto
  then show ?case using strip_stmt_cong [OF r(2)] Cons.IH [OF r(3)] by simp
qed simp

lemma flow_drop: "j < length ss \<Longrightarrow>
  flow ts syms k (drop j ss) out = (stmt_use ts syms (ss ! j) k \<or> \<not> stmt_def syms (ss ! j) k \<and> flow ts syms k (drop (Suc j) ss) out)"
  by (simp add: Cons_nth_drop_Suc [symmetric])

section \<open>Live symbols as the least solution\<close>

lemma flow_live:
  assumes "i < length g" "j \<le> length (b_code (g ! i))"
    and "flow ts syms k (drop j (b_code (g ! i))) (at_end syms g k (\<lambda>t. live ts syms g k t 0) i)"
  shows "live ts syms g k i j"
  using assms(2,3)
proof (induction rule: inc_induct)
  case base
  then show ?case by (auto simp: at_end_def intro: live_expr live_jump assms(1))
next
  case (step j)
  then show ?case using assms(1) by (auto simp: flow_drop intro: live_use live_pass)
qed

lemma live_least:
  assumes "live ts syms g k i j" "i \<in> B"
    and closed: "\<And>i. i \<in> B \<Longrightarrow> i < length g \<and> jumps (g ! i) \<subseteq> B"
    and X: "\<And>i. i \<in> B \<Longrightarrow> flow ts syms k (b_code (g ! i)) (at_end syms g k X i) \<Longrightarrow> X i"
  shows "flow ts syms k (drop j (b_code (g ! i))) (at_end syms g k X i)"
  using assms(1,2)
proof (induction rule: live.induct)
  case (live_jump i t)
  then have "t \<in> B" using closed by blast
  then have "X t" using live_jump.IH X by simp
  then show ?case using live_jump(2) by (auto simp: at_end_def)
qed (auto simp: flow_drop at_end_def)

section \<open>The analysis of a block\<close>

abbreviation gin :: "cfg \<Rightarrow> nat \<Rightarrow> blockref \<Rightarrow> bool" where
  "gin g k i \<equiv> bit (b_in (g ! i)) k"

lemma live_code_flow:
  assumes "\<forall>s \<in> set ss. stmt_ok ts syms s"
  shows "\<exists>ss' l. live_code ts syms out ss = Inr (ss', l) \<and> map strip_stmt ss' = map strip_stmt ss \<and>
    (\<forall>k. bit l k = flow ts syms k ss (bit out k)) \<and>
    (\<forall>j < length ss. \<forall>k. bit (st_out (ss' ! j)) k = flow ts syms k (drop (Suc j) ss) (bit out k))"
  using assms
proof (induction ss)
  case (Cons s ss)
  then obtain ss' l where r: "live_code ts syms out ss = Inr (ss', l)" "map strip_stmt ss' = map strip_stmt ss"
      "\<And>k. bit l k = flow ts syms k ss (bit out k)"
      "\<And>j k. j < length ss \<Longrightarrow> bit (st_out (ss' ! j)) k = flow ts syms k (drop (Suc j) ss) (bit out k)"
    by auto
  from Cons.prems obtain d u where du: "def syms s = Inr d" "uses ts syms s = Inr u" by (auto simp: stmt_ok_def)
  have "bit ((l AND NOT d) OR u) k = flow ts syms k (s # ss) (bit out k)" for k
    using du r(3) [of k] bit_imp_le_length [of l k]
    by (auto simp: stmt_def_def stmt_use_def bit_or_iff bit_and_iff bit_not_iff)
  moreover have "bit (st_out ((s\<lparr>st_out := l\<rparr> # ss') ! j)) k = flow ts syms k (drop (Suc j) (s # ss)) (bit out k)"
    if "j < length (s # ss)" for j k
    using that r(3,4) by (cases j) auto
  moreover have "map strip_stmt (s\<lparr>st_out := l\<rparr> # ss') = map strip_stmt (s # ss)"
    using r(2) by (simp add: strip_stmt_def)
  ultimately show ?case using r(1) du by auto
qed simp

lemma strip_code:
  "strip b = strip b' \<Longrightarrow> flow ts syms k (drop j (b_code b)) out = flow ts syms k (drop j (b_code b')) out"
  "strip b = strip b' \<Longrightarrow> jumps b = jumps b'"
  "strip b = strip b' \<Longrightarrow> expr_use syms b k = expr_use syms b' k"
  "strip b = strip b' \<Longrightarrow> length (b_code b) = length (b_code b')"
proof -
  assume b: "strip b = strip b'"
  note f = strip_facts [OF b]
  show "flow ts syms k (drop j (b_code b)) out = flow ts syms k (drop j (b_code b')) out"
    using f(5) by (intro flow_strip) (metis drop_map)
  show "jumps b = jumps b'" using f(1,2) by (simp add: jumps_def split: option.splits)
  show "expr_use syms b k = expr_use syms b' k" using f(2,3,4) by (simp add: expr_use_def uses_expr_def)
  show "length (b_code b) = length (b_code b')" using f(5) by (metis length_map)
qed

lemma strip_at_end: "strip (g ! i) = strip (g' ! i) \<Longrightarrow> at_end syms g k X i = at_end syms g' k X i"
  using strip_code(2,3) [of "g ! i" "g' ! i"] by (simp add: at_end_def)

text \<open>Block \<open>i\<close> carries the sets that follow from the sets \<open>X\<close> at the entries of its jumps.\<close>

definition annotated :: "type_store \<Rightarrow> symbols \<Rightarrow> cfg \<Rightarrow> (nat \<Rightarrow> blockref \<Rightarrow> bool) \<Rightarrow> blockref \<Rightarrow> bool" where
  "annotated ts syms g X i \<longleftrightarrow>
     (\<forall>k. gin g k i = flow ts syms k (b_code (g ! i)) (at_end syms g k (X k) i)) \<and>
     (\<forall>j < length (b_code (g ! i)). \<forall>k.
        bit (st_out (b_code (g ! i) ! j)) k = flow ts syms k (drop (Suc j) (b_code (g ! i))) (at_end syms g k (X k) i))"

lemma annotated_cong: "g ! i = g' ! i \<Longrightarrow> annotated ts syms g X i = annotated ts syms g' X i"
  by (simp add: annotated_def at_end_def)

lemma children_in_bits:
  assumes "graph_ok ts syms bl g" "i \<in> set bl"
  shows "\<exists>w. children_in g (g ! i) = Inr w \<and> (\<forall>k. bit w k \<longleftrightarrow> (\<exists>t \<in> jumps (g ! i). gin g k t))"
proof -
  have sub: "t \<in> jumps (g ! i) \<Longrightarrow> t < length g" for t using assms by (auto simp: graph_ok_def)
  show ?thesis
    using sub
    by (cases "b_jump0 (g ! i)"; cases "b_jump1 (g ! i)")
      (auto simp: children_in_def jump_in_def get_block_def jumps_def bit_or_iff)
qed

lemma graph_ok_same:
  assumes "same_graph g g'" "graph_ok ts syms bl g"
  shows "graph_ok ts syms bl g'"
  unfolding graph_ok_def
proof (intro ballI)
  fix i assume i: "i \<in> set bl"
  then have il: "i < length g" using assms(2) by (simp add: graph_ok_def)
  note st = same_graph_nth [OF assms(1) il]
  note f = strip_facts [OF st] and c = strip_code [OF st]
  have "stmt_ok ts syms x" if x: "x \<in> set (b_code (g' ! i))" for x
  proof -
    have "strip_stmt x \<in> strip_stmt ` set (b_code (g ! i))" using x f(5) by (metis image_eqI list.set_map)
    then obtain y where "y \<in> set (b_code (g ! i))" "strip_stmt x = strip_stmt y" by blast
    then show ?thesis using assms(2) i strip_stmt_cong(3) by (metis graph_ok_def)
  qed
  then show "i < length g' \<and> jumps (g' ! i) \<subseteq> set bl \<and> (b_jump0 (g' ! i) = None \<longrightarrow> b_jump1 (g' ! i) = None) \<and>
      (\<forall>s \<in> set (b_code (g' ! i)). stmt_ok ts syms s) \<and> (uses_expr (g' ! i) \<longrightarrow> (\<exists>u. use syms (b_expr (g' ! i)) = Inr u))"
    using bspec [OF assms(2) [unfolded graph_ok_def] i] f c(2) same_graph_length [OF assms(1)]
    by (simp add: uses_expr_def)
qed

lemma live_variable_analysis_block:
  assumes ok: "graph_ok ts syms bl g" and i: "i \<in> set bl"
  obtains g' where "live_variable_analysis ts syms g i = Inr (g', b_in (g ! i) \<noteq> b_in (g' ! i))"
    "same_graph g g'" "\<And>m. m \<noteq> i \<Longrightarrow> g' ! m = g ! m" "annotated ts syms g' (gin g) i"
proof -
  have il: "i < length g" and so: "\<forall>s \<in> set (b_code (g ! i)). stmt_ok ts syms s" using ok i by (auto simp: graph_ok_def)
  obtain w where w: "children_in g (g ! i) = Inr w" "\<And>k. bit w k \<longleftrightarrow> (\<exists>t \<in> jumps (g ! i). gin g k t)"
    using children_in_bits [OF ok i] by blast
  obtain u where u: "(if uses_expr (g ! i) then use syms (b_expr (g ! i)) else Inr 0) = Inr u"
      "\<And>k. bit u k = expr_use syms (g ! i) k"
    using ok i by (cases "uses_expr (g ! i)") (fastforce simp: graph_ok_def expr_use_def)+
  have e: "bit (w OR u) k = at_end syms g k (gin g k) i" for k using w(2) u(2) by (auto simp: bit_or_iff at_end_def)
  obtain code l where c: "live_code ts syms (w OR u) (b_code (g ! i)) = Inr (code, l)"
      "map strip_stmt code = map strip_stmt (b_code (g ! i))"
      "\<And>k. bit l k = flow ts syms k (b_code (g ! i)) (at_end syms g k (gin g k) i)"
      "\<And>j k. j < length (b_code (g ! i)) \<Longrightarrow>
         bit (st_out (code ! j)) k = flow ts syms k (drop (Suc j) (b_code (g ! i))) (at_end syms g k (gin g k) i)"
    using live_code_flow [OF so, of "w OR u"] unfolding e by blast
  let ?b = "(g ! i)\<lparr>b_code := code, b_in := l, b_out := w\<rparr>"
  let ?g = "g[i := ?b]"
  have st: "strip ?b = strip (g ! i)" using c(2) by (simp add: strip_def)
  then have "same_graph g ?g" by (rule same_graph_update)
  moreover have "annotated ts syms ?g (gin g) i"
    using il c(3,4) strip_code(1) [OF st, of ts syms _ 0] strip_code(1) [OF st] strip_code(4) [OF st]
      strip_at_end [of ?g i g syms _ "gin g _"] st
    by (simp add: annotated_def)
  ultimately show ?thesis
    using il w(1) u(1) c(1) by (intro that [of ?g]) (simp_all add: live_variable_analysis_def get_block_def)
qed

section \<open>A pass over the blocks\<close>

text \<open>
  The sets at the entries hold live symbols only, and computing them anew can only
  add symbols. Both hold for empty sets.
\<close>

definition growing :: "type_store \<Rightarrow> symbols \<Rightarrow> blockref list \<Rightarrow> cfg \<Rightarrow> cfg \<Rightarrow> bool" where
  "growing ts syms bl g0 g \<longleftrightarrow> same_graph g0 g \<and>
     (\<forall>i \<in> set bl. \<forall>k. gin g k i \<longrightarrow> live ts syms g0 k i 0) \<and>
     (\<forall>i \<in> set bl. \<forall>k. gin g k i \<longrightarrow> flow ts syms k (b_code (g0 ! i)) (at_end syms g0 k (gin g k) i))"

lemma annotated_same:
  assumes "same_graph g0 g" "i < length g0" "annotated ts syms g X i"
  shows "gin g k i = flow ts syms k (b_code (g0 ! i)) (at_end syms g0 k (X k) i)"
    "j < length (b_code (g0 ! i)) \<Longrightarrow>
      bit (st_out (b_code (g ! i) ! j)) k = flow ts syms k (drop (Suc j) (b_code (g0 ! i))) (at_end syms g0 k (X k) i)"
proof -
  note st = same_graph_nth [OF assms(1,2)]
  show "gin g k i = flow ts syms k (b_code (g0 ! i)) (at_end syms g0 k (X k) i)"
    using assms(3) strip_code(1) [OF st, of ts syms k 0] strip_at_end [OF st] by (simp add: annotated_def)
  show "j < length (b_code (g0 ! i)) \<Longrightarrow>
      bit (st_out (b_code (g ! i) ! j)) k = flow ts syms k (drop (Suc j) (b_code (g0 ! i))) (at_end syms g0 k (X k) i)"
    using assms(3) strip_code(1) [OF st] strip_code(4) [OF st] strip_at_end [OF st] by (simp add: annotated_def)
qed

lemma growing_step:
  assumes ok: "graph_ok ts syms bl g0" and gr: "growing ts syms bl g0 g" and i: "i \<in> set bl"
    and g': "same_graph g g'" "\<And>m. m \<noteq> i \<Longrightarrow> g' ! m = g ! m" "annotated ts syms g' (gin g) i"
  shows "growing ts syms bl g0 g'" "gin g k m \<Longrightarrow> gin g' k m"
proof -
  have sg: "same_graph g0 g'" using gr g'(1) same_graph_trans growing_def by blast
  have il: "i < length g0" and cl: "\<And>m t. m \<in> set bl \<Longrightarrow> t \<in> jumps (g0 ! m) \<Longrightarrow> t \<in> set bl"
    using ok i by (auto simp: graph_ok_def)
  have new: "gin g' k i = flow ts syms k (b_code (g0 ! i)) (at_end syms g0 k (gin g k) i)" for k
    using annotated_same(1) [OF sg il g'(3)] .
  show up: "gin g k m \<Longrightarrow> gin g' k m" for k m
    using gr i new g'(2) by (cases "m = i") (auto simp: growing_def)
  have "gin g' k m \<longrightarrow> live ts syms g0 k m 0" if m: "m \<in> set bl" for k m
  proof (cases "m = i")
    case True
    have le: "at_end syms g0 k (gin g k) i \<Longrightarrow> at_end syms g0 k (\<lambda>t. live ts syms g0 k t 0) i"
      using gr cl [OF i] by (auto simp: growing_def intro: at_end_mono)
    show ?thesis
      using new [of k] flow_live [OF il, of 0 ts syms k] flow_mono [OF _ le] True by auto
  qed (use m gr g'(2) in \<open>auto simp: growing_def\<close>)
  moreover have "gin g' k m \<longrightarrow> flow ts syms k (b_code (g0 ! m)) (at_end syms g0 k (gin g' k) m)" if m: "m \<in> set bl" for k m
  proof -
    have "at_end syms g0 k (gin g k) m \<Longrightarrow> at_end syms g0 k (gin g' k) m" using up by (auto intro: at_end_mono)
    moreover have "gin g' k m \<Longrightarrow> flow ts syms k (b_code (g0 ! m)) (at_end syms g0 k (gin g k) m)"
      using new gr m g'(2) by (cases "m = i") (auto simp: growing_def)
    ultimately show ?thesis using flow_mono by blast
  qed
  ultimately show "growing ts syms bl g0 g'" using sg by (simp add: growing_def)
qed

lemma bit_ext: "(\<And>k. bit (a :: u64) k = bit b k) \<Longrightarrow> a = b"
  by (simp add: bit_eq_iff)

text \<open>A pass from any sets: when no set at an entry changes, every block agrees with its jumps.\<close>

lemma analyse_pass_returns:
  assumes "graph_ok ts syms bl g" "set is \<subseteq> set bl"
  shows "\<exists>g' c. analyse_pass ts syms is g = Inr (g', c) \<and> same_graph g g' \<and> (\<forall>m. m \<notin> set is \<longrightarrow> g' ! m = g ! m) \<and>
    (c = 0 \<longrightarrow> (\<forall>m. b_in (g' ! m) = b_in (g ! m)) \<and> (\<forall>m \<in> set is. annotated ts syms g' (gin g') m))"
  using assms
proof (induction "is" arbitrary: g)
  case Nil
  then show ?case by (simp add: analyse_pass_def)
next
  case (Cons i "is")
  then have i: "i \<in> set bl" by simp
  obtain g1 where g1: "live_variable_analysis ts syms g i = Inr (g1, b_in (g ! i) \<noteq> b_in (g1 ! i))"
      "same_graph g g1" "\<And>m. m \<noteq> i \<Longrightarrow> g1 ! m = g ! m" "annotated ts syms g1 (gin g) i"
    using live_variable_analysis_block [OF Cons.prems(1) i] by blast
  obtain g' c where r: "analyse_pass ts syms is g1 = Inr (g', c)" "same_graph g1 g'"
      "\<And>m. m \<notin> set is \<Longrightarrow> g' ! m = g1 ! m"
      "c = 0 \<Longrightarrow> (\<forall>m. b_in (g' ! m) = b_in (g1 ! m)) \<and> (\<forall>m \<in> set is. annotated ts syms g' (gin g') m)"
    using Cons.IH [OF graph_ok_same [OF g1(2) Cons.prems(1)]] Cons.prems(2) by auto
  let ?c = "(if b_in (g ! i) \<noteq> b_in (g1 ! i) then 1 else 0) + c"
  have "analyse_pass ts syms (i # is) g = Inr (g', ?c)"
    using g1(1) r(1) by (simp add: analyse_pass_def)
  moreover have "(\<forall>m. b_in (g' ! m) = b_in (g ! m)) \<and> (\<forall>m \<in> set (i # is). annotated ts syms g' (gin g') m)" if z: "?c = 0"
  proof -
    have e1: "b_in (g1 ! m) = b_in (g ! m)" for m using z g1(3) by (cases "m = i") (auto split: if_splits)
    have e: "b_in (g' ! m) = b_in (g1 ! m)" for m using z r(4) by simp
    have "annotated ts syms g' (gin g') i" if "i \<notin> set is"
      using g1(4) annotated_cong [OF r(3) [OF that]] e e1 by simp
    then show ?thesis using e e1 z r(4) by auto
  qed
  ultimately show ?case
    using r(3) g1(3) same_graph_trans [OF g1(2) r(2)] by (intro exI [of _ g'] exI [of _ ?c]) auto
qed

lemma analyse_pass_growing:
  assumes ok: "graph_ok ts syms bl g0" and "growing ts syms bl g0 g" "set is \<subseteq> set bl"
    and "analyse_pass ts syms is g = Inr (g', c)"
  shows "growing ts syms bl g0 g' \<and> (\<forall>k m. gin g k m \<longrightarrow> gin g' k m) \<and>
    (c \<noteq> 0 \<longrightarrow> (\<exists>m \<in> set bl. \<exists>k. gin g' k m \<and> \<not> gin g k m))"
  using assms(2-)
proof (induction "is" arbitrary: g c)
  case (Cons i "is")
  then have i: "i \<in> set bl" and sg: "same_graph g0 g" by (auto simp: growing_def)
  obtain g1 where g1: "live_variable_analysis ts syms g i = Inr (g1, b_in (g ! i) \<noteq> b_in (g1 ! i))"
      "same_graph g g1" "\<And>m. m \<noteq> i \<Longrightarrow> g1 ! m = g ! m" "annotated ts syms g1 (gin g) i"
    using live_variable_analysis_block [OF graph_ok_same [OF sg ok] i] by blast
  note st = growing_step [OF ok Cons.prems(1) i g1(2-4)]
  obtain d where d: "analyse_pass ts syms is g1 = Inr (g', d)" "c = (if b_in (g ! i) \<noteq> b_in (g1 ! i) then 1 else 0) + d"
    using Cons.prems(3) g1(1) by (auto simp: analyse_pass_def obind_Inr_iff)
  note ih = Cons.IH [OF st(1) _ d(1)]
  have "\<exists>m \<in> set bl. \<exists>k. gin g' k m \<and> \<not> gin g k m" if "c \<noteq> 0"
  proof (cases "d = 0")
    case True
    then have "b_in (g ! i) \<noteq> b_in (g1 ! i)" using that d(2) by (auto split: if_splits)
    then obtain k where "gin g1 k i \<noteq> gin g k i" using bit_ext by metis
    then have "gin g' k i \<and> \<not> gin g k i" using st(2) ih Cons.prems(2) by auto
    then show ?thesis using i by blast
  qed (use ih st(2) Cons.prems(2) in auto)
  then show ?case using ih st(2) Cons.prems(2) by auto
qed (auto simp: analyse_pass_def)

section \<open>The iteration\<close>

text \<open>The number of elements of all sets at entries; it grows in every pass but the last.\<close>

definition weight :: "blockref list \<Rightarrow> cfg \<Rightarrow> nat" where
  "weight bl g = (\<Sum>i \<in> set bl. card {k. gin g k i})"

lemma bits_bound: "{k. bit (w :: u64) k} \<subseteq> {..<64}"
  using bit_imp_le_length by fastforce

lemma weight_bound: "weight bl g \<le> 64 * length bl"
proof -
  have "card {k. bit (w :: u64) k} \<le> 64" for w using card_mono [OF _ bits_bound] by fastforce
  then have "weight bl g \<le> card (set bl) * 64" unfolding weight_def
    using sum_bounded_above [of "set bl" "\<lambda>i. card {k. gin g k i}" 64] by (simp add: mult.commute)
  then show ?thesis using card_length [of bl] by linarith
qed

lemma weight_grows:
  assumes "\<forall>k m. gin g k m \<longrightarrow> gin g' k m" "i \<in> set bl" "gin g' k i" "\<not> gin g k i"
  shows "weight bl g < weight bl g'"
  unfolding weight_def
proof (rule sum_strict_mono_ex1)
  have fin: "finite {k. bit (w :: u64) k}" for w using finite_subset [OF bits_bound] by simp
  show "\<forall>x \<in> set bl. card {k. gin g k x} \<le> card {k. gin g' k x}" using assms(1) by (intro ballI card_mono fin) auto
  have "{k. gin g k i} \<subset> {k. gin g' k i}" using assms(1,3,4) by blast
  then have "card {k. gin g k i} < card {k. gin g' k i}" by (rule psubset_card_mono [OF fin])
  then show "\<exists>x \<in> set bl. card {k. gin g k x} < card {k. gin g' k x}" using assms(2) by blast
qed simp

text \<open>All blocks agree with their jumps.\<close>

definition solved :: "type_store \<Rightarrow> symbols \<Rightarrow> blockref list \<Rightarrow> cfg \<Rightarrow> bool" where
  "solved ts syms bl g \<longleftrightarrow> (\<forall>m \<in> set bl. annotated ts syms g (gin g) m)"

lemma execute_growing:
  assumes ok: "graph_ok ts syms bl g0" and "growing ts syms bl g0 g" "64 * length bl - weight bl g < n"
  shows "\<exists>g'. execute_iterative_dataflow n ts syms bl g = Some (Inr g') \<and> growing ts syms bl g0 g' \<and> solved ts syms bl g'"
  using assms(2,3)
proof (induction n arbitrary: g)
  case (Suc n)
  have sg: "same_graph g0 g" using Suc.prems(1) by (simp add: growing_def)
  obtain g1 c where r: "analyse_pass ts syms bl g = Inr (g1, c)" "c = 0 \<Longrightarrow> solved ts syms bl g1"
    using analyse_pass_returns [OF graph_ok_same [OF sg ok] order_refl] by (auto simp: solved_def)
  note gr = analyse_pass_growing [OF ok Suc.prems(1) order_refl r(1)]
  show ?case
  proof (cases "c = 0")
    case False
    then have "weight bl g < weight bl g1" using gr weight_grows by blast
    then have "64 * length bl - weight bl g1 < n" using Suc.prems(2) weight_bound [of bl g1] by linarith
    then show ?thesis using Suc.IH gr False r(1) by simp
  qed (use r gr in simp)
qed simp

lemma execute_solved:
  assumes "graph_ok ts syms bl g" "execute_iterative_dataflow n ts syms bl g = Some (Inr g')"
  shows "same_graph g g' \<and> solved ts syms bl g'"
  using assms
proof (induction n arbitrary: g)
  case (Suc n)
  obtain g1 c where r: "analyse_pass ts syms bl g = Inr (g1, c)" "same_graph g g1" "c = 0 \<Longrightarrow> solved ts syms bl g1"
    using analyse_pass_returns [OF Suc.prems(1) order_refl] by (auto simp: solved_def)
  show ?case
  proof (cases "c = 0")
    case False
    then have "execute_iterative_dataflow n ts syms bl g1 = Some (Inr g')" using Suc.prems(2) r(1) by simp
    then show ?thesis using Suc.IH [OF graph_ok_same [OF r(2) Suc.prems(1)]] same_graph_trans [OF r(2)] by blast
  qed (use r Suc.prems(2) in simp)
qed simp

lemma solved_at_end:
  assumes ok: "graph_ok ts syms bl g0" and "same_graph g0 g" "solved ts syms bl g" and i: "i \<in> set bl"
    and "live ts syms g0 k i j" 
  shows "flow ts syms k (drop j (b_code (g0 ! i))) (at_end syms g0 k (gin g k) i)"
proof (rule live_least [OF assms(5) i])
  show "m \<in> set bl \<Longrightarrow> m < length g0 \<and> jumps (g0 ! m) \<subseteq> set bl" for m using ok by (simp add: graph_ok_def)
  show "m \<in> set bl \<Longrightarrow> flow ts syms k (b_code (g0 ! m)) (at_end syms g0 k (gin g k) m) \<Longrightarrow> gin g k m" for m
    using annotated_same(1) [OF assms(2), of m ts syms "gin g" k] assms(3) ok by (simp add: solved_def graph_ok_def)
qed

lemma traverse_initialize:
  "traverse initialize_block bl g = Inr (g0, n) \<Longrightarrow>
     same_graph g g0 \<and> (\<forall>i. i \<in> set bl \<or> b_in (g ! i) = 0 \<longrightarrow> b_in (g0 ! i) = 0)"
proof (induction bl arbitrary: g n)
  case (Cons i bl)
  let ?b = "(g ! i)\<lparr>b_in := 0, b_out := 0, b_code := map (\<lambda>s. s\<lparr>st_out := 0\<rparr>) (b_code (g ! i))\<rparr>"
  from Cons.prems obtain k where r: "i < length g" "traverse initialize_block bl (g[i := ?b]) = Inr (g0, k)"
    unfolding traverse.simps obind_Inr_iff
    by (auto simp: obind_Inr_iff get_block_Inr initialize_block_def [of g i])
  have "strip ?b = strip (g ! i)" by (simp add: strip_def strip_stmt_def)
  then have "same_graph g (g[i := ?b])" by (rule same_graph_update)
  moreover have "b_in (g[i := ?b] ! m) = 0" if "m = i \<or> b_in (g ! m) = 0" for m
    using that r(1) by (cases "m = i") auto
  ultimately show ?case using Cons.IH [OF r(2)] same_graph_trans by auto
qed simp

lemma initialize_dataflow_growing:
  assumes "initialize_dataflow bl g = Inr g0"
  shows "growing ts syms bl g g0"
  using traverse_initialize [of bl g g0] assms by (auto simp: initialize_dataflow_def obind_Inr_iff growing_def)

text \<open>The result of the iteration, in terms of the sets of bits.\<close>

lemma liveness_bits:
  assumes "graph_ok ts syms bl g" "initialize_dataflow bl g = Inr g0" "64 * length bl < n"
  shows "\<exists>g'. execute_iterative_dataflow n ts syms bl g0 = Some (Inr g') \<and> same_graph g g' \<and>
    (\<forall>i \<in> set bl. \<forall>j < length (b_code (g ! i)). \<forall>k.
       bit (st_out (b_code (g' ! i) ! j)) k \<longleftrightarrow> live ts syms g k i (Suc j))"
proof -
  obtain g' where g': "execute_iterative_dataflow n ts syms bl g0 = Some (Inr g')" "growing ts syms bl g g'" "solved ts syms bl g'"
    using execute_growing [OF assms(1) initialize_dataflow_growing [OF assms(2)], of n] diff_le_self [of "64 * length bl"] assms(3)
    by (meson le_less_trans)
  have sg: "same_graph g g'" using g'(2) by (simp add: growing_def)
  have "bit (st_out (b_code (g' ! i) ! j)) k \<longleftrightarrow> live ts syms g k i (Suc j)"
    if i: "i \<in> set bl" and j: "j < length (b_code (g ! i))" for i j k
  proof -
    have il: "i < length g" using assms(1) i by (simp add: graph_ok_def)
    have b: "bit (st_out (b_code (g' ! i) ! j)) k = flow ts syms k (drop (Suc j) (b_code (g ! i))) (at_end syms g k (gin g' k) i)"
      using annotated_same(2) [OF sg il _ j, of ts syms "gin g'" k] g'(3) i by (simp add: solved_def)
    have "jumps (g ! i) \<subseteq> set bl" using assms(1) i by (simp add: graph_ok_def)
    then have "at_end syms g k (gin g' k) i \<Longrightarrow> at_end syms g k (\<lambda>t. live ts syms g k t 0) i"
      using g'(2) by (auto simp: growing_def intro: at_end_mono)
    then show ?thesis
      unfolding b using solved_at_end [OF assms(1) sg g'(3) i] flow_live [OF il] j flow_mono by (metis Suc_leI)
  qed
  then show ?thesis using g'(1) sg by blast
qed

section \<open>Reading and writing symbols\<close>

text \<open>
  What an operand may read. A variable is read directly; one whose address is taken counts as read; a string or
  constant is read as an immediate value; and through a pointer everything may be read.
\<close>

definition operand_reads :: "var \<Rightarrow> symref \<Rightarrow> bool" where
  "operand_reads v x \<longleftrightarrow> v_kind v = DEREF \<or> v_symbol v = Some x"

text \<open>
  The operators with two operands. A call may also read every object that the called function can
  reach, which is given by \<open>esc\<close>.
\<close>

definition two_operands :: "optype set" where
  "two_operands = {IR_OP_ADD, IR_OP_SUB, IR_OP_MUL, IR_OP_DIV, IR_OP_MOD, IR_OP_AND, IR_OP_OR, IR_OP_XOR, IR_OP_SHL, IR_OP_SHR,
     IR_OP_EQ, IR_OP_NE, IR_OP_GE, IR_OP_GT}"

definition expr_reads :: "bool \<Rightarrow> expression \<Rightarrow> symref \<Rightarrow> bool" where
  "expr_reads esc e x \<longleftrightarrow> operand_reads (e_l e) x \<or> e_op e \<in> two_operands \<and> operand_reads (e_r e) x \<or>
     e_op e = IR_OP_CALL \<and> esc"

text \<open>Types of which a value may hold an address.\<close>

inductive has_pointer :: "type_store \<Rightarrow> ctype \<Rightarrow> bool" for ts where
  "is_pointer t \<Longrightarrow> has_pointer ts t"
| "is_struct_or_union t \<Longrightarrow> get_typetree_handle ts (t_ref t) = Inr tree \<Longrightarrow> m \<in> set (tt_members tree) \<Longrightarrow>
     has_pointer ts (m_type m) \<Longrightarrow> has_pointer ts t"

inductive_simps has_pointer_iff: "has_pointer ts t"

text \<open>
  A statement reads what its expression reads; an assignment through a pointer reads the pointer; and the function that
  gets an address as an argument may read everything.
\<close>

definition stmt_reads :: "type_store \<Rightarrow> bool \<Rightarrow> statement \<Rightarrow> symref \<Rightarrow> bool" where
  "stmt_reads ts esc s x \<longleftrightarrow> expr_reads esc (st_expr s) x \<or>
     st_st s = IR_ASSIGN \<and> v_kind (st_t s) = DEREF \<and> v_symbol (st_t s) = Some x \<or>
     st_st s = IR_PARAM \<and> has_pointer ts (e_type (st_expr s))"

text \<open>The last expression of a block is evaluated for a branch, a return value, or a jump table.\<close>

definition block_reads :: "bool \<Rightarrow> block \<Rightarrow> symref \<Rightarrow> bool" where
  "block_reads esc b x \<longleftrightarrow> (b_jump1 b \<noteq> None \<or> b_has_return_value b \<or> b_has_jump_table b) \<and> expr_reads esc (b_expr b) x"

text \<open>An assignment overwrites an object if it writes all of it: from its start, no bit-field, and with its size.\<close>

definition whole_object :: "type_store \<Rightarrow> symbols \<Rightarrow> var \<Rightarrow> symref \<Rightarrow> bool" where
  "whole_object ts syms v x \<longleftrightarrow> v_offset v = 0 \<and> v_field_width v = 0 \<and> size_of ts (v_type v) = size_of ts (s_type (syms x))"

definition stores_to :: "statement \<Rightarrow> symref \<Rightarrow> bool" where
  "stores_to s x \<longleftrightarrow> st_st s = IR_ASSIGN \<and> v_kind (st_t s) = DIRECT \<and> v_symbol (st_t s) = Some x"

definition overwrites :: "type_store \<Rightarrow> symbols \<Rightarrow> statement \<Rightarrow> symref \<Rightarrow> bool" where
  "overwrites ts syms s x \<longleftrightarrow> stores_to s x \<and> whole_object ts syms (st_t s) x"

text \<open>All edges of the control flow graph.\<close>

definition successors :: "block \<Rightarrow> blockref set" where
  "successors b = jumps b \<union> (if b_has_jump_table b then jp_label ` set (b_jump_table b) else {})"

text \<open>
  Objects that other functions can reach: those with linkage, and those of which the address is an operand somewhere.
\<close>

definition operands :: "block \<Rightarrow> var list" where
  "operands b = e_l (b_expr b) # e_r (b_expr b) # concat (map (\<lambda>s. [e_l (st_expr s), e_r (st_expr s)]) (b_code b))"

definition escapes :: "symbols \<Rightarrow> cfg \<Rightarrow> symref \<Rightarrow> bool" where
  "escapes syms g x \<longleftrightarrow> s_linkage (syms x) \<noteq> LINK_NONE \<or> (\<exists>b \<in> set g. \<exists>v \<in> set (operands b). v_kind v = ADDRESS \<and> v_symbol v = Some x)"

text \<open>
  The value of \<open>x\<close> before statement \<open>j\<close> of block \<open>i\<close>, or at the end of the block, may be read: some path from there, along any
  edges, reads it before overwriting it.
\<close>

inductive read_later :: "type_store \<Rightarrow> symbols \<Rightarrow> cfg \<Rightarrow> symref \<Rightarrow> blockref \<Rightarrow> nat \<Rightarrow> bool" for ts syms g x where
  read_here: "i < length g \<Longrightarrow> j < length (b_code (g ! i)) \<Longrightarrow> stmt_reads ts (escapes syms g x) (b_code (g ! i) ! j) x \<Longrightarrow>
    read_later ts syms g x i j"
| read_pass: "i < length g \<Longrightarrow> j < length (b_code (g ! i)) \<Longrightarrow> \<not> overwrites ts syms (b_code (g ! i) ! j) x \<Longrightarrow>
    read_later ts syms g x i (Suc j) \<Longrightarrow> read_later ts syms g x i j"
| read_expr: "i < length g \<Longrightarrow> block_reads (escapes syms g x) (g ! i) x \<Longrightarrow> read_later ts syms g x i (length (b_code (g ! i)))"
| read_jump: "i < length g \<Longrightarrow> t \<in> successors (g ! i) \<Longrightarrow> read_later ts syms g x t 0 \<Longrightarrow>
    read_later ts syms g x i (length (b_code (g ! i)))"

section \<open>The sets of the analysis\<close>

text \<open>Objects with a number of their own, and the graphs for which the analysis follows all edges.\<close>

definition has_number :: "symbols \<Rightarrow> symref \<Rightarrow> bool" where
  "has_number syms x \<longleftrightarrow> is_object (s_type (syms x)) \<and> 1 \<le> s_index (syms x) \<and> s_index (syms x) \<le> 64"

definition distinct_numbers :: "symbols \<Rightarrow> bool" where
  "distinct_numbers syms \<longleftrightarrow> (\<forall>x y. s_index (syms x) \<noteq> 0 \<and> s_index (syms x) = s_index (syms y) \<longrightarrow> x = y)"

definition no_tables :: "blockref list \<Rightarrow> cfg \<Rightarrow> bool" where
  "no_tables bl g \<longleftrightarrow> (\<forall>i \<in> set bl. \<not> b_has_jump_table (g ! i))"

text \<open>Objects that only this function accesses, and a scalar of which is never stored in parts.\<close>

definition private_object :: "type_store \<Rightarrow> symbols \<Rightarrow> cfg \<Rightarrow> symref \<Rightarrow> bool" where
  "private_object ts syms g x \<longleftrightarrow> \<not> escapes syms g x \<and>
     (is_scalar (s_type (syms x)) \<longrightarrow> (\<forall>b \<in> set g. \<forall>s \<in> set (b_code b). stores_to s x \<longrightarrow> whole_object ts syms (st_t s) x))"

abbreviation bit_of :: "symbols \<Rightarrow> symref \<Rightarrow> nat" where
  "bit_of syms x \<equiv> s_index (syms x) - 1"

lemma sym_bit_iff:
  assumes "has_number syms x" "distinct_numbers syms" "sym_bit (s_index (syms y)) = Inr w"
  shows "bit w (bit_of syms x) \<longleftrightarrow> y = x"
proof -
  have w: "w = push_bit (bit_of syms y) 1" "s_index (syms y) \<noteq> 0" using assms(3) by (auto simp: sym_bit_def split: if_splits)
  have "bit w (bit_of syms x) \<longleftrightarrow> bit_of syms y = bit_of syms x"
    using assms(1) unfolding w by (auto simp: bit_exp_iff has_number_def)
  also have "\<dots> \<longleftrightarrow> s_index (syms y) = s_index (syms x)" using w(2) assms(1) by (auto simp: has_number_def)
  also have "\<dots> \<longleftrightarrow> y = x" using assms(2) w(2) by (auto simp: distinct_numbers_def)
  finally show ?thesis .
qed

lemma all_bits_bit: "has_number syms x \<Longrightarrow> bit all_bits (bit_of syms x)"
proof -
  assume "has_number syms x"
  then have "bit_of syms x < 64" by (auto simp: has_number_def)
  moreover have a: "all_bits = -1" by (simp add: all_bits_def)
  ultimately show ?thesis unfolding a by (simp add: bit_minus_1_iff)
qed

lemma set_use_bit_reads:
  assumes "has_number syms x" "distinct_numbers syms" "set_use_bit syms v = Inr w"
  shows "bit w (bit_of syms x) \<longleftrightarrow> operand_reads v x"
proof (cases "v_kind v")
  case DEREF
  then show ?thesis using assms all_bits_bit by (simp add: set_use_bit_def operand_reads_def)
next
  case IMMEDIATE
  then show ?thesis
    using assms sym_bit_iff [OF assms(1,2)]
    by (auto simp: set_use_bit_def operand_reads_def obind_Inr_iff split: option.splits)
next
  case DIRECT
  then show ?thesis
    using assms sym_bit_iff [OF assms(1,2)]
    by (auto simp: set_use_bit_def operand_reads_def obind_Inr_iff deref_sym_def has_number_def split: option.splits if_splits)
next
  case ADDRESS
  then show ?thesis
    using assms sym_bit_iff [OF assms(1,2)]
    by (auto simp: set_use_bit_def operand_reads_def obind_Inr_iff deref_sym_def has_number_def split: option.splits if_splits)
qed

lemma is_binary_two: "is_binary op \<longleftrightarrow> op \<in> two_operands"
  by (cases op) (simp_all add: is_binary_def two_operands_def)

lemma use_reads:
  assumes "has_number syms x" "distinct_numbers syms" "use syms e = Inr w"
  shows "bit w (bit_of syms x) \<longleftrightarrow> expr_reads False e x"
  using assms(3) set_use_bit_reads [OF assms(1,2)]
  by (auto simp: use_def expr_reads_def is_binary_two obind_Inr_iff bit_or_iff split: if_splits)

lemma any_member_true:
  assumes "any_member f ms = Inr b" "\<And>m c. m \<in> set ms \<Longrightarrow> f (m_type m) = Inr c \<Longrightarrow> c = P (m_type m)"
  shows "b = (\<exists>m \<in> set ms. P (m_type m))"
  using assms by (induction ms) (auto simp: obind_Inr_iff split: if_splits)

lemma is_or_has_pointer_true: "is_or_has_pointer_fuel n ts t = Inr b \<Longrightarrow> b = has_pointer ts t"
proof (induction n arbitrary: t b)
  case (Suc n)
  show ?case
  proof (cases "\<not> is_pointer t \<and> is_struct_or_union t")
    case True
    then obtain tree where tree: "get_typetree_handle ts (t_ref t) = Inr tree"
        "any_member (is_or_has_pointer_fuel n ts) (tt_members tree) = Inr b"
      using Suc.prems by (auto simp: obind_Inr_iff)
    have "b = (\<exists>m \<in> set (tt_members tree). has_pointer ts (m_type m))"
      using any_member_true [OF tree(2)] Suc.IH by blast
    then show ?thesis using True tree(1) by (subst has_pointer_iff) auto
  next
    case False
    then show ?thesis using Suc.prems by (subst has_pointer_iff) auto
  qed
qed simp

lemma stmt_use_reads:
  assumes "has_number syms x" "distinct_numbers syms" "stmt_ok ts syms s"
  shows "stmt_use ts syms s (bit_of syms x) \<longleftrightarrow> stmt_reads ts False s x"
proof -
  obtain u where u: "uses ts syms s = Inr u" using assms(3) by (auto simp: stmt_ok_def)
  then obtain r where r: "use syms (st_expr s) = Inr r" by (auto simp: uses_def obind_Inr_iff)
  note e = use_reads [OF assms(1,2) r]
  have "bit u (bit_of syms x) \<longleftrightarrow> stmt_reads ts False s x"
    using u r e set_use_bit_reads [OF assms(1,2), of "(st_t s)\<lparr>v_kind := DIRECT\<rparr>"] all_bits_bit [OF assms(1)]
    by (cases "st_st s")
      (auto simp: uses_def stmt_reads_def obind_Inr_iff bit_or_iff operand_reads_def is_or_has_pointer_def
        dest!: is_or_has_pointer_true split: if_splits, metis bit_or_iff)
  then show ?thesis using u by (simp add: stmt_use_def)
qed

lemma stmt_def_stores:
  assumes "has_number syms x" "distinct_numbers syms" "stmt_ok ts syms s"
  shows "stmt_def syms s (bit_of syms x) \<longleftrightarrow> stores_to s x \<and> is_scalar (s_type (syms x))"
proof -
  obtain d where d: "def syms s = Inr d" using assms(3) by (auto simp: stmt_ok_def)
  then show ?thesis
    using sym_bit_iff [OF assms(1,2)] assms(1)
    by (auto simp: stmt_def_def def_def set_def_bit_def stores_to_def obind_Inr_iff deref_sym_def has_number_def
        split: option.splits if_splits)
qed

lemma expr_use_reads:
  assumes "has_number syms x" "distinct_numbers syms" "uses_expr b \<Longrightarrow> \<exists>u. use syms (b_expr b) = Inr u" "\<not> b_has_jump_table b"
  shows "expr_use syms b (bit_of syms x) \<longleftrightarrow> block_reads False b x"
  using assms use_reads [OF assms(1,2)]
  by (cases "uses_expr b") (auto simp: expr_use_def block_reads_def uses_expr_def)

text \<open>The reads of a private object do not depend on what calls may read.\<close>

lemma private_reads:
  assumes "private_object ts syms g x"
  shows "stmt_reads ts (escapes syms g x) = stmt_reads ts False" "block_reads (escapes syms g x) = block_reads False"
  using assms by (simp_all add: private_object_def fun_eq_iff stmt_reads_def block_reads_def expr_reads_def)

lemma reads_mono:
  "stmt_reads ts False s x \<Longrightarrow> stmt_reads ts esc s x" "block_reads False b x \<Longrightarrow> block_reads esc b x"
  by (auto simp: stmt_reads_def block_reads_def expr_reads_def)

lemma read_later_live:
  assumes "read_later ts syms g x i j" "i \<in> set bl" "graph_ok ts syms bl g" "no_tables bl g"
    and x: "has_number syms x" "distinct_numbers syms" "private_object ts syms g x"
  shows "live ts syms g (bit_of syms x) i j"
  using assms(1,2)
proof (induction rule: read_later.induct)
  case (read_here i j)
  then show ?case
    using stmt_use_reads [OF x(1,2), of ts] assms(3) private_reads(1) [OF x(3)] by (auto simp: graph_ok_def intro: live_use)
next
  case (read_pass i j)
  have ok: "stmt_ok ts syms (b_code (g ! i) ! j)" using read_pass assms(3) by (simp add: graph_ok_def)
  have "g ! i \<in> set g" "b_code (g ! i) ! j \<in> set (b_code (g ! i))" using read_pass by simp_all
  then have "\<not> stmt_def syms (b_code (g ! i) ! j) (bit_of syms x)"
    using read_pass.hyps(3) x(3) unfolding stmt_def_stores [OF x(1,2) ok] overwrites_def private_object_def by blast
  then show ?case using read_pass by (blast intro: live_pass)
next
  case (read_expr i)
  then show ?case
    using expr_use_reads [OF x(1,2), of "g ! i"] assms(3,4) private_reads(2) [OF x(3)]
    by (auto simp: graph_ok_def no_tables_def intro: live_expr)
next
  case (read_jump i t)
  have "t \<in> jumps (g ! i)" using read_jump assms(4) by (simp add: successors_def no_tables_def)
  then show ?case using read_jump assms(3) by (auto simp: graph_ok_def intro: live_jump)
qed

lemma live_read_later:
  assumes "live ts syms g (bit_of syms x) i j" "i \<in> set bl" "graph_ok ts syms bl g" "no_tables bl g"
    and x: "has_number syms x" "distinct_numbers syms" "is_scalar (s_type (syms x))"
  shows "read_later ts syms g x i j"
  using assms(1,2)
proof (induction rule: live.induct)
  case (live_use i j)
  then show ?case
    using stmt_use_reads [OF x(1,2), of ts] assms(3) reads_mono(1) by (auto simp: graph_ok_def intro: read_here)
next
  case (live_pass i j)
  then have "stmt_ok ts syms (b_code (g ! i) ! j)" using assms(3) by (simp add: graph_ok_def)
  then have "\<not> overwrites ts syms (b_code (g ! i) ! j) x"
    using live_pass.hyps(3) stmt_def_stores [OF x(1,2)] x(3) by (auto simp: overwrites_def)
  then show ?case using live_pass by (blast intro: read_pass)
next
  case (live_expr i)
  then show ?case
    using expr_use_reads [OF x(1,2), of "g ! i"] assms(3,4) reads_mono(2)
    by (auto simp: graph_ok_def no_tables_def intro: read_expr)
next
  case (live_jump i t)
  then have "t \<in> successors (g ! i)" "t \<in> set bl" using assms(3) by (auto simp: graph_ok_def successors_def)
  then show ?case using live_jump by (blast intro: read_jump)
qed

section \<open>Properties of the analysis\<close>

text \<open>
  Property C16. Let the serialized blocks be closed under jumps, without jump tables, and let their operands have distinct
  numbers. Then
  \<open>execute_iterative_dataflow\<close>, started from the empty sets of
  \<open>initialize_dataflow\<close>, ends after at most \<open>64 * length bl + 1\<close> passes without a
  failed assertion. Let \<open>x\<close> be an object that other functions cannot reach and, if it is a scalar, that is always stored as a whole.
  The set left behind statement \<open>j\<close> of block \<open>i\<close> contains \<open>x\<close> whenever some path from there reads \<open>x\<close> before
  overwriting it, where an access through a pointer, or passing an address to a function, counts as
  reading every object. For a scalar it contains \<open>x\<close> only then, even if other functions can reach it. The conditions are
  necessary: the code does not follow jump tables, does not see what a call reads, and takes
  a store to a part of a scalar for a store to all of it.
\<close>

theorem liveness_exact:
  assumes "graph_ok ts syms bl g" "no_tables bl g" "distinct_numbers syms" "initialize_dataflow bl g = Inr g0" "64 * length bl < n"
  shows "\<exists>g'. execute_iterative_dataflow n ts syms bl g0 = Some (Inr g') \<and> same_graph g g' \<and>
    (\<forall>i \<in> set bl. \<forall>j < length (b_code (g ! i)). \<forall>x. has_number syms x \<longrightarrow>
       (private_object ts syms g x \<and> read_later ts syms g x i (Suc j) \<longrightarrow> bit (st_out (b_code (g' ! i) ! j)) (bit_of syms x)) \<and>
       (is_scalar (s_type (syms x)) \<and> bit (st_out (b_code (g' ! i) ! j)) (bit_of syms x) \<longrightarrow> read_later ts syms g x i (Suc j)))"
proof -
  obtain g' where g': "execute_iterative_dataflow n ts syms bl g0 = Some (Inr g')" "same_graph g g'"
      "\<And>i j k. i \<in> set bl \<Longrightarrow> j < length (b_code (g ! i)) \<Longrightarrow>
         bit (st_out (b_code (g' ! i) ! j)) k \<longleftrightarrow> live ts syms g k i (Suc j)"
    using liveness_bits [OF assms(1,4,5)] by blast
  then show ?thesis
    using read_later_live [OF _ _ assms(1,2) _ assms(3)] live_read_later [OF _ _ assms(1,2) _ assms(3)]
    by (intro exI [of _ g']) blast
qed

text \<open>
  An example: \<open>x = 7; y = 9; while (x) ;\<close> followed by a return. The variable \<open>x\<close> is
  live behind its assignment, \<open>y\<close> is not.
\<close>

definition ex_symbol :: "nat \<Rightarrow> symbol" where
  "ex_symbol n = \<lparr>s_name = str_init '''', s_type = basic_type__int, s_symtype = SYM_DEFINITION, s_linkage = LINK_NONE,
     s_referenced = False, s_slot = 0, s_index = n, s_n = 0, s_depth = 0, s_stack_offset = 0, s_global_offset = -1,
     s_value = No_Value\<rparr>"

definition ex_syms :: symbols where
  "ex_syms x = ex_symbol (if x < 2 then x + 1 else 0)"

definition ex_var :: "var_kind \<Rightarrow> symref option \<Rightarrow> int \<Rightarrow> var" where
  "ex_var kd sy i = \<lparr>v_kind = kd, v_type = basic_type__int, v_symbol = sy, v_offset = 0,
     v_field_width = 0, v_field_offset = 0, v_lvalue = False, v_imm = imm_of i\<rparr>"

definition ex_expr :: "var \<Rightarrow> expression" where
  "ex_expr v = \<lparr>e_op = IR_OP_CAST, e_type = basic_type__int, e_l = v, e_r = v\<rparr>"

definition ex_assign :: "symref \<Rightarrow> int \<Rightarrow> statement" where
  "ex_assign x i = \<lparr>st_st = IR_ASSIGN, st_out = 0, st_t = ex_var DIRECT (Some x) 0, st_expr = ex_expr (ex_var IMMEDIATE None i)\<rparr>"

definition ex_block :: "statement list \<Rightarrow> var \<Rightarrow> blockref option \<Rightarrow> blockref option \<Rightarrow> block" where
  "ex_block code v j0 j1 = \<lparr>b_label = None, b_code = code, b_expr = ex_expr v, b_jump0 = j0, b_jump1 = j1, b_has_jump_table = False,
     b_table_offset = None, b_jump_table = [], b_body = None, b_has_return_value = False, b_has_init_value = False, b_color = WHITE, b_in = 0, b_out = 0\<rparr>"

definition ex_graph :: cfg where
  "ex_graph = [ex_block [ex_assign 0 7, ex_assign 1 9] (ex_var IMMEDIATE None 0) (Some 1) None,
     ex_block [] (ex_var DIRECT (Some 0) 0) (Some 2) (Some 1),
     ex_block [] (ex_var IMMEDIATE None 0) None None]"

lemmas ex_defs = ex_graph_def ex_block_def ex_assign_def ex_expr_def ex_var_def ex_syms_def ex_symbol_def

lemma ex_graph_ok: "graph_ok empty_types ex_syms [0, 1, 2] ex_graph"
  by (simp add: graph_ok_def ex_defs jumps_def stmt_ok_def uses_expr_def use_def uses_def def_def set_use_bit_def
      set_def_bit_def deref_sym_def sym_bit_def is_binary_def is_object_def is_function_def is_scalar_def basic_type_def zero_type_def oassert_def)

lemma ex_initialize: "initialize_dataflow [0, 1, 2] ex_graph = Inr ex_graph"
  by (simp add: initialize_dataflow_def initialize_block_def get_block_def ex_defs)

lemma ex_distinct: "distinct_numbers ex_syms"
  by (simp add: distinct_numbers_def ex_defs)

lemma ex_no_tables: "no_tables [0, 1, 2] ex_graph"
  by (simp add: no_tables_def ex_defs)

lemma ex_private: "private_object empty_types ex_syms ex_graph x"
  by (auto simp: private_object_def escapes_def operands_def stores_to_def whole_object_def ex_defs)

lemma ex_number: "x < 2 \<Longrightarrow> has_number ex_syms x \<and> is_scalar (s_type (ex_syms x))"
  by (auto simp: has_number_def ex_defs is_object_def is_function_def is_scalar_def basic_type_def zero_type_def type_of_def type_between_def)

lemma ex_read: "read_later empty_types ex_syms ex_graph 0 0 1"
proof -
  have "read_later empty_types ex_syms ex_graph 0 1 (length (b_code (ex_graph ! 1)))"
    by (rule read_expr) (simp_all add: block_reads_def expr_reads_def operand_reads_def ex_defs)
  then have "read_later empty_types ex_syms ex_graph 0 1 0" by (simp add: ex_defs)
  then have "read_later empty_types ex_syms ex_graph 0 0 (length (b_code (ex_graph ! 0)))"
    by (rule read_jump [rotated 2]) (simp_all add: successors_def jumps_def ex_defs)
  then have "read_later empty_types ex_syms ex_graph 0 0 (Suc 1)" by (simp add: ex_defs numeral_2_eq_2)
  then show ?thesis by (rule read_pass [rotated 3]) (simp_all add: overwrites_def stores_to_def ex_defs)
qed

theorem liveness_exact_witness:
  "\<exists>g'. execute_iterative_dataflow 193 empty_types ex_syms [0, 1, 2] ex_graph = Some (Inr g') \<and> same_graph ex_graph g' \<and>
     bit (st_out (b_code (g' ! 0) ! 0)) 0 \<and>
     (bit (st_out (b_code (g' ! 0) ! 1)) 1 \<longleftrightarrow> read_later empty_types ex_syms ex_graph 1 0 2)"
proof -
  have l: "length (b_code (ex_graph ! 0)) = 2" by (simp add: ex_defs)
  have n: "64 * length [0, 1, 2 :: nat] < 193" by simp
  obtain g' where g': "execute_iterative_dataflow 193 empty_types ex_syms [0, 1, 2] ex_graph = Some (Inr g')" "same_graph ex_graph g'"
    and all: "\<And>i j x. i \<in> set [0, 1, 2] \<Longrightarrow> j < length (b_code (ex_graph ! i)) \<Longrightarrow> has_number ex_syms x \<Longrightarrow>
       (private_object empty_types ex_syms ex_graph x \<and> read_later empty_types ex_syms ex_graph x i (Suc j) \<longrightarrow>
          bit (st_out (b_code (g' ! i) ! j)) (bit_of ex_syms x)) \<and>
       (is_scalar (s_type (ex_syms x)) \<and> bit (st_out (b_code (g' ! i) ! j)) (bit_of ex_syms x) \<longrightarrow>
          read_later empty_types ex_syms ex_graph x i (Suc j))"
    using liveness_exact [OF ex_graph_ok ex_no_tables ex_distinct ex_initialize n] by blast
  have bits: "bit (st_out (b_code (g' ! 0) ! j)) (bit_of ex_syms x) \<longleftrightarrow> read_later empty_types ex_syms ex_graph x 0 (Suc j)"
    if "j < 2" "x < 2" for j x
    using all [of 0 j x] ex_private [of x] ex_number [OF that(2)] that(1) l by (simp only: list.set insert_iff simp_thms) blast
  have "bit_of ex_syms 0 = 0" "bit_of ex_syms 1 = 1" by (simp_all add: ex_defs)
  then have "bit (st_out (b_code (g' ! 0) ! 0)) 0" "bit (st_out (b_code (g' ! 0) ! 1)) 1 \<longleftrightarrow> read_later empty_types ex_syms ex_graph 1 0 2"
    using bits [of 0 0] bits [of 1 1] ex_read by (simp_all add: numeral_2_eq_2)
  then show ?thesis using g' by blast
qed

section \<open>Dead stores\<close>

lemma solved_live:
  assumes "graph_ok ts syms bl g" "execute_iterative_dataflow n ts syms bl g = Some (Inr g')"
    and i: "i \<in> set bl" and j: "j < length (b_code (g ! i))" and "live ts syms g k i (Suc j)"
  shows "bit (st_out (b_code (g' ! i) ! j)) k"
proof -
  have s: "same_graph g g'" "solved ts syms bl g'" using execute_solved [OF assms(1,2)] by auto
  have il: "i < length g" using assms(1) i by (simp add: graph_ok_def)
  show ?thesis
    using annotated_same(2) [OF s(1) il _ j, of ts syms "gin g'" k] solved_at_end [OF assms(1) s i assms(5)] s(2) i by (simp add: solved_def)
qed

text \<open>The statements that a pass leaves, when it takes the positions \<open>D\<close> for dead.\<close>

definition without_stores :: "nat set \<Rightarrow> statement list \<Rightarrow> statement list" where
  "without_stores D ss = concat (map (\<lambda>j.
     if j \<in> D then (if has_side_effects (st_expr (ss ! j)) then [(ss ! j)\<lparr>st_st := IR_EXPR\<rparr>] else [])
     else [ss ! j]) [0..<length ss])"

definition dead_positions :: "symbols \<Rightarrow> statement list \<Rightarrow> nat set" where
  "dead_positions syms ss = {j. j < length ss \<and> is_dead_store True syms (ss ! j) = Inr True}"

lemma dead_positions_Cons:
  "dead_positions syms (s # ss) = (if is_dead_store True syms s = Inr True then {0} else {}) \<union> Suc ` dead_positions syms ss"
  unfolding dead_positions_def
proof (intro set_eqI)
  fix j
  show "j \<in> {j. j < length (s # ss) \<and> is_dead_store True syms ((s # ss) ! j) = Inr True} \<longleftrightarrow>
      j \<in> (if is_dead_store True syms s = Inr True then {0} else {}) \<union>
        Suc ` {j. j < length ss \<and> is_dead_store True syms (ss ! j) = Inr True}"
    by (cases j) auto
qed

lemma without_stores_Cons:
  "without_stores (D0 \<union> Suc ` D) (s # ss) =
     (if 0 \<in> D0 then (if has_side_effects (st_expr s) then [s\<lparr>st_st := IR_EXPR\<rparr>] else []) else [s]) @ without_stores D ss"
  if "D0 \<subseteq> {0}"
proof -
  have u: "[0..<length (s # ss)] = 0 # map Suc [0..<length ss]" by (simp add: upt_conv_Cons map_Suc_upt del: upt_Suc)
  have m: "Suc j \<in> D0 \<union> Suc ` D \<longleftrightarrow> j \<in> D" "0 \<in> D0 \<union> Suc ` D \<longleftrightarrow> 0 \<in> D0" for j using that by auto
  show ?thesis unfolding without_stores_def u by (simp only: list.map concat.simps m map_map o_def nth_Cons_0 nth_Cons_Suc)
qed

lemma eliminate_code_positions:
  "eliminate_code True syms ss = Inr (ss', c) \<Longrightarrow>
     ss' = without_stores (dead_positions syms ss) ss \<and> c = card (dead_positions syms ss)"
proof (induction ss arbitrary: ss' c)
  case Nil
  then show ?case by (simp add: without_stores_def dead_positions_def)
next
  case (Cons s ss)
  have fin: "finite (dead_positions syms ss)" by (simp add: dead_positions_def)
  from Cons.prems obtain dead rs d where r: "is_dead_store True syms s = Inr dead" "eliminate_code True syms ss = Inr (rs, d)"
      "(ss', c) = (if dead then ((if has_side_effects (st_expr s) then [s\<lparr>st_st := IR_EXPR\<rparr>] else []) @ rs, d + 1) else (s # rs, d))"
    by (auto simp: obind_Inr_iff split: if_splits)
  have "card (Suc ` dead_positions syms ss) = d" using Cons.IH [OF r(2)] by (simp add: card_image)
  moreover have "rs = without_stores (dead_positions syms ss) ss" using Cons.IH [OF r(2)] by blast
  ultimately show ?case
    using r(1,3) fin without_stores_Cons [of "{0}" "dead_positions syms ss" s ss] without_stores_Cons [of "{}" "dead_positions syms ss" s ss]
    by (cases dead) (auto simp: dead_positions_Cons)
qed

lemma dead_stores_bits:
  assumes "graph_ok ts syms bl g" "execute_iterative_dataflow n ts syms bl g = Some (Inr g')" "i \<in> set bl"
    and "dead_store_elimination True syms g' i = Inr (g'', c)"
  shows "\<exists>D. finite D \<and> c = card D \<and> b_code (g'' ! i) = without_stores D (b_code (g' ! i)) \<and>
    (\<forall>j \<in> D. j < length (b_code (g ! i)) \<and> (\<exists>x. stores_to (b_code (g ! i) ! j) x \<and> s_linkage (syms x) = LINK_NONE \<and>
       has_number syms x \<and> \<not> live ts syms g (bit_of syms x) i (Suc j)))"
proof (rule exI [of _ "dead_positions syms (b_code (g' ! i))"], intro conjI ballI)
  let ?D = "dead_positions syms (b_code (g' ! i))"
  have sg: "same_graph g g'" using execute_solved [OF assms(1,2)] by blast
  have il: "i < length g" using assms(1,3) by (simp add: graph_ok_def)
  show "finite ?D" by (simp add: dead_positions_def)
  from assms(4) obtain code where "eliminate_code True syms (b_code (g' ! i)) = Inr (code, c)"
      "g'' = g'[i := (g' ! i)\<lparr>b_code := code\<rparr>]"
    by (auto simp: dead_store_elimination_def obind_Inr_iff get_block_Inr)
  then show "c = card ?D" "b_code (g'' ! i) = without_stores ?D (b_code (g' ! i))"
    using eliminate_code_positions il same_graph_length [OF sg] by auto
  fix j assume j: "j \<in> ?D"
  have m: "map strip_stmt (b_code (g ! i)) = map strip_stmt (b_code (g' ! i))" using strip_facts(5) [OF same_graph_nth [OF sg il]] .
  then show jl: "j < length (b_code (g ! i))" using j by (metis (no_types, lifting) dead_positions_def length_map mem_Collect_eq)
  have "strip_stmt (b_code (g ! i) ! j) = strip_stmt (b_code (g' ! i) ! j)" using m jl by (metis length_map nth_map)
  then have st: "st_st (b_code (g ! i) ! j) = st_st (b_code (g' ! i) ! j)" "st_t (b_code (g ! i) ! j) = st_t (b_code (g' ! i) ! j)"
    by (metis strip_stmt_def statement.select_convs(1,3) statement.surjective statement.update_convs(2))+
  have "\<not> live ts syms g (s_index (syms x) - 1) i (Suc j)"
    if "sym_bit (s_index (syms x)) = Inr b" "st_out (b_code (g' ! i) ! j) AND b = 0" for x b
    using that solved_live [OF assms(1-3) jl] bit_and_iff [of "st_out (b_code (g' ! i) ! j)" b "s_index (syms x) - 1"]
    by (auto simp: sym_bit_def bit_exp_iff split: if_splits)
  then show "\<exists>x. stores_to (b_code (g ! i) ! j) x \<and> s_linkage (syms x) = LINK_NONE \<and>
       has_number syms x \<and> \<not> live ts syms g (bit_of syms x) i (Suc j)"
    using j st by (auto simp: dead_positions_def is_dead_store_def oand_def obind_Inr_iff is_live_after_def deref_sym_def
        oassert_def stores_to_def has_number_def sym_bit_def split: if_splits option.splits)
qed

text \<open>
  Property C17. Let the serialized blocks have no jump tables, and their symbols distinct numbers. Whenever the iteration has ended,
  from whatever sets it started,
  \<open>dead_store_elimination\<close> takes away the stores of a set of positions and nothing else
  (a call on the right-hand side stays as an expression), and returns their number. Each of them
  is an assignment to an object \<open>x\<close> without linkage. If the address of \<open>x\<close> is not taken, and \<open>x\<close> is not a scalar that is
  stored in parts somewhere, then no path from behind the store, along any edges of the graph, reads \<open>x\<close> before
  overwriting it. The property does not speak of volatile objects, the stores to which are removed
  like others.
\<close>

theorem dead_store_elimination_sound:
  assumes "graph_ok ts syms bl g" "no_tables bl g" "distinct_numbers syms"
    and "execute_iterative_dataflow n ts syms bl g = Some (Inr g')" "i \<in> set bl"
    and "dead_store_elimination True syms g' i = Inr (g'', c)"
  shows "\<exists>D. finite D \<and> c = card D \<and> b_code (g'' ! i) = without_stores D (b_code (g' ! i)) \<and>
    (\<forall>j \<in> D. j < length (b_code (g ! i)) \<and> (\<exists>x. stores_to (b_code (g ! i) ! j) x \<and> s_linkage (syms x) = LINK_NONE \<and>
       (private_object ts syms g x \<longrightarrow> \<not> read_later ts syms g x i (Suc j))))"
proof -
  obtain D where D: "finite D" "c = card D" "b_code (g'' ! i) = without_stores D (b_code (g' ! i))"
      "\<And>j. j \<in> D \<Longrightarrow> j < length (b_code (g ! i)) \<and> (\<exists>x. stores_to (b_code (g ! i) ! j) x \<and> s_linkage (syms x) = LINK_NONE \<and>
         has_number syms x \<and> \<not> live ts syms g (bit_of syms x) i (Suc j))"
    using dead_stores_bits [OF assms(1,4-6)] by blast
  then show ?thesis
    using read_later_live [OF _ assms(5,1,2) _ assms(3)] by (intro exI [of _ D]) blast
qed

definition ex_result :: cfg where
  "ex_result = (case execute_iterative_dataflow 9 empty_types ex_syms [0, 1, 2] ex_graph of Some (Inr g) \<Rightarrow> g | _ \<Rightarrow> [])"

lemma ex_result: "execute_iterative_dataflow 9 empty_types ex_syms [0, 1, 2] ex_graph = Some (Inr ex_result)"
  by code_simp

definition ex_eliminated :: cfg where
  "ex_eliminated = (case dead_store_elimination True ex_syms ex_result 0 of Inr (g, _) \<Rightarrow> g | _ \<Rightarrow> [])"

lemma ex_eliminated: "dead_store_elimination True ex_syms ex_result 0 = Inr (ex_eliminated, 1)"
  by code_simp

lemma ex_stores:
  "stores_to (b_code (ex_graph ! 0) ! 0) x \<longleftrightarrow> x = 0" "stores_to (b_code (ex_graph ! 0) ! 1) x \<longleftrightarrow> x = 1" "length (b_code (ex_graph ! 0)) = 2"
  by (auto simp: stores_to_def ex_defs)

theorem dead_store_elimination_sound_witness:
  "length (b_code (ex_eliminated ! 0)) = 1 \<and> \<not> read_later empty_types ex_syms ex_graph 1 0 2"
proof -
  obtain D where D: "finite D" "1 = card D" "b_code (ex_eliminated ! 0) = without_stores D (b_code (ex_result ! 0))"
      "\<And>j. j \<in> D \<Longrightarrow> j < 2 \<and> (\<exists>x. stores_to (b_code (ex_graph ! 0) ! j) x \<and> \<not> read_later empty_types ex_syms ex_graph x 0 (Suc j))"
    using dead_store_elimination_sound [OF ex_graph_ok ex_no_tables ex_distinct ex_result _ ex_eliminated] ex_private ex_stores(3)
    by (metis list.set_intros(1))
  obtain j where j: "j \<in> D" using D(1,2) by (metis card.empty equals0I zero_neq_one)
  have "j \<noteq> 0" using D(4) [OF j] ex_read ex_stores(1) by (metis One_nat_def)
  then have "j = 1" using D(4) [OF j] by linarith
  then have "\<not> read_later empty_types ex_syms ex_graph 1 0 2"
    using D(4) [OF j] ex_stores(2) by (metis One_nat_def Suc_1)
  moreover have "length (b_code (ex_eliminated ! 0)) = 1" by code_simp
  ultimately show ?thesis by blast
qed

end
