(* ===== verification/Optimizer_Correct.thy ===== *)
theory Optimizer_Correct
  imports Liveness_Correct
begin

text \<open>
  Correctness of the driver of the optimizer: the serialized blocks are exactly
  those that can be reached from the entry without jump tables, the numbering of the symbols keeps
  every assertion of the analysis from failing, and forwarding jumps over empty
  blocks ends exactly when no cycle of empty blocks can be reached.
\<close>

section \<open>Serialization of the control flow graph\<close>

definition edges :: "cfg \<Rightarrow> (blockref \<times> blockref) set" where
  "edges g = {(i, j). i < length g \<and> j \<in> jumps (g ! i)}"

definition in_range :: "cfg \<Rightarrow> bool" where
  "in_range g \<longleftrightarrow> (\<forall>b \<in> set g. jumps b \<subseteq> {..<length g})"

definition recolor :: "blockref set \<Rightarrow> cfg \<Rightarrow> cfg" where
  "recolor B g = map (\<lambda>j. if j \<in> B then (g ! j)\<lparr>b_color := BLACK\<rparr> else g ! j) [0..<length g]"

definition white :: "cfg \<Rightarrow> blockref set" where
  "white g = {j. j < length g \<and> b_color (g ! j) = WHITE}"

lemma length_recolor [simp]: "length (recolor B g) = length g"
  by (simp add: recolor_def)

lemma recolor_nth: "j < length g \<Longrightarrow> recolor B g ! j = (if j \<in> B then (g ! j)\<lparr>b_color := BLACK\<rparr> else g ! j)"
  by (simp add: recolor_def)

lemma jumps_color [simp]: "jumps (b\<lparr>b_color := c\<rparr>) = jumps b"
  by (simp add: jumps_def split: option.splits)

lemma recolor_jumps: "j < length g \<Longrightarrow> jumps (recolor B g ! j) = jumps (g ! j)"
  by (simp add: recolor_nth)

lemma recolor_edges [simp]: "edges (recolor B g) = edges g"
  by (auto simp: edges_def recolor_jumps)

lemma recolor_in_range [simp]: "in_range (recolor B g) = in_range g"
  by (auto simp: in_range_def all_set_conv_all_nth recolor_jumps)

lemma recolor_recolor [simp]: "recolor B (recolor A g) = recolor (A \<union> B) g"
  by (rule nth_equalityI) (auto simp: recolor_nth)

lemma recolor_empty [simp]: "recolor {} g = g"
  by (simp add: recolor_def map_nth)

lemma recolor_update: "i < length g \<Longrightarrow> g[i := (g ! i)\<lparr>b_color := BLACK\<rparr>] = recolor {i} g"
  by (rule nth_equalityI) (auto simp: recolor_nth nth_list_update)

lemma white_recolor [simp]: "white (recolor B g) = white g - B"
  by (auto simp: white_def recolor_nth split: if_splits)

lemma finite_white [simp]: "finite (white g)"
  by (simp add: white_def)

text \<open>What a call of \<open>serialize_basic_blocks\<close> adds to the list: \<open>new\<close>, all reached and with no white target left.\<close>

definition explored :: "cfg \<Rightarrow> blockref set \<Rightarrow> blockref list \<Rightarrow> bool" where
  "explored g R new \<longleftrightarrow> distinct new \<and> set new \<subseteq> white g \<and> set new \<subseteq> (edges g)\<^sup>* `` R \<and>
     (\<forall>j \<in> set new. jumps (g ! j) \<inter> white g \<subseteq> set new) \<and> R \<inter> white g \<subseteq> set new"

lemma explored_append:
  assumes "explored g R xs" "explored (recolor (set xs) g) S ys"
  shows "explored g (R \<union> S) (xs @ ys)"
proof -
  have "j < length g" if "j \<in> set ys" for j using assms(2) that by (auto simp: explored_def white_def)
  then have s: "jumps (recolor (set xs) g ! j) = jumps (g ! j)" if "j \<in> set ys" for j
    using that by (simp add: recolor_jumps)
  have x: "distinct xs" "set xs \<subseteq> white g" "set xs \<subseteq> (edges g)\<^sup>* `` R" "R \<inter> white g \<subseteq> set xs"
      "\<And>j. j \<in> set xs \<Longrightarrow> jumps (g ! j) \<inter> white g \<subseteq> set xs"
    using assms(1) by (auto simp: explored_def)
  have y: "distinct ys" "set ys \<subseteq> white g - set xs" "set ys \<subseteq> (edges g)\<^sup>* `` S" "S \<inter> (white g - set xs) \<subseteq> set ys"
    using assms(2) by (simp_all add: explored_def)
  have z: "jumps (g ! j) \<inter> (white g - set xs) \<subseteq> set ys" if "j \<in> set ys" for j
  proof -
    have "jumps (recolor (set xs) g ! j) \<inter> (white g - set xs) \<subseteq> set ys" using assms(2) that by (simp add: explored_def)
    then show ?thesis using s [OF that] by simp
  qed
  have "(\<forall>j \<in> set (xs @ ys). jumps (g ! j) \<inter> white g \<subseteq> set (xs @ ys))" using x(5) z by fastforce
  moreover have "set (xs @ ys) \<subseteq> (edges g)\<^sup>* `` (R \<union> S)" unfolding Image_Un set_append using x(3) y(3) by blast
  ultimately show ?thesis using x(1,2,4) y(1,2,4) unfolding explored_def by auto
qed

lemma explored_Cons:
  assumes w: "i \<in> white g" and ex: "explored (recolor {i} g) (jumps (g ! i)) xs"
  shows "explored g {i} (i # xs)"
proof -
  have il: "i < length g" using w by (simp add: white_def)
  have x: "distinct xs" "set xs \<subseteq> white g - {i}" "set xs \<subseteq> (edges g)\<^sup>* `` jumps (g ! i)"
      "jumps (g ! i) \<inter> (white g - {i}) \<subseteq> set xs"
    using ex by (simp_all add: explored_def)
  have s: "jumps (g ! j) \<inter> (white g - {i}) \<subseteq> set xs" if "j \<in> set xs" for j
  proof -
    have "j < length g" using that x(2) by (auto simp: white_def)
    moreover have "jumps (recolor {i} g ! j) \<inter> (white g - {i}) \<subseteq> set xs" using ex that by (simp add: explored_def)
    ultimately show ?thesis by (simp add: recolor_jumps)
  qed
  have "(edges g)\<^sup>* `` jumps (g ! i) \<subseteq> (edges g)\<^sup>* `` {i}"
    using il by (auto simp: edges_def intro: converse_rtrancl_into_rtrancl)
  then have "set (i # xs) \<subseteq> (edges g)\<^sup>* `` {i}" using x(3) by auto
  moreover have "\<forall>j \<in> set (i # xs). jumps (g ! j) \<inter> white g \<subseteq> set (i # xs)" using x(4) s by fastforce
  ultimately show ?thesis using w x(1,2) unfolding explored_def by auto
qed

lemma serialize_explores:
  assumes "in_range g" "i < length g" "card (white g) < n"
  shows "\<exists>new. serialize_fuel n i (g, bl) = Inr (recolor (set new) g, bl @ new) \<and> explored g {i} new"
  using assms
proof (induction n arbitrary: i g bl)
  case (Suc n)
  show ?case
  proof (cases "b_color (g ! i) = BLACK")
    case True
    then show ?thesis using Suc.prems(2) by (intro exI [of _ "[]"]) (auto simp: explored_def get_block_def white_def)
  next
    case False
    then have w: "i \<in> white g" using Suc.prems(2) by (cases "b_color (g ! i)") (auto simp: white_def)
    let ?g = "recolor {i} g"
    have c: "card (white (recolor B ?g)) < n" for B
    proof -
      have "card (white g - {i} - B) \<le> card (white g - {i})" by (rule card_mono) auto
      also have "\<dots> < card (white g)" using w by (rule card_Diff1_less [rotated]) simp
      finally have "card (white g - {i} - B) < n" using Suc.prems(3) by linarith
      moreover have "white (recolor B ?g) = white g - {i} - B" by auto
      ultimately show ?thesis by simp
    qed
    have tl: "t < length g" if "t \<in> jumps (g ! i)" for t
      using Suc.prems(1,2) that by (auto simp: in_range_def)
    have ser: "serialize_fuel (Suc n) i (g, bl) =
        (case b_jump0 (g ! i) of None \<Rightarrow> Inr (?g, bl @ [i])
         | Some j \<Rightarrow> obind (serialize_fuel n j (?g, bl @ [i])) (\<lambda>gl1.
             case b_jump1 (g ! i) of None \<Rightarrow> Inr gl1 | Some k \<Rightarrow> serialize_fuel n k gl1))"
      using False Suc.prems(2) by (simp add: get_block_def recolor_update Let_def)
    note first = explored_Cons [OF w]
    show ?thesis
    proof (cases "b_jump0 (g ! i)")
      case None
      then have "explored ?g (jumps (g ! i)) []" by (simp add: explored_def jumps_def)
      then show ?thesis using None ser first by (intro exI [of _ "[i]"]) simp
    next
      case (Some j)
      then obtain xs where xs: "serialize_fuel n j (?g, bl @ [i]) = Inr (recolor (set xs) ?g, (bl @ [i]) @ xs)" "explored ?g {j} xs"
        using Suc.IH [of ?g j "bl @ [i]"] Suc.prems(1) c [of "{}"] tl by (fastforce simp: jumps_def)
      show ?thesis
      proof (cases "b_jump1 (g ! i)")
        case None
        then have "jumps (g ! i) = {j}" using Some by (simp add: jumps_def)
        then show ?thesis using first xs ser Some None by (intro exI [of _ "i # xs"]) (simp add: insert_commute)
      next
        case k: (Some k)
        let ?h = "recolor (set xs) ?g"
        have sc: "jumps (g ! i) = {j} \<union> {k}" using Some k by (auto simp: jumps_def)
        then obtain ys where ys: "serialize_fuel n k (?h, (bl @ [i]) @ xs) = Inr (recolor (set ys) ?h, ((bl @ [i]) @ xs) @ ys)" "explored ?h {k} ys"
          using Suc.IH [of ?h k "(bl @ [i]) @ xs"] Suc.prems(1) c [of "set xs"] tl [of k] by fastforce
        have "explored ?g (jumps (g ! i)) (xs @ ys)" unfolding sc using explored_append [OF xs(2) ys(2)] .
        then show ?thesis
          using first xs ys ser Some k by (intro exI [of _ "i # xs @ ys"]) (simp add: Un_ac)
      qed
    qed
  qed
qed simp

text \<open>The edges of control flow, with those to the entries of jump tables.\<close>

definition flow_edges :: "cfg \<Rightarrow> (blockref \<times> blockref) set" where
  "flow_edges g = {(i, j). i < length g \<and> j \<in> successors (g ! i)}"

lemma flow_edges_no_tables:
  assumes "\<forall>j \<in> (edges g)\<^sup>* `` {i}. \<not> b_has_jump_table (g ! j)"
  shows "(flow_edges g)\<^sup>* `` {i} = (edges g)\<^sup>* `` {i}"
proof (intro equalityI subsetI)
  fix j assume "j \<in> (flow_edges g)\<^sup>* `` {i}"
  then have "(i, j) \<in> (flow_edges g)\<^sup>*" by simp
  then show "j \<in> (edges g)\<^sup>* `` {i}"
  proof (induction rule: rtrancl_induct)
    case (step j k)
    then have "(j, k) \<in> edges g" using assms by (auto simp: flow_edges_def edges_def successors_def)
    then show ?case using step.IH by (auto intro: rtrancl_into_rtrancl)
  qed simp
next
  have "edges g \<subseteq> flow_edges g" by (auto simp: flow_edges_def edges_def successors_def)
  then show "j \<in> (edges g)\<^sup>* `` {i} \<Longrightarrow> j \<in> (flow_edges g)\<^sup>* `` {i}" for j using rtrancl_mono by blast
qed

text \<open>
  Property C18. From a graph of white blocks, \<open>serialize_basic_blocks\<close> returns, and
  the list of blocks holds exactly the blocks that can be reached from the entry
  along the two branch targets \<open>jump[0]\<close> and \<open>jump[1]\<close>, each once; these are black afterwards and nothing else has changed.
  If none of them has a jump table, these are all the blocks that control can reach. The entries of
  jump tables are not followed, so blocks that are reached through a table only are missing.
\<close>

theorem serialize_basic_blocks_reachable:
  assumes "in_range g" "i < length g" "list_all (\<lambda>b. b_color b = WHITE) g"
  shows "\<exists>bl. serialize_basic_blocks g i = Inr (recolor (set bl) g, bl) \<and> distinct bl \<and> set bl = (edges g)\<^sup>* `` {i} \<and>
    ((\<forall>j \<in> set bl. \<not> b_has_jump_table (g ! j)) \<longrightarrow> set bl = (flow_edges g)\<^sup>* `` {i})"
proof -
  have w: "white g = {..<length g}" using assms(3) by (auto simp: white_def list_all_length)
  obtain bl where bl: "serialize_fuel (length g + 1) i (g, []) = Inr (recolor (set bl) g, [] @ bl)" "explored g {i} bl"
    using serialize_explores [OF assms(1,2), of "length g + 1" "[]"] w by auto
  have "j \<in> set bl" if "(i, j) \<in> (edges g)\<^sup>*" for j
    using that
  proof (induction rule: rtrancl_induct)
    case (step j k)
    then have "k \<in> jumps (g ! j)" "k < length g" using assms(1) by (auto simp: edges_def in_range_def)
    then show ?case using bl(2) step.IH w by (auto simp: explored_def)
  qed (use bl(2) w assms(2) in \<open>auto simp: explored_def\<close>)
  then have "set bl = (edges g)\<^sup>* `` {i}" using bl(2) by (auto simp: explored_def)
  then show ?thesis
    using bl flow_edges_no_tables [of g i] unfolding serialize_basic_blocks_def by (intro exI [of _ bl]) (auto simp: explored_def)
qed

theorem serialize_basic_blocks_reachable_witness:
  "\<exists>bl. serialize_basic_blocks ex_graph 1 = Inr (recolor (set bl) ex_graph, bl) \<and> distinct bl \<and> set bl = (flow_edges ex_graph)\<^sup>* `` {1}"
proof -
  have range: "in_range ex_graph" "1 < length ex_graph" "list_all (\<lambda>b. b_color b = WHITE) ex_graph"
    by (auto simp: in_range_def ex_graph_def ex_block_def jumps_def)
  obtain bl where bl: "serialize_basic_blocks ex_graph 1 = Inr (recolor (set bl) ex_graph, bl)" "distinct bl"
      "set bl = (edges ex_graph)\<^sup>* `` {1}" "(\<forall>j \<in> set bl. \<not> b_has_jump_table (ex_graph ! j)) \<longrightarrow> set bl = (flow_edges ex_graph)\<^sup>* `` {1}"
    using serialize_basic_blocks_reachable [OF range] by blast
  have "j < 3 \<Longrightarrow> \<not> b_has_jump_table (ex_graph ! j)" for j
    by (auto simp: ex_graph_def ex_block_def less_Suc_eq numeral_3_eq_3)
  moreover have "j < 3" if "(1, j) \<in> (edges ex_graph)\<^sup>*" for j
    using that
  proof (induction rule: rtrancl_induct)
    case (step j k)
    then have "k < length ex_graph" using range(1) nth_mem unfolding in_range_def edges_def by blast
    then show ?case by (simp add: ex_graph_def)
  qed simp
  ultimately show ?thesis using bl by blast
qed

section \<open>Numbering of symbols\<close>

text \<open>Symbols that differ from the given ones in numbers only, and \<open>l\<close> lists those with a number in order.\<close>

definition numbered :: "symbols \<Rightarrow> numbering \<Rightarrow> bool" where
  "numbered syms0 nb \<longleftrightarrow> distinct (snd nb) \<and> length (snd nb) \<le> 64 \<and>
     (\<forall>x. fst nb x = (syms0 x)\<lparr>s_index := s_index (fst nb x)\<rparr>) \<and>
     (\<forall>p < length (snd nb). s_index (fst nb (snd nb ! p)) = p + 1) \<and>
     (\<forall>x. x \<notin> set (snd nb) \<longrightarrow> s_index (fst nb x) = 0) \<and>
     (\<forall>x \<in> set (snd nb). is_object (s_type (syms0 x)))"

text \<open>
  A part of the enumeration that covers the symbols \<open>S\<close>: it never fails, it returns how
  many symbols it has numbered, and unless all 64 numbers are used up, every object in
  \<open>S\<close> has one.
\<close>

definition counts :: "symbols \<Rightarrow> symref set \<Rightarrow> (numbering \<Rightarrow> (numbering \<times> nat) outcome) \<Rightarrow> bool" where
  "counts syms0 S f \<longleftrightarrow> (\<forall>nb. numbered syms0 nb \<longrightarrow> (\<exists>nb' n. f nb = Inr (nb', n) \<and> numbered syms0 nb' \<and>
     length (snd nb') = length (snd nb) + n \<and> set (snd nb) \<subseteq> set (snd nb') \<and>
     (length (snd nb') < 64 \<longrightarrow> (\<forall>x \<in> S. is_object (s_type (syms0 x)) \<longrightarrow> x \<in> set (snd nb')))))"

lemma numbered_index:
  assumes "numbered syms0 nb"
  shows "x \<in> set (snd nb) \<Longrightarrow> s_index (fst nb x) \<noteq> 0 \<and> s_index (fst nb x) \<le> 64"
    "s_type (fst nb x) = s_type (syms0 x)" "s_symtype (fst nb x) = s_symtype (syms0 x)"
proof -
  have e: "fst nb x = (syms0 x)\<lparr>s_index := s_index (fst nb x)\<rparr>" using assms by (simp add: numbered_def)
  show "s_type (fst nb x) = s_type (syms0 x)" "s_symtype (fst nb x) = s_symtype (syms0 x)"
    by (subst e, simp)+
  assume "x \<in> set (snd nb)"
  then obtain p where "p < length (snd nb)" "snd nb ! p = x" by (metis in_set_conv_nth)
  then show "s_index (fst nb x) \<noteq> 0 \<and> s_index (fst nb x) \<le> 64" using assms by (auto simp: numbered_def)
qed

lemma counts_skip [simp]: "counts syms0 {} (\<lambda>nb. Inr (nb, 0))"
  by (simp add: counts_def)

lemma counts_symbol: "counts syms0 (set_option sy) (count_symbol sy)"
  unfolding counts_def
proof (intro allI impI)
  fix nb assume nb: "numbered syms0 nb"
  obtain syms l where p: "nb = (syms, l)" by (cases nb)
  show "\<exists>nb' n. count_symbol sy nb = Inr (nb', n) \<and> numbered syms0 nb' \<and> length (snd nb') = length (snd nb) + n \<and>
      set (snd nb) \<subseteq> set (snd nb') \<and>
      (length (snd nb') < 64 \<longrightarrow> (\<forall>x \<in> set_option sy. is_object (s_type (syms0 x)) \<longrightarrow> x \<in> set (snd nb')))"
  proof (cases sy)
    case None
    then show ?thesis using nb by (simp add: count_symbol_def)
  next
    case (Some x)
    have t: "s_type (syms x) = s_type (syms0 x)" using numbered_index(2) [OF nb] p by simp
    have l: "x \<in> set l \<longleftrightarrow> s_index (syms x) \<noteq> 0" using nb numbered_index(1) [OF nb, of x] p by (auto simp: numbered_def)
    show ?thesis
    proof (cases "is_object (s_type (syms x)) \<and> s_index (syms x) = 0 \<and> length l < 64")
      case True
      let ?nb = "(syms(x := (syms x)\<lparr>s_index := length l + 1\<rparr>), l @ [x])"
      have x: "x \<notin> set l" using True l by blast
      have "s_index (fst ?nb (snd ?nb ! q)) = q + 1" if "q < length (snd ?nb)" for q
        using nb p x that by (cases "q < length l") (auto simp: numbered_def nth_append less_Suc_eq)
      moreover have "fst ?nb y = (syms0 y)\<lparr>s_index := s_index (fst ?nb y)\<rparr>" for y
      proof -
        have "syms y = (syms0 y)\<lparr>s_index := s_index (syms y)\<rparr>" using nb p by (simp add: numbered_def)
        then show ?thesis by (cases "syms y", cases "syms0 y") auto
      qed
      ultimately have "numbered syms0 ?nb" using nb p x True t by (auto simp: numbered_def)
      then show ?thesis using True p Some by (intro exI [of _ ?nb] exI [of _ 1]) (auto simp: count_symbol_def)
    next
      case False
      have "s_index (syms x) = 0" if "\<not> is_object (s_type (syms x))" using that l nb p t by (auto simp: numbered_def)
      then have "count_symbol sy nb = Inr (nb, 0)"
        using False p Some by (auto simp: count_symbol_def oassert_def Let_def)
      then show ?thesis using nb False p Some l t by (intro exI [of _ nb] exI [of _ 0]) auto
    qed
  qed
qed

lemma counts_seq:
  assumes "counts syms0 S f" "counts syms0 T h"
  shows "counts syms0 (S \<union> T) (\<lambda>nb. obind (f nb) (\<lambda>(nb1, n). obind (h nb1) (\<lambda>(nb2, k). Inr (nb2, n + k))))"
  unfolding counts_def
proof (intro allI impI)
  fix nb assume "numbered syms0 nb"
  then obtain nb1 n where 1: "f nb = Inr (nb1, n)" "numbered syms0 nb1" "length (snd nb1) = length (snd nb) + n"
      "set (snd nb) \<subseteq> set (snd nb1)" "length (snd nb1) < 64 \<Longrightarrow> \<forall>x \<in> S. is_object (s_type (syms0 x)) \<longrightarrow> x \<in> set (snd nb1)"
    using assms(1) unfolding counts_def by blast
  then obtain nb2 k where 2: "h nb1 = Inr (nb2, k)" "numbered syms0 nb2" "length (snd nb2) = length (snd nb1) + k"
      "set (snd nb1) \<subseteq> set (snd nb2)" "length (snd nb2) < 64 \<Longrightarrow> \<forall>x \<in> T. is_object (s_type (syms0 x)) \<longrightarrow> x \<in> set (snd nb2)"
    using assms(2) unfolding counts_def by blast
  have "\<forall>x \<in> S \<union> T. is_object (s_type (syms0 x)) \<longrightarrow> x \<in> set (snd nb2)" if "length (snd nb2) < 64"
    using 1(5) 2(3,4,5) that by auto
  then show "\<exists>nb' m. obind (f nb) (\<lambda>(nb1, n). obind (h nb1) (\<lambda>(nb2, k). Inr (nb2, n + k))) = Inr (nb', m) \<and>
      numbered syms0 nb' \<and> length (snd nb') = length (snd nb) + m \<and> set (snd nb) \<subseteq> set (snd nb') \<and>
      (length (snd nb') < 64 \<longrightarrow> (\<forall>x \<in> S \<union> T. is_object (s_type (syms0 x)) \<longrightarrow> x \<in> set (snd nb')))"
    using 1(1-4) 2(1-4) by (intro exI [of _ nb2] exI [of _ "n + k"]) auto
qed

definition expr_symbols :: "expression \<Rightarrow> symref set" where
  "expr_symbols e = (if is_binary (e_op e) then set_option (v_symbol (e_r e)) else {}) \<union> set_option (v_symbol (e_l e))"

definition stmt_symbols :: "statement \<Rightarrow> symref set" where
  "stmt_symbols s = expr_symbols (st_expr s) \<union> (if st_st s = IR_ASSIGN then set_option (v_symbol (st_t s)) else {})"

definition block_symbols :: "block \<Rightarrow> symref set" where
  "block_symbols b = \<Union> (stmt_symbols ` set (b_code b)) \<union> (if uses_expr b then expr_symbols (b_expr b) else {})"

lemma counts_expr: "counts syms0 (expr_symbols e) (count_expr e)"
proof (cases "is_binary (e_op e)")
  case True
  then show ?thesis
    using counts_seq [OF counts_symbol counts_symbol, of syms0 "v_symbol (e_r e)" "v_symbol (e_l e)"]
    by (simp add: expr_symbols_def count_expr_def [abs_def])
next
  case False
  then show ?thesis
    using counts_seq [OF counts_skip counts_symbol, of syms0 "v_symbol (e_l e)"]
    by (simp add: expr_symbols_def count_expr_def [abs_def])
qed

lemma counts_if: "counts syms0 S f \<Longrightarrow> counts syms0 (if c then S else {}) (\<lambda>nb. if c then f nb else Inr (nb, 0))"
  by simp

lemma count_code_seq:
  "count_code (s # ss) nb =
     obind (obind (count_expr (st_expr s) nb) (\<lambda>(nb1, n).
       obind (if st_st s = IR_ASSIGN then count_symbol (v_symbol (st_t s)) nb1 else Inr (nb1, 0)) (\<lambda>(nb2, k). Inr (nb2, n + k))))
       (\<lambda>(nb2, n). obind (count_code ss nb2) (\<lambda>(nb3, k). Inr (nb3, n + k)))"
  unfolding count_code.simps obind_assoc
  by (rule obind_cong [OF refl], clarsimp simp: obind_assoc, rule obind_cong [OF refl], clarsimp)

lemma counts_code: "counts syms0 (\<Union> (stmt_symbols ` set ss)) (count_code ss)"
proof (induction ss)
  case Nil
  then show ?case by (simp add: counts_def)
next
  case (Cons s ss)
  show ?case
    using counts_seq [OF counts_seq [OF counts_expr counts_if [OF counts_symbol]] Cons.IH,
        of "st_expr s" "st_st s = IR_ASSIGN" "v_symbol (st_t s)"]
    by (simp add: count_code_seq [abs_def] stmt_symbols_def cong: if_cong)
qed

lemma counts_block: "i < length g \<Longrightarrow> counts syms0 (block_symbols (g ! i)) (\<lambda>nb. enumerate_used_symbols g nb i)"
  using counts_seq [OF counts_code counts_if [OF counts_expr], of syms0 "b_code (g ! i)" "uses_expr (g ! i)" "b_expr (g ! i)"]
  by (simp add: enumerate_used_symbols_def get_block_def block_symbols_def)

lemma counts_traverse:
  "\<forall>i \<in> set bl. i < length g \<Longrightarrow>
     counts syms0 (\<Union>i \<in> set bl. block_symbols (g ! i)) (traverse (enumerate_used_symbols g) bl)"
proof (induction bl)
  case Nil
  then show ?case by (simp add: counts_def)
next
  case (Cons i bl)
  then show ?case
    using counts_seq [OF counts_block Cons.IH, of i] by simp
qed

section \<open>The assertions of the analysis\<close>

text \<open>Operands as the front end builds them: every variable has its symbol, and only strings and constants are immediate.\<close>

definition opnd_wf :: "symbols \<Rightarrow> var \<Rightarrow> bool" where
  "opnd_wf syms v \<longleftrightarrow>
     (case v_kind v of
        DEREF \<Rightarrow> True
      | IMMEDIATE \<Rightarrow>
          (case v_symbol v of None \<Rightarrow> True
           | Some x \<Rightarrow> s_symtype (syms x) \<in> {SYM_STRING_VALUE, SYM_CONSTANT} \<and> is_object (s_type (syms x)))
      | _ \<Rightarrow> v_symbol v \<noteq> None)"

definition expr_wf :: "symbols \<Rightarrow> expression \<Rightarrow> bool" where
  "expr_wf syms e \<longleftrightarrow> opnd_wf syms (e_l e) \<and> (is_binary (e_op e) \<longrightarrow> opnd_wf syms (e_r e))"

definition stmt_wf :: "type_store \<Rightarrow> symbols \<Rightarrow> statement \<Rightarrow> bool" where
  "stmt_wf ts syms s \<longleftrightarrow> expr_wf syms (st_expr s) \<and>
     (st_st s = IR_ASSIGN \<and> v_kind (st_t s) = DIRECT \<longrightarrow> v_symbol (st_t s) \<noteq> None) \<and>
     (st_st s = IR_PARAM \<longrightarrow> isl (is_or_has_pointer ts (e_type (st_expr s))) = False)"

definition block_wf :: "type_store \<Rightarrow> symbols \<Rightarrow> block \<Rightarrow> bool" where
  "block_wf ts syms b \<longleftrightarrow> (b_jump0 b = None \<longrightarrow> b_jump1 b = None) \<and> list_all (stmt_wf ts syms) (b_code b) \<and>
     (uses_expr b \<longrightarrow> expr_wf syms (b_expr b))"

lemma set_use_bit_returns:
  assumes "numbered syms0 nb" "opnd_wf syms0 v"
    and "\<forall>x \<in> set_option (v_symbol v). is_object (s_type (syms0 x)) \<longrightarrow> x \<in> set (snd nb)"
  shows "\<exists>w. set_use_bit (fst nb) v = Inr w"
proof (cases "v_symbol v")
  case None
  then show ?thesis using assms(2) by (cases "v_kind v") (auto simp: opnd_wf_def set_use_bit_def)
next
  case (Some x)
  then show ?thesis
    using assms(2,3) numbered_index [OF assms(1), of x]
    by (cases "v_kind v") (auto simp: opnd_wf_def set_use_bit_def deref_sym_def oassert_def sym_bit_def)
qed

lemma set_def_bit_returns:
  assumes "numbered syms0 nb" "v_kind v = DIRECT \<Longrightarrow> v_symbol v \<noteq> None"
  shows "\<exists>w. set_def_bit (fst nb) v = Inr w"
proof (cases "v_symbol v")
  case (Some x)
  have "s_index (fst nb x) \<le> 64"
    using numbered_index(1) [OF assms(1), of x] assms(1) by (cases "x \<in> set (snd nb)") (auto simp: numbered_def)
  then show ?thesis using Some by (auto simp: set_def_bit_def deref_sym_def sym_bit_def)
qed (use assms(2) in \<open>auto simp: set_def_bit_def\<close>)

lemma use_returns:
  assumes "numbered syms0 nb" "expr_wf syms0 e"
    and "\<forall>x \<in> expr_symbols e. is_object (s_type (syms0 x)) \<longrightarrow> x \<in> set (snd nb)"
  shows "\<exists>w. use (fst nb) e = Inr w"
  using set_use_bit_returns [OF assms(1), of "e_l e"] set_use_bit_returns [OF assms(1), of "e_r e"] assms(2,3)
  by (auto simp: use_def expr_wf_def expr_symbols_def)

lemma stmt_ok_numbered:
  assumes "numbered syms0 nb" "stmt_wf ts syms0 s"
    and "\<forall>x \<in> stmt_symbols s. is_object (s_type (syms0 x)) \<longrightarrow> x \<in> set (snd nb)"
  shows "stmt_ok ts (fst nb) s"
proof -
  obtain r where r: "use (fst nb) (st_expr s) = Inr r"
    using use_returns [OF assms(1), of "st_expr s"] assms(2,3) by (auto simp: stmt_wf_def stmt_symbols_def)
  have "\<exists>w. set_use_bit (fst nb) ((st_t s)\<lparr>v_kind := DIRECT\<rparr>) = Inr w" if "st_st s = IR_ASSIGN" "v_symbol (st_t s) \<noteq> None"
    using that assms(3) by (intro set_use_bit_returns [OF assms(1)]) (auto simp: opnd_wf_def stmt_symbols_def)
  moreover have "\<exists>p. is_or_has_pointer ts (e_type (st_expr s)) = Inr p" if "st_st s = IR_PARAM"
    using that assms(2) by (cases "is_or_has_pointer ts (e_type (st_expr s))") (auto simp: stmt_wf_def)
  ultimately have "\<exists>u. uses ts (fst nb) s = Inr u"
    using r by (cases "st_st s") (auto simp: uses_def)
  moreover have "\<exists>d. def (fst nb) s = Inr d"
    using set_def_bit_returns [OF assms(1), of "st_t s"] assms(2) by (auto simp: def_def stmt_wf_def)
  ultimately show ?thesis by (simp add: stmt_ok_def)
qed

lemma reset_numbered:
  assumes "numbered syms0 (syms, l)" "\<forall>x. s_index (syms0 x) = 0"
  shows "reset_symbol_indexes l syms = Inr syms0"
proof -
  have "reset_symbol_indexes ys s = Inr syms0"
    if "distinct ys" "\<forall>x \<in> set ys. s_index (s x) \<noteq> 0" "\<forall>x. s x = (syms0 x)\<lparr>s_index := s_index (s x)\<rparr>"
      "\<forall>x. x \<notin> set ys \<longrightarrow> s_index (s x) = 0" for ys s
    using that
  proof (induction ys arbitrary: s)
    case Nil
    then have "s x = syms0 x" for x using assms(2) by (metis list.set(1) empty_iff symbol.surjective symbol.update_convs(7))
    then show ?case by auto
  next
    case (Cons y ys)
    let ?s = "s(y := (s y)\<lparr>s_index := 0\<rparr>)"
    have "distinct ys" "\<forall>x \<in> set ys. s_index (?s x) \<noteq> 0" using Cons.prems(1,2) by auto
    moreover have "\<forall>x. ?s x = (syms0 x)\<lparr>s_index := s_index (?s x)\<rparr>"
    proof
      fix x
      have "s x = (syms0 x)\<lparr>s_index := s_index (s x)\<rparr>" using Cons.prems(3) by blast
      then show "?s x = (syms0 x)\<lparr>s_index := s_index (?s x)\<rparr>" by (cases "s x", cases "syms0 x") auto
    qed
    moreover have "\<forall>x. x \<notin> set ys \<longrightarrow> s_index (?s x) = 0" using Cons.prems(4) by auto
    ultimately have "reset_symbol_indexes ys ?s = Inr syms0" by (rule Cons.IH)
    then show ?case using Cons.prems(2) by (simp add: oassert_def)
  qed
  then show ?thesis using assms(1) numbered_index(1) [OF assms(1)] by (simp add: numbered_def)
qed

text \<open>
  Property C19. For blocks as the front end builds them, over symbols without numbers, the
  enumeration never fails; it gives the numbers from 1 on to distinct objects and returns how many.
  When fewer than 64 were given, no assertion of the liveness analysis can fail on these
  blocks. \<open>reset_symbol_indexes\<close> then restores the symbols as they were.
\<close>

theorem enumeration_supports_analysis:
  assumes "\<forall>x. s_index (syms x) = 0"
    and "\<forall>i \<in> set bl. i < length g \<and> block_wf ts syms (g ! i) \<and> jumps (g ! i) \<subseteq> set bl"
  shows "\<exists>syms' l. traverse (enumerate_used_symbols g) bl (syms, []) = Inr ((syms', l), length l) \<and> distinct l \<and>
    (\<forall>p < length l. s_index (syms' (l ! p)) = p + 1) \<and> (\<forall>x. x \<notin> set l \<longrightarrow> syms' x = syms x) \<and>
    (length l < 64 \<longrightarrow> graph_ok ts syms' bl g) \<and> reset_symbol_indexes l syms' = Inr syms"
proof -
  have "numbered syms (syms, [])" using assms(1) by (simp add: numbered_def)
  moreover have "counts syms (\<Union>i \<in> set bl. block_symbols (g ! i)) (traverse (enumerate_used_symbols g) bl)"
    using assms(2) by (intro counts_traverse) blast
  ultimately obtain nb n where nb: "traverse (enumerate_used_symbols g) bl (syms, []) = Inr (nb, n)" "numbered syms nb"
      "length (snd nb) = length (snd (syms, [] :: symref list)) + n"
      "length (snd nb) < 64 \<longrightarrow> (\<forall>x \<in> (\<Union>i \<in> set bl. block_symbols (g ! i)). is_object (s_type (syms x)) \<longrightarrow> x \<in> set (snd nb))"
    unfolding counts_def by blast
  obtain syms' l where "nb = (syms', l)" by (cases nb)
  with nb have r: "traverse (enumerate_used_symbols g) bl (syms, []) = Inr ((syms', l), n)"
      "numbered syms (syms', l)" "length l = n"
      "length l < 64 \<Longrightarrow> \<forall>x \<in> (\<Union>i \<in> set bl. block_symbols (g ! i)). is_object (s_type (syms x)) \<longrightarrow> x \<in> set l"
    by simp_all
  have "graph_ok ts syms' bl g" if "length l < 64"
    unfolding graph_ok_def
  proof (intro ballI)
    fix i assume i: "i \<in> set bl"
    have c: "\<forall>x \<in> block_symbols (g ! i). is_object (s_type (syms x)) \<longrightarrow> x \<in> set l" using r(4) that i by blast
    have "stmt_ok ts syms' s" if "s \<in> set (b_code (g ! i))" for s
      using stmt_ok_numbered [OF r(2), of ts s] c that assms(2) i by (auto simp: block_wf_def block_symbols_def list_all_iff)
    moreover have "\<exists>u. use syms' (b_expr (g ! i)) = Inr u" if "uses_expr (g ! i)"
      using use_returns [OF r(2), of "b_expr (g ! i)"] c that assms(2) i by (auto simp: block_wf_def block_symbols_def)
    ultimately show "i < length g \<and> jumps (g ! i) \<subseteq> set bl \<and> (b_jump0 (g ! i) = None \<longrightarrow> b_jump1 (g ! i) = None) \<and>
        (\<forall>s \<in> set (b_code (g ! i)). stmt_ok ts syms' s) \<and> (uses_expr (g ! i) \<longrightarrow> (\<exists>u. use syms' (b_expr (g ! i)) = Inr u))"
      using assms(2) i by (auto simp: block_wf_def)
  qed
  moreover have "syms' x = syms x" if "x \<notin> set l" for x
    using r(2) that assms(1) by (simp add: numbered_def) (metis symbol.surjective symbol.update_convs(7))
  ultimately show ?thesis using r reset_numbered [OF r(2) assms(1)] by (auto simp: numbered_def)
qed

theorem enumeration_supports_analysis_witness:
  "\<exists>syms' l. traverse (enumerate_used_symbols ex_graph) [0, 1, 2] (\<lambda>x. ex_symbol 0, []) = Inr ((syms', l), length l) \<and>
     distinct l \<and> reset_symbol_indexes l syms' = Inr (\<lambda>x. ex_symbol 0)"
  using enumeration_supports_analysis [of "\<lambda>x. ex_symbol 0" "[0, 1, 2]" ex_graph empty_types]
  by (force simp: ex_defs block_wf_def stmt_wf_def expr_wf_def opnd_wf_def is_binary_def jumps_def uses_expr_def)

section \<open>Jumps over empty blocks\<close>

text \<open>The block that the loop of \<open>skip_empty_blocks\<close> goes on with.\<close>

definition forward :: "cfg \<Rightarrow> (blockref \<times> blockref) set" where
  "forward g = {(j, k). j < length g \<and> b_code (g ! j) = [] \<and> b_jump1 (g ! j) = None \<and> b_jump0 (g ! j) = Some k}"

lemma forward_fun: "(j, k) \<in> forward g \<Longrightarrow> (j, k') \<in> forward g \<Longrightarrow> k = k'"
  by (auto simp: forward_def)

lemma forward_range: "in_range g \<Longrightarrow> (j, k) \<in> forward g \<Longrightarrow> j < length g \<and> k < length g"
  by (auto simp: forward_def in_range_def jumps_def all_set_conv_all_nth split: option.splits)

lemma skip_target_step: "(j, k) \<in> forward g \<Longrightarrow> skip_target (Suc n) g j = skip_target n g k"
  by (auto simp: forward_def get_block_def)

lemma skip_target_stop: "j < length g \<Longrightarrow> \<nexists>k. (j, k) \<in> forward g \<Longrightarrow> skip_target (Suc n) g j = Some (Inr j)"
  by (cases "b_jump0 (g ! j)") (auto simp: forward_def get_block_def)

lemma forward_image: "in_range g \<Longrightarrow> (forward g)\<^sup>+ `` {j} \<subseteq> {..<length g}"
  using forward_range by (auto dest: tranclD2)

lemma skip_target_cycle: "(j, c) \<in> (forward g)\<^sup>* \<Longrightarrow> (c, c) \<in> (forward g)\<^sup>+ \<Longrightarrow> skip_target n g j = None"
proof (induction n arbitrary: j)
  case (Suc n)
  obtain k where k: "(j, k) \<in> forward g" "(k, c) \<in> (forward g)\<^sup>*"
    using Suc.prems by (metis converse_rtranclE tranclD)
  then show ?case using Suc.IH Suc.prems(2) skip_target_step by metis
qed simp

lemma skip_target_ends:
  assumes "in_range g" "j < length g" "\<And>c. (j, c) \<in> (forward g)\<^sup>* \<Longrightarrow> (c, c) \<notin> (forward g)\<^sup>+"
    and "card ((forward g)\<^sup>+ `` {j}) < n"
  shows "\<exists>k. skip_target n g j = Some (Inr k) \<and> (j, k) \<in> (forward g)\<^sup>* \<and> k < length g \<and> (\<forall>m. (k, m) \<notin> forward g)"
  using assms(2-)
proof (induction n arbitrary: j)
  case (Suc n)
  show ?case
  proof (cases "\<exists>k. (j, k) \<in> forward g")
    case False
    then show ?thesis using skip_target_stop Suc.prems(1) by blast
  next
    case True
    then obtain k where k: "(j, k) \<in> forward g" by blast
    have kl: "k < length g" using forward_range [OF assms(1) k] by simp
    have sub: "(forward g)\<^sup>+ `` {k} \<subseteq> (forward g)\<^sup>+ `` {j}" using k by (auto intro: trancl_into_trancl2)
    have "k \<in> (forward g)\<^sup>+ `` {j}" using k by blast
    moreover have "k \<notin> (forward g)\<^sup>+ `` {k}" using Suc.prems(2) k by blast
    ultimately have "(forward g)\<^sup>+ `` {k} \<subset> (forward g)\<^sup>+ `` {j}" using sub by blast
    moreover have "finite ((forward g)\<^sup>+ `` {j})" using forward_image [OF assms(1)] by (rule finite_subset) simp
    ultimately have "card ((forward g)\<^sup>+ `` {k}) < card ((forward g)\<^sup>+ `` {j})" by (simp add: psubset_card_mono)
    then have "card ((forward g)\<^sup>+ `` {k}) < n" using Suc.prems(3) by linarith
    then obtain m where "skip_target n g k = Some (Inr m)" "(k, m) \<in> (forward g)\<^sup>*" "m < length g" "\<forall>x. (m, x) \<notin> forward g"
      using Suc.IH [OF kl _ \<open>card _ < n\<close>] Suc.prems(2) converse_rtrancl_into_rtrancl [OF k] by blast
    then show ?thesis using skip_target_step [OF k] converse_rtrancl_into_rtrancl [OF k] by simp
  qed
qed simp

text \<open>
  Property C20. Following jumps over empty blocks ends if and only if no cycle
  of empty blocks can be reached. It then needs no more steps than there are
  blocks, and ends at the first block on the way that has code, decides a branch
  or leaves the function.
\<close>

theorem skip_target_ends_iff:
  assumes "in_range g" "j < length g"
  shows "if \<exists>c. (j, c) \<in> (forward g)\<^sup>* \<and> (c, c) \<in> (forward g)\<^sup>+ then \<forall>n. skip_target n g j = None
    else \<exists>k. skip_target (length g + 1) g j = Some (Inr k) \<and> (j, k) \<in> (forward g)\<^sup>* \<and> k < length g \<and>
      (b_code (g ! k) \<noteq> [] \<or> b_jump1 (g ! k) \<noteq> None \<or> b_jump0 (g ! k) = None)"
proof (cases "\<exists>c. (j, c) \<in> (forward g)\<^sup>* \<and> (c, c) \<in> (forward g)\<^sup>+")
  case True
  then show ?thesis using skip_target_cycle by auto
next
  case False
  have "card ((forward g)\<^sup>+ `` {j}) < length g + 1"
    using card_mono [OF _ forward_image [OF assms(1)]] by (metis card_lessThan finite_lessThan less_add_one le_less_trans)
  then obtain k where "skip_target (length g + 1) g j = Some (Inr k)" "(j, k) \<in> (forward g)\<^sup>*" "k < length g" "\<forall>m. (k, m) \<notin> forward g"
    using skip_target_ends [OF assms, of "length g + 1"] False by blast
  moreover from this have "b_code (g ! k) \<noteq> [] \<or> b_jump1 (g ! k) \<noteq> None \<or> b_jump0 (g ! k) = None"
    by (auto simp: forward_def)
  ultimately show ?thesis unfolding if_not_P [OF False] by blast
qed

text \<open>An infinite loop with an empty body, \<open>while (1) ;\<close>: the loop and its body are empty blocks.\<close>

definition ex_empty_loop :: cfg where
  "ex_empty_loop = [ex_block [] (ex_var IMMEDIATE None 1) (Some 1) None, ex_block [] (ex_var IMMEDIATE None 1) (Some 0) None]"

theorem skip_target_ends_iff_witness:
  "\<forall>n. skip_target n ex_empty_loop 0 = None"
proof -
  have f: "(0, 1) \<in> forward ex_empty_loop" "(1, 0) \<in> forward ex_empty_loop"
    by (simp_all add: forward_def ex_empty_loop_def ex_block_def)
  then have "(0, 0) \<in> (forward ex_empty_loop)\<^sup>+" by (meson trancl.simps)
  moreover have "in_range ex_empty_loop" "0 < length ex_empty_loop"
    by (simp_all add: in_range_def ex_empty_loop_def ex_block_def jumps_def)
  ultimately show ?thesis using skip_target_ends_iff [of ex_empty_loop 0] by (auto split: if_splits)
qed

end
