(* ===== verification/Switch.thy ===== *)
theory Switch
  imports IR
begin

text \<open>
  The lowering of switch statements, \<open>src/parser/statement.c\<close>: up to four cases
  become a chain of comparisons; more cases are sorted and become a jump table
  when neighbouring values lie close together, and a binary search otherwise.
  The comparison blocks that the code creates form a tree, since each is the
  target of one jump: the model returns this tree, with the labels of the cases
  at its leaves. A comparison has its operator, its operands in their order, and its
  two targets, as the code sets them; what is executed is then as for every block: a
  comparison that holds jumps to \<open>jump[1]\<close>, and one that does not to \<open>jump[0]\<close>.
\<close>

section \<open>Cases and generated code\<close>

record switch_case =
  sc_label :: blockref
  sc_value :: var

record switch_context =
  default_label :: "blockref option"
  cases :: "switch_case list"

definition add_switch_case :: "switch_context \<Rightarrow> blockref \<Rightarrow> var \<Rightarrow> switch_context" where
  "add_switch_case ctx lab v = ctx\<lparr>cases := cases ctx @ [\<lparr>sc_label = lab, sc_value = v\<rparr>]\<rparr>"

abbreviation imm_i :: "switch_case \<Rightarrow> int" where
  "imm_i sc \<equiv> val_i (v_imm (sc_value sc))"

text \<open>
  The operands of comparisons: a constant, the value of the switch, or the value checked for a jump table.
\<close>

datatype switch_operand = Const int | Switch_Value | Check

text \<open>
  A block that compares has an operator, a left and a right operand, and the targets \<open>jump[0]\<close> and
  \<open>jump[1]\<close>, in this order. The block of a jump table selects by the value of its operand among its entries, which
  have an index and a target.
\<close>

datatype switch_tree =
    Goto blockref
  | Compare optype switch_operand switch_operand switch_tree switch_tree
  | Jump_Table switch_operand "(int \<times> blockref) list"

text \<open>
  What is computed for the check: nothing, a difference or a sum of the value and a constant.
\<close>

datatype switch_check = No_Check | Check_Expr optype switch_operand switch_operand

record switch_code =
  sw_check :: switch_check
  sw_entry :: switch_tree

section \<open>Arithmetic on int\<close>

definition int_of_long :: "int \<Rightarrow> int" where
  "int_of_long x = signed_take_bit 31 x"

definition is_int_value :: "int \<Rightarrow> bool" where
  "is_int_value x \<longleftrightarrow> - (2 ^ 31) \<le> x \<and> x < 2 ^ 31"

text \<open>A result of \<open>int\<close> arithmetic; overflow is undefined.\<close>

definition c_int :: "int \<Rightarrow> int outcome" where
  "c_int x = (if is_int_value x then Inr x else Inl Undefined_Behaviour)"

definition get_case :: "switch_case list \<Rightarrow> nat \<Rightarrow> switch_case outcome" where
  "get_case xs i = (if i < length xs then Inr (xs ! i) else Inl Undefined_Behaviour)"

section \<open>Binary search\<close>

text \<open>The shortcut for a single case whose neighbours are two apart.\<close>

definition between_neighbours :: "switch_case list \<Rightarrow> nat \<Rightarrow> nat \<Rightarrow> switch_case \<Rightarrow> bool outcome" where
  "between_neighbours srt start end sc =
     (if end - start = 1 \<and> 0 < start \<and> end < length srt then
        obind (get_case srt (start - 1)) (\<lambda>p. obind (get_case srt end) (\<lambda>n.
          let pv = int_of_long (imm_i p); nv = int_of_long (imm_i n) in
          obind (c_int (nv - 2)) (\<lambda>m.
            if pv = m then
              obind (c_int (pv + 1)) (\<lambda>a. obind (oassert (a = imm_i sc)) (\<lambda>_.
              obind (c_int (nv - 1)) (\<lambda>b. obind (oassert (b = imm_i sc)) (\<lambda>_. Inr True))))
            else Inr False)))
      else Inr False)"

function link_switch_case_bsearch_item :: "switch_case list \<Rightarrow> blockref \<Rightarrow> nat \<Rightarrow> nat \<Rightarrow> switch_tree outcome" where
  "link_switch_case_bsearch_item srt lst start end =
     (if start \<ge> end then Inr (Goto lst)
      else
        let count = end - start; center = (start + end) div 2 in
        obind (get_case srt center) (\<lambda>sc.
        obind (between_neighbours srt start end sc) (\<lambda>between.
          if between then Inr (Goto (sc_label sc))
          else if count = 1 then Inr (Compare IR_OP_EQ (Const (imm_i sc)) Switch_Value (Goto lst) (Goto (sc_label sc)))
          else if count = 2 then
            obind (link_switch_case_bsearch_item srt lst start center) (\<lambda>t.
              Inr (Compare IR_OP_EQ (Const (imm_i sc)) Switch_Value t (Goto (sc_label sc))))
          else
            obind (link_switch_case_bsearch_item srt lst start center) (\<lambda>t1.
            obind (link_switch_case_bsearch_item srt lst (center + 1) end) (\<lambda>t0.
              Inr (Compare IR_OP_EQ (Const (imm_i sc)) Switch_Value
                (Compare IR_OP_GT (Const (imm_i sc)) Switch_Value t0 t1) (Goto (sc_label sc))))))))"
  by pat_completeness auto

termination link_switch_case_bsearch_item
  by (relation "measure (\<lambda>(_, _, start, end). end - start)") auto

declare link_switch_case_bsearch_item.simps [simp del]

definition link_switch_context_bsearch :: "switch_case list \<Rightarrow> blockref \<Rightarrow> switch_tree outcome" where
  "link_switch_context_bsearch srt lst = link_switch_case_bsearch_item srt lst 0 (length srt)"

section \<open>Jump tables\<close>

text \<open>The inner loop: entries for the values from \<open>v\<close> up to the value of the next case.\<close>

function pad_table :: "int \<Rightarrow> blockref \<Rightarrow> int \<Rightarrow> int \<Rightarrow> (int \<times> blockref) list outcome" where
  "pad_table minv lst v value =
     (if v < value then
        obind (c_int (v - minv)) (\<lambda>d. obind (pad_table minv lst (v + 1) value) (\<lambda>xs. Inr ((d, lst) # xs)))
      else Inr [])"
  by pat_completeness auto

termination pad_table
  by (relation "measure (\<lambda>(_, _, v, value). nat (value - v))") auto

declare pad_table.simps [simp del]

text \<open>The outer loop over the sorted cases: the counter ends up at the value of the case, or stays ahead of it.\<close>

fun fill_table :: "int \<Rightarrow> blockref \<Rightarrow> int \<Rightarrow> switch_case list \<Rightarrow> (int \<times> blockref) list outcome" where
  "fill_table minv lst v [] = Inr []"
| "fill_table minv lst v (sc # scs) =
     (let value = int_of_long (imm_i sc) in
      obind (pad_table minv lst v value) (\<lambda>xs.
      obind (c_int (value - minv)) (\<lambda>d.
      obind (c_int (max v value + 1)) (\<lambda>v'.
      obind (fill_table minv lst v' scs) (\<lambda>ys. Inr (xs @ (d, sc_label sc) # ys))))))"

definition link_switch_context_jump_table :: "switch_case list \<Rightarrow> blockref \<Rightarrow> int \<Rightarrow> int \<Rightarrow> switch_code outcome" where
  "link_switch_context_jump_table srt lst minv maxv =
     obind (if minv > 0 then
              obind (c_int (maxv - minv)) (\<lambda>maxval. Inr (Check_Expr IR_OP_SUB Switch_Value (Const minv), Check, maxval))
            else if minv < 0 then
              obind (c_int (- minv)) (\<lambda>m.
              obind (c_int (maxv - minv)) (\<lambda>maxval. Inr (Check_Expr IR_OP_ADD Switch_Value (Const m), Check, maxval)))
            else Inr (No_Check, Switch_Value, maxv)) (\<lambda>(expr, check, maxval).
     obind (fill_table minv lst minv srt) (\<lambda>tbl.
       let comp2 = Compare IR_OP_GT check (Const maxval) (Jump_Table check tbl) (Goto lst);
           comp1 = Compare IR_OP_GT (Const 0) check comp2 (Goto lst)
       in Inr \<lparr>sw_check = expr, sw_entry = comp1\<rparr>))"

fun max_difference :: "int \<Rightarrow> int \<Rightarrow> switch_case list \<Rightarrow> int outcome" where
  "max_difference prev maxdiff [] = Inr maxdiff"
| "max_difference prev maxdiff (sc # scs) =
     obind (c_int (int_of_long (imm_i sc) - prev)) (\<lambda>d.
       max_difference (int_of_long (imm_i sc)) (if d > maxdiff then d else maxdiff) scs)"

definition jumptable_threshold :: int where
  "jumptable_threshold = 16"

text \<open>The smallest and the largest value, when a jump table is to be used.\<close>

definition use_jump_table_for_switch_case :: "switch_case list \<Rightarrow> (int \<times> int) option outcome" where
  "use_jump_table_for_switch_case srt =
     (case srt of
        [] \<Rightarrow> Inr None
      | sc # scs \<Rightarrow>
          obind (max_difference (int_of_long (imm_i sc)) 0 scs) (\<lambda>maxdiff.
            Inr (if maxdiff < jumptable_threshold
                 then Some (int_of_long (imm_i sc), int_of_long (imm_i (List.last srt))) else None)))"

section \<open>Sorting and choice\<close>

fun insert_case :: "switch_case \<Rightarrow> switch_case list \<Rightarrow> switch_case list" where
  "insert_case sc [] = [sc]"
| "insert_case sc (p # ps) = (if imm_i sc < imm_i p then sc # p # ps else p # insert_case sc ps)"

fun sort_cases :: "switch_case list \<Rightarrow> switch_case list \<Rightarrow> switch_case list outcome" where
  "sort_cases head [] = Inr head"
| "sort_cases head (sc # scs) =
     obind (oassert (v_kind (sc_value sc) = IMMEDIATE)) (\<lambda>_.
       if \<not> is_integer (v_type (sc_value sc)) then Inl (Exit_Error ''Switch expression must have integer type'')
       else sort_cases (insert_case sc head) scs)"

definition link_switch_context_bsearch_or_jump_table :: "switch_case list \<Rightarrow> blockref \<Rightarrow> switch_code outcome" where
  "link_switch_context_bsearch_or_jump_table scs lst =
     obind (sort_cases [] scs) (\<lambda>srt.
     obind (use_jump_table_for_switch_case srt) (\<lambda>r.
       case r of
         Some (minv, maxv) \<Rightarrow> link_switch_context_jump_table srt lst minv maxv
       | None \<Rightarrow> obind (link_switch_context_bsearch srt lst) (\<lambda>t. Inr \<lparr>sw_check = No_Check, sw_entry = t\<rparr>)))"

fun compare_chain :: "switch_case list \<Rightarrow> blockref \<Rightarrow> switch_tree" where
  "compare_chain [] lst = Goto lst"
| "compare_chain (sc # scs) lst =
     Compare IR_OP_EQ (Const (imm_i sc)) Switch_Value (compare_chain scs lst) (Goto (sc_label sc))"

text \<open>The target of all other values is the default label, or what follows the switch.\<close>

definition link_switch_context :: "switch_context \<Rightarrow> blockref \<Rightarrow> switch_code outcome" where
  "link_switch_context ctx next =
     (let lst = (case default_label ctx of Some d \<Rightarrow> d | None \<Rightarrow> next) in
      if length (cases ctx) > 4 then link_switch_context_bsearch_or_jump_table (cases ctx) lst
      else Inr \<lparr>sw_check = No_Check, sw_entry = compare_chain (cases ctx) lst\<rparr>)"

section \<open>Execution\<close>

text \<open>
  The operators on operands of type \<open>int\<close>: sums and differences wrap around at run time. This is the case of a
  switch on an \<open>int\<close> whose constants have type \<open>int\<close>.
\<close>

fun int_op :: "optype \<Rightarrow> int \<Rightarrow> int \<Rightarrow> int outcome" where
  "int_op IR_OP_ADD a b = Inr (int_of_long (a + b))"
| "int_op IR_OP_SUB a b = Inr (int_of_long (a - b))"
| "int_op IR_OP_EQ a b = Inr (if a = b then 1 else 0)"
| "int_op IR_OP_GT a b = Inr (if a > b then 1 else 0)"
| "int_op _ a b = Inl Undefined_Behaviour"

text \<open>An operand, given the value of the switch and the checked value.\<close>

fun operand_value :: "int \<Rightarrow> int \<Rightarrow> switch_operand \<Rightarrow> int" where
  "operand_value v ck (Const c) = c"
| "operand_value v ck Switch_Value = v"
| "operand_value v ck Check = ck"

text \<open>
  Blocks: a comparison continues at \<open>jump[1]\<close> when it is not zero, at \<open>jump[0]\<close> otherwise. The entry of a jump table is found by its
  position.
\<close>

fun run_tree :: "int \<Rightarrow> int \<Rightarrow> switch_tree \<Rightarrow> blockref outcome" where
  "run_tree v ck (Goto l) = Inr l"
| "run_tree v ck (Compare op l r jump0 jump1) =
     obind (int_op op (operand_value v ck l) (operand_value v ck r)) (\<lambda>x.
       if x \<noteq> 0 then run_tree v ck jump1 else run_tree v ck jump0)"
| "run_tree v ck (Jump_Table x tbl) =
     (let i = operand_value v ck x in
      if 0 \<le> i \<and> nat i < length tbl then Inr (snd (tbl ! nat i)) else Inl Undefined_Behaviour)"

definition run_switch :: "int \<Rightarrow> switch_code \<Rightarrow> blockref outcome" where
  "run_switch v code =
     obind (case sw_check code of No_Check \<Rightarrow> Inr v | Check_Expr op l r \<Rightarrow> int_op op (operand_value v v l) (operand_value v v r))
       (\<lambda>ck. run_tree v ck (sw_entry code))"

text \<open>What C prescribes: the label of the first case with the value, or the default.\<close>

fun switch_target :: "int \<Rightarrow> switch_case list \<Rightarrow> blockref \<Rightarrow> blockref" where
  "switch_target v [] lst = lst"
| "switch_target v (sc # scs) lst = (if imm_i sc = v then sc_label sc else switch_target v scs lst)"

section \<open>Sorted cases\<close>

abbreviation ascending :: "switch_case list \<Rightarrow> bool" where
  "ascending xs \<equiv> sorted_wrt (\<lambda>a b. imm_i a < imm_i b) xs"

definition distinct_cases :: "switch_case list \<Rightarrow> bool" where
  "distinct_cases scs \<longleftrightarrow> distinct (map imm_i scs)"

lemma int_of_long_id [simp]: "is_int_value x \<Longrightarrow> int_of_long x = x"
  unfolding int_of_long_def is_int_value_def by (intro signed_take_bit_int_eq_self) auto

lemma set_insert_case: "set (insert_case sc xs) = insert sc (set xs)"
  by (induction xs) auto

lemma insert_case_ascending: "ascending xs \<Longrightarrow> imm_i sc \<notin> imm_i ` set xs \<Longrightarrow> ascending (insert_case sc xs)"
  by (induction xs) (auto simp: set_insert_case)

lemma length_insert_case: "length (insert_case sc xs) = Suc (length xs)"
  by (induction xs) auto

lemma sort_cases_ascending:
  assumes "ascending head" "distinct (map imm_i (head @ scs))"
    and "list_all (\<lambda>sc. v_kind (sc_value sc) = IMMEDIATE \<and> is_integer (v_type (sc_value sc))) scs"
  shows "\<exists>xs. sort_cases head scs = Inr xs \<and> ascending xs \<and> set xs = set head \<union> set scs \<and> length xs = length head + length scs"
  using assms
proof (induction scs arbitrary: head)
  case (Cons sc scs)
  have "ascending (insert_case sc head)" using Cons.prems(1,2) by (intro insert_case_ascending) auto
  moreover have "distinct (map imm_i (insert_case sc head @ scs))"
  proof -
    have "distinct (map imm_i (insert_case sc head))"
      using calculation by (simp add: sorted_wrt_iff_nth_less distinct_conv_nth) (metis linorder_neqE_nat order_less_irrefl)
    then show ?thesis using Cons.prems(2) by (auto simp: set_insert_case)
  qed
  ultimately show ?case
    using Cons.IH [of "insert_case sc head"] Cons.prems(3) by (auto simp: set_insert_case length_insert_case)
qed simp

lemma switch_target_member:
  "distinct_cases scs \<Longrightarrow> sc \<in> set scs \<Longrightarrow> switch_target (imm_i sc) scs lst = sc_label sc"
  by (induction scs) (auto simp: distinct_cases_def)

lemma switch_target_none: "v \<notin> imm_i ` set scs \<Longrightarrow> switch_target v scs lst = lst"
  by (induction scs) auto

end
