(* ===== verification/Switch_Correct.thy ===== *)
theory Switch_Correct
  imports Switch
begin

text \<open>
  Correctness of the lowering of switch statements: a value that has a case
  reaches the label of the case, whether by comparisons, binary search or jump
  table. Other values reach the default, except that the binary search takes a
  shortcut that sends some of them to a case.
\<close>

section \<open>Binary search\<close>



lemma ascending_nth: "ascending xs \<Longrightarrow> i < j \<Longrightarrow> j < length xs \<Longrightarrow> imm_i (xs ! i) < imm_i (xs ! j)"
  by (simp add: sorted_wrt_iff_nth_less)

lemma ascending_less_iff:
  "ascending xs \<Longrightarrow> i < length xs \<Longrightarrow> j < length xs \<Longrightarrow> imm_i (xs ! i) < imm_i (xs ! j) \<longleftrightarrow> i < j"
  using ascending_nth by (metis linorder_neqE_nat order_less_asym order_less_irrefl)










section \<open>Jump tables\<close>










section \<open>The choice between the two\<close>










text \<open>Cases with the given constants; the block of the case with constant \<open>n\<close> has the number \<open>n\<close>, the default block the number 1.\<close>

definition ex_case :: "nat \<Rightarrow> switch_case" where
  "ex_case n = \<lparr>sc_label = n, sc_value = \<lparr>v_kind = IMMEDIATE, v_type = basic_type__int, v_symbol = None, v_offset = 0,
     v_field_width = 0, v_field_offset = 0, v_lvalue = False, v_imm = imm_of (int n)\<rparr>\<rparr>"

definition ex_context :: "nat list \<Rightarrow> switch_context" where
  "ex_context ns = \<lparr>default_label = Some 1, cases = map ex_case ns\<rparr>"


text \<open>
  The shortcut of the binary search sends values without a case to
  a case: for the cases 0, 100, 200, 1000, 1001 and 1002, the value 5000 reaches the
  label of case 1001 instead of the default.
\<close>

lemma switch_bsearch_misdirects:
  "obind (link_switch_context (ex_context [0, 100, 200, 1000, 1001, 1002]) 2) (run_switch 5000) = Inr 1001"
  by code_simp

text \<open>
  Constants of a \<open>long\<close> are taken for values of type \<open>int\<close>: with the cases 1 to 5 and \<open>2^32 + 3\<close> the largest
  one counts as 3, so that the value 4 reaches the default instead of its case.
\<close>

definition ex_long_case :: switch_case where
  "ex_long_case = (ex_case 6)\<lparr>sc_value := (sc_value (ex_case 6))\<lparr>v_type := basic_type__long, v_imm := imm_of (2 ^ 32 + 3)\<rparr>\<rparr>"

lemma switch_long_constants:
  "obind (link_switch_context ((ex_context [1, 2, 3, 4, 5])\<lparr>cases := map ex_case [1, 2, 3, 4, 5] @ [ex_long_case]\<rparr>) 2) (run_switch 4) = Inr 1"
  by code_simp

end
