(* ===== verification/State_Error.thy ===== *)
theory State_Error
  imports Prelude
begin

text \<open>
  Operations that may fail on an explicit state, and their sequencing. The state is
  lost when an operation fails: the program ends, or its behaviour is undefined.
\<close>

type_synonym ('s, 'a) sm = "'s \<Rightarrow> ('a \<times> 's) outcome"

definition eret :: "'a \<Rightarrow> ('s, 'a) sm" where
  "eret x s = Inr (x, s)"

definition ebind :: "('s, 'a) sm \<Rightarrow> ('a \<Rightarrow> ('s, 'b) sm) \<Rightarrow> ('s, 'b) sm" where
  "ebind m f s = obind (m s) (\<lambda>(x, s'). f x s')"

definition efail :: "kcs_error \<Rightarrow> ('s, 'a) sm" where
  "efail e s = Inl e"

definition eassert :: "bool \<Rightarrow> ('s, unit) sm" where
  "eassert b = (if b then eret () else efail Assert_Failed)"

text \<open>A diagnostic, given by its format without quotation marks, that ends the program.\<close>

definition eerror :: "string \<Rightarrow> ('s, 'a) sm" where
  "eerror msg = efail (Exit_Error msg)"

text \<open>Parts that only read the state, that only change it, and that do neither.\<close>

definition eget :: "('s \<Rightarrow> 'a) \<Rightarrow> ('s, 'a) sm" where
  "eget f s = Inr (f s, s)"

definition emodify :: "('s \<Rightarrow> 's) \<Rightarrow> ('s, unit) sm" where
  "emodify f s = Inr ((), f s)"

definition olift :: "'a outcome \<Rightarrow> ('s, 'a) sm" where
  "olift m s = obind m (\<lambda>x. Inr (x, s))"

fun eiter :: "('a \<Rightarrow> ('s, unit) sm) \<Rightarrow> 'a list \<Rightarrow> ('s, unit) sm" where
  "eiter f [] = eret ()"
| "eiter f (x # xs) = ebind (f x) (\<lambda>_. eiter f xs)"

section \<open>Facts\<close>

named_theorems ev_simps "sequencing unfolded on a state"

lemmas sm_defs [ev_simps] = eret_def ebind_def efail_def eassert_def eerror_def eget_def emodify_def olift_def

lemma ebind_Inr: "ebind m f s = Inr r \<longleftrightarrow> (\<exists>x s'. m s = Inr (x, s') \<and> f x s' = Inr r)"
  by (cases "m s") (auto simp: ebind_def)

lemma ebind_eret [simp]: "ebind (eret x) f = f x"
  by (simp add: ebind_def eret_def fun_eq_iff)

lemma ebind_efail [simp]: "ebind (efail e) f = efail e"
  by (simp add: ebind_def efail_def fun_eq_iff)

lemma ebind_assoc: "ebind (ebind m f) g = ebind m (\<lambda>x. ebind (f x) g)"
  by (simp add: ebind_def fun_eq_iff obind_assoc split_def)

lemma eassert_simps [simp]: "eassert True = eret ()" "eassert False = efail Assert_Failed"
  by (simp_all add: eassert_def)

lemma olift_simps [simp]: "olift (Inr x) = eret x" "olift (Inl e) = efail e"
  by (simp_all add: olift_def eret_def efail_def fun_eq_iff)

lemma ebind_cong: "m = m' \<Longrightarrow> (\<And>x. f x = f' x) \<Longrightarrow> ebind m f = ebind m' f'"
  by presburger

section \<open>What operations do to the state\<close>

text \<open>
  An operation stays within a relation if the state before and the state after are always related. A relation that is a preorder
  is kept by sequencing.
\<close>

definition within :: "('s \<Rightarrow> 's \<Rightarrow> bool) \<Rightarrow> ('s, 'a) sm \<Rightarrow> bool" where
  "within R m \<longleftrightarrow> (\<forall>s x s'. m s = Inr (x, s') \<longrightarrow> R s s')"

lemma withinD: "within R m \<Longrightarrow> m s = Inr (x, s') \<Longrightarrow> R s s'"
  by (auto simp: within_def)

lemma within_basic:
  assumes "reflp R"
  shows "within R (eret x)" "within R (efail e)" "within R (eerror msg)" "within R (eget f)" "within R (olift m)" "within R (eassert b)"
  using assms by (auto simp: within_def reflpD ev_simps obind_Inr_iff split: if_splits)

lemma within_emodify: "(\<And>s. R s (f s)) \<Longrightarrow> within R (emodify f)"
  by (simp add: within_def emodify_def)

lemma within_ebind: "transp R \<Longrightarrow> within R m \<Longrightarrow> (\<And>x. within R (f x)) \<Longrightarrow> within R (ebind m f)"
  unfolding within_def ebind_Inr by (metis transpD)

text \<open>The branches of an operation.\<close>

lemma within_if: "within R m \<Longrightarrow> within R m' \<Longrightarrow> within R (if b then m else m')"
  by simp

lemma within_prod: "(\<And>x y. within R (f x y)) \<Longrightarrow> within R (case p of (x, y) \<Rightarrow> f x y)"
  by (cases p) simp

lemma within_list: "within R m \<Longrightarrow> (\<And>t ts. within R (f t ts)) \<Longrightarrow> within R (case l of [] \<Rightarrow> m | t # ts \<Rightarrow> f t ts)"
  by (cases l) simp_all

lemma within_option: "within R m \<Longrightarrow> (\<And>x. within R (f x)) \<Longrightarrow> within R (case v of None \<Rightarrow> m | Some x \<Rightarrow> f x)"
  by (cases v) simp_all

lemmas within_cases = within_if within_prod within_list within_option

end
