(* ===== verification/Cfg.thy ===== *)
theory Cfg
  imports IR Symtab State_Error
begin

text \<open>
  Definitions and their control flow graphs, \<open>src/parser/parse.c\<close>: blocks and
  definitions are allocated, given back and reused. A pointer to either is its
  number. Also here is how operations on the state of the parser, in
  which the evaluation of expressions is written, read and change its parts.
\<close>

section \<open>State of the parser\<close>

type_synonym defref = nat

record cfg_definition =
  d_symbol :: "symref option"
  d_body :: "blockref option"
  d_params :: "symref list"
  d_locals :: "symref list"
  d_labels :: "symref list"
  d_nodes :: "blockref list"

text \<open>
  All blocks and definitions that were ever allocated; the blocks that are free;
  the blocks that belong to no definition; the definitions that may be reused; the
  queue of complete definitions; and the definition handed out last.
\<close>

record parser_state =
  p_symtab :: symtab
  p_cfg :: cfg
  p_free :: "blockref list"
  p_expressions :: "blockref list"
  p_defs :: "cfg_definition list"
  p_prototypes :: "defref list"
  p_definitions :: "defref list"
  p_def :: "defref option"

section \<open>Parts of the state\<close>

type_synonym 'a ev = "(parser_state, 'a) sm"

text \<open>Reading types and symbols, and operations that change the types.\<close>

definition etypes :: "(type_store \<Rightarrow> 'a outcome) \<Rightarrow> 'a ev" where
  "etypes f s = obind (f (sy_types (p_symtab s))) (\<lambda>x. Inr (x, s))"

definition mtypes :: "(type_store \<Rightarrow> (type_store \<times> 'a) outcome) \<Rightarrow> 'a ev" where
  "mtypes f s = obind (f (sy_types (p_symtab s)))
     (\<lambda>(ts, x). Inr (x, s\<lparr>p_symtab := (p_symtab s)\<lparr>sy_types := ts\<rparr>\<rparr>))"

definition get_symbol :: "symref option \<Rightarrow> symbol ev" where
  "get_symbol r s = (case r of Some i \<Rightarrow> Inr (sy_heap (p_symtab s) i, s) | None \<Rightarrow> Inl Undefined_Behaviour)"

definition msymtab :: "(symtab \<Rightarrow> symtab \<times> 'a) \<Rightarrow> 'a ev" where
  "msymtab f s = (let (st, x) = f (p_symtab s) in Inr (x, s\<lparr>p_symtab := st\<rparr>))"

text \<open>Fields of blocks and definitions.\<close>

definition read_block :: "blockref option \<Rightarrow> block ev" where
  "read_block b s = (case b of Some i \<Rightarrow> obind (get_block (p_cfg s) i) (\<lambda>x. Inr (x, s)) | None \<Rightarrow> Inl Undefined_Behaviour)"

definition update_block :: "blockref option \<Rightarrow> (block \<Rightarrow> block) \<Rightarrow> unit ev" where
  "update_block b f s =
     (case b of
        Some i \<Rightarrow> obind (get_block (p_cfg s) i) (\<lambda>x. Inr ((), s\<lparr>p_cfg := (p_cfg s)[i := f x]\<rparr>))
      | None \<Rightarrow> Inl Undefined_Behaviour)"

definition read_def :: "defref option \<Rightarrow> cfg_definition ev" where
  "read_def d s =
     (case d of
        Some i \<Rightarrow> if i < length (p_defs s) then Inr (p_defs s ! i, s) else Inl Undefined_Behaviour
      | None \<Rightarrow> Inl Undefined_Behaviour)"

definition update_def :: "defref option \<Rightarrow> (cfg_definition \<Rightarrow> cfg_definition) \<Rightarrow> unit ev" where
  "update_def d f s =
     (case d of
        Some i \<Rightarrow> if i < length (p_defs s) then Inr ((), s\<lparr>p_defs := (p_defs s)[i := f (p_defs s ! i)]\<rparr>)
                  else Inl Undefined_Behaviour
      | None \<Rightarrow> Inl Undefined_Behaviour)"

section \<open>Blocks\<close>

definition zero_var :: var where
  "zero_var = \<lparr>v_kind = DIRECT, v_type = zero_type, v_symbol = None, v_offset = 0, v_field_width = 0,
     v_field_offset = 0, v_lvalue = False, v_imm = \<lparr>val_u = 0\<rparr>\<rparr>"

definition zero_expr :: expression where
  "zero_expr = \<lparr>e_op = IR_OP_CAST, e_type = zero_type, e_l = zero_var, e_r = zero_var\<rparr>"

definition zero_block :: block where
  "zero_block = \<lparr>b_label = None, b_code = [], b_expr = zero_expr, b_jump0 = None, b_jump1 = None,
     b_has_jump_table = False, b_table_offset = None, b_jump_table = [], b_body = None,
     b_has_return_value = False, b_has_init_value = False, b_color = WHITE, b_in = 0, b_out = 0\<rparr>"

text \<open>
  Not reset are the jump table, its offset, and the results of the liveness analysis.
  Only the back ends empty the table, of the blocks they emit; the code for a switch appends to it.
\<close>

definition recycle_block :: "blockref \<Rightarrow> unit ev" where
  "recycle_block b =
     ebind (update_block (Some b) (\<lambda>x. x\<lparr>b_code := [], b_label := None, b_expr := zero_expr, b_has_jump_table := False,
        b_has_return_value := False, b_has_init_value := False, b_jump0 := None, b_jump1 := None, b_body := None,
        b_color := WHITE\<rparr>)) (\<lambda>_ s. Inr ((), s\<lparr>p_free := p_free s @ [b]\<rparr>))"

definition create_label :: "defref option \<Rightarrow> symref ev" where
  "create_label def =
     ebind (msymtab sym_create_label) (\<lambda>l.
     ebind (update_def def (\<lambda>d. d\<lparr>d_labels := d_labels d @ [l]\<rparr>)) (\<lambda>_. eret l))"

definition alloc_block :: "blockref ev" where
  "alloc_block s =
     (if p_free s \<noteq> [] then Inr (last (p_free s), s\<lparr>p_free := butlast (p_free s)\<rparr>)
      else Inr (length (p_cfg s), s\<lparr>p_cfg := p_cfg s @ [zero_block]\<rparr>))"

definition cfg_block_init :: "defref option \<Rightarrow> blockref ev" where
  "cfg_block_init def =
     ebind alloc_block (\<lambda>b.
       if def \<noteq> None then
         ebind (create_label def) (\<lambda>l.
         ebind (update_block (Some b) (\<lambda>x. x\<lparr>b_label := Some l\<rparr>)) (\<lambda>_.
         ebind (update_def def (\<lambda>d. d\<lparr>d_nodes := d_nodes d @ [b]\<rparr>)) (\<lambda>_. eret b)))
       else (\<lambda>s. Inr (b, s\<lparr>p_expressions := p_expressions s @ [b]\<rparr>)))"

section \<open>Definitions\<close>

definition discard_symbol :: "symref \<Rightarrow> unit ev" where
  "discard_symbol r = msymtab (\<lambda>st. (sym_discard st r, ()))"

definition discard_temporary :: "symref \<Rightarrow> unit ev" where
  "discard_temporary r = ebind (get_symbol (Some r)) (\<lambda>sy. if is_temporary sy then discard_symbol r else eret ())"

definition cfg_empty :: "defref option \<Rightarrow> unit ev" where
  "cfg_empty def =
     ebind (read_def def) (\<lambda>d.
     ebind (eiter discard_temporary (d_locals d)) (\<lambda>_.
     ebind (eiter discard_symbol (d_labels d)) (\<lambda>_.
     ebind (eiter recycle_block (d_nodes d)) (\<lambda>_.
       update_def def (\<lambda>d. d\<lparr>d_params := [], d_locals := [], d_labels := [], d_nodes := []\<rparr>)))))"

definition zero_definition :: cfg_definition where
  "zero_definition = \<lparr>d_symbol = None, d_body = None, d_params = [], d_locals = [], d_labels = [], d_nodes = []\<rparr>"

definition set_body :: "defref \<Rightarrow> defref ev" where
  "set_body d = ebind (cfg_block_init (Some d)) (\<lambda>b. ebind (update_def (Some d) (\<lambda>x. x\<lparr>d_body := Some b\<rparr>)) (\<lambda>_. eret d))"

definition cfg_init :: "defref ev" where
  "cfg_init s =
     (if p_prototypes s = [] then
        set_body (length (p_defs s)) (s\<lparr>p_defs := p_defs s @ [zero_definition]\<rparr>)
      else
        let d = last (p_prototypes s) in
        ebind (cfg_empty (Some d)) (\<lambda>_.
        ebind (read_def (Some d)) (\<lambda>x.
        ebind (eassert (d_symbol x = None)) (\<lambda>_. set_body d)))
          (s\<lparr>p_prototypes := butlast (p_prototypes s)\<rparr>))"

definition cfg_discard :: "defref \<Rightarrow> unit ev" where
  "cfg_discard d =
     ebind (update_def (Some d) (\<lambda>x. x\<lparr>d_symbol := None\<rparr>)) (\<lambda>_.
     ebind (cfg_empty (Some d)) (\<lambda>_ s. Inr ((), s\<lparr>p_prototypes := p_prototypes s @ [d]\<rparr>)))"

definition cfg_define :: "defref \<Rightarrow> symref \<Rightarrow> unit ev" where
  "cfg_define d sy =
     ebind (get_symbol (Some sy)) (\<lambda>y.
     ebind (eassert (s_symtype y = SYM_DEFINITION)) (\<lambda>_.
     ebind (read_def (Some d)) (\<lambda>x.
     ebind (eassert (d_symbol x = None)) (\<lambda>_.
     ebind (update_def (Some d) (\<lambda>x. x\<lparr>d_symbol := Some sy\<rparr>)) (\<lambda>_ s.
       Inr ((), s\<lparr>p_definitions := p_definitions s @ [d]\<rparr>))))))"

text \<open>
  The two ends of \<open>parse\<close>: the definition that was handed out last is discarded, and after
  declarations were parsed the next definition is handed out, or at the end of the input the blocks of
  expressions are given back. The declarations in between are not part of this theory.
\<close>

definition parse_discard :: "unit ev" where
  "parse_discard s = (case p_def s of Some d \<Rightarrow> cfg_discard d s | None \<Rightarrow> Inr ((), s))"

definition parse_next :: "defref option ev" where
  "parse_next s =
     (case p_definitions s of
        [] \<Rightarrow> ebind (eiter recycle_block (p_expressions s)) (\<lambda>_ s'. Inr (None, s'\<lparr>p_expressions := [], p_def := None\<rparr>)) s
      | d # ds \<Rightarrow> Inr (Some d, s\<lparr>p_definitions := ds, p_def := Some d\<rparr>))"

section \<open>Facts\<close>

lemmas ev_defs [ev_simps] = etypes_def mtypes_def get_symbol_def msymtab_def

end
