(* ===== verification/Cfg_Correct.thy ===== *)
theory Cfg_Correct
  imports Cfg "HOL-Library.Multiset"
begin

text \<open>
  Ownership of blocks: every block that was allocated is free, or belongs to one
  definition, or to no definition but the list of expressions, and never to two of
  them. Free blocks are as new, but for their jump table and the results of the liveness analysis.
\<close>

section \<open>Invariant\<close>

definition owned_blocks :: "parser_state \<Rightarrow> blockref multiset" where
  "owned_blocks s = mset (p_free s) + mset (p_expressions s) + (\<Sum>d \<in># mset (p_defs s). mset (d_nodes d))"

text \<open>
  A block like a new one in every field but four, which \<open>recycle_block\<close> leaves as they are: the
  jump table and its offset, and the sets of the liveness analysis. The analysis sets the latter before
  it reads them. The table is not emptied when a block is used again, and the lowering of a switch
  appends to it.
\<close>

definition reset_block :: "block \<Rightarrow> bool" where
  "reset_block b \<longleftrightarrow>
     b = zero_block\<lparr>b_table_offset := b_table_offset b, b_jump_table := b_jump_table b, b_in := b_in b, b_out := b_out b\<rparr>"

lemma reset_block_iff:
  "reset_block b \<longleftrightarrow> b_code b = [] \<and> b_label b = None \<and> b_expr b = zero_expr \<and> \<not> b_has_jump_table b \<and>
     \<not> b_has_return_value b \<and> \<not> b_has_init_value b \<and> b_jump0 b = None \<and> b_jump1 b = None \<and> b_body b = None \<and> b_color b = WHITE"
  by (cases b) (auto simp: reset_block_def zero_block_def)

definition blocks_inv :: "parser_state \<Rightarrow> bool" where
  "blocks_inv s \<longleftrightarrow> owned_blocks s = mset [0..<length (p_cfg s)] \<and> (\<forall>b \<in> set (p_free s). reset_block (p_cfg s ! b))"

lemma owned_in_range: "blocks_inv s \<Longrightarrow> b \<in># owned_blocks s \<longleftrightarrow> b < length (p_cfg s)"
  by (simp add: blocks_inv_def)

lemma owned_once: "blocks_inv s \<Longrightarrow> count (owned_blocks s) b \<le> 1"
  by (simp add: blocks_inv_def count_mset_set')

lemma sum_nodes_update:
  assumes "i < length ds"
  shows "(\<Sum>d \<in># mset (ds[i := x]). mset (d_nodes d)) + mset (d_nodes (ds ! i)) =
    (\<Sum>d \<in># mset ds. mset (d_nodes d)) + mset (d_nodes x)"
proof -
  let ?M = "mset ds - {#ds ! i#}" and ?f = "\<lambda>d. mset (d_nodes d)"
  have "mset (ds[i := x]) = add_mset x ?M" using assms by (rule mset_update)
  then have a: "(\<Sum>d \<in># mset (ds[i := x]). ?f d) = ?f x + (\<Sum>d \<in># ?M. ?f d)" by simp
  have "mset ds = add_mset (ds ! i) ?M" using assms by simp
  then have "(\<Sum>d \<in># mset ds. ?f d) = (\<Sum>d \<in># add_mset (ds ! i) ?M. ?f d)" by (simp only:)
  then have b: "(\<Sum>d \<in># mset ds. ?f d) = ?f (ds ! i) + (\<Sum>d \<in># ?M. ?f d)" by simp
  show ?thesis unfolding a b by (simp add: ac_simps)
qed

section \<open>Operations\<close>

lemma alloc_block_owned:
  assumes "alloc_block s = Inr (b, s')" "blocks_inv s"
  shows "b < length (p_cfg s') \<and> add_mset b (owned_blocks s') = mset [0..<length (p_cfg s')] \<and>
    reset_block (p_cfg s' ! b) \<and> (\<forall>c \<in> set (p_free s'). reset_block (p_cfg s' ! c)) \<and> p_defs s' = p_defs s \<and>
    length (p_cfg s) \<le> length (p_cfg s')"
proof (cases "p_free s = []")
  case True
  then have "b = length (p_cfg s)" "s' = s\<lparr>p_cfg := p_cfg s @ [zero_block]\<rparr>"
    using assms(1) by (simp_all add: alloc_block_def)
  then show ?thesis
    using assms(2) True by (auto simp: blocks_inv_def owned_blocks_def reset_block_iff zero_block_def nth_append)
next
  case False
  then have s': "b = last (p_free s)" "s' = s\<lparr>p_free := butlast (p_free s)\<rparr>"
    using assms(1) by (simp_all add: alloc_block_def)
  have "mset (p_free s) = add_mset b (mset (butlast (p_free s)))"
    using False s'(1) by (metis append_butlast_last_id mset.simps mset_append union_mset_add_mset_right add.right_neutral)
  moreover have "b \<in># owned_blocks s" using False s'(1) by (simp add: owned_blocks_def)
  then have "b < length (p_cfg s)" using owned_in_range [OF assms(2)] by simp
  ultimately show ?thesis
    using assms(2) False s' in_set_butlastD [of _ "p_free s"] by (auto simp: blocks_inv_def owned_blocks_def)
qed

lemma cfg_block_init_None:
  "cfg_block_init None s = Inr (b, s') \<longleftrightarrow> (\<exists>s1. alloc_block s = Inr (b, s1) \<and> s' = s1\<lparr>p_expressions := p_expressions s1 @ [b]\<rparr>)"
  by (auto simp: cfg_block_init_def ebind_Inr)

lemma cfg_block_init_Some:
  assumes "cfg_block_init (Some i) s = Inr (b, s')"
  obtains s1 l d' where "alloc_block s = Inr (b, s1)" "i < length (p_defs s1)" "p_free s' = p_free s1" "p_expressions s' = p_expressions s1"
    "b < length (p_cfg s1)" "p_cfg s' = (p_cfg s1)[b := (p_cfg s1 ! b)\<lparr>b_label := Some l\<rparr>]"
    "p_defs s' = (p_defs s1)[i := d']" "d_nodes d' = d_nodes (p_defs s1 ! i) @ [b]"
proof -
  obtain s1 where s1: "alloc_block s = Inr (b, s1)"
    and r: "ebind (create_label (Some i)) (\<lambda>l. ebind (update_block (Some b) (\<lambda>x. x\<lparr>b_label := Some l\<rparr>)) (\<lambda>_.
         ebind (update_def (Some i) (\<lambda>d. d\<lparr>d_nodes := d_nodes d @ [b]\<rparr>)) (\<lambda>_. eret b))) s1 = Inr (b, s')"
    using assms by (auto simp: cfg_block_init_def ebind_Inr eret_def)
  obtain st l where l: "sym_create_label (p_symtab s1) = (st, l)" by (cases "sym_create_label (p_symtab s1)")
  show thesis
    using r l by (intro that [OF s1, where l = l and d' = "(p_defs s1 ! i)\<lparr>d_labels := d_labels (p_defs s1 ! i) @ [l],
        d_nodes := d_nodes (p_defs s1 ! i) @ [b]\<rparr>"])
      (auto simp: create_label_def msymtab_def update_def_def update_block_def eret_def ebind_def outcome_simps get_block_Inr nth_list_update
        split: prod.splits if_splits)
qed

lemma cfg_block_init_inv:
  assumes "cfg_block_init def s = Inr (b, s')" "blocks_inv s"
  shows "blocks_inv s' \<and> b < length (p_cfg s') \<and> reset_block ((p_cfg s' ! b)\<lparr>b_label := None\<rparr>)"
proof (cases def)
  case None
  then obtain s1 where s1: "alloc_block s = Inr (b, s1)" "s' = s1\<lparr>p_expressions := p_expressions s1 @ [b]\<rparr>"
    using assms(1) cfg_block_init_None by blast
  from alloc_block_owned [OF s1(1) assms(2)] show ?thesis
    using s1(2) by (auto simp: blocks_inv_def owned_blocks_def reset_block_iff)
next
  case (Some i)
  obtain s1 l d' where s1: "alloc_block s = Inr (b, s1)" "i < length (p_defs s1)" "p_free s' = p_free s1" "p_expressions s' = p_expressions s1"
    "b < length (p_cfg s1)" "p_cfg s' = (p_cfg s1)[b := (p_cfg s1 ! b)\<lparr>b_label := Some l\<rparr>]"
    "p_defs s' = (p_defs s1)[i := d']" "d_nodes d' = d_nodes (p_defs s1 ! i) @ [b]"
    using assms(1) unfolding Some by (rule cfg_block_init_Some)
  note own = alloc_block_owned [OF s1(1) assms(2)]
  have "(\<Sum>d \<in># mset (p_defs s'). mset (d_nodes d)) = add_mset b (\<Sum>d \<in># mset (p_defs s1). mset (d_nodes d))"
    using sum_nodes_update [OF s1(2), of d'] s1(7,8) by simp
  then have o: "owned_blocks s' = add_mset b (owned_blocks s1)" using s1(3,4) by (simp add: owned_blocks_def)
  have "b \<notin> set (p_free s1)"
  proof
    assume "b \<in> set (p_free s1)"
    then have mem: "b \<in># owned_blocks s1" by (simp add: owned_blocks_def)
    moreover have "count (add_mset b (owned_blocks s1)) b \<le> 1" using own by (simp add: count_mset_set')
    ultimately show False by (simp add: count_eq_zero_iff)
  qed
  then show ?thesis
    using own o s1 by (auto simp: blocks_inv_def reset_block_iff nth_list_update)
qed

text \<open>Emptying a definition gives its blocks back, in order.\<close>

lemma recycle_block_eq:
  "recycle_block b s = Inr (u, s1) \<longleftrightarrow> b < length (p_cfg s) \<and>
     s1 = s\<lparr>p_cfg := (p_cfg s)[b := (p_cfg s ! b)\<lparr>b_code := [], b_label := None, b_expr := zero_expr, b_has_jump_table := False,
        b_has_return_value := False, b_has_init_value := False, b_jump0 := None, b_jump1 := None, b_body := None, b_color := WHITE\<rparr>],
        p_free := p_free s @ [b]\<rparr>"
  by (auto simp: recycle_block_def update_block_def outcome_simps get_block_Inr ebind_def)

lemma recycle_blocks:
  assumes "eiter recycle_block bs s = Inr (u, s')"
  shows "p_free s' = p_free s @ bs \<and> length (p_cfg s') = length (p_cfg s) \<and> p_expressions s' = p_expressions s \<and> p_defs s' = p_defs s \<and>
    (\<forall>b \<in> set bs. reset_block (p_cfg s' ! b)) \<and> (\<forall>b. reset_block (p_cfg s ! b) \<longrightarrow> reset_block (p_cfg s' ! b))"
  using assms
proof (induction bs arbitrary: s)
  case (Cons b bs)
  let ?r = "\<lambda>x. x\<lparr>b_code := [], b_label := None, b_expr := zero_expr, b_has_jump_table := False,
        b_has_return_value := False, b_has_init_value := False, b_jump0 := None, b_jump1 := None, b_body := None, b_color := WHITE\<rparr>"
  obtain s1 where s1: "b < length (p_cfg s)" "s1 = s\<lparr>p_cfg := (p_cfg s)[b := ?r (p_cfg s ! b)], p_free := p_free s @ [b]\<rparr>"
      "eiter recycle_block bs s1 = Inr (u, s')"
    using Cons.prems by (auto simp: ebind_Inr recycle_block_eq)
  have "reset_block (p_cfg s1 ! b)" "reset_block (p_cfg s ! c) \<Longrightarrow> reset_block (p_cfg s1 ! c)" for c
    using s1(1,2) by (auto simp: reset_block_iff nth_list_update)
  then show ?case using Cons.IH [OF s1(3)] s1(2) by auto
qed (simp add: eret_def)

text \<open>Giving symbols back touches nothing but the symbol table.\<close>

lemma discard_state:
  assumes "discard_symbol r s = Inr (u, s') \<or> discard_temporary r s = Inr (u, s')"
  shows "p_free s' = p_free s \<and> p_cfg s' = p_cfg s \<and> p_expressions s' = p_expressions s \<and> p_defs s' = p_defs s"
  using assms by (auto simp: discard_symbol_def discard_temporary_def msymtab_def ebind_def get_symbol_def eret_def split: if_splits)

lemma discards_state:
  assumes "eiter f rs s = Inr (u, s')" "f = discard_symbol \<or> f = discard_temporary"
  shows "p_free s' = p_free s \<and> p_cfg s' = p_cfg s \<and> p_expressions s' = p_expressions s \<and> p_defs s' = p_defs s"
  using assms(1)
proof (induction rs arbitrary: s)
  case (Cons r rs)
  then obtain s1 where "f r s = Inr ((), s1)" "eiter f rs s1 = Inr (u, s')" by (auto simp: ebind_Inr)
  then show ?case using Cons.IH [of s1] discard_state [of r s "()" s1] assms(2) by auto
qed (simp add: eret_def)

lemma cfg_empty_inv:
  assumes "cfg_empty (Some d) s = Inr (u, s')" "blocks_inv s"
  shows "blocks_inv s' \<and> d < length (p_defs s') \<and> length (p_defs s') = length (p_defs s) \<and>
    p_defs s' = (p_defs s)[d := (p_defs s ! d)\<lparr>d_params := [], d_locals := [], d_labels := [], d_nodes := []\<rparr>]"
proof -
  obtain s1 s2 s3 where d: "d < length (p_defs s)"
    and s1: "eiter discard_temporary (d_locals (p_defs s ! d)) s = Inr ((), s1)"
    and s2: "eiter discard_symbol (d_labels (p_defs s ! d)) s1 = Inr ((), s2)"
    and s3: "eiter recycle_block (d_nodes (p_defs s ! d)) s2 = Inr ((), s3)"
    and s': "update_def (Some d) (\<lambda>d. d\<lparr>d_params := [], d_locals := [], d_labels := [], d_nodes := []\<rparr>) s3 = Inr (u, s')"
    using assms(1) by (auto simp: cfg_empty_def ebind_Inr read_def_def split: if_splits)
  note e = discards_state [OF s1] discards_state [OF s2] recycle_blocks [OF s3]
  have p: "p_free s3 = p_free s @ d_nodes (p_defs s ! d)" "length (p_cfg s3) = length (p_cfg s)" "p_expressions s3 = p_expressions s"
    "p_defs s3 = p_defs s" using e by auto
  have f: "s' = s3\<lparr>p_defs := (p_defs s)[d := (p_defs s ! d)\<lparr>d_params := [], d_locals := [], d_labels := [], d_nodes := []\<rparr>]\<rparr>"
    using s' d p(4) by (simp add: update_def_def)
  have "owned_blocks s' = owned_blocks s"
    using sum_nodes_update [OF d, of "(p_defs s ! d)\<lparr>d_params := [], d_locals := [], d_labels := [], d_nodes := []\<rparr>"] p f
    by (simp add: owned_blocks_def ac_simps)
  moreover have "\<forall>b \<in> set (p_free s'). reset_block (p_cfg s' ! b)"
    using e p f assms(2) by (auto simp: blocks_inv_def)
  ultimately show ?thesis using assms(2) p f d by (simp add: blocks_inv_def)
qed

lemma blocks_inv_cong:
  assumes "p_free s' = p_free s" "p_cfg s' = p_cfg s" "p_expressions s' = p_expressions s"
    and "map d_nodes (p_defs s') = map d_nodes (p_defs s)"
  shows "blocks_inv s' = blocks_inv s"
proof -
  have "map (mset \<circ> d_nodes) (p_defs s') = map (mset \<circ> d_nodes) (p_defs s)"
    using assms(4) by (metis list.map_comp)
  then have "mset (map (mset \<circ> d_nodes) (p_defs s')) = mset (map (mset \<circ> d_nodes) (p_defs s))" by simp
  then have "(\<Sum>d \<in># mset (p_defs s'). mset (d_nodes d)) = (\<Sum>d \<in># mset (p_defs s). mset (d_nodes d))"
    by (simp add: comp_def)
  then show ?thesis using assms by (simp add: blocks_inv_def owned_blocks_def)
qed

lemma map_nodes_same: "i < length ds \<Longrightarrow> d_nodes x = d_nodes (ds ! i) \<Longrightarrow> map d_nodes (ds[i := x]) = map d_nodes ds"
  by (auto intro!: nth_equalityI simp: nth_list_update)

lemma set_body_inv: "set_body d s = Inr (x, s') \<Longrightarrow> blocks_inv s \<Longrightarrow> blocks_inv s'"
proof -
  assume "set_body d s = Inr (x, s')" "blocks_inv s"
  then obtain b s1 where b: "cfg_block_init (Some d) s = Inr (b, s1)"
    and u: "update_def (Some d) (\<lambda>x. x\<lparr>d_body := Some b\<rparr>) s1 = Inr ((), s')"
    by (auto simp: set_body_def ebind_Inr eret_def)
  have "blocks_inv s1" using cfg_block_init_inv [OF b \<open>blocks_inv s\<close>] by simp
  moreover have "blocks_inv s' = blocks_inv s1"
    using u by (intro blocks_inv_cong) (auto simp: update_def_def map_nodes_same split: if_splits)
  ultimately show ?thesis by simp
qed

lemma cfg_init_inv: "cfg_init s = Inr (d, s') \<Longrightarrow> blocks_inv s \<Longrightarrow> blocks_inv s'"
proof -
  assume c: "cfg_init s = Inr (d, s')" and inv: "blocks_inv s"
  show ?thesis
  proof (cases "p_prototypes s = []")
    case True
    have "blocks_inv (s\<lparr>p_defs := p_defs s @ [zero_definition]\<rparr>)"
      using inv by (simp add: blocks_inv_def owned_blocks_def zero_definition_def)
    then show ?thesis using c True set_body_inv by (auto simp: cfg_init_def)
  next
    case False
    let ?s = "s\<lparr>p_prototypes := butlast (p_prototypes s)\<rparr>" and ?d = "last (p_prototypes s)"
    obtain s1 where s1: "cfg_empty (Some ?d) ?s = Inr ((), s1)" "set_body ?d s1 = Inr (d, s')"
      using c False by (auto simp: cfg_init_def Let_def ebind_Inr eassert_def eret_def efail_def read_def_def split: if_splits)
    have "blocks_inv ?s = blocks_inv s" by (rule blocks_inv_cong) simp_all
    then show ?thesis using cfg_empty_inv [OF s1(1)] set_body_inv [OF s1(2)] inv by simp
  qed
qed

lemma cfg_discard_inv: "cfg_discard d s = Inr (u, s') \<Longrightarrow> blocks_inv s \<Longrightarrow> blocks_inv s'"
proof -
  assume c: "cfg_discard d s = Inr (u, s')" and inv: "blocks_inv s"
  obtain s1 s2 where s1: "update_def (Some d) (\<lambda>x. x\<lparr>d_symbol := None\<rparr>) s = Inr ((), s1)" "cfg_empty (Some d) s1 = Inr ((), s2)"
      "s' = s2\<lparr>p_prototypes := p_prototypes s2 @ [d]\<rparr>"
    using c by (auto simp: cfg_discard_def ebind_Inr)
  have "blocks_inv s1 = blocks_inv s"
    using s1(1) by (intro blocks_inv_cong) (auto simp: update_def_def map_nodes_same split: if_splits)
  moreover have "blocks_inv s' = blocks_inv s2" using s1(3) by (intro blocks_inv_cong) simp_all
  ultimately show ?thesis using cfg_empty_inv [OF s1(2)] inv by simp
qed

lemma cfg_define_inv: "cfg_define d r s = Inr (u, s') \<Longrightarrow> blocks_inv s \<Longrightarrow> blocks_inv s'"
proof -
  assume c: "cfg_define d r s = Inr (u, s')" and inv: "blocks_inv s"
  then have "blocks_inv s' = blocks_inv s"
    by (intro blocks_inv_cong)
      (auto simp: cfg_define_def ebind_def get_symbol_def eassert_def eret_def efail_def read_def_def update_def_def map_nodes_same
        split: if_splits)
  then show ?thesis using inv by simp
qed

lemma parse_discard_inv: "parse_discard s = Inr (u, s') \<Longrightarrow> blocks_inv s \<Longrightarrow> blocks_inv s'"
  using cfg_discard_inv by (auto simp: parse_discard_def split: option.splits)

lemma parse_next_inv: "parse_next s = Inr (x, s') \<Longrightarrow> blocks_inv s \<Longrightarrow> blocks_inv s'"
proof -
  assume n: "parse_next s = Inr (x, s')" and inv: "blocks_inv s"
  show ?thesis
  proof (cases "p_definitions s")
    case Nil
    then obtain s1 where s1: "eiter recycle_block (p_expressions s) s = Inr ((), s1)" "s' = s1\<lparr>p_expressions := [], p_def := None\<rparr>"
      using n by (auto simp: parse_next_def ebind_Inr)
    then show ?thesis using recycle_blocks [OF s1(1)] inv by (auto simp: blocks_inv_def owned_blocks_def ac_simps)
  next
    case (Cons d ds)
    then show ?thesis using n inv blocks_inv_cong [of s' s] by (auto simp: parse_next_def)
  qed
qed

section \<open>Histories\<close>

text \<open>
  What the parser does with blocks and definitions: it calls the operations above, and in
  between it writes to blocks that are not free, changes the symbols of definitions, and the symbol table.
\<close>

datatype cfg_op =
  Block_Init "defref option" | Init | Discard defref | Define_Symbol defref symref | Discard_Last | Next
| Write blockref block | Set_Symbols defref "symref list" "symref list" "symref list" | Set_Symtab symtab

fun do_op :: "cfg_op \<Rightarrow> unit ev" where
  "do_op (Block_Init def) = ebind (cfg_block_init def) (\<lambda>_. eret ())"
| "do_op Init = ebind cfg_init (\<lambda>_. eret ())"
| "do_op (Discard d) = cfg_discard d"
| "do_op (Define_Symbol d sy) = cfg_define d sy"
| "do_op Discard_Last = parse_discard"
| "do_op Next = ebind parse_next (\<lambda>_. eret ())"
| "do_op (Write b x) = (\<lambda>s. if b \<in> set (p_free s) then Inl Undefined_Behaviour else update_block (Some b) (\<lambda>_. x) s)"
| "do_op (Set_Symbols d ps ls bs) = update_def (Some d) (\<lambda>x. x\<lparr>d_params := ps, d_locals := ls, d_labels := bs\<rparr>)"
| "do_op (Set_Symtab st) = (\<lambda>s. Inr ((), s\<lparr>p_symtab := st\<rparr>))"

definition start_parser :: "symtab \<Rightarrow> parser_state" where
  "start_parser st = \<lparr>p_symtab = st, p_cfg = [], p_free = [], p_expressions = [], p_defs = [], p_prototypes = [],
     p_definitions = [], p_def = None\<rparr>"

text \<open>The blocks in all places together.\<close>

definition block_places :: "parser_state \<Rightarrow> blockref list" where
  "block_places s = p_free s @ p_expressions s @ concat (map d_nodes (p_defs s))"

lemma mset_block_places: "mset (block_places s) = owned_blocks s"
proof -
  have "mset (concat (map d_nodes ds)) = (\<Sum>d \<in># mset ds. mset (d_nodes d))" for ds by (induction ds) simp_all
  then show ?thesis by (simp add: block_places_def owned_blocks_def)
qed

lemma blocks_inv_places: "blocks_inv s \<Longrightarrow> distinct (block_places s) \<and> set (block_places s) = {..<length (p_cfg s)}"
proof -
  assume "blocks_inv s"
  then have m: "mset (block_places s) = mset [0..<length (p_cfg s)]" by (simp add: mset_block_places blocks_inv_def)
  from mset_eq_setD [OF m] mset_eq_imp_distinct_iff [OF m] show ?thesis by (auto simp: atLeast_upt)
qed

lemma do_op_inv: "do_op op s = Inr (u, s') \<Longrightarrow> blocks_inv s \<Longrightarrow> blocks_inv s'"
proof (induction op rule: do_op.induct)
  case (7 b x)
  then show ?case
    by (auto simp: update_block_def outcome_simps get_block_Inr blocks_inv_def owned_blocks_def nth_list_update split: if_splits)
next
  case (8 d ps ls bs)
  then have "blocks_inv s' = blocks_inv s"
    by (intro blocks_inv_cong) (auto simp: update_def_def map_nodes_same split: if_splits)
  then show ?case using 8 by simp
next
  case (9 st)
  then show ?case using blocks_inv_cong [of s' s] by auto
qed (auto simp: ebind_Inr eret_def dest: cfg_block_init_inv cfg_init_inv cfg_discard_inv cfg_define_inv parse_discard_inv parse_next_inv)

lemma history_inv: "eiter do_op ops s = Inr (u, s') \<Longrightarrow> blocks_inv s \<Longrightarrow> blocks_inv s'"
proof (induction ops arbitrary: s)
  case (Cons op ops)
  then obtain s1 where "do_op op s = Inr ((), s1)" "eiter do_op ops s1 = Inr (u, s')" by (auto simp: ebind_Inr)
  then show ?case using Cons do_op_inv by blast
qed (simp add: eret_def)

lemma start_inv: "blocks_inv (start_parser st)"
  by (simp add: blocks_inv_def owned_blocks_def start_parser_def)

lemma handed_out_fresh:
  assumes "blocks_inv s" "cfg_block_init def s = Inr (b, s')"
  shows "b \<notin> set (p_expressions s) \<and> (\<forall>d \<in> set (p_defs s). b \<notin> set (d_nodes d)) \<and> reset_block ((p_cfg s' ! b)\<lparr>b_label := None\<rparr>)"
proof -
  obtain s1 where a: "alloc_block s = Inr (b, s1)" using assms(2) cfg_block_init_Some cfg_block_init_None
    by (metis option.exhaust)
  have p: "distinct (block_places s)" "set (block_places s) = {..<length (p_cfg s)}" using blocks_inv_places [OF assms(1)] by simp_all
  have "b \<in> set (p_free s) \<or> b = length (p_cfg s)"
    using a by (auto simp: alloc_block_def split: if_splits)
  then have "b \<in> set (p_free s) \<or> b \<notin> set (block_places s)" using p(2) by (metis lessThan_iff order_less_irrefl)
  then have "b \<notin> set (p_expressions s) \<and> (\<forall>d \<in> set (p_defs s). b \<notin> set (d_nodes d))"
    using p(1) by (auto simp: block_places_def)
  then show ?thesis using cfg_block_init_inv [OF assms(2,1)] by simp
qed

text \<open>
  Property C30. Blocks are neither shared nor lost. After any history of the parser from its
  start, in which blocks are handed out, definitions made, discarded and handed on, and blocks
  that are not free are written, every block that was allocated is in exactly one place and once:
  free, in the nodes of one definition, or in the list of expressions. Every free block is reset, that
  is, as new in all fields but its jump table, the offset of that, and the two sets of the liveness analysis; and the
  block that \<open>cfg_block_init\<close> hands out next was in no other place and is reset but for its label.
  That the table is not emptied is a defect of \<open>recycle_block\<close>, which the witness shows: a block
  with an entry in its table is discarded and handed out again with that entry.
\<close>

theorem block_ownership:
  assumes "eiter do_op ops (start_parser st) = Inr ((), s)"
  shows "distinct (block_places s) \<and> set (block_places s) = {..<length (p_cfg s)} \<and>
    (\<forall>b \<in> set (p_free s). reset_block (p_cfg s ! b)) \<and>
    (\<forall>def b s'. cfg_block_init def s = Inr (b, s') \<longrightarrow>
       b \<notin> set (p_expressions s) \<and> (\<forall>d \<in> set (p_defs s). b \<notin> set (d_nodes d)) \<and> reset_block ((p_cfg s' ! b)\<lparr>b_label := None\<rparr>))"
proof -
  have "blocks_inv s" by (rule history_inv [OF assms start_inv])
  then show ?thesis using blocks_inv_places handed_out_fresh by (auto simp: blocks_inv_def)
qed

definition demo_table_block :: block where
  "demo_table_block = zero_block\<lparr>b_has_jump_table := True, b_jump_table := [\<lparr>jp_value = 0, jp_label = 0, jp_symbol = None\<rparr>]\<rparr>"

definition demo_history :: "cfg_op list" where
  "demo_history = [Init, Block_Init None, Write 0 demo_table_block, Discard 0]"

lemma demo_history_result:
  "\<exists>s. eiter do_op demo_history (start_parser st) = Inr ((), s) \<and> block_places s = [0, 1] \<and>
     cfg_block_init None s = Inr (0, s\<lparr>p_free := [], p_expressions := [1, 0]\<rparr>) \<and> b_jump_table (p_cfg s ! 0) \<noteq> []"
proof -
  obtain st' l where l: "sym_create_label st = (st', l)" by (cases "sym_create_label st")
  show ?thesis
    by (simp add: demo_history_def start_parser_def ev_simps ebind_def eret_def cfg_init_def set_body_def cfg_block_init_def alloc_block_def
        create_label_def msymtab_def update_def_def update_block_def l get_block_def zero_definition_def cfg_discard_def cfg_empty_def
        read_def_def discard_symbol_def recycle_block_def block_places_def demo_table_block_def)
qed

theorem block_ownership_witness:
  "\<forall>st. \<exists>s s'. eiter do_op demo_history (start_parser st) = Inr ((), s) \<and> set (block_places s) = {..<length (p_cfg s)} \<and>
     cfg_block_init None s = Inr (0, s') \<and> 0 \<notin> set (p_expressions s) \<and> b_jump_table (p_cfg s' ! 0) \<noteq> []"
proof
  fix st
  obtain s where s: "eiter do_op demo_history (start_parser st) = Inr ((), s)"
      "cfg_block_init None s = Inr (0, s\<lparr>p_free := [], p_expressions := [1, 0]\<rparr>)" "b_jump_table (p_cfg s ! 0) \<noteq> []"
    using demo_history_result [of st] by blast
  show "\<exists>s s'. eiter do_op demo_history (start_parser st) = Inr ((), s) \<and> set (block_places s) = {..<length (p_cfg s)} \<and>
     cfg_block_init None s = Inr (0, s') \<and> 0 \<notin> set (p_expressions s) \<and> b_jump_table (p_cfg s' ! 0) \<noteq> []"
    using block_ownership [OF s(1)] s by fastforce
qed

end
