(* ===== verification/Eval.thy ===== *)
theory Eval
  imports Cfg C_Arith
begin

unbundle bit_operations_syntax

text \<open>
  The evaluation of expressions, \<open>src/parser/eval.c\<close>: operations on constants are
  carried out by the compiler, all others append statements to the current block
  and denote their result by a variable or an expression. The current block is
  missing where an expression is not evaluated, as in the operand of
  \<open>sizeof\<close>. Floating point arithmetic of the host is the parameter \<open>fl\<close>.
  Diagnostics are identified by their formats; warnings have no effect.

  The operations call each other: a conversion may take the address of an array,
  which may add an offset, which converts its operands again. They are given the
  evaluation of operators that they call, and \<open>eval_expr\<close> ties the knot with a
  depth that is shown to be enough.
\<close>

section \<open>Constants\<close>

text \<open>The floating point members of the union \<open>value\<close>: \<open>f\<close> and, both of type \<open>double\<close>, \<open>d\<close> and \<open>ld\<close>.\<close>

fun fval :: "float_kind \<Rightarrow> cvalue \<Rightarrow> int" where
  "fval FLT v = uint (val_u v AND 0xFFFFFFFF)"
| "fval _ v = uint (val_u v)"

fun set_fval :: "float_kind \<Rightarrow> int \<Rightarrow> cvalue \<Rightarrow> cvalue" where
  "set_fval FLT x v = v\<lparr>val_u := (val_u v AND NOT 0xFFFFFFFF) OR (word_of_int x AND 0xFFFFFFFF)\<rparr>"
| "set_fval _ x v = v\<lparr>val_u := word_of_int x\<rparr>"

definition set_i :: "int \<Rightarrow> cvalue \<Rightarrow> cvalue" where
  "set_i n v = v\<lparr>val_u := word_of_int n\<rparr>"

definition zero_value :: cvalue where
  "zero_value = \<lparr>val_u = 0\<rparr>"

text \<open>The type of the member that holds a constant of floating point type.\<close>

definition float_kind_of_type :: "ctype \<Rightarrow> float_kind option" where
  "float_kind_of_type t = (if is_float t then Some FLT else if is_double t \<or> is_long_double t then Some DBL else None)"

definition is_zero_value :: "host_floats \<Rightarrow> cvalue \<Rightarrow> ctype \<Rightarrow> bool outcome" where
  "is_zero_value fl v type =
     obind (oassert (is_scalar type)) (\<lambda>_. Inr (case float_kind_of_type type of
        Some k \<Rightarrow> h_cmp fl k Eq (fval k v) 0
      | None \<Rightarrow> val_u v = 0))"

definition is_immediate_true :: "host_floats \<Rightarrow> expression \<Rightarrow> bool ev" where
  "is_immediate_true fl e =
     etypes (\<lambda>ts. obind (is_identity ts e) (\<lambda>i.
       if i \<and> v_kind (e_l e) = IMMEDIATE then obind (is_zero_value fl (v_imm (e_l e)) (e_type e)) (\<lambda>z. Inr (\<not> z))
       else Inr False))"

definition is_immediate_false :: "host_floats \<Rightarrow> expression \<Rightarrow> bool ev" where
  "is_immediate_false fl e =
     etypes (\<lambda>ts. obind (is_identity ts e) (\<lambda>i.
       if i \<and> v_kind (e_l e) = IMMEDIATE then is_zero_value fl (v_imm (e_l e)) (e_type e) else Inr False))"

text \<open>A reference to a variable; the assertion of the code holds, since a type equals itself.\<close>

definition as_expr :: "var \<Rightarrow> expression" where
  "as_expr v = \<lparr>e_op = IR_OP_CAST, e_type = v_type v, e_l = v, e_r = zero_var\<rparr>"

definition is_nullptr :: "host_floats \<Rightarrow> var \<Rightarrow> bool ev" where
  "is_nullptr fl v = (if is_integer (v_type v) \<or> is_pointer (v_type v) then is_immediate_false fl (as_expr v) else eret False)"

definition is_immediate :: "type_store \<Rightarrow> expression \<Rightarrow> bool outcome" where
  "is_immediate ts e = obind (is_identity ts e) (\<lambda>i. Inr (i \<and> v_kind (e_l e) = IMMEDIATE))"

definition is_comparison :: "expression \<Rightarrow> bool" where
  "is_comparison e \<longleftrightarrow> e_op e \<in> {IR_OP_EQ, IR_OP_NE, IR_OP_GE, IR_OP_GT}"

definition is_field :: "var \<Rightarrow> bool" where
  "is_field v \<longleftrightarrow> v_field_width v \<noteq> 0"

definition is_constant :: "var \<Rightarrow> bool" where
  "is_constant v \<longleftrightarrow> v_kind v = IMMEDIATE \<or> v_kind v = DEREF \<and> v_symbol v = None"

definition is_string :: "var \<Rightarrow> bool ev" where
  "is_string v =
     (if v_kind v = IMMEDIATE \<and> v_symbol v \<noteq> None
      then ebind (get_symbol (v_symbol v)) (\<lambda>sy. eret (s_symtype sy = SYM_STRING_VALUE)) else eret False)"

section \<open>Variables\<close>

definition var_void :: var where
  "var_void = zero_var\<lparr>v_kind := IMMEDIATE, v_type := basic_type__void\<rparr>"

definition var_int :: "int \<Rightarrow> var" where
  "var_int n = zero_var\<lparr>v_kind := IMMEDIATE, v_type := basic_type__int, v_imm := imm_of n\<rparr>"

definition var_numeric :: "ctype \<Rightarrow> cvalue \<Rightarrow> var" where
  "var_numeric type v = zero_var\<lparr>v_kind := IMMEDIATE, v_type := type, v_imm := v\<rparr>"

text \<open>The constant of a symbol; a union that was never assigned is zero.\<close>

fun symbol_constant :: "sym_value \<Rightarrow> cvalue outcome" where
  "symbol_constant (Constant v) = Inr v"
| "symbol_constant No_Value = Inr zero_value"
| "symbol_constant _ = Inl Undefined_Behaviour"

definition var_direct :: "symref option \<Rightarrow> var ev" where
  "var_direct r =
     ebind (eassert (r \<noteq> None)) (\<lambda>_.
     ebind (get_symbol r) (\<lambda>sy.
       let v = zero_var\<lparr>v_type := s_type sy, v_symbol := r\<rparr> in
       case s_symtype sy of
         SYM_CONSTANT \<Rightarrow> etypes (\<lambda>_. obind (symbol_constant (s_value sy)) (\<lambda>c. Inr (v\<lparr>v_kind := IMMEDIATE, v_imm := c\<rparr>)))
       | SYM_STRING_VALUE \<Rightarrow> eret (v\<lparr>v_kind := IMMEDIATE\<rparr>)
       | SYM_TABLE \<Rightarrow> eret (v\<lparr>v_kind := IMMEDIATE\<rparr>)
       | SYM_LABEL \<Rightarrow> efail Assert_Failed
       | _ \<Rightarrow> eret (v\<lparr>v_kind := DIRECT, v_lvalue := \<not> is_temporary sy\<rparr>)))"

definition create_var :: "defref option \<Rightarrow> ctype \<Rightarrow> var ev" where
  "create_var def type =
     ebind (eassert (def \<noteq> None)) (\<lambda>_.
     ebind (eassert (\<not> is_void type)) (\<lambda>_.
     ebind (msymtab (\<lambda>st. sym_create_temporary st type)) (\<lambda>tmp.
     ebind (var_direct (Some tmp)) (\<lambda>res.
     ebind (update_def def (\<lambda>d. d\<lparr>d_locals := d_locals d @ [tmp]\<rparr>)) (\<lambda>_.
       eret (res\<lparr>v_lvalue := True\<rparr>))))))"

definition imm_signed :: "ctype \<Rightarrow> int \<Rightarrow> var outcome" where
  "imm_signed type n = obind (oassert (is_signed type)) (\<lambda>_. Inr (var_numeric type (imm_of n)))"

definition imm_unsigned :: "type_store \<Rightarrow> ctype \<Rightarrow> int \<Rightarrow> var outcome" where
  "imm_unsigned ts type n =
     obind (oassert (is_unsigned type)) (\<lambda>_.
     obind (size_of ts type) (\<lambda>sz.
       if sz < 8 then
         obind (oassert (sz = 4 \<or> sz = 2 \<or> sz = 1)) (\<lambda>_.
           Inr (var_numeric type (zero_value\<lparr>val_u := word_of_int n AND word_of_int (0xFFFFFFFF div 2 ^ ((4 - sz) * 8))\<rparr>)))
       else Inr (var_numeric type (imm_of n))))"

definition imm_float :: "int \<Rightarrow> var" where
  "imm_float n = var_numeric basic_type__float (set_fval FLT n zero_value)"

definition imm_double :: "int \<Rightarrow> var" where
  "imm_double n = var_numeric basic_type__double (set_fval DBL n zero_value)"

text \<open>The argument is the \<open>double\<close> to which the assignment to \<open>ld\<close> converts it.\<close>

definition imm_long_double :: "int \<Rightarrow> var" where
  "imm_long_double n = var_numeric basic_type__long_double (set_fval DBL n zero_value)"

section \<open>Arithmetic on constants\<close>

datatype fold_op = Fold_Add | Fold_Sub | Fold_Mul | Fold_Div | Fold_Mod | Fold_And | Fold_Or | Fold_Xor | Fold_Shl | Fold_Shr

fun fold_int :: "fold_op \<Rightarrow> int_type \<Rightarrow> int \<Rightarrow> int \<Rightarrow> int outcome" where
  "fold_int Fold_Add = c_add"
| "fold_int Fold_Sub = c_sub"
| "fold_int Fold_Mul = c_mul"
| "fold_int Fold_Div = c_div"
| "fold_int Fold_Mod = c_mod"
| "fold_int Fold_And = c_and"
| "fold_int Fold_Or = c_or"
| "fold_int Fold_Xor = c_xor"
| "fold_int Fold_Shl = c_shl"
| "fold_int Fold_Shr = c_shr"

fun float_op :: "fold_op \<Rightarrow> arith_op option" where
  "float_op Fold_Add = Some Add"
| "float_op Fold_Sub = Some Sub"
| "float_op Fold_Mul = Some Mul"
| "float_op Fold_Div = Some Div"
| "float_op _ = None"

definition eval_integer_immediate :: "type_store \<Rightarrow> fold_op \<Rightarrow> ctype \<Rightarrow> var \<Rightarrow> var \<Rightarrow> var outcome" where
  "eval_integer_immediate ts op t l r =
     (if is_signed t
      then obind (fold_int op i64_type (val_i (v_imm l)) (val_i (v_imm r))) (imm_signed t)
      else obind (fold_int op u64_type (uint (val_u (v_imm l))) (uint (val_u (v_imm r)))) (imm_unsigned ts t))"

definition eval_arithmetic_immediate :: "host_floats \<Rightarrow> type_store \<Rightarrow> fold_op \<Rightarrow> ctype \<Rightarrow> var \<Rightarrow> var \<Rightarrow> var outcome" where
  "eval_arithmetic_immediate fl ts op t l r =
     (if is_signed t \<or> is_unsigned t \<or> is_pointer t then eval_integer_immediate ts op t l r
      else
        let res = (\<lambda>k f. h_arith fl k f (fval k (v_imm l)) (fval k (v_imm r))) in
        case float_op op of
          Some f \<Rightarrow> Inr (if is_float t then imm_float (res FLT f) else if is_double t then imm_double (res DBL f)
                         else imm_long_double (res DBL f))
        | None \<Rightarrow> Inl Undefined_Behaviour)"

definition eval_immediate_compare :: "host_floats \<Rightarrow> cmp_op \<Rightarrow> ctype \<Rightarrow> var \<Rightarrow> var \<Rightarrow> var" where
  "eval_immediate_compare fl op t l r =
     var_int (bool_int
       (if is_signed t then cmp_int op (val_i (v_imm l)) (val_i (v_imm r))
        else if is_unsigned t \<or> is_pointer t then cmp_int op (uint (val_u (v_imm l))) (uint (val_u (v_imm r)))
        else
          let k = (if is_float t then FLT else DBL)
          in h_cmp fl k op (fval k (v_imm l)) (fval k (v_imm r))))"

section \<open>Conversion of constants\<close>

text \<open>
  The conversion of a constant to an integer type of the host. A floating point
  value must fit without its fraction.
\<close>

definition cast_immediate :: "host_floats \<Rightarrow> cvalue \<Rightarrow> ctype \<Rightarrow> int_type \<Rightarrow> int outcome" where
  "cast_immediate fl v t it =
     (if is_signed t then Inr (to_type it (val_i v))
      else if is_unsigned t \<or> is_pointer t then Inr (to_type it (uint (val_u v)))
      else
        let k = (if is_float t then FLT else DBL) in
        case h_trunc fl k (fval k v) of
          Some z \<Rightarrow> if in_type it z then Inr z else Inl Undefined_Behaviour
        | None \<Rightarrow> Inl Undefined_Behaviour)"

definition is_float_cmp :: "host_floats \<Rightarrow> cmp_op \<Rightarrow> cvalue \<Rightarrow> ctype \<Rightarrow> int \<Rightarrow> bool" where
  "is_float_cmp fl op v t n =
     (case float_kind_of_type t of Some k \<Rightarrow> h_cmp fl k op (fval k v) (h_of_int fl k n) | None \<Rightarrow> False)"

text \<open>The pattern of the integer branches: clamp to the limits, or convert.\<close>

definition convert_clamped :: "host_floats \<Rightarrow> cvalue \<Rightarrow> ctype \<Rightarrow> int_type \<Rightarrow> int \<Rightarrow> int \<Rightarrow> cvalue outcome" where
  "convert_clamped fl v type it lo hi =
     obind (if is_float_cmp fl Lt v type lo then Inr lo
            else if is_float_cmp fl Gt v type hi then Inr hi
            else cast_immediate fl v type it) (\<lambda>n. Inr (set_i n v))"

text \<open>
  The macro \<open>LONGLONG_MIN\<close> of \<open>include/kcs.h\<close> is a hexadecimal constant that does not
  fit \<open>long long\<close>, so it has an unsigned type and a positive value.
\<close>

definition LONGLONG_MIN :: int where
  "LONGLONG_MIN = 0x8000000000000000"

text \<open>
  The pattern of the floating point branches, given the type of the member and the
  conversion of integers to it, which for \<open>ld\<close> goes through \<open>long double\<close>.
\<close>

definition convert_to_float :: "host_floats \<Rightarrow> float_kind \<Rightarrow> (int \<Rightarrow> int) \<Rightarrow> cvalue \<Rightarrow> ctype \<Rightarrow> cvalue" where
  "convert_to_float fl k from_int v type =
     set_fval k
       (case float_kind_of_type type of
          Some k' \<Rightarrow> if k' = k then fval k v else h_conv fl k' k (fval k' v)
        | None \<Rightarrow>
            if is_signed type then from_int (val_i v)
            else if is_unsigned type then from_int (uint (val_u v))
            else fval k v) v"

definition convert :: "host_floats \<Rightarrow> cvalue \<Rightarrow> ctype \<Rightarrow> ctype \<Rightarrow> cvalue outcome" where
  "convert fl v type to =
     (case type_of to of
        T_FLOAT \<Rightarrow> Inr (convert_to_float fl FLT (h_of_int fl FLT) v type)
      | T_DOUBLE \<Rightarrow> Inr (convert_to_float fl DBL (h_of_int fl DBL) v type)
      | T_LDOUBLE \<Rightarrow> Inr (convert_to_float fl DBL (\<lambda>n. h_conv fl LDBL DBL (h_of_int fl LDBL n)) v type)
      | T_BOOL \<Rightarrow> obind (is_zero_value fl v type) (\<lambda>z. Inr (set_i (bool_int (\<not> z)) v))
      | T_CHAR \<Rightarrow> if is_signed to then convert_clamped fl v type (1, True) (-128) 127
                  else convert_clamped fl v type (1, False) 0 255
      | T_SHORT \<Rightarrow> if is_signed to then convert_clamped fl v type (2, True) (-32768) 32767
                   else convert_clamped fl v type (2, False) 0 65535
      | T_INT \<Rightarrow> if is_signed to then convert_clamped fl v type (4, True) (-2147483648) 2147483647
                 else convert_clamped fl v type (4, False) 0 4294967295
      | T_LONG \<Rightarrow> if is_signed to then convert_clamped fl v type (8, True) LONGLONG_MIN 0x7FFFFFFFFFFFFFFF
                  else convert_clamped fl v type (8, False) 0 0xFFFFFFFFFFFFFFFF
      | T_POINTER \<Rightarrow> convert_clamped fl v type (8, False) 0 0xFFFFFFFFFFFFFFFF
      | _ \<Rightarrow> Inl Assert_Failed)"

section \<open>Expressions and statements\<close>

text \<open>The argument behind the first operand: none, a type or a second operand.\<close>

datatype eval_arg = A_None | A_Type ctype | A_Var var

fun arg_type :: "eval_arg \<Rightarrow> ctype outcome" where
  "arg_type (A_Type t) = Inr t"
| "arg_type _ = Inl Undefined_Behaviour"

fun arg_var :: "eval_arg \<Rightarrow> var outcome" where
  "arg_var (A_Var v) = Inr v"
| "arg_var _ = Inl Undefined_Behaviour"

definition create_expr :: "type_store \<Rightarrow> optype \<Rightarrow> var \<Rightarrow> eval_arg \<Rightarrow> expression outcome" where
  "create_expr ts op l a =
     (if op = IR_OP_CAST \<or> op = IR_OP_VA_ARG then
        obind (arg_type a) (\<lambda>t. Inr \<lparr>e_op = op, e_type = t, e_l = l, e_r = zero_var\<rparr>)
      else if op = IR_OP_CALL then
        obind (oassert (is_pointer (v_type l))) (\<lambda>_. obind (type_next ts (v_type l)) (\<lambda>f.
        obind (oassert (is_function f)) (\<lambda>_. obind (type_next ts f) (\<lambda>t.
          Inr \<lparr>e_op = op, e_type = t, e_l = l, e_r = zero_var\<rparr>))))
      else if op = IR_OP_NOT then
        obind (oassert (is_integer (v_type l))) (\<lambda>_. Inr \<lparr>e_op = op, e_type = v_type l, e_l = l, e_r = zero_var\<rparr>)
      else if op = IR_OP_NEG then Inr \<lparr>e_op = op, e_type = v_type l, e_l = l, e_r = zero_var\<rparr>
      else
        obind (arg_var a) (\<lambda>r.
          if op \<in> {IR_OP_ADD, IR_OP_SUB, IR_OP_MUL, IR_OP_DIV, IR_OP_MOD} then
            Inr \<lparr>e_op = op, e_type = v_type l, e_l = l, e_r = r\<rparr>
          else if op \<in> {IR_OP_AND, IR_OP_OR, IR_OP_XOR, IR_OP_SHL, IR_OP_SHR} then
            obind (oassert (is_integer (v_type l))) (\<lambda>_. Inr \<lparr>e_op = op, e_type = v_type l, e_l = l, e_r = r\<rparr>)
          else Inr \<lparr>e_op = op, e_type = basic_type__int, e_l = l, e_r = r\<rparr>))"

definition emit_ir :: "blockref option \<Rightarrow> sttype \<Rightarrow> var \<Rightarrow> expression \<Rightarrow> unit ev" where
  "emit_ir block st t e =
     (if block = None then eret ()
      else update_block block (\<lambda>b. b\<lparr>b_code := b_code b @
        [\<lparr>st_st = st, st_out = 0, st_t = (if st = IR_ASSIGN \<or> st = IR_VLA_ALLOC then t else var_void), st_expr = e\<rparr>]\<rparr>))"

definition eval_expression_statement :: "defref option \<Rightarrow> blockref option \<Rightarrow> expression \<Rightarrow> expression ev" where
  "eval_expression_statement def block e =
     ebind (if has_side_effects e then
              (if \<not> is_struct_or_union (e_type e) then emit_ir block IR_EXPR var_void e
               else ebind (create_var def (e_type e)) (\<lambda>res. emit_ir block IR_ASSIGN res e))
            else eret ()) (\<lambda>_. eret (as_expr var_void))"

definition eval :: "defref option \<Rightarrow> blockref option \<Rightarrow> expression \<Rightarrow> var ev" where
  "eval def block e =
     ebind (etypes (\<lambda>ts. is_identity ts e)) (\<lambda>i.
       if i then eret (e_l e)
       else if is_void (e_type e) then ebind (emit_ir block IR_EXPR var_void e) (\<lambda>_. eret var_void)
       else
         ebind (create_var def (e_type e)) (\<lambda>res.
         ebind (emit_ir block IR_ASSIGN res e) (\<lambda>_. eret (res\<lparr>v_lvalue := False\<rparr>))))"

definition cast :: "host_floats \<Rightarrow> var \<Rightarrow> ctype \<Rightarrow> expression ev" where
  "cast fl var type =
     (if is_void type then eret (as_expr var_void)
      else if \<not> is_scalar (v_type var) \<or> \<not> is_scalar type then
        eerror ''Invalid type parameters to cast expression, cannot convert from %t to %t.''
      else
        ebind
          (if v_kind var = IMMEDIATE then
             ebind (is_string var) (\<lambda>str.
               if str then eret (as_expr (var\<lparr>v_type := type\<rparr>))
               else
                 ebind (eassert (v_offset var = 0)) (\<lambda>_.
                   etypes (\<lambda>_. obind (convert fl (v_imm var) (v_type var) type) (\<lambda>v. Inr (as_expr (var_numeric type v))))))
           else
             ebind (etypes (\<lambda>ts. obind (size_of ts (v_type var)) (\<lambda>n. obind (size_of ts type) (\<lambda>m. Inr (n = m))))) (\<lambda>same.
               if same \<and> (is_pointer (v_type var) \<or> is_pointer type) then eret (as_expr (var\<lparr>v_type := type\<rparr>))
               else
                 etypes (\<lambda>ts. obind (type_equal ts (v_type var) type) (\<lambda>eq.
                   if \<not> eq then create_expr ts IR_OP_CAST var (A_Type type) else Inr (as_expr var)))))
          (\<lambda>e. ebind (etypes (\<lambda>ts. type_equal ts (e_type e) type)) (\<lambda>eq.
             ebind (eassert eq) (\<lambda>_. eret e))))"

section \<open>Operators\<close>

text \<open>In this section \<open>rec\<close> is the evaluation of an operator in the same block.\<close>

type_synonym eval_rec = "optype \<Rightarrow> var \<Rightarrow> eval_arg \<Rightarrow> expression ev"

definition eval_cast_with :: "eval_rec \<Rightarrow> defref option \<Rightarrow> blockref option \<Rightarrow> var \<Rightarrow> ctype \<Rightarrow> var ev" where
  "eval_cast_with rec def block var type = ebind (rec IR_OP_CAST var (A_Type type)) (eval def block)"

text \<open>Both operands in a common type.\<close>

definition eval_casts_with ::
  "eval_rec \<Rightarrow> defref option \<Rightarrow> blockref option \<Rightarrow> var \<Rightarrow> var \<Rightarrow> ctype \<Rightarrow> (var \<times> var) ev" where
  "eval_casts_with rec def block l r type =
     ebind (eval_cast_with rec def block l type) (\<lambda>l'.
     ebind (eval_cast_with rec def block r type) (\<lambda>r'. eret (l', r')))"

definition both_immediate :: "var \<Rightarrow> var \<Rightarrow> bool" where
  "both_immediate l r \<longleftrightarrow> v_kind l = IMMEDIATE \<and> v_kind r = IMMEDIATE"

text \<open>The end of the arithmetic operators: fold two constants, or make an expression.\<close>

definition arithmetic_result :: "host_floats \<Rightarrow> fold_op \<Rightarrow> optype \<Rightarrow> ctype \<Rightarrow> var \<Rightarrow> var \<Rightarrow> expression ev" where
  "arithmetic_result fl fop op type l r =
     (if both_immediate l r
      then ebind (etypes (\<lambda>ts. eval_arithmetic_immediate fl ts fop type l r)) (\<lambda>v. cast fl v type)
      else etypes (\<lambda>ts. create_expr ts op l (A_Var r)))"

definition integer_result :: "host_floats \<Rightarrow> fold_op \<Rightarrow> optype \<Rightarrow> ctype \<Rightarrow> var \<Rightarrow> var \<Rightarrow> expression ev" where
  "integer_result fl fop op type l r =
     (if both_immediate l r
      then ebind (etypes (\<lambda>ts. eval_integer_immediate ts fop type l r)) (\<lambda>v. cast fl v type)
      else etypes (\<lambda>ts. create_expr ts op l (A_Var r)))"

definition mul_with :: "eval_rec \<Rightarrow> host_floats \<Rightarrow> defref option \<Rightarrow> blockref option \<Rightarrow> var \<Rightarrow> var \<Rightarrow> expression ev" where
  "mul_with rec fl def block l r =
     ebind (etypes (\<lambda>ts. usual_arithmetic_conversion ts (v_type l) (v_type r))) (\<lambda>type.
     ebind (eval_casts_with rec def block l r type) (\<lambda>(l', r').
       arithmetic_result fl Fold_Mul IR_OP_MUL type l' r'))"

definition ediv_with :: "eval_rec \<Rightarrow> host_floats \<Rightarrow> defref option \<Rightarrow> blockref option \<Rightarrow> var \<Rightarrow> var \<Rightarrow> expression ev" where
  "ediv_with rec fl def block l r =
     ebind (etypes (\<lambda>ts. usual_arithmetic_conversion ts (v_type l) (v_type r))) (\<lambda>type.
     ebind (eval_casts_with rec def block l r type) (\<lambda>(l', r').
       arithmetic_result fl Fold_Div IR_OP_DIV type l' r'))"

definition mod_with :: "eval_rec \<Rightarrow> host_floats \<Rightarrow> defref option \<Rightarrow> blockref option \<Rightarrow> var \<Rightarrow> var \<Rightarrow> expression ev" where
  "mod_with rec fl def block l r =
     ebind (etypes (\<lambda>ts. usual_arithmetic_conversion ts (v_type l) (v_type r))) (\<lambda>type.
       if \<not> is_integer type then eerror ''Operands of modulo operator must be of integer type.''
       else ebind (eval_casts_with rec def block l r type) (\<lambda>(l', r').
         integer_result fl Fold_Mod IR_OP_MOD type l' r'))"

text \<open>The size of a variable length array, by recursion on its type: the depth is bounded like that of the size.\<close>

fun eval_vla_size_fuel :: "nat \<Rightarrow> eval_rec \<Rightarrow> defref option \<Rightarrow> blockref option \<Rightarrow> ctype \<Rightarrow> expression ev" where
  "eval_vla_size_fuel 0 rec def block type = efail Stack_Overflow"
| "eval_vla_size_fuel (Suc n) rec def block type =
     ebind (etypes (\<lambda>ts. is_vla ts type)) (\<lambda>v.
     ebind (eassert v) (\<lambda>_.
     ebind (etypes (\<lambda>ts. type_vla_length ts type)) (\<lambda>len.
     ebind (etypes (\<lambda>ts. type_next ts type)) (\<lambda>base.
       if len \<noteq> None then
         ebind (etypes (\<lambda>ts. is_vla ts base)) (\<lambda>bv.
           if bv then
             ebind (eval_vla_size_fuel n rec def block base) (\<lambda>e.
             ebind (eval def block e) (\<lambda>sz.
             ebind (var_direct len) (\<lambda>lv. rec IR_OP_MUL lv (A_Var sz))))
           else
             ebind (etypes (\<lambda>ts. size_of ts base)) (\<lambda>bs.
               if bs > 1 then
                 ebind (etypes (\<lambda>ts. imm_unsigned ts basic_type__unsigned_long (int bs))) (\<lambda>sz.
                 ebind (var_direct len) (\<lambda>lv. rec IR_OP_MUL lv (A_Var sz)))
               else
                 ebind (eassert (bs = 1)) (\<lambda>_.
                 ebind (var_direct len) (\<lambda>lv. eret (as_expr lv)))))
       else
         ebind (etypes (\<lambda>ts. obind (type_array_len ts type) (\<lambda>k. imm_unsigned ts basic_type__unsigned_long (int k)))) (\<lambda>sz.
         ebind (eval_vla_size_fuel n rec def block base) (\<lambda>e.
         ebind (eval def block e) (\<lambda>v. rec IR_OP_MUL sz (A_Var v))))))))"

definition eval_vla_size_with :: "eval_rec \<Rightarrow> defref option \<Rightarrow> blockref option \<Rightarrow> ctype \<Rightarrow> expression ev" where
  "eval_vla_size_with rec def block type s = eval_vla_size_fuel (max_depth (sy_types (p_symtab s))) rec def block type s"

text \<open>Offsets and addresses wrap around at 64 bits.\<close>

definition offset_by :: "int \<Rightarrow> var \<Rightarrow> var" where
  "offset_by n v = v\<lparr>v_offset := nat ((int (v_offset v) + n) mod 2 ^ 64)\<rparr>"

definition add_imm :: "int \<Rightarrow> var \<Rightarrow> var" where
  "add_imm n v = v\<lparr>v_imm := (v_imm v)\<lparr>val_u := val_u (v_imm v) + word_of_int n\<rparr>\<rparr>"

text \<open>
  A pointer plus an integer that is already of type \<open>long\<close>, where the type pointed to is of
  size \<open>sz\<close> and no variable length array.
\<close>

definition add_pointer_with ::
  "eval_rec \<Rightarrow> host_floats \<Rightarrow> defref option \<Rightarrow> blockref option \<Rightarrow> var \<Rightarrow> var \<Rightarrow> nat \<Rightarrow> expression ev" where
  "add_pointer_with rec fl def block l r sz =
     ebind (is_string l) (\<lambda>str.
       if (str \<or> v_kind l = ADDRESS) \<and> v_kind r = IMMEDIATE then
         eret (as_expr (offset_by (val_i (v_imm r) * int sz) l))
       else if is_constant l \<and> v_kind r = IMMEDIATE then eret (as_expr (add_imm (val_i (v_imm r) * int sz) l))
       else if v_kind r \<noteq> IMMEDIATE \<or> val_i (v_imm r) \<noteq> 0 then
         ebind (eval_cast_with rec def block l basic_type__long) (\<lambda>l'.
         ebind (if sz \<noteq> 1 then
                  ebind (etypes (\<lambda>_. imm_signed basic_type__long (int sz))) (\<lambda>c.
                  ebind (rec IR_OP_MUL c (A_Var r)) (eval def block))
                else eret r) (\<lambda>r'.
         ebind (etypes (\<lambda>ts. create_expr ts IR_OP_ADD l' (A_Var r'))) (\<lambda>e. eret (e\<lparr>e_type := v_type l\<rparr>))))
       else eret (as_expr l))"

text \<open>Arithmetic on a pointer to a variable length array; \<open>op\<close> is addition or subtraction.\<close>

definition vla_pointer_with ::
  "eval_rec \<Rightarrow> defref option \<Rightarrow> blockref option \<Rightarrow> optype \<Rightarrow> var \<Rightarrow> var \<Rightarrow> ctype \<Rightarrow> expression ev" where
  "vla_pointer_with rec def block op l r type =
     ebind (eval_vla_size_with rec def block type) (\<lambda>e.
     ebind (eval def block e) (\<lambda>sz.
     ebind (rec IR_OP_MUL sz (A_Var r)) (\<lambda>e2.
     ebind (eval def block e2) (\<lambda>r'.
     ebind (etypes (\<lambda>ts. create_expr ts op (l\<lparr>v_type := basic_type__long\<rparr>) (A_Var r'))) (\<lambda>e3.
       eret (e3\<lparr>e_type := v_type l\<rparr>))))))"

definition add_ordered_with :: "eval_rec \<Rightarrow> host_floats \<Rightarrow> defref option \<Rightarrow> blockref option \<Rightarrow> var \<Rightarrow> var \<Rightarrow> expression ev" where
  "add_ordered_with rec fl def block l r =
     (if is_arithmetic (v_type l) \<and> is_arithmetic (v_type r) then
        ebind (etypes (\<lambda>ts. usual_arithmetic_conversion ts (v_type l) (v_type r))) (\<lambda>type.
        ebind (eval_casts_with rec def block l r type) (\<lambda>(l', r').
          arithmetic_result fl Fold_Add IR_OP_ADD type l' r'))
      else if is_pointer (v_type l) \<and> is_integer (v_type r) then
        ebind (etypes (\<lambda>ts. type_deref ts (v_type l))) (\<lambda>type.
        ebind (etypes (\<lambda>ts. size_of ts type)) (\<lambda>sz.
        ebind (eval_cast_with rec def block r basic_type__long) (\<lambda>r'.
        ebind (etypes (\<lambda>ts. is_vla ts type)) (\<lambda>vla.
          if vla then vla_pointer_with rec def block IR_OP_ADD l r' type
          else if sz = 0 then eerror ''Pointer arithmetic on incomplete type %t.''
          else add_pointer_with rec fl def block l r' sz))))
      else eerror ''Incompatible arguments to addition operator, was %t and %t.'')"

text \<open>The operands are exchanged when only the second one is a pointer.\<close>

definition add_with :: "eval_rec \<Rightarrow> host_floats \<Rightarrow> defref option \<Rightarrow> blockref option \<Rightarrow> var \<Rightarrow> var \<Rightarrow> expression ev" where
  "add_with rec fl def block l r =
     (if is_integer (v_type l) \<and> is_pointer (v_type r) then add_ordered_with rec fl def block r l
      else add_ordered_with rec fl def block l r)"

definition sub_pointer_with ::
  "eval_rec \<Rightarrow> host_floats \<Rightarrow> defref option \<Rightarrow> blockref option \<Rightarrow> var \<Rightarrow> var \<Rightarrow> nat \<Rightarrow> expression ev" where
  "sub_pointer_with rec fl def block l r sz =
     ebind (is_string l) (\<lambda>str.
       if (str \<or> v_kind l = ADDRESS) \<and> v_kind r = IMMEDIATE then
         eret (as_expr (offset_by (- (val_i (v_imm r) * int sz)) l))
       else if is_constant l \<and> v_kind r = IMMEDIATE then eret (as_expr (add_imm (- (val_i (v_imm r) * int sz)) l))
       else
         ebind (is_immediate_false fl (as_expr r)) (\<lambda>z.
           if z then eret (as_expr l)
           else
             ebind (if sz > 1 then
                      ebind (etypes (\<lambda>ts. imm_unsigned ts basic_type__unsigned_long (int sz))) (\<lambda>c.
                      ebind (rec IR_OP_MUL c (A_Var r)) (eval def block))
                    else eret r) (\<lambda>r'.
             etypes (\<lambda>ts. create_expr ts IR_OP_SUB l (A_Var r')))))"

definition sub_pointers_with ::
  "eval_rec \<Rightarrow> defref option \<Rightarrow> blockref option \<Rightarrow> var \<Rightarrow> var \<Rightarrow> expression ev" where
  "sub_pointers_with rec def block l r =
     ebind (etypes (\<lambda>ts. type_deref ts (v_type l))) (\<lambda>t1.
     ebind (etypes (\<lambda>ts. type_deref ts (v_type r))) (\<lambda>t2.
     ebind (etypes (\<lambda>ts. size_of ts t2)) (\<lambda>sz.
     ebind (eval_casts_with rec def block l r basic_type__long) (\<lambda>(l', r').
     ebind (rec IR_OP_SUB l' (A_Var r')) (\<lambda>e.
     ebind (etypes (\<lambda>ts. is_vla ts t1)) (\<lambda>vla.
       if vla then
         ebind (eval def block e) (\<lambda>d.
         ebind (eval_vla_size_with rec def block t1) (\<lambda>e2.
         ebind (eval def block e2) (\<lambda>n. rec IR_OP_DIV d (A_Var n))))
       else if sz > 1 then
         ebind (eval def block e) (\<lambda>d.
         ebind (etypes (\<lambda>_. imm_signed basic_type__long (int sz))) (\<lambda>n. rec IR_OP_DIV d (A_Var n)))
       else
         ebind (if sz = 0 then eret True else etypes (\<lambda>ts. obind (size_of ts t1) (\<lambda>n. Inr (n \<noteq> sz)))) (\<lambda>bad.
           if bad then eerror ''Referenced type is incomplete.'' else eret e)))))))"

definition sub_with :: "eval_rec \<Rightarrow> host_floats \<Rightarrow> defref option \<Rightarrow> blockref option \<Rightarrow> var \<Rightarrow> var \<Rightarrow> expression ev" where
  "sub_with rec fl def block l r =
     (if is_arithmetic (v_type l) \<and> is_arithmetic (v_type r) then
        ebind (etypes (\<lambda>ts. usual_arithmetic_conversion ts (v_type l) (v_type r))) (\<lambda>type.
        ebind (eval_casts_with rec def block l r type) (\<lambda>(l', r').
          arithmetic_result fl Fold_Sub IR_OP_SUB type l' r'))
      else if is_pointer (v_type l) \<and> is_integer (v_type r) then
        ebind (etypes (\<lambda>ts. type_deref ts (v_type l))) (\<lambda>type.
        ebind (etypes (\<lambda>ts. size_of ts type)) (\<lambda>sz.
        ebind (eval_cast_with rec def block r basic_type__long) (\<lambda>r'.
        ebind (etypes (\<lambda>ts. is_vla ts type)) (\<lambda>vla.
          if vla then vla_pointer_with rec def block IR_OP_SUB l r' type
          else if sz = 0 then eerror ''Pointer arithmetic on incomplete type.''
          else sub_pointer_with rec fl def block l r' sz))))
      else if is_pointer (v_type l) \<and> is_pointer (v_type r) then sub_pointers_with rec def block l r
      else eerror ''Incompatible arguments to subtraction operator, was %t and %t.'')"

text \<open>
  Comparison for equality. The operand with the more specific pointer type is
  treated first; a warning about the types is not modelled, but the queries that
  lead to it are, since they may fail.
\<close>

definition query_comparison :: "host_floats \<Rightarrow> var \<Rightarrow> var \<Rightarrow> unit ev" where
  "query_comparison fl l r =
     (if is_pointer (v_type r) then
        etypes (\<lambda>ts. obind (type_deref ts (v_type l)) (\<lambda>t1. obind (type_deref ts (v_type r)) (\<lambda>t2.
          obind (is_compatible_unqualified ts t1 t2) (\<lambda>c.
            if c then Inr ()
            else obind (if is_void t1 then size_of ts t2 else Inr 0) (\<lambda>n.
              if n \<noteq> 0 then Inr () else obind (if is_void t2 then size_of ts t1 else Inr 0) (\<lambda>_. Inr ()))))))
      else ebind (is_nullptr fl r) (\<lambda>_. eret ()))"

definition prepare_ordered_with ::
  "eval_rec \<Rightarrow> host_floats \<Rightarrow> defref option \<Rightarrow> blockref option \<Rightarrow> var \<Rightarrow> var \<Rightarrow> (var \<times> var) ev" where
  "prepare_ordered_with rec fl def block l r =
     (if is_arithmetic (v_type l) \<and> is_arithmetic (v_type r) then
        ebind (etypes (\<lambda>ts. usual_arithmetic_conversion ts (v_type l) (v_type r))) (eval_casts_with rec def block l r)
      else if is_pointer (v_type l) then
        ebind (query_comparison fl l r) (\<lambda>_. eval_casts_with rec def block l r basic_type__unsigned_long)
      else eerror ''Illegal comparison between types %t and %t.'')"

definition prepare_comparison_operands_with ::
  "eval_rec \<Rightarrow> host_floats \<Rightarrow> defref option \<Rightarrow> blockref option \<Rightarrow> var \<Rightarrow> var \<Rightarrow> (var \<times> var) ev" where
  "prepare_comparison_operands_with rec fl def block l r =
     ebind (if is_pointer (v_type r) then
              (if \<not> is_pointer (v_type l) then eret True
               else etypes (\<lambda>ts. obind (type_next ts (v_type l)) (\<lambda>nl.
                 if is_void nl then obind (type_next ts (v_type r)) (\<lambda>nr. Inr (\<not> is_void nr)) else Inr False)))
            else eret False) (\<lambda>swap.
       if swap then ebind (prepare_ordered_with rec fl def block r l) (\<lambda>(r', l'). eret (l', r'))
       else prepare_ordered_with rec fl def block l r)"

definition compare_result :: "host_floats \<Rightarrow> cmp_op \<Rightarrow> optype \<Rightarrow> ctype \<Rightarrow> var \<Rightarrow> var \<Rightarrow> expression ev" where
  "compare_result fl cop op type l r =
     (if both_immediate l r then eret (as_expr (eval_immediate_compare fl cop type l r))
      else etypes (\<lambda>ts. create_expr ts op l (A_Var r)))"

definition cmp_eq_with :: "eval_rec \<Rightarrow> host_floats \<Rightarrow> defref option \<Rightarrow> blockref option \<Rightarrow> var \<Rightarrow> var \<Rightarrow> expression ev" where
  "cmp_eq_with rec fl def block l r =
     ebind (prepare_comparison_operands_with rec fl def block l r) (\<lambda>(l', r').
       compare_result fl Eq IR_OP_EQ (v_type l') l' r')"

definition cmp_ne_with :: "eval_rec \<Rightarrow> host_floats \<Rightarrow> defref option \<Rightarrow> blockref option \<Rightarrow> var \<Rightarrow> var \<Rightarrow> expression ev" where
  "cmp_ne_with rec fl def block l r =
     ebind (prepare_comparison_operands_with rec fl def block l r) (\<lambda>(l', r').
       compare_result fl Ne IR_OP_NE (v_type l') l' r')"

definition common_compare_type :: "type_store \<Rightarrow> ctype \<Rightarrow> ctype \<Rightarrow> ctype outcome" where
  "common_compare_type ts left right =
     (if is_arithmetic left \<and> is_arithmetic right then usual_arithmetic_conversion ts left right
      else
        obind (if is_pointer left \<and> is_pointer right then
                 obind (type_next ts left) (\<lambda>nl. obind (type_next ts right) (is_compatible_unqualified ts nl))
               else Inr False) (\<lambda>c.
          if c then Inr basic_type__unsigned_long
          else Inl (Exit_Error ''Invalid operands in relational expression: %t and %t'')))"

definition cmp_ge_with :: "eval_rec \<Rightarrow> host_floats \<Rightarrow> defref option \<Rightarrow> blockref option \<Rightarrow> var \<Rightarrow> var \<Rightarrow> expression ev" where
  "cmp_ge_with rec fl def block l r =
     ebind (etypes (\<lambda>ts. common_compare_type ts (v_type l) (v_type r))) (\<lambda>type.
     ebind (eval_casts_with rec def block l r type) (\<lambda>(l', r'). compare_result fl Ge IR_OP_GE type l' r'))"

definition cmp_gt_with :: "eval_rec \<Rightarrow> host_floats \<Rightarrow> defref option \<Rightarrow> blockref option \<Rightarrow> var \<Rightarrow> var \<Rightarrow> expression ev" where
  "cmp_gt_with rec fl def block l r =
     ebind (etypes (\<lambda>ts. common_compare_type ts (v_type l) (v_type r))) (\<lambda>type.
     ebind (eval_casts_with rec def block l r type) (\<lambda>(l', r'). compare_result fl Gt IR_OP_GT type l' r'))"

text \<open>Bitwise operators. The result of folding \<open>&\<close> is not converted again.\<close>

definition or_with :: "eval_rec \<Rightarrow> host_floats \<Rightarrow> defref option \<Rightarrow> blockref option \<Rightarrow> var \<Rightarrow> var \<Rightarrow> expression ev" where
  "or_with rec fl def block l r =
     (if \<not> is_integer (v_type l) \<or> \<not> is_integer (v_type r) then eerror ''Operands to bitwise or must have integer type.''
      else
        ebind (etypes (\<lambda>ts. usual_arithmetic_conversion ts (v_type l) (v_type r))) (\<lambda>type.
        ebind (eval_casts_with rec def block l r type) (\<lambda>(l', r'). integer_result fl Fold_Or IR_OP_OR type l' r')))"

definition xor_with :: "eval_rec \<Rightarrow> host_floats \<Rightarrow> defref option \<Rightarrow> blockref option \<Rightarrow> var \<Rightarrow> var \<Rightarrow> expression ev" where
  "xor_with rec fl def block l r =
     (if \<not> is_integer (v_type l) \<or> \<not> is_integer (v_type r) then eerror ''Operands to bitwise xor must have integer type.''
      else
        ebind (etypes (\<lambda>ts. usual_arithmetic_conversion ts (v_type l) (v_type r))) (\<lambda>type.
        ebind (eval_casts_with rec def block l r type) (\<lambda>(l', r'). integer_result fl Fold_Xor IR_OP_XOR type l' r')))"

definition and_with :: "eval_rec \<Rightarrow> host_floats \<Rightarrow> defref option \<Rightarrow> blockref option \<Rightarrow> var \<Rightarrow> var \<Rightarrow> expression ev" where
  "and_with rec fl def block l r =
     (if \<not> is_integer (v_type l) \<or> \<not> is_integer (v_type r) then eerror ''Operands to bitwise and must have integer type.''
      else
        ebind (etypes (\<lambda>ts. usual_arithmetic_conversion ts (v_type l) (v_type r))) (\<lambda>type.
        ebind (eval_casts_with rec def block l r type) (\<lambda>(l', r').
          if both_immediate l' r' then etypes (\<lambda>ts. obind (eval_integer_immediate ts Fold_And type l' r') (\<lambda>v. Inr (as_expr v)))
          else etypes (\<lambda>ts. create_expr ts IR_OP_AND l' (A_Var r')))))"

definition shiftl_with :: "eval_rec \<Rightarrow> host_floats \<Rightarrow> defref option \<Rightarrow> blockref option \<Rightarrow> var \<Rightarrow> var \<Rightarrow> expression ev" where
  "shiftl_with rec fl def block l r =
     (if \<not> is_integer (v_type l) \<or> \<not> is_integer (v_type r) then eerror ''Shift operands must have integer type.''
      else
        ebind (etypes (\<lambda>ts. promote_integer ts (v_type l))) (\<lambda>type.
        ebind (eval_cast_with rec def block l type) (\<lambda>l'. integer_result fl Fold_Shl IR_OP_SHL type l' r)))"

definition shiftr_with :: "eval_rec \<Rightarrow> host_floats \<Rightarrow> defref option \<Rightarrow> blockref option \<Rightarrow> var \<Rightarrow> var \<Rightarrow> expression ev" where
  "shiftr_with rec fl def block l r =
     (if \<not> is_integer (v_type l) \<or> \<not> is_integer (v_type r) then eerror ''Shift operands must have integer type.''
      else
        ebind (etypes (\<lambda>ts. promote_integer ts (v_type l))) (\<lambda>type.
        ebind (eval_cast_with rec def block l type) (\<lambda>l'. integer_result fl Fold_Shr IR_OP_SHR type l' r)))"

definition not_with :: "eval_rec \<Rightarrow> host_floats \<Rightarrow> defref option \<Rightarrow> blockref option \<Rightarrow> var \<Rightarrow> expression ev" where
  "not_with rec fl def block var =
     (if \<not> is_integer (v_type var) then eerror ''Bitwise complement operand must have integer type.''
      else
        ebind (etypes (\<lambda>ts. promote_integer ts (v_type var))) (\<lambda>type.
        ebind (eval_cast_with rec def block var type) (\<lambda>v.
          if v_kind v = IMMEDIATE then
            etypes (\<lambda>ts. obind
              (if is_signed type then imm_signed type (- val_i (v_imm v) - 1)
               else obind (oassert (is_unsigned type)) (\<lambda>_. imm_unsigned ts type (uint (NOT (val_u (v_imm v)))))) (\<lambda>x.
                Inr (as_expr x)))
          else etypes (\<lambda>ts. create_expr ts IR_OP_NOT v A_None))))"

text \<open>Only \<open>float\<close> and \<open>double\<close> are negated as such; all others are subtracted from zero.\<close>

definition neg_with :: "eval_rec \<Rightarrow> host_floats \<Rightarrow> defref option \<Rightarrow> blockref option \<Rightarrow> var \<Rightarrow> expression ev" where
  "neg_with rec fl def block var =
     (if \<not> is_arithmetic (v_type var) then eerror ''Unary (-) operand must be of arithmetic type.''
      else if is_float (v_type var) \<or> is_double (v_type var) then
        let k = (if is_float (v_type var) then FLT else DBL) in
        if v_kind var = IMMEDIATE
        then eret (as_expr (var\<lparr>v_imm := set_fval k (h_neg fl k (fval k (v_imm var))) (v_imm var)\<rparr>))
        else etypes (\<lambda>ts. create_expr ts IR_OP_NEG var A_None)
      else sub_with rec fl def block (var_int 0) var)"

definition call :: "var \<Rightarrow> expression ev" where
  "call var =
     etypes (\<lambda>ts.
       obind (if is_pointer (v_type var) then obind (type_next ts (v_type var)) (\<lambda>f. Inr (is_function f)) else Inr False) (\<lambda>ok.
         if \<not> ok then Inl (Exit_Error ''Calling non-function type %t.'') else create_expr ts IR_OP_CALL var A_None))"

definition eval_va_arg :: "var \<Rightarrow> ctype \<Rightarrow> expression ev" where
  "eval_va_arg var type =
     ebind (eassert (is_pointer (v_type var))) (\<lambda>_. etypes (\<lambda>ts. create_expr ts IR_OP_VA_ARG var (A_Type type)))"

section \<open>Addresses and operands\<close>

text \<open>The variable that holds the address of a variable length array.\<close>

definition vla_address :: "symref option \<Rightarrow> var ev" where
  "vla_address r =
     ebind (get_symbol r) (\<lambda>sy.
     ebind (etypes (\<lambda>ts. is_vla ts (s_type sy))) (\<lambda>v.
     ebind (eassert v) (\<lambda>_.
       case s_value sy of
         Vla_Address a \<Rightarrow> var_direct (Some a)
       | No_Value \<Rightarrow> efail Assert_Failed
       | _ \<Rightarrow> efail Undefined_Behaviour)))"

text \<open>The conversion of \<open>size_t\<close> to \<open>int\<close> in a call of \<open>var_int\<close>.\<close>

definition int_of_size :: "nat \<Rightarrow> int" where
  "int_of_size n = to_type i32_type (int n)"

definition string_to_pointer :: "var \<Rightarrow> var ev" where
  "string_to_pointer var =
     ebind (eassert (v_symbol var \<noteq> None)) (\<lambda>_.
     ebind (get_symbol (v_symbol var)) (\<lambda>sy.
     ebind (eassert (s_symtype sy = SYM_STRING_VALUE)) (\<lambda>_.
     ebind (etypes (\<lambda>ts. type_next ts (v_type var))) (\<lambda>t.
     ebind (mtypes (\<lambda>ts. type_create_pointer ts t)) (\<lambda>p. eret (var\<lparr>v_type := p\<rparr>))))))"

text \<open>
  Address of a string: the branch of \<open>rvalue\<close> for arrays that are immediate, which \<open>eval_addr\<close>
  reaches when its operand is one. A variable length array is never immediate.
\<close>

definition addr_immediate :: "var \<Rightarrow> var ev" where
  "addr_immediate var =
     ebind (is_string var) (\<lambda>str.
       if \<not> str then eerror ''Cannot take address of immediate of type %t.''
       else if is_array (v_type var) then
         ebind (etypes (\<lambda>ts. is_vla ts (v_type var))) (\<lambda>vla.
           if vla then efail Assert_Failed else string_to_pointer var)
       else eret var)"

definition addr_deref_with :: "eval_rec \<Rightarrow> defref option \<Rightarrow> blockref option \<Rightarrow> var \<Rightarrow> var ev" where
  "addr_deref_with rec def block var =
     (if v_symbol var = None then
        ebind (mtypes (\<lambda>ts. type_create_pointer ts (v_type var))) (\<lambda>p.
          eret ((add_imm (int (v_offset var)) var)\<lparr>v_kind := IMMEDIATE, v_type := p, v_offset := 0, v_lvalue := False\<rparr>))
      else
        ebind (get_symbol (v_symbol var)) (\<lambda>sy.
        ebind (eassert (is_pointer (s_type sy))) (\<lambda>_.
        ebind (var_direct (v_symbol var)) (\<lambda>tmp.
        ebind (if v_offset var \<noteq> 0 then
                 ebind (mtypes (\<lambda>ts. type_create_pointer ts basic_type__char)) (\<lambda>cp.
                 ebind (eval_cast_with rec def block tmp cp) (\<lambda>ptr.
                 ebind (rec IR_OP_ADD ptr (A_Var (var_int (int_of_size (v_offset var))))) (eval def block)))
               else eret tmp) (\<lambda>tmp'.
        ebind (mtypes (\<lambda>ts. type_create_pointer ts (v_type var))) (\<lambda>p. eret (tmp'\<lparr>v_type := p\<rparr>)))))))"

definition eval_addr_with :: "eval_rec \<Rightarrow> defref option \<Rightarrow> blockref option \<Rightarrow> var \<Rightarrow> var ev" where
  "eval_addr_with rec def block var =
     (if is_field var then eerror ''Cannot take address of bit-field.''
      else
        ebind (etypes (\<lambda>ts. is_vla ts (v_type var))) (\<lambda>vla.
          if vla \<and> v_kind var = DIRECT then vla_address (v_symbol var)
          else
            ebind (case v_kind var of
                     IMMEDIATE \<Rightarrow> addr_immediate var
                   | DIRECT \<Rightarrow>
                       if v_lvalue var then
                         ebind (mtypes (\<lambda>ts. type_create_pointer ts (v_type var))) (\<lambda>p.
                           eret (var\<lparr>v_kind := ADDRESS, v_type := p\<rparr>))
                       else eerror ''Cannot take address of r-value.''
                   | ADDRESS \<Rightarrow> ebind (eassert (\<not> v_lvalue var)) (\<lambda>_. eerror ''Cannot take address of r-value.'')
                   | DEREF \<Rightarrow> addr_deref_with rec def block var) (\<lambda>v.
            ebind (eassert (is_pointer (v_type v))) (\<lambda>_. eret v))))"

definition rvalue_with :: "eval_rec \<Rightarrow> host_floats \<Rightarrow> defref option \<Rightarrow> blockref option \<Rightarrow> var \<Rightarrow> var ev" where
  "rvalue_with rec fl def block var =
     (if is_function (v_type var) then eval_addr_with rec def block var
      else if is_array (v_type var) then
        ebind (etypes (\<lambda>ts. is_vla ts (v_type var))) (\<lambda>vla.
          if vla then
            (if v_kind var = DIRECT then vla_address (v_symbol var)
             else
               ebind (eassert (v_kind var = DEREF)) (\<lambda>_.
               ebind (eassert (v_offset var = 0)) (\<lambda>_.
               ebind (etypes (\<lambda>ts. type_next ts (v_type var))) (\<lambda>t.
               ebind (mtypes (\<lambda>ts. type_create_pointer ts t)) (\<lambda>p. eret (var\<lparr>v_kind := DIRECT, v_type := p\<rparr>))))))
          else if v_kind var = IMMEDIATE then string_to_pointer var
          else
            ebind (etypes (\<lambda>ts. type_next ts (v_type var))) (\<lambda>t. eval_addr_with rec def block (var\<lparr>v_type := t\<rparr>)))
      else if is_field var \<and> is_unsigned (v_type var) \<and> v_field_width var < 32 then
        ebind (cast fl var basic_type__int) (eval def block)
      else eret var)"

section \<open>Evaluation of operators\<close>

definition eval_expr_with ::
  "eval_rec \<Rightarrow> host_floats \<Rightarrow> defref option \<Rightarrow> blockref option \<Rightarrow> optype \<Rightarrow> var \<Rightarrow> eval_arg \<Rightarrow> expression ev" where
  "eval_expr_with rec fl def block op l0 a =
     ebind (rvalue_with rec fl def block l0) (\<lambda>l.
     ebind (if is_binary op then ebind (etypes (\<lambda>_. arg_var a)) (rvalue_with rec fl def block) else eret zero_var) (\<lambda>r.
       case op of
         IR_OP_CAST \<Rightarrow> ebind (etypes (\<lambda>_. arg_type a)) (cast fl l)
       | IR_OP_CALL \<Rightarrow> call l
       | IR_OP_VA_ARG \<Rightarrow> ebind (etypes (\<lambda>_. arg_type a)) (eval_va_arg l)
       | IR_OP_NOT \<Rightarrow> not_with rec fl def block l
       | IR_OP_NEG \<Rightarrow> neg_with rec fl def block l
       | IR_OP_MOD \<Rightarrow> mod_with rec fl def block l r
       | IR_OP_MUL \<Rightarrow> mul_with rec fl def block l r
       | IR_OP_DIV \<Rightarrow> ediv_with rec fl def block l r
       | IR_OP_ADD \<Rightarrow> add_with rec fl def block l r
       | IR_OP_SUB \<Rightarrow> sub_with rec fl def block l r
       | IR_OP_EQ \<Rightarrow> cmp_eq_with rec fl def block l r
       | IR_OP_NE \<Rightarrow> cmp_ne_with rec fl def block l r
       | IR_OP_GE \<Rightarrow> cmp_ge_with rec fl def block l r
       | IR_OP_GT \<Rightarrow> cmp_gt_with rec fl def block l r
       | IR_OP_AND \<Rightarrow> and_with rec fl def block l r
       | IR_OP_XOR \<Rightarrow> xor_with rec fl def block l r
       | IR_OP_OR \<Rightarrow> or_with rec fl def block l r
       | IR_OP_SHL \<Rightarrow> shiftl_with rec fl def block l r
       | IR_OP_SHR \<Rightarrow> shiftr_with rec fl def block l r))"

fun eval_expr_level :: "nat \<Rightarrow> host_floats \<Rightarrow> defref option \<Rightarrow> blockref option \<Rightarrow> eval_rec" where
  "eval_expr_level 0 fl def block op l a = efail Stack_Overflow"
| "eval_expr_level (Suc n) fl def block op l a = eval_expr_with (eval_expr_level n fl def block) fl def block op l a"

definition eval_depth :: nat where
  "eval_depth = 4"

definition eval_expr :: "host_floats \<Rightarrow> defref option \<Rightarrow> blockref option \<Rightarrow> eval_rec" where
  "eval_expr = eval_expr_level eval_depth"

end
