(* ===== verification/Eval_Stmt.thy ===== *)
theory Eval_Stmt
  imports Eval
begin

unbundle bit_operations_syntax

text \<open>
  The rest of \<open>src/parser/eval.c\<close> on top of the operators: addresses and
  dereferencing, assignment, return values, the conditional and the logical
  operators, parameters and variable length arrays.
\<close>

section \<open>Operands\<close>

definition eval_cast :: "host_floats \<Rightarrow> defref option \<Rightarrow> blockref option \<Rightarrow> var \<Rightarrow> ctype \<Rightarrow> var ev" where
  "eval_cast fl def block = eval_cast_with (eval_expr fl def block) def block"

definition eval_addr :: "host_floats \<Rightarrow> defref option \<Rightarrow> blockref option \<Rightarrow> var \<Rightarrow> var ev" where
  "eval_addr fl def block = eval_addr_with (eval_expr fl def block) def block"

definition rvalue :: "host_floats \<Rightarrow> defref option \<Rightarrow> blockref option \<Rightarrow> var \<Rightarrow> var ev" where
  "rvalue fl def block = rvalue_with (eval_expr fl def block) fl def block"

definition eval_vla_size :: "host_floats \<Rightarrow> defref option \<Rightarrow> blockref option \<Rightarrow> ctype \<Rightarrow> expression ev" where
  "eval_vla_size fl def block = eval_vla_size_with (eval_expr fl def block) def block"

definition eval_unary_plus :: "host_floats \<Rightarrow> var \<Rightarrow> expression ev" where
  "eval_unary_plus fl v =
     (if \<not> is_arithmetic (v_type v) then eerror ''Unary (+) operand must be of arithmetic type.''
      else if is_integer (v_type v) then ebind (etypes (\<lambda>ts. promote_integer ts (v_type v))) (cast fl v)
      else eret (as_expr (v\<lparr>v_lvalue := False\<rparr>)))"

section \<open>Assignment\<close>

definition eval_assign_string_literal :: "blockref option \<Rightarrow> var \<Rightarrow> expression \<Rightarrow> var ev" where
  "eval_assign_string_literal block target e =
     ebind (etypes (\<lambda>ts. is_identity ts e)) (\<lambda>i.
     ebind (eassert i) (\<lambda>_.
     ebind (eassert (is_array (v_type target))) (\<lambda>_.
     ebind (get_symbol (v_symbol (e_l e))) (\<lambda>sy.
     ebind (eassert (s_symtype sy = SYM_STRING_VALUE)) (\<lambda>_.
     ebind (etypes (\<lambda>ts. type_next ts (v_type target))) (\<lambda>elem.
       if \<not> is_char elem then eerror ''Assigning string literal to non-char array.''
       else
         ebind (etypes (\<lambda>ts. size_of ts (v_type target))) (\<lambda>n.
         ebind (etypes (\<lambda>ts. size_of ts (e_type e))) (\<lambda>m.
           if n = 0 then
             ebind (eassert (v_kind target = DIRECT)) (\<lambda>_.
             ebind (eassert (v_offset target = 0)) (\<lambda>_.
             ebind (get_symbol (v_symbol target)) (\<lambda>tsy.
             ebind (etypes (\<lambda>ts. size_of ts (s_type tsy))) (\<lambda>k.
             ebind (eassert (k = 0)) (\<lambda>_.
             ebind (mtypes (\<lambda>ts. obind (set_array_length ts (s_type tsy) m) (\<lambda>ts'. Inr (ts', ())))) (\<lambda>_.
               let t' = target\<lparr>v_type := e_type e\<rparr> in
               ebind (emit_ir block IR_ASSIGN t' e) (\<lambda>_.
               ebind (etypes (\<lambda>ts. size_of ts (e_type e))) (\<lambda>k'. eret (offset_by (int k') t')))))))))
           else
             let e' = (if m > n then e\<lparr>e_type := v_type target, e_l := (e_l e)\<lparr>v_type := v_type target\<rparr>\<rparr> else e) in
             ebind (emit_ir block IR_ASSIGN (target\<lparr>v_type := e_type e'\<rparr>) e') (\<lambda>_.
             ebind (etypes (\<lambda>ts. size_of ts (e_type e'))) (\<lambda>k'. eret (offset_by (int k') target)))))))))))"

text \<open>The result of an assignment: the constant that was assigned, or the target as a value.\<close>

definition assigned :: "var \<Rightarrow> expression \<Rightarrow> var ev" where
  "assigned target e = ebind (etypes (\<lambda>ts. is_immediate ts e)) (\<lambda>i. eret (if i then e_l e else target\<lparr>v_lvalue := False\<rparr>))"

text \<open>The bits of a constant that fit the field, extended by the sign of a signed field.\<close>

definition mask_field :: "bool \<Rightarrow> int \<Rightarrow> cvalue \<Rightarrow> cvalue outcome" where
  "mask_field sg width v =
     obind (c_shl i64_type 1 width) (\<lambda>p.
     obind (c_sub i64_type p 1) (\<lambda>mask.
       let v1 = v\<lparr>val_u := val_u v AND word_of_int mask\<rparr> in
       if sg then
         obind (c_shl i64_type 1 (width - 1)) (\<lambda>sbit.
           Inr (if val_u v1 AND word_of_int sbit \<noteq> 0 then v1\<lparr>val_u := val_u v1 OR NOT (word_of_int mask)\<rparr> else v1))
       else Inr v1))"

definition assign_field :: "host_floats \<Rightarrow> defref option \<Rightarrow> blockref option \<Rightarrow> var \<Rightarrow> expression \<Rightarrow> var ev" where
  "assign_field fl def block target e =
     ebind (eassert (is_field target)) (\<lambda>_.
     ebind (eassert (is_integer (v_type target))) (\<lambda>_.
     ebind (etypes (\<lambda>ts. size_of ts (v_type target))) (\<lambda>n.
     ebind (eassert (n \<in> {1, 2, 4, 8})) (\<lambda>_.
       let type = (if n = 1 then basic_type__bool else if n = 2 then basic_type__short
                   else if n = 4 then basic_type__int else basic_type__long) in
       ebind (etypes (\<lambda>ts. is_immediate ts e)) (\<lambda>i.
       ebind
         (if i then
            etypes (\<lambda>_. obind (mask_field (is_signed (v_type target)) (v_field_width target) (v_imm (e_l e))) (\<lambda>v.
              Inr (e\<lparr>e_type := type, e_l := (e_l e)\<lparr>v_imm := v, v_type := type\<rparr>\<rparr>)))
          else
            ebind (etypes (\<lambda>ts. type_equal ts type (e_type e))) (\<lambda>eq.
              if eq then eret e
              else ebind (eval def block e) (\<lambda>v. eval_expr fl def block IR_OP_CAST v (A_Type type)))) (\<lambda>e'.
       ebind (emit_ir block IR_ASSIGN target e') (\<lambda>_. assigned target e')))))))"

definition has_qualifiers :: "ctype \<Rightarrow> ctype \<Rightarrow> bool" where
  "has_qualifiers a b \<longleftrightarrow> (is_const b \<longrightarrow> is_const a) \<and> (is_volatile b \<longrightarrow> is_volatile a)"

text \<open>Warnings are not modelled; the comparison of the types that leads to them is, since it may fail.\<close>

definition eval_assign_pointer :: "host_floats \<Rightarrow> defref option \<Rightarrow> blockref option \<Rightarrow> var \<Rightarrow> expression \<Rightarrow> var ev" where
  "eval_assign_pointer fl def block target e =
     ebind (eassert (is_pointer (v_type target))) (\<lambda>_.
     ebind
       (if is_pointer (e_type e) then
          etypes (\<lambda>ts. obind (type_deref ts (v_type target)) (\<lambda>l. obind (type_deref ts (e_type e)) (\<lambda>r.
            obind (is_compatible_unqualified ts l r) (\<lambda>_. Inr ()))))
        else if is_integer (e_type e) then eret ()
        else eerror ''Incompatible pointer assignment between %t and %t.'') (\<lambda>_.
     ebind (etypes (\<lambda>ts. is_identity ts e)) (\<lambda>i.
       let e1 = (if i then e\<lparr>e_l := (e_l e)\<lparr>v_type := v_type target\<rparr>\<rparr> else e);
           e2 = e1\<lparr>e_type := v_type target\<rparr>
       in ebind (emit_ir block IR_ASSIGN target e2) (\<lambda>_. assigned target e2))))"

definition eval_bool :: "host_floats \<Rightarrow> defref option \<Rightarrow> blockref option \<Rightarrow> expression \<Rightarrow> expression ev" where
  "eval_bool fl def block e =
     (if is_bool (e_type e) then eret e
      else
        ebind (eval def block e) (\<lambda>v.
        ebind (etypes (\<lambda>_. imm_signed basic_type__long 0)) (\<lambda>z. eval_expr fl def block IR_OP_NE z (A_Var v))))"

text \<open>The assignment of a value to an arithmetic target, or to a struct or union.\<close>

definition assign_value :: "host_floats \<Rightarrow> defref option \<Rightarrow> blockref option \<Rightarrow> var \<Rightarrow> expression \<Rightarrow> var ev" where
  "assign_value fl def block target e =
     (if is_arithmetic (v_type target) \<and> is_arithmetic (e_type e) \<and> is_field target then assign_field fl def block target e
      else
        ebind
          (if is_arithmetic (v_type target) \<and> is_arithmetic (e_type e) then
             ebind (etypes (\<lambda>ts. is_immediate ts e)) (\<lambda>i.
               if i then ebind (eval_cast fl def block (e_l e) (v_type target)) (\<lambda>v. eret (as_expr v))
               else
                 ebind (etypes (\<lambda>ts. type_equal ts (v_type target) (e_type e))) (\<lambda>eq.
                   if eq then eret e
                   else ebind (eval def block e) (\<lambda>v. eval_expr fl def block IR_OP_CAST v (A_Type (v_type target)))))
           else
             ebind (if is_struct_or_union (v_type target)
                    then etypes (\<lambda>ts. is_compatible_unqualified ts (v_type target) (e_type e)) else eret False) (\<lambda>c.
               if c then eret e else eerror ''Incompatible value of type %t assigned to variable of type %t.'')) (\<lambda>e'.
        ebind (emit_ir block IR_ASSIGN target e') (\<lambda>_. assigned target e')))"

definition eval_assign :: "host_floats \<Rightarrow> defref option \<Rightarrow> blockref option \<Rightarrow> var \<Rightarrow> expression \<Rightarrow> var ev" where
  "eval_assign fl def block target e =
     (if \<not> v_lvalue target then eerror ''Target of assignment must be l-value.''
      else if is_array (v_type target) then eval_assign_string_literal block target e
      else
        ebind (etypes (\<lambda>ts. is_identity ts e)) (\<lambda>i.
        ebind (if i then ebind (rvalue fl def block (e_l e)) (\<lambda>v. eret (as_expr v)) else eret e) (\<lambda>e1.
        ebind (if is_bool (v_type target) then eval_bool fl def block e1 else eret e1) (\<lambda>e2.
          if is_pointer (v_type target) then eval_assign_pointer fl def block target e2
          else assign_value fl def block target e2))))"

definition eval_copy :: "host_floats \<Rightarrow> defref option \<Rightarrow> blockref option \<Rightarrow> var \<Rightarrow> var ev" where
  "eval_copy fl def block v =
     ebind (eassert (\<not> is_function (v_type v))) (\<lambda>_.
     ebind (eassert (\<not> is_array (v_type v))) (\<lambda>_.
     ebind (rvalue fl def block v) (\<lambda>v'.
     ebind (create_var def (v_type v')) (\<lambda>cpy. eval_assign fl def block cpy (as_expr v')))))"

section \<open>Dereferencing\<close>

text \<open>A pointer is copied to a temporary unless it is held by a symbol of its own.\<close>

definition copy_pointer :: "host_floats \<Rightarrow> defref option \<Rightarrow> blockref option \<Rightarrow> var \<Rightarrow> var ev" where
  "copy_pointer fl def block v = ebind (create_var def (v_type v)) (\<lambda>t. eval_assign fl def block t (as_expr v))"

definition eval_deref :: "host_floats \<Rightarrow> defref option \<Rightarrow> blockref option \<Rightarrow> var \<Rightarrow> var ev" where
  "eval_deref fl def block var =
     ebind (rvalue fl def block var) (\<lambda>v.
       if \<not> is_pointer (v_type v) then eerror ''Dereferencing non-pointer type %t.''
       else
         case v_kind v of
           ADDRESS \<Rightarrow> ebind (etypes (\<lambda>ts. type_deref ts (v_type v))) (\<lambda>t. eret (v\<lparr>v_kind := DIRECT, v_type := t, v_lvalue := True\<rparr>))
         | IMMEDIATE \<Rightarrow>
             ebind (etypes (\<lambda>ts. type_deref ts (v_type v))) (\<lambda>t.
             ebind (is_string v) (\<lambda>str.
             ebind (eassert (v_symbol v = None \<or> str)) (\<lambda>_.
               eret (v\<lparr>v_kind := DEREF, v_type := t, v_lvalue := True\<rparr>))))
         | k \<Rightarrow>
             ebind (if k = DEREF then copy_pointer fl def block v
                    else if v_offset v \<noteq> 0 then copy_pointer fl def block v
                    else ebind (get_symbol (v_symbol v)) (\<lambda>sy.
                      if \<not> is_pointer (s_type sy) then copy_pointer fl def block v else eret v)) (\<lambda>p.
             ebind (eassert (v_kind p = DIRECT)) (\<lambda>_.
             ebind (eassert (v_offset p = 0)) (\<lambda>_.
             ebind (eassert (is_pointer (v_type p))) (\<lambda>_.
             ebind (etypes (\<lambda>ts. type_deref ts (v_type p))) (\<lambda>t.
               eret (p\<lparr>v_kind := DEREF, v_type := t, v_lvalue := True\<rparr>)))))))"

section \<open>Return values and the conditional operator\<close>

definition set_expr :: "blockref option \<Rightarrow> expression \<Rightarrow> unit ev" where
  "set_expr block e = update_block block (\<lambda>b. b\<lparr>b_expr := e\<rparr>)"

definition eval_return :: "host_floats \<Rightarrow> defref option \<Rightarrow> blockref option \<Rightarrow> expression ev" where
  "eval_return fl def block =
     ebind (read_def def) (\<lambda>d.
     ebind (get_symbol (d_symbol d)) (\<lambda>sy.
     ebind (etypes (\<lambda>ts. type_next ts (s_type sy))) (\<lambda>type.
     ebind (eassert (is_object type)) (\<lambda>_.
     ebind (eassert (\<not> is_array type)) (\<lambda>_.
     ebind (read_block block) (\<lambda>b.
     ebind (etypes (\<lambda>ts. is_identity ts (b_expr b))) (\<lambda>i.
     ebind (if i then ebind (rvalue fl def block (e_l (b_expr b))) (\<lambda>v. eret (as_expr v)) else eret (b_expr b)) (\<lambda>e.
     ebind (etypes (\<lambda>ts. type_equal ts type (e_type e))) (\<lambda>eq.
     ebind
       (if \<not> eq then ebind (eval def block e) (\<lambda>v. eval_expr fl def block IR_OP_CAST v (A_Type type))
        else if \<not> is_scalar type \<or> e_op e = IR_OP_VA_ARG then ebind (eval def block e) (\<lambda>v. eret (as_expr v))
        else eret e) (\<lambda>e'.
     ebind (update_block block (\<lambda>b. b\<lparr>b_expr := e', b_has_return_value := True\<rparr>)) (\<lambda>_. eret e')))))))))))"

text \<open>The common type of two pointers in the conditional operator.\<close>

definition conditional_pointer :: "ctype \<Rightarrow> ctype \<Rightarrow> ctype ev" where
  "conditional_pointer t1 t2 =
     ebind (etypes (\<lambda>ts. type_deref ts t1)) (\<lambda>p1.
     ebind (etypes (\<lambda>ts. type_deref ts t2)) (\<lambda>p2.
     ebind (etypes (\<lambda>ts. is_compatible_unqualified ts p1 p2)) (\<lambda>c.
     ebind (if c \<or> is_void p1 then etypes (\<lambda>_. type_apply_qualifiers p1 p2)
            else if is_void p2 then etypes (\<lambda>_. type_apply_qualifiers p2 p1)
            else eerror ''Incompatible pointer types in conditional expression.'') (\<lambda>type.
     ebind (mtypes (\<lambda>ts. type_create_pointer ts type)) (\<lambda>p.
       etypes (\<lambda>_. obind (type_apply_qualifiers p t1) (\<lambda>q. type_apply_qualifiers q t2)))))))"

definition eval_conditional :: "host_floats \<Rightarrow> defref option \<Rightarrow> blockref option \<Rightarrow> blockref option \<Rightarrow> ctype ev" where
  "eval_conditional fl def left right =
     ebind (read_block left) (\<lambda>lb.
     ebind (eval def left (b_expr lb)) (\<lambda>lv0.
     ebind (rvalue fl def left lv0) (\<lambda>lval.
     ebind (read_block right) (\<lambda>rb.
     ebind (eval def right (b_expr rb)) (\<lambda>rv0.
     ebind (rvalue fl def right rv0) (\<lambda>rval.
     ebind (set_expr left (as_expr lval)) (\<lambda>_.
     ebind (set_expr right (as_expr rval)) (\<lambda>_.
       let t1 = v_type lval; t2 = v_type rval in
       if is_arithmetic t1 \<and> is_arithmetic t2 then etypes (\<lambda>ts. usual_arithmetic_conversion ts t1 t2)
       else if is_pointer t1 \<and> is_pointer t2 then conditional_pointer t1 t2
       else
         ebind (if is_pointer t1 then is_nullptr fl rval else eret False) (\<lambda>rnull.
           if rnull then eret t1
           else
             ebind (if is_pointer t2 then is_nullptr fl lval else eret False) (\<lambda>lnull.
               if lnull then eret t2
               else if is_void t1 \<and> is_void t2 then eret t1
               else
                 ebind (if is_struct_or_union t1 then etypes (\<lambda>ts. type_equal ts t1 t2) else eret False) (\<lambda>eq.
                   if eq then eret t1
                   else eerror ''Incompatible types (%t, %t) in conditional operator.'')))))))))))"

section \<open>Logical operators\<close>

text \<open>
  The blocks \<open>t\<close> and \<open>f\<close> assign one and zero to the result, which the block that is
  returned holds as its value.
\<close>

definition eval_logical_expression ::
  "host_floats \<Rightarrow> defref option \<Rightarrow> bool \<Rightarrow> blockref option \<Rightarrow> blockref option \<Rightarrow> blockref option \<Rightarrow> blockref ev" where
  "eval_logical_expression fl def is_and left right_top right =
     ebind (cfg_block_init def) (\<lambda>t.
     ebind (cfg_block_init def) (\<lambda>f.
     ebind (cfg_block_init def) (\<lambda>r.
     ebind (update_block left (\<lambda>b. if is_and then b\<lparr>b_jump0 := Some f, b_jump1 := right_top\<rparr>
                                   else b\<lparr>b_jump0 := right_top, b_jump1 := Some t\<rparr>)) (\<lambda>_.
     ebind (read_block right) (\<lambda>rb.
     ebind (is_immediate_true fl (b_expr rb)) (\<lambda>tr.
     ebind (if tr then eret False else is_immediate_false fl (b_expr rb)) (\<lambda>fa.
     ebind (update_block right (\<lambda>b. if tr then b\<lparr>b_jump0 := Some t\<rparr> else if fa then b\<lparr>b_jump0 := Some f\<rparr>
                                    else b\<lparr>b_jump0 := Some f, b_jump1 := Some t\<rparr>)) (\<lambda>_.
     ebind (create_var def basic_type__int) (\<lambda>res.
     ebind (eval_assign fl def (Some t) res (as_expr (var_int 1))) (\<lambda>_.
     ebind (eval_assign fl def (Some f) res (as_expr (var_int 0))) (\<lambda>_.
     ebind (update_block (Some t) (\<lambda>b. b\<lparr>b_jump0 := Some r\<rparr>)) (\<lambda>_.
     ebind (update_block (Some f) (\<lambda>b. b\<lparr>b_jump0 := Some r\<rparr>)) (\<lambda>_.
     ebind (update_block (Some r) (\<lambda>b. b\<lparr>b_expr := as_expr (res\<lparr>v_lvalue := False\<rparr>)\<rparr>)) (\<lambda>_.
       eret r))))))))))))))"

definition is_logical_immediate :: "blockref option \<Rightarrow> blockref option \<Rightarrow> blockref option \<Rightarrow> bool ev" where
  "is_logical_immediate left rtop rbot =
     (if rtop \<noteq> rbot then eret False
      else
        ebind (read_block rtop) (\<lambda>tb.
          if b_code tb \<noteq> [] then eret False
          else
            ebind (etypes (\<lambda>ts. is_immediate ts (b_expr tb))) (\<lambda>ti.
              if \<not> ti then eret False
              else ebind (read_block left) (\<lambda>lb. etypes (\<lambda>ts. is_immediate ts (b_expr lb))))))"

text \<open>The branch in which the left operand does not decide: the right one becomes a truth value.\<close>

definition logical_right :: "host_floats \<Rightarrow> defref option \<Rightarrow> blockref option \<Rightarrow> blockref option \<Rightarrow> blockref option \<Rightarrow> blockref option ev" where
  "logical_right fl def left right_top right =
     ebind (update_block left (\<lambda>b. b\<lparr>b_jump0 := right_top\<rparr>)) (\<lambda>_.
     ebind (read_block right) (\<lambda>rb.
       if is_comparison (b_expr rb) then eret right
       else
         ebind (eval def right (b_expr rb)) (\<lambda>v.
         ebind (eval_expr fl def right IR_OP_NE v (A_Var (var_int 0))) (\<lambda>e.
         ebind (set_expr right e) (\<lambda>_. eret right)))))"

definition eval_logical_or ::
  "host_floats \<Rightarrow> defref option \<Rightarrow> blockref option \<Rightarrow> blockref option \<Rightarrow> blockref option \<Rightarrow> blockref option ev" where
  "eval_logical_or fl def left right_top right =
     ebind (read_block left) (\<lambda>lb.
     ebind (read_block right) (\<lambda>rb.
       if \<not> is_scalar (e_type (b_expr lb)) \<or> \<not> is_scalar (e_type (b_expr rb)) then
         eerror ''Operands to logical or must be of scalar type.''
       else
         ebind (is_logical_immediate left right_top right) (\<lambda>both.
         ebind (is_immediate_true fl (b_expr lb)) (\<lambda>lt.
           if both then
             ebind (if lt then eret True else is_immediate_true fl (b_expr rb)) (\<lambda>res.
             ebind (set_expr left (as_expr (var_int (bool_int res)))) (\<lambda>_. eret left))
           else if lt then ebind (set_expr left (as_expr (var_int 1))) (\<lambda>_. eret left)
           else
             ebind (is_immediate_false fl (b_expr lb)) (\<lambda>lf.
               if lf then logical_right fl def left right_top right
               else ebind (eval_logical_expression fl def False left right_top right) (\<lambda>r. eret (Some r)))))))"

definition eval_logical_and ::
  "host_floats \<Rightarrow> defref option \<Rightarrow> blockref option \<Rightarrow> blockref option \<Rightarrow> blockref option \<Rightarrow> blockref option ev" where
  "eval_logical_and fl def left right_top right =
     ebind (read_block left) (\<lambda>lb.
     ebind (read_block right) (\<lambda>rb.
       if \<not> is_scalar (e_type (b_expr lb)) \<or> \<not> is_scalar (e_type (b_expr rb)) then
         eerror ''Operands to logical and must be of scalar type.''
       else
         ebind (is_logical_immediate left right_top right) (\<lambda>both.
           if both then
             ebind (is_immediate_true fl (b_expr lb)) (\<lambda>lt.
             ebind (if lt then is_immediate_true fl (b_expr rb) else eret False) (\<lambda>res.
             ebind (set_expr left (as_expr (var_int (bool_int res)))) (\<lambda>_. eret left)))
           else
             ebind (is_immediate_false fl (b_expr lb)) (\<lambda>lf.
               if lf then ebind (set_expr left (as_expr (var_int 0))) (\<lambda>_. eret left)
               else
                 ebind (is_immediate_true fl (b_expr lb)) (\<lambda>lt.
                   if lt then logical_right fl def left right_top right
                   else ebind (eval_logical_expression fl def True left right_top right) (\<lambda>r. eret (Some r)))))))"

section \<open>Parameters and variable length arrays\<close>

definition eval_vla_alloc :: "host_floats \<Rightarrow> defref option \<Rightarrow> blockref option \<Rightarrow> symref \<Rightarrow> unit ev" where
  "eval_vla_alloc fl def block r =
     ebind (get_symbol (Some r)) (\<lambda>sy.
     ebind (etypes (\<lambda>ts. is_vla ts (s_type sy))) (\<lambda>v.
     ebind (eassert v) (\<lambda>_.
     ebind (eval_vla_size fl def block (s_type sy)) (\<lambda>e.
     ebind (set_expr block e) (\<lambda>_.
     ebind (var_direct (Some r)) (\<lambda>t. emit_ir block IR_VLA_ALLOC t e))))))"

definition eval_param :: "host_floats \<Rightarrow> defref option \<Rightarrow> blockref option \<Rightarrow> expression \<Rightarrow> expression ev" where
  "eval_param fl def block e =
     ebind (eval def block e) (\<lambda>v.
     ebind (rvalue fl def block v) (\<lambda>v'.
     ebind (etypes (\<lambda>ts. is_identity ts (as_expr v'))) (\<lambda>i.
       if i then eret (as_expr v')
       else
         ebind (create_var def (v_type v')) (\<lambda>t.
         ebind (eval_assign fl def block t (as_expr v')) (\<lambda>x. eret (as_expr x))))))"

definition param :: "blockref option \<Rightarrow> expression \<Rightarrow> unit ev" where
  "param block e = emit_ir block IR_PARAM var_void e"

definition eval__builtin_va_start :: "blockref option \<Rightarrow> expression \<Rightarrow> unit ev" where
  "eval__builtin_va_start block e = emit_ir block IR_VA_START var_void e"

end
