(* ===== verification/Eval_Depth.thy ===== *)
theory Eval_Depth
  imports Eval_Stmt Typetree_Correct
begin

text \<open>
  The operators of \<open>eval.c\<close> call each other at most four levels deep. Each level is
  shown to consult the next one only for simpler calls: conversions of operands
  that are no dereferenced arrays; products, quotients and differences of such;
  sums of such.
\<close>

section \<open>Results of operations\<close>

definition yields :: "'a ev \<Rightarrow> ('a \<Rightarrow> bool) \<Rightarrow> bool" where
  "yields m P \<longleftrightarrow> (\<forall>s x s'. m s = Inr (x, s') \<longrightarrow> P x)"

lemma yields_eret: "P x \<Longrightarrow> yields (eret x) P"
  by (simp add: yields_def eret_def)

lemma yields_fail: "yields (efail e) P" "yields (eerror m) P"
  by (simp_all add: yields_def efail_def eerror_def)

lemma yields_ebind: "(\<And>x. yields (f x) P) \<Longrightarrow> yields (ebind m f) P"
  unfolding yields_def ebind_Inr by blast

lemma yields_ebind_via: "yields m Q \<Longrightarrow> (\<And>x. Q x \<Longrightarrow> yields (f x) P) \<Longrightarrow> yields (ebind m f) P"
  unfolding yields_def ebind_Inr by blast

lemma yields_eassert: "(b \<Longrightarrow> yields m P) \<Longrightarrow> yields (ebind (eassert b) (\<lambda>_. m)) P"
  by (cases b) (simp_all add: yields_fail)

lemma yields_if: "(b \<Longrightarrow> yields m P) \<Longrightarrow> (\<not> b \<Longrightarrow> yields n P) \<Longrightarrow> yields (if b then m else n) P"
  by simp

lemma yields_etypes: "(\<And>ts x. f ts = Inr x \<Longrightarrow> P x) \<Longrightarrow> yields (etypes f) P"
  by (auto simp: yields_def etypes_def outcome_simps)

lemma yields_prod: "(\<And>a b. p = (a, b) \<Longrightarrow> yields (f a b) P) \<Longrightarrow> yields (case p of (a, b) \<Rightarrow> f a b) P"
  by (cases p) simp

lemmas yields_intros = yields_eret yields_fail yields_eassert yields_if yields_prod

lemma ebind_eq: "m = m' \<Longrightarrow> yields m P \<Longrightarrow> (\<And>x. P x \<Longrightarrow> f x = f' x) \<Longrightarrow> ebind m f = ebind m' f'"
proof (rule ext)
  fix s
  assume h: "m = m'" "yields m P" "\<And>x. P x \<Longrightarrow> f x = f' x"
  show "ebind m f s = ebind m' f' s"
  proof (cases "m s")
    case (Inr r)
    then have "P (fst r)" using h(2) unfolding yields_def by (metis prod.collapse)
    then show ?thesis using h(1,3) Inr by (simp add: ebind_def split_def)
  qed (use h(1) in \<open>simp add: ebind_def\<close>)
qed

text \<open>Two operations that are the same, with results as described.\<close>

definition alike :: "'a ev \<Rightarrow> 'a ev \<Rightarrow> ('a \<Rightarrow> bool) \<Rightarrow> bool" where
  "alike m m' P \<longleftrightarrow> m = m' \<and> yields m P"

lemma alike_refl: "yields m P \<Longrightarrow> alike m m P"
  by (simp add: alike_def)

lemma alike_ebind: "alike m m' Q \<Longrightarrow> (\<And>x. Q x \<Longrightarrow> alike (f x) (f' x) P) \<Longrightarrow> alike (ebind m f) (ebind m' f') P"
  unfolding alike_def by (metis ebind_eq yields_ebind_via)

lemma alike_same: "(\<And>x. alike (f x) (f' x) P) \<Longrightarrow> alike (ebind m f) (ebind m f') P"
  by (rule alike_ebind [where Q = "\<lambda>_. True"]) (simp_all add: alike_def yields_def)

lemma alike_any: "alike m m (\<lambda>_. True)"
  by (simp add: alike_def yields_def)

lemma alike_if: "alike m m' P \<Longrightarrow> alike n n' P \<Longrightarrow> alike (if b then m else n) (if b then m' else n') P"
  by simp

lemma alike_prod: "(\<And>a b. p = (a, b) \<Longrightarrow> alike (f a b) (g a b) P) \<Longrightarrow> alike (case p of (a, b) \<Rightarrow> f a b) (case p of (a, b) \<Rightarrow> g a b) P"
  by (cases p) simp

section \<open>Operands that need no address\<close>

definition plain :: "var \<Rightarrow> bool" where
  "plain v \<longleftrightarrow> \<not> (v_kind v = DEREF \<and> (is_function (v_type v) \<or> is_array (v_type v)))"

definition plain_expr :: "expression \<Rightarrow> bool" where
  "plain_expr e \<longleftrightarrow> (\<forall>ts. is_identity ts e = Inr True \<longrightarrow> plain (e_l e))"

lemma plain_kind [simp]: "v_kind v \<noteq> DEREF \<Longrightarrow> plain v"
  by (simp add: plain_def)

lemma plain_pointer: "is_pointer (v_type v) \<Longrightarrow> plain v"
  by (simp add: plain_def is_pointer_def is_function_def is_array_def)

lemma plain_scalar: "is_scalar (v_type v) \<Longrightarrow> plain v"
  by (auto simp: plain_def tclass_simps)

lemma plain_exprI [intro]: "plain (e_l e) \<Longrightarrow> plain_expr e"
  by (simp add: plain_expr_def)

lemma as_expr_l [simp]: "e_l (as_expr v) = v"
  by (simp add: as_expr_def)

lemma var_void_kind [simp]: "v_kind var_void = IMMEDIATE" "v_kind (var_int n) = IMMEDIATE" "v_kind (var_numeric t v) = IMMEDIATE"
  by (simp_all add: var_void_def var_int_def var_numeric_def)

lemma yields_var_direct: "yields (var_direct r) (\<lambda>v. v_kind v \<noteq> DEREF)"
  unfolding var_direct_def
  by (intro yields_ebind) (auto simp: Let_def outcome_simps split: symtype.split intro!: yields_intros yields_etypes)

lemma yields_create_var: "yields (create_var def t) (\<lambda>v. v_kind v \<noteq> DEREF)"
  unfolding create_var_def
  by (rule yields_ebind, rule yields_ebind, rule yields_ebind, rule yields_ebind_via [OF yields_var_direct])
    (auto intro!: yields_ebind yields_eret)

lemma yields_eval: "plain_expr e \<Longrightarrow> yields (eval def block e) plain"
  unfolding eval_def
  by (rule yields_ebind_via [where Q = "\<lambda>i. i \<longrightarrow> plain (e_l e)"])
    (auto simp: plain_expr_def intro!: yields_if yields_etypes yields_eret yields_ebind yields_ebind_via [OF yields_create_var])

text \<open>The four ways in which a scalar is converted.\<close>

lemma is_string_state: "is_string v s = Inr (b, s') \<Longrightarrow> s' = s"
  by (auto simp: is_string_def ev_simps split: if_splits option.splits)

lemma cast_cases:
  assumes "cast fl v t s = Inr (e, s')"
  obtains (void) "is_void t" "e = as_expr var_void" "s' = s"
  | (retype) "is_scalar (v_type v)" "is_scalar t" "e = as_expr (v\<lparr>v_type := t\<rparr>)" "s' = s"
  | (folded) c where "is_scalar (v_type v)" "is_scalar t" "v_kind v = IMMEDIATE" "convert fl (v_imm v) (v_type v) t = Inr c"
      "e = as_expr (var_numeric t c)" "s' = s"
  | (convert) "is_scalar (v_type v)" "is_scalar t" "v_kind v \<noteq> IMMEDIATE" "e = \<lparr>e_op = IR_OP_CAST, e_type = t, e_l = v, e_r = zero_var\<rparr>"
      "type_equal (sy_types (p_symtab s)) (v_type v) t = Inr False" "s' = s"
  | (same) n m where "is_scalar (v_type v)" "is_scalar t" "v_kind v \<noteq> IMMEDIATE" "e = as_expr v"
      "type_equal (sy_types (p_symtab s)) (v_type v) t = Inr True" "s' = s"
      "size_of (sy_types (p_symtab s)) (v_type v) = Inr n" "size_of (sy_types (p_symtab s)) t = Inr m"
      "n = m \<Longrightarrow> \<not> is_pointer (v_type v) \<and> \<not> is_pointer t"
proof -
  consider "is_void t" | "\<not> is_void t" "is_scalar (v_type v)" "is_scalar t" "v_kind v = IMMEDIATE"
    | "\<not> is_void t" "is_scalar (v_type v)" "is_scalar t" "v_kind v \<noteq> IMMEDIATE"
    using assms by (auto simp: cast_def eerror_def efail_def split: if_splits)
  then show ?thesis
  proof cases
    case 1
    then show ?thesis using assms by (intro void) (simp_all add: cast_def eret_def)
  next
    case 2
    note kind = 2
    obtain b where b: "is_string v s = Inr (b, s)"
      using assms 2 is_string_state by (fastforce simp: cast_def ebind_Inr)
    show ?thesis
    proof (cases b)
      case True
      then show ?thesis using assms 2 b by (intro retype) (auto simp: cast_def ev_simps outcome_simps eassert_def split: if_splits)
    next
      case False
      then obtain c where "convert fl (v_imm v) (v_type v) t = Inr c" "e = as_expr (var_numeric t c)" "s' = s"
        using assms 2 b by (auto simp: cast_def ev_simps outcome_simps eassert_def split: if_splits)
      then show ?thesis using kind by (intro folded) simp_all
    qed
  next
    case 3
    let ?ts = "sy_types (p_symtab s)"
    obtain n m where nm: "size_of ?ts (v_type v) = Inr n" "size_of ?ts t = Inr m"
      using assms 3 by (auto simp: cast_def ev_simps outcome_simps)
    show ?thesis
    proof (cases "n = m \<and> (is_pointer (v_type v) \<or> is_pointer t)")
      case True
      then show ?thesis
        using assms 3 nm by (intro retype) (auto simp: cast_def ev_simps outcome_simps eassert_def split: if_splits)
    next
      case False
      note no = False
      obtain eq where eq: "type_equal ?ts (v_type v) t = Inr eq"
        using assms 3 nm no by (cases "type_equal ?ts (v_type v) t") (simp_all add: cast_def ev_simps split: if_splits)
      have e: "s' = s" "e = (if eq then as_expr v else \<lparr>e_op = IR_OP_CAST, e_type = t, e_l = v, e_r = zero_var\<rparr>)"
        using assms 3 nm no eq
        by (cases eq; simp add: cast_def ev_simps outcome_simps create_expr_def split: if_splits)+
      show ?thesis
      proof (cases eq)
        case True
        then show ?thesis using 3 nm eq e no by (intro same [of n m]) auto
      qed (use 3 eq e in \<open>intro convert; simp\<close>)
    qed
  qed
qed

lemma yields_cast: "yields (cast fl v t) (\<lambda>e. plain (e_l e))"
  unfolding yields_def by (auto elim!: cast_cases simp: plain_scalar)

lemma yields_eval_cast: "yields (ebind (cast fl v t) (eval def block)) plain"
  by (auto intro!: yields_ebind_via [OF yields_cast] yields_eval)

lemma yields_vla_address: "yields (vla_address r) plain"
  unfolding vla_address_def
proof (intro yields_ebind)
  have "yields (var_direct a) plain" for a
    using yields_var_direct unfolding yields_def by (metis plain_kind)
  then show "yields (case s_value sy of Vla_Address a \<Rightarrow> var_direct (Some a) | No_Value \<Rightarrow> efail Assert_Failed
      | _ \<Rightarrow> efail Undefined_Behaviour) plain" for sy
    by (simp add: yields_fail split: sym_value.split)
qed

lemma yields_addr: "yields (eval_addr_with rec def block v) plain"
  unfolding eval_addr_with_def
  by (auto intro!: yields_if yields_fail yields_ebind yields_vla_address yields_eassert yields_eret plain_pointer)

lemma yields_rvalue: "yields (rvalue_with rec fl def block v) plain"
  unfolding rvalue_with_def string_to_pointer_def
  by (auto simp: plain_def intro!: yields_if yields_addr yields_vla_address yields_eassert yields_eret yields_eval_cast
      yields_ebind)

text \<open>A conversion to \<open>long\<close> gives an operand of arithmetic type, so that a difference of pointers is one of numbers.\<close>

definition long_expr :: "expression \<Rightarrow> bool" where
  "long_expr e \<longleftrightarrow> is_arithmetic (e_type e) \<and> (\<forall>ts. is_identity ts e = Inr True \<longrightarrow> is_arithmetic (v_type (e_l e)))"

lemma is_arithmetic_long [simp]: "is_arithmetic basic_type__long" "is_scalar basic_type__long" "\<not> is_void basic_type__long"
    "\<not> is_pointer basic_type__long"
  by (simp_all add: tclass_simps)

lemma type_equal_long:
  "type_equal ts basic_type__long t = Inr (t_type t = T_LONG \<and> \<not> t_unsigned t \<and> t_ref t = 0)"
  "type_equal ts t basic_type__long = Inr (t_type t = T_LONG \<and> \<not> t_unsigned t \<and> t_ref t = 0)"
  by (auto simp: type_equal_def basic_type_def zero_type_def)

lemma type_of_long: "t_type t = T_LONG \<Longrightarrow> type_of t = T_LONG \<or> type_of t = T_POINTER"
  by (simp add: type_of_def)

lemma yields_cast_long: "yields (cast fl v basic_type__long) long_expr"
proof (unfold yields_def, intro allI impI)
  fix s e s'
  assume "cast fl v basic_type__long s = Inr (e, s')"
  then show "long_expr e"
  proof (cases rule: cast_cases)
    case convert
    then show ?thesis by (auto simp: long_expr_def is_identity_def type_equal_long)
  next
    case (same n m)
    have "type_of (v_type v) = T_LONG"
      using same type_of_long [of "v_type v"] by (auto simp: type_equal_long is_pointer_def tclass_simps scalar_size_def)
    then show ?thesis using same by (simp add: long_expr_def as_expr_def is_arithmetic_def type_between_def)
  qed (simp_all add: long_expr_def as_expr_def var_numeric_def)
qed

section \<open>Levels of the recursion\<close>

text \<open>
  Two evaluations of operators agree on conversions; on products and quotients, and
  on differences of numbers; and on sums. The results are such that the next
  call is again one of these.
\<close>

definition agree_cast :: "eval_rec \<Rightarrow> eval_rec \<Rightarrow> bool" where
  "agree_cast r r' \<longleftrightarrow> (\<forall>l t. plain l \<longrightarrow> r IR_OP_CAST l (A_Type t) = r' IR_OP_CAST l (A_Type t) \<and>
     yields (r IR_OP_CAST l (A_Type t)) (\<lambda>e. plain (e_l e) \<and> (t = basic_type__long \<longrightarrow> long_expr e)))"

definition agree_arith :: "eval_rec \<Rightarrow> eval_rec \<Rightarrow> bool" where
  "agree_arith r r' \<longleftrightarrow> agree_cast r r' \<and>
     (\<forall>op l v. plain l \<and> plain v \<and>
        (op = IR_OP_MUL \<or> op = IR_OP_DIV \<or> op = IR_OP_SUB \<and> is_arithmetic (v_type l) \<and> is_arithmetic (v_type v)) \<longrightarrow>
        r op l (A_Var v) = r' op l (A_Var v) \<and> yields (r op l (A_Var v)) plain_expr)"

definition agree_sum :: "eval_rec \<Rightarrow> eval_rec \<Rightarrow> bool" where
  "agree_sum r r' \<longleftrightarrow> agree_arith r r' \<and>
     (\<forall>l v. plain l \<and> plain v \<longrightarrow> r IR_OP_ADD l (A_Var v) = r' IR_OP_ADD l (A_Var v))"

lemma agree_castD:
  assumes "agree_cast r r'" "plain l"
  shows "r IR_OP_CAST l (A_Type t) = r' IR_OP_CAST l (A_Type t)" "yields (r IR_OP_CAST l (A_Type t)) (\<lambda>e. plain (e_l e))"
    "yields (r IR_OP_CAST l (A_Type basic_type__long)) long_expr"
  using assms unfolding agree_cast_def yields_def by blast+

lemma agree_arithD:
  assumes "agree_arith r r'" "plain l" "plain v"
    and "op = IR_OP_MUL \<or> op = IR_OP_DIV \<or> op = IR_OP_SUB \<and> is_arithmetic (v_type l) \<and> is_arithmetic (v_type v)"
  shows "r op l (A_Var v) = r' op l (A_Var v)" "yields (r op l (A_Var v)) plain_expr"
  using assms unfolding agree_arith_def by blast+

lemma agree_arith_cast: "agree_arith r r' \<Longrightarrow> agree_cast r r'"
  by (simp add: agree_arith_def)

section \<open>Operators\<close>

lemma eval_cast_eq:
  assumes "agree_cast r r'" "plain l"
  shows "eval_cast_with r def block l t = eval_cast_with r' def block l t" "yields (eval_cast_with r def block l t) plain"
  unfolding eval_cast_with_def
  by (simp only: agree_castD(1) [OF assms], rule yields_ebind_via [OF agree_castD(2) [OF assms]], auto intro: yields_eval)

lemma yields_create_type: "yields (create_var def t) (\<lambda>v. v_type v = t)"
  unfolding yields_def create_var_def
  by (auto simp: ev_simps msymtab_def sym_create_temporary_def update_symbol_def var_direct_def zero_var_def outcome_simps Let_def
      split: prod.splits if_splits)

lemma yields_eval_rule:
  assumes "\<And>ts. is_identity ts e = Inr True \<Longrightarrow> P (e_l e)" "\<not> is_void (e_type e)" "\<And>v. v_type v = e_type e \<Longrightarrow> P v"
  shows "yields (eval def block e) P"
  unfolding eval_def
proof (rule yields_ebind_via [where Q = "\<lambda>i. i \<longrightarrow> P (e_l e)"])
  show "yields (etypes (\<lambda>ts. is_identity ts e)) (\<lambda>i. i \<longrightarrow> P (e_l e))" using assms(1) by (intro yields_etypes) auto
next
  fix i assume i: "i \<longrightarrow> P (e_l e)"
  have "yields (ebind (create_var def (e_type e)) (\<lambda>res. ebind (emit_ir block IR_ASSIGN res e) (\<lambda>_. eret (res\<lparr>v_lvalue := False\<rparr>)))) P"
    by (rule yields_ebind_via [OF yields_create_type], rule yields_ebind, rule yields_eret) (simp add: assms(3))
  then show "yields (if i then eret (e_l e) else if is_void (e_type e) then ebind (emit_ir block IR_EXPR var_void e) (\<lambda>_. eret var_void)
      else ebind (create_var def (e_type e)) (\<lambda>res. ebind (emit_ir block IR_ASSIGN res e) (\<lambda>_. eret (res\<lparr>v_lvalue := False\<rparr>)))) P"
    using i assms(2) by (auto intro: yields_eret)
qed

lemma yields_eval_long: "long_expr e \<Longrightarrow> yields (eval def block e) (\<lambda>v. is_arithmetic (v_type v))"
  by (rule yields_eval_rule) (auto simp: long_expr_def tclass_simps)

lemma eval_cast_long:
  assumes "agree_cast r r'" "plain l"
  shows "yields (eval_cast_with r def block l basic_type__long) (\<lambda>v. plain v \<and> is_arithmetic (v_type v))"
proof -
  have "yields (ebind (r IR_OP_CAST l (A_Type basic_type__long)) (eval def block)) (\<lambda>v. is_arithmetic (v_type v))"
    by (rule yields_ebind_via [OF agree_castD(3) [OF assms]]) (rule yields_eval_long)
  then show ?thesis
    using eval_cast_eq(2) [OF assms, of def block basic_type__long] unfolding eval_cast_with_def yields_def by blast
qed

lemma eval_casts_eq:
  assumes "agree_cast r r'" "plain l" "plain v"
  shows "eval_casts_with r def block l v t = eval_casts_with r' def block l v t"
    "yields (eval_casts_with r def block l v basic_type__long)
       (\<lambda>(a, b). plain a \<and> is_arithmetic (v_type a) \<and> plain b \<and> is_arithmetic (v_type b))"
proof -
  show "eval_casts_with r def block l v t = eval_casts_with r' def block l v t"
    unfolding eval_casts_with_def by (simp only: eval_cast_eq(1) [OF assms(1,2)] eval_cast_eq(1) [OF assms(1,3)])
  show "yields (eval_casts_with r def block l v basic_type__long)
       (\<lambda>(a, b). plain a \<and> is_arithmetic (v_type a) \<and> plain b \<and> is_arithmetic (v_type b))"
    unfolding eval_casts_with_def
    by (rule yields_ebind_via [OF eval_cast_long [OF assms(1,2)]], rule yields_ebind_via [OF eval_cast_long [OF assms(1,3)]],
        rule yields_eret) simp
qed

lemma prepare_eq:
  assumes "agree_cast r r'" "plain l" "plain v"
  shows "prepare_comparison_operands_with r fl def block l v = prepare_comparison_operands_with r' fl def block l v"
proof -
  have eq: "eval_casts_with r def block l v = eval_casts_with r' def block l v"
    "eval_casts_with r def block v l = eval_casts_with r' def block v l"
    using eval_casts_eq(1) [OF assms] eval_casts_eq(1) [OF assms(1,3,2)] by blast+
  show ?thesis unfolding prepare_comparison_operands_with_def prepare_ordered_with_def eq by (rule refl)
qed

text \<open>The operators that only convert their operands.\<close>

lemma converting_operators_eq:
  assumes "agree_cast r r'" "plain l" "plain v"
  shows "mul_with r fl def block l v = mul_with r' fl def block l v" "ediv_with r fl def block l v = ediv_with r' fl def block l v"
    "mod_with r fl def block l v = mod_with r' fl def block l v" "cmp_eq_with r fl def block l v = cmp_eq_with r' fl def block l v"
    "cmp_ne_with r fl def block l v = cmp_ne_with r' fl def block l v" "cmp_ge_with r fl def block l v = cmp_ge_with r' fl def block l v"
    "cmp_gt_with r fl def block l v = cmp_gt_with r' fl def block l v" "or_with r fl def block l v = or_with r' fl def block l v"
    "xor_with r fl def block l v = xor_with r' fl def block l v" "and_with r fl def block l v = and_with r' fl def block l v"
    "shiftl_with r fl def block l v = shiftl_with r' fl def block l v" "shiftr_with r fl def block l v = shiftr_with r' fl def block l v"
    "not_with r fl def block l = not_with r' fl def block l"
  unfolding mul_with_def ediv_with_def mod_with_def cmp_eq_with_def cmp_ne_with_def cmp_ge_with_def cmp_gt_with_def or_with_def
    xor_with_def and_with_def shiftl_with_def shiftr_with_def not_with_def
    eval_casts_eq(1) [OF assms] prepare_eq [OF assms] eval_cast_eq(1) [OF assms(1,2)]
  by (rule refl)+

lemma yields_arithmetic_result: "op \<noteq> IR_OP_CAST \<Longrightarrow> yields (arithmetic_result fl fop op t l v) plain_expr"
proof -
  assume op: "op \<noteq> IR_OP_CAST"
  have "yields (cast fl x t) plain_expr" for x
    using yields_cast [of fl x t] unfolding yields_def by blast
  moreover have "plain_expr e" if "create_expr ts op l (A_Var v) = Inr e" for ts e
    using that op by (auto simp: create_expr_def plain_expr_def is_identity_def outcome_simps split: if_splits)
  ultimately show ?thesis unfolding arithmetic_result_def by (intro yields_if yields_ebind yields_etypes) auto
qed

lemma yields_products: "yields (mul_with r fl def block l v) plain_expr" "yields (ediv_with r fl def block l v) plain_expr"
  unfolding mul_with_def ediv_with_def by (auto intro!: yields_ebind yields_prod yields_arithmetic_result)

lemma yields_difference: "is_arithmetic (v_type l) \<Longrightarrow> is_arithmetic (v_type v) \<Longrightarrow> yields (sub_with r fl def block l v) plain_expr"
  unfolding sub_with_def by (auto intro!: yields_ebind yields_prod yields_arithmetic_result)

section \<open>Pointer arithmetic\<close>

lemma imm_kind: "imm_signed t n = Inr v \<Longrightarrow> v_kind v = IMMEDIATE" "imm_unsigned ts t n = Inr v \<Longrightarrow> v_kind v = IMMEDIATE"
  by (auto simp: imm_signed_def imm_unsigned_def outcome_simps split: if_splits)

lemma yields_var_plain: "yields (var_direct r) plain"
  using yields_var_direct unfolding yields_def by (metis plain_kind)

lemma yields_length:
  "yields (etypes (\<lambda>ts. imm_unsigned ts ty k)) plain" "yields (etypes (\<lambda>_. imm_signed ty m)) plain"
  "yields (etypes (\<lambda>ts. obind (type_array_len ts t) (\<lambda>k. imm_unsigned ts ty (int k)))) plain"
  by (rule yields_etypes, auto simp: outcome_simps dest: imm_kind)+

lemma vla_size_alike:
  assumes "agree_arith r r'"
  shows "alike (eval_vla_size_fuel n r def block t) (eval_vla_size_fuel n r' def block t) plain_expr"
proof (induction n arbitrary: t)
  case (Suc n)
  have mul: "alike (r IR_OP_MUL l (A_Var v)) (r' IR_OP_MUL l (A_Var v)) plain_expr" if "plain l" "plain v" for l v
    unfolding alike_def using agree_arithD [OF assms that] by simp
  have last: "alike (ebind (var_direct len) (\<lambda>lv. eret (as_expr lv))) (ebind (var_direct len) (\<lambda>lv. eret (as_expr lv))) plain_expr" for len
    by (intro alike_refl, rule yields_ebind_via [OF yields_var_plain], rule yields_eret) auto
  note evald = alike_ebind [OF alike_refl [OF yields_eval]] and var = alike_ebind [OF alike_refl [OF yields_var_plain]]
    and len = alike_ebind [OF alike_refl [OF yields_length(1)]] alike_ebind [OF alike_refl [OF yields_length(3)]]
    and size = alike_ebind [OF Suc.IH]
  show ?case
    unfolding eval_vla_size_fuel.simps
    by (rule alike_same, rule alike_same, rule alike_same, rule alike_same, rule alike_if,
        rule alike_same, rule alike_if, rule size, rule evald, assumption, rule var, rule mul, assumption, assumption,
        rule alike_same, rule alike_if, rule len(1), rule var, rule mul, assumption, assumption, rule alike_same, rule last,
        rule len(2), rule size, rule evald, assumption, rule mul, assumption, assumption)
qed (simp add: alike_refl yields_fail)

lemma vla_size_with_alike:
  assumes "agree_arith r r'"
  shows "alike (eval_vla_size_with r def block t) (eval_vla_size_with r' def block t) plain_expr"
  using vla_size_alike [OF assms] unfolding alike_def yields_def eval_vla_size_with_def fun_eq_iff by blast

lemma add_pointer_eq:
  assumes "agree_arith r r'" "plain l" "plain v"
  shows "add_pointer_with r fl def block l v n = add_pointer_with r' fl def block l v n"
proof -
  have mul: "alike (r IR_OP_MUL c (A_Var v)) (r' IR_OP_MUL c (A_Var v)) plain_expr" if "plain c" for c
    unfolding alike_def using agree_arithD [OF assms(1) that assms(3)] by simp
  have eq: "ebind (etypes (\<lambda>_. imm_signed ty k)) (\<lambda>c. ebind (r IR_OP_MUL c (A_Var v)) (eval def block)) =
     ebind (etypes (\<lambda>_. imm_signed ty k)) (\<lambda>c. ebind (r' IR_OP_MUL c (A_Var v)) (eval def block))" for ty k
    by (rule ebind_eq [OF refl yields_length(2)]) (use mul in \<open>simp add: alike_def\<close>)
  show ?thesis
    unfolding add_pointer_with_def eval_cast_eq(1) [OF agree_arith_cast [OF assms(1)] assms(2)] eq by (rule refl)
qed

lemma sub_pointer_eq:
  assumes "agree_arith r r'" "plain v"
  shows "sub_pointer_with r fl def block l v n = sub_pointer_with r' fl def block l v n"
proof -
  have mul: "alike (r IR_OP_MUL c (A_Var v)) (r' IR_OP_MUL c (A_Var v)) plain_expr" if "plain c" for c
    unfolding alike_def using agree_arithD [OF assms(1) that assms(2)] by simp
  have eq: "ebind (etypes (\<lambda>ts. imm_unsigned ts ty k)) (\<lambda>c. ebind (r IR_OP_MUL c (A_Var v)) (eval def block)) =
     ebind (etypes (\<lambda>ts. imm_unsigned ts ty k)) (\<lambda>c. ebind (r' IR_OP_MUL c (A_Var v)) (eval def block))" for ty k
    by (rule ebind_eq [OF refl yields_length(1)]) (use mul in \<open>simp add: alike_def\<close>)
  show ?thesis unfolding sub_pointer_with_def eq by (rule refl)
qed

lemma vla_pointer_eq:
  assumes "agree_arith r r'" "plain v"
  shows "vla_pointer_with r def block op l v t = vla_pointer_with r' def block op l v t"
proof -
  have mul: "alike (r IR_OP_MUL c (A_Var v)) (r' IR_OP_MUL c (A_Var v)) plain_expr" if "plain c" for c
    unfolding alike_def using agree_arithD [OF assms(1) that assms(2)] by simp
  have "alike (vla_pointer_with r def block op l v t) (vla_pointer_with r' def block op l v t) (\<lambda>_. True)"
    unfolding vla_pointer_with_def
    by (rule alike_ebind [OF vla_size_with_alike [OF assms(1)]], rule alike_ebind [OF alike_refl [OF yields_eval]], assumption,
        rule alike_ebind [OF mul], assumption) (simp add: alike_def yields_def)
  then show ?thesis by (simp add: alike_def)
qed

lemma sub_pointers_eq:
  assumes "agree_arith r r'" "plain l" "plain v"
  shows "sub_pointers_with r def block l v = sub_pointers_with r' def block l v"
proof -
  note casts = eval_casts_eq [OF agree_arith_cast [OF assms(1)] assms(2,3)]
  have div: "alike (r IR_OP_DIV a (A_Var b)) (r' IR_OP_DIV a (A_Var b)) (\<lambda>_. True)" if "plain a" "plain b" for a b
    unfolding alike_def yields_def using agree_arithD(1) [OF assms(1) that] by simp
  have sub: "alike (r IR_OP_SUB a (A_Var b)) (r' IR_OP_SUB a (A_Var b)) plain_expr"
    if "plain a \<and> is_arithmetic (v_type a) \<and> plain b \<and> is_arithmetic (v_type b)" for a b
    unfolding alike_def using agree_arithD [OF assms(1), of a b IR_OP_SUB] that by simp
  have both: "alike (eval_casts_with r def block l v basic_type__long) (eval_casts_with r' def block l v basic_type__long)
      (\<lambda>(a, b). plain a \<and> is_arithmetic (v_type a) \<and> plain b \<and> is_arithmetic (v_type b))"
    unfolding alike_def using casts by simp
  note evald = alike_ebind [OF alike_refl [OF yields_eval]]
  have "alike (sub_pointers_with r def block l v) (sub_pointers_with r' def block l v) (\<lambda>_. True)"
    unfolding sub_pointers_with_def
    apply (rule alike_same, rule alike_same, rule alike_same, rule alike_ebind [OF both])
    apply (rule alike_prod, rule alike_ebind [OF sub], simp, rule alike_same, rule alike_if)
     apply (rule evald, assumption, rule alike_ebind [OF vla_size_with_alike [OF assms(1)]], rule evald, assumption,
        rule div, assumption, assumption)
    apply (rule alike_if, rule evald, assumption, rule alike_ebind [OF alike_refl [OF yields_length(2)]], rule div, assumption, assumption)
    apply (rule alike_any)
    done
  then show ?thesis by (simp add: alike_def)
qed

section \<open>The four levels\<close>

lemma pointer_offset_eq:
  assumes "agree_arith r r'" "plain a" "plain b" and "\<And>c. plain c \<Longrightarrow> f c = f' c"
  shows "ebind (eval_cast_with r def block b basic_type__long) (\<lambda>c. ebind (etypes (\<lambda>ts. is_vla ts type)) (\<lambda>vla.
        if vla then vla_pointer_with r def block op a c type else if n = (0::nat) then eerror msg else f c)) =
    ebind (eval_cast_with r' def block b basic_type__long) (\<lambda>c. ebind (etypes (\<lambda>ts. is_vla ts type)) (\<lambda>vla.
        if vla then vla_pointer_with r' def block op a c type else if n = 0 then eerror msg else f' c))"
  by (rule ebind_eq [OF eval_cast_eq(1) eval_cast_eq(2)], rule agree_arith_cast [OF assms(1)], rule assms(3),
      rule agree_arith_cast [OF assms(1)], rule assms(3)) (simp only: vla_pointer_eq [OF assms(1)] assms(4))

lemma add_eq:
  assumes "agree_arith r r'" "plain l" "plain v"
  shows "add_with r fl def block l v = add_with r' fl def block l v"
proof -
  have "add_ordered_with r fl def block a b = add_ordered_with r' fl def block a b" if p: "plain a" "plain b" for a b
    unfolding add_ordered_with_def
    by (simp only: eval_casts_eq(1) [OF agree_arith_cast [OF assms(1)] p]
        pointer_offset_eq [OF assms(1) p add_pointer_eq [OF assms(1) p(1)]])
  then show ?thesis using assms(2,3) by (simp add: add_with_def)
qed

lemma sub_arithmetic_eq:
  assumes "agree_cast r r'" "plain l" "plain v" "is_arithmetic (v_type l)" "is_arithmetic (v_type v)"
  shows "sub_with r fl def block l v = sub_with r' fl def block l v"
  using assms(4,5) unfolding sub_with_def by (simp only: eval_casts_eq(1) [OF assms(1-3)] simp_thms if_True)

lemma sub_eq:
  assumes "agree_arith r r'" "plain l" "plain v"
  shows "sub_with r fl def block l v = sub_with r' fl def block l v"
  unfolding sub_with_def
  by (simp only: eval_casts_eq(1) [OF agree_arith_cast [OF assms(1)] assms(2,3)] sub_pointers_eq [OF assms]
      pointer_offset_eq [OF assms sub_pointer_eq [OF assms(1)]])

lemma plain_zero [simp]: "plain zero_var" "plain (var_int n)"
  by (simp_all add: plain_def zero_var_def var_int_def)

lemma neg_eq:
  assumes "agree_cast r r'" "plain v"
  shows "neg_with r fl def block v = neg_with r' fl def block v"
proof -
  have "sub_with r fl def block (var_int 0) v = sub_with r' fl def block (var_int 0) v" if "is_arithmetic (v_type v)"
    using sub_arithmetic_eq [OF assms(1) plain_zero(2) assms(2)] that by (simp add: var_int_def tclass_simps)
  then show ?thesis by (cases "is_arithmetic (v_type v)") (simp_all add: neg_with_def)
qed

lemma eval_addr_plain: "v_kind v \<noteq> DEREF \<Longrightarrow> eval_addr_with r def block v = eval_addr_with r' def block v"
  unfolding eval_addr_with_def by (cases "v_kind v") (simp_all only: var_kind.simps simp_thms)

lemma rvalue_plain: "plain v \<Longrightarrow> rvalue_with r fl def block v = rvalue_with r' fl def block v"
proof -
  assume p: "plain v"
  show ?thesis
  proof (cases "v_kind v = DEREF")
    case True
    then show ?thesis using p by (simp add: rvalue_with_def plain_def)
  next
    case False
    then have eq: "eval_addr_with r def block (v\<lparr>v_type := t\<rparr>) = eval_addr_with r' def block (v\<lparr>v_type := t\<rparr>)"
      "eval_addr_with r def block v = eval_addr_with r' def block v" for t
      by (simp_all add: eval_addr_plain [of _ r def block r'])
    show ?thesis unfolding rvalue_with_def eq by (rule refl)
  qed
qed

lemma rvalue_eq:
  assumes "agree_sum r r'"
  shows "rvalue_with r fl def block v = rvalue_with r' fl def block v"
proof -
  have c: "agree_cast r r'" using assms by (simp add: agree_sum_def agree_arith_def)
  have sum: "alike (r IR_OP_ADD a (A_Var (var_int n))) (r' IR_OP_ADD a (A_Var (var_int n))) (\<lambda>_. True)" if "plain a" for a n
    using assms that by (simp add: alike_def yields_def agree_sum_def)
  have conv: "alike (eval_cast_with r def block a t) (eval_cast_with r' def block a t) plain" if "plain a" for a t
    using eval_cast_eq [OF c that] by (simp add: alike_def)
  have deref: "alike (addr_deref_with r def block v) (addr_deref_with r' def block v) (\<lambda>_. True)" for v
    unfolding addr_deref_with_def
    apply (rule alike_if, rule alike_any)
    apply (rule alike_same, rule alike_same, rule alike_ebind [OF alike_refl [OF yields_var_plain]])
    apply (rule alike_ebind [where Q = "\<lambda>_. True"])
     apply (rule alike_if, rule alike_same, rule alike_ebind [OF conv], assumption)
      apply (rule alike_ebind [OF sum], assumption, rule alike_any, rule alike_any, rule alike_any)
    done
  have eq: "addr_deref_with r def block v = addr_deref_with r' def block v" for v
    using deref by (simp add: alike_def)
  show ?thesis unfolding rvalue_with_def eval_addr_with_def eq by (rule refl)
qed

text \<open>The body of an operator, given its operands.\<close>

lemma operators_eq:
  assumes "rvalue_with r fl def block l = rvalue_with r' fl def block l"
    and "\<And>v. a = A_Var v \<Longrightarrow> rvalue_with r fl def block v = rvalue_with r' fl def block v"
    and "agree_cast r r'" and "op \<in> {IR_OP_ADD, IR_OP_SUB} \<Longrightarrow> agree_arith r r'"
  shows "eval_expr_with r fl def block op l a = eval_expr_with r' fl def block op l a"
proof -
  have rv: "alike (rvalue_with r fl def block l) (rvalue_with r' fl def block l) plain"
    using assms(1) yields_rvalue by (simp add: alike_def)
  have "alike (ebind (etypes (\<lambda>_. arg_var a)) (rvalue_with r fl def block)) (ebind (etypes (\<lambda>_. arg_var a)) (rvalue_with r' fl def block)) plain"
  proof (rule alike_ebind [where Q = "\<lambda>v. a = A_Var v"])
    show "alike (etypes (\<lambda>_. arg_var a)) (etypes (\<lambda>_. arg_var a)) (\<lambda>v. a = A_Var v)"
      by (cases a) (simp_all add: alike_def yields_def etypes_def)
  qed (simp add: alike_def assms(2) yields_rvalue)
  then have arg: "alike (if is_binary op then ebind (etypes (\<lambda>_. arg_var a)) (rvalue_with r fl def block) else eret zero_var)
      (if is_binary op then ebind (etypes (\<lambda>_. arg_var a)) (rvalue_with r' fl def block) else eret zero_var) plain"
    by (rule alike_if) (simp add: alike_refl yields_eret)
  have "alike (eval_expr_with r fl def block op l a) (eval_expr_with r' fl def block op l a) (\<lambda>_. True)"
    unfolding eval_expr_with_def
    apply (rule alike_ebind [OF rv], rule alike_ebind [OF arg])
    apply (insert assms(4))
    apply (cases op; simp add: alike_any converting_operators_eq [OF assms(3)] neg_eq [OF assms(3)] add_eq sub_eq)
    done
  then show ?thesis by (simp add: alike_def)
qed

lemma arithmetic_scalar: "is_arithmetic t \<Longrightarrow> is_scalar t \<and> \<not> is_void t \<and> \<not> is_function t \<and> \<not> is_array t"
  by (auto simp: tclass_simps)

lemma yields_cast_arithmetic: "is_arithmetic (v_type v) \<Longrightarrow> is_arithmetic t \<Longrightarrow> yields (cast fl v t) long_expr"
  unfolding yields_def
  by (auto elim!: cast_cases simp: long_expr_def as_expr_def var_numeric_def arithmetic_scalar)

lemma yields_rvalue_arithmetic:
  assumes "is_arithmetic (v_type v)"
  shows "yields (rvalue_with r fl def block v) (\<lambda>x. plain x \<and> is_arithmetic (v_type x))"
proof -
  have int: "is_arithmetic basic_type__int" by (simp add: tclass_simps)
  have "yields (rvalue_with r fl def block v) (\<lambda>x. is_arithmetic (v_type x))"
    unfolding rvalue_with_def using assms arithmetic_scalar [OF assms]
    by (auto intro!: yields_if yields_eret yields_ebind_via [OF yields_cast_arithmetic [OF assms int]] yields_eval_long)
  then show ?thesis using yields_rvalue unfolding yields_def by blast
qed

lemma level_cast: "agree_cast (eval_expr_with r fl def block) (eval_expr_with r' fl def block)"
proof -
  have eq: "eval_expr_with q fl def block IR_OP_CAST l (A_Type t) = ebind (rvalue_with q fl def block l) (\<lambda>x. cast fl x t)" for q l t
    by (simp add: eval_expr_with_def is_binary_def ebind_def etypes_def eret_def fun_eq_iff)
  have "yields (cast fl x t) (\<lambda>e. plain (e_l e) \<and> (t = basic_type__long \<longrightarrow> long_expr e))" for x t
    using yields_cast [of fl x t] yields_cast_long [of fl x] unfolding yields_def by blast
  then show ?thesis
    unfolding agree_cast_def eq using rvalue_plain [of _ r fl def block r'] by (auto intro: yields_ebind)
qed

lemma level_arith:
  assumes "agree_cast r r'"
  shows "agree_arith (eval_expr_with r fl def block) (eval_expr_with r' fl def block)"
proof -
  let ?E = "\<lambda>r. eval_expr_with r fl def block"
  have two: "?E r op l (A_Var v) = ?E r' op l (A_Var v) \<and> yields (?E r op l (A_Var v)) plain_expr"
    if "plain l" "plain v" "op = IR_OP_MUL \<or> op = IR_OP_DIV" for op l v
  proof
    show "?E r op l (A_Var v) = ?E r' op l (A_Var v)"
      using that by (intro operators_eq rvalue_plain assms) auto
    show "yields (?E r op l (A_Var v)) plain_expr"
      using that(3) by (auto simp: eval_expr_with_def intro!: yields_ebind yields_products)
  qed
  have sub: "?E r IR_OP_SUB l (A_Var v) = ?E r' IR_OP_SUB l (A_Var v) \<and> yields (?E r IR_OP_SUB l (A_Var v)) plain_expr"
    if p: "plain l" "plain v" and a: "is_arithmetic (v_type l)" "is_arithmetic (v_type v)" for l v
  proof -
    have eq: "?E q IR_OP_SUB l (A_Var v) =
      ebind (rvalue_with q fl def block l) (\<lambda>x. ebind (rvalue_with q fl def block v) (sub_with q fl def block x))" for q
      by (simp add: eval_expr_with_def is_binary_def ebind_def etypes_def fun_eq_iff)
    have "alike (?E r IR_OP_SUB l (A_Var v)) (?E r' IR_OP_SUB l (A_Var v)) plain_expr"
      unfolding eq rvalue_plain [OF p(1), of r fl def block r'] rvalue_plain [OF p(2), of r fl def block r']
      by (rule alike_ebind [OF alike_refl [OF yields_rvalue_arithmetic [OF a(1)]]],
          rule alike_ebind [OF alike_refl [OF yields_rvalue_arithmetic [OF a(2)]]])
        (simp add: alike_def sub_arithmetic_eq [OF assms] yields_difference)
    then show ?thesis unfolding alike_def .
  qed
  show ?thesis unfolding agree_arith_def using level_cast two sub by blast
qed

lemma level_sum:
  assumes "agree_arith r r'"
  shows "agree_sum (eval_expr_with r fl def block) (eval_expr_with r' fl def block)"
  unfolding agree_sum_def using level_arith [OF agree_arith_cast [OF assms]] assms
  by (auto intro!: operators_eq rvalue_plain agree_arith_cast)

lemma level_all:
  assumes "agree_sum r r'"
  shows "eval_expr_with r fl def block = eval_expr_with r' fl def block"
proof (intro ext)
  fix op l a s
  have "agree_arith r r'" "agree_cast r r'" using assms unfolding agree_sum_def agree_arith_def by blast+
  then show "eval_expr_with r fl def block op l a s = eval_expr_with r' fl def block op l a s"
    using operators_eq [of r fl def block l r' a op] rvalue_eq [OF assms] by simp
qed

text \<open>
  Property C26. The mutual recursion of the operators ends: unrolled four times, the
  evaluation of an operator does not depend on what the innermost recursive call
  would do, whatever operands, types and state it is given. So the depth of the model is no restriction.
\<close>

theorem eval_expr_recursion_ends:
  "((\<lambda>rec. eval_expr_with rec fl def block) ^^ 4) rec = eval_expr fl def block"
proof -
  let ?E = "\<lambda>r. eval_expr_with r fl def block"
  have lev: "eval_expr_level n fl def block = (?E ^^ n) (eval_expr_level 0 fl def block)" for n
  proof (induction n)
    case (Suc n)
    have "eval_expr_level (Suc n) fl def block = ?E (eval_expr_level n fl def block)" by (simp add: fun_eq_iff)
    then show ?case using Suc by simp
  qed simp
  have four: "(?E ^^ 4) q = ?E (?E (?E (?E q)))" for q
    by (simp add: eval_nat_numeral)
  show ?thesis
    unfolding eval_expr_def eval_depth_def lev [of 4] four
    by (rule level_all [OF level_sum [OF level_arith [OF level_cast]]])
qed

lemma eval_expr_unfold: "eval_expr fl def block = eval_expr_with (eval_expr fl def block) fl def block"
proof -
  let ?E = "\<lambda>r. eval_expr_with r fl def block" and ?z = "eval_expr_level 0 fl def block"
  have one: "eval_expr_level (Suc n) fl def block = ?E (eval_expr_level n fl def block)" for n
    by (simp add: fun_eq_iff)
  have "eval_expr fl def block = ?E (?E (?E (?E ?z)))"
    unfolding eval_expr_def eval_depth_def using one [of 3] one [of 2] one [of 1] one [of 0] by (simp add: eval_nat_numeral)
  moreover have "\<dots> = ?E (?E (?E (?E (?E ?z))))" by (rule level_all [OF level_sum [OF level_arith [OF level_cast]]])
  ultimately show ?thesis by (simp only:)
qed

end
