(* ===== verification/Eval_Correct.thy ===== *)
theory Eval_Correct
  imports Eval_Depth VM_Correct
begin

text \<open>
  Constant expressions: the conversion of integer constants, the agreement of
  constant folding with the integer arithmetic of C at the type of the
  expression, and with the instructions of the virtual machine.
\<close>

section \<open>Integer constants\<close>

definition ctype_int :: "ctype \<Rightarrow> int_type" where
  "ctype_int t = (scalar_size (type_of t), is_signed t)"

text \<open>The constant \<open>v\<close> of type \<open>t\<close> has the value \<open>x\<close>: narrow values are extended to 64 bits.\<close>

definition represents :: "cvalue \<Rightarrow> ctype \<Rightarrow> int \<Rightarrow> bool" where
  "represents v t x \<longleftrightarrow> in_type (ctype_int t) x \<and> val_u v = word_of_int x"

text \<open>The value converted to an integer type.\<close>

definition conv :: "ctype \<Rightarrow> int \<Rightarrow> int" where
  "conv t x = (if is_bool t then bool_int (x \<noteq> 0) else to_type (ctype_int t) x)"

lemma integer_size: "is_integer t \<Longrightarrow> scalar_size (type_of t) \<in> {1, 2, 4, 8}"
  by (auto simp: is_integer_iff scalar_size_def)

lemma integer_not_float [simp]: "is_integer t \<Longrightarrow> float_kind_of_type t = None" "is_integer t \<Longrightarrow> is_scalar t"
  "is_integer t \<Longrightarrow> \<not> is_void t" "is_integer t \<Longrightarrow> \<not> is_pointer t" "is_integer t \<Longrightarrow> is_arithmetic t"
  by (auto simp: float_kind_of_type_def tclass_simps)

lemma integer_sign: "is_integer t \<Longrightarrow> is_signed t \<longleftrightarrow> \<not> is_unsigned t"
  by (simp add: is_signed_def)

lemma in_long:
  assumes "n \<in> {1, 2, 4, 8}" "in_type (n, True) x"
  shows "- (2 ^ 63) \<le> x \<and> x < 2 ^ 63"
  using assms by (auto simp: in_type_def int_min_def int_max_def)

lemma in_unsigned_long:
  assumes "n \<in> {1, 2, 4, 8}" "in_type (n, False) x"
  shows "0 \<le> x \<and> x < 2 ^ 64"
  using assms by (auto simp: in_type_def int_min_def int_max_def)

lemma sint_in_long: "- (2 ^ 63) \<le> x \<Longrightarrow> x < 2 ^ 63 \<Longrightarrow> sint (word_of_int x :: u64) = x"
  using val_i_imm_of [of x] by (simp add: val_i_def imm_of_def)

lemma represents_signed: "is_integer t \<Longrightarrow> is_signed t \<Longrightarrow> represents v t x \<Longrightarrow> val_i v = x"
  using in_long [OF integer_size [of t]] by (simp add: represents_def ctype_int_def val_i_def sint_in_long)

lemma represents_unsigned: "is_integer t \<Longrightarrow> \<not> is_signed t \<Longrightarrow> represents v t x \<Longrightarrow> uint (val_u v) = x"
  using in_unsigned_long [OF integer_size [of t]]
  by (simp add: represents_def ctype_int_def uint_word_of_int)

lemma represents_zero:
  assumes "is_integer t" "represents v t x"
  shows "val_u v = 0 \<longleftrightarrow> x = 0"
proof (cases "is_signed t")
  case True
  then have "val_i v = x" using represents_signed assms by blast
  moreover have "val_i v = 0" if "val_u v = 0" using that by (simp add: val_i_def)
  moreover have "val_u v = word_of_int x" using assms(2) by (simp add: represents_def)
  ultimately show ?thesis by auto
next
  case False
  then have "uint (val_u v) = x" using represents_unsigned assms by blast
  then show ?thesis by (metis uint_0_iff)
qed

lemma conv_in_type: "is_integer t \<Longrightarrow> in_type (ctype_int t) (conv t x)"
  using to_type_in_type [of "ctype_int t" x] integer_size [of t]
  by (auto simp: conv_def ctype_int_def bool_int_def in_type_def int_min_def int_max_def is_bool_def is_signed_def is_unsigned_def scalar_size_def)

lemma conv_id: "is_integer t \<Longrightarrow> \<not> is_bool t \<Longrightarrow> in_type (ctype_int t) x \<Longrightarrow> conv t x = x"
  using to_type_id [of "ctype_int t" x] integer_size [of t] by (auto simp: conv_def ctype_int_def)

lemma represents_to_type:
  assumes "is_integer t" "represents v t x"
  shows "cast_immediate fl v t it = Inr (to_type it x)"
  using assms represents_signed [of t v x] represents_unsigned [of t v x] integer_sign [of t]
  by (auto simp: cast_immediate_def)

lemma clamped_integer:
  assumes "is_integer t" "represents v t x"
  shows "convert_clamped fl v t it lo hi = Inr (set_i (to_type it x) v)"
  using assms by (simp add: convert_clamped_def is_float_cmp_def represents_to_type)

lemma convert_integer:
  assumes "is_integer t" "is_integer to" "represents v t x"
  shows "convert fl v t to = Inr (set_i (conv to x) v)"
proof -
  have z: "is_zero_value fl v t = Inr (x = 0)"
    using assms represents_zero by (simp add: is_zero_value_def)
  have "type_of to \<in> {T_BOOL, T_CHAR, T_SHORT, T_INT, T_LONG}" using assms(2) by (simp add: is_integer_iff)
  then show ?thesis
    using clamped_integer [OF assms(1,3)] z
    by (auto simp: convert_def conv_def ctype_int_def scalar_size_def is_bool_def)
qed

text \<open>
  Property C28. Converting an integer constant to an integer type succeeds, and gives
  the constant whose value is the old one modulo the number of values of the new
  type, in its range; conversion to \<open>_Bool\<close> tells whether the value is not zero.
\<close>

theorem convert_integer_constant:
  assumes "is_integer t" "is_integer to" "represents v t x"
  shows "\<exists>v'. convert fl v t to = Inr v' \<and>
    represents v' to (if is_bool to then bool_int (x \<noteq> 0) else to_type (ctype_int to) x)"
  using convert_integer [OF assms, of fl] conv_in_type [OF assms(2), of x]
  by (auto simp: represents_def set_i_def conv_def)

definition no_floats :: host_floats where
  "no_floats = \<lparr>h_arith = \<lambda>k op a b. 0, h_neg = \<lambda>k a. 0, h_cmp = \<lambda>k op a b. False, h_of_int = \<lambda>k n. 0,
     h_trunc = \<lambda>k a. None, h_conv = \<lambda>k l a. 0\<rparr>"

text \<open>The \<open>int\<close> constant -2 becomes 254 as an \<open>unsigned char\<close>.\<close>

theorem convert_integer_constant_witness:
  "\<exists>v'. convert no_floats (imm_of (-2)) basic_type__int basic_type__unsigned_char = Inr v' \<and>
     represents v' basic_type__unsigned_char 254"
proof -
  have h: "is_integer basic_type__int" "is_integer basic_type__unsigned_char" "represents (imm_of (-2)) basic_type__int (-2)"
    by (simp_all add: tclass_simps represents_def imm_of_def ctype_int_def in_type_def int_min_def int_max_def scalar_size_def)
  show ?thesis
    using convert_integer_constant [OF h, of no_floats]
    by (simp add: is_bool_def ctype_int_def scalar_size_def is_signed_def is_unsigned_def to_type_def)
qed

section \<open>Folding\<close>

lemma c_result_wide:
  assumes "c_result (4, sg) x = Inr r"
  shows "\<exists>r'. c_result (8, sg) x = Inr r' \<and> to_type (4, sg) r' = r \<and> (sg \<longrightarrow> r' = r)"
proof (cases sg)
  case True
  then have r: "in_type (4, True) r" "r = x" using assms by (auto simp: c_result_def promote_def split: if_splits)
  then have "in_type (8, True) x" by (simp add: in_type_def int_min_def int_max_def)
  moreover have "to_type (4, True) r = r" using r(1) by (intro to_type_id) auto
  ultimately show ?thesis using r(2) True by (simp add: c_result_def promote_def)
next
  case False
  have "x mod 2 ^ 64 mod 2 ^ 32 = x mod (2 ^ 32 :: int)" by (rule mod_mod_cancel) simp
  then show ?thesis using assms False by (auto simp: c_result_def promote_def to_type_def)
qed

lemma c_result_same: "c_result (8, sg) x = Inr r \<Longrightarrow> to_type (8, sg) r = r"
  by (rule to_type_id) (auto simp: c_result_def promote_def in_type_def int_min_def int_max_def split: if_splits)

lemma fold_int_wide:
  assumes "fold_int op (n, sg) a b = Inr r" "n = 4 \<or> n = 8"
  shows "\<exists>r'. fold_int op (8, sg) a b = Inr r' \<and> to_type (n, sg) r' = r \<and> (sg \<longrightarrow> r' = r)"
  using assms(2)
proof
  assume n: "n = 4"
  note w = c_result_wide [of sg]
  show ?thesis
    using assms(1) n
    by (cases op) (auto simp: c_add_def c_sub_def c_mul_def c_div_def c_mod_def c_and_def c_or_def c_xor_def c_shl_def c_shr_def
        promote_def Let_def outcome_simps split: if_splits dest!: w)
next
  assume n: "n = 8"
  then have "to_type (8, sg) r = r"
    using assms(1) c_result_same [of sg _ r]
    by (cases op) (auto simp: c_add_def c_sub_def c_mul_def c_div_def c_mod_def c_and_def c_or_def c_xor_def c_shl_def c_shr_def
        promote_def Let_def outcome_simps split: if_splits)
  then show ?thesis using assms(1) n by auto
qed

text \<open>A variable that is an integer constant, not the address of a string.\<close>

definition numeric_constant :: "parser_state \<Rightarrow> var \<Rightarrow> int \<Rightarrow> bool" where
  "numeric_constant s v x \<longleftrightarrow> v_kind v = IMMEDIATE \<and> v_offset v = 0 \<and> \<not> is_field v \<and> is_integer (v_type v) \<and>
     (case v_symbol v of None \<Rightarrow> True | Some r \<Rightarrow> s_symtype (sy_heap (p_symtab s) r) \<noteq> SYM_STRING_VALUE) \<and>
     represents (v_imm v) (v_type v) x"

lemma numeric_constantD:
  assumes "numeric_constant s v x"
  shows "is_string v s = Inr (False, s)" "rvalue_with rec fl def block v s = Inr (v, s)" "plain v"
  using assms
  by (auto simp: numeric_constant_def is_string_def ev_simps rvalue_with_def tclass_simps split: option.splits)

lemma numeric_var [simp]:
  "is_integer t \<Longrightarrow> numeric_constant s (var_numeric t c) x \<longleftrightarrow> represents c t x"
  by (simp add: numeric_constant_def var_numeric_def zero_var_def is_field_def)

lemma type_equal_refl [simp]: "type_equal ts t t = Inr True"
  by (simp add: type_equal_def)

lemma eval_as_expr [simp]: "eval def block (as_expr v) s = Inr (v, s)"
  by (simp add: eval_def ev_simps is_identity_def as_expr_def)

lemma cast_constant:
  assumes "numeric_constant s v x" "is_integer t"
  shows "cast fl v t s = Inr (as_expr (var_numeric t (set_i (conv t x) (v_imm v))), s)"
  using assms convert_integer [of "v_type v" t "v_imm v" x fl] numeric_constantD(1) [OF assms(1)]
  by (auto simp: cast_def numeric_constant_def ev_simps as_expr_def var_numeric_def)

lemma represents_set_i: "is_integer t \<Longrightarrow> represents (set_i (conv t x) v) t (conv t x)"
  by (simp add: represents_def set_i_def conv_in_type)

lemma eval_cast_constant:
  assumes "numeric_constant s v x" "is_integer t"
  shows "eval_cast_with (eval_expr fl def block) def block v t s = Inr (var_numeric t (set_i (conv t x) (v_imm v)), s)"
proof -
  have "eval_expr fl def block IR_OP_CAST v (A_Type t) s = cast fl v t s"
    using numeric_constantD(2) [OF assms(1)]
    by (subst eval_expr_unfold) (simp add: eval_expr_with_def ebind_def is_binary_def etypes_def eret_def)
  then show ?thesis using cast_constant [OF assms] by (simp add: eval_cast_with_def ebind_def)
qed

lemma eval_casts_constant:
  assumes "numeric_constant s l a" "numeric_constant s r b" "is_integer t"
  obtains l' r' where "eval_casts_with (eval_expr fl def block) def block l r t s = Inr ((var_numeric t l', var_numeric t r'), s)"
    "represents l' t (conv t a)" "represents r' t (conv t b)"
  using eval_cast_constant [OF assms(1,3), of fl def block] eval_cast_constant [OF assms(2,3), of fl def block]
    represents_set_i [OF assms(3)]
  by (auto simp: eval_casts_with_def ebind_def eret_def)

text \<open>Two constants of the common type are folded at 64 bits; the result is the constant for the result in the type.\<close>

lemma mask_unsigned_int: "(and (word_of_int y) (word_of_int 4294967295) :: u64) = word_of_int (y mod 2 ^ 32)"
proof -
  have "and y 4294967295 = take_bit 32 y" by (simp add: take_bit_eq_mask mask_eq_exp_minus_1)
  then have "(word_of_int (and y 4294967295) :: u64) = word_of_int (y mod 2 ^ 32)" by (simp only: take_bit_eq_mod)
  then show ?thesis by (simp only: of_int_and_eq)
qed

lemma eval_integer_immediate_constant:
  assumes "is_integer t" "type_of t = T_INT \<or> type_of t = T_LONG" "represents l t a" "represents r t b"
    and "fold_int op (ctype_int t) a b = Inr x"
  shows "\<exists>c. eval_integer_immediate ts op t (var_numeric t l) (var_numeric t r) = Inr (var_numeric t c) \<and> represents c t x"
proof -
  have n: "scalar_size (type_of t) = 4 \<or> scalar_size (type_of t) = 8" using assms(2) by (auto simp: scalar_size_def)
  obtain y where y: "fold_int op (8, is_signed t) a b = Inr y" "to_type (ctype_int t) y = x" "is_signed t \<longrightarrow> y = x"
    using fold_int_wide [OF assms(5) [unfolded ctype_int_def] n] by (auto simp: ctype_int_def)
  have size: "size_of ts t = Inr (scalar_size (type_of t))" using assms(2) by (auto simp: tclass_simps)
  have x: "in_type (ctype_int t) x" using y(2) to_type_in_type [of "ctype_int t" y] n by (auto simp: ctype_int_def)
  show ?thesis
  proof (cases "is_signed t")
    case True
    then have "eval_integer_immediate ts op t (var_numeric t l) (var_numeric t r) = Inr (var_numeric t (imm_of x))"
      using represents_signed [OF assms(1) True assms(3)] represents_signed [OF assms(1) True assms(4)] y(1,3)
      by (simp add: eval_integer_immediate_def imm_signed_def var_numeric_def)
    then show ?thesis using x by (intro exI [of _ "imm_of x"]) (simp add: represents_def imm_of_def)
  next
    case False
    then have u: "is_unsigned t" using integer_sign [OF assms(1)] by simp
    let ?c = "if type_of t = T_LONG then imm_of y else zero_value\<lparr>val_u := word_of_int (y mod 2 ^ 32)\<rparr>"
    have e: "eval_integer_immediate ts op t (var_numeric t l) (var_numeric t r) = Inr (var_numeric t ?c)"
      using represents_unsigned [OF assms(1) False assms(3)] represents_unsigned [OF assms(1) False assms(4)]
        y(1) False u size assms(2) mask_unsigned_int [of y]
      by (auto simp: eval_integer_immediate_def imm_unsigned_def var_numeric_def scalar_size_def)
    have "x = y mod 2 ^ (8 * scalar_size (type_of t))"
      using y(2) False by (simp add: to_type_def ctype_int_def Let_def)
    moreover have "(word_of_int (y mod 2 ^ 64) :: u64) = word_of_int y"
      by (rule word_uint_eqI) (simp add: uint_word_of_int)
    ultimately have "represents ?c t x"
      using x assms(2) by (auto simp: represents_def imm_of_def scalar_size_def)
    then show ?thesis using e by blast
  qed
qed

text \<open>The operators that fold two integer constants, and the operation of C that they stand for.\<close>

fun fold_of :: "optype \<Rightarrow> fold_op option" where
  "fold_of IR_OP_ADD = Some Fold_Add"
| "fold_of IR_OP_SUB = Some Fold_Sub"
| "fold_of IR_OP_MUL = Some Fold_Mul"
| "fold_of IR_OP_DIV = Some Fold_Div"
| "fold_of IR_OP_MOD = Some Fold_Mod"
| "fold_of IR_OP_AND = Some Fold_And"
| "fold_of IR_OP_OR = Some Fold_Or"
| "fold_of IR_OP_XOR = Some Fold_Xor"
| "fold_of _ = None"

text \<open>An operation ends in the state it started from, with a constant of type \<open>t\<close> and value \<open>x\<close>.\<close>

definition gives_constant :: "expression ev \<Rightarrow> parser_state \<Rightarrow> ctype \<Rightarrow> int \<Rightarrow> bool" where
  "gives_constant m s t x \<longleftrightarrow> (\<exists>c. m s = Inr (as_expr (var_numeric t c), s) \<and> represents c t x)"

lemma results_constant:
  assumes "is_integer t" "type_of t = T_INT \<or> type_of t = T_LONG" "represents l t a" "represents r t b"
    and "fold_int fop (ctype_int t) a b = Inr x"
  shows "gives_constant (integer_result fl fop op t (var_numeric t l) (var_numeric t r)) s t x"
    "gives_constant (arithmetic_result fl fop op t (var_numeric t l) (var_numeric t r)) s t x"
proof -
  obtain c where c: "eval_integer_immediate (sy_types (p_symtab s)) fop t (var_numeric t l) (var_numeric t r) = Inr (var_numeric t c)"
      "represents c t x"
    using eval_integer_immediate_constant [OF assms] by blast
  have x: "conv t x = x" using c(2) assms(1,2) by (intro conv_id) (auto simp: represents_def is_bool_def)
  have g: "gives_constant (cast fl (var_numeric t c) t) s t x"
    using cast_constant [of s "var_numeric t c" x t fl] c(2) assms(1) represents_set_i [OF assms(1), of x] x
    unfolding gives_constant_def by auto
  have b: "both_immediate (var_numeric t l) (var_numeric t r)" by (simp add: both_immediate_def)
  show "gives_constant (integer_result fl fop op t (var_numeric t l) (var_numeric t r)) s t x"
    using c(1) g b by (simp add: gives_constant_def integer_result_def ev_simps)
  have "eval_arithmetic_immediate fl (sy_types (p_symtab s)) fop t (var_numeric t l) (var_numeric t r) = Inr (var_numeric t c)"
    using c(1) integer_sign [OF assms(1)] by (auto simp: eval_arithmetic_immediate_def)
  then show "gives_constant (arithmetic_result fl fop op t (var_numeric t l) (var_numeric t r)) s t x"
    using g b by (simp add: gives_constant_def arithmetic_result_def ev_simps)
qed

lemma common_type:
  assumes "is_integer t1" "is_integer t2" "usual_arithmetic_conversion ts t1 t2 = Inr t"
  shows "is_integer t \<and> (type_of t = T_INT \<or> type_of t = T_LONG)"
proof -
  obtain p1 where "promote_integer ts t1 = Inr p1" "type_of p1 \<in> {T_INT, T_LONG}" "size_of ts p1 = Inr (if type_of p1 = T_LONG then 8 else 4)"
    using promote_integer_promoted [OF assms(1), of ts] by blast
  moreover obtain p2 where "promote_integer ts t2 = Inr p2" "type_of p2 \<in> {T_INT, T_LONG}" "size_of ts p2 = Inr (if type_of p2 = T_LONG then 8 else 4)"
    using promote_integer_promoted [OF assms(2), of ts] by blast
  ultimately show ?thesis
    using assms by (auto simp: usual_arithmetic_conversion_def tclass_simps split: if_splits)
qed

lemma fold_constants:
  assumes "numeric_constant s l a" "numeric_constant s r b" "fold_of op = Some fop"
    and "usual_arithmetic_conversion (sy_types (p_symtab s)) (v_type l) (v_type r) = Inr t"
    and "fold_int fop (ctype_int t) (conv t a) (conv t b) = Inr x"
  shows "gives_constant (eval_expr fl def block op l (A_Var r)) s t x"
proof -
  have i: "is_integer (v_type l)" "is_integer (v_type r)" using assms(1,2) by (simp_all add: numeric_constant_def)
  have t: "is_integer t" "type_of t = T_INT \<or> type_of t = T_LONG" using common_type [OF i assms(4)] by simp_all
  obtain l' r' where c: "eval_casts_with (eval_expr fl def block) def block l r t s = Inr ((var_numeric t l', var_numeric t r'), s)"
      "represents l' t (conv t a)" "represents r' t (conv t b)"
    using eval_casts_constant [OF assms(1,2) t(1), of fl def block] by blast
  note res = results_constant [OF t c(2,3) assms(5)]
  obtain d where d: "eval_integer_immediate (sy_types (p_symtab s)) fop t (var_numeric t l') (var_numeric t r') = Inr (var_numeric t d)"
      "represents d t x"
    using eval_integer_immediate_constant [OF t c(2,3) assms(5)] by blast
  have b: "both_immediate (var_numeric t l') (var_numeric t r')" by (simp add: both_immediate_def)
  have "is_binary op" using assms(3) by (cases op) (simp_all add: is_binary_def)
  then have "eval_expr fl def block op l (A_Var r) s = (let rec = eval_expr fl def block in
      case op of IR_OP_MOD \<Rightarrow> mod_with rec fl def block l r | IR_OP_MUL \<Rightarrow> mul_with rec fl def block l r
       | IR_OP_DIV \<Rightarrow> ediv_with rec fl def block l r | IR_OP_ADD \<Rightarrow> add_with rec fl def block l r
       | IR_OP_SUB \<Rightarrow> sub_with rec fl def block l r | IR_OP_AND \<Rightarrow> and_with rec fl def block l r
       | IR_OP_XOR \<Rightarrow> xor_with rec fl def block l r | _ \<Rightarrow> or_with rec fl def block l r) s"
    using numeric_constantD(2) [OF assms(1)] numeric_constantD(2) [OF assms(2)] assms(3)
    by (subst eval_expr_unfold) (cases op; simp add: eval_expr_with_def ebind_def etypes_def)
  then show ?thesis
    using assms(3,4) c(1) i t(1) res d b
    by (cases op) (auto simp: gives_constant_def mod_with_def mul_with_def ediv_with_def add_with_def add_ordered_with_def sub_with_def
        and_with_def xor_with_def or_with_def ebind_def etypes_def Let_def)
qed

section \<open>Agreement with the virtual machine\<close>

fun machine_op :: "optype \<Rightarrow> vm_opcode option" where
  "machine_op IR_OP_ADD = Some VM_ADD"
| "machine_op IR_OP_SUB = Some VM_SUB"
| "machine_op IR_OP_MUL = Some VM_MUL"
| "machine_op IR_OP_DIV = Some VM_DIV"
| "machine_op IR_OP_MOD = Some VM_MOD"
| "machine_op IR_OP_AND = Some VM_AND"
| "machine_op IR_OP_OR = Some VM_OR"
| "machine_op IR_OP_XOR = Some VM_XOR"
| "machine_op _ = None"

lemma machine_op_fold: "machine_op op = Some opc \<Longrightarrow> \<exists>fop. fold_of op = Some fop \<and> binary_of opc = Some (fold_int fop)"
  by (cases op) (auto simp: binary_of_def)

lemma value_after_binary:
  assumes "fst it \<le> 8"
  shows "value_at (vmem (after_binary env m x)) (at_sp env (after_binary env m x) (-8)) it = to_type it x"
proof -
  have "at_sp env (after_binary env m x) (-8) = at_sp env m (-16)" by (simp add: after_binary_def at_sp_def)
  then show ?thesis
    using assms by (simp add: after_binary_def value_at_def read_write_low take_le_bytes decode_le_bytes)
qed

text \<open>
  Property C24. Constant folding agrees with execution. Let two integer constants be
  combined by an arithmetic or bitwise operator, and let an instruction of the
  virtual machine do the same operation, at the common type, on two slots that hold the
  converted operands. If the machine completes the instruction, the compiler folds the
  constants, without emitting code, to the constant of the common type whose value the
  machine leaves on its stack.
\<close>

theorem folding_agrees_with_machine:
  assumes "numeric_constant s l a" "numeric_constant s r b"
    and "usual_arithmetic_conversion (sy_types (p_symtab s)) (v_type l) (v_type r) = Inr t"
    and "machine_op op = Some (opcode code)" "int_type_of (optype code) = Some (ctype_int t)"
    and "mapped (vmem m) (at_sp env m (-16)) 16"
    and "value_at (vmem m) (at_sp env m (-16)) (ctype_int t) = conv t a"
    and "value_at (vmem m) (at_sp env m (-8)) (ctype_int t) = conv t b"
    and "vm_dispatch env prog code m = Inr m'"
  shows "\<exists>c. eval_expr fl def block op l (A_Var r) s = Inr (as_expr (var_numeric t c), s) \<and>
    represents c t (value_at (vmem m') (at_sp env m' (-8)) (ctype_int t))"
proof -
  obtain fop where fop: "fold_of op = Some fop" "binary_of (opcode code) = Some (fold_int fop)"
    using machine_op_fold [OF assms(4)] by blast
  obtain x where x: "fold_int fop (ctype_int t) (conv t a) (conv t b) = Inr x" "m' = after_binary env m x"
  proof -
    have "obind (fold_int fop (ctype_int t) (conv t a) (conv t b)) (\<lambda>r. Inr (after_binary env m r)) = Inr m'"
      using dispatch_binary_eq [OF fop(2) assms(5,6), of prog] assms(7-9) by simp
    then show thesis using that by (auto simp: obind_Inr_iff)
  qed
  obtain c where c: "eval_expr fl def block op l (A_Var r) s = Inr (as_expr (var_numeric t c), s)" "represents c t x"
    using fold_constants [OF assms(1,2) fop(1) assms(3) x(1), of fl def block] unfolding gives_constant_def by blast
  have n: "0 < fst (ctype_int t)" "fst (ctype_int t) \<le> 8" using int_type_pos [OF assms(5)] by auto
  have "to_type (ctype_int t) x = x" using c(2) n(1) by (intro to_type_id) (simp_all add: represents_def)
  then show ?thesis using c value_after_binary [OF n(2), of env m x] x(2) by auto
qed

text \<open>A parser state without blocks, definitions and types, and with the given symbols.\<close>

definition blank_namespace :: namespace where
  "blank_namespace = \<lparr>ns_symbol = [], ns_scope = [], ns_depth = 0, ns_cursor = 0\<rparr>"

definition blank_state :: "symbols \<Rightarrow> parser_state" where
  "blank_state h = \<lparr>p_symtab = \<lparr>sy_heap = h, sy_next = 0, sy_temporaries = [], sy_types = empty_types,
       ns_ident = blank_namespace, ns_label = blank_namespace, ns_tag = blank_namespace, string_types = [],
       decl_memcpy = None, sy_functions = None, global_offset = 0, n_add = 0, n_temporary = 0, n_unnamed = 0,
       n_label = 0, n_constant = 0, n_string = 0, n_table = 0, sy_errors = []\<rparr>,
     p_cfg = [], p_free = [], p_expressions = [], p_defs = [], p_prototypes = [], p_definitions = [], p_def = None\<rparr>"

lemma numeric_constant_int:
  "- (2 ^ 31) \<le> x \<Longrightarrow> x < 2 ^ 31 \<Longrightarrow> numeric_constant s (var_int x) x"
  by (simp add: numeric_constant_def var_int_def zero_var_def is_field_def represents_def imm_of_def ctype_int_def
      in_type_def int_min_def int_max_def tclass_simps scalar_size_def)

lemma common_int: "usual_arithmetic_conversion ts (v_type (var_int a)) (v_type (var_int b)) = Inr basic_type__int"
  by (simp add: usual_arithmetic_conversion_def var_int_def tclass_simps promote_integer_def scalar_size_def
      remove_qualifiers_def basic_type_def zero_type_def type_of_def size_of_def max_depth_def)

lemma ctype_int_int [simp]: "ctype_int basic_type__int = (4, True)"
  by (simp add: ctype_int_def scalar_size_def tclass_simps)

text \<open>The compiler folds -7 / 2 to the -3 that the machine computes.\<close>

theorem folding_agrees_with_machine_witness:
  "\<exists>c. eval_expr no_floats None None IR_OP_DIV (var_int (-7)) (A_Var (var_int 2)) (blank_state (\<lambda>r. zero_symbol)) =
       Inr (as_expr (var_numeric basic_type__int c), blank_state (\<lambda>r. zero_symbol)) \<and>
     represents c basic_type__int (-3)"
proof -
  let ?s = "blank_state (\<lambda>r. zero_symbol)" and ?c = "\<lparr>opcode = VM_DIV, optype = VMOP_INT32, vd = D_None\<rparr>"
  have cv: "conv basic_type__int (-7) = -7" "conv basic_type__int 2 = 2"
    by (simp_all add: conv_def is_bool_def to_type_def)
  have mp: "mapped (vmem demo_state) (at_sp demo_env demo_state (-16)) 16" using mapped_demo [of "0x10000" 16] by simp
  have bin: "binary_of (opcode ?c) = Some c_div" "int_type_of (optype ?c) = Some (4, True)" by (simp_all add: binary_of_def)
  have val: "value_at (vmem demo_state) (at_sp demo_env demo_state (-16)) (4, True) = -7"
    "value_at (vmem demo_state) (at_sp demo_env demo_state (-8)) (4, True) = 2"
    by (simp_all add: demo_values to_type_def)
  have step: "vm_dispatch demo_env [] ?c demo_state = Inr (after_binary demo_env demo_state (-3))"
    using dispatch_binary_eq [OF bin mp, of "[]"] val
    by (simp add: c_div_def c_result_def promote_def in_type_def int_min_def int_max_def)
  have "value_at (vmem (after_binary demo_env demo_state (-3))) (at_sp demo_env (after_binary demo_env demo_state (-3)) (-8)) (4, True) = -3"
    by (simp add: value_after_binary to_type_def)
  then show ?thesis
    using folding_agrees_with_machine [of ?s "var_int (-7)" "-7" "var_int 2" 2 basic_type__int IR_OP_DIV ?c demo_state demo_env "[]"
        "after_binary demo_env demo_state (-3)" no_floats None None]
      numeric_constant_int [of "-7" ?s] numeric_constant_int [of 2 ?s] common_int mp val step cv bin(2) by simp
qed

section \<open>Types of expressions\<close>

text \<open>The type that the standard prescribes for the result of an operator on arithmetic operands.\<close>

definition c11_result :: "optype \<Rightarrow> type_tag \<times> bool \<Rightarrow> type_tag \<times> bool \<Rightarrow> type_tag \<times> bool" where
  "c11_result op a b =
     (if op \<in> {IR_OP_EQ, IR_OP_NE, IR_OP_GE, IR_OP_GT} then (T_INT, False)
      else if op \<in> {IR_OP_SHL, IR_OP_SHR} then promoted a
      else c11_conversion a b)"

lemma type_equal_arith:
  assumes "type_equal ts a b = Inr True" "is_arithmetic a" "is_arithmetic b"
  shows "arith_type a = arith_type b"
proof -
  have "\<not> t_pointer a" "\<not> t_pointer b" using assms(2,3) by (auto simp: is_arithmetic_def type_between_def type_of_def)
  moreover have "t_type a = t_type b \<and> t_unsigned a = t_unsigned b"
    using assms(1) by (auto simp: type_equal_def split: if_splits)
  ultimately show ?thesis by (simp add: type_of_def is_unsigned_def is_bool_def)
qed

text \<open>Converted operands have the type they are converted to.\<close>

lemma yields_cast_type:
  assumes "is_arithmetic (v_type v)" "is_arithmetic t"
  shows "yields (cast fl v t) (\<lambda>e. arith_type (e_type e) = arith_type t \<and> is_arithmetic (e_type e) \<and>
    (\<forall>ts. is_identity ts e = Inr True \<longrightarrow> is_arithmetic (v_type (e_l e)) \<and> arith_type (v_type (e_l e)) = arith_type t))"
proof (unfold yields_def, intro allI impI)
  fix s e s'
  assume "cast fl v t s = Inr (e, s')"
  then show "arith_type (e_type e) = arith_type t \<and> is_arithmetic (e_type e) \<and>
    (\<forall>ts. is_identity ts e = Inr True \<longrightarrow> is_arithmetic (v_type (e_l e)) \<and> arith_type (v_type (e_l e)) = arith_type t)"
  proof (cases rule: cast_cases)
    case convert
    have "arith_type (v_type v) = arith_type t" if "type_equal ts t (v_type v) = Inr True" for ts
      using type_equal_arith [OF that assms(2,1)] by simp
    then show ?thesis using convert assms by (auto simp: is_identity_def)
  next
    case (same n m)
    then show ?thesis using type_equal_arith [OF same(5) assms] assms by (simp add: as_expr_def)
  qed (use assms in \<open>simp_all add: as_expr_def var_numeric_def arithmetic_scalar\<close>)
qed

lemma yields_eval_cast_type:
  assumes "is_arithmetic (v_type v)" "is_arithmetic t" "\<not> is_field v"
  shows "yields (eval_cast_with (eval_expr fl def block) def block v t) (\<lambda>x. is_arithmetic (v_type x) \<and> arith_type (v_type x) = arith_type t)"
proof -
  have rv: "rvalue_with rec fl def block v = eret v" for rec
    using assms(1,3) arithmetic_scalar [OF assms(1)] by (simp add: rvalue_with_def)
  have "eval_expr fl def block IR_OP_CAST v (A_Type t) = cast fl v t"
    by (subst eval_expr_unfold) (simp add: eval_expr_with_def rv is_binary_def etypes_def ebind_def fun_eq_iff)
  moreover have "yields (ebind (cast fl v t) (eval def block)) (\<lambda>x. is_arithmetic (v_type x) \<and> arith_type (v_type x) = arith_type t)"
  proof (rule yields_ebind_via [OF yields_cast_type [OF assms(1,2)]])
    fix e
    assume e: "arith_type (e_type e) = arith_type t \<and> is_arithmetic (e_type e) \<and>
      (\<forall>ts. is_identity ts e = Inr True \<longrightarrow> is_arithmetic (v_type (e_l e)) \<and> arith_type (v_type (e_l e)) = arith_type t)"
    have v: "\<not> is_void (e_type e)" using e by (simp add: arithmetic_scalar)
    show "yields (eval def block e) (\<lambda>x. is_arithmetic (v_type x) \<and> arith_type (v_type x) = arith_type t)"
      using e v by (intro yields_eval_rule) auto
  qed
  ultimately show ?thesis unfolding eval_cast_with_def by simp
qed

lemma yields_eval_casts_type:
  assumes "is_arithmetic (v_type l)" "\<not> is_field l" "is_arithmetic (v_type r)" "\<not> is_field r" "is_arithmetic t"
  shows "yields (eval_casts_with (eval_expr fl def block) def block l r t) (\<lambda>(x, y). is_arithmetic (v_type x) \<and> arith_type (v_type x) = arith_type t)"
  unfolding eval_casts_with_def
  by (rule yields_ebind_via [OF yields_eval_cast_type [OF assms(1,5,2)]],
      rule yields_ebind_via [OF yields_eval_cast_type [OF assms(3,5,4)]], rule yields_eret) simp

lemma folded_kind:
  "eval_integer_immediate ts op t l r = Inr v \<Longrightarrow> v_kind v = IMMEDIATE \<and> v_type v = t"
  "eval_arithmetic_immediate fl ts op t l r = Inr v \<Longrightarrow> v_kind v = IMMEDIATE"
  by (auto simp: eval_integer_immediate_def eval_arithmetic_immediate_def imm_signed_def imm_unsigned_def imm_float_def imm_double_def imm_long_double_def
      var_numeric_def outcome_simps Let_def split: if_splits option.splits)

lemma yields_cast_constant_type:
  "is_arithmetic t \<Longrightarrow> v_kind v = IMMEDIATE \<Longrightarrow> yields (cast fl v t) (\<lambda>e. e_type e = t)"
  unfolding yields_def by (auto elim!: cast_cases simp: as_expr_def var_numeric_def arithmetic_scalar)

lemma create_expr_type: "create_expr ts op l (A_Var r) = Inr e \<Longrightarrow> is_binary op \<Longrightarrow>
    e_type e = (if op \<in> {IR_OP_EQ, IR_OP_NE, IR_OP_GE, IR_OP_GT} then basic_type__int else v_type l)"
  by (cases op) (auto simp: create_expr_def is_binary_def outcome_simps)

text \<open>The last step of each operator has the common type, or \<open>int\<close>.\<close>

lemma yields_result_type:
  assumes "is_arithmetic t" "arith_type (v_type l) = arith_type t" "is_binary op" "op \<notin> {IR_OP_EQ, IR_OP_NE, IR_OP_GE, IR_OP_GT}"
  shows "yields (arithmetic_result fl fop op t l r) (\<lambda>e. arith_type (e_type e) = arith_type t)"
    "yields (integer_result fl fop op t l r) (\<lambda>e. arith_type (e_type e) = arith_type t)"
proof -
  have c: "yields (cast fl v t) (\<lambda>e. arith_type (e_type e) = arith_type t)" if "v_kind v = IMMEDIATE" for v
    using yields_cast_constant_type [OF assms(1) that, of fl] unfolding yields_def by blast
  have e: "yields (etypes (\<lambda>ts. create_expr ts op l (A_Var r))) (\<lambda>e. arith_type (e_type e) = arith_type t)"
    using assms(2-4) by (intro yields_etypes) (auto dest!: create_expr_type)
  show "yields (arithmetic_result fl fop op t l r) (\<lambda>e. arith_type (e_type e) = arith_type t)"
    unfolding arithmetic_result_def
    by (intro yields_if e yields_ebind_via [where Q = "\<lambda>v. v_kind v = IMMEDIATE"] c yields_etypes) (auto dest: folded_kind)
  show "yields (integer_result fl fop op t l r) (\<lambda>e. arith_type (e_type e) = arith_type t)"
    unfolding integer_result_def
    by (intro yields_if e yields_ebind_via [where Q = "\<lambda>v. v_kind v = IMMEDIATE"] c yields_etypes) (auto dest: folded_kind)
qed

lemma unsigned_int [simp]: "\<not> is_unsigned basic_type__int"
  by (simp add: is_unsigned_def is_bool_def)

lemma yields_compare_type:
  "op \<in> {IR_OP_EQ, IR_OP_NE, IR_OP_GE, IR_OP_GT} \<Longrightarrow> yields (compare_result fl cop op t l r) (\<lambda>e. arith_type (e_type e) = (T_INT, False))"
  unfolding compare_result_def
  by (intro yields_if yields_eret yields_etypes)
    (auto simp: as_expr_def eval_immediate_compare_def var_int_def is_binary_def dest!: create_expr_type)

lemma usual_conversion_arithmetic: "usual_arithmetic_conversion ts t1 t2 = Inr t \<Longrightarrow> is_arithmetic t"
  by (auto simp: usual_arithmetic_conversion_def promote_integer_def outcome_simps is_arithmetic_def type_between_def split: if_splits)

definition plain_arith :: "var \<Rightarrow> bool" where
  "plain_arith v \<longleftrightarrow> is_arithmetic (v_type v) \<and> \<not> is_field v"

lemma yields_common_type:
  assumes "plain_arith l" "plain_arith r"
  shows "yields (etypes (\<lambda>ts. usual_arithmetic_conversion ts (v_type l) (v_type r)))
    (\<lambda>t. is_arithmetic t \<and> arith_type t = c11_conversion (arith_type (v_type l)) (arith_type (v_type r)))"
proof (rule yields_etypes)
  fix ts t assume "usual_arithmetic_conversion ts (v_type l) (v_type r) = Inr t"
  then show "is_arithmetic t \<and> arith_type t = c11_conversion (arith_type (v_type l)) (arith_type (v_type r))"
    using usual_arithmetic_conversion_eq [of "v_type l" "v_type r" ts] usual_conversion_arithmetic assms by (auto simp: plain_arith_def)
qed

lemma yields_converted:
  assumes "plain_arith l" "plain_arith r" "is_arithmetic t" "\<And>x y. arith_type (v_type x) = arith_type t \<Longrightarrow> yields (f x y) P"
  shows "yields (ebind (eval_casts_with (eval_expr fl def block) def block l r t) (\<lambda>(x, y). f x y)) P"
  using assms by (intro yields_ebind_via [OF yields_eval_casts_type, of l r t] yields_prod) (auto simp: plain_arith_def)

lemma converted_type:
  assumes "plain_arith l" "plain_arith r"
    and "\<And>t x y. is_arithmetic t \<Longrightarrow> arith_type (v_type x) = arith_type t \<Longrightarrow>
      arith_type t = c11_conversion (arith_type (v_type l)) (arith_type (v_type r)) \<Longrightarrow> yields (f t x y) P"
  shows "yields (ebind (etypes (\<lambda>ts. usual_arithmetic_conversion ts (v_type l) (v_type r))) (\<lambda>t.
      ebind (eval_casts_with (eval_expr fl def block) def block l r t) (\<lambda>(x, y). f t x y))) P"
  by (rule yields_ebind_via [OF yields_common_type [OF assms(1,2)]], rule yields_converted [OF assms(1,2)])
    (blast, rule assms(3), simp_all)

lemma shifted_type:
  assumes "plain_arith l" "is_integer (v_type l)"
    and "\<And>t x. is_arithmetic t \<Longrightarrow> arith_type (v_type x) = arith_type t \<Longrightarrow>
      arith_type t = promoted (arith_type (v_type l)) \<Longrightarrow> yields (f t x) P"
  shows "yields (ebind (etypes (\<lambda>ts. promote_integer ts (v_type l))) (\<lambda>t.
      ebind (eval_cast_with (eval_expr fl def block) def block l t) (f t))) P"
proof (rule yields_ebind_via [where Q = "\<lambda>t. is_arithmetic t \<and> arith_type t = promoted (arith_type (v_type l))"])
  show "yields (etypes (\<lambda>ts. promote_integer ts (v_type l))) (\<lambda>t. is_arithmetic t \<and> arith_type t = promoted (arith_type (v_type l)))"
  proof (rule yields_etypes)
    fix ts t assume "promote_integer ts (v_type l) = Inr t"
    then show "is_arithmetic t \<and> arith_type t = promoted (arith_type (v_type l))"
      using promote_integer_promoted [OF assms(2), of ts] by auto
  qed
next
  fix t assume t: "is_arithmetic t \<and> arith_type t = promoted (arith_type (v_type l))"
  show "yields (ebind (eval_cast_with (eval_expr fl def block) def block l t) (f t)) P"
    using assms t by (intro yields_ebind_via [OF yields_eval_cast_type, of l t]) (auto simp: plain_arith_def)
qed

lemma yields_result_conversion:
  assumes "is_arithmetic t" "arith_type (v_type l) = arith_type t" "arith_type t = T"
    and "is_binary op" "op \<notin> {IR_OP_EQ, IR_OP_NE, IR_OP_GE, IR_OP_GT}"
  shows "yields (arithmetic_result fl fop op t l r) (\<lambda>e. arith_type (e_type e) = T)"
    "yields (integer_result fl fop op t l r) (\<lambda>e. arith_type (e_type e) = T)"
  using yields_result_type [OF assms(1,2,4,5)] unfolding assms(3) by blast+

lemma yields_and_type:
  assumes "is_arithmetic t" "arith_type (v_type l) = arith_type t" "arith_type t = T"
  shows "yields (if both_immediate l r then etypes (\<lambda>ts. obind (eval_integer_immediate ts Fold_And t l r) (\<lambda>v. Inr (as_expr v)))
    else etypes (\<lambda>ts. create_expr ts IR_OP_AND l (A_Var r))) (\<lambda>e. arith_type (e_type e) = T)"
  using assms
  by (intro yields_if yields_etypes)
    (auto simp: outcome_simps as_expr_def is_binary_def dest!: folded_kind(1) create_expr_type)

lemma operator_types:
  assumes "plain_arith l" "plain_arith r" "is_binary op"
  shows "yields (eval_expr fl def block op l (A_Var r))
    (\<lambda>e. arith_type (e_type e) = c11_result op (arith_type (v_type l)) (arith_type (v_type r)))"
proof -
  have rv: "rvalue_with rec fl def block v = eret v" if "plain_arith v" for rec v
    using that arithmetic_scalar [of "v_type v"] by (simp add: rvalue_with_def plain_arith_def)
  have ar: "is_arithmetic (v_type l)" "is_arithmetic (v_type r)" using assms(1,2) by (simp_all add: plain_arith_def)
  then have np: "\<not> (is_integer (v_type l) \<and> is_pointer (v_type r))" by (auto simp: tclass_simps)
  have arg: "ebind (etypes (\<lambda>_. arg_var (A_Var r))) (rvalue_with rec fl def block) = eret r" for rec
    using rv [OF assms(2), of rec] by (simp add: ebind_def etypes_def fun_eq_iff)
  let ?E = "eval_expr fl def block" and ?C = "c11_conversion (arith_type (v_type l)) (arith_type (v_type r))"
  have arith: "yields (mul_with ?E fl def block l r) (\<lambda>e. arith_type (e_type e) = ?C)"
    "yields (ediv_with ?E fl def block l r) (\<lambda>e. arith_type (e_type e) = ?C)"
    "yields (add_with ?E fl def block l r) (\<lambda>e. arith_type (e_type e) = ?C)"
    "yields (sub_with ?E fl def block l r) (\<lambda>e. arith_type (e_type e) = ?C)"
    unfolding mul_with_def ediv_with_def add_with_def add_ordered_with_def sub_with_def using ar np
    by (auto simp: is_binary_def intro!: converted_type [OF assms(1,2)] yields_result_conversion)
  have integer: "yields (mod_with ?E fl def block l r) (\<lambda>e. arith_type (e_type e) = ?C)"
    "yields (or_with ?E fl def block l r) (\<lambda>e. arith_type (e_type e) = ?C)"
    "yields (xor_with ?E fl def block l r) (\<lambda>e. arith_type (e_type e) = ?C)"
    "yields (and_with ?E fl def block l r) (\<lambda>e. arith_type (e_type e) = ?C)"
  proof -
    show "yields (mod_with ?E fl def block l r) (\<lambda>e. arith_type (e_type e) = ?C)"
      unfolding mod_with_def
      by (rule yields_ebind_via [OF yields_common_type [OF assms(1,2)]], intro yields_if yields_fail yields_converted [OF assms(1,2)]
          yields_result_conversion) (auto simp: is_binary_def)
  qed (unfold or_with_def xor_with_def and_with_def, intro yields_if yields_fail converted_type [OF assms(1,2)] yields_and_type yields_result_conversion;
      simp add: is_binary_def)+
  have shifts: "yields (shiftl_with ?E fl def block l r) (\<lambda>e. arith_type (e_type e) = promoted (arith_type (v_type l)))"
    "yields (shiftr_with ?E fl def block l r) (\<lambda>e. arith_type (e_type e) = promoted (arith_type (v_type l)))"
    unfolding shiftl_with_def shiftr_with_def
    by (intro yields_if yields_fail shifted_type [OF assms(1)] yields_result_conversion; simp add: is_binary_def)+
  have compare: "yields (cmp_eq_with ?E fl def block l r) (\<lambda>e. arith_type (e_type e) = (T_INT, False))"
    "yields (cmp_ne_with ?E fl def block l r) (\<lambda>e. arith_type (e_type e) = (T_INT, False))"
    "yields (cmp_ge_with ?E fl def block l r) (\<lambda>e. arith_type (e_type e) = (T_INT, False))"
    "yields (cmp_gt_with ?E fl def block l r) (\<lambda>e. arith_type (e_type e) = (T_INT, False))"
    unfolding cmp_eq_with_def cmp_ne_with_def cmp_ge_with_def cmp_gt_with_def
    by (intro yields_ebind yields_prod yields_compare_type; simp)+
  show ?thesis
    using assms(3) arith integer shifts compare
    by (subst eval_expr_unfold, unfold eval_expr_with_def rv [OF assms(1)] arg ebind_eret)
      (cases op; simp add: is_binary_def c11_result_def)
qed

text \<open>
  Property C25. Whenever a binary operator is evaluated on arithmetic operands that are
  no bit-fields, the resulting expression, folded or not, has the type that the
  standard prescribes: \<open>int\<close> for comparisons, the promoted type of the left operand
  for shifts, and the common type of both operands otherwise.
\<close>

theorem eval_expr_result_type:
  assumes "is_arithmetic (v_type l)" "\<not> is_field l" "is_arithmetic (v_type r)" "\<not> is_field r" "is_binary op"
    and "eval_expr fl def block op l (A_Var r) s = Inr (e, s')"
  shows "(type_of (e_type e), is_unsigned (e_type e)) =
    c11_result op (type_of (v_type l), is_unsigned (v_type l)) (type_of (v_type r), is_unsigned (v_type r))"
  using operator_types [of l r op fl def block] assms unfolding yields_def plain_arith_def by blast

theorem eval_expr_result_type_witness:
  "\<exists>e s'. eval_expr no_floats None None IR_OP_DIV (var_int (-7)) (A_Var (var_int 2)) (blank_state (\<lambda>r. zero_symbol)) = Inr (e, s') \<and>
     type_of (e_type e) = T_INT \<and> \<not> is_unsigned (e_type e)"
proof -
  let ?s = "blank_state (\<lambda>r. zero_symbol)"
  have "fold_int Fold_Div (ctype_int basic_type__int) (conv basic_type__int (-7)) (conv basic_type__int 2) = Inr (-3)"
    by (simp add: conv_def is_bool_def to_type_def c_div_def c_result_def promote_def in_type_def int_min_def int_max_def)
  then obtain e where e: "eval_expr no_floats None None IR_OP_DIV (var_int (-7)) (A_Var (var_int 2)) ?s = Inr (e, ?s)"
    using fold_constants [OF numeric_constant_int [of "-7" ?s] numeric_constant_int [of 2 ?s] _ common_int, of IR_OP_DIV Fold_Div "-3"
        no_floats None None]
    unfolding gives_constant_def by auto
  have h: "is_arithmetic (v_type (var_int n))" "\<not> is_field (var_int n)" "type_of (v_type (var_int n)) = T_INT"
    "\<not> is_unsigned (v_type (var_int n))" for n
    by (simp_all add: var_int_def zero_var_def is_field_def is_arithmetic_def type_between_def)
  show ?thesis
    using eval_expr_result_type [OF h(1,2) h(1,2) _ e] h e
    by (simp add: is_binary_def c11_result_def c11_conversion_def promoted_def)
qed

section \<open>Constants that are folded wrongly\<close>

text \<open>
  Since \<open>LONGLONG_MIN\<close> is a positive number, every floating point
  constant below \<open>2 ^ 63\<close> counts as smaller than the least \<open>long\<close>: its conversion to \<open>long\<close>
  gives that least value, whatever the constant is.
\<close>

lemma convert_float_to_long:
  assumes "float_kind_of_type t = Some k" "h_cmp fl k Lt (fval k v) (h_of_int fl k (2 ^ 63))"
  shows "\<exists>v'. convert fl v t basic_type__long = Inr v' \<and> val_i v' = - (2 ^ 63)"
proof -
  have "is_float_cmp fl Lt v t LONGLONG_MIN" using assms by (simp add: is_float_cmp_def LONGLONG_MIN_def)
  then have "convert fl v t basic_type__long = Inr (set_i LONGLONG_MIN v)"
    by (simp add: convert_def convert_clamped_def is_signed_def is_unsigned_def is_bool_def is_integer_def type_between_def)
  moreover have "(word_of_int LONGLONG_MIN :: u64) = word_of_int (- (2 ^ 63))" by (simp add: LONGLONG_MIN_def)
  moreover have "sint (word_of_int (- (2 ^ 63)) :: u64) = - (2 ^ 63)" by (rule sint_in_long) simp_all
  ultimately show ?thesis by (auto simp: val_i_def set_i_def)
qed

text \<open>A host whose floating point numbers are whole, with the number as its pattern; the constant 1 becomes the least \<open>long\<close>.\<close>

definition whole_floats :: host_floats where
  "whole_floats = \<lparr>h_arith = \<lambda>k op a b. 0, h_neg = \<lambda>k a. - a, h_cmp = \<lambda>k op a b. cmp_int op a b, h_of_int = \<lambda>k n. n,
     h_trunc = \<lambda>k a. Some a, h_conv = \<lambda>k l a. a\<rparr>"

text \<open>A string literal that has become a pointer: an immediate operand whose value is in its symbol.\<close>

definition string_pointer :: "parser_state \<Rightarrow> var \<Rightarrow> bool" where
  "string_pointer s v \<longleftrightarrow> v_kind v = IMMEDIATE \<and> is_pointer (v_type v) \<and> \<not> is_field v \<and> val_u (v_imm v) = 0 \<and>
     (\<exists>r. v_symbol v = Some r \<and> s_symtype (sy_heap (p_symtab s) r) = SYM_STRING_VALUE)"

lemma pointer_class: "is_pointer t \<Longrightarrow> is_scalar t \<and> \<not> is_arithmetic t \<and> \<not> is_function t \<and> \<not> is_array t \<and> \<not> is_integer t"
  by (auto simp: tclass_simps type_of_def split: if_splits)

lemma string_pointer_rvalue: "string_pointer s v \<Longrightarrow> rvalue_with rec fl def block v = eret v"
  using pointer_class [of "v_type v"] by (simp add: rvalue_with_def string_pointer_def)

lemma string_pointer_cast:
  assumes "string_pointer s v"
  shows "eval_cast_with (eval_expr fl def block) def block v basic_type__unsigned_long s = Inr (v\<lparr>v_type := basic_type__unsigned_long\<rparr>, s)"
proof -
  have "is_string v s = Inr (True, s)" using assms by (auto simp: string_pointer_def is_string_def ev_simps)
  then have "cast fl v basic_type__unsigned_long s = Inr (as_expr (v\<lparr>v_type := basic_type__unsigned_long\<rparr>), s)"
    using assms pointer_class [of "v_type v"]
    by (simp add: cast_def string_pointer_def ev_simps as_expr_def is_void_def is_scalar_def type_between_def)
  moreover have "eval_expr fl def block IR_OP_CAST v (A_Type t) = cast fl v t" for t
    by (subst eval_expr_unfold)
      (simp add: eval_expr_with_def string_pointer_rvalue [OF assms] is_binary_def etypes_def ebind_def fun_eq_iff)
  ultimately show ?thesis by (simp add: eval_cast_with_def ebind_def)
qed

text \<open>
  A comparison of a string literal with zero is folded as if the address
  of the literal were zero: \<open>==\<close> gives 1 and \<open>!=\<close> gives 0.
\<close>

lemma string_literal_equals_null:
  assumes "string_pointer s l"
  shows "eval_expr fl def block IR_OP_EQ l (A_Var (var_int 0)) s = Inr (as_expr (var_int 1), s) \<and>
    eval_expr fl def block IR_OP_NE l (A_Var (var_int 0)) s = Inr (as_expr (var_int 0), s)"
proof -
  have lt: "is_pointer (v_type l)" "v_kind l = IMMEDIATE" "val_u (v_imm l) = 0" using assms by (simp_all add: string_pointer_def)
  have z: "numeric_constant s (var_int 0) 0" by (rule numeric_constant_int) simp_all
  have zt: "v_type (var_int 0) = basic_type__int" "\<not> is_pointer (v_type (var_int 0))"
    by (simp_all add: var_int_def is_pointer_def)
  have ul: "is_integer basic_type__unsigned_long" by (simp add: is_integer_def type_between_def)
  let ?l = "l\<lparr>v_type := basic_type__unsigned_long\<rparr>"
    and ?r = "var_numeric basic_type__unsigned_long (set_i (conv basic_type__unsigned_long 0) (v_imm (var_int 0)))"
  have "is_nullptr fl (var_int 0) s = Inr (True, s)"
    by (simp add: is_nullptr_def is_immediate_false_def as_expr_def is_identity_def is_zero_value_def ev_simps var_int_def
        imm_of_def is_integer_def is_scalar_def type_between_def float_kind_of_type_def is_float_def is_double_def is_long_double_def)
  then have "prepare_comparison_operands_with (eval_expr fl def block) fl def block l (var_int 0) s = Inr ((?l, ?r), s)"
    using lt zt pointer_class [OF lt(1)] string_pointer_cast [OF assms, of fl def block] eval_cast_constant [OF z ul, of fl def block]
    by (simp add: prepare_comparison_operands_with_def prepare_ordered_with_def query_comparison_def eval_casts_with_def
        ebind_def eret_def)
  moreover have "is_unsigned basic_type__unsigned_long" "\<not> is_signed basic_type__unsigned_long"
    by (simp_all add: is_unsigned_def is_signed_def)
  moreover have "val_u (v_imm ?r) = 0"
    by (simp add: var_numeric_def set_i_def conv_def is_bool_def to_type_def)
  moreover have "rvalue_with rec fl def block (var_int 0) s = Inr (var_int 0, s)" for rec by (rule numeric_constantD(2) [OF z])
  ultimately show ?thesis
    using lt string_pointer_rvalue [OF assms]
    by (subst (1 2) eval_expr_unfold)
      (simp add: eval_expr_with_def is_binary_def cmp_eq_with_def cmp_ne_with_def compare_result_def both_immediate_def
        eval_immediate_compare_def ebind_def etypes_def eret_def bool_int_def)
qed

text \<open>The literal of the first symbol, as in \<open>"" == 0\<close>.\<close>

definition ex_literal :: var where
  "ex_literal = zero_var\<lparr>v_kind := IMMEDIATE, v_type := basic_type__char\<lparr>t_pointer := True\<rparr>, v_symbol := Some 0\<rparr>"

text \<open>
  Adding to a pointer that is read from a constant address changes the address it is
  read from: the sum of \<open>*(char **) 4096\<close> and 1 is \<open>*(char **) 4097\<close>.
\<close>

lemma constant_address_shifted:
  assumes "v_kind l = DEREF" "v_symbol l = None" "is_pointer (v_type l)" "\<not> is_field l"
    and "type_deref (sy_types (p_symtab s)) (v_type l) = Inr ty" "size_of (sy_types (p_symtab s)) ty = Inr sz" "sz \<noteq> 0"
    and "is_vla (sy_types (p_symtab s)) ty = Inr False"
  shows "\<exists>e. eval_expr fl def block IR_OP_ADD l (A_Var (var_int 1)) s = Inr (e, s) \<and> e_op e = IR_OP_CAST \<and>
    v_kind (e_l e) = DEREF \<and> val_u (v_imm (e_l e)) = val_u (v_imm l) + word_of_int (int sz)"
proof -
  have z: "numeric_constant s (var_int 1) 1" by (rule numeric_constant_int) simp_all
  have zt: "v_type (var_int 1) = basic_type__int" by (simp add: var_int_def)
  have il: "is_integer basic_type__long" "is_integer basic_type__int" by (simp_all add: is_integer_def type_between_def)
  note pc = pointer_class [OF assms(3)]
  have rl: "rvalue_with rec fl def block l = eret l" for rec using pc assms(4) by (simp add: rvalue_with_def)
  have rr: "rvalue_with rec fl def block (var_int 1) s = Inr (var_int 1, s)" for rec by (rule numeric_constantD(2) [OF z])
  let ?r = "var_numeric basic_type__long (set_i (conv basic_type__long 1) (v_imm (var_int 1)))"
  have r1: "val_i (v_imm ?r) = 1" "v_kind ?r = IMMEDIATE"
    by (simp_all add: var_numeric_def set_i_def conv_def is_bool_def to_type_def val_i_def ctype_int_def scalar_size_def)
  have "add_with (eval_expr fl def block) fl def block l (var_int 1) s = Inr (as_expr (add_imm (int sz) l), s)"
    using assms pc zt il r1 eval_cast_constant [OF z il(1), of fl def block]
    by (simp add: add_with_def add_ordered_with_def add_pointer_with_def is_string_def is_constant_def ebind_def etypes_def eret_def)
  then have "eval_expr fl def block IR_OP_ADD l (A_Var (var_int 1)) s = Inr (as_expr (add_imm (int sz) l), s)"
    by (subst eval_expr_unfold) (simp add: eval_expr_with_def rl rr is_binary_def etypes_def ebind_def)
  then show ?thesis using assms(1) by (simp add: as_expr_def add_imm_def)
qed

text \<open>The conversion of an \<open>int\<close> variable to \<open>int *\<close> leaves it an \<open>int\<close>: the two types count as equal.\<close>

lemma cast_int_to_int_pointer:
  assumes "v_kind v \<noteq> IMMEDIATE" "v_type v = basic_type__int"
  shows "cast fl v (basic_type__int\<lparr>t_pointer := True\<rparr>) s = Inr (as_expr v, s)"
proof -
  let ?p = "basic_type__int\<lparr>t_pointer := True\<rparr>"
  have p: "type_of ?p = T_POINTER" by (simp add: type_of_def)
  have "type_equal ts basic_type__int ?p = Inr True" for ts
    by (simp add: type_equal_def basic_type_def zero_type_def)
  moreover have "size_of ts basic_type__int = Inr 4" "size_of ts ?p = Inr 8" for ts
    using p by (simp_all add: tclass_simps scalar_size_def)
  moreover have "is_scalar ?p" "\<not> is_void ?p" "is_scalar basic_type__int" using p by (simp_all add: is_scalar_def is_void_def type_between_def)
  ultimately show ?thesis using assms by (simp add: cast_def ev_simps as_expr_def)
qed

end
