(* ===== verification/Eval_Frame.thy ===== *)
theory Eval_Frame
  imports Eval_Stmt Typetree_Correct
begin

text \<open>
  What the evaluation of expressions may change. A relation between states that is
  kept by its three primitive effects, creating a temporary, emitting a statement and
  creating a pointer type, is kept by every operator; this is the locale \<open>eval_frame\<close>.
  Its interpretation says that evaluation appends statements to its own block and temporaries to its own
  definition, and changes nothing else but symbols and types; a second one that
  type trees are only added.
\<close>

section \<open>Relations that operations keep\<close>

definition keeps :: "(parser_state \<Rightarrow> parser_state \<Rightarrow> bool) \<Rightarrow> 'a ev \<Rightarrow> bool" where
  "keeps R m \<longleftrightarrow> (\<forall>s x s'. m s = Inr (x, s') \<longrightarrow> R s s')"

lemma keepsD: "keeps R m \<Longrightarrow> m s = Inr (x, s') \<Longrightarrow> R s s'"
  by (auto simp: keeps_def)

locale state_preorder =
  fixes R :: "parser_state \<Rightarrow> parser_state \<Rightarrow> bool"
  assumes refl: "R s s" and trans: "R s t \<Longrightarrow> R t u \<Longrightarrow> R s u"
begin

lemma keeps_eret: "keeps R (eret x)"
  by (auto simp: keeps_def eret_def refl)

lemma keeps_efail: "keeps R (efail e)"
  by (auto simp: keeps_def efail_def)

lemma keeps_eerror: "keeps R (eerror e)"
  by (simp add: eerror_def keeps_efail)

lemma keeps_eassert: "keeps R (eassert b)"
  by (simp add: eassert_def keeps_eret keeps_efail)

lemma keeps_etypes: "keeps R (etypes f)"
  by (auto simp: keeps_def etypes_def outcome_simps refl)

lemma keeps_get_symbol: "keeps R (get_symbol r)"
  by (auto simp: keeps_def get_symbol_def refl split: option.splits)

lemma keeps_read_block: "keeps R (read_block b)"
  by (auto simp: keeps_def read_block_def outcome_simps refl split: option.splits)

lemma keeps_read_def: "keeps R (read_def d)"
  by (auto simp: keeps_def read_def_def refl split: option.splits if_splits)

lemma keeps_ebind: "keeps R m \<Longrightarrow> (\<And>x. keeps R (f x)) \<Longrightarrow> keeps R (ebind m f)"
  unfolding keeps_def ebind_Inr by (blast intro: trans)

lemma keeps_if: "(b \<Longrightarrow> keeps R m) \<Longrightarrow> (\<not> b \<Longrightarrow> keeps R n) \<Longrightarrow> keeps R (if b then m else n)"
  by simp

lemma keeps_prod: "(\<And>a b. keeps R (f a b)) \<Longrightarrow> keeps R (case p of (a, b) \<Rightarrow> f a b)"
  by (cases p) simp

lemma keeps_let: "keeps R (f x) \<Longrightarrow> keeps R (let y = x in f y)"
  by simp

lemmas keeps_basic = keeps_eret keeps_efail keeps_eerror keeps_eassert keeps_etypes keeps_get_symbol
  keeps_read_block keeps_read_def
lemmas keeps_intros = keeps_basic keeps_ebind keeps_if keeps_prod keeps_let

end

section \<open>Evaluation\<close>

locale eval_frame = state_preorder +
  fixes def :: "defref option" and block :: "blockref option"
  assumes temporary: "keeps R (create_var def type)"
    and emit: "keeps R (emit_ir block st t e)"
    and pointer: "keeps R (mtypes (\<lambda>ts. type_create_pointer ts ty))"
begin

lemma keeps_var_direct: "keeps R (var_direct r)"
  unfolding var_direct_def by (intro keeps_intros) (auto split: symtype.split intro: keeps_intros)

lemma keeps_is_string: "keeps R (is_string v)"
  unfolding is_string_def by (intro keeps_intros)

lemma keeps_eval: "keeps R (eval def block e)"
  unfolding eval_def by (intro keeps_intros temporary emit)

lemma keeps_cast: "keeps R (cast fl v t)"
  unfolding cast_def by (intro keeps_intros keeps_is_string)

lemma keeps_results:
  "keeps R (arithmetic_result fl fop op type l r)" "keeps R (integer_result fl fop op type l r)"
  "keeps R (compare_result fl cop op type l r)"
  unfolding arithmetic_result_def integer_result_def compare_result_def by (intro keeps_intros keeps_cast)+

lemma keeps_queries: "keeps R (is_immediate_false fl e)" "keeps R (is_immediate_true fl e)" "keeps R (is_nullptr fl v)"
    "keeps R (query_comparison fl l r)"
  unfolding query_comparison_def is_nullptr_def is_immediate_false_def is_immediate_true_def by (intro keeps_intros)+

lemma keeps_addresses: "keeps R (vla_address r)" "keeps R (string_to_pointer v)" "keeps R (addr_immediate v)"
proof -
  show "keeps R (vla_address r)"
    unfolding vla_address_def
    by (intro keeps_intros) (auto split: sym_value.split intro: keeps_intros keeps_var_direct)
  show s: "keeps R (string_to_pointer v)" unfolding string_to_pointer_def by (intro keeps_intros pointer)
  show "keeps R (addr_immediate v)" unfolding addr_immediate_def by (intro keeps_intros keeps_is_string s)
qed

lemma keeps_vla_fuel:
  assumes "\<And>op l a. keeps R (rec op l a)"
  shows "keeps R (eval_vla_size_fuel n rec def block type)"
  by (induction n arbitrary: type)
    (auto simp del: split_paired_All intro!: keeps_intros keeps_eval keeps_var_direct assms)

lemma keeps_with:
  assumes rec: "\<And>op l a. keeps R (rec op l a)"
  shows "keeps R (eval_expr_with rec fl def block op l a)"
proof -
  have c: "keeps R (eval_cast_with rec def block v t)" for v t
    unfolding eval_cast_with_def by (intro keeps_intros rec keeps_eval)
  have cs: "keeps R (eval_casts_with rec def block v w t)" for v w t
    unfolding eval_casts_with_def by (intro keeps_intros c)
  have "keeps R (eval_vla_size_fuel n rec def block t)" for n t
    by (rule keeps_vla_fuel, rule rec)
  then have vs: "keeps R (eval_vla_size_with rec def block t)" for t
    unfolding keeps_def eval_vla_size_with_def by blast
  note k = keeps_intros keeps_results keeps_queries keeps_addresses keeps_cast keeps_eval keeps_is_string keeps_var_direct
    rec c cs vs pointer
  have ap: "keeps R (add_pointer_with rec fl def block v w n)" for v w n
    unfolding add_pointer_with_def by (intro k)
  have vp: "keeps R (vla_pointer_with rec def block op v w t)" for op v w t
    unfolding vla_pointer_with_def by (intro k)
  have sp: "keeps R (sub_pointer_with rec fl def block v w n)" for v w n
    unfolding sub_pointer_with_def by (intro k)
  have sps: "keeps R (sub_pointers_with rec def block v w)" for v w
    unfolding sub_pointers_with_def by (intro k)
  have sub: "keeps R (sub_with rec fl def block v w)" for v w
    unfolding sub_with_def by (intro k sp sps vp)
  have ad: "keeps R (addr_deref_with rec def block v)" for v
    unfolding addr_deref_with_def by (intro k)
  have ea: "keeps R (eval_addr_with rec def block v)" for v
    unfolding eval_addr_with_def by (intro k) (auto split: var_kind.split intro!: k ad)
  have rv: "keeps R (rvalue_with rec fl def block v)" for v
    unfolding rvalue_with_def by (intro k ea)
  have po: "keeps R (prepare_ordered_with rec fl def block v w)" for v w
    unfolding prepare_ordered_with_def by (intro k)
  have pc: "keeps R (prepare_comparison_operands_with rec fl def block v w)" for v w
    unfolding prepare_comparison_operands_with_def by (intro k po)
  have binary: "keeps R (mul_with rec fl def block v w)" "keeps R (ediv_with rec fl def block v w)"
    "keeps R (mod_with rec fl def block v w)" "keeps R (add_with rec fl def block v w)"
    "keeps R (cmp_eq_with rec fl def block v w)" "keeps R (cmp_ne_with rec fl def block v w)"
    "keeps R (cmp_ge_with rec fl def block v w)" "keeps R (cmp_gt_with rec fl def block v w)"
    "keeps R (or_with rec fl def block v w)" "keeps R (xor_with rec fl def block v w)"
    "keeps R (and_with rec fl def block v w)" "keeps R (shiftl_with rec fl def block v w)"
    "keeps R (shiftr_with rec fl def block v w)" for v w
    unfolding mul_with_def ediv_with_def mod_with_def add_with_def add_ordered_with_def cmp_eq_with_def cmp_ne_with_def cmp_ge_with_def
      cmp_gt_with_def or_with_def xor_with_def and_with_def shiftl_with_def shiftr_with_def
    by (intro k ap vp pc)+
  have unary: "keeps R (not_with rec fl def block v)" "keeps R (neg_with rec fl def block v)" "keeps R (call v)"
    "keeps R (eval_va_arg v t)" for v t
    unfolding not_with_def neg_with_def call_def eval_va_arg_def by (intro k sub)+
  show ?thesis
    unfolding eval_expr_with_def
    by (intro k rv) (auto split: optype.split intro!: k binary unary sub)
qed

lemma keeps_level: "keeps R (eval_expr_level n fl def block op l a)"
  by (induction n arbitrary: op l a) (auto intro: keeps_efail keeps_with)

lemma keeps_eval_expr: "keeps R (eval_expr fl def block op l a)"
  by (simp add: eval_expr_def keeps_level)

end

section \<open>Assignment and the other operations\<close>

locale stmt_frame = eval_frame +
  assumes array_length: "keeps R (mtypes (\<lambda>ts. obind (set_array_length ts ty n) (\<lambda>ts'. Inr (ts', ()))))"
begin

lemma keeps_operands: "keeps R (eval_cast fl def block v t)" "keeps R (eval_addr fl def block v)" "keeps R (rvalue fl def block v)"
proof -
  note k = keeps_intros keeps_results keeps_queries keeps_addresses keeps_cast keeps_eval keeps_is_string keeps_var_direct
    keeps_eval_expr pointer
  show c: "keeps R (eval_cast fl def block v t)" for v t
    unfolding eval_cast_def eval_cast_with_def by (intro k)
  have ad: "keeps R (addr_deref_with (eval_expr fl def block) def block v)" for v
    unfolding addr_deref_with_def by (intro k c [unfolded eval_cast_def])
  show ea: "keeps R (eval_addr fl def block v)" for v
    unfolding eval_addr_def eval_addr_with_def by (intro k) (auto split: var_kind.split intro!: k ad)
  show "keeps R (rvalue fl def block v)"
    unfolding rvalue_def rvalue_with_def by (intro k ea [unfolded eval_addr_def])
qed

lemma keeps_assigned: "keeps R (assigned target e)"
  unfolding assigned_def by (intro keeps_intros)

lemma keeps_string: "keeps R (eval_assign_string_literal block target e)"
  unfolding eval_assign_string_literal_def by (intro keeps_intros emit array_length)

lemma keeps_field: "keeps R (assign_field fl def block target e)"
  unfolding assign_field_def by (intro keeps_intros emit keeps_eval keeps_eval_expr keeps_assigned)

lemma keeps_pointer: "keeps R (eval_assign_pointer fl def block target e)"
  unfolding eval_assign_pointer_def by (intro keeps_intros emit keeps_assigned)

lemma keeps_value: "keeps R (assign_value fl def block target e)"
  unfolding assign_value_def
  by (intro keeps_intros emit keeps_eval keeps_eval_expr keeps_assigned keeps_field keeps_operands)

lemma keeps_assign: "keeps R (eval_assign fl def block target e)"
  unfolding eval_assign_def eval_bool_def
  by (intro keeps_intros keeps_string keeps_pointer keeps_value keeps_operands keeps_eval keeps_eval_expr)

lemma keeps_copy: "keeps R (eval_copy fl def block v)"
  unfolding eval_copy_def by (intro keeps_intros keeps_operands temporary keeps_assign)

lemma keeps_param: "keeps R (eval_param fl def block e)"
  unfolding eval_param_def by (intro keeps_intros keeps_operands keeps_eval temporary keeps_assign)

lemma keeps_deref: "keeps R (eval_deref fl def block v)"
  unfolding eval_deref_def copy_pointer_def
  by (intro keeps_intros keeps_operands)
    (auto split: var_kind.split intro!: keeps_intros temporary keeps_assign keeps_is_string)

end

section \<open>Only the own block and definition grow\<close>

definition own_block :: "blockref option \<Rightarrow> cfg \<Rightarrow> cfg \<Rightarrow> bool" where
  "own_block block g g' \<longleftrightarrow> length g' = length g \<and>
     (\<forall>i < length g. if block = Some i then \<exists>code. g' ! i = (g ! i)\<lparr>b_code := b_code (g ! i) @ code\<rparr> else g' ! i = g ! i)"

definition own_locals :: "defref option \<Rightarrow> cfg_definition list \<Rightarrow> cfg_definition list \<Rightarrow> bool" where
  "own_locals def ds ds' \<longleftrightarrow> length ds' = length ds \<and>
     (\<forall>i < length ds. if def = Some i then \<exists>vs. ds' ! i = (ds ! i)\<lparr>d_locals := d_locals (ds ! i) @ vs\<rparr> else ds' ! i = ds ! i)"

definition only_appends :: "defref option \<Rightarrow> blockref option \<Rightarrow> parser_state \<Rightarrow> parser_state \<Rightarrow> bool" where
  "only_appends def block s s' \<longleftrightarrow> own_block block (p_cfg s) (p_cfg s') \<and> own_locals def (p_defs s) (p_defs s') \<and>
     p_free s' = p_free s \<and> p_expressions s' = p_expressions s \<and> p_prototypes s' = p_prototypes s \<and>
     p_definitions s' = p_definitions s \<and> p_def s' = p_def s"

lemma own_block_refl [simp]: "own_block b g g"
  by (auto simp: own_block_def intro: exI [of _ "[]"])

lemma own_locals_refl [simp]: "own_locals d ds ds"
  by (auto simp: own_locals_def intro: exI [of _ "[]"])

lemma own_block_trans: "own_block b g h \<Longrightarrow> own_block b h k \<Longrightarrow> own_block b g k"
  unfolding own_block_def by (force split: if_splits)

lemma own_locals_trans: "own_locals d g h \<Longrightarrow> own_locals d h k \<Longrightarrow> own_locals d g k"
  unfolding own_locals_def by (force split: if_splits)

lemma emit_appends: "keeps (only_appends def block) (emit_ir block st t e)"
  unfolding keeps_def emit_ir_def eret_def update_block_def
  by (auto simp: only_appends_def own_block_def get_block_Inr outcome_simps nth_list_update split: if_splits option.splits)

lemma update_def_locals: "keeps (only_appends def block) (update_def def (\<lambda>d. d\<lparr>d_locals := d_locals d @ vs\<rparr>))"
  unfolding keeps_def update_def_def
  by (auto simp: only_appends_def own_locals_def nth_list_update split: if_splits option.splits)

interpretation appends: state_preorder "only_appends def block" for def block
  by unfold_locales (auto simp: only_appends_def intro: own_block_trans own_locals_trans)

lemma msymtab_appends: "keeps (only_appends def block) (msymtab f)"
  by (auto simp: keeps_def msymtab_def only_appends_def split: prod.splits)

lemma mtypes_appends: "keeps (only_appends def block) (mtypes f)"
  by (auto simp: keeps_def mtypes_def only_appends_def outcome_simps split: prod.splits)

lemma var_direct_appends: "keeps (only_appends def block) (var_direct r)"
  unfolding var_direct_def by (intro appends.keeps_intros) (auto split: symtype.split intro: appends.keeps_intros)

interpretation appends: stmt_frame "only_appends def block" def block for def block
proof unfold_locales
  show "keeps (only_appends def block) (create_var def type)" for type
    unfolding create_var_def by (intro appends.keeps_intros msymtab_appends var_direct_appends update_def_locals)
qed (rule emit_appends mtypes_appends)+

text \<open>
  Property C27. Evaluating an operator, an assignment, a dereference, a copy or a
  parameter appends statements to its own block and temporaries to its own
  definition, and leaves all other blocks and definitions, and every other field of
  these two, as they are. Without a block, as in the operand of \<open>sizeof\<close>, no block
  changes at all.
\<close>

theorem evaluation_only_appends:
  "keeps (only_appends def block) (eval_expr fl def block op l a) \<and>
   keeps (only_appends def block) (eval_assign fl def block target e) \<and>
   keeps (only_appends def block) (eval_deref fl def block v) \<and>
   keeps (only_appends def block) (eval_addr fl def block v) \<and>
   keeps (only_appends def block) (eval_copy fl def block v) \<and>
   keeps (only_appends def block) (eval_param fl def block e)"
  by (intro conjI appends.keeps_eval_expr appends.keeps_assign appends.keeps_deref appends.keeps_operands
      appends.keeps_copy appends.keeps_param)

section \<open>Type trees are only added\<close>

text \<open>As long as their number fits the 16-bit reference in a type.\<close>

definition trees_grow :: "parser_state \<Rightarrow> parser_state \<Rightarrow> bool" where
  "trees_grow s s' \<longleftrightarrow>
     (let ts = trees (sy_types (p_symtab s)); ts' = trees (sy_types (p_symtab s')) in
      length ts \<le> length ts' \<and> (length ts' \<le> 32767 \<longrightarrow> take (length ts) ts' = ts))"

lemma trees_grow_refl [simp]: "trees_grow s s"
  by (simp add: trees_grow_def)

lemma trees_grow_same: "sy_types (p_symtab s') = sy_types (p_symtab s) \<Longrightarrow> trees_grow s s'"
  by (simp add: trees_grow_def)

lemma trees_grow_trans:
  assumes "trees_grow s t" "trees_grow t u"
  shows "trees_grow s u"
proof -
  let ?l = "\<lambda>s. trees (sy_types (p_symtab s))"
  have "take (length (?l s)) (?l u) = ?l s" if "length (?l u) \<le> 32767"
  proof -
    have "take (length (?l t)) (?l u) = ?l t" "length (?l s) \<le> length (?l t)" "length (?l t) \<le> length (?l u)"
      using assms that by (simp_all add: trees_grow_def Let_def)
    moreover have "take (length (?l s)) (?l t) = ?l s"
      using assms(1) calculation(3) that by (simp add: trees_grow_def Let_def)
    ultimately show ?thesis by (metis min.absorb1 take_take)
  qed
  then show ?thesis using assms by (auto simp: trees_grow_def Let_def)
qed

lemma type_create_pointer_grows:
  assumes "type_create_pointer st ty = Inr (st', p)"
  shows "length (trees st) \<le> length (trees st') \<and>
    (length (trees st') \<le> 32767 \<longrightarrow> take (length (trees st)) (trees st') = trees st)"
  using assms by (auto simp: type_create_pointer_def type_create_def Let_def set_tree_def outcome_simps split: if_splits)

interpretation grow: eval_frame trees_grow def block for def block
proof (unfold_locales)
  show "keeps trees_grow (emit_ir block st t e)" for st t e
    unfolding keeps_def emit_ir_def eret_def update_block_def
    by (auto simp: outcome_simps intro!: trees_grow_same split: if_splits option.splits)
  show "keeps trees_grow (mtypes (\<lambda>ts. type_create_pointer ts ty))" for ty
    unfolding keeps_def mtypes_def using type_create_pointer_grows
    by (auto simp: outcome_simps trees_grow_def Let_def)
  show "keeps trees_grow (create_var def type)" for type
    unfolding keeps_def create_var_def ebind_Inr
    by (auto simp: var_direct_def msymtab_def sym_create_temporary_def alloc_sym_def update_symbol_def update_def_def
        eret_def get_symbol_def eassert_def efail_def ebind_def Let_def etypes_def outcome_simps
        intro!: trees_grow_same split: if_splits option.splits symtype.splits prod.splits)
qed (auto intro: trees_grow_trans)

text \<open>So the size of a type does not change while an operator is evaluated.\<close>

lemma eval_expr_keeps_sizes:
  assumes "eval_expr fl def block op l a s = Inr (e, s')"
    and "length (trees (sy_types (p_symtab s'))) \<le> 32767" "size_of (sy_types (p_symtab s)) ty = Inr n"
  shows "size_of (sy_types (p_symtab s')) ty = Inr n"
proof -
  have "trees_grow s s'" using keepsD [OF grow.keeps_eval_expr assms(1)] .
  then have "extends (sy_types (p_symtab s)) (sy_types (p_symtab s'))"
    using assms(2) unfolding trees_grow_def extends_def Let_def by (metis append_take_drop_id)
  then show ?thesis using size_of_extends assms(3) by blast
qed

end
