(* ===== verification/Assign_Correct.thy ===== *)
theory Assign_Correct
  imports Eval_Correct Eval_Frame
begin

unbundle bit_operations_syntax

text \<open>
  Assignments: the constants that are stored in bit-fields, the conversion of assigned
  constants, and the blocks of the logical operators.
\<close>

section \<open>Bit-fields\<close>

lemma sint_and_mask: "n < 63 \<Longrightarrow> sint (x AND mask n :: u64) = take_bit n (sint x)"
  by (rule bit_eqI) (auto simp: bit_simps min_def)

lemma last_index: "n - Suc 0 \<le> k \<Longrightarrow> k < n \<Longrightarrow> k = n - Suc 0"
  by linarith

lemma sint_or_not_mask:
  "0 < n \<Longrightarrow> n < 63 \<Longrightarrow> bit x (n - 1) \<Longrightarrow> sint ((x AND mask n) OR NOT (mask n) :: u64) = signed_take_bit (n - 1) (sint x)"
  by (rule bit_eqI) (auto simp: bit_simps min_def dest: last_index)

lemma signed_take_bit_positive:
  "0 < n \<Longrightarrow> n < 63 \<Longrightarrow> \<not> bit x (n - 1) \<Longrightarrow> sint (x AND mask n :: u64) = signed_take_bit (n - 1) (sint x)"
  by (rule bit_eqI) (auto simp: bit_simps min_def dest: last_index)

lemma word_mask: "(2 ^ n - 1 :: u64) = mask n"
  by (simp add: mask_eq_exp_minus_1)

lemma bit_word_mask: "bit (2 ^ n - 1 :: u64) k \<longleftrightarrow> k < 64 \<and> k < n"
  by (auto simp: word_mask bit_simps)

lemma and_exp: "(x AND 2 ^ k :: u64) = 0 \<longleftrightarrow> \<not> bit x k"
  by (rule and_exp_eq_0_iff_not_bit)

text \<open>
  Property C29. A constant that is assigned to a bit-field of 1 to 62 bits is reduced to the bits
  of the field, as an unsigned number or, in a signed field, in two's complement.
  For wider fields the computation of the mask is undefined.
\<close>

theorem mask_field_value:
  assumes "1 \<le> width"
  shows "if width \<le> 62
    then \<exists>v'. mask_field sg width v = Inr v' \<and>
      val_i v' = (if sg then signed_take_bit (nat width - 1) (val_i v) else take_bit (nat width) (val_i v))
    else mask_field sg width v = Inl Undefined_Behaviour"
proof (cases "width \<le> 62")
  case True
  define n where "n = nat width"
  have n: "0 < n" "n < 63" "width = int n" using True assms by (auto simp: n_def)
  have le: "(2::int) ^ n \<le> 2 ^ 62" "(2::int) ^ (n - 1) \<le> 2 ^ 62" using power_increasing [of n 62 "2::int"] power_increasing [of "n - 1" 62 "2::int"] n by simp_all
  have lo: "- 9223372036854775808 < (2::int) ^ k" "- 9223372036854775808 \<le> (2::int) ^ k" for k
    by (rule less_le_trans [OF _ zero_le_power] order_trans [OF _ zero_le_power]; simp)+
  have shl: "c_shl i64_type 1 width = Inr (2 ^ n)" "c_shl i64_type 1 (width - 1) = Inr (2 ^ (n - 1))"
    "c_sub i64_type (2 ^ n) 1 = Inr (2 ^ n - 1)"
    using le lo n by (auto simp: c_shl_def c_sub_def c_result_def promote_def in_type_def int_min_def int_max_def Let_def nat_diff_distrib)
  show ?thesis
  proof (cases sg)
    case True
    then show ?thesis
      using n shl \<open>width \<le> 62\<close> sint_or_not_mask [OF n(1,2), of "val_u v"] signed_take_bit_positive [OF n(1,2), of "val_u v"]
      by (auto simp: mask_field_def word_mask and_exp val_i_def n_def [symmetric] bit_and_iff Let_def bit_mask_iff)
  next
    case False
    then show ?thesis
      using n shl \<open>width \<le> 62\<close> sint_and_mask [OF n(2), of "val_u v"]
      by (simp add: mask_field_def word_mask val_i_def n_def [symmetric])
  qed
next
  case False
  have "c_shl i64_type 1 width = Inl Undefined_Behaviour" if w: "63 \<le> width"
  proof (cases "width = 63")
    case True
    then show ?thesis by (simp add: c_shl_def c_result_def promote_def in_type_def int_max_def)
  qed (use w in \<open>simp add: c_shl_def promote_def\<close>)
  then show ?thesis using False by (simp add: mask_field_def)
qed

theorem mask_field_value_witness:
  "(1::int) \<le> 3 \<and> (\<exists>v'. mask_field True 3 (imm_of 5) = Inr v' \<and> val_i v' = - 3)"
  using mask_field_value [of 3 True "imm_of 5"] by (simp add: val_i_imm_of signed_take_bit_eq_take_bit_shift take_bit_eq_mod)

end
