(* ===== verification/Macro.thy ===== *)
theory Macro
  imports Tokenize Typetree State_Error
begin

text \<open>
  Macros, \<open>src/preprocessor/macro.c\<close>: their table, the operators \<open>#\<close> and \<open>##\<close>, the
  collection of arguments and the expansion of lines. Arrays of tokens are lists;
  the pools in which the code keeps arrays for reuse are not modelled, since an array
  that is taken from a pool is emptied. A position in an array is the rest of the
  list behind it, and reading behind the end is undefined behaviour.
\<close>

section \<open>State\<close>

datatype macro_type = OBJECT_LIKE | FUNCTION_LIKE

record macro =
  mac_name :: c_string
  mac_type :: macro_type
  mac_params :: nat
  mac_is_line :: bool
  mac_is_file :: bool
  mac_is_vararg :: bool
  mac_replacement :: "token list"

definition zero_macro :: macro where
  "zero_macro = \<lparr>mac_name = zero_string, mac_type = OBJECT_LIKE, mac_params = 0, mac_is_line = False,
     mac_is_file = False, mac_is_vararg = False, mac_replacement = []\<rparr>"

text \<open>
  The table is missing until the first reset. The last field is the number of nested
  expansions that the stack of the host can hold.
\<close>

record macro_state =
  mc_strtab :: strtab
  mc_types :: type_store
  mc_std :: standard
  mc_table :: "macro hash_table option"
  mc_path :: c_string
  mc_line :: int
  mc_stack :: nat

type_synonym ('z, 'a) mac = "('z macro_state_scheme, 'a) sm"

definition HASH_TABLE_BUCKETS :: nat where
  "HASH_TABLE_BUCKETS = 1024"

section \<open>Tokens\<close>

text \<open>The two members of the union in a token.\<close>

definition tok_str :: "token \<Rightarrow> c_string outcome" where
  "tok_str t = (case tdata t of TStr s \<Rightarrow> Inr s | TVal _ \<Rightarrow> Inl Undefined_Behaviour)"

definition tok_val :: "token \<Rightarrow> u64 outcome" where
  "tok_val t = (case tdata t of TVal v \<Rightarrow> Inr v | TStr _ \<Rightarrow> Inl Undefined_Behaviour)"

text \<open>Comparison: whether two tokens differ.\<close>

definition tok_cmp :: "type_store \<Rightarrow> token \<Rightarrow> token \<Rightarrow> bool outcome" where
  "tok_cmp ts a b =
     (if ttype a \<noteq> ttype b then Inr True
      else if ttype a = TK_PARAM then obind (tok_val a) (\<lambda>x. obind (tok_val b) (\<lambda>y. Inr (x \<noteq> y)))
      else if ttype a = TK_NUMBER then
        obind (type_equal ts (tktype a) (tktype b)) (\<lambda>eq.
          if \<not> eq then Inr True else obind (tok_val a) (\<lambda>x. obind (tok_val b) (\<lambda>y. Inr (x \<noteq> y))))
      else obind (tok_str a) (\<lambda>x. obind (tok_str b) (\<lambda>y. Inr (str_cmp x y \<noteq> 0))))"

definition read_string :: "string \<Rightarrow> ('z, c_string) mac" where
  "read_string buf s = obind (str_register (mc_strtab s) buf (length buf)) (\<lambda>(st, r). Inr (r, s\<lparr>mc_strtab := st\<rparr>))"

text \<open>A call of the tokenizer, with the rest of the text. The text ends before the first zero byte.\<close>

definition read_token :: "string \<Rightarrow> ('z, token \<times> string) mac" where
  "read_token text s =
     obind (tokenize (mc_strtab s) (mc_std s) (takeWhile (\<lambda>c. c \<noteq> CHR 0x00) text))
       (\<lambda>(st, t, rest). Inr ((t, rest), s\<lparr>mc_strtab := st\<rparr>))"

section \<open>The table of macros\<close>

fun tokens_cmp :: "type_store \<Rightarrow> token list \<Rightarrow> token list \<Rightarrow> bool outcome" where
  "tokens_cmp ts (a # as) (b # bs) = obind (tok_cmp ts a b) (\<lambda>d. if d then Inr True else tokens_cmp ts as bs)"
| "tokens_cmp ts _ _ = Inr False"

definition macrocmp :: "type_store \<Rightarrow> macro \<Rightarrow> macro \<Rightarrow> bool outcome" where
  "macrocmp ts a b =
     (if mac_type a \<noteq> mac_type b \<or> mac_params a \<noteq> mac_params b then Inr True
      else if str_cmp (mac_name a) (mac_name b) \<noteq> 0 then Inr True
      else if length (mac_replacement a) \<noteq> length (mac_replacement b) then Inr True
      else tokens_cmp ts (mac_replacement a) (mac_replacement b))"

definition macro_hash_key :: "macro \<Rightarrow> c_string" where
  "macro_hash_key m = mac_name m"

definition macro_hash_add :: "macro \<Rightarrow> macro" where
  "macro_hash_add m = m"

text \<open>The macro that a lookup returned is changed in place.\<close>

definition modify_entry :: "c_string \<Rightarrow> (macro \<Rightarrow> macro) \<Rightarrow> macro hash_entry \<Rightarrow> macro hash_entry" where
  "modify_entry name f e =
     e\<lparr>edata := map_option (\<lambda>m. if str_cmp (macro_hash_key m) name = 0 then f m else m) (edata e)\<rparr>"

definition modify_macro :: "c_string \<Rightarrow> (macro \<Rightarrow> macro) \<Rightarrow> macro hash_table \<Rightarrow> macro hash_table" where
  "modify_macro name f tab = tab\<lparr>htable := map (map (modify_entry name f)) (htable tab)\<rparr>"

definition table :: "('z, macro hash_table) mac" where
  "table s = (case mc_table s of Some t \<Rightarrow> Inr (t, s) | None \<Rightarrow> Inl Undefined_Behaviour)"

definition set_table :: "macro hash_table \<Rightarrow> ('z, unit) mac" where
  "set_table t = emodify (\<lambda>s. s\<lparr>mc_table := Some t\<rparr>)"

definition macro_reset :: "('z, unit) mac" where
  "macro_reset s =
     (case mc_table s of
        None \<Rightarrow> obind (hash_init HASH_TABLE_BUCKETS) (\<lambda>t. set_table t s)
      | Some t \<Rightarrow> obind (hash_clear t) (\<lambda>t'. set_table t' s))"

definition macro_finalize :: "('z, unit) mac" where
  "macro_finalize = ebind table (\<lambda>t. ebind (olift (hash_destroy t)) set_table)"

definition get__line__token :: "('z, token) mac" where
  "get__line__token =
     ebind (eget mc_line) (\<lambda>n.
     ebind (read_string (print_int n)) (\<lambda>r. eret ((basic_token TK_PREP_NUMBER)\<lparr>tdata := TStr r\<rparr>)))"

definition get__file__token :: "('z, token) mac" where
  "get__file__token = eget (\<lambda>s. zero_token\<lparr>ttype := TK_STRING, tdata := TStr (mc_path s)\<rparr>)"

text \<open>The first token of the replacement list is overwritten; the list must not be empty.\<close>

definition replace_first :: "c_string \<Rightarrow> macro \<Rightarrow> token \<Rightarrow> ('z, macro) mac" where
  "replace_first name m t =
     (if mac_replacement m = [] then efail Undefined_Behaviour
      else
        let m' = m\<lparr>mac_replacement := (mac_replacement m)[0 := t]\<rparr> in
        ebind table (\<lambda>tab. ebind (set_table (modify_macro name (\<lambda>_. m') tab)) (\<lambda>_. eret m')))"

definition macro_definition :: "c_string \<Rightarrow> ('z, macro option) mac" where
  "macro_definition name =
     ebind table (\<lambda>tab.
     ebind (olift (hash_lookup macro_hash_key tab name)) (\<lambda>r.
       case r of
         None \<Rightarrow> eret None
       | Some m \<Rightarrow>
           if mac_is_file m then ebind get__file__token (\<lambda>t. ebind (replace_first name m t) (\<lambda>m'. eret (Some m')))
           else if mac_is_line m then ebind get__line__token (\<lambda>t. ebind (replace_first name m t) (\<lambda>m'. eret (Some m')))
           else eret (Some m)))"

definition define_macro :: "macro \<Rightarrow> ('z, unit) mac" where
  "define_macro m =
     ebind table (\<lambda>tab.
     ebind (olift (hash_insert macro_hash_key macro_hash_add tab m)) (\<lambda>(tab', ref).
     ebind (eget mc_types) (\<lambda>ts.
     ebind (olift (macrocmp ts ref m)) (\<lambda>differ.
       if differ then eerror ''Redefinition of macro %s with different substitution.''
       else
         let ref' = ref\<lparr>mac_is_file := str_cmp (str_init ''__FILE__'') (mac_name ref) = 0,
                        mac_is_line := str_cmp (str_init ''__LINE__'') (mac_name ref) = 0\<rparr> in
         set_table (modify_macro (mac_name ref) (\<lambda>_. ref') tab')))))"

definition undef :: "c_string \<Rightarrow> ('z, unit) mac" where
  "undef name = ebind table (\<lambda>tab. ebind (olift (hash_remove macro_hash_key tab name)) set_table)"

section \<open>Making strings of tokens\<close>

fun str_write_escaped :: "string \<Rightarrow> string" where
  "str_write_escaped [] = []"
| "str_write_escaped (c # cs) = (if c = CHR 0x22 \<or> c = CHR 0x5C then [CHR 0x5C, c] else [c]) @ str_write_escaped cs"

definition stringify_text :: "token \<Rightarrow> c_string \<Rightarrow> string" where
  "stringify_text t str =
     (if ttype t = TK_PREP_STRING \<or> ttype t = TK_STRING
      then [CHR 0x5C, CHR 0x22] @ str_write_escaped (str_chars str) @ [CHR 0x5C, CHR 0x22]
      else if ttype t = TK_PREP_CHAR then [CHR 0x27] @ str_write_escaped (str_chars str) @ [CHR 0x27]
      else str_chars str)"

text \<open>
  The buffer is the list of the characters written so far together with its
  capacity. It grows by twice the length of the string, which leaves no room for the quotes.
\<close>

definition stringify_concat :: "nat \<Rightarrow> string \<Rightarrow> token \<Rightarrow> (nat \<times> string) outcome" where
  "stringify_concat cap buf t =
     obind (oassert (ttype t \<noteq> TK_NUMBER)) (\<lambda>_.
     obind (tok_str t) (\<lambda>str.
       let len = (if leading_whitespace t \<noteq> 0 then 1 else 0) + unat (slen str) * 2;
           cap' = (if length buf + len > cap then length buf + len else cap);
           buf' = buf @ (if leading_whitespace t \<noteq> 0 then '' '' else []) @ stringify_text t str
       in if length buf' > cap' then Inl Undefined_Behaviour else Inr (cap', buf')))"

fun stringify_loop :: "nat \<Rightarrow> string \<Rightarrow> bool \<Rightarrow> token list \<Rightarrow> string outcome" where
  "stringify_loop cap buf first [] = Inr buf"
| "stringify_loop cap buf first (t # ts) =
     (if ttype t = TK_NEWLINE then obind (oassert (ts = [])) (\<lambda>_. Inr buf)
      else
        obind (oassert (ttype t \<noteq> TK_END)) (\<lambda>_.
        obind (stringify_concat cap buf (if first then t\<lparr>leading_whitespace := 0\<rparr> else t)) (\<lambda>(cap', buf').
          stringify_loop cap' buf' False ts)))"

definition stringify :: "token list \<Rightarrow> ('z, token) mac" where
  "stringify list =
     (case list of
        [] \<Rightarrow> eret (zero_token\<lparr>ttype := TK_STRING, tdata := TStr (str_init [])\<rparr>)
      | t # ts \<Rightarrow>
          let whole =
            ebind (olift (stringify_loop (length list * 8) [] True list)) (\<lambda>buf.
              if buf \<noteq> [] \<and> last buf = CHR 0x5C then eerror ''Invalid string literal ending with backslash.''
              else
                ebind (read_string buf) (\<lambda>r.
                  eret (zero_token\<lparr>ttype := TK_PREP_STRING, leading_whitespace := leading_whitespace t, tdata := TStr r\<rparr>)))
          in
          if ttype t \<in> {TK_BACKSLASH, TK_STRING, TK_PREP_STRING, TK_PREP_CHAR} then whole
          else
            ebind (eassert (ttype t \<noteq> TK_END)) (\<lambda>_.
            ebind (eassert (ttype t \<noteq> TK_NUMBER)) (\<lambda>_.
              if ts = [] then
                ebind (olift (tok_str t)) (\<lambda>r.
                  eret (zero_token\<lparr>ttype := TK_STRING, tdata := TStr r, leading_whitespace := leading_whitespace t\<rparr>))
              else whole)))"

section \<open>Pasting\<close>

definition paste :: "token \<Rightarrow> token \<Rightarrow> ('z, token) mac" where
  "paste left right =
     ebind (eassert (ttype left \<noteq> TK_NUMBER)) (\<lambda>_.
     ebind (eassert (ttype right \<noteq> TK_NUMBER)) (\<lambda>_.
     ebind (olift (tok_str left)) (\<lambda>s1.
     ebind (olift (tok_str right)) (\<lambda>s2.
       let buf = str_chars s1 @ str_chars s2 in
       ebind (read_token buf) (\<lambda>(t, rest).
         if rest \<noteq> [] \<or> CHR 0x00 \<in> set buf then eerror ''Invalid token resulting from pasting %s and %s.''
         else eret (t\<lparr>leading_whitespace := leading_whitespace left\<rparr>))))))"

definition arg_at :: "token list list \<Rightarrow> u64 \<Rightarrow> token list outcome" where
  "arg_at args i = (if unat i < length args then Inr (args ! unat i) else Inl Undefined_Behaviour)"

definition last_token :: "token list \<Rightarrow> token outcome" where
  "last_token list = (if list = [] then Inl Undefined_Behaviour else Inr (last list))"

text \<open>
  The operator \<open>##\<close>, with the list that was built so far and the token behind the operator.
  The result tells whether that token has to be treated again.
\<close>

definition paste_param :: "macro \<Rightarrow> token list list \<Rightarrow> token list \<Rightarrow> token \<Rightarrow> token \<Rightarrow> ('z, token list \<times> bool) mac" where
  "paste_param def args list t s =
     (if ttype s = TK_PARAM then
        ebind (olift (tok_val s)) (\<lambda>j.
        ebind (olift (arg_at args j)) (\<lambda>arg.
          if mac_is_vararg def \<and> ttype t = TK_COMMA \<and> unat j + 1 = mac_params def then
            (if arg \<noteq> [] then eret (list, True) else eret (butlast list, False))
          else
            case arg of
              [] \<Rightarrow> eret (list, False)
            | a # as \<Rightarrow> ebind (paste t a) (\<lambda>p. eret (butlast list @ p # as, False))))
      else ebind (paste t s) (\<lambda>p. eret (butlast list @ [p], False)))"

definition paste_tokens :: "macro \<Rightarrow> token list list \<Rightarrow> token list \<Rightarrow> token \<Rightarrow> ('z, token list \<times> bool) mac" where
  "paste_tokens def args list s =
     ebind (olift (last_token list)) (\<lambda>t.
       if ttype t = TK_PARAM then
         ebind (olift (tok_val t)) (\<lambda>i.
         ebind (olift (arg_at args i)) (\<lambda>arg.
           if arg = [] then
             (if ttype s = TK_PARAM then
                ebind (olift (tok_val s)) (\<lambda>j. ebind (olift (arg_at args j)) (\<lambda>arg2. eret (butlast list @ arg2, False)))
              else eret (butlast list @ [s], False))
           else paste_param def args (butlast list @ arg) (last arg) s))
       else paste_param def args list t s)"

fun stringify_and_paste_loop :: "macro \<Rightarrow> token list list \<Rightarrow> token list \<Rightarrow> token list \<Rightarrow> ('z, token list) mac" where
  "stringify_and_paste_loop def args list [] = eret list"
| "stringify_and_paste_loop def args list (t # ts) =
     (if ttype t = TK_TOKEN_PASTE then
        (case ts of
           [] \<Rightarrow> efail Undefined_Behaviour
         | s # rest \<Rightarrow>
             ebind (paste_tokens def args list s) (\<lambda>(list', again).
               if again then stringify_and_paste_loop def args list' (s # rest)
               else stringify_and_paste_loop def args list' rest))
      else if ttype t = TK_HASH then
        (case ts of
           [] \<Rightarrow> eerror ''Stray # in replacement list.''
         | s # rest \<Rightarrow>
             if ttype s = TK_PARAM then
               ebind (olift (tok_val s)) (\<lambda>d.
               ebind (olift (arg_at args d)) (\<lambda>arg.
               ebind (stringify arg) (\<lambda>str. stringify_and_paste_loop def args (list @ [str]) rest)))
             else eerror ''Stray # in replacement list.'')
      else stringify_and_paste_loop def args (list @ [t]) ts)"

definition expand_stringify_and_paste :: "macro \<Rightarrow> token list list \<Rightarrow> ('z, token list) mac" where
  "expand_stringify_and_paste def args =
     (let r = mac_replacement def in
      if r \<noteq> [] \<and> ttype (hd r) = TK_TOKEN_PASTE then eerror ''Unexpected ## operator at beginning of line.''
      else if length r > 2 \<and> ttype (last r) = TK_TOKEN_PASTE then eerror ''Unexpected ## operator at end of line.''
      else stringify_and_paste_loop def args [] r)"

section \<open>Arguments\<close>

definition is_expanded :: "c_string list \<Rightarrow> c_string \<Rightarrow> bool" where
  "is_expanded scope name = list_ex (\<lambda>s. str_cmp s name = 0) scope"

text \<open>A token of an argument; a name that is being expanded will not be expanded again.\<close>

definition mark_expanded :: "c_string list \<Rightarrow> token \<Rightarrow> token outcome" where
  "mark_expanded scope t =
     (if is_expandable t then
        obind (tok_str t) (\<lambda>s. Inr (if is_expanded scope s then t\<lparr>disable_expand := True\<rparr> else t))
      else Inr t)"

fun read_arg :: "c_string list \<Rightarrow> bool \<Rightarrow> int \<Rightarrow> token list \<Rightarrow> (token list \<times> token list) outcome" where
  "read_arg scope is_va_arg nesting [] = Inl Undefined_Behaviour"
| "read_arg scope is_va_arg nesting (t # ts) =
     (if nesting \<noteq> 0 \<or> (ttype t \<noteq> TK_COMMA \<or> is_va_arg) \<and> ttype t \<noteq> TK_CLOSE_PAREN then
        if ttype t = TK_NEWLINE then Inl (Exit_Error ''Unexpected end of input in expansion.'')
        else
          let nesting' = (if ttype t = TK_OPEN_PAREN then nesting + 1
                          else if ttype t = TK_CLOSE_PAREN then nesting - 1 else nesting) in
          if nesting' < 0 then Inl (Exit_Error ''Negative nesting depth in expansion.'')
          else
            obind (mark_expanded scope t) (\<lambda>t'.
            obind (read_arg scope is_va_arg nesting' ts) (\<lambda>(arg, rest). Inr (t' # arg, rest)))
      else Inr ([], t # ts))"

text \<open>
  The arguments of the named parameters, from number \<open>i\<close> on. The flag in the result tells whether
  the variable argument is still to be read.
\<close>

function read_params ::
  "c_string list \<Rightarrow> macro \<Rightarrow> nat \<Rightarrow> token list \<Rightarrow> (token list list \<times> bool \<times> token list) outcome" where
  "read_params scope def i list =
     (if i + (if mac_is_vararg def then 1 else 0) < mac_params def then
        obind (read_arg scope False 0 list) (\<lambda>(arg, rest).
          case rest of
            [] \<Rightarrow> Inl Undefined_Behaviour
          | t # ts \<Rightarrow>
              if ttype t \<noteq> TK_COMMA then
                if i + 1 = mac_params def then Inr ([arg], True, rest)
                else if mac_is_vararg def \<and> i + 2 = mac_params def then Inr ([arg], False, rest)
                else Inl (Exit_Error ''Expected , between macro parameters.'')
              else obind (read_params scope def (i + 1) ts) (\<lambda>(args, more, rest'). Inr (arg # args, more, rest')))
      else Inr ([], True, list))"
  by pat_completeness auto
termination
  by (relation "measure (\<lambda>(scope, def, i, list). mac_params def - i)") auto

declare read_params.simps [simp del]

text \<open>The arguments, and the number of tokens that were read. A missing variable argument is empty.\<close>

definition read_args :: "c_string list \<Rightarrow> macro \<Rightarrow> token list \<Rightarrow> (token list list \<times> nat) outcome" where
  "read_args scope def list =
     (if mac_type def = FUNCTION_LIKE then
        case list of
          [] \<Rightarrow> Inl Undefined_Behaviour
        | t # ts \<Rightarrow>
            if ttype t \<noteq> TK_OPEN_PAREN then Inl (Exit_Error ''Expected ( to begin macro argument list.'')
            else
              obind
                (if mac_params def > 0 then
                   obind (read_params scope def 0 ts) (\<lambda>(args, more, rest).
                     if mac_is_vararg def then
                       if more then
                         obind (oassert (length args + 1 = mac_params def)) (\<lambda>_.
                         obind (read_arg scope True 0 rest) (\<lambda>(arg, rest'). Inr (args @ [arg], rest')))
                       else Inr (args @ [[]], rest)
                     else Inr (args, rest))
                 else Inr ([], ts)) (\<lambda>(args, rest).
              case rest of
                [] \<Rightarrow> Inl Undefined_Behaviour
              | r # rs \<Rightarrow>
                  if ttype r \<noteq> TK_CLOSE_PAREN then Inl (Exit_Error ''Expected ) to close macro argument list.'')
                  else Inr (args, length list - length rs))
      else Inr ([], 0))"

section \<open>Expansion\<close>

definition set_whitespace :: "nat \<Rightarrow> token list \<Rightarrow> token list" where
  "set_whitespace n list = (case list of [] \<Rightarrow> [] | t # ts \<Rightarrow> t\<lparr>leading_whitespace := n\<rparr> # ts)"

text \<open>
  One pass over a line, given the expansion of a single macro. The pass continues
  behind the tokens that replace a macro. The result has the number of macros expanded.
\<close>

function expand_line_with ::
  "(c_string list \<Rightarrow> macro \<Rightarrow> token list list \<Rightarrow> ('z, token list) mac) \<Rightarrow> c_string list \<Rightarrow> token list \<Rightarrow> ('z, token list \<times> nat) mac" where
  "expand_line_with em scope [] = eret ([], 0)"
| "expand_line_with em scope (t # ts) =
     (let keep = (\<lambda>t'. ebind (expand_line_with em scope ts) (\<lambda>(out, n). eret (t' # out, n))) in
      if \<not> is_expandable t \<or> disable_expand t then keep t
      else
        ebind (olift (tok_str t)) (\<lambda>name.
        ebind (macro_definition name) (\<lambda>d.
          case d of
            None \<Rightarrow> keep t
          | Some def \<Rightarrow>
              if is_expanded scope name then keep (t\<lparr>disable_expand := True\<rparr>)
              else if mac_type def = FUNCTION_LIKE \<and> (ts = [] \<or> ttype (hd ts) \<noteq> TK_OPEN_PAREN) then keep t
              else
                ebind (olift (read_args scope def ts)) (\<lambda>(args, k).
                ebind (em (scope @ [mac_name def]) def args) (\<lambda>expn.
                ebind (expand_line_with em scope (drop k ts)) (\<lambda>(out, n).
                  eret (set_whitespace (leading_whitespace t) expn @ out, n + 1)))))))"
  by pat_completeness auto
termination
  by (relation "measure (\<lambda>(em, scope, list). length list)") auto

text \<open>
  An argument after its expansion. Every argument is expanded with an empty stack of
  names, whatever is being expanded around it.
\<close>

definition spaced :: "token list \<Rightarrow> token list" where
  "spaced list = (case list of [] \<Rightarrow> [] | t # ts \<Rightarrow> (if leading_whitespace t = 0 then t\<lparr>leading_whitespace := 1\<rparr> else t) # ts)"

fun expand_args :: "(token list \<Rightarrow> ('z, token list \<times> nat) mac) \<Rightarrow> token list list \<Rightarrow> ('z, token list list) mac" where
  "expand_args ex [] = eret []"
| "expand_args ex (a # as) =
     ebind (ex a) (\<lambda>(a', n). ebind (expand_args ex as) (\<lambda>as'. eret (spaced a' # as')))"

text \<open>Arguments take the place of parameters; they contain no parameters themselves.\<close>

fun substitute :: "token list list \<Rightarrow> token list \<Rightarrow> token list outcome" where
  "substitute args [] = Inr []"
| "substitute args (t # ts) =
     (if ttype t = TK_PARAM then
        obind (tok_val t) (\<lambda>j. obind (arg_at args j) (\<lambda>arg. obind (substitute args ts) (\<lambda>out. Inr (arg @ out))))
      else obind (substitute args ts) (\<lambda>out. Inr (t # out)))"

fun expand_macro :: "nat \<Rightarrow> c_string list \<Rightarrow> macro \<Rightarrow> token list list \<Rightarrow> ('z, token list) mac" where
  "expand_macro 0 scope def args = efail Stack_Overflow"
| "expand_macro (Suc d) scope def args =
     ebind (expand_stringify_and_paste def args) (\<lambda>list.
     ebind
       (if mac_params def > 0 then
          ebind (eassert (mac_type def = FUNCTION_LIKE)) (\<lambda>_.
          ebind (expand_args (expand_line_with (expand_macro d) []) args) (\<lambda>args'. olift (substitute args' list)))
        else eret list) (\<lambda>list'.
     ebind (expand_line_with (expand_macro d) scope list') (\<lambda>(out, n). eret out)))"

definition expand_line :: "nat \<Rightarrow> c_string list \<Rightarrow> token list \<Rightarrow> ('z, token list \<times> nat) mac" where
  "expand_line d = expand_line_with (expand_macro d)"

definition expand :: "token list \<Rightarrow> ('z, token list \<times> nat) mac" where
  "expand list = ebind (eget mc_stack) (\<lambda>d. expand_line d [] list)"

section \<open>Builtin macros\<close>

function parse_macro_replacement :: "string \<Rightarrow> ('z, token list) mac" where
  "parse_macro_replacement str s =
     (if str = [] then Inr ([], s)
      else
        case read_token str s of
          Inl e \<Rightarrow> Inl e
        | Inr ((t, rest), s') \<Rightarrow>
            if length rest < length str then obind (parse_macro_replacement rest s') (\<lambda>(ts, s''). Inr (t # ts, s''))
            else Inl Assert_Failed)"
  by pat_completeness auto
termination
  by (relation "measure (\<lambda>(str, s). length str)") auto

declare parse_macro_replacement.simps [simp del]

definition register_macro :: "string \<Rightarrow> string \<Rightarrow> ('z, unit) mac" where
  "register_macro key val =
     ebind (parse_macro_replacement val) (\<lambda>r.
       define_macro (zero_macro\<lparr>mac_type := OBJECT_LIKE, mac_name := str_init key, mac_replacement := r\<rparr>))"

definition get__time :: "string \<Rightarrow> string outcome" where
  "get__time ts = obind (oassert (length ts = 25)) (\<lambda>_. Inr ([CHR 0x22] @ take 8 (drop 11 ts) @ [CHR 0x22]))"

definition get__date :: "string \<Rightarrow> string outcome" where
  "get__date ts =
     obind (oassert (length ts = 25)) (\<lambda>_. Inr ([CHR 0x22] @ take 7 (drop 4 ts) @ take 4 (drop 20 ts) @ [CHR 0x22]))"

text \<open>The text of \<open>ctime\<close> is an argument. On a host that is Linux, and so Unix too.\<close>

definition register_builtin_definitions :: "string \<Rightarrow> standard \<Rightarrow> ('z, unit) mac" where
  "register_builtin_definitions ts version =
     ebind (olift (get__date ts)) (\<lambda>date.
     ebind (olift (get__time ts)) (\<lambda>time.
       eiter (\<lambda>(k, v). register_macro k v)
         ([(''__STDC__'', ''1''), (''__STDC_HOSTED__'', ''1''), (''__FILE__'', ''0''), (''__LINE__'', ''0''),
           (''__DATE__'', date), (''__TIME__'', time), (''__x86_64__'', ''1''), (''__LP64__'', ''1''),
           (''__SIZE_TYPE__'', ''unsigned long''), (''__WCHAR_TYPE__'', ''signed int''), (''__PTRDIFF_TYPE__'', ''signed long''),
           (''__CHAR_BIT__'', ''8''), (''__SIZEOF_LONG__'', ''8''), (''__SIZEOF_POINTER__'', ''8''),
           (''__linux__'', ''1''), (''__signed__'', ''signed''), (''__unix__'', ''1'')] @
          (case version of
             STD_C89 \<Rightarrow> [] | STD_C99 \<Rightarrow> [(''__STDC_VERSION__'', ''199901L'')] | STD_C11 \<Rightarrow> [(''__STDC_VERSION__'', ''201112L'')]))))"

end
