(* ===== verification/Macro_Correct.thy ===== *)
theory Macro_Correct
  imports Macro Tokenizer_Correct
begin

text \<open>
  Correctness of macros: the table is a map from names to macros; object-like
  macros are expanded as a relation that mirrors the standard prescribes, within as
  many nested expansions as there are macros; arguments lose this protection; and the
  operator \<open>#\<close> gives a string that reads as its argument.
\<close>

section \<open>The table is a map\<close>

interpretation macros: hash_client macro_hash_key macro_hash_add
  by unfold_locales (simp add: macro_hash_add_def)

definition macro_inv :: "'z macro_state_scheme \<Rightarrow> bool" where
  "macro_inv s \<longleftrightarrow> (case mc_table s of None \<Rightarrow> False | Some t \<Rightarrow> hash_inv macro_hash_key t)"

definition mmap :: "'z macro_state_scheme \<Rightarrow> string \<Rightarrow> macro option" where
  "mmap s = (case mc_table s of None \<Rightarrow> Map.empty | Some t \<Rightarrow> hash_abs macro_hash_key t)"

lemma macro_invE:
  assumes "macro_inv s"
  obtains t where "mc_table s = Some t" "hash_inv macro_hash_key t" "mmap s = hash_abs macro_hash_key t"
  using assms by (auto simp: macro_inv_def mmap_def split: option.splits)

lemma macro_inv_update [simp]:
  "mc_table s = Some t \<Longrightarrow> macro_inv (s\<lparr>mc_strtab := st\<rparr>) = macro_inv s"
  "macro_inv (s\<lparr>mc_table := Some t\<rparr>) = hash_inv macro_hash_key t"
  "mmap (s\<lparr>mc_table := Some t\<rparr>) = hash_abs macro_hash_key t"
  by (simp_all add: macro_inv_def mmap_def)

text \<open>Changing a macro in place, without changing its name.\<close>

definition keeps_name :: "c_string \<Rightarrow> (macro \<Rightarrow> macro) \<Rightarrow> bool" where
  "keeps_name name f \<longleftrightarrow> (\<forall>m. wf_string (mac_name m) \<and> str_chars (mac_name m) = str_chars name \<longrightarrow>
     wf_string (mac_name (f m)) \<and> str_chars (mac_name (f m)) = str_chars name)"

definition upd :: "c_string \<Rightarrow> (macro \<Rightarrow> macro) \<Rightarrow> macro \<Rightarrow> macro" where
  "upd name f m = (if str_cmp (macro_hash_key m) name = 0 then f m else m)"

lemma modify_entry_upd: "modify_entry name f e = e\<lparr>edata := map_option (upd name f) (edata e)\<rparr>"
  by (simp add: modify_entry_def upd_def [abs_def])

lemma upd_key:
  assumes "wf_string name" "keeps_name name f" "wf_string (macro_hash_key m)"
  shows "wf_string (macro_hash_key (upd name f m))" "str_chars (macro_hash_key (upd name f m)) = str_chars (macro_hash_key m)"
  using assms str_cmp_eq_iff [OF assms(3,1)] by (auto simp: upd_def keeps_name_def macro_hash_key_def)

lemma modify_full:
  assumes "wf_string name" "keeps_name name f" "full_entry macro_hash_key e"
  shows "full_entry macro_hash_key (modify_entry name f e)"
    "fst (entry_assoc macro_hash_key (modify_entry name f e)) = fst (entry_assoc macro_hash_key e)"
    "entry_assoc macro_hash_key (modify_entry name f e) =
       (let (k, m) = entry_assoc macro_hash_key e in (k, if k = str_chars name then f m else m))"
proof -
  obtain m where m: "edata e = Some m" "wf_string (macro_hash_key m)" "ehash e = djb2_hash (macro_hash_key m)"
    using full_entryD [OF assms(3)] by blast
  note k = upd_key [OF assms(1,2) m(2)]
  show "full_entry macro_hash_key (modify_entry name f e)"
    using m k by (simp add: full_entry_def modify_entry_upd djb2_hash_def)
  show "fst (entry_assoc macro_hash_key (modify_entry name f e)) = fst (entry_assoc macro_hash_key e)"
    using m k by (simp add: entry_assoc_def modify_entry_upd)
  show "entry_assoc macro_hash_key (modify_entry name f e) =
       (let (k, m) = entry_assoc macro_hash_key e in (k, if k = str_chars name then f m else m))"
    using m k str_cmp_eq_iff [OF m(2) assms(1)] by (simp add: entry_assoc_def modify_entry_upd upd_def)
qed

lemma modify_used:
  assumes "wf_string name" "keeps_name name f" "used_chain macro_hash_key cap p chain"
  shows "used_chain macro_hash_key cap p (map (modify_entry name f) chain)"
proof -
  have full: "\<forall>e \<in> set chain. full_entry macro_hash_key e" using assms(3) by (simp add: used_chain_def)
  have same: "map fst (map (entry_assoc macro_hash_key) (map (modify_entry name f) chain)) =
      map fst (map (entry_assoc macro_hash_key) chain)"
    using full modify_full(2) [OF assms(1,2)] by simp
  have "\<forall>e \<in> set (map (modify_entry name f) chain).
      full_entry macro_hash_key e \<and> slot_of cap (fst (entry_assoc macro_hash_key e)) = p"
    using assms(3) full modify_full(1,2) [OF assms(1,2)] unfolding used_chain_def by auto
  then show ?thesis using assms(3) unfolding used_chain_def same by blast
qed

lemma modify_empty [simp]: "modify_entry name f empty_entry = empty_entry"
  by (simp add: modify_entry_def empty_entry_def)

lemma map_of_upd:
  "map_of (map (\<lambda>x. let (k, m) = h x in (k, if k = n then f m else m)) xs) s =
     (if s = n then map_option f (map_of (map h xs) s) else map_of (map h xs) s)"
  by (induction xs) (auto split: prod.splits)

lemma modify_macro_ok:
  assumes "wf_string name" "keeps_name name f" "hash_inv macro_hash_key tab"
  shows "hash_inv macro_hash_key (modify_macro name f tab)"
    "hash_abs macro_hash_key (modify_macro name f tab) =
       (hash_abs macro_hash_key tab)(str_chars name := map_option f (hash_abs macro_hash_key tab (str_chars name)))"
proof -
  let ?t = "modify_macro name f tab"
  have cap: "hcap ?t = hcap tab" by (simp add: modify_macro_def)
  have len: "length (htable tab) = hcap tab" "0 < hcap tab" using assms(3) by (simp_all add: hash_inv_def)
  have nth: "p < hcap tab \<Longrightarrow> htable ?t ! p = map (modify_entry name f) (htable tab ! p)" for p
    using len by (simp add: modify_macro_def)
  have ci: "chain_inv macro_hash_key (hcap tab) p (htable ?t ! p)" if p: "p < hcap tab" for p
    using assms(3) p modify_used [OF assms(1,2), of "hcap tab" p "htable tab ! p"]
    unfolding nth [OF p] by (auto simp: hash_inv_def chain_inv_def)
  show inv: "hash_inv macro_hash_key ?t"
    using ci len cap by (simp add: hash_inv_def) (simp add: modify_macro_def)
  have one: "hash_abs macro_hash_key ?t s =
      (if s = str_chars name then map_option f (hash_abs macro_hash_key tab s) else hash_abs macro_hash_key tab s)" for s
  proof -
    let ?p = "slot_of (hcap tab) s"
    have p: "?p < hcap tab" using len by (simp add: slot_less)
    from hash_invD [OF assms(3), of s] show ?thesis
    proof (cases rule: chain_inv_cases)
      case empty
      then show ?thesis using p by (auto simp: hash_abs_def cap nth)
    next
      case used
      have u: "used_chain macro_hash_key (hcap tab) ?p (htable ?t ! ?p)"
        using modify_used [OF assms(1,2) used(2)] p by (simp add: nth)
      have eq: "map (entry_assoc macro_hash_key) (htable ?t ! ?p) =
          map (\<lambda>e. let (k, m) = entry_assoc macro_hash_key e in (k, if k = str_chars name then f m else m)) (htable tab ! ?p)"
        using used(2) modify_full(3) [OF assms(1,2)] p by (auto simp: nth used_chain_def)
      show ?thesis
        unfolding hash_abs_def cap used_chain_assoc [OF u] used_chain_assoc [OF used(2)] eq map_of_upd by (rule refl)
    qed
  qed
  then show "hash_abs macro_hash_key ?t =
      (hash_abs macro_hash_key tab)(str_chars name := map_option f (hash_abs macro_hash_key tab (str_chars name)))"
    by (auto simp: fun_eq_iff)
qed


text \<open>The three operations on the table, and what they leave of the rest of the state.\<close>

lemma macro_definition_map:
  assumes "macro_inv s" "wf_string name"
    and "\<And>m. mmap s (str_chars name) = Some m \<Longrightarrow> \<not> mac_is_file m \<and> \<not> mac_is_line m"
  shows "macro_definition name s = Inr (mmap s (str_chars name), s)"
proof -
  obtain t where t: "mc_table s = Some t" "hash_inv macro_hash_key t" "mmap s = hash_abs macro_hash_key t"
    using macro_invE [OF assms(1)] .
  show ?thesis
    using assms(3) hash_lookup_abs [OF t(2) assms(2)]
    by (auto simp: macro_definition_def table_def ev_simps t(1,3) split: option.splits)
qed

definition flagged :: "macro \<Rightarrow> macro" where
  "flagged m = m\<lparr>mac_is_file := str_cmp (str_init ''__FILE__'') (mac_name m) = 0,
     mac_is_line := str_cmp (str_init ''__LINE__'') (mac_name m) = 0\<rparr>"

lemma flagged_name [simp]: "mac_name (flagged m) = mac_name m"
  by (simp add: flagged_def)

lemma flag_in_place:
  assumes "hash_inv macro_hash_key t" "hash_abs macro_hash_key t (str_chars (mac_name m)) = Some m" "wf_string (mac_name m)"
  shows "hash_inv macro_hash_key (modify_macro (mac_name m) (\<lambda>_. flagged m) t)"
    "hash_abs macro_hash_key (modify_macro (mac_name m) (\<lambda>_. flagged m) t) =
       (hash_abs macro_hash_key t)(str_chars (mac_name m) \<mapsto> flagged m)"
proof -
  have k: "keeps_name (mac_name m) (\<lambda>_. flagged m)" using assms(3) by (simp add: keeps_name_def)
  show "hash_inv macro_hash_key (modify_macro (mac_name m) (\<lambda>_. flagged m) t)"
    "hash_abs macro_hash_key (modify_macro (mac_name m) (\<lambda>_. flagged m) t) =
       (hash_abs macro_hash_key t)(str_chars (mac_name m) \<mapsto> flagged m)"
    using modify_macro_ok [OF assms(3) k assms(1)] assms(2) by simp_all
qed

text \<open>Inserting finds the macro of that name, or enters the new one.\<close>

lemma define_inserts:
  assumes "macro_inv s" "wf_string (mac_name m)"
    and "ref = (case mmap s (str_chars (mac_name m)) of None \<Rightarrow> m | Some m0 \<Rightarrow> m0)"
  shows "\<exists>t. (define_macro m s =
      (case macrocmp (mc_types s) ref m of
         Inl e \<Rightarrow> Inl e
       | Inr True \<Rightarrow> Inl (Exit_Error ''Redefinition of macro %s with different substitution.'')
       | Inr False \<Rightarrow> Inr ((), s\<lparr>mc_table := Some t\<rparr>))) \<and>
     hash_inv macro_hash_key t \<and> hash_abs macro_hash_key t = (mmap s)(str_chars (mac_name m) \<mapsto> flagged ref)"
proof -
  obtain t where t: "mc_table s = Some t" "hash_inv macro_hash_key t" "mmap s = hash_abs macro_hash_key t"
    using macro_invE [OF assms(1)] .
  have wk: "wf_string (macro_hash_key m)" using assms(2) by (simp add: macro_hash_key_def)
  obtain t1 where t1: "hash_insert macro_hash_key macro_hash_add t m = Inr (t1, ref)" "hash_inv macro_hash_key t1"
      "hash_abs macro_hash_key t1 = (hash_abs macro_hash_key t)(str_chars (mac_name m) \<mapsto> ref)"
  proof (cases "hash_abs macro_hash_key t (str_chars (mac_name m))")
    case None
    then show ?thesis
      using that macros.ht.insert_fresh [OF t(2) wk] assms(3) t(3) by (auto simp: macro_hash_key_def macro_hash_add_def)
  next
    case (Some m0)
    then show ?thesis
      using that [of t] macros.ht.insert_present [OF t(2) wk] assms(3) t(2,3)
      by (simp add: macro_hash_key_def fun_upd_idem)
  qed
  have key: "str_chars (mac_name ref) = str_chars (mac_name m)" "wf_string (mac_name ref)"
    using hash_abs_key [OF t1(2), of "str_chars (mac_name m)" ref] t1(3) by (simp_all add: macro_hash_key_def)
  have "hash_abs macro_hash_key t1 (str_chars (mac_name ref)) = Some ref" using t1(3) key by simp
  note f = flag_in_place [OF t1(2) this key(2)]
  show ?thesis
    using f t1 t(3) key
    by (intro exI [of _ "modify_macro (mac_name ref) (\<lambda>_. flagged ref) t1"])
      (auto simp: define_macro_def table_def set_table_def ev_simps t(1) flagged_def Let_def split: sum.splits bool.splits)
qed

lemma undef_removes:
  assumes "macro_inv s" "wf_string name"
  shows "\<exists>t. undef name s = Inr ((), s\<lparr>mc_table := Some t\<rparr>) \<and> hash_inv macro_hash_key t \<and>
    hash_abs macro_hash_key t = (mmap s)(str_chars name := None)"
proof -
  obtain t where t: "mc_table s = Some t" "hash_inv macro_hash_key t" "mmap s = hash_abs macro_hash_key t"
    using macro_invE [OF assms(1)] .
  then show ?thesis
    using macros.ht.remove_map [OF t(2) assms(2)] by (auto simp: undef_def table_def set_table_def ev_simps)
qed


section \<open>Sequences of definitions, removals and queries\<close>

datatype macro_call = Define macro | Undef c_string | Find c_string

fun do_call :: "macro_call \<Rightarrow> ('z, macro option) mac" where
  "do_call (Define m) = ebind (define_macro m) (\<lambda>_. eret None)"
| "do_call (Undef name) = ebind (undef name) (\<lambda>_. eret None)"
| "do_call (Find name) = macro_definition name"

fun do_calls :: "macro_call list \<Rightarrow> ('z, macro option list) mac" where
  "do_calls [] = eret []"
| "do_calls (c # cs) = ebind (do_call c) (\<lambda>r. ebind (do_calls cs) (\<lambda>rs. eret (r # rs)))"

text \<open>
  When two macros are the same: both object-like or both function-like, with as many
  parameters, and replacement lists of the same length whose tokens agree in kind and
  in spelling, and for a parameter in its position.
\<close>

definition same_token :: "token \<Rightarrow> token \<Rightarrow> bool" where
  "same_token a b \<longleftrightarrow> ttype a = ttype b \<and>
     (case (tdata a, tdata b) of
        (TStr x, TStr y) \<Rightarrow> str_chars x = str_chars y
      | (TVal i, TVal j) \<Rightarrow> i = j
      | _ \<Rightarrow> False)"

definition same_macro :: "macro \<Rightarrow> macro \<Rightarrow> bool" where
  "same_macro a b \<longleftrightarrow> mac_type a = mac_type b \<and> mac_params a = mac_params b \<and>
     list_all2 same_token (mac_replacement a) (mac_replacement b)"

text \<open>The same calls on a map: a second definition of a name must repeat the first.\<close>

fun map_call :: "macro_call \<Rightarrow> (string \<rightharpoonup> macro) \<Rightarrow> (macro option \<times> (string \<rightharpoonup> macro)) outcome" where
  "map_call (Define m) M =
     (case M (str_chars (mac_name m)) of
        None \<Rightarrow> Inr (None, M(str_chars (mac_name m) \<mapsto> m))
      | Some m0 \<Rightarrow>
          if same_macro m0 m then Inr (None, M)
          else Inl (Exit_Error ''Redefinition of macro %s with different substitution.''))"
| "map_call (Undef name) M = Inr (None, M(str_chars name := None))"
| "map_call (Find name) M = Inr (M (str_chars name), M)"

fun map_calls :: "macro_call list \<Rightarrow> (string \<rightharpoonup> macro) \<Rightarrow> (macro option list \<times> (string \<rightharpoonup> macro)) outcome" where
  "map_calls [] M = Inr ([], M)"
| "map_calls (c # cs) M = obind (map_call c M) (\<lambda>(r, M'). obind (map_calls cs M') (\<lambda>(rs, M''). Inr (r # rs, M'')))"

text \<open>A token of a replacement list: a parameter, or a token with a text. No token of a line is a number yet.\<close>

definition repl_token :: "token \<Rightarrow> bool" where
  "repl_token t \<longleftrightarrow> ttype t \<noteq> TK_NUMBER \<and>
     (case tdata t of TVal _ \<Rightarrow> ttype t = TK_PARAM | TStr n \<Rightarrow> ttype t \<noteq> TK_PARAM \<and> wf_string n)"

definition ordinary :: "macro \<Rightarrow> bool" where
  "ordinary m \<longleftrightarrow> wf_string (mac_name m) \<and> \<not> mac_is_file m \<and> \<not> mac_is_line m \<and>
     str_chars (mac_name m) \<notin> {''__FILE__'', ''__LINE__''} \<and> list_all repl_token (mac_replacement m)"

fun ordinary_call :: "macro_call \<Rightarrow> bool" where
  "ordinary_call (Define m) = ordinary m"
| "ordinary_call (Undef name) = wf_string name"
| "ordinary_call (Find name) = wf_string name"

lemma flagged_ordinary: "ordinary m \<Longrightarrow> flagged m = m"
  using str_cmp_eq_iff [OF str_init_wf, of "mac_name m" "''__FILE__''"] str_cmp_eq_iff [OF str_init_wf, of "mac_name m" "''__LINE__''"]
  by (auto simp: ordinary_def flagged_def)

lemma tok_cmp_same: "repl_token a \<Longrightarrow> repl_token b \<Longrightarrow> tok_cmp ts a b = Inr (\<not> same_token a b)"
  using str_cmp_eq_iff
  by (auto simp: repl_token_def tok_cmp_def tok_str_def tok_val_def same_token_def split: token_data.splits)

lemma tokens_cmp_same:
  assumes "length as = length bs" "list_all repl_token as" "list_all repl_token bs"
  shows "tokens_cmp ts as bs = Inr (\<not> list_all2 same_token as bs)"
  using assms by (induction as bs rule: list_induct2) (auto simp: tok_cmp_same)

text \<open>The comparison of the code decides exactly this, for two macros of one name.\<close>

lemma macrocmp_same:
  assumes "ordinary a" "ordinary b" "str_chars (mac_name a) = str_chars (mac_name b)"
  shows "macrocmp ts a b = Inr (\<not> same_macro a b)"
  using assms str_cmp_eq_iff [of "mac_name a" "mac_name b"] list_all2_lengthD
  by (auto simp: macrocmp_def same_macro_def ordinary_def tokens_cmp_same)

lemma same_macro_self: "ordinary m \<Longrightarrow> same_macro m m"
  by (auto simp: same_macro_def same_token_def ordinary_def repl_token_def list_all_iff
      intro!: list_all2_refl split: token_data.splits)

definition map_related :: "'z macro_state_scheme \<Rightarrow> (string \<rightharpoonup> macro) \<Rightarrow> bool" where
  "map_related s M \<longleftrightarrow> macro_inv s \<and> mmap s = M \<and>
     (\<forall>k m. M k = Some m \<longrightarrow> ordinary m \<and> str_chars (mac_name m) = k)"

lemma map_related_find:
  assumes "map_related s M" "wf_string name"
  shows "macro_definition name s = Inr (M (str_chars name), s)"
  using assms macro_definition_map [of s name] by (auto simp: map_related_def ordinary_def)

lemma macro_call_refines:
  assumes "map_related s M" "ordinary_call c"
  shows "case map_call c M of
      Inl e \<Rightarrow> do_call c s = Inl e
    | Inr (r, M') \<Rightarrow> \<exists>t. do_call c s = Inr (r, s\<lparr>mc_table := t\<rparr>) \<and> map_related (s\<lparr>mc_table := t\<rparr>) M'"
proof (cases c)
  case (Define m)
  have m: "ordinary m" "wf_string (mac_name m)" using assms(2) Define by (simp_all add: ordinary_def)
  have inv: "macro_inv s" "mmap s = M" "\<And>k m. M k = Some m \<Longrightarrow> ordinary m \<and> str_chars (mac_name m) = k"
    using assms(1) by (simp_all add: map_related_def)
  let ?ref = "case mmap s (str_chars (mac_name m)) of None \<Rightarrow> m | Some m0 \<Rightarrow> m0"
  have ord: "ordinary ?ref" using m inv by (auto split: option.splits)
  obtain t where t: "define_macro m s =
      (case macrocmp (mc_types s) ?ref m of
         Inl e \<Rightarrow> Inl e
       | Inr True \<Rightarrow> Inl (Exit_Error ''Redefinition of macro %s with different substitution.'')
       | Inr False \<Rightarrow> Inr ((), s\<lparr>mc_table := Some t\<rparr>))"
      "hash_inv macro_hash_key t" "hash_abs macro_hash_key t = M(str_chars (mac_name m) \<mapsto> ?ref)"
    using define_inserts [OF inv(1) m(2) refl] flagged_ordinary [OF ord] inv(2) by auto
  show ?thesis
  proof (cases "M (str_chars (mac_name m))")
    case None
    then have "map_related (s\<lparr>mc_table := Some t\<rparr>) (M(str_chars (mac_name m) \<mapsto> m))"
      using t inv m by (auto simp: map_related_def)
    then show ?thesis
      using None t(1) inv(2) macrocmp_same [OF m(1) m(1)] same_macro_self [OF m(1)] unfolding Define by (auto simp: ebind_def eret_def)
  next
    case (Some m0)
    then have "map_related (s\<lparr>mc_table := Some t\<rparr>) M" using t inv by (auto simp: map_related_def fun_upd_idem)
    then show ?thesis
      using Some t(1) inv(2) macrocmp_same [of m0 m] inv(3) [OF Some] m(1) unfolding Define by (auto simp: ebind_def eret_def)
  qed
next
  case (Undef name)
  then obtain t where t: "undef name s = Inr ((), s\<lparr>mc_table := Some t\<rparr>)" "hash_inv macro_hash_key t"
      "hash_abs macro_hash_key t = M(str_chars name := None)"
    using undef_removes [of s name] assms by (auto simp: map_related_def)
  then have "map_related (s\<lparr>mc_table := Some t\<rparr>) (M(str_chars name := None))"
    using assms(1) by (auto simp: map_related_def)
  then show ?thesis using t(1) unfolding Undef by (auto simp: ebind_def eret_def)
next
  case (Find name)
  then show ?thesis
    using map_related_find [OF assms(1), of name] assms by (auto intro!: exI [of _ "mc_table s"])
qed

lemma calls_refine_map:
  assumes "map_related s M" "list_all ordinary_call cs"
  shows "case map_calls cs M of
      Inl e \<Rightarrow> do_calls cs s = Inl e
    | Inr (rs, M') \<Rightarrow> \<exists>t. do_calls cs s = Inr (rs, s\<lparr>mc_table := t\<rparr>) \<and> map_related (s\<lparr>mc_table := t\<rparr>) M'"
  using assms
proof (induction cs arbitrary: s M)
  case Nil
  then show ?case by (auto simp: eret_def intro!: exI [of _ "mc_table s"])
next
  case (Cons c cs)
  have c: "ordinary_call c" "list_all ordinary_call cs" using Cons.prems by simp_all
  show ?case
  proof (cases "map_call c M")
    case (Inl e)
    then show ?thesis using macro_call_refines [OF Cons.prems(1) c(1)] by (simp add: ebind_def)
  next
    case (Inr p)
    obtain r M' where p: "p = (r, M')" by fastforce
    obtain t where t: "do_call c s = Inr (r, s\<lparr>mc_table := t\<rparr>)" "map_related (s\<lparr>mc_table := t\<rparr>) M'"
      using macro_call_refines [OF Cons.prems(1) c(1)] Inr p by auto
    show ?thesis
      using Cons.IH [OF t(2) c(2)] t(1) Inr p by (auto simp: ebind_def eret_def split: sum.splits)
  qed
qed

lemma macro_reset_empty:
  assumes "mc_table s = None"
  shows "\<exists>t. macro_reset s = Inr ((), s\<lparr>mc_table := Some t\<rparr>) \<and> map_related (s\<lparr>mc_table := Some t\<rparr>) Map.empty"
  using assms hash_init_ok [of HASH_TABLE_BUCKETS macro_hash_key]
  by (auto simp: macro_reset_def map_related_def set_table_def ev_simps HASH_TABLE_BUCKETS_def)

text \<open>
  Property C6. After the table is set up, every sequence of macro definitions, removals
  and queries has the results of the same sequence on a map from names to macros. A name
  can be defined again only by the same macro, one of the same kind and number of
  parameters whose replacement list has the same tokens (\<open>same_macro\<close>); every other
  second definition ends with the error. What the code does not compare is not part of
  \<open>same_macro\<close> either: the names of the parameters, whether the last one is variadic, and
  white space. The names \<open>__FILE__\<close> and \<open>__LINE__\<close>, whose macros change with the position in
  the input, are excluded, and the tokens of a replacement list are preprocessing tokens.
\<close>

theorem macro_table_refines_map:
  assumes "mc_table s = None" "list_all ordinary_call cs"
  shows "case map_calls cs Map.empty of
      Inl e \<Rightarrow> ebind macro_reset (\<lambda>_. do_calls cs) s = Inl e
    | Inr (rs, M) \<Rightarrow> \<exists>s'. ebind macro_reset (\<lambda>_. do_calls cs) s = Inr (rs, s') \<and> mmap s' = M"
proof -
  obtain t where t: "macro_reset s = Inr ((), s\<lparr>mc_table := Some t\<rparr>)" "map_related (s\<lparr>mc_table := Some t\<rparr>) Map.empty"
    using macro_reset_empty [OF assms(1)] by blast
  show ?thesis
    using calls_refine_map [OF t(2) assms(2)] t(1) by (auto simp: ebind_def map_related_def split: sum.splits)
qed

definition start_state :: "nat \<Rightarrow> macro_state" where
  "start_state depth = \<lparr>mc_strtab = strtab_empty, mc_types = empty_types, mc_std = STD_C99, mc_table = None,
     mc_path = str_init ''a.c'', mc_line = 0, mc_stack = depth\<rparr>"

definition object_macro :: "string \<Rightarrow> token list \<Rightarrow> macro" where
  "object_macro name r = zero_macro\<lparr>mac_name := str_init name, mac_replacement := r\<rparr>"

definition ident :: "string \<Rightarrow> token" where
  "ident name = zero_token\<lparr>ttype := TK_IDENTIFIER, is_expandable := True, tdata := TStr (str_init name)\<rparr>"

definition demo_calls :: "macro_call list" where
  "demo_calls = [Define (object_macro ''A'' [ident ''B'']), Define (object_macro ''A'' [ident ''B'']), Find (str_init ''A''),
     Undef (str_init ''A''), Find (str_init ''A'')]"

theorem macro_table_refines_map_witness:
  "\<exists>s'. ebind macro_reset (\<lambda>_. do_calls demo_calls) (start_state 0) =
     Inr ([None, None, Some (object_macro ''A'' [ident ''B'']), None, None], s') \<and> mmap s' = Map.empty"
proof -
  have m: "ordinary (object_macro ''A'' [ident ''B''])"
    by (simp add: ordinary_def object_macro_def zero_macro_def str_init_wf repl_token_def ident_def zero_token_def)
  have n: "mac_name (object_macro ''A'' r) = str_init ''A''" for r by (simp add: object_macro_def)
  have "map_calls demo_calls Map.empty = Inr ([None, None, Some (object_macro ''A'' [ident ''B'']), None, None], Map.empty)"
    using same_macro_self [OF m] by (simp add: demo_calls_def n)
  moreover have "list_all ordinary_call demo_calls" using m by (simp add: demo_calls_def str_init_wf)
  ultimately show ?thesis
    using macro_table_refines_map [of "start_state 0" demo_calls] by (simp add: start_state_def)
qed


section \<open>Expansion of object-like macros\<close>

text \<open>
  The expansion that the standard prescribes where all macros are object-like, for the names \<open>H\<close> that are
  being expanded: such a name is marked and never expanded again.
\<close>

inductive expands :: "(string \<rightharpoonup> macro) \<Rightarrow> string set \<Rightarrow> token list \<Rightarrow> token list \<Rightarrow> bool" where
  Nil: "expands M H [] []"
| Keep: "\<not> is_expandable t \<or> disable_expand t \<or> M (token_text t) = None \<Longrightarrow> expands M H ts out \<Longrightarrow>
    expands M H (t # ts) (t # out)"
| Mark: "is_expandable t \<Longrightarrow> \<not> disable_expand t \<Longrightarrow> M (token_text t) = Some m \<Longrightarrow> token_text t \<in> H \<Longrightarrow>
    expands M H ts out \<Longrightarrow> expands M H (t # ts) (t\<lparr>disable_expand := True\<rparr> # out)"
| Replace: "is_expandable t \<Longrightarrow> \<not> disable_expand t \<Longrightarrow> M (token_text t) = Some m \<Longrightarrow> token_text t \<notin> H \<Longrightarrow>
    expands M (insert (token_text t) H) (mac_replacement m) body \<Longrightarrow> expands M H ts out \<Longrightarrow>
    expands M H (t # ts) (set_whitespace (leading_whitespace t) body @ out)"

inductive_cases expands_NilE: "expands M H [] out"
inductive_cases expands_ConsE: "expands M H (t # ts) out"

text \<open>The relation is a function, and it leaves no name of a macro that is not marked.\<close>

lemma expands_unique: "expands M H ts out \<Longrightarrow> expands M H ts out' \<Longrightarrow> out' = out"
proof (induction arbitrary: out' rule: expands.induct)
  case (Nil M H)
  then show ?case by (auto elim: expands_NilE)
next
  case (Keep t M H ts out)
  from Keep.prems show ?case by (rule expands_ConsE) (use Keep.hyps(1) Keep.IH in simp_all)
next
  case (Mark t M m H ts out)
  from Mark.prems show ?case by (rule expands_ConsE) (use Mark.hyps Mark.IH in simp_all)
next
  case (Replace t M m H body ts out)
  from Replace.prems Replace.hyps(1-4) obtain body' out2
    where b: "out' = set_whitespace (leading_whitespace t) body' @ out2"
      "expands M (insert (token_text t) H) (mac_replacement m) body'" "expands M H ts out2"
    by (auto elim: expands_ConsE)
  then show ?case using Replace.IH(1) [OF b(2)] Replace.IH(2) [OF b(3)] by simp
qed

definition settled :: "(string \<rightharpoonup> macro) \<Rightarrow> token \<Rightarrow> bool" where
  "settled M t \<longleftrightarrow> is_expandable t \<and> \<not> disable_expand t \<longrightarrow> token_text t \<notin> dom M"

lemma settled_update [simp]:
  "settled M (t\<lparr>leading_whitespace := n\<rparr>) = settled M t" "settled M (t\<lparr>disable_expand := True\<rparr>)"
  by (simp_all add: settled_def token_text_def)

lemma expands_settled: "expands M H ts out \<Longrightarrow> list_all (settled M) out"
proof (induction rule: expands.induct)
  case (Keep t M H ts out)
  then show ?case by (auto simp: settled_def)
next
  case (Replace t M m H body ts out)
  then show ?case by (cases body) (auto simp: set_whitespace_def)
qed auto

text \<open>Tokens of lines and replacement lists in which neither operators nor parameters occur.\<close>

definition plain_token :: "token \<Rightarrow> bool" where
  "plain_token t \<longleftrightarrow> ttype t \<notin> {TK_TOKEN_PASTE, TK_HASH, TK_PARAM} \<and>
     (is_expandable t \<longrightarrow> (\<exists>n. tdata t = TStr n \<and> wf_string n))"

definition object_like :: "macro \<Rightarrow> bool" where
  "object_like m \<longleftrightarrow> mac_type m = OBJECT_LIKE \<and> mac_params m = 0 \<and> list_all plain_token (mac_replacement m)"

lemma plain_paste:
  "list_all plain_token r \<Longrightarrow> stringify_and_paste_loop def args list r s = Inr (list @ r, s)"
  by (induction r arbitrary: list) (auto simp: plain_token_def eret_def)

lemma plain_replacement:
  assumes "list_all plain_token (mac_replacement m)"
  shows "expand_stringify_and_paste m args s = Inr (mac_replacement m, s)"
proof -
  have ends: "r \<noteq> [] \<Longrightarrow> list_all plain_token r \<Longrightarrow> ttype (hd r) \<noteq> TK_TOKEN_PASTE \<and> ttype (last r) \<noteq> TK_TOKEN_PASTE" for r
    using hd_in_set [of r] last_in_set [of r] unfolding list_all_iff plain_token_def by blast
  have "r \<noteq> []" if "length r > 2" for r :: "token list" using that by auto
  then show ?thesis
    using ends [OF _ assms] unfolding expand_stringify_and_paste_def Let_def plain_paste [OF assms, of m args "[]" s, unfolded append_Nil]
    by (smt (verit) append_Nil assms plain_paste)
qed

lemma is_expanded_names:
  assumes "\<forall>x \<in> set scope. wf_string x" "wf_string name"
  shows "is_expanded scope name \<longleftrightarrow> str_chars name \<in> str_chars ` set scope"
  using assms str_cmp_eq_iff by (fastforce simp: is_expanded_def list_ex_iff)

lemma finite_macros: "macro_inv s \<Longrightarrow> finite (dom (mmap s))"
proof -
  assume "macro_inv s"
  then obtain t where t: "hash_inv macro_hash_key t" "mmap s = hash_abs macro_hash_key t" by (auto elim: macro_invE)
  have "finite (\<Union>chain \<in> set (htable t). \<Union>e \<in> set chain. set_option (edata e))" by simp
  moreover have "hash_elements t = (\<Union>chain \<in> set (htable t). \<Union>e \<in> set chain. set_option (edata e))"
    by (auto simp: hash_elements_def)
  ultimately have "finite (hash_elements t)" by simp
  moreover have "dom (mmap s) \<subseteq> (\<lambda>m. str_chars (macro_hash_key m)) ` hash_elements t"
  proof
    fix k assume "k \<in> dom (mmap s)"
    then obtain m where m: "hash_abs macro_hash_key t k = Some m" using t(2) by auto
    then show "k \<in> (\<lambda>m. str_chars (macro_hash_key m)) ` hash_elements t"
      using hash_abs_key [OF t(1) m] hash_elements_abs [OF t(1), of m] by auto
  qed
  ultimately show ?thesis using finite_surj by blast
qed

text \<open>A line is expanded as prescribed if every macro in it is.\<close>

lemma expand_line_expands:
  assumes rel: "map_related s M" and obj: "\<forall>m \<in> ran M. object_like m"
    and scope: "\<forall>x \<in> set scope. wf_string x"
    and em: "\<And>m args. m \<in> ran M \<Longrightarrow> str_chars (mac_name m) \<notin> str_chars ` set scope \<Longrightarrow>
      \<exists>body. em (scope @ [mac_name m]) m args s = Inr (body, s) \<and>
        expands M (insert (str_chars (mac_name m)) (str_chars ` set scope)) (mac_replacement m) body"
    and toks: "list_all plain_token list"
  shows "\<exists>out n. expand_line_with em scope list s = Inr ((out, n), s) \<and> expands M (str_chars ` set scope) list out"
  using toks
proof (induction list)
  case Nil
  then show ?case by (auto simp: eret_def intro: expands.Nil)
next
  case (Cons t ts)
  then obtain out n where IH: "expand_line_with em scope ts s = Inr ((out, n), s)" "expands M (str_chars ` set scope) ts out"
    by auto
  show ?case
  proof (cases "is_expandable t \<and> \<not> disable_expand t")
    case False
    then show ?thesis using IH by (auto simp: ebind_def eret_def intro: expands.Keep)
  next
    case True
    then obtain name where name: "tdata t = TStr name" "wf_string name" using Cons.prems by (auto simp: plain_token_def)
    have spell: "token_text t = str_chars name" using name by (simp add: token_text_def)
    have find: "macro_definition name s = Inr (M (str_chars name), s)" using map_related_find [OF rel name(2)] .
    note step = find name(1) True IH(1)
    show ?thesis
    proof (cases "M (str_chars name)")
      case None
      then show ?thesis
        using step IH(2) spell by (auto simp: tok_str_def ev_simps intro: expands.Keep)
    next
      case (Some m)
      have m: "m \<in> ran M" "object_like m" using Some obj by (auto simp: ran_def)
      have key: "str_chars (mac_name m) = str_chars name"
        using hash_abs_key(1) [of macro_hash_key] rel Some by (auto simp: map_related_def macro_hash_key_def elim!: macro_invE)
      show ?thesis
      proof (cases "is_expanded scope name")
        case True
        then show ?thesis
          using step IH(2) spell Some is_expanded_names [OF scope name(2)]
          by (auto simp: tok_str_def ev_simps intro: expands.Mark)
      next
        case False
        then have "str_chars name \<notin> str_chars ` set scope" using is_expanded_names [OF scope name(2)] by blast
        then obtain body where body: "em (scope @ [mac_name m]) m [] s = Inr (body, s)"
            "expands M (insert (str_chars name) (str_chars ` set scope)) (mac_replacement m) body"
          using em [OF m(1), of "[]"] key by auto
        have "expand_line_with em scope (t # ts) s = Inr ((set_whitespace (leading_whitespace t) body @ out, n + 1), s)"
          using step Some False m(2) body(1) by (simp add: tok_str_def ev_simps read_args_def object_like_def)
        moreover have "expands M (str_chars ` set scope) (t # ts) (set_whitespace (leading_whitespace t) body @ out)"
          using True spell Some \<open>str_chars name \<notin> str_chars ` set scope\<close> body(2) IH(2)
          by (intro expands.Replace [of t M m]) auto
        ultimately show ?thesis by blast
      qed
    qed
  qed
qed

text \<open>Every nested expansion adds a name to those being expanded, so their number bounds the depth.\<close>

lemma expand_macro_expands:
  assumes rel: "map_related s M" and obj: "\<forall>m \<in> ran M. object_like m"
    and m: "m \<in> ran M" "str_chars (mac_name m) \<notin> str_chars ` set scope" and scope: "\<forall>x \<in> set scope. wf_string x"
    and depth: "card (dom M - str_chars ` set scope) \<le> d"
  shows "\<exists>body. expand_macro d (scope @ [mac_name m]) m args s = Inr (body, s) \<and>
    expands M (insert (str_chars (mac_name m)) (str_chars ` set scope)) (mac_replacement m) body"
  using m scope depth
proof (induction d arbitrary: m scope args)
  case 0
  have "finite (dom M)" using finite_macros rel by (auto simp: map_related_def)
  moreover have "str_chars (mac_name m) \<in> dom M"
    using "0.prems"(1) rel hash_abs_key(1) [of macro_hash_key]
    by (auto simp: map_related_def ran_def macro_hash_key_def elim!: macro_invE)
  ultimately show ?case using 0 by (simp add: card_eq_0_iff) blast
next
  case (Suc d)
  let ?H = "str_chars ` set scope" and ?scope = "scope @ [mac_name m]"
  have name: "str_chars (mac_name m) \<in> dom M" "wf_string (mac_name m)"
    using Suc.prems(1) rel hash_abs_key [of macro_hash_key]
    by (auto simp: map_related_def ran_def macro_hash_key_def elim!: macro_invE)
  have fin: "finite (dom M)" using finite_macros rel by (auto simp: map_related_def)
  have H: "str_chars ` set ?scope = insert (str_chars (mac_name m)) ?H" by auto
  have "dom M - str_chars ` set ?scope = (dom M - ?H) - {str_chars (mac_name m)}" unfolding H by auto
  then have less: "card (dom M - str_chars ` set ?scope) \<le> d"
    using Suc.prems(2,4) name(1) fin by (simp add: card_Diff_singleton)
  have wf: "\<forall>x \<in> set ?scope. wf_string x" using Suc.prems(3) name(2) by auto
  have ob: "object_like m" using obj Suc.prems(1) by blast
  obtain out n where out: "expand_line_with (expand_macro d) ?scope (mac_replacement m) s = Inr ((out, n), s)"
      "expands M (str_chars ` set ?scope) (mac_replacement m) out"
  proof -
    have "\<exists>out n. expand_line_with (expand_macro d) ?scope (mac_replacement m) s = Inr ((out, n), s) \<and>
        expands M (str_chars ` set ?scope) (mac_replacement m) out"
      by (rule expand_line_expands [OF rel obj wf]) (use Suc.IH [OF _ _ wf less] ob in \<open>auto simp: object_like_def\<close>)
    then show ?thesis using that by blast
  qed
  then show ?case
    using ob plain_replacement [of m args s] unfolding H by (simp add: object_like_def ebind_def eret_def)
qed

text \<open>
  Property C7. Let all macros be object-like, none of them \<open>__FILE__\<close> or \<open>__LINE__\<close>, with neither
  \<open>#\<close> nor \<open>##\<close> in their replacement lists or in the line. If the stack holds as many
  nested expansions as there are macros, the line is expanded without error, exactly as the
  relation \<open>expands\<close> prescribes; in the result no name of a macro is left that is not marked.
  (With \<open>#\<close> in a replacement list the code can end with an error, which the property does not exclude.)
\<close>

theorem expand_object_macros:
  assumes "map_related s M" "\<forall>m \<in> ran M. object_like m" "card (dom M) \<le> mc_stack s" "list_all plain_token list"
  shows "\<exists>out n. expand list s = Inr ((out, n), s) \<and> expands M {} list out \<and> list_all (settled M) out"
proof -
  have "\<exists>out n. expand_line_with (expand_macro (mc_stack s)) [] list s = Inr ((out, n), s) \<and> expands M (str_chars ` set []) list out"
    by (rule expand_line_expands [OF assms(1,2)])
      (use expand_macro_expands [OF assms(1,2), of _ "[]" "mc_stack s"] assms(3,4) in auto)
  then show ?thesis
    using expands_settled by (auto simp: expand_def expand_line_def ebind_def eget_def)
qed


lemma ident_simps [simp]:
  "ttype (ident n) = TK_IDENTIFIER" "is_expandable (ident n)" "\<not> disable_expand (ident n)" "tdata (ident n) = TStr (str_init n)"
  "leading_whitespace (ident n) = 0"
  by (simp_all add: ident_def zero_token_def)

lemma object_macro_simps [simp]:
  "mac_name (object_macro n r) = str_init n" "mac_replacement (object_macro n r) = r" "mac_type (object_macro n r) = OBJECT_LIKE"
  "mac_params (object_macro n r) = 0" "mac_is_vararg (object_macro n r) = False"
  "ordinary (object_macro n r) \<longleftrightarrow> str_chars (str_init n) \<notin> {''__FILE__'', ''__LINE__''} \<and> list_all repl_token r"
  by (auto simp: object_macro_def zero_macro_def ordinary_def str_init_wf)

lemma ident_tokens [simp]: "repl_token (ident n)" "plain_token (ident n)" "token_text (ident n) = str_chars (str_init n)"
  by (simp_all add: repl_token_def plain_token_def str_init_wf token_text_def)

text \<open>Two macros that stand for each other: the first one is left as it is, and marked.\<close>

theorem expand_object_macros_witness:
  "\<exists>s n. ebind macro_reset (\<lambda>_. do_calls [Define (object_macro ''A'' [ident ''B'']), Define (object_macro ''B'' [ident ''A''])])
       (start_state 2) = Inr ([None, None], s) \<and>
     expand [ident ''A''] s = Inr (([(ident ''A'')\<lparr>disable_expand := True\<rparr>], n), s)"
proof -
  let ?M = "[''A'' \<mapsto> object_macro ''A'' [ident ''B''], ''B'' \<mapsto> object_macro ''B'' [ident ''A'']]"
  let ?cs = "[Define (object_macro ''A'' [ident ''B'']), Define (object_macro ''B'' [ident ''A''])]"
  obtain t where t: "macro_reset (start_state 2) = Inr ((), start_state 2\<lparr>mc_table := Some t\<rparr>)"
      "map_related (start_state 2\<lparr>mc_table := Some t\<rparr>) Map.empty"
    using macro_reset_empty [of "start_state 2"] by (auto simp: start_state_def)
  obtain t' where t': "do_calls ?cs (start_state 2\<lparr>mc_table := Some t\<rparr>) = Inr ([None, None], start_state 2\<lparr>mc_table := t'\<rparr>)"
      "map_related (start_state 2\<lparr>mc_table := t'\<rparr>) ?M"
    using calls_refine_map [OF t(2), of ?cs] by auto
  have "\<exists>out n. expand [ident ''A''] (start_state 2\<lparr>mc_table := t'\<rparr>) = Inr ((out, n), start_state 2\<lparr>mc_table := t'\<rparr>) \<and>
      expands ?M {} [ident ''A''] out \<and> list_all (settled ?M) out"
  proof (rule expand_object_macros [OF t'(2)])
    show "\<forall>m \<in> ran ?M. object_like m" by (auto simp: ran_def object_like_def split: if_splits)
    show "card (dom ?M) \<le> mc_stack (start_state 2\<lparr>mc_table := t'\<rparr>)" by (simp add: start_state_def card_insert_if)
  qed simp
  moreover have "expands ?M {} [ident ''A''] (set_whitespace 0 (set_whitespace 0 [(ident ''A'')\<lparr>disable_expand := True\<rparr>] @ []) @ [])"
    using expands.Replace [of "ident ''A''" ?M "object_macro ''A'' [ident ''B'']" "{}"
        "set_whitespace 0 [(ident ''A'')\<lparr>disable_expand := True\<rparr>] @ []" "[]" "[]"]
      expands.Replace [of "ident ''B''" ?M "object_macro ''B'' [ident ''A'']" "{''A''}" "[(ident ''A'')\<lparr>disable_expand := True\<rparr>]" "[]" "[]"]
      expands.Mark [of "ident ''A''" ?M "object_macro ''A'' [ident ''B'']" "{''B'', ''A''}" "[]" "[]"]
    by (simp add: expands.Nil)
  ultimately show ?thesis
    using t(1) t'(1) by (auto simp: ebind_def set_whitespace_def dest: expands_unique)
qed

section \<open>Arguments are expanded without the names around them\<close>

definition call_of :: "string \<Rightarrow> string \<Rightarrow> token list" where
  "call_of f x = [ident f, TOK TK_OPEN_PAREN ''('', ident x, TOK TK_CLOSE_PAREN '')'']"

definition param_token :: "u64 \<Rightarrow> token" where
  "param_token i = zero_token\<lparr>ttype := TK_PARAM, tdata := TVal i\<rparr>"

definition identity_macro :: "string \<Rightarrow> macro" where
  "identity_macro f = zero_macro\<lparr>mac_name := str_init f, mac_type := FUNCTION_LIKE, mac_params := 1,
     mac_replacement := [param_token 0]\<rparr>"

lemma identity_macro_simps [simp]:
  "mac_name (identity_macro f) = str_init f" "mac_replacement (identity_macro f) = [param_token 0]"
  "mac_type (identity_macro f) = FUNCTION_LIKE" "mac_params (identity_macro f) = 1" "\<not> mac_is_vararg (identity_macro f)"
  "ttype (param_token i) = TK_PARAM"
  by (simp_all add: identity_macro_def zero_macro_def param_token_def)

lemma call_of_args:
  assumes "\<not> is_expanded scope (str_init x)"
  shows "read_args scope (identity_macro f) (tl (call_of f x)) = Inr ([[ident x]], 3)"
  using assms
  by (simp add: call_of_def read_args_def read_params.simps [of _ _ 0] TOK_def zero_token_def mark_expanded_def tok_str_def)

text \<open>The call of the identity macro expands its argument first, with no names around it.\<close>

lemma expand_identity_argument:
  assumes "expand_line_with (expand_macro d) [] [ident x] s = Inl e"
  shows "expand_macro (Suc d) scope (identity_macro f) [[ident x]] s = Inl e"
  using assms by (simp add: expand_stringify_and_paste_def ev_simps)

lemma expand_wrapped:
  assumes rel: "map_related s M" and f: "M f = Some (identity_macro f)" and y: "M y = Some (object_macro y (call_of f x))"
    and names: "length f < 65536" "length x < 65536" "length y < 65536" "x \<noteq> y" "f \<noteq> y"
    and arg: "\<And>d'. d' < d \<Longrightarrow> expand_line_with (expand_macro d') [] [ident x] s = Inl Stack_Overflow"
  shows "expand_line_with (expand_macro d) [] [ident y] s = Inl Stack_Overflow"
proof -
  have find: "macro_definition (str_init n) s = Inr (M n, s)" if "length n < 65536" for n
    using map_related_find [OF rel str_init_wf, of n] that by simp
  have cmp: "str_cmp (str_init a) (str_init b) = 0 \<longleftrightarrow> a = b" if "length a < 65536" "length b < 65536" for a b
    using str_cmp_decides_equality [OF that] .
  have obj: "expand_macro d [str_init y] (object_macro y (call_of f x)) [] s = Inl Stack_Overflow"
  proof (cases d)
    case (Suc d1)
    have body: "expand_stringify_and_paste (object_macro y (call_of f x)) [] s = Inr (call_of f x, s)"
      by (rule plain_replacement [of "object_macro y (call_of f x)", simplified])
        (simp add: call_of_def plain_token_def TOK_def zero_token_def str_init_wf)
    have em: "expand_macro d1 [str_init y, str_init f] (identity_macro f) [[ident x]] s = Inl Stack_Overflow"
    proof (cases d1)
      case (Suc d2)
      then show ?thesis using expand_identity_argument [OF arg] \<open>d = Suc d1\<close> by simp
    qed (simp add: efail_def)
    have "expand_line_with (expand_macro d1) [str_init y] (call_of f x) s = Inl Stack_Overflow"
      using em find [OF names(1)] f call_of_args [of "[str_init y]" x f] names cmp
      by (simp add: call_of_def tok_str_def ev_simps is_expanded_def TOK_def)
    then show ?thesis using Suc body by (simp add: ebind_def)
  qed (simp add: efail_def)
  then show ?thesis
    using find [OF names(3)] y by (simp add: tok_str_def ev_simps is_expanded_def read_args_def)
qed

text \<open>
  Property C8. Expansion need not end. Let \<open>A\<close> stand for \<open>h(B)\<close> and \<open>B\<close> for \<open>h(A)\<close>, where \<open>h\<close> is a macro with
  one parameter that stands for its argument. Since the names that are being expanded
  around an argument are forgotten when it is expanded, the expansion of \<open>A\<close> exhausts the stack,
  whatever its size. The standard leaves the inner \<open>A\<close> as it is.
\<close>

theorem argument_expansion_diverges:
  assumes "map_related s M" "M ''h'' = Some (identity_macro ''h'')"
    and "M ''A'' = Some (object_macro ''A'' (call_of ''h'' ''B''))" "M ''B'' = Some (object_macro ''B'' (call_of ''h'' ''A''))"
  shows "expand [ident ''A''] s = Inl Stack_Overflow"
proof -
  have "expand_line_with (expand_macro d) [] [ident ''A''] s = Inl Stack_Overflow \<and>
      expand_line_with (expand_macro d) [] [ident ''B''] s = Inl Stack_Overflow" for d
  proof (induction d rule: less_induct)
    case (less d)
    then show ?case
      using expand_wrapped [OF assms(1,2,3), of d] expand_wrapped [OF assms(1,2,4), of d] by simp
  qed
  then show ?thesis by (simp add: expand_def expand_line_def ebind_def eget_def)
qed

theorem argument_expansion_diverges_witness:
  "\<exists>s. ebind macro_reset (\<lambda>_. do_calls [Define (identity_macro ''h''), Define (object_macro ''A'' (call_of ''h'' ''B'')),
       Define (object_macro ''B'' (call_of ''h'' ''A''))]) (start_state 1000) = Inr ([None, None, None], s) \<and>
     expand [ident ''A''] s = Inl Stack_Overflow"
proof -
  let ?cs = "[Define (identity_macro ''h''), Define (object_macro ''A'' (call_of ''h'' ''B'')),
    Define (object_macro ''B'' (call_of ''h'' ''A''))]"
  obtain t where t: "macro_reset (start_state 1000) = Inr ((), start_state 1000\<lparr>mc_table := Some t\<rparr>)"
      "map_related (start_state 1000\<lparr>mc_table := Some t\<rparr>) Map.empty"
    using macro_reset_empty [of "start_state 1000"] by (auto simp: start_state_def)
  have id: "ordinary (identity_macro ''h'')"
    by (simp add: ordinary_def str_init_wf repl_token_def) (simp add: identity_macro_def zero_macro_def param_token_def)
  have "list_all repl_token (call_of f x)" for f x
    by (simp add: call_of_def) (simp add: repl_token_def TOK_def str_init_wf)
  then obtain t' where t': "do_calls ?cs (start_state 1000\<lparr>mc_table := Some t\<rparr>) = Inr ([None, None, None], start_state 1000\<lparr>mc_table := t'\<rparr>)"
      "map_related (start_state 1000\<lparr>mc_table := t'\<rparr>) [''h'' \<mapsto> identity_macro ''h'', ''A'' \<mapsto> object_macro ''A'' (call_of ''h'' ''B''),
         ''B'' \<mapsto> object_macro ''B'' (call_of ''h'' ''A'')]"
    using calls_refine_map [OF t(2), of ?cs] id by auto
  show ?thesis
    using argument_expansion_diverges [OF t'(2)] t(1) t'(1) by (auto simp: ebind_def)
qed


section \<open>Making strings\<close>

definition literal :: "token \<Rightarrow> bool" where
  "literal t \<longleftrightarrow> ttype t \<in> {TK_STRING, TK_PREP_STRING, TK_PREP_CHAR}"

definition text_token :: "token \<Rightarrow> bool" where
  "text_token t \<longleftrightarrow> ttype t \<notin> {TK_NUMBER, TK_END, TK_NEWLINE, TK_PARAM} \<and> (\<exists>n. tdata t = TStr n \<and> wf_string n) \<and>
     (\<not> literal t \<longrightarrow> CHR 0x5C \<notin> set (token_text t))"

text \<open>How a token is written in the source, and a line with single spaces where it has any.\<close>

definition spelling :: "token \<Rightarrow> string" where
  "spelling t =
     (if ttype t = TK_PREP_STRING \<or> ttype t = TK_STRING then [CHR 0x22] @ token_text t @ [CHR 0x22]
      else if ttype t = TK_PREP_CHAR then [CHR 0x27] @ token_text t @ [CHR 0x27]
      else token_text t)"

fun spaced_texts :: "(token \<Rightarrow> string) \<Rightarrow> bool \<Rightarrow> token list \<Rightarrow> string" where
  "spaced_texts f first [] = []"
| "spaced_texts f first (t # ts) =
     (if \<not> first \<and> leading_whitespace t \<noteq> 0 then '' '' else []) @ f t @ spaced_texts f False ts"

definition escaped :: "token \<Rightarrow> string" where
  "escaped t = (case tdata t of TStr n \<Rightarrow> stringify_text t n | TVal _ \<Rightarrow> [])"

definition decodes :: "string \<Rightarrow> string \<Rightarrow> bool" where
  "decodes a x \<longleftrightarrow> (\<forall>rest. convert_chars (a @ rest) = obind (convert_chars rest) (\<lambda>cs. Inr (x @ cs)))"

lemma decodes_append: "decodes a x \<Longrightarrow> decodes b y \<Longrightarrow> decodes (a @ b) (x @ y)"
  by (simp add: decodes_def obind_assoc)

lemma decodes_Nil [simp]: "decodes [] []"
  by (simp add: decodes_def)

lemma decodes_char: "c \<noteq> CHR 0x5C \<Longrightarrow> decodes [c] [c]"
  unfolding decodes_def by (subst convert_chars.simps) (simp add: convert_char_def ch_def)

lemma decodes_escape: "c = CHR 0x22 \<or> c = CHR 0x5C \<Longrightarrow> decodes [CHR 0x5C, c] [c]"
  unfolding decodes_def by (subst convert_chars.simps) (auto simp: convert_char_def convert_escape_sequence_def ch_def Let_def)

lemma decodes_plain: "CHR 0x5C \<notin> set cs \<Longrightarrow> decodes cs cs"
proof (induction cs)
  case (Cons c cs)
  then show ?case using decodes_append [OF decodes_char, of c cs cs] by auto
qed simp

lemma decodes_escaped: "decodes (str_write_escaped cs) cs"
proof (induction cs)
  case (Cons c cs)
  then show ?case
    using decodes_append [OF decodes_escape, of c _ cs] decodes_append [OF decodes_char, of c _ cs] by simp
qed simp

lemma decodes_token:
  assumes "text_token t"
  shows "decodes (escaped t) (spelling t)"
proof -
  obtain n where n: "tdata t = TStr n" using assms by (auto simp: text_token_def)
  then have spell: "token_text t = str_chars n" by (simp add: token_text_def)
  have q: "decodes ([CHR 0x5C, CHR 0x22] @ str_write_escaped cs @ [CHR 0x5C, CHR 0x22]) ([CHR 0x22] @ cs @ [CHR 0x22])" for cs
    by (intro decodes_append decodes_escape decodes_escaped) simp_all
  have c: "decodes ([CHR 0x27] @ str_write_escaped cs @ [CHR 0x27]) ([CHR 0x27] @ cs @ [CHR 0x27])" for cs
    by (intro decodes_append decodes_char decodes_escaped) simp_all
  show ?thesis
    using q [of "str_chars n"] c [of "str_chars n"] decodes_plain [of "str_chars n"] assms
    unfolding escaped_def spelling_def n spell stringify_text_def text_token_def literal_def by auto
qed

lemma decodes_line: "list_all text_token ts \<Longrightarrow> decodes (spaced_texts escaped first ts) (spaced_texts spelling first ts)"
proof (induction ts arbitrary: first)
  case (Cons t ts)
  have "decodes (if \<not> first \<and> leading_whitespace t \<noteq> 0 then '' '' else []) (if \<not> first \<and> leading_whitespace t \<noteq> 0 then '' '' else [])"
    using decodes_char by simp
  from decodes_append [OF this decodes_append [OF decodes_token Cons.IH]] Cons.prems show ?case by simp
qed simp

text \<open>
  The buffer. The first \<open>k\<close> tokens are written to its first \<open>written list k\<close> bytes. It starts with
  eight bytes for every token; before a token is written there must be room for a space
  and for twice the length of its text, which alone is too little for a string with fewer
  than four characters that need no escape, or a character constant with fewer than two.
\<close>

definition written :: "token list \<Rightarrow> nat \<Rightarrow> nat" where
  "written list k = length (spaced_texts escaped True (take k list))"

definition reserved :: "token list \<Rightarrow> nat \<Rightarrow> nat" where
  "reserved list k = written list k + (if 0 < k \<and> leading_whitespace (list ! k) \<noteq> 0 then 1 else 0) +
     2 * length (token_text (list ! k))"

fun room :: "token list \<Rightarrow> nat \<Rightarrow> nat" where
  "room list 0 = 8 * length list"
| "room list (Suc k) = max (room list k) (reserved list k)"

definition overruns :: "token list \<Rightarrow> bool" where
  "overruns list \<longleftrightarrow> (\<exists>k < length list. written list (Suc k) > room list (Suc k))"

lemma spaced_texts_snoc:
  "spaced_texts f first (xs @ [t]) =
     spaced_texts f first xs @ (if \<not> (first \<and> xs = []) \<and> leading_whitespace t \<noteq> 0 then '' '' else []) @ f t"
  by (induction xs arbitrary: first) auto

lemma stringify_concat_room:
  assumes "text_token t" "list = pre @ t # ts" "t' = (if pre = [] then t\<lparr>leading_whitespace := 0\<rparr> else t)"
    and "cap = room list (length pre)" "buf = spaced_texts escaped True pre"
  shows "stringify_concat cap buf t' =
    (if written list (Suc (length pre)) > room list (Suc (length pre)) then Inl Undefined_Behaviour
     else Inr (room list (Suc (length pre)), spaced_texts escaped True (pre @ [t])))"
proof -
  obtain n where n: "tdata t = TStr n" "wf_string n" "ttype t \<noteq> TK_NUMBER" using assms(1) by (auto simp: text_token_def)
  have len: "unat (slen n) = length (token_text t)" using n length_str_chars by (simp add: token_text_def)
  have w: "written list (length pre) = length buf"
    "written list (Suc (length pre)) = length (spaced_texts escaped True (pre @ [t]))"
    by (simp_all add: written_def assms(2,5) take_Suc_conv_app_nth)
  have r: "room list (Suc (length pre)) =
      max cap (length buf + (if pre \<noteq> [] \<and> leading_whitespace t \<noteq> 0 then 1 else 0) + 2 * length (token_text t))"
    using w(1) by (simp add: assms(2,4) reserved_def)
  have t': "tdata t' = TStr n" "ttype t' = ttype t" "escaped t = stringify_text t' n"
    using n by (auto simp: assms(3) escaped_def stringify_text_def)
  show ?thesis
    unfolding w(2) r spaced_texts_snoc stringify_concat_def
    using n t' len by (auto simp: tok_str_def Let_def assms(3,5) max_def)
qed

text \<open>The loop writes the escaped texts, unless it overruns the buffer.\<close>

lemma stringify_loop_text:
  assumes "list = pre @ ts" "list_all text_token ts" "cap = room list (length pre)" "buf = spaced_texts escaped True pre"
  shows "stringify_loop cap buf (pre = []) ts =
    (if \<exists>k < length list. length pre \<le> k \<and> written list (Suc k) > room list (Suc k) then Inl Undefined_Behaviour
     else Inr (spaced_texts escaped True list))"
  using assms
proof (induction ts arbitrary: pre cap buf)
  case (Cons t ts)
  have t: "text_token t" "ttype t \<noteq> TK_NEWLINE" "ttype t \<noteq> TK_END" "list = (pre @ [t]) @ ts" "list_all text_token ts"
    using Cons.prems by (simp_all, simp_all add: text_token_def)
  have split: "(\<exists>k < length list. length pre \<le> k \<and> P k) \<longleftrightarrow>
      P (length pre) \<or> (\<exists>k < length list. Suc (length pre) \<le> k \<and> P k)" for P
    using t(4) by (metis Suc_leD Suc_leI append_Cons append_Nil append_assoc le_eq_less_or_eq length_append_singleton
        length_append less_add_same_cancel1 length_greater_0_conv list.distinct(1) order_refl Cons.prems(1))
  have c: "stringify_concat cap buf (if pre = [] then t\<lparr>leading_whitespace := 0\<rparr> else t) =
    (if written list (Suc (length pre)) > room list (Suc (length pre)) then Inl Undefined_Behaviour
     else Inr (room list (Suc (length pre)), spaced_texts escaped True (pre @ [t])))"
    by (rule stringify_concat_room [OF t(1) Cons.prems(1) refl Cons.prems(3,4)])
  have IH: "stringify_loop (room list (Suc (length pre))) (spaced_texts escaped True (pre @ [t])) False ts =
    (if \<exists>k < length list. Suc (length pre) \<le> k \<and> written list (Suc k) > room list (Suc k) then Inl Undefined_Behaviour
     else Inr (spaced_texts escaped True list))"
    using Cons.IH [OF t(4,5) refl refl] by simp
  show ?case
    unfolding split stringify_loop.simps(2) c using t IH by auto
qed simp

lemma literal_free_fits: "list_all text_token [t] \<Longrightarrow> \<not> literal t \<Longrightarrow> \<not> overruns [t]"
  by (auto simp: overruns_def written_def reserved_def escaped_def stringify_text_def literal_def text_token_def token_text_def)

lemma last_not_in: "c \<notin> set cs \<Longrightarrow> cs \<noteq> [] \<Longrightarrow> last cs \<noteq> c"
  using last_in_set by blast

lemma escaped_last: "text_token t \<Longrightarrow> escaped t \<noteq> [] \<Longrightarrow> last (escaped t) \<noteq> CHR 0x5C"
  by (auto simp: text_token_def escaped_def stringify_text_def token_text_def literal_def last_not_in split: if_splits)

lemma line_last: "list_all text_token ts \<Longrightarrow> spaced_texts escaped first ts \<noteq> [] \<Longrightarrow> last (spaced_texts escaped first ts) \<noteq> CHR 0x5C"
proof (induction ts arbitrary: first)
  case (Cons t ts)
  then show ?case using escaped_last [of t] by (auto simp: last_append)
qed simp

text \<open>What the parser reads of a string token: the text as it is, or with the escape sequences replaced.\<close>

definition string_value :: "token \<Rightarrow> string outcome" where
  "string_value t = (if ttype t = TK_STRING then Inr (token_text t) else convert_chars (token_text t))"

lemma stringify_whole:
  assumes "strtab_inv (mc_strtab s)" "list_all text_token list" "list = t # ts" "literal t \<or> ttype t = TK_BACKSLASH \<or> ts \<noteq> []"
    and "length (spaced_texts escaped True list) < 65536"
  shows "if overruns list then stringify list s = Inl Undefined_Behaviour
    else \<exists>r s'. stringify list s = Inr (r, s') \<and> ttype r = TK_PREP_STRING \<and> strtab_inv (mc_strtab s') \<and>
      string_value r = Inr (spaced_texts spelling True list)"
proof -
  let ?buf = "spaced_texts escaped True list"
  have t: "ttype t \<noteq> TK_END" "ttype t \<noteq> TK_NUMBER" using assms(2,3) by (auto simp: text_token_def)
  have whole: "ttype t \<in> {TK_BACKSLASH, TK_STRING, TK_PREP_STRING, TK_PREP_CHAR} \<or> ts \<noteq> []"
    using assms(4) by (auto simp: literal_def)
  obtain st r where r: "str_register (mc_strtab s) ?buf (length ?buf) = Inr (st, r)" "strtab_inv st" "str_chars r = ?buf"
    using str_register_ok [OF assms(1,5) order_refl] by auto
  have dec: "convert_chars ?buf = Inr (spaced_texts spelling True list)"
    using decodes_line [OF assms(2), of True] unfolding decodes_def by (metis append_Nil2 convert_chars_Nil obind.simps(2))
  have l: "stringify_loop (length list * 8) [] True list = (if overruns list then Inl Undefined_Behaviour else Inr ?buf)"
    using stringify_loop_text [of list "[]" list, OF _ assms(2) refl refl] by (simp add: overruns_def mult.commute)
  let ?r = "zero_token\<lparr>ttype := TK_PREP_STRING, leading_whitespace := leading_whitespace t, tdata := TStr r\<rparr>"
  have "stringify list s = (if overruns list then Inl Undefined_Behaviour else Inr (?r, s\<lparr>mc_strtab := st\<rparr>))"
    using whole t l r(1) line_last [OF assms(2), of True] unfolding stringify_def assms(3)
    by (auto simp: ev_simps Let_def read_string_def simp del: spaced_texts.simps stringify_loop.simps)
  then show ?thesis using r dec by (simp add: token_text_def string_value_def)
qed

text \<open>
  Property C9. The operator \<open>#\<close> gives a string token that is read as the tokens of its
  argument, as they are written in the source, with single spaces between them. It fails
  exactly when it writes behind the end of its buffer (\<open>overruns\<close>), which can only
  be at a literal. The argument is any list of preprocessing tokens with a text; those that contain a
  backslash outside of a literal are excluded, since the operator does not escape them,
  and so are texts of \<open>65536\<close> characters or more.
\<close>

theorem stringify_reads_back:
  assumes "strtab_inv (mc_strtab s)" "list_all text_token list" "length (spaced_texts escaped True list) < 65536"
  shows "if overruns list then stringify list s = Inl Undefined_Behaviour
    else \<exists>t s'. stringify list s = Inr (t, s') \<and> ttype t \<in> {TK_STRING, TK_PREP_STRING} \<and>
      strtab_inv (mc_strtab s') \<and> string_value t = Inr (spaced_texts spelling True list)"
proof (cases list)
  case Nil
  then show ?thesis
    using assms(1) by (auto simp: stringify_def ev_simps overruns_def string_value_def token_text_def)
next
  case (Cons t ts)
  show ?thesis
  proof (cases "literal t \<or> ttype t = TK_BACKSLASH \<or> ts \<noteq> []")
    case True
    from stringify_whole [OF assms(1,2) Cons True assms(3)] show ?thesis by (auto split: if_splits)
  next
    case False
    obtain n where n: "tdata t = TStr n" "ttype t \<notin> {TK_NUMBER, TK_END, TK_NEWLINE, TK_PARAM}"
      using assms(2) Cons by (auto simp: text_token_def)
    have "\<not> overruns list" using literal_free_fits [of t] False Cons assms(2) by simp
    then show ?thesis
      using False n Cons assms(1)
      by (auto simp: stringify_def ev_simps literal_def tok_str_def string_value_def spelling_def token_text_def)
  qed
qed

definition demo_tokens :: "token list" where
  "demo_tokens = [ident ''a'', (TOK TK_PLUS ''+'')\<lparr>leading_whitespace := 2\<rparr>,
     zero_token\<lparr>ttype := TK_PREP_STRING, tdata := TStr (str_init [CHR 0x5C, CHR ''n''])\<rparr>]"

theorem stringify_reads_back_witness:
  "\<exists>t s'. stringify demo_tokens (start_state 0) = Inr (t, s') \<and>
     string_value t = Inr (''a +'' @ [CHR 0x22, CHR 0x5C, CHR ''n'', CHR 0x22])"
proof -
  have t: "list_all text_token demo_tokens"
    by (simp add: demo_tokens_def text_token_def literal_def str_init_wf token_text_def TOK_def)
  have v: "spaced_texts spelling True demo_tokens = ''a +'' @ [CHR 0x22, CHR 0x5C, CHR ''n'', CHR 0x22]"
    "spaced_texts escaped True demo_tokens =
      ''a +'' @ [CHR 0x5C, CHR 0x22, CHR 0x5C, CHR 0x5C, CHR ''n'', CHR 0x5C, CHR 0x22]"
    by (simp_all add: demo_tokens_def spelling_def escaped_def stringify_text_def token_text_def TOK_def zero_token_def)
  have "\<not> overruns demo_tokens"
  proof -
    have "written demo_tokens (Suc k) \<le> length (spaced_texts escaped True demo_tokens)" for k
      by (simp add: written_def demo_tokens_def take_Cons' split: nat.splits)
    then have "written demo_tokens (Suc k) \<le> 24" for k by (rule order_trans) (simp add: v(2))
    moreover have "24 \<le> room demo_tokens k" for k by (induction k) (simp_all add: demo_tokens_def)
    ultimately show ?thesis unfolding overruns_def by (meson leD le_trans)
  qed
  then show ?thesis
    using stringify_reads_back [of "start_state 0" demo_tokens] t v by (auto simp: start_state_def)
qed

text \<open>A string of three or more backslashes is escaped behind the end of the buffer.\<close>

lemma str_write_escaped_backslashes: "length (str_write_escaped (replicate k (CHR 0x5C))) = 2 * k"
  by (induction k) simp_all

lemma stringify_overflows:
  assumes "ttype t = TK_PREP_STRING" "tdata t = TStr n" "wf_string n" "str_chars n = replicate k (CHR 0x5C)" "3 \<le> k"
  shows "stringify [t] s = Inl Undefined_Behaviour"
proof -
  have "unat (slen n) = k" using length_str_chars [OF assms(3)] assms(4) by simp
  then have "stringify_concat 8 [] (t\<lparr>leading_whitespace := 0\<rparr>) = Inl Undefined_Behaviour"
    using assms by (simp add: stringify_concat_def tok_str_def stringify_text_def str_write_escaped_backslashes Let_def)
  then show ?thesis using assms(1) by (simp add: stringify_def ev_simps)
qed

text \<open>An argument too many is accepted if it is empty.\<close>

lemma extra_comma_accepted:
  "read_args [] (identity_macro ''f'') [TOK TK_OPEN_PAREN ''('', ident ''x'', TOK TK_COMMA '','', TOK TK_CLOSE_PAREN '')''] =
     Inr ([[ident ''x'']], 4)"
  by (simp add: read_args_def read_params.simps [of _ _ 0] read_params.simps [of _ _ "Suc 0"] TOK_def zero_token_def mark_expanded_def
      tok_str_def is_expanded_def)

end
