(* ===== verification/Input.thy ===== *)
theory Input
  imports Macro
begin

text \<open>
  Reading source lines, \<open>src/preprocessor/input.c\<close>: a buffer is filled from a file and cut into
  lines, in which continued lines are joined, comments replaced by a space and trigraphs by
  the character they stand for. The stack of files and the conditional blocks are part
  of the state. Files are the strings that the host has for their names.
  Diagnostics that do not end the program have no effect.
\<close>

section \<open>Comments, trigraphs and literals\<close>

text \<open>
  The text of a buffer includes the character that ends it, a zero byte as a rule; reading behind this
  character is undefined. Positions are the rest of the text, and results are
  numbers of characters read, where 0 means that the text ends too early.
\<close>

abbreviation (input) NL :: char where "NL \<equiv> CHR 0x0A"
abbreviation (input) CR :: char where "CR \<equiv> CHR 0x0D"
abbreviation (input) NUL :: char where "NUL \<equiv> CHR 0x00"
abbreviation (input) BACKSLASH :: char where "BACKSLASH \<equiv> CHR 0x5C"
abbreviation (input) DQUOTE :: char where "DQUOTE \<equiv> CHR 0x22"
abbreviation (input) SQUOTE :: char where "SQUOTE \<equiv> CHR 0x27"

fun splices :: "string \<Rightarrow> nat" where
  "splices (c # d # r) = (if c = BACKSLASH \<and> d = NL then Suc (splices r) else 0)"
| "splices _ = 0"

function read_comment :: "string \<Rightarrow> nat \<Rightarrow> nat \<Rightarrow> (nat \<times> nat) outcome" where
  "read_comment [] k lines = Inl Undefined_Behaviour"
| "read_comment (c # r) k lines =
     (if c = CHR ''*'' then
        let n = splices r; r' = drop (2 * n) r in
        case r' of
          [] \<Rightarrow> Inl Undefined_Behaviour
        | d # _ \<Rightarrow> if d = CHR ''/'' then Inr (k + 1 + 2 * n + 1, lines + n) else read_comment r' (k + 1 + 2 * n) (lines + n)
      else if c = NUL then Inr (0, lines)
      else read_comment r (k + 1) (if c = NL then lines + 1 else lines))"
  by pat_completeness auto
termination
  by (relation "measure (\<lambda>(e, k, lines). length e)") (auto dest: arg_cong [of _ _ length])

fun read_line_comment :: "string \<Rightarrow> nat \<Rightarrow> nat \<Rightarrow> (nat \<times> nat) outcome" where
  "read_line_comment [] k lines = Inl Undefined_Behaviour"
| "read_line_comment (c # r) k lines =
     (if c = BACKSLASH then
        (case r of
           [] \<Rightarrow> Inl Undefined_Behaviour
         | d # r' \<Rightarrow> if d = NL then read_line_comment r' (k + 2) (lines + 1) else read_line_comment (d # r') (k + 1) lines)
      else if c = NL then Inr (k + 1, lines)
      else if c = NUL then Inr (0, lines)
      else read_line_comment r (k + 1) lines)"

definition read_trigraph :: "char \<Rightarrow> char option" where
  "read_trigraph c =
     (if c = CHR ''='' then Some (CHR ''#'')
      else if c = CHR ''('' then Some (CHR ''['')
      else if c = CHR ''/'' then Some BACKSLASH
      else if c = CHR '')'' then Some (CHR '']'')
      else if c = SQUOTE then Some (CHR 0x5E)
      else if c = CHR ''<'' then Some (CHR ''{'')
      else if c = CHR ''!'' then Some (CHR ''|'')
      else if c = CHR ''>'' then Some (CHR ''}'')
      else if c = CHR ''-'' then Some (CHR ''~'')
      else None)"

text \<open>The trigraph at a question mark, given the text behind it.\<close>

definition trigraph_at :: "string \<Rightarrow> char option outcome" where
  "trigraph_at r =
     (case r of
        [] \<Rightarrow> Inl Undefined_Behaviour
      | d # r1 \<Rightarrow>
          if d = CHR ''?'' then (case r1 of [] \<Rightarrow> Inl Undefined_Behaviour | x # _ \<Rightarrow> Inr (read_trigraph x))
          else Inr None)"

text \<open>
  A literal behind its opening quote \<open>q\<close>. What was written to the line so far is kept in reverse, so that its head
  is the character before the position.
\<close>

function read_literal_loop :: "char \<Rightarrow> string \<Rightarrow> nat \<Rightarrow> string \<Rightarrow> nat \<Rightarrow> (nat \<times> string \<times> nat) outcome" where
  "read_literal_loop q [] k out lines = Inl Undefined_Behaviour"
| "read_literal_loop q (c # r) k out lines =
     (if c = NUL then Inr (0, out, lines)
      else if c = NL then
        if out \<noteq> [] \<and> hd out = BACKSLASH then read_literal_loop q r (k + 1) (tl out) (lines + 1)
        else Inl (Exit_Error ''Unexpected newline in literal.'')
      else if c = CHR ''?'' then
        obind (trigraph_at r) (\<lambda>t.
          case t of
            Some x \<Rightarrow> read_literal_loop q (drop 2 r) (k + 3) (x # out) lines
          | None \<Rightarrow> read_literal_loop q r (k + 1) (c # out) lines)
      else if c = q \<and> even (length (takeWhile (\<lambda>x. x = BACKSLASH) out)) then Inr (k + 1, c # out, lines)
      else read_literal_loop q r (k + 1) (c # out) lines)"
  by pat_completeness auto
termination
  by (relation "measure (\<lambda>(q, e, k, out, lines). length e)") auto

definition read_literal :: "string \<Rightarrow> string \<Rightarrow> nat \<Rightarrow> (nat \<times> string \<times> nat) outcome" where
  "read_literal e out lines =
     (case e of
        [] \<Rightarrow> Inl Undefined_Behaviour
      | q # r \<Rightarrow> obind (oassert (q = DQUOTE \<or> q = SQUOTE)) (\<lambda>_. read_literal_loop q r 1 (q # out) lines))"

section \<open>Lines\<close>

text \<open>
  The number of characters that a backslash and the end of line behind it take, 0 where there is none.
\<close>

definition continuation :: "string \<Rightarrow> nat outcome" where
  "continuation r =
     (case r of
        [] \<Rightarrow> Inl Undefined_Behaviour
      | d # r1 \<Rightarrow>
          if d = CR then
            (case r1 of [] \<Rightarrow> Inl Undefined_Behaviour | x # _ \<Rightarrow> Inr (if x = NL then 3 else 2))
          else if d = NL then Inr 2
          else Inr 0)"

text \<open>
  The loop of \<open>read_line\<close>. The result is the number of characters read, the line, and the number of physical lines it
  takes; it is missing if the first \<open>len\<close> characters contain no complete line.
\<close>

type_synonym read_result = "(nat \<times> string \<times> nat) option outcome"

function read_line_loop :: "nat \<Rightarrow> string \<Rightarrow> nat \<Rightarrow> string \<Rightarrow> nat \<Rightarrow> read_result" where
  "read_line_loop len [] k out lines = (if k < len then Inl Undefined_Behaviour else Inr None)"
| "read_line_loop len (c # r) k out lines =
     (if \<not> k < len then Inr None
      else if c = NL then Inr (Some (k + 1, rev out, lines + 1))
      else if c = BACKSLASH then
        obind (continuation r) (\<lambda>n.
          if n = 0 then read_line_loop len r (k + 1) (c # out) lines
          else read_line_loop len (drop (n - 1) r) (k + n) out (lines + 1))
      else if c = CHR ''?'' then
        obind (trigraph_at r) (\<lambda>t.
          case t of
            Some x \<Rightarrow> read_line_loop len (drop 2 r) (k + 3) (x # out) lines
          | None \<Rightarrow> read_line_loop len r (k + 1) (c # out) lines)
      else if c = SQUOTE \<or> c = DQUOTE then
        obind (read_literal (c # r) out lines) (\<lambda>(n, out', lines').
          if n = 0 then Inr None else read_line_loop len (drop (n - 1) r) (k + n) out' lines')
      else if c = CHR ''/'' \<and> out \<noteq> [] \<and> hd out = CHR ''/'' then
        obind (read_line_comment r 0 lines) (\<lambda>(n, lines').
          if n = 0 then Inr None else Inr (Some (k + n + 1, rev (tl out), lines' + 1)))
      else if c = CHR ''*'' \<and> out \<noteq> [] \<and> hd out = CHR ''/'' then
        obind (read_comment r 0 lines) (\<lambda>(n, lines').
          if n = 0 then Inr None else read_line_loop len (drop n r) (k + n + 1) (CHR '' '' # tl out) lines')
      else read_line_loop len r (k + 1) (c # out) lines)"
  by pat_completeness auto
termination
  by (relation "measure (\<lambda>(len, e, k, out, lines). length e)") auto

text \<open>
  The line is returned as a list here. The buffer that the code writes it to, with its capacity, is the
  subject of the theory Line_Buffer, whose version of the loop has this result.
\<close>

definition read_line :: "string \<Rightarrow> nat \<Rightarrow> read_result" where
  "read_line e len = read_line_loop len e 0 [] 0"

section \<open>Files\<close>

definition FILE_BUFFER_SIZE :: nat where
  "FILE_BUFFER_SIZE = 4096"

text \<open>
  A file that is being read: what is left of it and whether its end was met; the capacity of the buffer, the number of
  characters in it that were processed and that are valid; and the contents of the buffer, with the
  character that ends them.
\<close>

record source =
  so_file :: string
  so_eof :: bool
  so_buffer :: string
  so_size :: nat
  so_processed :: nat
  so_read :: nat
  so_path :: c_string
  so_dirlen :: nat
  so_line :: int
  so_is_string_stream :: bool

definition fread :: "nat \<Rightarrow> source \<Rightarrow> string \<times> source" where
  "fread n fn = (take n (so_file fn), fn\<lparr>so_file := drop n (so_file fn), so_eof := so_eof fn \<or> length (so_file fn) < n\<rparr>)"

text \<open>Filling the buffer, behind the characters that it holds if nothing was processed.\<close>

definition fill_buffer :: "source \<Rightarrow> source outcome" where
  "fill_buffer fn =
     (let keep = (if so_processed fn = 0 then take (so_read fn) (so_buffer fn) else []) in
      if so_size fn < length keep + 2 then Inl Undefined_Behaviour
      else
        let (new, fn') = fread (so_size fn - length keep - 2) fn; buf = keep @ new in
        Inr (fn'\<lparr>so_buffer := buf @ [NUL], so_read := length buf, so_processed := 0\<rparr>))"

text \<open>At the end of the file a newline is added to the text of a string; a file without one gets it behind the valid characters.\<close>

definition end_buffer :: "source \<Rightarrow> source" where
  "end_buffer fn =
     (let text = take (so_read fn) (so_buffer fn) in
      if so_is_string_stream fn then fn\<lparr>so_buffer := text @ [NL, NUL], so_read := so_read fn + 1\<rparr>
      else if last text \<noteq> NL then fn\<lparr>so_buffer := text @ [NL]\<rparr>
      else fn)"

text \<open>One turn of the loop: no more lines, the next line, or the state in which the loop is repeated.\<close>

datatype line_turn = No_Line source | A_Line source string | Again source

definition take_line :: "source \<Rightarrow> line_turn outcome" where
  "take_line fn =
     obind (oassert (so_processed fn < so_read fn)) (\<lambda>_.
     obind (read_line (drop (so_processed fn) (so_buffer fn)) (so_read fn - so_processed fn)) (\<lambda>r.
       case r of
         Some (n, line, lines) \<Rightarrow> Inr (A_Line (fn\<lparr>so_processed := so_processed fn + n, so_line := so_line fn + int lines\<rparr>) line)
       | None \<Rightarrow>
           if so_processed fn = 0 then Inr (Again (fn\<lparr>so_size := so_size fn + FILE_BUFFER_SIZE\<rparr>))
           else
             Inr (Again (fn\<lparr>so_buffer := take (so_read fn - so_processed fn) (drop (so_processed fn) (so_buffer fn)),
               so_read := so_read fn - so_processed fn, so_processed := 0\<rparr>))))"

definition line_turn :: "source \<Rightarrow> line_turn outcome" where
  "line_turn fn =
     (if so_processed fn = so_read fn \<or> so_processed fn = 0 then
        if so_eof fn then
          if \<not> so_is_string_stream fn \<and> so_read fn > so_processed fn
          then Inl (Exit_Error ''Unable to process the whole input.'')
          else Inr (No_Line fn)
        else
          obind (fill_buffer fn) (\<lambda>fn'.
            if so_eof fn' then
              if so_read fn' = 0 then Inr (No_Line fn') else take_line (end_buffer fn')
            else take_line fn')
      else take_line fn)"

text \<open>What decreases when the loop is repeated: what may still be read, and whether the buffer must be moved or grow first.\<close>

definition unread :: "source \<Rightarrow> nat" where
  "unread fn = (if so_eof fn then 0 else Suc (length (so_file fn)))"

definition buffer_work :: "source \<Rightarrow> nat" where
  "buffer_work fn = (if so_processed fn > 0 then 2 else if so_size fn \<le> so_read fn + 2 then 1 else 0)"

lemma fread_unread:
  assumes "fread n fn = (new, fn')" "\<not> so_eof fn"
  shows "unread fn' \<le> unread fn" "n > 0 \<Longrightarrow> unread fn' < unread fn"
  using assms by (auto simp: fread_def unread_def)

lemma take_line_again:
  assumes "take_line fn = Inr (Again fn')"
  shows "unread fn' = unread fn" "so_processed fn' = 0" "so_processed fn = 0 \<Longrightarrow> so_read fn' = so_read fn \<and> so_size fn' = so_size fn + FILE_BUFFER_SIZE"
  using assms by (auto simp: take_line_def outcome_simps unread_def split: option.splits if_splits prod.splits)

lemma line_turn_again:
  assumes "line_turn fn = Inr (Again fn')"
  shows "unread fn' < unread fn \<or> unread fn' = unread fn \<and> buffer_work fn' < buffer_work fn"
proof (cases "so_processed fn = so_read fn \<or> so_processed fn = 0")
  case True
  then obtain f1 where f1: "\<not> so_eof fn" "fill_buffer fn = Inr f1"
      "take_line (if so_eof f1 then end_buffer f1 else f1) = Inr (Again fn')"
    using assms by (auto simp: line_turn_def outcome_simps split: if_splits)
  define keep where "keep = (if so_processed fn = 0 then take (so_read fn) (so_buffer fn) else [])"
  define n where "n = so_size fn - length keep - 2"
  obtain new f0 where f0: "fread n fn = (new, f0)" by fastforce
  have size: "length keep + 2 \<le> so_size fn" using f1(2) by (auto simp: fill_buffer_def keep_def Let_def split: if_splits)
  have e1: "f1 = f0\<lparr>so_buffer := (keep @ new) @ [NUL], so_read := length (keep @ new), so_processed := 0\<rparr>"
    using f1(2) f0 size by (simp add: fill_buffer_def keep_def [symmetric] n_def Let_def)
  have u1: "unread f1 = unread f0" using e1 by (simp add: unread_def)
  have p: "so_processed f1 = 0" using e1 by simp
  show ?thesis
  proof (cases "n > 0")
    case True
    have "unread fn' = unread f1"
      using take_line_again(1) [OF f1(3)] by (simp add: unread_def end_buffer_def Let_def split: if_splits)
    then show ?thesis using fread_unread(2) [OF f0 f1(1) True] u1 by simp
  next
    case False
    then have new: "new = []" "f0 = fn\<lparr>so_file := so_file fn, so_eof := so_eof fn\<rparr>" using f0 by (auto simp: fread_def)
    then have ne: "\<not> so_eof f1" "so_read f1 = length keep" "so_size f1 = so_size fn" using e1 f1(1) by simp_all
    have fin: "so_read fn' = length keep" "so_size fn' = so_size fn + FILE_BUFFER_SIZE" "so_processed fn' = 0" "unread fn' = unread f1"
      using take_line_again [OF f1(3)] p ne by simp_all
    have "buffer_work fn' = 0" using fin size False by (simp add: buffer_work_def n_def FILE_BUFFER_SIZE_def)
    moreover have "buffer_work fn > 0"
      using size False True by (auto simp: buffer_work_def n_def keep_def split: if_splits)
    ultimately show ?thesis using fin(4) u1 fread_unread(1) [OF f0 f1(1)] by (cases "unread f0 = unread fn") auto
  qed
next
  case False
  then have "take_line fn = Inr (Again fn')" using assms by (simp add: line_turn_def)
  then show ?thesis using take_line_again [of fn fn'] False by (simp add: buffer_work_def)
qed

text \<open>The assertion on the buffer itself holds, since a source always has one.\<close>

function initial_preprocess_lines :: "source \<Rightarrow> (source \<times> string option) outcome" where
  "initial_preprocess_lines fn =
     (case line_turn fn of
        Inl e \<Rightarrow> Inl e
      | Inr (No_Line fn') \<Rightarrow> Inr (fn', None)
      | Inr (A_Line fn' line) \<Rightarrow> Inr (fn', Some line)
      | Inr (Again fn') \<Rightarrow> initial_preprocess_lines fn')"
  by pat_completeness auto
termination
  by (relation "measures [unread, buffer_work]") (use line_turn_again in auto)

declare initial_preprocess_lines.simps [simp del]

definition initial_preprocess_line :: "source \<Rightarrow> (source \<times> string option) outcome" where
  "initial_preprocess_line fn =
     obind (oassert (so_processed fn \<le> so_read fn)) (\<lambda>_.
     obind (oassert (so_read fn < so_size fn)) (\<lambda>_. initial_preprocess_lines fn))"


section \<open>Progress\<close>

text \<open>What is left of a file, in the file and in the buffer; a string may still get a newline.\<close>

definition pending :: "source \<Rightarrow> nat" where
  "pending fn = length (so_file fn) + (so_read fn - so_processed fn) + (if so_eof fn then 0 else 2)"

lemma read_line_loop_progress: "read_line_loop len e k out lines = Inr (Some (n, line, m)) \<Longrightarrow> k < n"
proof (induction len e k out lines rule: read_line_loop.induct)
  case (2 len c r k out lines)
  show ?case
  proof (cases "k < len \<and> c \<noteq> NL")
    case False
    then show ?thesis using "2.prems" by (auto split: if_splits)
  next
    case True
    then show ?thesis
      using "2.prems" "2.IH"
      by (simp add: outcome_simps split: if_splits option.splits prod.splits) (fastforce dest: Suc_lessD)+
  qed
qed (auto split: if_splits)

lemma take_line_pending:
  assumes "take_line fn = Inr t"
  shows "case t of No_Line _ \<Rightarrow> True | A_Line fn' _ \<Rightarrow> pending fn' < pending fn | Again fn' \<Rightarrow> pending fn' \<le> pending fn"
proof -
  have p: "so_processed fn < so_read fn" using assms by (auto simp: take_line_def outcome_simps)
  obtain r where r: "read_line (drop (so_processed fn) (so_buffer fn)) (so_read fn - so_processed fn) = Inr r"
    using assms by (auto simp: take_line_def outcome_simps)
  show ?thesis
  proof (cases r)
    case None
    then show ?thesis using assms p r by (auto simp: take_line_def pending_def split: if_splits)
  next
    case (Some x)
    obtain n line m where x: "x = (n, line, m)" by (cases x)
    have "0 < n" using r Some x read_line_loop_progress unfolding read_line_def by blast
    then show ?thesis using assms p r Some x by (auto simp: take_line_def pending_def)
  qed
qed

lemma fill_buffer_pending:
  assumes "fill_buffer fn = Inr fn'" "\<not> so_eof fn" "so_processed fn = so_read fn \<or> so_processed fn = 0"
  shows "pending (if so_eof fn' then end_buffer fn' else fn') \<le> pending fn"
proof -
  have "length (so_file fn') + so_read fn' \<le> length (so_file fn) + (so_read fn - so_processed fn)" "so_processed fn' = 0"
    using assms(1,3) by (auto simp: fill_buffer_def fread_def Let_def split: if_splits)
  then show ?thesis using assms(2) by (auto simp: pending_def end_buffer_def Let_def)
qed

lemma line_turn_pending:
  assumes "line_turn fn = Inr t"
  shows "case t of No_Line _ \<Rightarrow> True | A_Line fn' _ \<Rightarrow> pending fn' < pending fn | Again fn' \<Rightarrow> pending fn' \<le> pending fn"
proof (cases "so_processed fn = so_read fn \<or> so_processed fn = 0")
  case True
  show ?thesis
  proof (cases "\<exists>fn'. t = No_Line fn'")
    case False
    then obtain f1 where f1: "\<not> so_eof fn" "fill_buffer fn = Inr f1" "take_line (if so_eof f1 then end_buffer f1 else f1) = Inr t"
      using assms True by (auto simp: line_turn_def outcome_simps split: if_splits)
    show ?thesis
      using take_line_pending [OF f1(3)] fill_buffer_pending [OF f1(2,1) True] by (auto split: line_turn.splits)
  qed auto
next
  case False
  then show ?thesis using assms take_line_pending by (simp add: line_turn_def)
qed

lemma initial_preprocess_lines_pending:
  "initial_preprocess_lines fn = Inr (fn', Some line) \<Longrightarrow> pending fn' < pending fn"
proof (induction fn rule: initial_preprocess_lines.induct)
  case (1 fn)
  obtain t where t: "line_turn fn = Inr t" using "1.prems" by (subst (asm) initial_preprocess_lines.simps) (auto split: sum.splits)
  note t' = line_turn_pending [OF t]
  show ?case
  proof (cases t)
    case (Again f1)
    then have "initial_preprocess_lines f1 = Inr (fn', Some line)" using "1.prems" t by (subst (asm) initial_preprocess_lines.simps) simp
    then show ?thesis using "1.IH" [OF t Again] t' Again by simp
  qed (use "1.prems" t t' in \<open>subst (asm) initial_preprocess_lines.simps, simp\<close>)+
qed

lemma initial_preprocess_line_pending:
  "initial_preprocess_line fn = Inr (fn', Some line) \<Longrightarrow> pending fn' < pending fn"
  using initial_preprocess_lines_pending by (auto simp: initial_preprocess_line_def outcome_simps)


section \<open>The stack of files\<close>

text \<open>The states of conditional blocks, from \<open>directive.c\<close>.\<close>

datatype branch = BRANCH_LIVE | BRANCH_DISABLED | BRANCH_DEAD

text \<open>
  Both stacks have their top first. The files of the host and its standard input do not change.
\<close>

record input_state = macro_state +
  in_search :: "string list"
  in_sources :: "source list"
  in_stale :: bool
  in_branches :: "branch list"
  in_files :: "string \<Rightarrow> string option"
  in_stdin :: string

type_synonym ('z, 'a) inp = "('z input_state_scheme, 'a) sm"

definition in_active_block :: "'z input_state_scheme \<Rightarrow> bool" where
  "in_active_block s = (case in_branches s of [] \<Rightarrow> True | b # _ \<Rightarrow> b = BRANCH_LIVE)"

definition current_file :: "('z, source) inp" where
  "current_file s = (case in_sources s of [] \<Rightarrow> Inl Assert_Failed | f # _ \<Rightarrow> Inr (f, s))"

definition zero_source :: source where
  "zero_source = \<lparr>so_file = [], so_eof = False, so_buffer = [], so_size = 0, so_processed = 0, so_read = 0,
     so_path = zero_string, so_dirlen = 0, so_line = 0, so_is_string_stream = False\<rparr>"

text \<open>That the file could be opened is checked by the callers.\<close>

definition push_file :: "source \<Rightarrow> ('z, unit) inp" where
  "push_file f =
     ebind (eassert (slen (so_path f) \<noteq> 0)) (\<lambda>_.
       emodify (\<lambda>s. s\<lparr>mc_line := 0, mc_path := so_path f, in_sources := f\<lparr>so_size := FILE_BUFFER_SIZE\<rparr> # in_sources s\<rparr>))"

text \<open>Whether another file is left.\<close>

definition pop_file :: "('z, bool) inp" where
  "pop_file s =
     (case in_sources s of [] \<Rightarrow> Inr (False, s) | f # rest \<Rightarrow> Inr (rest \<noteq> [], s\<lparr>in_sources := rest\<rparr>))"

definition input_finalize :: "('z, unit) inp" where
  "input_finalize = emodify (\<lambda>s. s\<lparr>in_sources := [], in_search := []\<rparr>)"

text \<open>The position of the last slash, or else of the last backslash.\<close>

definition strrchr :: "string \<Rightarrow> char \<Rightarrow> nat option" where
  "strrchr str c = (if c \<in> set str then Some (length str - 1 - length (takeWhile (\<lambda>x. x \<noteq> c) (rev str))) else None)"

definition path_separator :: "string \<Rightarrow> nat option" where
  "path_separator path = (case strrchr path (CHR ''/'') of Some i \<Rightarrow> Some i | None \<Rightarrow> strrchr path BACKSLASH)"

definition path_dirlen :: "string \<Rightarrow> nat" where
  "path_dirlen path = (case path_separator path of Some i \<Rightarrow> i | None \<Rightarrow> 0)"

definition create_path :: "string \<Rightarrow> nat \<Rightarrow> string \<Rightarrow> string" where
  "create_path path dirlen name = take dirlen path @ ''/'' @ name"

definition open_source :: "string \<Rightarrow> string \<Rightarrow> ('z, source) inp" where
  "open_source path text =
     ebind (read_string path) (\<lambda>r. eret (zero_source\<lparr>so_file := text, so_path := r, so_dirlen := path_dirlen path\<rparr>))"

text \<open>A search path without its final slashes; it must have other characters.\<close>

definition search_dirlen :: "string \<Rightarrow> nat outcome" where
  "search_dirlen path =
     (if path = [] then Inl Undefined_Behaviour
      else
        let n = length path - length (takeWhile (\<lambda>c. c = CHR ''/'') (rev path)) in
        obind (oassert (n > 0)) (\<lambda>_. Inr n))"

fun include_from :: "string list \<Rightarrow> string \<Rightarrow> ('z, unit) inp" where
  "include_from [] name = eerror ''Unable to resolve include file %s.''"
| "include_from (p # ps) name =
     ebind (olift (search_dirlen p)) (\<lambda>dirlen.
     ebind (eget (\<lambda>s. in_files s (create_path p dirlen name))) (\<lambda>f.
       case f of
         Some text \<Rightarrow> ebind (open_source (create_path p dirlen name) text) push_file
       | None \<Rightarrow> include_from ps name))"

definition include_system_file :: "string \<Rightarrow> ('z, unit) inp" where
  "include_system_file name = ebind (eget in_search) (\<lambda>ps. include_from ps name)"

definition include_file :: "string \<Rightarrow> ('z, unit) inp" where
  "include_file name =
     ebind current_file (\<lambda>file.
       let path = (if so_dirlen file \<noteq> 0 \<and> take 1 name \<noteq> ''/''
                   then create_path (str_raw (so_path file)) (so_dirlen file) name else name) in
       ebind (eget (\<lambda>s. in_files s path)) (\<lambda>f.
         case f of
           Some text \<Rightarrow> ebind (open_source path text) push_file
         | None \<Rightarrow> include_system_file name))"

definition add_include_search_path :: "string \<Rightarrow> ('z, unit) inp" where
  "add_include_search_path path = emodify (\<lambda>s. s\<lparr>in_search := in_search s @ [path]\<rparr>)"

text \<open>The files that are still open are closed first. A text instead of a path is read as a file.\<close>

definition set_input_file :: "string option \<Rightarrow> bool \<Rightarrow> ('z, unit) inp" where
  "set_input_file path is_string_stream =
     ebind (emodify (\<lambda>s. s\<lparr>in_sources := []\<rparr>)) (\<lambda>_.
       case path of
         Some p \<Rightarrow>
           if is_string_stream then
             push_file (zero_source\<lparr>so_path := str_init ''<string-stream>'', so_file := p, so_is_string_stream := True\<rparr>)
           else
             ebind (eget (\<lambda>s. in_files s p)) (\<lambda>f.
               case f of
                 Some text \<Rightarrow>
                   push_file (zero_source\<lparr>so_path := str_init p, so_file := text,
                     so_dirlen := (case path_separator p of Some i \<Rightarrow> i | None \<Rightarrow> 0)\<rparr>)
               | None \<Rightarrow> eerror ''Unable to open file %s.'')
       | None \<Rightarrow> ebind (eget in_stdin) (\<lambda>text. push_file (zero_source\<lparr>so_path := str_init ''<stdin>'', so_file := text\<rparr>)))"

section \<open>The next line\<close>

definition is_directive :: "string \<Rightarrow> bool" where
  "is_directive line = (ch (dropWhile (\<lambda>c. c = CHR '' '' \<or> c = CHR 0x09) line) = CHR ''#'')"

definition total_pending :: "'z input_state_scheme \<Rightarrow> nat" where
  "total_pending s = sum_list (map (\<lambda>f. Suc (pending f)) (in_sources s))"

text \<open>
  Lines in blocks that are not active are skipped unless they are directives. Where a file ends inside such a block,
  the missing line is examined as well.
\<close>

function getprepline :: "('z, string option) inp" where
  "getprepline s =
     (case in_sources s of
        [] \<Rightarrow> Inr (None, s)
      | f # rest \<Rightarrow>
          case initial_preprocess_line f of
            Inl e \<Rightarrow> Inl e
          | Inr (f', line) \<Rightarrow>
              let s1 = (if in_stale s then s\<lparr>mc_path := so_path f, mc_line := so_line f, in_stale := False\<rparr> else s);
                  s2 = s1\<lparr>in_sources := f' # rest, mc_line := mc_line s1 + (so_line f' - so_line f)\<rparr>
              in case line of
                   None \<Rightarrow>
                     let s3 = s2\<lparr>in_stale := True, in_sources := rest\<rparr> in
                     if rest = [] then Inr (None, s3)
                     else if \<not> in_active_block s3 then Inl Undefined_Behaviour
                     else getprepline s3
                 | Some l \<Rightarrow> if \<not> in_active_block s2 \<and> \<not> is_directive l then getprepline s2 else Inr (Some l, s2))"
  by pat_completeness auto
termination
  by (relation "measure total_pending")
    (auto simp: total_pending_def dest: initial_preprocess_line_pending)

declare getprepline.simps [simp del]

end
