(* ===== verification/Input_Correct.thy ===== *)
theory Input_Correct
  imports Input
begin

text \<open>
  Correctness of reading lines: what is read from a full buffer does not depend on what follows it, so the
  lines of a file are the same whatever part of it the buffer holds.
\<close>

section \<open>Reading a part of the text\<close>

text \<open>
  The text \<open>a\<close> is a part of \<open>a @ b\<close>, both followed by a zero byte. Every scanner gives the same result on both, or meets the
  end of the part.
\<close>

lemma splices_part:
  "splices (a @ [NUL]) = splices (a @ b @ [NUL]) \<or> drop (2 * splices (a @ [NUL])) a \<in> {[], [BACKSLASH]}"
  by (induction a rule: splices.induct) (auto, cases b, auto)

lemma splices_le: "2 * splices (a @ [NUL]) \<le> length a"
  by (induction a rule: splices.induct) auto

lemma read_comment_part:
  assumes "NUL \<notin> set a"
  shows "(\<exists>m. read_comment (a @ [NUL]) k lines = Inr (0, m)) \<or>
    read_comment (a @ [NUL]) k lines = read_comment (a @ b @ [NUL]) k lines"
  using assms
proof (induction "length a" arbitrary: a k lines rule: less_induct)
  case less
  show ?case
  proof (cases a)
    case (Cons c r)
    have r: "NUL \<notin> set r" using less.prems Cons by simp
    show ?thesis
    proof (cases "c = CHR ''*''")
      case False
      then show ?thesis
        using less.hyps [of r "k + 1" "if c = NL then lines + 1 else lines"] less.prems Cons by auto
    next
      case True
      let ?n = "splices (r @ [NUL])"
      have n: "2 * ?n \<le> length r" by (rule splices_le)
      let ?a = "drop (2 * ?n) r"
      have a: "NUL \<notin> set ?a" "length ?a < length a" using r Cons by (auto dest: in_set_dropD)
      from splices_part [of r b] show ?thesis
      proof
        assume same: "?n = splices (r @ b @ [NUL])"
        show ?thesis
        proof (cases ?a)
          case Nil
          then have "read_comment (a @ [NUL]) k lines = Inr (0, lines + ?n)"
            using True Cons n by (simp add: Let_def)
          then show ?thesis by blast
        next
          case (Cons d a')
          then show ?thesis
            using less.hyps [OF a(2,1), of "k + 1 + 2 * ?n" "lines + ?n"] True \<open>a = c # r\<close> n same by (simp add: Let_def)
        qed
      next
        assume "?a \<in> {[], [BACKSLASH]}"
        then have "read_comment (a @ [NUL]) k lines = Inr (0, lines + ?n)" using True Cons n by (auto simp: Let_def)
        then show ?thesis by blast
      qed
    qed
  qed simp
qed

lemma read_line_comment_part:
  assumes "NUL \<notin> set a"
  shows "(\<exists>m. read_line_comment (a @ [NUL]) k lines = Inr (0, m)) \<or>
    read_line_comment (a @ [NUL]) k lines = read_line_comment (a @ b @ [NUL]) k lines"
  using assms
proof (induction a k lines rule: read_line_comment.induct)
  case (2 c r k lines)
  show ?case
  proof (cases "c = BACKSLASH")
    case True
    then show ?thesis using 2 by (cases r) auto
  next
    case False
    then show ?thesis using 2 by auto
  qed
qed auto

lemma read_literal_part:
  assumes "NUL \<notin> set a"
  shows "(\<exists>out' m. read_literal_loop q (a @ [NUL]) k out lines = Inr (0, out', m)) \<or>
    read_literal_loop q (a @ [NUL]) k out lines = read_literal_loop q (a @ b @ [NUL]) k out lines"
  using assms
proof (induction q a k out lines rule: read_literal_loop.induct)
  case (2 q c r k out lines)
  show ?case
  proof (cases "c = CHR ''?''")
    case True
    consider "r = []" | "r = ''?''" | d r1 where "r = d # r1" "d \<noteq> CHR ''?''" | x r2 where "r = CHR ''?'' # x # r2"
      by (metis list.exhaust)
    then show ?thesis
    proof cases
      case 3
      then show ?thesis using 2 True by (auto simp: trigraph_at_def)
    next
      case 4
      then show ?thesis using 2 True by (cases "read_trigraph x") (auto simp: trigraph_at_def)
    qed (use True in \<open>auto simp: trigraph_at_def read_trigraph_def\<close>)
  next
    case False
    then show ?thesis using 2 by auto
  qed
qed auto


lemma continuation_part:
  assumes "NUL \<notin> set a"
  shows "continuation (a @ [NUL]) = continuation (a @ b @ [NUL]) \<or> a = [] \<or> a = [CR]"
  using assms by (cases a rule: splices.cases) (auto simp: continuation_def)

lemma trigraph_part: "trigraph_at (a @ [NUL]) = trigraph_at (a @ b @ [NUL]) \<or> a = [] \<or> a = ''?''"
  by (cases a rule: splices.cases) (auto simp: trigraph_at_def)

lemma read_line_loop_end [simp]: "read_line_loop k [NUL] k out lines = Inr None"
  by simp

lemma read_literal_quote:
  "q = SQUOTE \<or> q = DQUOTE \<Longrightarrow> read_literal (q # r) out lines = read_literal_loop q r 1 (q # out) lines"
  by (auto simp: read_literal_def outcome_simps)

text \<open>The results of the scanners stay within the part where they do not meet its end.\<close>

lemma read_comment_le: "NUL \<notin> set a \<Longrightarrow> read_comment (a @ [NUL]) k lines = Inr (n, m) \<Longrightarrow> n \<noteq> 0 \<Longrightarrow> k < n \<and> n \<le> k + length a"
proof (induction "length a" arbitrary: a k lines rule: less_induct)
  case less
  show ?case
  proof (cases a)
    case (Cons c r)
    let ?n = "splices (r @ [NUL])" and ?a = "drop (2 * splices (r @ [NUL])) r"
    have n: "2 * ?n \<le> length r" by (rule splices_le)
    have a: "NUL \<notin> set ?a" "length ?a < length a" using less.prems(1) Cons by (auto dest: in_set_dropD)
    have r: "NUL \<notin> set r" "length r < length a" using less.prems(1) Cons by auto
    show ?thesis
    proof (cases "c = CHR ''*''")
      case True
      show ?thesis
      proof (cases ?a)
        case Nil
        then show ?thesis using less.prems True Cons n by (simp add: Let_def)
      next
        case (Cons d a')
        have "?n * 2 + length ?a = length r" using n by simp
        then show ?thesis
          using less.prems less.hyps [OF a(2,1), of "k + 1 + 2 * ?n" "lines + ?n"] True \<open>a = c # r\<close> n Cons
          by (auto simp: Let_def split: if_splits)
      qed
    next
      case False
      then show ?thesis
        using less.prems less.hyps [OF r(2,1), of "k + 1" "if c = NL then lines + 1 else lines"] Cons by auto
    qed
  qed (use less.prems in auto)
qed

lemma read_literal_le:
  "NUL \<notin> set a \<Longrightarrow> read_literal_loop q (a @ [NUL]) k out lines = Inr (n, out', m) \<Longrightarrow> n \<noteq> 0 \<Longrightarrow> k < n \<and> n \<le> k + length a"
proof (induction q a k out lines rule: read_literal_loop.induct)
  case (2 q c r k out lines)
  show ?case
  proof (cases "c = CHR ''?''")
    case True
    consider "r = []" | "r = ''?''" | d r1 where "r = d # r1" "d \<noteq> CHR ''?''" | x r2 where "r = CHR ''?'' # x # r2"
      by (metis list.exhaust)
    then show ?thesis
    proof cases
      case 3
      then show ?thesis using 2 True by (auto simp: trigraph_at_def)
    next
      case 4
      then show ?thesis using 2 True by (cases "read_trigraph x") (auto simp: trigraph_at_def)
    qed (use True "2.prems" in \<open>auto simp: trigraph_at_def read_trigraph_def\<close>)
  next
    case False
    then show ?thesis using 2 by (auto split: if_splits)
  qed
qed auto

lemma continuation_le:
  assumes "r \<noteq> []" "r \<noteq> [CR]"
  shows "\<exists>n. continuation (r @ [NUL]) = Inr n \<and> n \<le> Suc (length r)"
  using assms by (cases r rule: splices.cases) (simp_all add: continuation_def)

lemma trigraph_le:
  assumes "r \<noteq> []"
  shows "\<exists>t. trigraph_at (r @ [NUL]) = Inr t \<and> (t \<noteq> None \<longrightarrow> 2 \<le> length r)"
  using assms by (cases r rule: splices.cases) (auto simp: trigraph_at_def read_trigraph_def)

lemma read_line_loop_part:
  assumes "NUL \<notin> set a"
  shows "read_line_loop (k + length a) (a @ [NUL]) k out lines = Inr None \<or>
    read_line_loop (k + length a) (a @ [NUL]) k out lines = read_line_loop (k + length (a @ b)) (a @ b @ [NUL]) k out lines"
  using assms
proof (induction "length a" arbitrary: a k out lines rule: less_induct)
  case less
  show ?case
  proof (cases a)
    case (Cons c r)
    have r: "NUL \<notin> set r" using less.prems Cons by simp
    define len len' where len: "len = k + length a" "len' = k + length (a @ b)"
    have k: "k < len" "k < len'" using Cons by (simp_all add: len)
    have step: "read_line_loop len (drop j r @ [NUL]) (Suc (k + j)) out' lines' = Inr None \<or>
        read_line_loop len (drop j r @ [NUL]) (Suc (k + j)) out' lines' = read_line_loop len' (drop j r @ b @ [NUL]) (Suc (k + j)) out' lines'"
      if "j \<le> length r" for j out' lines'
    proof -
      have "NUL \<notin> set (drop j r)" using r by (blast dest: in_set_dropD)
      then show ?thesis using less.hyps [of "drop j r" "Suc (k + j)" out' lines'] that Cons by (auto simp: len)
    qed
    have "read_line_loop len (a @ [NUL]) k out lines = Inr None \<or>
      read_line_loop len (a @ [NUL]) k out lines = read_line_loop len' (a @ b @ [NUL]) k out lines"
    proof -
      consider "c = NL" | "c = BACKSLASH" | "c = CHR ''?''" | "c = SQUOTE \<or> c = DQUOTE"
        | "c = CHR ''/''" "out \<noteq> []" "hd out = CHR ''/''" | "c = CHR ''*''" "out \<noteq> []" "hd out = CHR ''/''"
        | "c \<notin> {NL, BACKSLASH, CHR ''?'', SQUOTE, DQUOTE}" "\<not> (c \<in> {CHR ''/'', CHR ''*''} \<and> out \<noteq> [] \<and> hd out = CHR ''/'')"
        by blast
      then show ?thesis
      proof cases
        case 2
        from continuation_part [OF r, of b] consider "continuation (r @ [NUL]) = continuation (r @ b @ [NUL])" "r \<noteq> []" "r \<noteq> [CR]"
          | "r = []" | "r = [CR]" by blast
        then show ?thesis
        proof cases
          case 1
          obtain n where "continuation (r @ [NUL]) = Inr n" "n \<le> Suc (length r)" using continuation_le 1 by blast
          then show ?thesis using step [of 0 "c # out" lines] step [of "n - 1" out "lines + 1"] k 1 2 Cons by (auto simp: outcome_simps)
        qed (use 2 Cons k in \<open>auto simp: continuation_def outcome_simps len\<close>)
      next
        case 3
        from trigraph_part [of r b] consider "trigraph_at (r @ [NUL]) = trigraph_at (r @ b @ [NUL])" "r \<noteq> []" "r \<noteq> ''?''"
          | "r = []" | "r = ''?''" by blast
        then show ?thesis
        proof cases
          case 1
          obtain t where t: "trigraph_at (r @ [NUL]) = Inr t" "t \<noteq> None \<Longrightarrow> 2 \<le> length r" using trigraph_le 1 by blast
          show ?thesis
          proof (cases t)
            case None
            then show ?thesis using step [of 0 "c # out" lines] t k 1 3 Cons by (auto simp: outcome_simps)
          next
            case (Some x)
            then show ?thesis using step [of 2 "x # out" lines] t k 1 3 Cons by (auto simp: outcome_simps eval_nat_numeral)
          qed
        qed (use 3 Cons k in \<open>auto simp: trigraph_at_def read_trigraph_def outcome_simps len\<close>)
      next
        case 4
        show ?thesis
        proof (cases "read_literal_loop c (r @ [NUL]) 1 (c # out) lines")
          case (Inl e)
          then have "read_literal_loop c (r @ b @ [NUL]) 1 (c # out) lines = Inl e"
            using read_literal_part [OF r, of c 1 "c # out" lines b] by auto
          then show ?thesis using Inl 4 k Cons by (auto simp: read_literal_quote)
        next
          case (Inr x)
          obtain n out' m where x: "x = (n, out', m)" by (cases x)
          show ?thesis
          proof (cases "n = 0")
            case True
            then show ?thesis using 4 k Cons Inr x by (auto simp: read_literal_quote)
          next
            case False
            then have "read_literal_loop c (r @ b @ [NUL]) 1 (c # out) lines = Inr (n, out', m)"
              using read_literal_part [OF r, of c 1 "c # out" lines b] Inr x by auto
            moreover have "1 < n" "n \<le> 1 + length r" using read_literal_le [OF r, of c 1 "c # out" lines n out' m] Inr x False by auto
            ultimately show ?thesis using step [of "n - 1" out' m] 4 k Cons Inr x by (auto simp: read_literal_quote)
          qed
        qed
      next
        case 5
        then show ?thesis using read_line_comment_part [OF r, of 0 lines b] k Cons by (auto simp: outcome_simps)
      next
        case 6
        show ?thesis
        proof (cases "read_comment (r @ [NUL]) 0 lines")
          case (Inl e)
          then have "read_comment (r @ b @ [NUL]) 0 lines = Inl e" using read_comment_part [OF r, of 0 lines b] by auto
          then show ?thesis using Inl 6 k Cons by auto
        next
          case (Inr x)
          obtain n m where x: "x = (n, m)" by (cases x)
          show ?thesis
          proof (cases "n = 0")
            case True
            then show ?thesis using 6 k Cons Inr x by auto
          next
            case False
            then have "read_comment (r @ b @ [NUL]) 0 lines = Inr (n, m)"
              using read_comment_part [OF r, of 0 lines b] Inr x by auto
            moreover have "n \<le> length r" using read_comment_le [OF r, of 0 lines n m] Inr x False by auto
            ultimately show ?thesis using step [of n "CHR '' '' # tl out" m] 6 k Cons Inr x by auto
          qed
        qed
      next
        case 7
        then show ?thesis using step [of 0 "c # out" lines] k Cons by auto
      qed (use k Cons in simp)
    qed
    then show ?thesis by (simp add: len)
  qed simp
qed

section \<open>The lines of a file\<close>

text \<open>
  What a source has still to give, the rest of its buffer and of its file, and the states that occur between two lines. The
  buffer ends with a zero byte while there are characters to process in it, and at the end of the file a part
  that is left over has no complete line.
\<close>

definition remaining :: "source \<Rightarrow> string" where
  "remaining fn = drop (so_processed fn) (take (so_read fn) (so_buffer fn)) @ so_file fn"

definition source_text :: "string \<Rightarrow> bool" where
  "source_text text \<longleftrightarrow> NUL \<notin> set text \<and> (text \<noteq> [] \<longrightarrow> last text = NL)"

definition source_inv :: "source \<Rightarrow> bool" where
  "source_inv fn \<longleftrightarrow> \<not> so_is_string_stream fn \<and> so_processed fn \<le> so_read fn \<and> so_read fn \<le> length (so_buffer fn) \<and>
     so_read fn + 2 \<le> so_size fn \<and> FILE_BUFFER_SIZE \<le> so_size fn \<and> source_text (remaining fn) \<and> (so_eof fn \<longrightarrow> so_file fn = [])"

definition buffer_ends :: "source \<Rightarrow> bool" where
  "buffer_ends fn \<longleftrightarrow> so_buffer fn = take (so_read fn) (so_buffer fn) @ [NUL]"

definition source_ok :: "source \<Rightarrow> bool" where
  "source_ok fn \<longleftrightarrow> source_inv fn \<and> (0 < so_processed fn \<and> so_processed fn < so_read fn \<longrightarrow> buffer_ends fn) \<and>
     (so_eof fn \<and> so_processed fn = 0 \<longrightarrow> read_line (remaining fn @ [NUL]) (length (remaining fn)) = Inr None)"

lemma source_text_drop [intro]: "source_text text \<Longrightarrow> source_text (drop n text)"
  by (auto simp: source_text_def dest: in_set_dropD)

lemma read_line_part:
  assumes "NUL \<notin> set a" "read_line (a @ [NUL]) (length a) = r" "r \<noteq> Inr None"
  shows "read_line (a @ b @ [NUL]) (length (a @ b)) = r"
  using read_line_loop_part [OF assms(1), of 0 "[]" 0 b] assms(2,3) by (simp add: read_line_def)

lemma read_line_comment_le:
  "NUL \<notin> set a \<Longrightarrow> read_line_comment (a @ [NUL]) k lines = Inr (n, m) \<Longrightarrow> n \<noteq> 0 \<Longrightarrow> n \<le> k + length a"
proof (induction a k lines rule: read_line_comment.induct)
  case (2 c r k lines)
  show ?case
  proof (cases "c = BACKSLASH")
    case True
    then show ?thesis using 2 by (cases r) (auto split: if_splits)
  next
    case False
    then show ?thesis using 2 by (auto split: if_splits)
  qed
qed auto

lemma continuation_bound: "continuation (r @ [NUL]) = Inr n \<Longrightarrow> n - 1 \<le> length r"
  by (cases r rule: splices.cases) (auto simp: continuation_def split: if_splits)

lemma trigraph_bound: "trigraph_at (r @ [NUL]) = Inr (Some x) \<Longrightarrow> 2 \<le> length r"
  by (cases r rule: splices.cases) (auto simp: trigraph_at_def read_trigraph_def split: if_splits)

lemma read_line_loop_le:
  assumes "NUL \<notin> set a" "read_line_loop (k + length a) (a @ [NUL]) k out lines = Inr (Some (n, line, m))"
  shows "n \<le> k + length a"
  using assms
proof (induction "length a" arbitrary: a k out lines rule: less_induct)
  case less
  show ?case
  proof (cases a)
    case (Cons c r)
    have r: "NUL \<notin> set r" using less.prems Cons by simp
    define len where len: "len = k + length a"
    have step: "n \<le> len" if "j \<le> length r" "read_line_loop len (drop j r @ [NUL]) (Suc (k + j)) out' lines' = Inr (Some (n, line, m))" for j out' lines'
    proof -
      have "NUL \<notin> set (drop j r)" using r by (blast dest: in_set_dropD)
      then show ?thesis using less.hyps [of "drop j r" "Suc (k + j)" out' lines'] that Cons by (simp add: len)
    qed
    consider "c = NL" | "c = BACKSLASH" | "c = CHR ''?''" | "c = SQUOTE \<or> c = DQUOTE"
      | "c = CHR ''/''" "out \<noteq> []" "hd out = CHR ''/''" | "c = CHR ''*''" "out \<noteq> []" "hd out = CHR ''/''"
      | "c \<notin> {NL, BACKSLASH, CHR ''?'', SQUOTE, DQUOTE}" "\<not> (c \<in> {CHR ''/'', CHR ''*''} \<and> out \<noteq> [] \<and> hd out = CHR ''/'')"
      by blast
    then show ?thesis
    proof cases
      case 2
      have l: "read_line_loop len (BACKSLASH # r @ [NUL]) k out lines = Inr (Some (n, line, m))" "k < len" using less.prems 2 Cons by (simp_all add: len)
      then obtain i where i: "continuation (r @ [NUL]) = Inr i" by (auto simp: outcome_simps)
      show ?thesis
        using step [of 0 "BACKSLASH # out" lines] step [of "i - 1" out "lines + 1"] continuation_bound [OF i] i l
        by (cases "i = 0") (auto simp: len)
    next
      case 3
      have l: "read_line_loop len (CHR ''?'' # r @ [NUL]) k out lines = Inr (Some (n, line, m))" "k < len" using less.prems 3 Cons by (simp_all add: len)
      then obtain t where t: "trigraph_at (r @ [NUL]) = Inr t" by (auto simp: outcome_simps)
      show ?thesis
      proof (cases t)
        case None
        then show ?thesis using step [of 0 "CHR ''?'' # out" lines] t l by (auto simp: len)
      next
        case (Some x)
        then show ?thesis using step [of 2 "x # out" lines] trigraph_bound [of r x] t l by (auto simp: len eval_nat_numeral)
      qed
    next
      case 4
      have l: "read_line_loop len (c # r @ [NUL]) k out lines = Inr (Some (n, line, m))" "k < len" using less.prems Cons by (simp_all add: len)
      then obtain i out' m' where i: "read_literal_loop c (r @ [NUL]) 1 (c # out) lines = Inr (i, out', m')" "i \<noteq> 0"
        using 4 by (auto simp: outcome_simps read_literal_quote split: if_splits)
      show ?thesis using step [of "i - 1" out' m'] read_literal_le [OF r i] 4 l i by (auto simp: read_literal_quote len)
    next
      case 5
      then show ?thesis using less.prems Cons read_line_comment_le [OF r, of 0 lines] by (auto simp: outcome_simps split: if_splits)
    next
      case 6
      have l: "read_line_loop len (CHR ''*'' # r @ [NUL]) k out lines = Inr (Some (n, line, m))" "k < len" using less.prems 6 Cons by (simp_all add: len)
      then obtain i m' where i: "read_comment (r @ [NUL]) 0 lines = Inr (i, m')" "i \<noteq> 0"
        using 6 by (auto simp: outcome_simps split: if_splits)
      show ?thesis using step [of i "CHR '' '' # tl out" m'] read_comment_le [OF r i] 6 l i by (auto simp: len)
    next
      case 7
      then show ?thesis using less.prems Cons step [of 0 "c # out" lines] by (auto simp: len)
    qed (use less.prems Cons in simp)
  qed (use less.prems in simp)
qed

text \<open>The next line that the source should give, or the error.\<close>

definition next_line :: "source \<Rightarrow> read_result" where
  "next_line fn = read_line (remaining fn @ [NUL]) (length (remaining fn))"

lemma take_line_next:
  assumes "source_inv fn" "buffer_ends fn" "so_processed fn < so_read fn"
  shows "case take_line fn of
      Inl e \<Rightarrow> next_line fn = Inl e
    | Inr (No_Line fn') \<Rightarrow> False
    | Inr (A_Line fn' line) \<Rightarrow> \<exists>n m. next_line fn = Inr (Some (n, line, m)) \<and> source_ok fn' \<and>
        remaining fn' = drop n (remaining fn) \<and> so_line fn' = so_line fn + int m
    | Inr (Again fn') \<Rightarrow> source_ok fn' \<and> remaining fn' = remaining fn \<and> so_line fn' = so_line fn"
proof -
  define a where "a = drop (so_processed fn) (take (so_read fn) (so_buffer fn))"
  have rem: "remaining fn = a @ so_file fn" by (simp add: remaining_def a_def)
  have buf: "drop (so_processed fn) (so_buffer fn) = a @ [NUL]" "length a = so_read fn - so_processed fn"
    using assms unfolding source_inv_def buffer_ends_def a_def by (metis drop_append append_Nil2 diff_is_0_eq drop0 length_take less_imp_le min.absorb2, simp)
  have nul: "NUL \<notin> set a" using assms(1) rem by (simp add: source_inv_def source_text_def)
  let ?r = "read_line (a @ [NUL]) (length a)"
  have turn: "take_line fn = obind ?r (\<lambda>r. case r of
         Some (n, line, lines) \<Rightarrow> Inr (A_Line (fn\<lparr>so_processed := so_processed fn + n, so_line := so_line fn + int lines\<rparr>) line)
       | None \<Rightarrow>
           if so_processed fn = 0 then Inr (Again (fn\<lparr>so_size := so_size fn + FILE_BUFFER_SIZE\<rparr>))
           else Inr (Again (fn\<lparr>so_buffer := a, so_read := length a, so_processed := 0\<rparr>)))"
    unfolding take_line_def buf(1) buf(2) [symmetric] using assms(3) by (cases ?r) (auto split: option.splits)
  consider e where "?r = Inl e" | "?r = Inr None" | n line m where "?r = Inr (Some (n, line, m))"
    by (cases ?r) (auto simp: not_None_eq [symmetric] simp del: not_None_eq, metis option.exhaust prod_cases3)
  then show ?thesis
  proof cases
    case 1
    then show ?thesis using read_line_part [OF nul, of _ "so_file fn"] turn by (simp add: next_line_def rem)
  next
    case 2
    have "remaining (fn\<lparr>so_size := so_size fn + FILE_BUFFER_SIZE\<rparr>) = remaining fn" by (simp add: remaining_def)
    moreover have "remaining (fn\<lparr>so_buffer := a, so_read := length a, so_processed := 0\<rparr>) = remaining fn" by (simp add: remaining_def a_def)
    ultimately show ?thesis
      using 2 turn assms buf by (auto simp: source_ok_def source_inv_def rem)
  next
    case 3
    have n: "n \<le> length a" using read_line_loop_le [OF nul, of 0 "[]" 0 n line m] 3 by (simp add: read_line_def)
    have "0 < n" using 3 read_line_loop_progress unfolding read_line_def by blast
    define fn' where "fn' = fn\<lparr>so_processed := so_processed fn + n, so_line := so_line fn + int m\<rparr>"
    have rem': "remaining fn' = drop n (remaining fn)" using n by (simp add: remaining_def fn'_def a_def buf add.commute)
    have "source_ok fn'"
      using assms n buf(2) rem' \<open>0 < n\<close> by (auto simp: source_ok_def source_inv_def fn'_def buffer_ends_def)
    then show ?thesis
      using 3 read_line_part [OF nul 3, of "so_file fn"] turn rem' by (simp add: next_line_def rem fn'_def)
  qed
qed

text \<open>What one turn of the loop gives is the next line, or a state with the same text.\<close>

lemma fill_buffer_ok:
  assumes "source_inv fn" "\<not> so_eof fn" "so_processed fn = so_read fn \<or> so_processed fn = 0"
  shows "\<exists>fn'. fill_buffer fn = Inr fn' \<and> source_inv fn' \<and> buffer_ends fn' \<and> so_processed fn' = 0 \<and>
    remaining fn' = remaining fn \<and> so_line fn' = so_line fn \<and> (so_read fn' = 0 \<longrightarrow> so_eof fn' \<and> remaining fn = [])"
proof -
  define keep where "keep = (if so_processed fn = 0 then take (so_read fn) (so_buffer fn) else [])"
  define n where "n = so_size fn - length keep - 2"
  define new where "new = take n (so_file fn)"
  define fn' where "fn' = fn\<lparr>so_file := drop n (so_file fn), so_eof := length (so_file fn) < n, so_buffer := (keep @ new) @ [NUL],
    so_read := length (keep @ new), so_processed := 0\<rparr>"
  have keep: "length keep + 2 \<le> so_size fn" "remaining fn = keep @ so_file fn"
    using assms by (auto simp: keep_def source_inv_def remaining_def)
  then have "fill_buffer fn = Inr fn'"
    using assms(2) by (simp add: fill_buffer_def fread_def keep_def [symmetric] fn'_def n_def new_def Let_def)
  moreover have "remaining fn' = keep @ new @ drop n (so_file fn)" by (simp add: remaining_def fn'_def)
  then have rem: "remaining fn' = remaining fn" by (simp add: new_def keep(2))
  moreover have "source_inv fn'" using assms(1) rem keep(1) by (auto simp: source_inv_def fn'_def new_def n_def)
  moreover have "buffer_ends fn'" by (simp add: buffer_ends_def fn'_def)
  moreover have "so_eof fn' \<and> remaining fn = []" if "so_read fn' = 0"
  proof -
    have "keep = []" "new = []" using that by (simp_all add: fn'_def)
    moreover have "n > 0" using \<open>keep = []\<close> assms(1) by (simp add: n_def source_inv_def FILE_BUFFER_SIZE_def)
    ultimately show ?thesis using keep(2) by (simp add: new_def fn'_def)
  qed
  moreover have "so_processed fn' = 0" "so_line fn' = so_line fn" by (simp_all add: fn'_def)
  ultimately show ?thesis by (intro exI [of _ fn'] conjI impI) (simp_all add: rem)
qed

lemma end_buffer_ok: "source_inv fn \<Longrightarrow> so_eof fn \<Longrightarrow> so_processed fn = 0 \<Longrightarrow> so_read fn \<noteq> 0 \<Longrightarrow> end_buffer fn = fn"
  by (auto simp: source_inv_def end_buffer_def remaining_def source_text_def Let_def)

definition line_ok :: "source \<Rightarrow> (source \<times> string option) outcome \<Rightarrow> bool" where
  "line_ok fn r \<longleftrightarrow>
     (case r of
        Inl e \<Rightarrow> next_line fn = Inl e \<or> next_line fn = Inr None \<and> remaining fn \<noteq> [] \<and> e = Exit_Error ''Unable to process the whole input.''
      | Inr (fn', None) \<Rightarrow> remaining fn = []
      | Inr (fn', Some line) \<Rightarrow> \<exists>n m. next_line fn = Inr (Some (n, line, m)) \<and> source_ok fn' \<and>
          remaining fn' = drop n (remaining fn) \<and> so_line fn' = so_line fn + int m)"

lemma line_turn_next:
  assumes "source_ok fn"
  shows "case line_turn fn of
      Inl e \<Rightarrow> line_ok fn (Inl e)
    | Inr (No_Line fn') \<Rightarrow> line_ok fn (Inr (fn', None))
    | Inr (A_Line fn' line) \<Rightarrow> line_ok fn (Inr (fn', Some line))
    | Inr (Again fn') \<Rightarrow> source_ok fn' \<and> remaining fn' = remaining fn \<and> so_line fn' = so_line fn"
proof (cases "so_processed fn = so_read fn \<or> so_processed fn = 0")
  case True
  have inv: "source_inv fn" using assms by (simp add: source_ok_def)
  show ?thesis
  proof (cases "so_eof fn")
    case eof: True
    then have rem: "length (remaining fn) = so_read fn - so_processed fn" using inv by (simp add: source_inv_def remaining_def)
    show ?thesis
    proof (cases "so_processed fn < so_read fn")
      case True
      then have "so_processed fn = 0" using \<open>so_processed fn = so_read fn \<or> so_processed fn = 0\<close> by simp
      then have "next_line fn = Inr None" "remaining fn \<noteq> []" using assms eof rem True by (auto simp: source_ok_def next_line_def)
      then show ?thesis using True eof \<open>so_processed fn = 0\<close> inv by (simp add: line_turn_def line_ok_def source_inv_def)
    next
      case False
      then have "so_read fn = so_processed fn" "remaining fn = []" using inv rem by (simp_all add: source_inv_def)
      then show ?thesis using eof by (simp add: line_turn_def line_ok_def)
    qed
  next
    case False
    obtain f1 where f1: "fill_buffer fn = Inr f1" "source_inv f1" "buffer_ends f1" "so_processed f1 = 0" "remaining f1 = remaining fn"
        "so_line f1 = so_line fn" "so_read f1 = 0 \<longrightarrow> so_eof f1 \<and> remaining fn = []"
      using fill_buffer_ok [OF inv False True] by (elim exE conjE)
    show ?thesis
    proof (cases "so_read f1 = 0")
      case zero: True
      then show ?thesis using f1 True False by (simp add: line_turn_def line_ok_def)
    next
      case nz: False
      then have "line_turn fn = take_line f1" using f1 True False end_buffer_ok [of f1] by (simp add: line_turn_def)
      then show ?thesis
        using take_line_next [of f1] f1 nz by (auto simp: line_ok_def next_line_def split: sum.splits line_turn.splits)
    qed
  qed
next
  case False
  then have "0 < so_processed fn" "so_processed fn < so_read fn" "buffer_ends fn" "source_inv fn"
    using assms by (auto simp: source_ok_def source_inv_def)
  then show ?thesis
    using take_line_next [of fn] False by (auto simp: line_turn_def line_ok_def split: sum.splits line_turn.splits)
qed

lemma initial_preprocess_lines_next: "source_ok fn \<Longrightarrow> line_ok fn (initial_preprocess_lines fn)"
proof (induction fn rule: initial_preprocess_lines.induct)
  case (1 fn)
  note turn = line_turn_next [OF "1.prems"]
  show ?case
  proof (cases "\<exists>fn'. line_turn fn = Inr (Again fn')")
    case True
    then obtain fn' where fn': "line_turn fn = Inr (Again fn')" by blast
    have "line_ok fn' (initial_preprocess_lines fn')" using "1.IH" [OF fn'] turn fn' by simp
    then have "line_ok fn (initial_preprocess_lines fn')"
      using turn fn' by (auto simp: line_ok_def next_line_def split: sum.splits option.splits)
    then show ?thesis using fn' by (subst initial_preprocess_lines.simps) simp
  next
    case False
    then show ?thesis using turn by (subst initial_preprocess_lines.simps) (auto split: sum.splits line_turn.splits)
  qed
qed

text \<open>
  All lines of a source, and the lines that its text has when it is read as a whole.
\<close>

function read_lines :: "source \<Rightarrow> string list outcome" where
  "read_lines fn =
     (case initial_preprocess_line fn of
        Inl e \<Rightarrow> Inl e
      | Inr (fn', None) \<Rightarrow> Inr []
      | Inr (fn', Some line) \<Rightarrow> obind (read_lines fn') (\<lambda>lines. Inr (line # lines)))"
  by pat_completeness auto
termination
  by (relation "measure pending") (auto dest: initial_preprocess_line_pending)

function source_lines :: "string \<Rightarrow> string list outcome" where
  "source_lines text =
     (if text = [] then Inr []
      else
        case read_line (text @ [NUL]) (length text) of
          Inl e \<Rightarrow> Inl e
        | Inr None \<Rightarrow> Inl (Exit_Error ''Unable to process the whole input.'')
        | Inr (Some (n, line, m)) \<Rightarrow> obind (source_lines (drop n text)) (\<lambda>lines. Inr (line # lines)))"
  by pat_completeness auto
termination
  by (relation "measure length") (auto simp: read_line_def dest: read_line_loop_progress)

declare read_lines.simps [simp del] source_lines.simps [simp del]

lemma read_lines_remaining: "source_ok fn \<Longrightarrow> read_lines fn = source_lines (remaining fn)"
proof (induction fn rule: read_lines.induct)
  case (1 fn)
  have "initial_preprocess_line fn = initial_preprocess_lines fn"
    using "1.prems" by (simp add: initial_preprocess_line_def source_ok_def source_inv_def)
  then have next_: "line_ok fn (initial_preprocess_line fn)" using initial_preprocess_lines_next [OF "1.prems"] by simp
  consider e where "initial_preprocess_line fn = Inl e" | fn' where "initial_preprocess_line fn = Inr (fn', None)"
    | fn' line where "initial_preprocess_line fn = Inr (fn', Some line)"
    by (metis old.prod.exhaust option.exhaust sum.exhaust)
  then show ?case
  proof cases
    case 1
    have "remaining fn \<noteq> []" if "next_line fn = Inl e" using that by (auto simp: next_line_def read_line_def)
    then show ?thesis
      using next_ 1 by (subst read_lines.simps, subst source_lines.simps) (auto simp: line_ok_def next_line_def)
  next
    case 2
    then show ?thesis using next_ by (subst read_lines.simps, subst source_lines.simps) (simp add: line_ok_def)
  next
    case (3 fn' line)
    then obtain n m where n: "next_line fn = Inr (Some (n, line, m))" "source_ok fn'" "remaining fn' = drop n (remaining fn)"
      using next_ by (auto simp: line_ok_def)
    then have "remaining fn \<noteq> []" by (auto simp: next_line_def read_line_def)
    then show ?thesis
      using "1.IH" [OF 3 refl refl n(2)] 3 n by (subst read_lines.simps, subst source_lines.simps) (simp add: next_line_def)
  qed
qed

text \<open>
  Property C10. The buffer through which a file is read cannot be seen: the lines given one after the other for a file that has no
  zero bytes and ends with a newline are those of its whole text, however lines, comments and literals
  fall on the ends of the buffer, with the same error where there is one.
\<close>

theorem lines_of_file:
  assumes "source_text text"
  shows "read_lines (zero_source\<lparr>so_file := text, so_path := path, so_size := FILE_BUFFER_SIZE\<rparr>) = source_lines text"
proof -
  let ?fn = "zero_source\<lparr>so_file := text, so_path := path, so_size := FILE_BUFFER_SIZE\<rparr>"
  have "remaining ?fn = text" by (simp add: remaining_def zero_source_def)
  moreover have "source_ok ?fn"
    using assms calculation by (simp add: source_ok_def source_inv_def) (simp add: zero_source_def FILE_BUFFER_SIZE_def)
  ultimately show ?thesis using read_lines_remaining by metis
qed

theorem lines_of_file_witness:
  "read_lines (zero_source\<lparr>so_file := ''a/*'' @ NL # ''*/b'' @ NL # ''c // d'' @ [NL], so_path := zero_string, so_size := FILE_BUFFER_SIZE\<rparr>)
     = Inr [''a b'', ''c '']"
  by (subst lines_of_file)
    (simp_all add: source_text_def source_lines.simps read_line_def Let_def outcome_simps)

section \<open>The buffer of the line\<close>

text \<open>The characters written are never more than those read.\<close>

lemma read_literal_length:
  "read_literal_loop q e k out lines = Inr (n, out', m) \<Longrightarrow> n \<noteq> 0 \<Longrightarrow> length out' + k \<le> length out + n"
proof (induction q e k out lines rule: read_literal_loop.induct)
  case (2 q c r k out lines)
  show ?case
  proof (cases "c = CHR ''?''")
    case True
    then obtain t where "trigraph_at r = Inr t" using "2.prems" by (auto simp: outcome_simps)
    then show ?thesis using 2 True by (cases t) auto
  next
    case False
    then show ?thesis using 2 by (auto split: if_splits)
  qed
qed auto

end
