(* ===== verification/Line_Buffer.thy ===== *)
theory Line_Buffer
  imports Input_Correct "HOL-Library.Sublist"
begin

text \<open>
  The line buffer \<open>rline\<close> of \<open>src/src/preprocessor/input.c\<close> with its capacity. In the theory Input the
  functions that read a line return it as a list; here they write it byte by byte to the
  buffer, as the code does, with undefined behaviour for an access outside of it. The
  theorem relates the two: after it is enlarged the buffer is never too small, and holds the line that
  the list version returns.
\<close>

section \<open>Reading a line into the buffer\<close>

text \<open>The length of the list is the capacity \<open>rlen\<close>. A position is an index into it; \<open>before\<close> is \<open>ptr[-1]\<close>.\<close>

definition store :: "string \<Rightarrow> nat \<Rightarrow> char \<Rightarrow> string outcome" where
  "store buf p c = (if p < length buf then Inr (buf[p := c]) else Inl Undefined_Behaviour)"

definition before :: "string \<Rightarrow> nat \<Rightarrow> char outcome" where
  "before buf p = (if 0 < p \<and> p \<le> length buf then Inr (buf ! (p - 1)) else Inl Undefined_Behaviour)"

text \<open>The backslashes that end at a position.\<close>

fun backslashes :: "string \<Rightarrow> nat \<Rightarrow> nat outcome" where
  "backslashes buf 0 = Inl Undefined_Behaviour"
| "backslashes buf (Suc p) =
     obind (before buf (Suc p)) (\<lambda>c. if c = BACKSLASH then obind (backslashes buf p) (\<lambda>n. Inr (n + 1)) else Inr 0)"

text \<open>The loop of \<open>read_literal\<close>: the characters read, the buffer, the position in it, and the lines.\<close>

function store_literal_loop :: "char \<Rightarrow> string \<Rightarrow> nat \<Rightarrow> string \<Rightarrow> nat \<Rightarrow> nat \<Rightarrow> (nat \<times> string \<times> nat \<times> nat) outcome" where
  "store_literal_loop q [] k buf p lines = Inl Undefined_Behaviour"
| "store_literal_loop q (c # r) k buf p lines =
     (if c = NUL then Inr (0, buf, p, lines)
      else if c = NL then
        obind (before buf p) (\<lambda>d.
          if d = BACKSLASH then store_literal_loop q r (k + 1) buf (p - 1) (lines + 1)
          else Inl (Exit_Error ''Unexpected newline in literal.''))
      else if c = CHR ''?'' then
        obind (trigraph_at r) (\<lambda>t.
          case t of
            Some x \<Rightarrow> obind (store buf p x) (\<lambda>buf'. store_literal_loop q (drop 2 r) (k + 3) buf' (p + 1) lines)
          | None \<Rightarrow> obind (store buf p c) (\<lambda>buf'. store_literal_loop q r (k + 1) buf' (p + 1) lines))
      else if c = q then
        obind (backslashes buf p) (\<lambda>count.
        obind (store buf p c) (\<lambda>buf'.
          if even count then Inr (k + 1, buf', p + 1, lines)
          else store_literal_loop q r (k + 1) buf' (p + 1) lines))
      else obind (store buf p c) (\<lambda>buf'. store_literal_loop q r (k + 1) buf' (p + 1) lines))"
  by pat_completeness auto
termination
  by (relation "measure (\<lambda>(q, e, k, buf, p, lines). length e)") auto

definition store_literal :: "string \<Rightarrow> string \<Rightarrow> nat \<Rightarrow> nat \<Rightarrow> (nat \<times> string \<times> nat \<times> nat) outcome" where
  "store_literal e buf p lines =
     (case e of
        [] \<Rightarrow> Inl Undefined_Behaviour
      | q # r \<Rightarrow>
          obind (oassert (q = DQUOTE \<or> q = SQUOTE)) (\<lambda>_.
          obind (store buf p q) (\<lambda>buf'. store_literal_loop q r 1 buf' (p + 1) lines)))"

text \<open>
  The loop of \<open>read_line\<close>: the buffer, and the characters read and the number of physical lines if the line is complete.
  The code tests the length behind the first character; its caller asserts that there is one.
\<close>

type_synonym store_result = "(string \<times> (nat \<times> nat) option) outcome"

function store_line_loop :: "nat \<Rightarrow> string \<Rightarrow> nat \<Rightarrow> string \<Rightarrow> nat \<Rightarrow> nat \<Rightarrow> store_result" where
  "store_line_loop len [] k buf p lines = (if k < len then Inl Undefined_Behaviour else Inr (buf, None))"
| "store_line_loop len (c # r) k buf p lines =
     (if \<not> k < len then Inr (buf, None)
      else
        let copy = obind (store buf p c) (\<lambda>buf'. store_line_loop len r (k + 1) buf' (p + 1) lines) in
        if c = NL then obind (store buf p NUL) (\<lambda>buf'. Inr (buf', Some (k + 1, lines + 1)))
        else if c = BACKSLASH then
          obind (continuation r) (\<lambda>n.
            if n = 0 then copy else store_line_loop len (drop (n - 1) r) (k + n) buf p (lines + 1))
        else if c = CHR ''?'' then
          obind (trigraph_at r) (\<lambda>t.
            case t of
              Some x \<Rightarrow> obind (store buf p x) (\<lambda>buf'. store_line_loop len (drop 2 r) (k + 3) buf' (p + 1) lines)
            | None \<Rightarrow> copy)
        else if c = SQUOTE \<or> c = DQUOTE then
          obind (store_literal (c # r) buf p lines) (\<lambda>(n, buf', p', lines').
            if n = 0 then Inr (buf', None) else store_line_loop len (drop (n - 1) r) (k + n) buf' p' lines')
        else if c = CHR ''/'' then
          obind (before buf p) (\<lambda>d.
            if d = CHR ''/'' then
              obind (read_line_comment r 0 lines) (\<lambda>(n, lines').
                if n = 0 then Inr (buf, None)
                else obind (store buf (p - 1) NUL) (\<lambda>buf'. Inr (buf', Some (k + n + 1, lines' + 1))))
            else copy)
        else if c = CHR ''*'' then
          obind (before buf p) (\<lambda>d.
            if d = CHR ''/'' then
              obind (read_comment r 0 lines) (\<lambda>(n, lines').
                if n = 0 then Inr (buf, None)
                else obind (store buf (p - 1) (CHR '' '')) (\<lambda>buf'. store_line_loop len (drop n r) (k + n + 1) buf' p lines'))
            else copy)
        else copy)"
  by pat_completeness auto
termination
  by (relation "measure (\<lambda>(len, e, k, buf, p, lines). length e)") auto

text \<open>The bytes that \<open>realloc\<close> adds have any value.\<close>

definition grow_rline :: "char \<Rightarrow> string \<Rightarrow> nat \<Rightarrow> string" where
  "grow_rline junk rline len =
     (if len \<ge> length rline then rline @ replicate (len + 1 - length rline) junk else rline)"

definition store_line :: "char \<Rightarrow> string \<Rightarrow> string \<Rightarrow> nat \<Rightarrow> store_result" where
  "store_line junk rline e len =
     (let buf = grow_rline junk rline len in
      obind (before buf 1) (\<lambda>d.
      obind (oassert (d = NUL)) (\<lambda>_. store_line_loop len e 0 buf 1 0)))"

section \<open>The buffer holds what was written\<close>

text \<open>The first bytes of the buffer are a zero byte and the line so far, the list of which is in reverse.\<close>

definition holds :: "string \<Rightarrow> nat \<Rightarrow> string \<Rightarrow> bool" where
  "holds buf p out \<longleftrightarrow> p = Suc (length out) \<and> p \<le> length buf \<and> take p buf = NUL # rev out"

lemma holds_store:
  assumes "holds buf p out" "Suc (length out) < length buf"
  shows "\<exists>buf'. store buf p c = Inr buf' \<and> length buf' = length buf \<and> holds buf' (Suc p) (c # out)"
  using assms by (auto simp: holds_def store_def take_Suc_conv_app_nth)

lemma holds_before:
  assumes "holds buf p out"
  shows "before buf p = Inr (case out of [] \<Rightarrow> NUL | c # _ \<Rightarrow> c)"
proof -
  have h: "p = Suc (length out)" "p \<le> length buf" "take p buf = NUL # rev out" using assms by (auto simp: holds_def)
  have "buf ! length out = take p buf ! length out" using h(1) by simp
  also have "\<dots> = (case out of [] \<Rightarrow> NUL | c # _ \<Rightarrow> c)" unfolding h(3) by (auto simp: nth_append split: list.splits)
  finally show ?thesis using h by (simp add: before_def)
qed

lemma holds_back: "holds buf p (c # out) \<Longrightarrow> holds buf (p - 1) out"
  by (auto simp: holds_def dest: arg_cong [of "take _ _" _ butlast] simp: butlast_take)

lemma holds_replace:
  assumes "holds buf p (c # out)"
  shows "\<exists>buf'. store buf (p - 1) d = Inr buf' \<and> length buf' = length buf \<and> holds buf' p (d # out)"
proof -
  have p: "p - 1 = Suc (length out)" "Suc (length out) < length buf" "p = Suc (p - 1)" using assms by (auto simp: holds_def)
  then show ?thesis using holds_store [OF holds_back [OF assms], of d] by metis
qed

lemma holds_backslashes: "holds buf p out \<Longrightarrow> backslashes buf p = Inr (length (takeWhile (\<lambda>x. x = BACKSLASH) out))"
proof (induction out arbitrary: p)
  case Nil
  then show ?case using holds_before [OF Nil.prems] by (cases p) (auto simp: holds_def)
next
  case (Cons c out)
  then obtain p' where p: "p = Suc p'" by (auto simp: holds_def)
  show ?case using Cons.IH [OF holds_back [OF Cons.prems]] holds_before [OF Cons.prems] p by (auto simp: outcome_simps)
qed

lemma holds_front: "holds buf p out \<Longrightarrow> 0 < length buf \<and> hd buf = NUL"
  by (cases buf) (auto simp: holds_def)

text \<open>The scanners never look behind the zero byte.\<close>

lemma continuation_total: "\<exists>n. continuation (r @ [NUL]) = Inr n \<and> n - 1 \<le> length r"
  by (cases r rule: splices.cases) (auto simp: continuation_def)

lemma trigraph_total: "\<exists>t. trigraph_at (r @ [NUL]) = Inr t \<and> (t \<noteq> None \<longrightarrow> 2 \<le> length r)"
  by (cases r rule: splices.cases) (auto simp: trigraph_at_def read_trigraph_def)

lemma read_comment_total: "NUL \<notin> set a \<Longrightarrow> \<exists>n m. read_comment (a @ [NUL]) k lines = Inr (n, m)"
proof (induction "length a" arbitrary: a k lines rule: less_induct)
  case less
  show ?case
  proof (cases a)
    case (Cons c r)
    let ?n = "splices (r @ [NUL])" and ?a = "drop (2 * splices (r @ [NUL])) r"
    have n: "2 * ?n \<le> length r" by (rule splices_le)
    have a: "NUL \<notin> set ?a" "length ?a < length a" using less.prems(1) Cons by (auto dest: in_set_dropD)
    have r: "NUL \<notin> set r" "length r < length a" using less.prems(1) Cons by auto
    show ?thesis
    proof (cases "c = CHR ''*''")
      case True
      then show ?thesis
        using less.hyps [OF a(2,1), of "k + 1 + 2 * ?n" "lines + ?n"] n Cons by (cases ?a) (simp_all add: Let_def)
    next
      case False
      then show ?thesis using less.hyps [OF r(2,1), of "k + 1" "if c = NL then lines + 1 else lines"] Cons by simp
    qed
  qed simp
qed

lemma read_line_comment_total: "NUL \<notin> set a \<Longrightarrow> \<exists>n m. read_line_comment (a @ [NUL]) k lines = Inr (n, m)"
proof (induction a k lines rule: read_line_comment.induct)
  case (2 c r k lines)
  then show ?case by (cases "c = BACKSLASH"; cases r) auto
qed simp

section \<open>The buffer is never too small\<close>

text \<open>
  A literal. The text that is left is \<open>a\<close>; the buffer has room for all of it. Unless the literal is not complete, there is room for the
  text behind it.
\<close>

definition same_literal :: "nat \<Rightarrow> (nat \<times> string \<times> nat) outcome \<Rightarrow> (nat \<times> string \<times> nat \<times> nat) outcome \<Rightarrow> bool" where
  "same_literal cap r s \<longleftrightarrow>
     (case r of
        Inl e \<Rightarrow> e \<noteq> Undefined_Behaviour \<and> s = Inl e
      | Inr (n, out, m) \<Rightarrow> \<exists>buf p. s = Inr (n, buf, p, m) \<and> holds buf p out \<and> length buf = cap)"

lemma same_literal_simps [simp]:
  "same_literal cap (Inl e) s \<longleftrightarrow> e \<noteq> Undefined_Behaviour \<and> s = Inl e"
  "same_literal cap (Inr (n, out, m)) s \<longleftrightarrow> (\<exists>buf p. s = Inr (n, buf, p, m) \<and> holds buf p out \<and> length buf = cap)"
  by (simp_all add: same_literal_def)

lemma store_literal_loop_ok:
  assumes "NUL \<notin> set a" "holds buf p out" "length out + length a < length buf"
  shows "same_literal (length buf) (read_literal_loop q (a @ [NUL]) k out lines) (store_literal_loop q (a @ [NUL]) k buf p lines)"
  using assms
proof (induction "length a" arbitrary: a k buf p out lines rule: less_induct)
  case less
  show ?case
  proof (cases a)
    case Nil
    then show ?thesis using less.prems by simp
  next
    case (Cons c r)
    have c: "c \<noteq> NUL" "NUL \<notin> set r" "length r < length a" using less.prems(1) Cons by auto
    have room: "Suc (length out) < length buf" "length (x # out) + length r < length buf" for x :: char
      using less.prems(2,3) Cons by (auto simp: holds_def)
    have d: "NUL \<notin> set (drop j r)" "length (drop j r) < length a" "length (x # out) + length (drop j r) < length buf" for j and x :: char
      using c room(2) [of x] by (auto dest: in_set_dropD)
    consider "c = NL" | "c = CHR ''?''" | "c \<noteq> NL" "c \<noteq> CHR ''?''" by blast
    then show ?thesis
    proof cases
      case 1
      show ?thesis
      proof (cases "out \<noteq> [] \<and> hd out = BACKSLASH")
        case True
        then obtain out' where o: "out = BACKSLASH # out'" by (cases out) auto
        show ?thesis
          using less.hyps [OF c(3,2) holds_back [OF less.prems(2) [unfolded o]], of "k + 1" "lines + 1"] o 1 Cons room(1)
            holds_before [OF less.prems(2)] less.prems(3) by simp
      next
        case False
        then show ?thesis using 1 Cons holds_before [OF less.prems(2)] by (auto split: list.splits)
      qed
    next
      case 2
      obtain t where t: "trigraph_at (r @ [NUL]) = Inr t" "t \<noteq> None \<Longrightarrow> 2 \<le> length r" using trigraph_total [of r] by auto
      let ?x = "case t of None \<Rightarrow> c | Some x \<Rightarrow> x"
      obtain b where b: "store buf p ?x = Inr b" "length b = length buf" "holds b (Suc p) (?x # out)"
        using holds_store [OF less.prems(2) room(1)] by blast
      show ?thesis
      proof (cases t)
        case None
        then show ?thesis using less.hyps [OF c(3,2), of b "Suc p" "c # out" "k + 1" lines] b 2 Cons t room(2) by simp
      next
        case (Some x)
        then show ?thesis
          using less.hyps [OF d(2,1), of b "Suc p" "x # out" 2 "k + 3" lines] b 2 Cons t d(3) [of x 2] by simp
      qed
    next
      case 3
      obtain b where b: "store buf p c = Inr b" "length b = length buf" "holds b (Suc p) (c # out)"
        using holds_store [OF less.prems(2) room(1)] by blast
      show ?thesis
        using less.hyps [OF c(3,2), of b "Suc p" "c # out" "k + 1" lines] b 3 Cons c(1) room(2)
          holds_backslashes [OF less.prems(2)]
        by auto
    qed
  qed
qed

lemma store_literal_ok:
  assumes "NUL \<notin> set r" "holds buf p out" "length out + length (c # r) < length buf" "c = SQUOTE \<or> c = DQUOTE"
  shows "same_literal (length buf) (read_literal (c # r @ [NUL]) out lines) (store_literal (c # r @ [NUL]) buf p lines)"
proof -
  obtain b where b: "store buf p c = Inr b" "length b = length buf" "holds b (Suc p) (c # out)"
    using holds_store [OF assms(2)] assms(3) by fastforce
  show ?thesis
    using store_literal_loop_ok [OF assms(1) b(3), of c 1 lines] b(1,2) assms(3,4)
    by (auto simp: store_literal_def read_literal_quote outcome_simps)
qed

text \<open>The loop over the line, with the same result; the line is a string of C behind the first byte.\<close>

definition same_line :: "nat \<Rightarrow> read_result \<Rightarrow> store_result \<Rightarrow> bool" where
  "same_line cap r s \<longleftrightarrow>
     (case r of
        Inl e \<Rightarrow> e \<noteq> Undefined_Behaviour \<and> s = Inl e
      | Inr None \<Rightarrow> \<exists>buf. s = Inr (buf, None) \<and> length buf = cap \<and> hd buf = NUL
      | Inr (Some (n, line, m)) \<Rightarrow> \<exists>buf. s = Inr (buf, Some (n, m)) \<and> length buf = cap \<and> prefix (NUL # line @ [NUL]) buf)"

lemma same_line_simps [simp]:
  "same_line cap (Inl e) s \<longleftrightarrow> e \<noteq> Undefined_Behaviour \<and> s = Inl e"
  "same_line cap (Inr None) s \<longleftrightarrow> (\<exists>buf. s = Inr (buf, None) \<and> length buf = cap \<and> hd buf = NUL)"
  "same_line cap (Inr (Some (n, line, m))) s \<longleftrightarrow>
     (\<exists>buf. s = Inr (buf, Some (n, m)) \<and> length buf = cap \<and> prefix (NUL # line @ [NUL]) buf)"
  by (simp_all add: same_line_def)

lemma holds_line: "holds buf p (c # out) \<Longrightarrow> prefix (NUL # rev out @ [c]) buf"
  by (metis holds_def rev.simps(2) take_is_prefix)

lemma store_line_loop_ok:
  assumes "NUL \<notin> set a" "holds buf p out" "length out + length a < length buf"
  shows "same_line (length buf) (read_line_loop (k + length a) (a @ [NUL]) k out lines)
    (store_line_loop (k + length a) (a @ [NUL]) k buf p lines)"
  using assms
proof (induction "length a" arbitrary: a k buf p out lines rule: less_induct)
  case less
  show ?case
  proof (cases a)
    case Nil
    then show ?thesis using holds_front [OF less.prems(2)] by auto
  next
    case (Cons c r)
    define len where len: "len = k + length a"
    have c: "c \<noteq> NUL" "NUL \<notin> set r" "k < len" using less.prems(1) Cons by (auto simp: len)
    have room: "Suc (length out) < length buf" "length (x # out) + length r < length buf" for x :: char
      using less.prems(2,3) Cons by (auto simp: holds_def)
    have step: "same_line (length buf) (read_line_loop len (drop j r @ [NUL]) (Suc (k + j)) out' m)
        (store_line_loop len (drop j r @ [NUL]) (Suc (k + j)) buf' p' m)"
      if "j \<le> length r" "holds buf' p' out'" "length buf' = length buf" "length out' \<le> Suc (length out) + j" for j out' m buf' p'
    proof -
      have "NUL \<notin> set (drop j r)" using c(2) by (blast dest: in_set_dropD)
      then show ?thesis
        using less.hyps [of "drop j r" buf' p' out' "Suc (k + j)" m] that Cons room(2) [of NUL] by (simp add: len)
    qed
    have copy: "\<exists>b. store buf p x = Inr b \<and> holds b (Suc p) (x # out) \<and> length b = length buf" for x
      using holds_store [OF less.prems(2) room(1)] by metis
    note bef = holds_before [OF less.prems(2)]
    consider "c = NL" | "c = BACKSLASH" | "c = CHR ''?''" | "c = SQUOTE \<or> c = DQUOTE"
      | "c = CHR ''/''" "out \<noteq> []" "hd out = CHR ''/''" | "c = CHR ''*''" "out \<noteq> []" "hd out = CHR ''/''"
      | "c \<notin> {NL, BACKSLASH, CHR ''?'', SQUOTE, DQUOTE}" "\<not> (c \<in> {CHR ''/'', CHR ''*''} \<and> out \<noteq> [] \<and> hd out = CHR ''/'')"
      by blast
    then have "same_line (length buf) (read_line_loop len (c # r @ [NUL]) k out lines) (store_line_loop len (c # r @ [NUL]) k buf p lines)"
    proof cases
      case 1
      then show ?thesis using copy [of NUL] holds_line c(3) by auto
    next
      case 2
      obtain n where n: "continuation (r @ [NUL]) = Inr n" "n - 1 \<le> length r" using continuation_total [of r] by blast
      obtain b where b: "store buf p c = Inr b" "holds b (Suc p) (c # out)" "length b = length buf" using copy by blast
      show ?thesis
      proof (cases "n = 0")
        case True
        then show ?thesis using step [of 0 b "Suc p" "c # out" lines] b n 2 c(3) by simp
      next
        case False
        then show ?thesis using step [OF n(2) less.prems(2) refl, of "lines + 1"] n 2 c(3) by simp
      qed
    next
      case 3
      obtain t where t: "trigraph_at (r @ [NUL]) = Inr t" "t \<noteq> None \<Longrightarrow> 2 \<le> length r" using trigraph_total [of r] by auto
      obtain b where b: "store buf p (case t of None \<Rightarrow> c | Some x \<Rightarrow> x) = Inr b"
          "holds b (Suc p) ((case t of None \<Rightarrow> c | Some x \<Rightarrow> x) # out)" "length b = length buf" using copy by blast
      show ?thesis
      proof (cases t)
        case None
        then show ?thesis using step [of 0 b "Suc p" "c # out" lines] b t 3 c(3) by simp
      next
        case (Some x)
        then show ?thesis using step [of 2 b "Suc p" "x # out" lines] b t 3 c(3) by (simp add: eval_nat_numeral)
      qed
    next
      case 4
      have lit: "same_literal (length buf) (read_literal (c # r @ [NUL]) out lines) (store_literal (c # r @ [NUL]) buf p lines)"
        by (rule store_literal_ok [OF c(2) less.prems(2) _ 4]) (use less.prems(3) Cons in simp)
      show ?thesis
      proof (cases "read_literal (c # r @ [NUL]) out lines")
        case (Inl e)
        then show ?thesis using lit 4 c(3) by auto
      next
        case (Inr x)
        obtain n out' m where x: "x = (n, out', m)" by (cases x)
        obtain b p' where b: "store_literal (c # r @ [NUL]) buf p lines = Inr (n, b, p', m)" "holds b p' out'" "length b = length buf"
          using lit Inr x by auto
        show ?thesis
        proof (cases "n = 0")
          case True
          then show ?thesis using 4 c(3) Inr x b holds_front [OF b(2)] by auto
        next
          case False
          have i: "read_literal_loop c (r @ [NUL]) 1 (c # out) lines = Inr (n, out', m)"
            using Inr x 4 by (simp add: read_literal_quote)
          have "length out' \<le> Suc (length out) + (n - 1)" "n - 1 \<le> length r"
            using read_literal_length [OF i False] read_literal_le [OF c(2) i False] by auto
          then show ?thesis using step [of "n - 1" b p' out' m] False 4 c(3) Inr x b by auto
        qed
      qed
    next
      case 5
      then obtain out' where o: "out = CHR ''/'' # out'" by (cases out) auto
      obtain n m where n: "read_line_comment (r @ [NUL]) 0 lines = Inr (n, m)" using read_line_comment_total [OF c(2)] by blast
      obtain b where b: "store buf (p - 1) NUL = Inr b" "holds b p (NUL # out')" "length b = length buf"
        using holds_replace [OF less.prems(2) [unfolded o]] by metis
      show ?thesis using holds_line [OF b(2)] b n 5 c(3) o bef holds_front [OF less.prems(2)] by simp
    next
      case 6
      then obtain out' where o: "out = CHR ''/'' # out'" by (cases out) auto
      obtain n m where n: "read_comment (r @ [NUL]) 0 lines = Inr (n, m)" using read_comment_total [OF c(2)] by blast
      obtain b where b: "store buf (p - 1) (CHR '' '') = Inr b" "holds b p (CHR '' '' # out')" "length b = length buf"
        using holds_replace [OF less.prems(2) [unfolded o]] by metis
      show ?thesis
        using step [of n b p "CHR '' '' # out'" m] read_comment_le [OF c(2) n] b n 6 c(3) o bef holds_front [OF less.prems(2)]
        by auto
    next
      case 7
      obtain b where b: "store buf p c = Inr b" "holds b (Suc p) (c # out)" "length b = length buf" using copy by blast
      show ?thesis using step [of 0 b "Suc p" "c # out" lines] b 7 c(3) bef by (auto simp: Let_def split: list.splits)
    qed
    then show ?thesis using Cons by (simp add: len)
  qed
qed

lemma grow_rline_ok:
  assumes "rline \<noteq> []" "hd rline = NUL"
  shows "length (grow_rline junk rline len) = max (length rline) (len + 1)" "holds (grow_rline junk rline len) 1 []"
  using assms by (auto simp: grow_rline_def holds_def take_Suc)

text \<open>
  Property C11. Let the text given to \<open>read_line\<close> have no zero byte but the one behind it, and let the buffer
  of the line begin with a zero byte, whatever its capacity is. Then, once the buffer is enlarged for the length of the
  text, no byte is read or written outside of it on any path, complete lines, incomplete lines and errors
  included. The result is that of the list version, and for a complete line the buffer holds,
  behind its first zero byte, that line and the zero byte that ends it. The first byte stays zero, as the next
  call asserts. The characters read are some, but no more than the text has.
\<close>

theorem line_fits_buffer:
  assumes "NUL \<notin> set text" "text \<noteq> []" "rline \<noteq> []" "hd rline = NUL"
  shows "case read_line (text @ [NUL]) (length text) of
      Inl e \<Rightarrow> e \<noteq> Undefined_Behaviour \<and> store_line junk rline (text @ [NUL]) (length text) = Inl e
    | Inr None \<Rightarrow> \<exists>buf. store_line junk rline (text @ [NUL]) (length text) = Inr (buf, None) \<and>
        length buf = max (length rline) (length text + 1) \<and> hd buf = NUL
    | Inr (Some (n, line, m)) \<Rightarrow> \<exists>buf. store_line junk rline (text @ [NUL]) (length text) = Inr (buf, Some (n, m)) \<and>
        length buf = max (length rline) (length text + 1) \<and> prefix (NUL # line @ [NUL]) buf \<and> 0 < n \<and> n \<le> length text"
proof -
  note g = grow_rline_ok [OF assms(3,4), of junk "length text"]
  have "same_line (length (grow_rline junk rline (length text))) (read_line (text @ [NUL]) (length text))
      (store_line_loop (length text) (text @ [NUL]) 0 (grow_rline junk rline (length text)) 1 0)"
    using store_line_loop_ok [OF assms(1) g(2), of 0 0] g(1) by (simp add: read_line_def)
  moreover have "store_line junk rline (text @ [NUL]) (length text) =
      store_line_loop (length text) (text @ [NUL]) 0 (grow_rline junk rline (length text)) 1 0"
    using holds_before [OF g(2)] by (simp add: store_line_def Let_def outcome_simps)
  ultimately show ?thesis
    using read_line_loop_le [OF assms(1), of 0 "[]" 0] read_line_loop_progress g(1)
    unfolding same_line_def read_line_def by (auto split: sum.splits option.splits)
qed

theorem line_fits_buffer_witness:
  "store_line (CHR ''z'') [NUL] (''a'' @ [NL, NUL]) 2 = Inr ([NUL, CHR ''a'', NUL], Some (2, 1)) \<and>
   (\<exists>buf. store_line (CHR ''z'') [NUL] (''a'' @ [NL, NUL]) 2 = Inr (buf, Some (2, 1)) \<and> prefix [NUL, CHR ''a'', NUL] buf)"
  using line_fits_buffer [of "''a'' @ [NL]" "[NUL]" "CHR ''z''"]
  by (simp add: read_line_def store_line_def grow_rline_def before_def store_def eval_nat_numeral)

end
