(* ===== verification/Directive.thy ===== *)
theory Directive
  imports Input Eval
begin

text \<open>
  Directives, \<open>src/preprocessor/directive.c\<close>: the stack of conditional blocks, the arithmetic of \<open>#if\<close>, and the
  directives that define macros, include files and set the position. Lines are lists
  of tokens that end with a newline token. The floating point conversions of the host, which the conversion of
  constants may use, are part of the state.
\<close>

record directive_state = input_state +
  dr_lib :: float_lib
  dr_floats :: host_floats

type_synonym ('z, 'a) dir = "('z directive_state_scheme, 'a) sm"

section \<open>Identifiers of directives\<close>

definition ident__include :: token where "ident__include = IDN TK_IDENTIFIER ''include''"
definition ident__defined :: token where "ident__defined = IDN TK_IDENTIFIER ''defined''"
definition ident__define :: token where "ident__define = IDN TK_IDENTIFIER ''define''"
definition ident__ifndef :: token where "ident__ifndef = IDN TK_IDENTIFIER ''ifndef''"
definition ident__ifdef :: token where "ident__ifdef = IDN TK_IDENTIFIER ''ifdef''"
definition ident__undef :: token where "ident__undef = IDN TK_IDENTIFIER ''undef''"
definition ident__elif :: token where "ident__elif = IDN TK_IDENTIFIER ''elif''"
definition ident__endif :: token where "ident__endif = IDN TK_IDENTIFIER ''endif''"
definition ident__error :: token where "ident__error = IDN TK_IDENTIFIER ''error''"
definition ident__line :: token where "ident__line = IDN TK_IDENTIFIER ''line''"
definition ident__pragma :: token where "ident__pragma = IDN TK_IDENTIFIER ''pragma''"
definition ident__Pragma :: token where "ident__Pragma = IDN TK_IDENTIFIER ''_Pragma''"
definition ident__VA_ARGS__ident :: token where "ident__VA_ARGS__ident = IDN TK_IDENTIFIER ''__VA_ARGS__''"

text \<open>Whether a token is one of these.\<close>

definition tok_is :: "token \<Rightarrow> token \<Rightarrow> ('z, bool) mac" where
  "tok_is t ident = ebind (eget mc_types) (\<lambda>ts. ebind (olift (tok_cmp ts t ident)) (\<lambda>d. eret (\<not> d)))"

text \<open>The token at a position, where there must be one.\<close>

definition token_at :: "token list \<Rightarrow> token outcome" where
  "token_at list = (case list of [] \<Rightarrow> Inl Undefined_Behaviour | t # _ \<Rightarrow> Inr t)"

section \<open>Conditional blocks\<close>

definition push_state :: "branch \<Rightarrow> ('z, unit) inp" where
  "push_state c = emodify (\<lambda>s. s\<lparr>in_branches := c # in_branches s\<rparr>)"

definition pop_state :: "('z, branch) inp" where
  "pop_state s =
     (case in_branches s of
        [] \<Rightarrow> Inl (Exit_Error ''Unmatched #endif directive.'')
      | c # cs \<Rightarrow> Inr (c, s\<lparr>in_branches := cs\<rparr>))"

section \<open>Arithmetic\<close>

record num =
  n_type :: ctype
  n_val :: u64

type_synonym ('z, 'a) parser = "token list \<Rightarrow> ('z, 'a \<times> token list) dir"

definition expect :: "token_type \<Rightarrow> token list \<Rightarrow> ('z, unit) dir" where
  "expect tk list =
     ebind (olift (token_at list)) (\<lambda>t. if ttype t \<noteq> tk then eerror ''Expected %s, but got %s.'' else eret ())"

definition convert_number :: "ctype \<Rightarrow> num \<Rightarrow> ('z, num) dir" where
  "convert_number ty n =
     ebind (eget dr_floats) (\<lambda>fl.
     ebind (olift (convert fl \<lparr>val_u = n_val n\<rparr> (n_type n) ty)) (\<lambda>v. eret \<lparr>n_type = ty, n_val = val_u v\<rparr>))"

text \<open>All values are converted to \<open>long\<close> or \<open>unsigned long\<close>.\<close>

definition normalize_number :: "num \<Rightarrow> ('z, num) dir" where
  "normalize_number n =
     (if \<not> is_integer (n_type n) then eerror ''Preprocessing number must be integer.''
      else
        ebind (eget mc_types) (\<lambda>ts.
        ebind (olift (size_of ts (n_type n))) (\<lambda>w.
          if w \<noteq> 8 then
            (if is_signed (n_type n) then convert_number basic_type__long n else convert_number basic_type__unsigned_long n)
          else eret n)))"

definition token_number :: "token \<Rightarrow> ('z, num) dir" where
  "token_number n =
     ebind (eassert (ttype n = TK_NUMBER)) (\<lambda>_.
     ebind (olift (tok_val n)) (\<lambda>v. eret \<lparr>n_type = tktype n, n_val = v\<rparr>))"

text \<open>
  The parser of an expression in parentheses is an argument of the functions below it. Reading behind
  the last token is undefined.
\<close>

definition preprocess_primary :: "('z, num) parser \<Rightarrow> ('z, num) parser" where
  "preprocess_primary expr list =
     (case list of
        [] \<Rightarrow> efail Undefined_Behaviour
      | t # ts \<Rightarrow>
          ebind
            (if ttype t = TK_PREP_NUMBER then
               ebind (eget dr_lib) (\<lambda>lib.
               ebind (olift (convert_preprocessing_number lib t)) (\<lambda>n. ebind (token_number n) (\<lambda>num. eret (num, ts))))
             else if ttype t = TK_PREP_CHAR then
               ebind (olift (convert_preprocessing_char t)) (\<lambda>n. ebind (token_number n) (\<lambda>num. eret (num, ts)))
             else if ttype t = TK_OPEN_PAREN then
               ebind (expr ts) (\<lambda>(num, rest). ebind (expect TK_CLOSE_PAREN rest) (\<lambda>_. eret (num, tl rest)))
             else if ttype t \<noteq> TK_IDENTIFIER \<and> \<not> is_expandable t then
               eerror ''Invalid primary expression %s in directive.''
             else
               ebind (olift (tok_str t)) (\<lambda>name.
               ebind (macro_definition name) (\<lambda>def.
               ebind (eassert (def = None)) (\<lambda>_. eret (\<lparr>n_type = basic_type__long, n_val = 0\<rparr>, ts)))))
          (\<lambda>(num, rest). ebind (normalize_number num) (\<lambda>num'. eret (num', rest))))"

text \<open>The result of an operation in the type of the number.\<close>

definition unary_op :: "(int_type \<Rightarrow> int \<Rightarrow> int outcome) \<Rightarrow> num \<Rightarrow> num outcome" where
  "unary_op f n =
     obind (if is_signed (n_type n) then f i64_type (sint (n_val n)) else f u64_type (uint (n_val n)))
       (\<lambda>v. Inr (n\<lparr>n_val := word_of_int v\<rparr>))"

fun preprocess_unary :: "('z, num) parser \<Rightarrow> ('z, num) parser" where
  "preprocess_unary expr [] = efail Undefined_Behaviour"
| "preprocess_unary expr (t # ts) =
     (if ttype t = TK_PLUS then preprocess_unary expr ts
      else if ttype t = TK_MINUS then
        ebind (preprocess_unary expr ts) (\<lambda>(r, rest). ebind (olift (unary_op c_neg r)) (\<lambda>n. eret (n, rest)))
      else if ttype t = TK_NEG then
        ebind (preprocess_unary expr ts) (\<lambda>(r, rest). ebind (olift (unary_op c_not r)) (\<lambda>n. eret (n, rest)))
      else if ttype t = TK_NOT then
        ebind (preprocess_unary expr ts) (\<lambda>(r, rest).
          ebind (olift (unary_op (\<lambda>_ v. Inr (bool_int (v = 0))) r)) (\<lambda>n. eret (n, rest)))
      else preprocess_primary expr (t # ts))"

definition both_signed :: "num \<Rightarrow> num \<Rightarrow> ('z, bool \<times> num \<times> num) dir" where
  "both_signed l r =
     ebind (eget mc_types) (\<lambda>ts.
     ebind (olift (type_equal ts (n_type l) (n_type r))) (\<lambda>eq.
     ebind
       (if \<not> eq then
          ebind (olift (usual_arithmetic_conversion ts (n_type l) (n_type r))) (\<lambda>ty.
          ebind (convert_number ty l) (\<lambda>l'. ebind (convert_number ty r) (\<lambda>r'. eret (l', r'))))
        else eret (l, r)) (\<lambda>(l', r').
     ebind (eassert (is_integer (n_type l'))) (\<lambda>_. eret (is_signed (n_type l'), l', r')))))"

text \<open>An arithmetic operator, and a comparison, which gives a number of type \<open>long\<close>.\<close>

type_synonym 'z operator = "num \<Rightarrow> num \<Rightarrow> ('z, num) dir"

definition arith :: "(int_type \<Rightarrow> int \<Rightarrow> int \<Rightarrow> int outcome) \<Rightarrow> 'z operator" where
  "arith f l r =
     ebind (both_signed l r) (\<lambda>(sgd, l', r').
     ebind (olift (if sgd then f i64_type (sint (n_val l')) (sint (n_val r')) else f u64_type (uint (n_val l')) (uint (n_val r'))))
       (\<lambda>v. eret (l'\<lparr>n_val := word_of_int v\<rparr>)))"

definition compare :: "cmp_op \<Rightarrow> 'z operator" where
  "compare c l r =
     ebind (arith (c_cmp c) l r) (\<lambda>n. eret (n\<lparr>n_type := basic_type__long\<rparr>))"

definition divide :: "string \<Rightarrow> (int_type \<Rightarrow> int \<Rightarrow> int \<Rightarrow> int outcome) \<Rightarrow> 'z operator" where
  "divide msg f l r = (if n_val r = 0 then eerror msg else arith f l r)"

text \<open>
  The loop of an operator that associates to the left. Each turn reads an operator and at least one token more, so
  the number of tokens bounds the turns.
\<close>

fun operator_loop :: "nat \<Rightarrow> (token_type \<Rightarrow> 'z operator option) \<Rightarrow> ('z, num) parser \<Rightarrow> num \<Rightarrow> ('z, num) parser" where
  "operator_loop n ops sub l [] = efail Undefined_Behaviour"
| "operator_loop n ops sub l (t # ts) =
     (case ops (ttype t) of
        None \<Rightarrow> eret (l, t # ts)
      | Some f \<Rightarrow>
          (case n of
             0 \<Rightarrow> efail Stack_Overflow
           | Suc m \<Rightarrow> ebind (sub ts) (\<lambda>(r, rest). ebind (f l r) (\<lambda>l'. operator_loop m ops sub l' rest))))"

definition multiplicative_ops :: "token_type \<Rightarrow> 'z operator option" where
  "multiplicative_ops tk =
     (if tk = TK_STAR then Some (arith c_mul)
      else if tk = TK_SLASH then Some (divide ''Division by zero.'' c_div)
      else if tk = TK_MODULO then Some (divide ''Modulo by zero.'' c_mod)
      else None)"

definition preprocess_multiplicative :: "('z, num) parser \<Rightarrow> ('z, num) parser" where
  "preprocess_multiplicative expr list =
     ebind (preprocess_unary expr list) (\<lambda>(l, rest). operator_loop (length rest) multiplicative_ops (preprocess_unary expr) l rest)"

definition additive_ops :: "token_type \<Rightarrow> 'z operator option" where
  "additive_ops tk =
     (if tk = TK_PLUS then Some (arith c_add) else if tk = TK_MINUS then Some (arith c_sub) else None)"

definition preprocess_additive :: "('z, num) parser \<Rightarrow> ('z, num) parser" where
  "preprocess_additive expr list =
     ebind (preprocess_multiplicative expr list) (\<lambda>(l, rest).
       operator_loop (length rest) additive_ops (preprocess_multiplicative expr) l rest)"

definition shift_ops :: "token_type \<Rightarrow> 'z operator option" where
  "shift_ops tk =
     (if tk = TK_LSHIFT then Some (arith c_shl) else if tk = TK_RSHIFT then Some (arith c_shr) else None)"

definition preprocess_shift :: "('z, num) parser \<Rightarrow> ('z, num) parser" where
  "preprocess_shift expr list =
     ebind (preprocess_additive expr list) (\<lambda>(l, rest). operator_loop (length rest) shift_ops (preprocess_additive expr) l rest)"

definition relational_ops :: "token_type \<Rightarrow> 'z operator option" where
  "relational_ops tk =
     (if tk = TK_LT then Some (compare Lt) else if tk = TK_GT then Some (compare Gt)
      else if tk = TK_LEQ then Some (compare Le) else if tk = TK_GEQ then Some (compare Ge) else None)"

definition preprocess_relational :: "('z, num) parser \<Rightarrow> ('z, num) parser" where
  "preprocess_relational expr list =
     ebind (preprocess_shift expr list) (\<lambda>(l, rest). operator_loop (length rest) relational_ops (preprocess_shift expr) l rest)"

text \<open>
  An operator whose right operand is parsed by the same function, so that it associates to the right. The
  depth of this recursion is bounded by the number of tokens, too.
\<close>

fun operator_right :: "nat \<Rightarrow> (token_type \<Rightarrow> 'z operator option) \<Rightarrow> ('z, num) parser \<Rightarrow> ('z, num) parser" where
  "operator_right n ops sub list =
     ebind (sub list) (\<lambda>(l, rest).
       case rest of
         [] \<Rightarrow> efail Undefined_Behaviour
       | t # ts \<Rightarrow>
           (case ops (ttype t) of
              None \<Rightarrow> eret (l, rest)
            | Some f \<Rightarrow>
                (case n of
                   0 \<Rightarrow> efail Stack_Overflow
                 | Suc m \<Rightarrow> ebind (operator_right m ops sub ts) (\<lambda>(r, rest'). ebind (f l r) (\<lambda>l'. eret (l', rest'))))))"

declare operator_right.simps [simp del]

definition equality_ops :: "token_type \<Rightarrow> 'z operator option" where
  "equality_ops tk = (if tk = TK_EQ then Some (compare Eq) else if tk = TK_NEQ then Some (compare Ne) else None)"

definition preprocess_equality :: "('z, num) parser \<Rightarrow> ('z, num) parser" where
  "preprocess_equality expr list = operator_right (length list) equality_ops (preprocess_relational expr) list"

definition single_op :: "token_type \<Rightarrow> 'z operator \<Rightarrow> token_type \<Rightarrow> 'z operator option" where
  "single_op op f tk = (if tk = op then Some f else None)"

definition preprocess_and :: "('z, num) parser \<Rightarrow> ('z, num) parser" where
  "preprocess_and expr list = operator_right (length list) (single_op TK_AND (arith c_and)) (preprocess_equality expr) list"

definition preprocess_exclusive_or :: "('z, num) parser \<Rightarrow> ('z, num) parser" where
  "preprocess_exclusive_or expr list = operator_right (length list) (single_op TK_XOR (arith c_xor)) (preprocess_and expr) list"

text \<open>Here the right operand is parsed by the function below, and a second operator is left in the line.\<close>

definition preprocess_inclusive_or :: "('z, num) parser \<Rightarrow> ('z, num) parser" where
  "preprocess_inclusive_or expr list =
     ebind (preprocess_exclusive_or expr list) (\<lambda>(l, rest).
     ebind (olift (token_at rest)) (\<lambda>t.
       if ttype t = TK_OR then
         ebind (preprocess_exclusive_or expr (tl rest)) (\<lambda>(r, rest'). ebind (arith c_or l r) (\<lambda>l'. eret (l', rest')))
       else eret (l, rest)))"

definition logical :: "(bool \<Rightarrow> bool \<Rightarrow> bool) \<Rightarrow> 'z operator" where
  "logical f l r = eret \<lparr>n_type = basic_type__long, n_val = (if f (n_val l \<noteq> 0) (n_val r \<noteq> 0) then 1 else 0)\<rparr>"

definition preprocess_logical_and :: "('z, num) parser \<Rightarrow> ('z, num) parser" where
  "preprocess_logical_and expr list =
     operator_right (length list) (single_op TK_LOGICAL_AND (logical (\<and>))) (preprocess_inclusive_or expr) list"

definition preprocess_logical_or :: "('z, num) parser \<Rightarrow> ('z, num) parser" where
  "preprocess_logical_or expr list =
     operator_right (length list) (single_op TK_LOGICAL_OR (logical (\<or>))) (preprocess_logical_and expr) list"

definition select_number :: "num \<Rightarrow> 'z operator" where
  "select_number a b c =
     ebind (both_signed b c) (\<lambda>(sgd, b', c').
       eret \<lparr>n_type = (if sgd then basic_type__long else basic_type__unsigned_long),
              n_val = (if n_val a \<noteq> 0 then n_val b' else n_val c')\<rparr>)"

fun conditional_loop :: "nat \<Rightarrow> ('z, num) parser \<Rightarrow> ('z, num) parser" where
  "conditional_loop n expr list =
     ebind (preprocess_logical_or expr list) (\<lambda>(a, rest).
     ebind (olift (token_at rest)) (\<lambda>t.
       if ttype t = TK_QUESTION then
         (case n of
            0 \<Rightarrow> efail Stack_Overflow
          | Suc m \<Rightarrow>
              ebind (expr (tl rest)) (\<lambda>(b, rest1).
              ebind (expect TK_COLON rest1) (\<lambda>_.
              ebind (conditional_loop m expr (tl rest1)) (\<lambda>(c, rest2).
              ebind (select_number a b c) (\<lambda>num. eret (num, rest2))))))
       else eret (a, rest)))"

declare conditional_loop.simps [simp del]

definition preprocess_conditional :: "('z, num) parser \<Rightarrow> ('z, num) parser" where
  "preprocess_conditional expr list = conditional_loop (length list) expr list"

fun comma_loop :: "nat \<Rightarrow> ('z, num) parser \<Rightarrow> ('z, num) parser" where
  "comma_loop n cond list =
     ebind (cond list) (\<lambda>(num, rest).
     ebind (olift (token_at rest)) (\<lambda>t.
       if ttype t = TK_COMMA then (case n of 0 \<Rightarrow> efail Stack_Overflow | Suc m \<Rightarrow> comma_loop m cond (tl rest))
       else eret (num, rest)))"

declare comma_loop.simps [simp del]

text \<open>
  The recursion through parentheses and conditional operators; the bound is the depth of their nesting.
\<close>

fun preprocess_expression :: "nat \<Rightarrow> ('z, num) parser" where
  "preprocess_expression 0 list = efail Stack_Overflow"
| "preprocess_expression (Suc d) list = comma_loop (length list) (preprocess_conditional (preprocess_expression d)) list"

definition preprocess_constant_expression :: "('z, num) parser" where
  "preprocess_constant_expression list = preprocess_conditional (preprocess_expression (length list)) list"

section \<open>Directives\<close>

text \<open>The texts of the tokens between angle brackets, joined.\<close>

fun join_tokens :: "token list \<Rightarrow> c_string \<Rightarrow> ('z, c_string) mac" where
  "join_tokens [] path = eret path"
| "join_tokens (t # ts) path =
     ebind (olift (tok_str t)) (\<lambda>str s.
       obind (str_cat (mc_strtab s) path str) (\<lambda>(st, r). join_tokens ts r (s\<lparr>mc_strtab := st\<rparr>)))"

text \<open>The text of a string as the C library reads it.\<close>

definition c_text :: "c_string \<Rightarrow> string" where
  "c_text s = takeWhile (\<lambda>c. c \<noteq> CHR 0x00) (str_raw s)"

definition include_line :: "('z, unit) dir \<Rightarrow> token list \<Rightarrow> ('z, unit) dir" where
  "include_line otherwise line =
     (case line of
        [] \<Rightarrow> efail Undefined_Behaviour
      | t # ts \<Rightarrow>
          if ttype t = TK_PREP_STRING then
            (if length line > 2 then eerror ''Stray tokens in include directive.''
             else ebind (olift (tok_str t)) (\<lambda>path. include_file (c_text path)))
          else if ttype t = TK_LT then
            (if length line < 2 then efail Undefined_Behaviour
             else if ttype (line ! (length line - 2)) = TK_GT then
               ebind (join_tokens (butlast (butlast ts)) (str_init [])) (\<lambda>path. include_system_file (c_text path))
             else otherwise)
          else otherwise)"

definition preprocess_include :: "token list \<Rightarrow> ('z, unit) dir" where
  "preprocess_include line =
     ebind (olift (token_at line)) (\<lambda>t.
     ebind (tok_is t ident__include) (\<lambda>inc.
     ebind (eassert inc) (\<lambda>_.
     ebind (eassert (ttype (last line) = TK_NEWLINE)) (\<lambda>_.
       include_line
         (ebind (expand (tl line)) (\<lambda>(line', n). include_line (eerror ''Invalid include directive.'') line'))
         (tl line)))))"

text \<open>
  The parameters of a function-like macro, behind the parenthesis: whether the macro takes variable arguments, the
  names, and the rest of the line.
\<close>

fun define_params :: "token list \<Rightarrow> token list \<Rightarrow> (bool \<times> token list \<times> token list) outcome" where
  "define_params params [] = Inl Undefined_Behaviour"
| "define_params params (t # ts) =
     (if ttype t = TK_CLOSE_PAREN then Inr (False, params, t # ts)
      else if ttype t = TK_DOTS then Inr (True, params @ [ident__VA_ARGS__ident], ts)
      else if ttype t \<noteq> TK_IDENTIFIER then Inl (Exit_Error ''Invalid macro parameter, expected identifer.'')
      else
        (case ts of
           [] \<Rightarrow> Inl Undefined_Behaviour
         | c # cs \<Rightarrow> if ttype c \<noteq> TK_COMMA then Inr (False, params @ [t], ts) else define_params (params @ [t]) cs))"

fun param_index :: "type_store \<Rightarrow> token \<Rightarrow> token list \<Rightarrow> nat \<Rightarrow> nat option outcome" where
  "param_index ts t [] i = Inr None"
| "param_index ts t (p # ps) i = obind (tok_cmp ts t p) (\<lambda>d. if \<not> d then Inr (Some i) else param_index ts t ps (i + 1))"

definition param_token :: "nat \<Rightarrow> token" where
  "param_token i = zero_token\<lparr>ttype := TK_PARAM, tdata := TVal (of_nat i)\<rparr>"

fun define_replacement :: "type_store \<Rightarrow> bool \<Rightarrow> token list \<Rightarrow> token list \<Rightarrow> token list outcome" where
  "define_replacement ts function_like params [] = Inl Undefined_Behaviour"
| "define_replacement ts function_like params (t # line) =
     (if ttype t = TK_NEWLINE then Inr []
      else
        obind (oassert (ttype t \<noteq> TK_END)) (\<lambda>_.
        obind (if ttype t = TK_IDENTIFIER \<and> function_like then param_index ts t params 0 else Inr None) (\<lambda>i.
        obind (define_replacement ts function_like params line) (\<lambda>r.
          Inr ((case i of Some j \<Rightarrow> param_token j | None \<Rightarrow> t) # r)))))"

text \<open>A macro is function-like if a parenthesis follows its name immediately.\<close>

definition preprocess_define :: "token list \<Rightarrow> ('z, macro) mac" where
  "preprocess_define line =
     ebind (eget mc_types) (\<lambda>ts.
     ebind (olift (token_at line)) (\<lambda>t.
     ebind (olift (tok_str t)) (\<lambda>name.
       if \<not> is_expandable t then eerror ''Invalid definition of %s as a macro''
       else
         ebind (olift (token_at (tl line))) (\<lambda>p.
           let function_like = (ttype p = TK_OPEN_PAREN \<and> leading_whitespace p = 0) in
           ebind
             (if function_like then
                ebind (olift (define_params [] (drop 2 line))) (\<lambda>(vararg, params, rest).
                ebind (olift (token_at rest)) (\<lambda>c.
                  if ttype c \<noteq> TK_CLOSE_PAREN then eerror ''Expected %s, but got %s.''
                  else eret (vararg, params, tl rest)))
              else eret (False, [], tl line)) (\<lambda>(vararg, params, rest).
           ebind (olift (define_replacement ts function_like params rest)) (\<lambda>r.
             eret (zero_macro\<lparr>mac_name := name, mac_type := (if function_like then FUNCTION_LIKE else OBJECT_LIKE),
               mac_params := length params, mac_is_vararg := vararg, mac_replacement := r\<rparr>)))))))"

text \<open>The line number is stored in an \<open>int\<close>.\<close>

definition preprocess_line_directive :: "token list \<Rightarrow> ('z, unit) dir" where
  "preprocess_line_directive line =
     ebind (olift (token_at line)) (\<lambda>t0.
     ebind (eget dr_lib) (\<lambda>lib.
     ebind (if ttype t0 = TK_PREP_NUMBER then olift (convert_preprocessing_number lib t0) else eret t0) (\<lambda>t.
       if ttype t \<noteq> TK_NUMBER \<or> \<not> is_int (tktype t) then eerror ''Expected positive integer in #line directive.''
       else
         ebind (olift (tok_val t)) (\<lambda>v.
           if sint v \<le> 0 then eerror ''Expected positive integer in #line directive.''
           else
             ebind (emodify (\<lambda>s. s\<lparr>mc_line := sint (ucast (v - 1) :: 32 word)\<rparr>)) (\<lambda>_.
             ebind (olift (token_at (tl line))) (\<lambda>p.
             ebind
               (if ttype p = TK_PREP_STRING then
                  ebind (olift (tok_str p)) (\<lambda>path. ebind (emodify (\<lambda>s. s\<lparr>mc_path := path\<rparr>)) (\<lambda>_. eret (drop 2 line)))
                else eret (tl line)) (\<lambda>rest.
             ebind (olift (token_at rest)) (\<lambda>e.
               if ttype e \<noteq> TK_NEWLINE then eerror ''Unexpected token in #line directive.'' else eret ()))))))))"

text \<open>The conditional directives, given their lines after expansion.\<close>

definition branch_of :: "bool \<Rightarrow> branch" where
  "branch_of b = (if b then BRANCH_LIVE else BRANCH_DEAD)"

definition directive_if :: "token list \<Rightarrow> ('z, unit) dir" where
  "directive_if line =
     ebind (eget in_active_block) (\<lambda>active.
       if active then
         ebind (preprocess_constant_expression (tl line)) (\<lambda>(num, rest). push_state (branch_of (n_val num \<noteq> 0)))
       else push_state BRANCH_DISABLED)"

definition directive_else :: "('z, unit) inp" where
  "directive_else =
     ebind pop_state (\<lambda>state.
     ebind (eget in_active_block) (\<lambda>active.
       if active then push_state (if state = BRANCH_DEAD then BRANCH_LIVE else BRANCH_DISABLED)
       else ebind (eassert (state = BRANCH_DISABLED)) (\<lambda>_. push_state BRANCH_DISABLED)))"

definition directive_elif :: "token list \<Rightarrow> ('z, unit) dir" where
  "directive_elif line =
     ebind pop_state (\<lambda>state.
     ebind (eget in_active_block) (\<lambda>active.
       if active then
         if state = BRANCH_DEAD then
           ebind (preprocess_constant_expression (tl line)) (\<lambda>(num, rest). push_state (branch_of (n_val num \<noteq> 0)))
         else push_state BRANCH_DISABLED
       else ebind (eassert (state = BRANCH_DISABLED)) (\<lambda>_. push_state BRANCH_DISABLED)))"

definition directive_ifdef :: "bool \<Rightarrow> string \<Rightarrow> token list \<Rightarrow> ('z, unit) inp" where
  "directive_ifdef positive msg line =
     ebind (eget in_active_block) (\<lambda>active.
       if active then
         ebind (olift (token_at (tl line))) (\<lambda>t.
           if \<not> is_expandable t then eerror msg
           else
             ebind (olift (tok_str t)) (\<lambda>name.
             ebind (macro_definition name) (\<lambda>def. push_state (branch_of ((def \<noteq> None) = positive)))))
       else push_state BRANCH_DISABLED)"

definition directive_undef :: "token list \<Rightarrow> ('z, unit) mac" where
  "directive_undef line =
     ebind (olift (token_at (tl line))) (\<lambda>t.
       if \<not> is_expandable t then eerror ''Expected identifier in undef clause.''
       else ebind (olift (tok_str t)) undef)"

text \<open>The directives of an active block; the tokens of the line select_number among them in this order.\<close>

definition directive_active :: "token list \<Rightarrow> token \<Rightarrow> ('z, unit) dir" where
  "directive_active line t =
     ebind (tok_is t ident__define) (\<lambda>b. if b then ebind (preprocess_define (tl line)) define_macro else
     ebind (tok_is t ident__undef) (\<lambda>b. if b then directive_undef line else
     ebind (tok_is t ident__include) (\<lambda>b. if b then preprocess_include line else
     ebind (tok_is t ident__line) (\<lambda>b. if b then preprocess_line_directive (tl line) else
     ebind (tok_is t ident__error) (\<lambda>b. if b then ebind (stringify (tl line)) (\<lambda>_. eerror ''%s'') else
       eerror ''Unsupported preprocessor directive %s.'')))))"

text \<open>Macros are expanded for conditions and line numbers only.\<close>

definition expands_line :: "token \<Rightarrow> ('z, bool) inp" where
  "expands_line t =
     (if ttype t = TK_IF then eret True
      else
        ebind (tok_is t ident__elif) (\<lambda>b. if b then eret True else
        ebind (eget in_active_block) (\<lambda>active. if active then tok_is t ident__line else eret False)))"

definition preprocess_directive :: "token list \<Rightarrow> ('z, unit) dir" where
  "preprocess_directive array =
     ebind (olift (token_at array)) (\<lambda>t0.
     ebind (expands_line t0) (\<lambda>ex.
     ebind (if ex then ebind (expand array) (\<lambda>(l, n). eret l) else eret array) (\<lambda>line.
     ebind (olift (token_at line)) (\<lambda>t.
       if ttype t = TK_IF then directive_if line
       else if ttype t = TK_ELSE then directive_else
       else
         ebind (tok_is t ident__elif) (\<lambda>b. if b then directive_elif line else
         ebind (tok_is t ident__endif) (\<lambda>b. if b then ebind pop_state (\<lambda>_. eret ()) else
         ebind (tok_is t ident__ifndef) (\<lambda>b. if b then directive_ifdef False ''Expected identifier in ifndef clause.'' line else
         ebind (tok_is t ident__ifdef) (\<lambda>b. if b then directive_ifdef True ''Expected identifier in ifdef clause.'' line else
         ebind (eget in_active_block) (\<lambda>active. if active then directive_active line t else eret ())))))))))"

end
