(* ===== verification/Directive_Correct.thy ===== *)
theory Directive_Correct
  imports Directive Eval_Correct Tokenizer_Correct
begin

text \<open>
  Correctness of directives: the stack of conditional blocks refines the history of conditions of all open groups, and
  conditions have the values that C prescribes.
\<close>

section \<open>What operations leave alone\<close>

text \<open>An operation leaves a part of the state alone; a steady one leaves all of it.\<close>

named_theorems leaves_intros "operations that leave a part of the state alone"

abbreviation leaves :: "('s \<Rightarrow> 'k) \<Rightarrow> ('s, 'a) sm \<Rightarrow> bool" where
  "leaves k \<equiv> within (\<lambda>s s'. k s' = k s)"

abbreviation steady :: "('s, 'a) sm \<Rightarrow> bool" where
  "steady \<equiv> leaves (\<lambda>s. s)"

lemma leaves_preorder [simp]: "reflp (\<lambda>s s'. k s' = k s)" "transp (\<lambda>s s'. k s' = k s)"
  by (simp_all add: reflp_def transp_def)

lemmas leavesD = withinD [of "\<lambda>s s'. k s' = k s" for k]
lemmas leaves_emodify = within_emodify [of "\<lambda>s s'. k s' = k s" for k]
lemmas leaves_basic [leaves_intros] = within_basic [OF leaves_preorder(1)]
lemmas leaves_ebind [leaves_intros] = within_ebind [OF leaves_preorder(2)]
lemmas leaves_cases [leaves_intros] = within_cases [of "\<lambda>s s'. k s' = k s" for k]

lemma leaves_fuel [leaves_intros]:
  "leaves k m \<Longrightarrow> leaves k (case 0 of 0 \<Rightarrow> m | Suc x \<Rightarrow> f x)" "leaves k (f n) \<Longrightarrow> leaves k (case Suc n of 0 \<Rightarrow> m | Suc x \<Rightarrow> f x)"
  by simp_all

section \<open>Parsers of expressions leave the state alone\<close>

lemma steady_undefined [leaves_intros]:
  "(\<And>x. steady (f x)) \<Longrightarrow> steady (ebind (macro_definition name) (\<lambda>def. ebind (eassert (def = None)) f))"
  unfolding within_def
  by (auto simp: ebind_Inr macro_definition_def table_def ev_simps outcome_simps split: option.splits if_splits)

lemma steady_expect [leaves_intros]: "steady (expect tk list)"
  unfolding expect_def by (intro leaves_intros)

lemma steady_convert [leaves_intros]: "steady (convert_number ty n)"
  unfolding convert_number_def by (intro leaves_intros)

lemma steady_normalize [leaves_intros]: "steady (normalize_number n)" "steady (token_number t)"
  unfolding normalize_number_def token_number_def by (intro leaves_intros)+

lemma steady_both_signed [leaves_intros]: "steady (both_signed l r)"
  unfolding both_signed_def by (intro leaves_intros)

lemma steady_operators [leaves_intros]:
  "steady (arith f l r)" "steady (compare c l r)" "steady (divide msg f l r)" "steady (logical g l r)" "steady (select_number a l r)"
  unfolding arith_def compare_def divide_def logical_def select_number_def by (intro leaves_intros)+

definition steady_ops :: "(token_type \<Rightarrow> 'z operator option) \<Rightarrow> bool" where
  "steady_ops ops \<longleftrightarrow> (\<forall>tk f l r. ops tk = Some f \<longrightarrow> steady (f l r))"

lemma steady_tables:
  "steady_ops multiplicative_ops" "steady_ops additive_ops" "steady_ops shift_ops" "steady_ops relational_ops" "steady_ops equality_ops"
  "steady_ops (single_op op (arith f))" "steady_ops (single_op op (logical g))"
  by (auto simp: steady_ops_def multiplicative_ops_def additive_ops_def shift_ops_def relational_ops_def equality_ops_def single_op_def
      intro: steady_operators split: if_splits)

lemma steady_opsD: "steady_ops ops \<Longrightarrow> (\<And>f. (\<And>l r. steady (f l r)) \<Longrightarrow> steady (g f)) \<Longrightarrow> steady m \<Longrightarrow> steady (case ops tk of None \<Rightarrow> m | Some f \<Rightarrow> g f)"
  by (cases "ops tk") (auto simp: steady_ops_def)

lemma steady_loop:
  assumes "steady_ops ops" "\<And>l. steady (sub l)"
  shows "steady (operator_loop n ops sub l list)"
proof (induction n arbitrary: l list)
  case 0
  show ?case by (cases list) (simp_all, (intro steady_opsD [OF assms(1)] leaves_intros)+)
next
  case (Suc n)
  show ?case by (cases list) (simp_all del: nat.case, (intro steady_opsD [OF assms(1)] leaves_intros assms(2) Suc | assumption)+)
qed

lemma steady_right:
  assumes "steady_ops ops" "\<And>l. steady (sub l)"
  shows "steady (operator_right n ops sub list)"
proof (induction n arbitrary: list)
  case 0
  show ?case by (subst operator_right.simps) (intro leaves_ebind leaves_cases steady_opsD [OF assms(1)] leaves_intros assms(2))
next
  case (Suc n)
  show ?case
    by (subst operator_right.simps)
      (intro leaves_ebind leaves_cases steady_opsD [OF assms(1)] leaves_intros assms(2) Suc | assumption)+
qed

lemma steady_unary: 
  assumes "\<And>l. steady (expr l)"
  shows "steady (preprocess_unary expr list)"
proof (induction list)
  case (Cons t ts)
  have "steady (preprocess_primary expr (t # ts))"
    unfolding preprocess_primary_def by (auto intro!: leaves_intros assms)
  then show ?case using Cons by (auto intro!: leaves_intros)
qed (simp add: leaves_basic)

lemma steady_levels:
  assumes "\<And>l. steady (expr l)"
  shows "steady (preprocess_multiplicative expr list)" "steady (preprocess_additive expr list)" "steady (preprocess_shift expr list)"
    "steady (preprocess_relational expr list)" "steady (preprocess_equality expr list)" "steady (preprocess_and expr list)"
    "steady (preprocess_exclusive_or expr list)" "steady (preprocess_inclusive_or expr list)"
    "steady (preprocess_logical_and expr list)" "steady (preprocess_logical_or expr list)"
proof -
  note rules = leaves_intros steady_loop steady_right steady_tables
  have 1: "steady (preprocess_multiplicative expr l)" for l
    unfolding preprocess_multiplicative_def by (intro rules steady_unary assms)
  have 2: "steady (preprocess_additive expr l)" for l unfolding preprocess_additive_def by (intro rules 1)
  have 3: "steady (preprocess_shift expr l)" for l unfolding preprocess_shift_def by (intro rules 2)
  have 4: "steady (preprocess_relational expr l)" for l unfolding preprocess_relational_def by (intro rules 3)
  have 5: "steady (preprocess_equality expr l)" for l unfolding preprocess_equality_def by (intro rules 4)
  have 6: "steady (preprocess_and expr l)" for l unfolding preprocess_and_def by (intro rules 5)
  have 7: "steady (preprocess_exclusive_or expr l)" for l unfolding preprocess_exclusive_or_def by (intro rules 6)
  have 8: "steady (preprocess_inclusive_or expr l)" for l unfolding preprocess_inclusive_or_def by (intro rules 7)
  have 9: "steady (preprocess_logical_and expr l)" for l unfolding preprocess_logical_and_def by (intro rules 8)
  have 10: "steady (preprocess_logical_or expr l)" for l unfolding preprocess_logical_or_def by (intro rules 9)
  show "steady (preprocess_multiplicative expr list)" "steady (preprocess_additive expr list)" "steady (preprocess_shift expr list)"
    "steady (preprocess_relational expr list)" "steady (preprocess_equality expr list)" "steady (preprocess_and expr list)"
    "steady (preprocess_exclusive_or expr list)" "steady (preprocess_inclusive_or expr list)"
    "steady (preprocess_logical_and expr list)" "steady (preprocess_logical_or expr list)"
    by (rule 1 2 3 4 5 6 7 8 9 10)+
qed

lemma steady_conditional:
  assumes "\<And>l. steady (expr l)"
  shows "steady (preprocess_conditional expr list)"
proof -
  have "steady (conditional_loop n expr list)" for n
  proof (induction n arbitrary: list)
    case 0
    show ?case by (subst conditional_loop.simps) (intro leaves_intros steady_levels assms)
  next
    case (Suc n)
    show ?case by (subst conditional_loop.simps) (intro leaves_intros steady_levels assms Suc)
  qed
  then show ?thesis by (simp add: preprocess_conditional_def)
qed

lemma steady_comma:
  assumes "\<And>l. steady (cond l)"
  shows "steady (comma_loop n cond list)"
proof (induction n arbitrary: list)
  case 0
  show ?case by (subst comma_loop.simps) (intro leaves_intros assms)
next
  case (Suc n)
  show ?case by (subst comma_loop.simps) (intro leaves_intros assms Suc)
qed

lemma steady_expression: "steady (preprocess_expression d list)"
  by (induction d arbitrary: list) (simp_all add: leaves_basic steady_comma steady_conditional)

lemma steady_constant_expression [leaves_intros]: "steady (preprocess_constant_expression list)"
  unfolding preprocess_constant_expression_def by (intro steady_conditional steady_expression)

section \<open>Conditional blocks\<close>

text \<open>
  A group is the list of its conditions so far, the last one first, where that of \<open>#else\<close> is true and conditions that are not
  looked at count as false. Its current part is selected if its condition is the first one that is true.
\<close>

type_synonym group = "bool list"

definition selected :: "group \<Rightarrow> bool" where
  "selected g \<longleftrightarrow> g \<noteq> [] \<and> hd g \<and> True \<notin> set (tl g)"

lemma selected_Cons [simp]: "selected (b # g) \<longleftrightarrow> b \<and> True \<notin> set g"
  by (auto simp: selected_def)

lemma selected_in: "selected g \<Longrightarrow> True \<in> set g"
  by (cases g) (simp_all add: selected_def)

fun branches_of :: "group list \<Rightarrow> branch list" where
  "branches_of [] = []"
| "branches_of (g # gs) =
     (if \<not> list_all selected gs then BRANCH_DISABLED
      else if selected g then BRANCH_LIVE
      else if True \<in> set g then BRANCH_DISABLED
      else BRANCH_DEAD) # branches_of gs"

datatype conditional = C_If "token list" | C_Elif "token list" | C_Else | C_Endif | C_Ifdef bool string "token list"

fun do_conditional :: "conditional \<Rightarrow> ('z, unit) dir" where
  "do_conditional (C_If line) = directive_if line"
| "do_conditional (C_Elif line) = directive_elif line"
| "do_conditional C_Else = directive_else"
| "do_conditional C_Endif = ebind pop_state (\<lambda>_. eret ())"
| "do_conditional (C_Ifdef positive msg line) = directive_ifdef positive msg line"

text \<open>The condition of a directive, where it has one.\<close>

definition expression_holds :: "token list \<Rightarrow> ('z, bool) dir" where
  "expression_holds line = ebind (preprocess_constant_expression (tl line)) (\<lambda>(num, rest). eret (n_val num \<noteq> 0))"

definition macro_defined :: "string \<Rightarrow> token list \<Rightarrow> ('z, bool) mac" where
  "macro_defined msg line =
     ebind (olift (token_at (tl line))) (\<lambda>t.
       if \<not> is_expandable t then eerror msg
       else ebind (olift (tok_str t)) (\<lambda>name. ebind (macro_definition name) (\<lambda>def. eret (def \<noteq> None))))"

fun condition :: "conditional \<Rightarrow> ('z, bool) dir" where
  "condition (C_If line) = expression_holds line"
| "condition (C_Elif line) = ebind pop_state (\<lambda>_. expression_holds line)"
| "condition (C_Ifdef positive msg line) = ebind (macro_defined msg line) (\<lambda>d. eret (d = positive))"
| "condition _ = eret True"

text \<open>The step on groups, given the outcome of the condition.\<close>

definition open_group :: "bool outcome \<Rightarrow> group list \<Rightarrow> group list outcome" where
  "open_group c gs = (if list_all selected gs then obind c (\<lambda>b. Inr ([b] # gs)) else Inr ([False] # gs))"

definition change_group :: "(group \<Rightarrow> group list \<Rightarrow> group list outcome) \<Rightarrow> group list \<Rightarrow> group list outcome" where
  "change_group f gs = (case gs of [] \<Rightarrow> Inl (Exit_Error ''Unmatched #endif directive.'') | g # gs' \<Rightarrow> f g gs')"

fun group_step :: "bool outcome \<Rightarrow> conditional \<Rightarrow> group list \<Rightarrow> group list outcome" where
  "group_step c (C_If line) gs = open_group c gs"
| "group_step c (C_Ifdef positive msg line) gs = open_group c gs"
| "group_step c (C_Elif line) gs =
     change_group (\<lambda>g gs'. if list_all selected gs' \<and> True \<notin> set g then obind c (\<lambda>b. Inr ((b # g) # gs')) else Inr ((False # g) # gs')) gs"
| "group_step c C_Else gs = change_group (\<lambda>g gs'. Inr ((True # g) # gs')) gs"
| "group_step c C_Endif gs = change_group (\<lambda>g gs'. Inr gs') gs"

lemma active_selected:
  assumes "in_branches s = branches_of gs"
  shows "in_active_block s \<longleftrightarrow> list_all selected gs"
  using assms by (cases gs) (auto simp: in_active_block_def)

lemma leaves_macro_definition:
  assumes "\<And>s v. k (s\<lparr>mc_table := v\<rparr>) = k s" "\<And>s v. k (s\<lparr>mc_strtab := v\<rparr>) = k s"
  shows "leaves k (macro_definition name)"
proof -
  have table: "leaves k table" by (auto simp: within_def table_def split: option.splits)
  have set: "leaves k (set_table t)" for t unfolding set_table_def by (rule leaves_emodify) (rule assms(1))
  have "leaves k get__line__token" "leaves k get__file__token"
    using assms(2) by (auto simp: within_def get__line__token_def get__file__token_def read_string_def ev_simps outcome_simps)
  then show ?thesis
    unfolding macro_definition_def replace_first_def Let_def by (intro leaves_intros table set)
qed

lemma macro_definition_branches: "macro_definition name s = Inr (d, s') \<Longrightarrow> in_branches s' = in_branches s"
  by (rule leavesD [OF leaves_macro_definition]) simp_all

lemma expression_holds_eq:
  "expression_holds line s = (case preprocess_constant_expression (tl line) s of Inl e \<Rightarrow> Inl e | Inr ((n, rest), s') \<Rightarrow> Inr (n_val n \<noteq> 0, s))"
  using leavesD [OF steady_constant_expression, of "tl line" s]
  by (cases "preprocess_constant_expression (tl line) s") (auto simp: expression_holds_def ebind_def eret_def)

lemma branches_of_open:
  "branches_of ([b] # gs) = (if list_all selected gs then branch_of b else BRANCH_DISABLED) # branches_of gs"
  by (simp add: selected_def branch_of_def)

lemma if_refines:
  assumes "in_branches s = branches_of gs"
  shows "case directive_if line s of
      Inl e \<Rightarrow> open_group (map_sum id fst (expression_holds line s)) gs = Inl e
    | Inr (u, s') \<Rightarrow> \<exists>gs'. open_group (map_sum id fst (expression_holds line s)) gs = Inr gs' \<and> in_branches s' = branches_of gs'"
  using active_selected [OF assms] leavesD [OF steady_constant_expression, of "tl line" s] assms
  by (cases "preprocess_constant_expression (tl line) s")
    (auto simp: directive_if_def open_group_def expression_holds_eq push_state_def branches_of_open simp del: branches_of.simps
      simp add: ev_simps)

lemma if_ebind: "ebind (if b then m else m') f = (if b then ebind m f else ebind m' f)"
  by simp

lemma ifdef_refines:
  assumes "in_branches s = branches_of gs"
  shows "case directive_ifdef positive msg line s of
      Inl e \<Rightarrow> open_group (map_sum id fst (ebind (macro_defined msg line) (\<lambda>d. eret (d = positive)) s)) gs = Inl e
    | Inr (u, s') \<Rightarrow> \<exists>gs'. open_group (map_sum id fst (ebind (macro_defined msg line) (\<lambda>d. eret (d = positive)) s)) gs = Inr gs' \<and>
        in_branches s' = branches_of gs'"
proof (cases "list_all selected gs")
  case False
  then show ?thesis
    using active_selected [OF assms] assms by (simp add: directive_ifdef_def open_group_def push_state_def ebind_def eget_def emodify_def)
next
  case True
  then have "directive_ifdef positive msg line s =
      ebind (macro_defined msg line) (\<lambda>d. push_state (branch_of (d = positive))) s"
    using active_selected [OF assms]
    by (simp add: directive_ifdef_def macro_defined_def ebind_def [of "eget in_active_block"] eget_def ebind_assoc if_ebind eerror_def cong: if_cong)
  moreover have "in_branches s1 = branches_of gs" if "macro_defined msg line s = Inr (b, s1)" for b s1
  proof -
    have "leaves in_branches (macro_defined msg line)"
      unfolding macro_defined_def by (intro leaves_intros leaves_macro_definition) simp_all
    then show ?thesis using leavesD that assms by metis
  qed
  ultimately show ?thesis
    using True
    by (cases "macro_defined msg line s")
      (auto simp: ebind_def eret_def push_state_def emodify_def open_group_def branches_of_open simp del: branches_of.simps)
qed

lemma conditional_refines:
  assumes "in_branches s = branches_of gs"
  shows "case do_conditional d s of
       Inl e \<Rightarrow> group_step (map_sum id fst (condition d s)) d gs = Inl e
     | Inr (u, s') \<Rightarrow> \<exists>gs'. group_step (map_sum id fst (condition d s)) d gs = Inr gs' \<and> in_branches s' = branches_of gs'"
proof (cases d)
  case (C_If line)
  then show ?thesis using if_refines [OF assms, of line] by (simp only: do_conditional.simps condition.simps group_step.simps)
next
  case (C_Ifdef positive msg line)
  then show ?thesis using ifdef_refines [OF assms, of msg line positive] by (simp only: do_conditional.simps condition.simps group_step.simps)
next
  case (C_Elif line)
  show ?thesis
  proof (cases gs)
    case Nil
    then show ?thesis using C_Elif assms by (simp add: directive_elif_def pop_state_def change_group_def ebind_def)
  next
    case (Cons g gs')
    let ?s = "s\<lparr>in_branches := branches_of gs'\<rparr>"
    have pop: "pop_state s = Inr (hd (branches_of gs), ?s)" using assms Cons by (simp add: pop_state_def)
    have active: "in_active_block ?s \<longleftrightarrow> list_all selected gs'" by (rule active_selected) simp
    show ?thesis
      using C_Elif pop active Cons leavesD [OF steady_constant_expression, of "tl line" ?s]
      by (cases "preprocess_constant_expression (tl line) ?s")
        (auto simp: directive_elif_def change_group_def ebind_def expression_holds_eq push_state_def eget_def eassert_def efail_def eret_def
          emodify_def branch_of_def dest: selected_in)
  qed
next
  case C_Else
  show ?thesis
  proof (cases gs)
    case Nil
    then show ?thesis using C_Else assms by (simp add: directive_else_def pop_state_def change_group_def ebind_def)
  next
    case (Cons g gs')
    let ?s = "s\<lparr>in_branches := branches_of gs'\<rparr>"
    have pop: "pop_state s = Inr (hd (branches_of gs), ?s)" using assms Cons by (simp add: pop_state_def)
    have active: "in_active_block ?s \<longleftrightarrow> list_all selected gs'" by (rule active_selected) simp
    show ?thesis
      using C_Else pop active Cons
      by (auto simp: directive_else_def change_group_def ebind_def push_state_def eget_def eassert_def efail_def eret_def emodify_def dest: selected_in)
  qed
next
  case C_Endif
  then show ?thesis using assms by (cases gs) (auto simp: pop_state_def change_group_def ebind_def eret_def)
qed

text \<open>
  Property C12. The stack of branches stands for the conditions of all open groups: each of \<open>#if\<close>, \<open>#ifdef\<close>, \<open>#ifndef\<close>, \<open>#elif\<close>, \<open>#else\<close> and
  \<open>#endif\<close> takes one representation to the other, with the same errors, and no assertion fails. A block is active
  exactly if in every open group the last condition is the first one that is true. Conditions are looked at only where they
  matter, and the blocks of a group are all skipped where the group itself is.
\<close>

theorem conditional_blocks_refine:
  assumes "in_branches s = branches_of gs"
  shows "(in_active_block s \<longleftrightarrow> list_all selected gs) \<and>
    (case do_conditional d s of
       Inl e \<Rightarrow> group_step (map_sum id fst (condition d s)) d gs = Inl e
     | Inr (u, s') \<Rightarrow> \<exists>gs'. group_step (map_sum id fst (condition d s)) d gs = Inr gs' \<and> in_branches s' = branches_of gs')"
  using active_selected [OF assms] conditional_refines [OF assms] by blast

definition directive_start :: directive_state where
  "directive_start = \<lparr>mc_strtab = strtab_empty, mc_types = empty_types, mc_std = STD_C89, mc_table = None, mc_path = zero_string,
     mc_line = 1, mc_stack = 8, in_search = [], in_sources = [], in_stale = False, in_branches = [], in_files = \<lambda>p. None,
     in_stdin = [], dr_lib = \<lparr>strtod = \<lambda>s. (0, 0, False), double_to_float = \<lambda>d. 0\<rparr>, dr_floats = no_floats\<rparr>"

text \<open>In a group that follows a true condition, inside an active group, \<open>#else\<close> makes the rest of the group dead.\<close>

theorem conditional_blocks_refine_witness:
  "\<not> in_active_block (directive_start\<lparr>in_branches := branches_of [[False, True], [True]]\<rparr>) \<and>
   (\<exists>s'. do_conditional C_Else (directive_start\<lparr>in_branches := branches_of [[False, True], [True]]\<rparr>) = Inr ((), s') \<and>
     in_branches s' = branches_of [[True, False, True], [True]])"
  using conditional_blocks_refine [of "directive_start\<lparr>in_branches := branches_of [[False, True], [True]]\<rparr>" "[[False, True], [True]]" C_Else]
  by (auto simp: change_group_def split: sum.splits)

section \<open>Values of conditions\<close>

text \<open>
  Expressions, written with parentheses around every operator with two or three operands. A constant is a
  string of digits, with or without the suffix of unsigned constants.
\<close>

datatype unary = U_Plus | U_Minus | U_Complement | U_Not

datatype binary =
    B_Mul | B_Div | B_Mod | B_Add | B_Sub | B_Shl | B_Shr | B_Lt | B_Gt | B_Le | B_Ge | B_Eq | B_Ne | B_And | B_Xor | B_Or
  | B_Logical_And | B_Logical_Or

datatype pexp =
    P_Num string bool
  | P_Ident string
  | P_Unary unary pexp
  | P_Binary binary pexp pexp
  | P_Cond pexp pexp pexp

fun unary_token :: "unary \<Rightarrow> token_type" where
  "unary_token U_Plus = TK_PLUS"
| "unary_token U_Minus = TK_MINUS"
| "unary_token U_Complement = TK_NEG"
| "unary_token U_Not = TK_NOT"

fun binary_token :: "binary \<Rightarrow> token_type" where
  "binary_token B_Mul = TK_STAR"
| "binary_token B_Div = TK_SLASH"
| "binary_token B_Mod = TK_MODULO"
| "binary_token B_Add = TK_PLUS"
| "binary_token B_Sub = TK_MINUS"
| "binary_token B_Shl = TK_LSHIFT"
| "binary_token B_Shr = TK_RSHIFT"
| "binary_token B_Lt = TK_LT"
| "binary_token B_Gt = TK_GT"
| "binary_token B_Le = TK_LEQ"
| "binary_token B_Ge = TK_GEQ"
| "binary_token B_Eq = TK_EQ"
| "binary_token B_Ne = TK_NEQ"
| "binary_token B_And = TK_AND"
| "binary_token B_Xor = TK_XOR"
| "binary_token B_Or = TK_OR"
| "binary_token B_Logical_And = TK_LOGICAL_AND"
| "binary_token B_Logical_Or = TK_LOGICAL_OR"

definition sign_token :: "token_type \<Rightarrow> token" where
  "sign_token tk = zero_token\<lparr>ttype := tk\<rparr>"

definition constant_token :: "string \<Rightarrow> bool \<Rightarrow> token" where
  "constant_token ds u = zero_token\<lparr>ttype := TK_PREP_NUMBER, tdata := TStr (str_init (ds @ (if u then ''u'' else [])))\<rparr>"

fun tokens_of :: "pexp \<Rightarrow> token list" where
  "tokens_of (P_Num ds u) = [constant_token ds u]"
| "tokens_of (P_Ident name) = [IDN TK_IDENTIFIER name]"
| "tokens_of (P_Unary op e) = sign_token (unary_token op) # tokens_of e"
| "tokens_of (P_Binary op a b) =
     sign_token TK_OPEN_PAREN # tokens_of a @ sign_token (binary_token op) # tokens_of b @ [sign_token TK_CLOSE_PAREN]"
| "tokens_of (P_Cond a b c) =
     sign_token TK_OPEN_PAREN # tokens_of a @ sign_token TK_QUESTION # tokens_of b @ sign_token TK_COLON # tokens_of c @ [sign_token TK_CLOSE_PAREN]"

subsection \<open>The values of the standard\<close>

text \<open>
  C11, 6.6 and 6.10.1: all integers have the types \<open>intmax_t\<close> or \<open>uintmax_t\<close>, both of 64 bits. The type of an expression
  is a static property of it: a shift has the type of its left operand, \<open>!\<close>, comparisons and the logical operators give signed
  integers, and the other operators, with \<open>?:\<close>, have the common type of their operands.
\<close>

definition shifts :: "binary set" where "shifts = {B_Shl, B_Shr}"

definition truth_valued :: "binary set" where
  "truth_valued = {B_Lt, B_Gt, B_Le, B_Ge, B_Eq, B_Ne, B_Logical_And, B_Logical_Or}"

fun c_signed :: "pexp \<Rightarrow> bool" where
  "c_signed (P_Num ds u) = (\<not> u \<and> Tokenize.digits_value 10 0 ds < 2 ^ 63)"
| "c_signed (P_Ident name) = True"
| "c_signed (P_Unary op e) = (op = U_Not \<or> c_signed e)"
| "c_signed (P_Binary op a b) =
     (if op \<in> truth_valued then True else if op \<in> shifts then c_signed a else c_signed a \<and> c_signed b)"
| "c_signed (P_Cond a b c) = (c_signed b \<and> c_signed c)"

text \<open>Conversion of an operand to a type, and the result of an operator in a type: signed overflow is undefined.\<close>

definition as_type :: "bool \<Rightarrow> int \<Rightarrow> int" where
  "as_type sgd v = (if sgd then v else v mod 2 ^ 64)"

definition fit :: "bool \<Rightarrow> int \<Rightarrow> int outcome" where
  "fit sgd v = (if sgd then (if - (2 ^ 63) \<le> v \<and> v < 2 ^ 63 then Inr v else Inl Undefined_Behaviour) else Inr (v mod 2 ^ 64))"

fun c_unary :: "unary \<Rightarrow> bool \<Rightarrow> int \<Rightarrow> int outcome" where
  "c_unary U_Plus sgd x = Inr x"
| "c_unary U_Minus sgd x = fit sgd (- x)"
| "c_unary U_Complement sgd x = fit sgd (- x - 1)"
| "c_unary U_Not sgd x = Inr (if x = 0 then 1 else 0)"

text \<open>Operators on operands of a common type. Division truncates; by zero, it is an error.\<close>

fun c_binary :: "binary \<Rightarrow> bool \<Rightarrow> int \<Rightarrow> int \<Rightarrow> int outcome" where
  "c_binary B_Mul sgd x y = fit sgd (x * y)"
| "c_binary B_Div sgd x y = (if y = 0 then Inl (Exit_Error ''Division by zero.'') else fit sgd (x sdiv y))"
| "c_binary B_Mod sgd x y =
     (if y = 0 then Inl (Exit_Error ''Modulo by zero.'') else obind (fit sgd (x sdiv y)) (\<lambda>_. fit sgd (x smod y)))"
| "c_binary B_Add sgd x y = fit sgd (x + y)"
| "c_binary B_Sub sgd x y = fit sgd (x - y)"
| "c_binary B_And sgd x y = fit sgd (and x y)"
| "c_binary B_Xor sgd x y = fit sgd (xor x y)"
| "c_binary B_Or sgd x y = fit sgd (or x y)"
| "c_binary B_Lt sgd x y = Inr (if x < y then 1 else 0)"
| "c_binary B_Gt sgd x y = Inr (if x > y then 1 else 0)"
| "c_binary B_Le sgd x y = Inr (if x \<le> y then 1 else 0)"
| "c_binary B_Ge sgd x y = Inr (if x \<ge> y then 1 else 0)"
| "c_binary B_Eq sgd x y = Inr (if x = y then 1 else 0)"
| "c_binary B_Ne sgd x y = Inr (if x \<noteq> y then 1 else 0)"
| "c_binary _ sgd x y = Inl Undefined_Behaviour"

text \<open>Shifts of a left operand of the given type; the right operand keeps its own.\<close>

definition c_shift :: "binary \<Rightarrow> bool \<Rightarrow> int \<Rightarrow> int \<Rightarrow> int outcome" where
  "c_shift op sgd x k =
     (if k < 0 \<or> k \<ge> 64 then Inl Undefined_Behaviour
      else if op = B_Shr then fit sgd (x div 2 ^ nat k)
      else if sgd \<and> x < 0 then Inl Undefined_Behaviour
      else fit sgd (x * 2 ^ nat k))"

text \<open>The value: of \<open>&&\<close>, \<open>||\<close> and \<open>?:\<close> only the operands that decide it are evaluated.\<close>

fun c_value :: "pexp \<Rightarrow> int outcome" where
  "c_value (P_Num ds u) = Inr (int (Tokenize.digits_value 10 0 ds))"
| "c_value (P_Ident name) = Inr 0"
| "c_value (P_Unary op e) = obind (c_value e) (c_unary op (c_signed e))"
| "c_value (P_Binary op a b) =
     obind (c_value a) (\<lambda>x.
       if op = B_Logical_And \<and> x = 0 then Inr 0
       else if op = B_Logical_Or \<and> x \<noteq> 0 then Inr 1
       else
         obind (c_value b) (\<lambda>y.
           if op = B_Logical_And \<or> op = B_Logical_Or then Inr (if y \<noteq> 0 then 1 else 0)
           else if op \<in> shifts then c_shift op (c_signed a) x y
           else (let sgd = (c_signed a \<and> c_signed b) in c_binary op sgd (as_type sgd x) (as_type sgd y))))"
| "c_value (P_Cond a b c) =
     obind (c_value a) (\<lambda>x.
       let sgd = (c_signed b \<and> c_signed c) in
       obind (if x \<noteq> 0 then c_value b else c_value c) (\<lambda>v. Inr (as_type sgd v)))"

subsection \<open>The values that the code computes\<close>

text \<open>
  The same with the deviations of the code: \<open>!\<close> keeps the type of its operand, the operands of a shift are
  converted to their common type, and all operands of \<open>&&\<close>, \<open>||\<close> and \<open>?:\<close> are evaluated. The flag tells whether a value is
  signed.
\<close>

type_synonym wide = "bool \<times> int"

definition wide_type :: "bool \<Rightarrow> int_type" where
  "wide_type sgd = (8, sgd)"

definition common :: "wide \<Rightarrow> wide \<Rightarrow> bool \<times> int \<times> int" where
  "common x y =
     (let sgd = (fst x \<and> fst y) in
      if sgd then (True, snd x, snd y) else (False, snd x mod 2 ^ 64, snd y mod 2 ^ 64))"

definition wide_arith :: "(int_type \<Rightarrow> int \<Rightarrow> int \<Rightarrow> int outcome) \<Rightarrow> wide \<Rightarrow> wide \<Rightarrow> wide outcome" where
  "wide_arith f x y = (case common x y of (sgd, a, b) \<Rightarrow> obind (f (wide_type sgd) a b) (\<lambda>v. Inr (sgd, v)))"

definition wide_compare :: "(int \<Rightarrow> int \<Rightarrow> bool) \<Rightarrow> wide \<Rightarrow> wide \<Rightarrow> wide outcome" where
  "wide_compare p x y = (case common x y of (sgd, a, b) \<Rightarrow> Inr (True, bool_int (p a b)))"

fun unary_value :: "unary \<Rightarrow> wide \<Rightarrow> wide outcome" where
  "unary_value U_Plus x = Inr x"
| "unary_value U_Minus x = obind (c_neg (wide_type (fst x)) (snd x)) (\<lambda>v. Inr (fst x, v))"
| "unary_value U_Complement x = obind (c_not (wide_type (fst x)) (snd x)) (\<lambda>v. Inr (fst x, v))"
| "unary_value U_Not x = Inr (fst x, bool_int (snd x = 0))"

fun binary_value :: "binary \<Rightarrow> wide \<Rightarrow> wide \<Rightarrow> wide outcome" where
  "binary_value B_Mul x y = wide_arith c_mul x y"
| "binary_value B_Div x y = (if snd y = 0 then Inl (Exit_Error ''Division by zero.'') else wide_arith c_div x y)"
| "binary_value B_Mod x y = (if snd y = 0 then Inl (Exit_Error ''Modulo by zero.'') else wide_arith c_mod x y)"
| "binary_value B_Add x y = wide_arith c_add x y"
| "binary_value B_Sub x y = wide_arith c_sub x y"
| "binary_value B_Shl x y = wide_arith c_shl x y"
| "binary_value B_Shr x y = wide_arith c_shr x y"
| "binary_value B_Lt x y = wide_compare (<) x y"
| "binary_value B_Gt x y = wide_compare (>) x y"
| "binary_value B_Le x y = wide_compare (\<le>) x y"
| "binary_value B_Ge x y = wide_compare (\<ge>) x y"
| "binary_value B_Eq x y = wide_compare (=) x y"
| "binary_value B_Ne x y = wide_compare (\<noteq>) x y"
| "binary_value B_And x y = wide_arith c_and x y"
| "binary_value B_Xor x y = wide_arith c_xor x y"
| "binary_value B_Or x y = wide_arith c_or x y"
| "binary_value B_Logical_And x y = Inr (True, bool_int (snd x \<noteq> 0 \<and> snd y \<noteq> 0))"
| "binary_value B_Logical_Or x y = Inr (True, bool_int (snd x \<noteq> 0 \<or> snd y \<noteq> 0))"

fun wide_value :: "pexp \<Rightarrow> wide outcome" where
  "wide_value (P_Num ds u) = (let n = Tokenize.digits_value 10 0 ds in Inr (\<not> u \<and> n < 2 ^ 63, int n))"
| "wide_value (P_Ident name) = Inr (True, 0)"
| "wide_value (P_Unary op e) = obind (wide_value e) (unary_value op)"
| "wide_value (P_Binary op a b) = obind (wide_value a) (\<lambda>x. obind (wide_value b) (binary_value op x))"
| "wide_value (P_Cond a b c) =
     obind (wide_value a) (\<lambda>x. obind (wide_value b) (\<lambda>y. obind (wide_value c) (\<lambda>z.
       case common y z of (sgd, v, w) \<Rightarrow> Inr (sgd, if snd x \<noteq> 0 then v else w))))"

text \<open>The representation of values, which are in the range of their types.\<close>

definition wide_ok :: "wide \<Rightarrow> bool" where
  "wide_ok x \<longleftrightarrow> in_type (wide_type (fst x)) (snd x)"

definition number_of :: "wide \<Rightarrow> num" where
  "number_of x = \<lparr>n_type = (if fst x then basic_type__long else basic_type__unsigned_long), n_val = word_of_int (snd x)\<rparr>"

lemma wide_ok_iff: "wide_ok (sgd, v) \<longleftrightarrow> (if sgd then - (2 ^ 63) \<le> v \<and> v < 2 ^ 63 else 0 \<le> v \<and> v < 2 ^ 64)"
  by (auto simp: wide_ok_def wide_type_def in_type_def int_min_def int_max_def)

lemma wide_word:
  "wide_ok (True, v) \<Longrightarrow> sint (word_of_int v :: u64) = v" "wide_ok (False, v) \<Longrightarrow> uint (word_of_int v :: u64) = v"
  by (simp_all add: wide_ok_iff sint_in_long uint_word_of_int)

lemma number_of_zero: "wide_ok x \<Longrightarrow> n_val (number_of x) = 0 \<longleftrightarrow> snd x = 0"
  by (cases x, cases "fst x") (auto simp: number_of_def dest!: wide_word dest: arg_cong [of _ 0 sint] arg_cong [of _ 0 uint])

lemma long_type_simps:
  "is_integer basic_type__long" "is_integer basic_type__unsigned_long" "is_signed basic_type__long" "\<not> is_signed basic_type__unsigned_long"
  "\<not> is_bool basic_type__long" "\<not> is_bool basic_type__unsigned_long" "ctype_int basic_type__long = i64_type" "ctype_int basic_type__unsigned_long = u64_type"
  by (simp_all add: tclass_simps is_bool_def ctype_int_def scalar_size_def)


lemma number_represents: "wide_ok x \<Longrightarrow> represents \<lparr>val_u = n_val (number_of x)\<rparr> (n_type (number_of x)) (snd x)"
  by (cases x) (auto simp: represents_def number_of_def wide_ok_def wide_type_def long_type_simps)

lemma convert_number_integer:
  assumes "is_integer t" "is_integer (n_type n)" "represents \<lparr>val_u = n_val n\<rparr> (n_type n) x"
  shows "convert_number t n s = Inr (\<lparr>n_type = t, n_val = word_of_int (conv t x)\<rparr>, s)"
  using convert_integer [OF assms(2,1,3)] by (simp add: convert_number_def ev_simps set_i_def)

lemma number_type: "is_integer (n_type (number_of x))" "is_signed (n_type (number_of x)) = fst x"
  by (simp_all add: number_of_def long_type_simps)

lemma conv_unsigned_long: "conv basic_type__unsigned_long v = v mod 2 ^ 64"
  by (simp add: conv_def long_type_simps to_type_def)

lemma usual_unsigned_long:
  "usual_arithmetic_conversion ts basic_type__long basic_type__unsigned_long = Inr basic_type__unsigned_long"
  "usual_arithmetic_conversion ts basic_type__unsigned_long basic_type__long = Inr basic_type__unsigned_long"
  by (simp_all add: usual_arithmetic_conversion_def promote_integer_def size_of_scalar tclass_simps scalar_size_def type_of_def
      basic_type_def basic_type_unsigned_def zero_type_def remove_qualifiers_def)

lemma type_equal_longs:
  "type_equal ts basic_type__long basic_type__unsigned_long = Inr False" "type_equal ts basic_type__unsigned_long basic_type__long = Inr False"
  by (simp_all add: type_equal_def basic_type_def basic_type_unsigned_def zero_type_def)

lemma both_signed_common:
  assumes "wide_ok x" "wide_ok y"
  shows "both_signed (number_of x) (number_of y) s =
    (case common x y of (sgd, a, b) \<Rightarrow> Inr ((sgd, number_of (sgd, a), number_of (sgd, b)), s)) \<and>
    (case common x y of (sgd, a, b) \<Rightarrow> wide_ok (sgd, a) \<and> wide_ok (sgd, b))"
proof (cases "fst x = fst y")
  case True
  have "common x y = (fst x, snd x, snd y)"
    using True assms by (cases x; cases y) (auto simp: common_def Let_def wide_ok_iff)
  then show ?thesis
    using True assms number_type [of x] by (cases x; cases y) (simp add: both_signed_def ev_simps number_of_def)
next
  case False
  have c: "common x y = (False, snd x mod 2 ^ 64, snd y mod 2 ^ 64)" using False by (auto simp: common_def Let_def)
  have l: "convert_number basic_type__unsigned_long (number_of z) s = Inr (number_of (False, snd z mod 2 ^ 64), s)" if "wide_ok z" for z
    using convert_number_integer [OF _ number_type(1) number_represents [OF that], of basic_type__unsigned_long s]
    by (simp add: long_type_simps conv_unsigned_long number_of_def)
  have "n_type (number_of x) = (if fst x then basic_type__long else basic_type__unsigned_long)"
    "n_type (number_of y) = (if fst x then basic_type__unsigned_long else basic_type__long)"
    using False by (auto simp: number_of_def)
  then have "both_signed (number_of x) (number_of y) s = Inr ((False, number_of (False, snd x mod 2 ^ 64), number_of (False, snd y mod 2 ^ 64)), s)"
    using l [OF assms(1)] l [OF assms(2)] number_type [of "(False, snd x mod 2 ^ 64)"]
    by (cases "fst x") (simp_all add: both_signed_def ev_simps type_equal_longs usual_unsigned_long)
  moreover have "wide_ok (False, v mod 2 ^ 64)" for v by (simp add: wide_ok_iff)
  ultimately show ?thesis using c by simp
qed

text \<open>The outcome of a parser: a value, with what is left of the line.\<close>

definition parsed :: "wide outcome \<Rightarrow> token list \<Rightarrow> 's \<Rightarrow> ((num \<times> token list) \<times> 's) outcome" where
  "parsed v rest s = obind v (\<lambda>x. Inr ((number_of x, rest), s))"

definition valued :: "wide outcome \<Rightarrow> 's \<Rightarrow> (num \<times> 's) outcome" where
  "valued v s = obind v (\<lambda>x. Inr (number_of x, s))"

definition safe :: "(int_type \<Rightarrow> int \<Rightarrow> int \<Rightarrow> int outcome) \<Rightarrow> bool" where
  "safe f \<longleftrightarrow> (\<forall>sgd a b v. f (wide_type sgd) a b = Inr v \<longrightarrow> wide_ok (sgd, v))"

lemma arith_value:
  assumes "wide_ok x" "wide_ok y"
  shows "arith f (number_of x) (number_of y) s = valued (wide_arith f x y) s"
proof -
  obtain sgd a b where c: "common x y = (sgd, a, b)" by (metis prod_cases3)
  have b: "both_signed (number_of x) (number_of y) s = Inr ((sgd, number_of (sgd, a), number_of (sgd, b)), s)" "wide_ok (sgd, a)" "wide_ok (sgd, b)"
    using both_signed_common [OF assms, of s] c by auto
  have "n_val (number_of (sgd, v)) = word_of_int v" for v by (simp add: number_of_def)
  then show ?thesis
    using b c wide_word [of a] wide_word [of b]
    by (cases sgd) (auto simp: arith_def wide_arith_def valued_def ebind_def olift_def eret_def wide_type_def obind_assoc number_of_def)
qed

lemma compare_value:
  assumes "wide_ok x" "wide_ok y"
  shows "compare c (number_of x) (number_of y) s = valued (wide_compare (cmp_int c) x y) s"
  using arith_value [OF assms, of "c_cmp c" s]
  by (auto simp: compare_def ebind_def valued_def wide_arith_def wide_compare_def c_cmp_def eret_def number_of_def split: prod.splits)

lemma select_value:
  assumes "wide_ok x" "wide_ok y" "wide_ok z"
  shows "select_number (number_of x) (number_of y) (number_of z) s =
    (case common y z of (sgd, v, w) \<Rightarrow> Inr (number_of (sgd, if snd x \<noteq> 0 then v else w), s))"
  using both_signed_common [OF assms(2,3), of s] number_of_zero [OF assms(1)]
  by (auto simp: select_number_def ebind_def eret_def number_of_def split: prod.splits)

subsection \<open>Levels of precedence\<close>

text \<open>The parsers by level, and the operators of each.\<close>

definition level :: "('z, num) parser \<Rightarrow> nat \<Rightarrow> ('z, num) parser" where
  "level expr k =
     [preprocess_unary expr, preprocess_multiplicative expr, preprocess_additive expr, preprocess_shift expr, preprocess_relational expr,
      preprocess_equality expr, preprocess_and expr, preprocess_exclusive_or expr, preprocess_inclusive_or expr,
      preprocess_logical_and expr, preprocess_logical_or expr] ! k"

definition level_ops :: "nat \<Rightarrow> token_type \<Rightarrow> 'z operator option" where
  "level_ops k =
     [\<lambda>_. None, multiplicative_ops, additive_ops, shift_ops, relational_ops, equality_ops, single_op TK_AND (arith c_and),
      single_op TK_XOR (arith c_xor), single_op TK_OR (arith c_or), single_op TK_LOGICAL_AND (logical (\<and>)),
      single_op TK_LOGICAL_OR (logical (\<or>))] ! k"

lemma right_stop:
  assumes "sub list s = parsed v (t # rest) s" "ops (ttype t) = None"
  shows "operator_right n ops sub list s = parsed v (t # rest) s"
  using assms by (subst operator_right.simps) (cases v; simp add: ebind_def parsed_def eret_def)

lemma loop_stop:
  assumes "sub list s = parsed v (t # rest) s" "ops (ttype t) = None"
  shows "ebind (sub list) (\<lambda>(l, rest). operator_loop (length rest) ops sub' l rest) s = parsed v (t # rest) s"
  using assms by (cases v) (simp_all add: ebind_def parsed_def eret_def)

lemma level_loop:
  "k < 4 \<Longrightarrow> level expr (Suc k) list =
    ebind (level expr k list) (\<lambda>(l, rest). operator_loop (length rest) (level_ops (Suc k)) (level expr k) l rest)"
  by (elim less_SucE [of k 3, simplified] less_SucE [of k 2, simplified] less_SucE [of k 1, simplified] less_SucE [of k 0, simplified])
    (auto simp: numeral_eq_Suc less_Suc_eq level_def level_ops_def preprocess_multiplicative_def preprocess_additive_def preprocess_shift_def
      preprocess_relational_def)

lemma level_right:
  "k \<in> {4, 5, 6, 8, 9} \<Longrightarrow> level expr (Suc k) list = operator_right (length list) (level_ops (Suc k)) (level expr k) list"
  by (auto simp: level_def level_ops_def preprocess_equality_def preprocess_and_def preprocess_exclusive_or_def preprocess_logical_and_def
      preprocess_logical_or_def)

lemma level_inclusive_or:
  "level expr 8 list =
     ebind (level expr 7 list) (\<lambda>(l, rest).
     ebind (olift (token_at rest)) (\<lambda>t.
       if ttype t = TK_OR then ebind (level expr 7 (tl rest)) (\<lambda>(r, rest'). ebind (arith c_or l r) (\<lambda>l'. eret (l', rest')))
       else eret (l, rest)))"
proof -
  have "level expr 7 = preprocess_exclusive_or expr" "level expr 8 = preprocess_inclusive_or expr" by (simp_all add: level_def)
  then show ?thesis unfolding preprocess_inclusive_or_def by (simp only:)
qed

lemma level_ops_or: "level_ops 8 = single_op TK_OR (arith c_or)"
  by (simp add: level_ops_def)

lemma level_split: "k < 10 \<Longrightarrow> k < 4 \<or> k \<in> {4, 5, 6, 8, 9} \<or> k = (7 :: nat)"
  by auto

lemma level_stop:
  assumes "k < 10" "level expr k list s = parsed v (t # rest) s" "level_ops (Suc k) (ttype t) = (None :: 'z operator option)"
  shows "level (expr :: ('z, num) parser) (Suc k) list s = parsed v (t # rest) s"
proof -
  consider "k < 4" | "k \<in> {4, 5, 6, 8, 9}" | "k = 7" using level_split assms(1) by blast
  then show ?thesis
  proof cases
    case 1
    show ?thesis unfolding level_loop [OF 1] using assms(2,3) by (rule loop_stop)
  next
    case 2
    show ?thesis unfolding level_right [OF 2] using assms(2,3) by (rule right_stop)
  next
    case 3
    then show ?thesis using assms(2,3)
      by (cases v) (auto simp: level_inclusive_or level_ops_or single_op_def ebind_def parsed_def eret_def token_at_def split: if_splits)
  qed
qed

lemma level_up:
  assumes "level expr k list s = parsed v (t # rest) s" "k \<le> m" "m \<le> 10"
    and "\<And>j. k < j \<Longrightarrow> j \<le> m \<Longrightarrow> level_ops j (ttype t) = (None :: 'z operator option)"
  shows "level (expr :: ('z, num) parser) m list s = parsed v (t # rest) s"
  using assms(2-4)
proof (induction m)
  case (Suc m)
  show ?case
  proof (cases "k = Suc m")
    case False
    then have "level expr m list s = parsed v (t # rest) s" "k < Suc m" using Suc by simp_all
    then show ?thesis using level_stop [of m expr list s v t rest] Suc.prems by simp
  qed (use assms(1) in simp)
qed (use assms(1) in simp)

text \<open>What an operator does to two values.\<close>

definition computes :: "'z operator \<Rightarrow> (wide \<Rightarrow> wide \<Rightarrow> wide outcome) \<Rightarrow> wide outcome \<Rightarrow> wide outcome \<Rightarrow> 'z directive_state_scheme \<Rightarrow> bool" where
  "computes f g va vb s \<longleftrightarrow> (\<forall>x y. va = Inr x \<longrightarrow> vb = Inr y \<longrightarrow> f (number_of x) (number_of y) s = valued (g x y) s)"

lemma right_apply:
  assumes "sub list s = parsed va (opt # list2) s" "ops (ttype opt) = Some f" "sub list2 s = parsed vb (t # rest) s"
    and "ops (ttype t) = None" "computes f g va vb s" "0 < n"
  shows "operator_right n ops sub list s = parsed (obind va (\<lambda>x. obind vb (g x))) (t # rest) s"
proof -
  obtain m where "n = Suc m" using assms(6) by (cases n) auto
  then show ?thesis
    using assms(1,2,5) right_stop [of sub list2 s vb t rest ops m, OF assms(3,4)]
    by (subst operator_right.simps) (cases va; cases vb; simp add: ebind_def parsed_def computes_def valued_def eret_def obind_assoc)
qed

lemma loop_apply:
  assumes "sub list s = parsed va (opt # list2) s" "ops (ttype opt) = Some f" "sub list2 s = parsed vb (t # rest) s"
    and "ops (ttype t) = None" "computes f g va vb s"
  shows "ebind (sub list) (\<lambda>(l, rest). operator_loop (length rest) ops sub l rest) s = parsed (obind va (\<lambda>x. obind vb (g x))) (t # rest) s"
  using assms by (cases va; cases vb) (simp_all add: ebind_def parsed_def computes_def valued_def eret_def obind_assoc)

lemma level_apply:
  assumes "k < 10" "level expr k list s = parsed va (opt # list2) s" "level_ops (Suc k) (ttype opt) = Some f"
    and "level expr k list2 s = parsed vb (t # rest) s" "level_ops (Suc k) (ttype t) = (None :: 'z operator option)"
    and "computes f g va vb s" "list \<noteq> []"
  shows "level (expr :: ('z, num) parser) (Suc k) list s = parsed (obind va (\<lambda>x. obind vb (g x))) (t # rest) s"
proof -
  consider "k < 4" | "k \<in> {4, 5, 6, 8, 9}" | "k = 7" using level_split assms(1) by blast
  then show ?thesis
  proof cases
    case 1
    show ?thesis unfolding level_loop [OF 1] using assms(2-6) by (rule loop_apply)
  next
    case 2
    show ?thesis unfolding level_right [OF 2] using assms(2-6) by (rule right_apply) (use assms(7) in simp)
  next
    case 3
    then have "ttype opt = TK_OR" "f = arith c_or" "ttype t \<noteq> TK_OR"
      using assms(3,5) by (auto simp: level_ops_or single_op_def split: if_splits)
    then show ?thesis using assms(2,4,6) 3
      by (cases va; cases vb) (auto simp: level_inclusive_or ebind_def parsed_def eret_def token_at_def computes_def valued_def obind_assoc)
  qed
qed

subsection \<open>Parentheses\<close>

lemma expression_level:
  assumes "level (preprocess_expression d) 10 list s = parsed v (t # rest) s" "ttype t \<noteq> TK_QUESTION" "ttype t \<noteq> TK_COMMA"
  shows "preprocess_conditional (preprocess_expression d) list s = parsed v (t # rest) s"
    "preprocess_expression (Suc d) list s = parsed v (t # rest) s"
proof -
  have l: "preprocess_logical_or (preprocess_expression d) list s = parsed v (t # rest) s" using assms(1) by (simp add: level_def)
  show c: "preprocess_conditional (preprocess_expression d) list s = parsed v (t # rest) s"
    unfolding preprocess_conditional_def using l assms(2)
    by (subst conditional_loop.simps) (cases v; simp add: ebind_def parsed_def eret_def token_at_def)
  show "preprocess_expression (Suc d) list s = parsed v (t # rest) s"
    using c assms(3) by (subst preprocess_expression.simps, subst comma_loop.simps) (cases v; simp add: ebind_def parsed_def eret_def token_at_def)
qed

lemma normalize_number_of [simp]: "normalize_number (number_of x) = eret (number_of x)"
proof -
  have "size_of ts (n_type (number_of x)) = Inr 8" for ts
    by (simp add: number_of_def size_of_scalar tclass_simps scalar_size_def)
  then show ?thesis by (simp add: normalize_number_def number_type fun_eq_iff ebind_def eget_def olift_def)
qed

lemma sign_token_simps [simp]:
  "ttype (sign_token tk) = tk" "is_expandable (sign_token tk) = False"
  by (simp_all add: sign_token_def zero_token_def)

lemma parenthesis:
  assumes "expr list s = parsed v (sign_token TK_CLOSE_PAREN # rest) s"
  shows "preprocess_unary expr (sign_token TK_OPEN_PAREN # list) s = parsed v rest s"
  using assms by (cases v) (simp_all add: preprocess_primary_def ebind_def parsed_def eret_def expect_def token_at_def)

lemma conditional_operator:
  assumes "level (preprocess_expression d) 10 la s = parsed va (sign_token TK_QUESTION # lb) s"
    and "preprocess_expression d lb s = parsed vb (sign_token TK_COLON # lc) s"
    and "level (preprocess_expression d) 10 lc s = parsed vc (t # rest) s" "ttype t \<noteq> TK_QUESTION" "ttype t \<noteq> TK_COMMA" "la \<noteq> []"
    and "\<And>x. va = Inr x \<Longrightarrow> wide_ok x" "\<And>x. vb = Inr x \<Longrightarrow> wide_ok x" "\<And>x. vc = Inr x \<Longrightarrow> wide_ok x"
  shows "preprocess_expression (Suc d) la s = parsed (obind va (\<lambda>x. obind vb (\<lambda>y. obind vc (\<lambda>z.
       case common y z of (sgd, v, w) \<Rightarrow> Inr (sgd, if snd x \<noteq> 0 then v else w))))) (t # rest) s"
proof -
  let ?v = "obind va (\<lambda>x. obind vb (\<lambda>y. obind vc (\<lambda>z. case common y z of (sgd, v, w) \<Rightarrow> Inr (sgd, if snd x \<noteq> 0 then v else w))))"
  let ?e = "preprocess_expression d"
  obtain m where m: "length la = Suc m" using assms(6) by (cases la) auto
  have a: "preprocess_logical_or ?e la s = parsed va (sign_token TK_QUESTION # lb) s" using assms(1) by (simp add: level_def)
  have "preprocess_logical_or ?e lc s = parsed vc (t # rest) s" using assms(3) by (simp add: level_def)
  then have c: "conditional_loop n ?e lc s = parsed vc (t # rest) s" for n
    using assms(4) by (subst conditional_loop.simps) (cases vc; simp add: ebind_def parsed_def eret_def token_at_def)
  have "preprocess_conditional ?e la s = parsed ?v (t # rest) s"
    unfolding preprocess_conditional_def m
    using a c assms(2,7-9)
    by (subst conditional_loop.simps)
      (cases va; cases vb; cases vc; auto simp: select_value ebind_def parsed_def eret_def token_at_def expect_def split: prod.splits)
  then show ?thesis
    using assms(5) by (subst preprocess_expression.simps, subst comma_loop.simps) (cases ?v; simp add: ebind_def parsed_def eret_def token_at_def)
qed

subsection \<open>Operands\<close>

fun well_formed :: "'z directive_state_scheme \<Rightarrow> pexp \<Rightarrow> bool" where
  "well_formed s (P_Num ds u) \<longleftrightarrow> ds \<noteq> [] \<and> list_all isdigit ds \<and> hd ds \<noteq> CHR ''0'' \<and> Tokenize.digits_value 10 0 ds < 2 ^ 64 \<and> length ds < 65535"
| "well_formed s (P_Ident name) \<longleftrightarrow> macro_definition (str_init name) s = Inr (None, s)"
| "well_formed s (P_Unary op e) \<longleftrightarrow> well_formed s e"
| "well_formed s (P_Binary op a b) \<longleftrightarrow> well_formed s a \<and> well_formed s b"
| "well_formed s (P_Cond a b c) \<longleftrightarrow> well_formed s a \<and> well_formed s b \<and> well_formed s c"

lemma constant_operand:
  assumes "well_formed s (P_Num ds u)"
  shows "preprocess_unary expr (constant_token ds u # rest) s = parsed (wide_value (P_Num ds u)) rest s"
proof -
  let ?n = "Tokenize.digits_value 10 0 ds" and ?t = "constant_token ds u" and ?k = "if u then 1 else 0 :: nat"
  let ?ty = "constant_integer_type (word_of_nat ?n) ?k True"
  have "token_text ?t = ds @ (if u then ''u'' else [])"
    using assms by (simp add: constant_token_def token_text_def)
  moreover have "read_integer_suffix (if u then ''u'' else []) = (?k, [])"
    by (simp add: read_integer_suffix_def ch_def tolower_def isupper_def)
  ultimately have conv: "convert_preprocessing_number lib ?t = Inr (num_token ?t ?ty (word_of_nat ?n))" for lib
    using assms by (intro convert_decimal_constant) (auto simp: constant_token_def list_all_iff ch_def isdigit_def)
  have un: "unat (word_of_nat ?n :: u64) = ?n" using assms by (simp add: unsigned_of_nat take_bit_nat_eq_self)
  have primary: "preprocess_unary expr (?t # rest) s =
      obind (normalize_number \<lparr>n_type = ?ty, n_val = word_of_nat ?n\<rparr> s) (\<lambda>(num, s'). Inr ((num, rest), s'))"
    using conv by (simp add: constant_token_def preprocess_primary_def ebind_def eget_def olift_def eret_def token_number_def num_token_def tok_val_def
        obind_assoc split_def)
  have narrow: "normalize_number \<lparr>n_type = t, n_val = word_of_nat ?n\<rparr> s = Inr (number_of (sgd, int ?n), s)"
    if "t = (if sgd then basic_type__int else basic_type__unsigned_int)" "?n < (if sgd then 2 ^ 31 else 2 ^ 32)" for t sgd
  proof -
    have t: "is_integer t" "is_signed t = sgd" "size_of ts t = Inr 4" for ts
      using that(1) by (auto simp: tclass_simps size_of_scalar scalar_size_def)
    have r: "represents \<lparr>val_u = word_of_nat ?n\<rparr> t (int ?n)"
      using that by (auto simp: represents_def ctype_int_def scalar_size_def tclass_simps in_type_def int_min_def int_max_def split: if_splits)
    have "conv (if sgd then basic_type__long else basic_type__unsigned_long) (int ?n) = int ?n"
      using that(2) by (intro conv_id) (auto simp: long_type_simps in_type_def int_min_def int_max_def)
    then show ?thesis
      using t r convert_number_integer [of "if sgd then basic_type__long else basic_type__unsigned_long" "\<lparr>n_type = t, n_val = word_of_nat ?n\<rparr>" "int ?n" s]
      by (auto simp: normalize_number_def ebind_def eget_def olift_def long_type_simps number_of_def)
  qed
  have wide: "normalize_number \<lparr>n_type = (if sgd then basic_type__long else basic_type__unsigned_long), n_val = word_of_nat ?n\<rparr> s =
      Inr (number_of (sgd, int ?n), s)" for sgd
    using fun_cong [OF normalize_number_of [of "(sgd, int ?n)"], of s] by (cases sgd) (simp_all add: number_of_def eret_def del: normalize_number_of)
  have bound: "?n < 2 ^ 64" using assms by simp
  show ?thesis
    unfolding primary
  proof (cases u)
    case True
    then show "obind (normalize_number \<lparr>n_type = ?ty, n_val = word_of_nat ?n\<rparr> s) (\<lambda>(num, s'). Inr ((num, rest), s')) =
        parsed (wide_value (P_Num ds u)) rest s"
      using narrow [of ?ty False] wide [of False] un
      by (cases "?n \<le> UINT_MAX") (simp_all add: constant_integer_type_def UINT_MAX_def parsed_def)
  next
    case False
    then show "obind (normalize_number \<lparr>n_type = ?ty, n_val = word_of_nat ?n\<rparr> s) (\<lambda>(num, s'). Inr ((num, rest), s')) =
        parsed (wide_value (P_Num ds u)) rest s"
      using narrow [of ?ty True] wide [of True] wide [of False] un
      by (cases "?n \<le> INT_MAX"; cases "?n \<le> LONGLONG_MAX") (simp_all add: constant_integer_type_def INT_MAX_def Tokenize.LONGLONG_MAX_def parsed_def)
  qed
qed

lemma identifier_operand:
  assumes "well_formed s (P_Ident name)"
  shows "preprocess_unary expr (IDN TK_IDENTIFIER name # rest) s = parsed (wide_value (P_Ident name)) rest s"
proof -
  have "normalize_number \<lparr>n_type = basic_type__long, n_val = 0\<rparr> s = Inr (number_of (True, 0), s)"
    using fun_cong [OF normalize_number_of [of "(True, 0)"], of s] by (simp add: number_of_def eret_def del: normalize_number_of)
  then show ?thesis
    using assms by (simp add: IDN_def preprocess_primary_def tok_str_def ebind_def olift_def eret_def parsed_def)
qed

lemma c_result_ok: "c_result (wide_type sgd) x = Inr v \<Longrightarrow> wide_ok (sgd, v)"
  by (auto simp: c_result_def wide_type_def promote_def Let_def wide_ok_iff in_type_def int_min_def int_max_def split: if_splits)

lemma operation_ok:
  assumes "f \<in> {c_add, c_sub, c_mul, c_div, c_mod, c_and, c_or, c_xor, c_shl, c_shr}" "f (wide_type sgd) a b = Inr v"
  shows "wide_ok (sgd, v)"
  using assms
  by (auto simp: c_add_def c_sub_def c_mul_def c_div_def c_mod_def c_and_def c_or_def c_xor_def c_shl_def c_shr_def Let_def outcome_simps
      intro: c_result_ok split: if_splits)

lemma wide_arith_ok:
  "wide_arith f x y = Inr z \<Longrightarrow> f \<in> {c_add, c_sub, c_mul, c_div, c_mod, c_and, c_or, c_xor, c_shl, c_shr} \<Longrightarrow> wide_ok z"
  by (auto simp: wide_arith_def outcome_simps intro: operation_ok split: prod.splits)

lemma bool_ok: "wide_ok (sgd, bool_int b)"
  by (simp add: wide_ok_iff bool_int_def)

lemma unary_value_ok: "unary_value op x = Inr y \<Longrightarrow> wide_ok x \<Longrightarrow> wide_ok y"
  by (cases op) (auto simp: c_neg_def c_not_def outcome_simps bool_ok intro: c_result_ok)

lemma binary_value_ok: "binary_value op x y = Inr z \<Longrightarrow> wide_ok z"
  by (cases op) (auto simp: wide_compare_def bool_ok intro: wide_arith_ok split: if_splits prod.splits)

lemma wide_value_ok: "well_formed s e \<Longrightarrow> wide_value e = Inr x \<Longrightarrow> wide_ok x"
proof (induction e arbitrary: x)
  case (P_Unary op e)
  then show ?case by (auto simp: outcome_simps intro: unary_value_ok)
next
  case (P_Binary op a b)
  then show ?case by (auto simp: outcome_simps intro: binary_value_ok)
next
  case (P_Cond a b c)
  then obtain y z where "wide_value b = Inr y" "wide_value c = Inr z" "wide_ok y" "wide_ok z"
    by (auto simp: outcome_simps)
  moreover obtain sgd v w where c: "common y z = (sgd, v, w)" by (metis prod_cases3)
  moreover have "wide_ok (sgd, v) \<and> wide_ok (sgd, w)"
    using conjunct2 [OF both_signed_common [OF \<open>wide_ok y\<close> \<open>wide_ok z\<close>]] c by simp
  ultimately show ?case using P_Cond.prems by (auto simp: outcome_simps split: if_splits)
qed (auto simp: Let_def wide_ok_iff)

subsection \<open>Expressions\<close>

fun nesting :: "pexp \<Rightarrow> nat" where
  "nesting (P_Unary op e) = nesting e"
| "nesting (P_Binary op a b) = Suc (max (nesting a) (nesting b))"
| "nesting (P_Cond a b c) = Suc (max (nesting a) (max (Suc (nesting b)) (nesting c)))"
| "nesting _ = 0"

lemma nesting_length: "nesting e \<le> length (tokens_of e)"
  by (induction e) auto

lemma tokens_nonempty [simp]: "tokens_of e \<noteq> []"
  by (cases e) simp_all

definition closer :: "token \<Rightarrow> bool" where
  "closer t \<longleftrightarrow> ttype t \<in> {TK_CLOSE_PAREN, TK_COLON, TK_QUESTION, TK_NEWLINE}"

lemma level_ops_less: "k \<le> 10 \<Longrightarrow> k \<in> {0, 1, 2, 3, 4, 5, 6, 7, 8, 9, 10 :: nat}"
  by (simp, presburger)

lemmas ops_defs = level_ops_def multiplicative_ops_def additive_ops_def shift_ops_def relational_ops_def equality_ops_def single_op_def

lemma closer_ops: "closer t \<Longrightarrow> k \<le> 10 \<Longrightarrow> level_ops k (ttype t) = None"
  by (drule level_ops_less) (auto simp: closer_def ops_defs)

fun binary_level :: "binary \<Rightarrow> nat" where
  "binary_level B_Mul = 1"
| "binary_level B_Div = 1"
| "binary_level B_Mod = 1"
| "binary_level B_Add = 2"
| "binary_level B_Sub = 2"
| "binary_level B_Shl = 3"
| "binary_level B_Shr = 3"
| "binary_level B_Lt = 4"
| "binary_level B_Gt = 4"
| "binary_level B_Le = 4"
| "binary_level B_Ge = 4"
| "binary_level B_Eq = 5"
| "binary_level B_Ne = 5"
| "binary_level B_And = 6"
| "binary_level B_Xor = 7"
| "binary_level B_Or = 8"
| "binary_level B_Logical_And = 9"
| "binary_level B_Logical_Or = 10"

lemma binary_level_ops: "k < binary_level op \<Longrightarrow> level_ops k (binary_token op) = None"
  using level_ops_less [of k] by (cases op) (auto simp: ops_defs)

lemma cmp_int_order: "cmp_int Lt = (<)" "cmp_int Gt = (>)" "cmp_int Le = (\<le>)" "cmp_int Ge = (\<ge>)" "cmp_int Eq = (=)" "cmp_int Ne = (\<noteq>)"
  by (simp_all add: fun_eq_iff)

lemma divide_value:
  assumes "wide_ok x" "wide_ok y"
  shows "divide msg f (number_of x) (number_of y) s = valued (if snd y = 0 then Inl (Exit_Error msg) else wide_arith f x y) s"
  using number_of_zero [OF assms(2)] by (simp add: arith_value [OF assms] divide_def eerror_def efail_def valued_def)

lemma logical_value:
  assumes "wide_ok x" "wide_ok y"
  shows "logical g (number_of x) (number_of y) s = valued (Inr (True, bool_int (g (snd x \<noteq> 0) (snd y \<noteq> 0)))) s"
  using number_of_zero assms by (simp add: logical_def eret_def valued_def number_of_def bool_int_def)

lemma binary_computes:
  assumes "\<And>x. va = Inr x \<Longrightarrow> wide_ok x" "\<And>x. vb = Inr x \<Longrightarrow> wide_ok x"
  shows "\<exists>f. level_ops (binary_level op) (binary_token op) = Some f \<and> computes f (binary_value op) va vb s"
  using assms
  by (cases op)
    (simp_all add: ops_defs computes_def arith_value compare_value divide_value logical_value cmp_int_order del: fst_conv snd_conv split_paired_All)

lemma unary_operator:
  assumes "preprocess_unary expr list s = parsed v rest s" "\<And>x. v = Inr x \<Longrightarrow> wide_ok x"
  shows "preprocess_unary expr (sign_token (unary_token op) # list) s = parsed (obind v (unary_value op)) rest s"
proof (cases v)
  case (Inr x)
  obtain sgd a where x: "x = (sgd, a)" by (cases x)
  have "wide_ok (sgd, a)" using assms(2) Inr x by simp
  then have w: "sgd \<Longrightarrow> sint (word_of_int a :: u64) = a" "\<not> sgd \<Longrightarrow> uint (word_of_int a :: u64) = a"
    using wide_word [of a] by (cases sgd; simp)+
  then show ?thesis
    using assms(1) Inr x
    by (cases op; cases sgd)
      (simp_all add: ebind_def parsed_def olift_def eret_def unary_op_def number_of_def long_type_simps wide_type_def obind_assoc)
qed (use assms(1) in \<open>cases op; simp add: ebind_def parsed_def\<close>)

lemma parse_expression:
  assumes "well_formed s e" "nesting e \<le> d"
  shows "preprocess_unary (preprocess_expression d) (tokens_of e @ t # rest) s = parsed (wide_value e) (t # rest) s"
  using assms
proof (induction e arbitrary: d t rest)
  case (P_Num ds u)
  then show ?case using constant_operand [OF P_Num(1)] by simp
next
  case (P_Ident name)
  then show ?case using identifier_operand [OF P_Ident(1)] by simp
next
  case (P_Unary op e)
  then show ?case using unary_operator [of _ _ s "wide_value e"] wide_value_ok [of s e] by simp
next
  case (P_Binary op a b)
  obtain d' where d: "d = Suc d'" "nesting a \<le> d'" "nesting b \<le> d'" using P_Binary.prems(2) by (cases d) auto
  let ?e = "preprocess_expression d'" and ?k = "binary_level op - 1"
  let ?lb = "tokens_of b @ sign_token TK_CLOSE_PAREN # t # rest"
  let ?la = "tokens_of a @ sign_token (binary_token op) # ?lb"
  have k: "?k < 10" "Suc ?k = binary_level op" by (cases op; simp)+
  obtain f where f: "level_ops (Suc ?k) (binary_token op) = Some f" "computes f (binary_value op) (wide_value a) (wide_value b) s"
    using binary_computes [of "wide_value a" "wide_value b" op s] wide_value_ok [of s] P_Binary.prems(1) unfolding k(2) by auto
  have zero: "level ?e 0 list s = preprocess_unary ?e list s" for list by (simp add: level_def)
  have close: "closer (sign_token TK_CLOSE_PAREN)" by (simp add: closer_def)
  have "level ?e 0 ?la s = parsed (wide_value a) (sign_token (binary_token op) # ?lb) s"
    unfolding zero by (rule P_Binary.IH(1) [OF _ d(2)]) (use P_Binary.prems(1) in simp)
  then have la: "level ?e ?k ?la s = parsed (wide_value a) (sign_token (binary_token op) # ?lb) s"
    by (rule level_up) (use k in \<open>simp_all add: binary_level_ops\<close>)
  have "level ?e 0 ?lb s = parsed (wide_value b) (sign_token TK_CLOSE_PAREN # t # rest) s"
    unfolding zero by (rule P_Binary.IH(2) [OF _ d(3)]) (use P_Binary.prems(1) in simp)
  then have lb: "level ?e ?k ?lb s = parsed (wide_value b) (sign_token TK_CLOSE_PAREN # t # rest) s"
    by (rule level_up) (use k in \<open>simp_all add: closer_ops [OF close, simplified]\<close>)
  have "level ?e (Suc ?k) ?la s =
      parsed (obind (wide_value a) (\<lambda>x. obind (wide_value b) (binary_value op x))) (sign_token TK_CLOSE_PAREN # t # rest) s"
    by (rule level_apply [OF k(1) la _ lb _ f(2)]) (use f(1) k closer_ops [OF close, of "Suc ?k", simplified] in simp_all)
  then have "level ?e 10 ?la s = parsed (wide_value (P_Binary op a b)) (sign_token TK_CLOSE_PAREN # t # rest) s"
    unfolding wide_value.simps by (rule level_up) (use k in \<open>simp_all add: closer_ops [OF close, simplified]\<close>)
  then have "preprocess_expression d ?la s = parsed (wide_value (P_Binary op a b)) (sign_token TK_CLOSE_PAREN # t # rest) s"
    unfolding d(1) by (rule expression_level(2)) simp_all
  from parenthesis [of "preprocess_expression d", OF this] show ?case by simp
next
  case (P_Cond a b c)
  obtain d' where d: "d = Suc (Suc d')" "nesting a \<le> Suc d'" "nesting b \<le> d'" "nesting c \<le> Suc d'"
    using P_Cond.prems(2) by (cases d; cases "d - 1") auto
  let ?e = "preprocess_expression (Suc d')"
  let ?lc = "tokens_of c @ sign_token TK_CLOSE_PAREN # t # rest"
  let ?lb = "tokens_of b @ sign_token TK_COLON # ?lc"
  let ?la = "tokens_of a @ sign_token TK_QUESTION # ?lb"
  have zero: "level expr 0 list s = preprocess_unary expr list s" for expr list by (simp add: level_def)
  have up: "level (preprocess_expression n) 10 (tokens_of x @ u # r) s = parsed (wide_value x) (u # r) s"
    if "closer u" "preprocess_unary (preprocess_expression n) (tokens_of x @ u # r) s = parsed (wide_value x) (u # r) s" for n x u r
    by (rule level_up [of _ 0]) (use that closer_ops in \<open>simp_all add: zero\<close>)
  have close: "closer (sign_token TK_CLOSE_PAREN)" "closer (sign_token TK_COLON)" "closer (sign_token TK_QUESTION)" by (simp_all add: closer_def)
  have la: "level ?e 10 ?la s = parsed (wide_value a) (sign_token TK_QUESTION # ?lb) s"
    by (rule up [OF close(3) P_Cond.IH(1) [OF _ d(2)]]) (use P_Cond.prems(1) in simp)
  have "level (preprocess_expression d') 10 ?lb s = parsed (wide_value b) (sign_token TK_COLON # ?lc) s"
    by (rule up [OF close(2) P_Cond.IH(2) [OF _ d(3)]]) (use P_Cond.prems(1) in simp)
  then have lb: "preprocess_expression (Suc d') ?lb s = parsed (wide_value b) (sign_token TK_COLON # ?lc) s"
    by (rule expression_level(2)) simp_all
  have lc: "level ?e 10 ?lc s = parsed (wide_value c) (sign_token TK_CLOSE_PAREN # t # rest) s"
    by (rule up [OF close(1) P_Cond.IH(3) [OF _ d(4)]]) (use P_Cond.prems(1) in simp)
  have "preprocess_expression d ?la s = parsed (wide_value (P_Cond a b c)) (sign_token TK_CLOSE_PAREN # t # rest) s"
    unfolding d(1) wide_value.simps
    by (rule conditional_operator [OF la lb lc]) (use P_Cond.prems(1) in \<open>auto intro: wide_value_ok\<close>)
  from parenthesis [of "preprocess_expression d", OF this] show ?case by simp
qed

lemma condition_wide_value:
  assumes "well_formed s e"
  shows "preprocess_constant_expression (tokens_of e @ [basic_token TK_NEWLINE]) s =
    obind (wide_value e) (\<lambda>x. Inr ((number_of x, [basic_token TK_NEWLINE]), s))"
proof -
  define t where "t = basic_token TK_NEWLINE"
  define d where "d = length (tokens_of e @ [t])"
  have t: "closer t" "ttype t \<noteq> TK_QUESTION" "ttype t \<noteq> TK_COMMA" unfolding closer_def t_def by code_simp+
  have "nesting e \<le> d" using nesting_length [of e] by (simp add: d_def)
  from parse_expression [OF assms this, of t "[]"]
  have "level (preprocess_expression d) 0 (tokens_of e @ [t]) s = parsed (wide_value e) [t] s" by (simp add: level_def)
  then have "level (preprocess_expression d) 10 (tokens_of e @ [t]) s = parsed (wide_value e) [t] s"
    by (rule level_up) (simp_all add: closer_ops t(1))
  from expression_level(1) [OF this t(2,3)] show ?thesis
    by (simp add: preprocess_constant_expression_def parsed_def d_def t_def)
qed

subsection \<open>Where the two agree\<close>

text \<open>
  The expressions on which the code does not deviate from the standard: the operand of \<open>!\<close> is signed, a signed integer is
  not shifted by an unsigned one, the operands that C does not evaluate have a value, and constants without suffix are
  below \<open>2 ^ 63\<close>, as the standard asks of them.
\<close>

definition has_value :: "pexp \<Rightarrow> bool" where
  "has_value e \<longleftrightarrow> (case c_value e of Inr _ \<Rightarrow> True | Inl _ \<Rightarrow> False)"

fun conforming :: "pexp \<Rightarrow> bool" where
  "conforming (P_Num ds u) \<longleftrightarrow> u \<or> Tokenize.digits_value 10 0 ds < 2 ^ 63"
| "conforming (P_Ident name) \<longleftrightarrow> True"
| "conforming (P_Unary op e) \<longleftrightarrow> conforming e \<and> (op = U_Not \<longrightarrow> c_signed e)"
| "conforming (P_Binary op a b) \<longleftrightarrow> conforming a \<and> conforming b \<and>
     (op \<in> shifts \<and> c_signed a \<longrightarrow> c_signed b) \<and>
     (op = B_Logical_And \<and> c_value a = Inr 0 \<longrightarrow> has_value b) \<and>
     (op = B_Logical_Or \<and> c_value a \<noteq> Inr 0 \<longrightarrow> has_value b)"
| "conforming (P_Cond a b c) \<longleftrightarrow> conforming a \<and> conforming b \<and> conforming c \<and>
     (if c_value a = Inr 0 then has_value b else has_value c)"

lemma has_valueE: "has_value e \<Longrightarrow> (\<And>v. c_value e = Inr v \<Longrightarrow> P) \<Longrightarrow> P"
  by (auto simp: has_value_def split: sum.splits)

lemma c_result_fit: "c_result (wide_type sgd) r = fit sgd r"
  by (auto simp: c_result_def wide_type_def promote_def fit_def in_type_def int_min_def int_max_def Let_def)

lemma common_as_type:
  "common (sa, x) (sb, y) = (sa \<and> sb, as_type (sa \<and> sb) x, as_type (sa \<and> sb) y)"
  by (auto simp: common_def as_type_def Let_def)

lemma as_type_id: "wide_ok (sgd, v) \<Longrightarrow> as_type sgd v = v"
  by (auto simp: as_type_def wide_ok_iff split: if_splits)

lemma wide_mod:
  assumes "wide_ok (sgd, y)"
  shows "y mod 2 ^ 64 = (if y < 0 then y + 2 ^ 64 else y)"
proof (cases "y < 0")
  case True
  have "y mod 2 ^ 64 = (y + 2 ^ 64) mod 2 ^ 64" by simp
  also have "\<dots> = y + 2 ^ 64" using assms True by (intro mod_pos_pos_trivial) (auto simp: wide_ok_iff split: if_splits)
  finally show ?thesis using True by simp
next
  case False
  then have "y mod 2 ^ 64 = y" using assms by (intro mod_pos_pos_trivial) (auto simp: wide_ok_iff split: if_splits)
  then show ?thesis using False by simp
qed

lemma as_type_zero: "wide_ok (sb, y) \<Longrightarrow> as_type sgd y = 0 \<longleftrightarrow> y = 0"
  using wide_mod [of sb y] by (auto simp: as_type_def wide_ok_iff split: if_splits)

lemma unary_agrees:
  assumes "op = U_Not \<longrightarrow> sgd"
  shows "unary_value op (sgd, x) = obind (c_unary op sgd x) (\<lambda>v. Inr (op = U_Not \<or> sgd, v))"
  using assms by (cases op) (auto simp: c_neg_def c_not_def c_result_fit bool_int_def)

lemma arith_agrees:
  assumes "wide_ok (sb, y)" "op \<notin> shifts" "op \<notin> {B_Logical_And, B_Logical_Or}"
  shows "binary_value op (sa, x) (sb, y) =
    obind (c_binary op (sa \<and> sb) (as_type (sa \<and> sb) x) (as_type (sa \<and> sb) y)) (\<lambda>v. Inr (op \<in> truth_valued \<or> sa \<and> sb, v))"
  using assms as_type_zero [OF assms(1), of "sa \<and> sb"]
  by (cases op)
    (simp_all add: shifts_def truth_valued_def wide_arith_def wide_compare_def common_as_type c_result_fit bool_int_def
      c_mul_def c_div_def c_mod_def c_add_def c_sub_def c_and_def c_or_def c_xor_def)

lemma shift_agrees:
  assumes "wide_ok (sa, x)" "wide_ok (sb, y)" "op \<in> shifts" "sa \<longrightarrow> sb"
  shows "binary_value op (sa, x) (sb, y) = obind (c_shift op sa x y) (\<lambda>v. Inr (sa, v))"
proof -
  let ?y = "as_type sa y"
  have k: "?y < 0 \<or> ?y \<ge> 64 \<longleftrightarrow> y < 0 \<or> y \<ge> 64" "\<not> (y < 0 \<or> y \<ge> 64) \<Longrightarrow> ?y = y"
    using assms(2,4) wide_mod [OF assms(2)] by (auto simp: as_type_def wide_ok_iff split: if_splits)
  have c: "common (sa, x) (sb, y) = (sa, x, ?y)" using assms(4) as_type_id [OF assms(1)] by (auto simp: common_as_type)
  have w: "fst (promote (wide_type sa)) = 8" "snd (promote (wide_type sa)) = sa" by (simp_all add: promote_def wide_type_def)
  have op: "op = B_Shl \<or> op = B_Shr" using assms(3) by (simp add: shifts_def)
  have "c_shl (wide_type sa) x z = c_shift B_Shl sa x y \<and> c_shr (wide_type sa) x z = c_shift B_Shr sa x y"
    if "z < 0 \<or> z \<ge> 64 \<longleftrightarrow> y < 0 \<or> y \<ge> 64" "\<not> (y < 0 \<or> y \<ge> 64) \<Longrightarrow> z = y" for z
  proof (cases "y < 0 \<or> y \<ge> 64")
    case True
    then have "z < 0 \<or> z \<ge> 64" using that(1) by blast
    then show ?thesis using True by (auto simp: c_shift_def c_shl_def c_shr_def Let_def w)
  next
    case False
    then have "z = y" by (rule that(2))
    then show ?thesis using False by (simp add: c_shift_def c_shl_def c_shr_def c_result_fit Let_def w)
  qed
  from this [OF k] have shl: "c_shl (wide_type sa) x ?y = c_shift B_Shl sa x y" and shr: "c_shr (wide_type sa) x ?y = c_shift B_Shr sa x y"
    by blast+
  from op show ?thesis by (elim disjE) (simp_all add: wide_arith_def c shl shr)
qed

lemma wide_value_c_value: "well_formed s e \<Longrightarrow> conforming e \<Longrightarrow> wide_value e = obind (c_value e) (\<lambda>v. Inr (c_signed e, v))"
proof (induction e)
  case (P_Unary op e)
  then show ?case by (auto simp: obind_assoc unary_agrees)
next
  case (P_Binary op a b)
  have IH: "wide_value a = obind (c_value a) (\<lambda>v. Inr (c_signed a, v))" "wide_value b = obind (c_value b) (\<lambda>v. Inr (c_signed b, v))"
    using P_Binary by auto
  show ?case
  proof (cases "c_value a")
    case (Inl e)
    then show ?thesis using IH by simp
  next
    case x: (Inr x)
    then have okx: "wide_ok (c_signed a, x)" using IH(1) P_Binary.prems(1) wide_value_ok [of s a] by auto
    show ?thesis
    proof (cases "c_value b")
      case (Inl e)
      then have "\<not> has_value b" by (simp add: has_value_def)
      then have "\<not> (op = B_Logical_And \<and> x = 0)" "\<not> (op = B_Logical_Or \<and> x \<noteq> 0)" using P_Binary.prems(2) x by auto
      then show ?thesis using IH x Inl by auto
    next
      case y: (Inr y)
      then have oky: "wide_ok (c_signed b, y)" using IH(2) P_Binary.prems(1) wide_value_ok [of s b] by auto
      consider "op = B_Logical_And \<or> op = B_Logical_Or" | "op \<in> shifts" | "op \<notin> shifts" "op \<notin> {B_Logical_And, B_Logical_Or}" by blast
      then show ?thesis
      proof cases
        case 1
        then show ?thesis using IH x y by (auto simp: truth_valued_def bool_int_def)
      next
        case 2
        then have "op \<notin> truth_valued" "op \<noteq> B_Logical_And" "op \<noteq> B_Logical_Or" by (auto simp: shifts_def truth_valued_def)
        then show ?thesis using IH x y 2 shift_agrees [OF okx oky 2] P_Binary.prems(2) by simp
      next
        case 3
        then show ?thesis using IH x y arith_agrees [OF oky 3] by (auto simp: Let_def)
      qed
    qed
  qed
next
  case (P_Cond a b c)
  have IH: "wide_value a = obind (c_value a) (\<lambda>v. Inr (c_signed a, v))" "wide_value b = obind (c_value b) (\<lambda>v. Inr (c_signed b, v))"
      "wide_value c = obind (c_value c) (\<lambda>v. Inr (c_signed c, v))"
    using P_Cond by auto
  show ?case
  proof (cases "c_value a")
    case (Inl e)
    then show ?thesis using IH by simp
  next
    case x: (Inr x)
    then show ?thesis
      using IH P_Cond.prems(2)
      by (cases "c_value b"; cases "c_value c"; cases "x = 0") (auto simp: has_value_def common_as_type Let_def)
  qed
qed auto

text \<open>
  Property C13. The condition of \<open>#if\<close> is computed as the standard prescribes (\<open>c_value\<close>), for an expression of decimal
  constants (below \<open>2 ^ 63\<close> where they have no suffix), names that are not macros and all operators, in parentheses, on which the
  code does not deviate (\<open>conforming\<close>): the operand of \<open>!\<close> is signed, a signed integer is not shifted by an unsigned one, and
  the operands of \<open>&&\<close>, \<open>||\<close> and \<open>?:\<close> that C does not evaluate have a value. The result has the value and the type of the
  expression, in 64 bits, with an error for a division by zero and undefined behaviour exactly where the operators have it.
  The parser reads the whole expression, leaves the end of the line and the state alone, and its bounds on recursion are
  enough. The lemma \<open>condition_deviations\<close> below shows the code where it deviates.
\<close>

theorem condition_value:
  assumes "well_formed s e" "conforming e"
  shows "preprocess_constant_expression (tokens_of e @ [basic_token TK_NEWLINE]) s =
    obind (c_value e) (\<lambda>v. Inr ((number_of (c_signed e, v), [basic_token TK_NEWLINE]), s))"
  using condition_wide_value [OF assms(1)] wide_value_c_value [OF assms] by (simp add: obind_assoc)

text \<open>\<open>(2 < -1u)\<close> is true, since the operands are compared as unsigned integers.\<close>

theorem condition_value_witness:
  "preprocess_constant_expression (tokens_of (P_Binary B_Lt (P_Num ''2'' False) (P_Unary U_Minus (P_Num ''1'' True))) @ [basic_token TK_NEWLINE])
     directive_start = Inr ((\<lparr>n_type = basic_type__long, n_val = 1\<rparr>, [basic_token TK_NEWLINE]), directive_start)"
proof -
  let ?e = "P_Binary B_Lt (P_Num ''2'' False) (P_Unary U_Minus (P_Num ''1'' True))"
  have e: "well_formed directive_start ?e" "conforming ?e"
    by (simp_all add: isdigit_def digit_val_def shifts_def)
  have v: "c_value ?e = Inr 1" "c_signed ?e = True"
    by (simp_all add: shifts_def truth_valued_def Let_def fit_def as_type_def digit_val_def isdigit_def)
  show ?thesis using condition_value [OF e] unfolding v by (simp add: number_of_def)
qed

text \<open>
  The deviations. The expression \<open>(x && (1 / 0))\<close>, for a name \<open>x\<close> that is no macro, is false, but ends with an error; \<open>(-1 < !1u)\<close> and
  \<open>((-1 >> 1u) < 0)\<close> are true, but false in the code.
\<close>

lemma condition_deviations:
  "c_value (P_Binary B_Logical_And (P_Ident x) (P_Binary B_Div (P_Num ''1'' False) (P_Ident x))) = Inr 0"
  "wide_value (P_Binary B_Logical_And (P_Ident x) (P_Binary B_Div (P_Num ''1'' False) (P_Ident x))) = Inl (Exit_Error ''Division by zero.'')"
  "c_value (P_Binary B_Lt (P_Unary U_Minus (P_Num ''1'' False)) (P_Unary U_Not (P_Num ''1'' True))) = Inr 1"
  "wide_value (P_Binary B_Lt (P_Unary U_Minus (P_Num ''1'' False)) (P_Unary U_Not (P_Num ''1'' True))) = Inr (True, 0)"
  "c_value (P_Binary B_Lt (P_Binary B_Shr (P_Unary U_Minus (P_Num ''1'' False)) (P_Num ''1'' True)) (P_Ident x)) = Inr 1"
  "wide_value (P_Binary B_Lt (P_Binary B_Shr (P_Unary U_Minus (P_Num ''1'' False)) (P_Num ''1'' True)) (P_Ident x)) = Inr (True, 0)"
  by (simp_all add: shifts_def truth_valued_def Let_def fit_def as_type_def c_shift_def digit_val_def isdigit_def common_def wide_arith_def
      wide_compare_def c_neg_def c_shr_def c_result_def in_type_def int_min_def int_max_def bool_int_def wide_type_def promote_def)

end
