(* ===== verification/Preprocess.thy ===== *)
theory Preprocess
  imports Directive Tokenizer_Correct
begin

text \<open>
  The preprocessor as the parser sees it, \<open>src/preprocessor/preprocess.c\<close>: tokens are read from lines, macro calls that span lines
  are completed, directives are executed, and what is left is put in the lookahead, where adjacent string literals are
  joined and constants converted. The lookahead is the list that the deque stands for, with its front first.

  The line that is being read is missing where a new one has to be fetched. Loops that end with the input are
  total functions; the expansion of a line, and the files that include each other, need not come to an end, so that these loops
  are given a number of turns.
\<close>

datatype pragma = Import_Module string | Reference_Module string | Disable_Warning string

record preprocess_state = directive_state +
  pp_line :: "string option"
  pp_lookahead :: "token list"
  pp_output :: bool
  pp_destring :: string
  pp_pragmas :: "pragma list"
  pp_turns :: nat

type_synonym ('z, 'a) pp = "('z preprocess_state_scheme, 'a) sm"

section \<open>Tokens from lines\<close>

definition set_line :: "string option \<Rightarrow> ('z, unit) pp" where
  "set_line l = emodify (\<lambda>s. s\<lparr>pp_line := l\<rparr>)"

definition tokenize_line :: "string \<Rightarrow> ('z, token) pp" where
  "tokenize_line l =
     ebind (read_token l) (\<lambda>(r, rest).
       if ttype r = TK_END then ebind (set_line None) (\<lambda>_. eret (basic_token TK_NEWLINE))
       else ebind (set_line (Some rest)) (\<lambda>_. eret r))"

definition get_token :: "('z, token) pp" where
  "get_token =
     ebind (eget pp_line) (\<lambda>l.
       case l of
         Some text \<Rightarrow> tokenize_line text
       | None \<Rightarrow>
           ebind getprepline (\<lambda>r.
             case r of
               None \<Rightarrow> ebind (set_line None) (\<lambda>_. eret (basic_token TK_END))
             | Some text \<Rightarrow> tokenize_line text))"

text \<open>
  What is left of the input decreases with every token but the one at its end: the lines to be read, and then the
  rest of the current line.
\<close>

definition line_left :: "'z preprocess_state_scheme \<Rightarrow> nat" where
  "line_left s = (case pp_line s of None \<Rightarrow> 0 | Some l \<Rightarrow> Suc (length l))"

definition consumed :: "'z preprocess_state_scheme \<Rightarrow> 'z preprocess_state_scheme \<Rightarrow> bool" where
  "consumed s s' \<longleftrightarrow> total_pending s' < total_pending s \<or> total_pending s' = total_pending s \<and> line_left s' < line_left s"

definition input_order :: "'z preprocess_state_scheme \<Rightarrow> 'z preprocess_state_scheme \<Rightarrow> bool" where
  "input_order s s' \<longleftrightarrow> consumed s s' \<or> total_pending s' = total_pending s \<and> line_left s' = line_left s"

lemma wf_consumed: "wf {(s', s). consumed s s'}"
proof -
  have "{(s', s). consumed s s'} \<subseteq> inv_image (less_than <*lex*> less_than) (\<lambda>s. (total_pending s, line_left s))"
    by (auto simp: consumed_def inv_image_def)
  then show ?thesis by (rule wf_subset [rotated]) (simp add: wf_lex_prod wf_inv_image)
qed

lemma input_order_preorder [simp]: "reflp input_order" "transp input_order"
  by (auto simp: reflp_def transp_def input_order_def consumed_def)

lemma consumed_order: "consumed s s1 \<Longrightarrow> input_order s1 s2 \<Longrightarrow> consumed s s2" "input_order s s1 \<Longrightarrow> consumed s1 s2 \<Longrightarrow> consumed s s2"
  by (auto simp: input_order_def consumed_def)

lemma getprepline_left:
  "getprepline s = Inr (r, s') \<Longrightarrow> pp_line s' = pp_line s \<and>
     (case r of None \<Rightarrow> total_pending s' \<le> total_pending s | Some l \<Rightarrow> total_pending s' < total_pending s)"
proof (induction "total_pending s" arbitrary: s r s' rule: less_induct)
  case less
  show ?case
  proof (cases "in_sources s")
    case Nil
    then show ?thesis using less.prems by (subst (asm) getprepline.simps) simp
  next
    case (Cons f rest)
    obtain f' line where f': "initial_preprocess_line f = Inr (f', line)"
      using less.prems Cons by (subst (asm) getprepline.simps) (auto split: sum.splits)
    define s2 where "s2 = (if in_stale s then s\<lparr>mc_path := so_path f, mc_line := so_line f, in_stale := False,
        in_sources := f' # rest, mc_line := so_line f + (so_line f' - so_line f)\<rparr>
      else s\<lparr>in_sources := f' # rest, mc_line := mc_line s + (so_line f' - so_line f)\<rparr>)"
    define s3 where "s3 = s2\<lparr>in_stale := True, in_sources := rest\<rparr>"
    have p: "total_pending s = Suc (pending f) + total_pending s3" "total_pending s2 = Suc (pending f') + total_pending s3"
      "pp_line s2 = pp_line s" "pp_line s3 = pp_line s"
      using Cons by (simp_all add: total_pending_def s2_def s3_def)
    show ?thesis
    proof (cases line)
      case None
      have "getprepline s = (if rest = [] then Inr (None, s3) else if \<not> in_active_block s3 then Inl Undefined_Behaviour else getprepline s3)"
        using Cons f' None by (subst getprepline.simps) (auto simp: Let_def s2_def s3_def)
      then show ?thesis using less.prems less.hyps [of s3 r s'] p by (auto split: if_splits option.splits)
    next
      case (Some l)
      have "getprepline s = (if \<not> in_active_block s2 \<and> \<not> is_directive l then getprepline s2 else Inr (Some l, s2))"
        using Cons f' Some by (subst getprepline.simps) (auto simp: Let_def s2_def)
      moreover have "pending f' < pending f" using f' Some initial_preprocess_line_pending by blast
      ultimately show ?thesis using less.prems less.hyps [of s2 r s'] p by (auto split: if_splits option.splits)
    qed
  qed
qed

lemma tokenize_line_left:
  assumes "tokenize_line l s = Inr (t, s')"
  shows "total_pending s' = total_pending s \<and> line_left s' \<le> length l"
proof -
  let ?l = "takeWhile (\<lambda>c. c \<noteq> CHR 0x00) l"
  obtain st r rest where r: "tokenize (mc_strtab s) (mc_std s) ?l = Inr (st, r, rest)"
      "s' = s\<lparr>mc_strtab := st, pp_line := (if ttype r = TK_END then None else Some rest)\<rparr>"
    using assms by (auto simp: tokenize_line_def read_token_def set_line_def ev_simps outcome_simps split: if_splits)
  obtain ws inp where inp: "skip_spaces ?l = (ws, inp)" by fastforce
  have len: "length inp \<le> length l"
    using inp length_dropWhile_le [of isspace ?l] length_takeWhile_le [of "\<lambda>c. c \<noteq> CHR 0x00" l] by (auto simp: skip_spaces_def)
  obtain tok where tok: "scan_token (mc_strtab s) (mc_std s) inp = Inr (st, tok, rest)" "ttype r = ttype tok"
    using r(1) inp by (auto simp: tokenize_def outcome_simps)
  have "ttype (basic_token TK_END) = TK_END" by code_simp
  then have "length rest < length inp" if "ttype r \<noteq> TK_END"
    using scan_token_progress [OF tok(1)] tok(2) that by (auto split: if_splits)
  then show ?thesis using r(2) len by (auto simp: total_pending_def line_left_def)
qed

lemma get_token_left:
  assumes "get_token s = Inr (t, s')"
  shows "input_order s s' \<and> (ttype t \<noteq> TK_END \<longrightarrow> consumed s s')"
proof (cases "pp_line s")
  case (Some l)
  then have "tokenize_line l s = Inr (t, s')" using assms by (simp add: get_token_def ev_simps)
  then show ?thesis using tokenize_line_left Some by (fastforce simp: input_order_def consumed_def line_left_def)
next
  case None
  then obtain r s1 where r: "getprepline s = Inr (r, s1)" using assms by (auto simp: get_token_def ev_simps outcome_simps)
  show ?thesis
  proof (cases r)
    case None
    have "ttype (basic_token TK_END) = TK_END" by code_simp
    then show ?thesis
      using assms \<open>pp_line s = None\<close> r None getprepline_left [OF r]
      by (auto simp: get_token_def ev_simps set_line_def input_order_def consumed_def line_left_def total_pending_def)
  next
    case (Some l)
    then have "tokenize_line l s1 = Inr (t, s')" using assms \<open>pp_line s = None\<close> r by (simp add: get_token_def ev_simps)
    then show ?thesis using tokenize_line_left getprepline_left [OF r] Some by (fastforce simp: input_order_def consumed_def)
  qed
qed

lemma get_token_consumed: "get_token s = Inr (t, s') \<Longrightarrow> ttype t \<noteq> TK_END \<Longrightarrow> consumed s s'"
  using get_token_left by blast

section \<open>Calls that span lines\<close>

text \<open>The next token that does not end a line.\<close>

function skip_newlines :: "('z, token) pp" where
  "skip_newlines s =
     (case get_token s of
        Inl e \<Rightarrow> Inl e
      | Inr (t, s') \<Rightarrow> if ttype t = TK_NEWLINE then skip_newlines s' else Inr (t, s'))"
  by pat_completeness auto
termination
  by (relation "{(s', s). consumed s s'}") (auto simp: wf_consumed intro: get_token_consumed)

declare skip_newlines.simps [simp del]

definition read_through_newline :: "token list \<Rightarrow> ('z, token_type \<times> token list) pp" where
  "read_through_newline line =
     ebind skip_newlines (\<lambda>t. eret (ttype t, if ttype t \<noteq> TK_END then line @ [t] else line))"

definition read_Pragma_invocation :: "token list \<Rightarrow> ('z, token list) pp" where
  "read_Pragma_invocation line =
     ebind (read_through_newline line) (\<lambda>(t, line).
       if t \<noteq> TK_OPEN_PAREN then eerror ''Expected ( after _Pragma.''
       else
         ebind (read_through_newline line) (\<lambda>(t, line).
           if t \<noteq> TK_STRING \<and> t \<noteq> TK_PREP_STRING then eerror ''Invalid argument to _Pragma operator, expected string.''
           else
             ebind (read_through_newline line) (\<lambda>(t, line).
               if t \<noteq> TK_CLOSE_PAREN then eerror ''Expected ) to complete _Pragma expression.'' else eret line)))"

text \<open>The arguments of a call up to the parenthesis that closes it; the check for unbalanced calls behind the loop never fails.\<close>

function invocation_loop :: "nat \<Rightarrow> token list \<Rightarrow> ('z, token list) pp" where
  "invocation_loop nesting line s =
     (if nesting = 0 then Inr (line, s)
      else
        case get_token s of
          Inl e \<Rightarrow> Inl e
        | Inr (t, s') \<Rightarrow>
            if ttype t = TK_NEWLINE then invocation_loop nesting line s'
            else if ttype t = TK_END then Inl Assert_Failed
            else
              invocation_loop (if ttype t = TK_OPEN_PAREN then nesting + 1 else if ttype t = TK_CLOSE_PAREN then nesting - 1 else nesting)
                (line @ [t]) s')"
  by pat_completeness auto
termination
  by (relation "inv_image {(s', s). consumed s s'} (\<lambda>(n, line, s). s)") (auto simp: wf_consumed wf_inv_image intro: get_token_consumed)

declare invocation_loop.simps [simp del]

definition read_macro_invocation :: "macro \<Rightarrow> token list \<Rightarrow> ('z, token list) pp" where
  "read_macro_invocation def line =
     ebind (eassert (mac_type def = FUNCTION_LIKE)) (\<lambda>_.
     ebind get_token (\<lambda>t.
       if ttype t \<noteq> TK_OPEN_PAREN then eret (line @ [t]) else invocation_loop 1 (line @ [t])))"

definition read_defined_operator :: "token list \<Rightarrow> ('z, token list) pp" where
  "read_defined_operator line =
     ebind get_token (\<lambda>t0.
     ebind (if ttype t0 = TK_OPEN_PAREN then ebind get_token (\<lambda>t. eret (t, True)) else eret (t0, False)) (\<lambda>(t, is_parens).
       if \<not> is_expandable t then eerror ''Expected identifier in defined clause, but got %s''
       else
         ebind (olift (tok_str t)) (\<lambda>name.
         ebind (macro_definition name) (\<lambda>def.
         ebind (read_token (if def \<noteq> None then ''1'' else ''0'')) (\<lambda>(n, rest).
           if is_parens then
             ebind get_token (\<lambda>c.
               if ttype c \<noteq> TK_CLOSE_PAREN then eerror ''Expected ) to close defined clause.'' else eret (line @ [n]))
           else eret (line @ [n]))))))"

text \<open>None of these gives input back.\<close>

named_theorems order_intros "operations that give no input back"

lemmas order_basic [order_intros] = within_basic [OF input_order_preorder(1)]
lemmas order_ebind [order_intros] = within_ebind [OF input_order_preorder(2)]
lemmas order_cases [order_intros] = within_cases [of input_order]

lemma order_get_token [order_intros]: "within input_order get_token"
  unfolding within_def using get_token_left by blast

lemma order_skip_newlines [order_intros]: "within input_order skip_newlines"
proof -
  have "skip_newlines s = Inr (t, s') \<Longrightarrow> input_order s s'" for t s and s' :: "'a preprocess_state_scheme"
  proof (induction s rule: skip_newlines.induct)
    case (1 s)
    obtain u s1 where u: "get_token s = Inr (u, s1)" using "1.prems" by (subst (asm) skip_newlines.simps) (auto split: sum.splits)
    then have "input_order s s1" using get_token_left by blast
    then show ?case
      using "1.prems" "1.IH" [OF u refl] u transpD [OF input_order_preorder(2)]
      by (subst (asm) skip_newlines.simps) (fastforce split: if_splits)
  qed
  then show ?thesis by (auto simp: within_def)
qed

lemma order_invocation_loop [order_intros]: "within input_order (invocation_loop n line)"
proof -
  have "invocation_loop n line s = Inr (x, s') \<Longrightarrow> input_order s s'" for s x and s' :: "'a preprocess_state_scheme"
  proof (induction n line s rule: invocation_loop.induct)
    case (1 n line s)
    show ?case
    proof (cases "n = 0")
      case True
      then show ?thesis using "1.prems" by (subst (asm) invocation_loop.simps) (simp add: input_order_def)
    next
      case False
      obtain u s1 where u: "get_token s = Inr (u, s1)"
        using "1.prems" False by (subst (asm) invocation_loop.simps) (auto split: sum.splits)
      then have "input_order s s1" using get_token_left by blast
      moreover have "input_order s1 s'"
        using "1.prems" "1.IH" [OF False u refl] u False
        by (subst (asm) invocation_loop.simps) (auto split: if_splits)
      ultimately show ?thesis using transpD [OF input_order_preorder(2)] by blast
    qed
  qed
  then show ?thesis by (auto simp: within_def)
qed

lemma order_same: "(\<And>s x s'. m s = Inr (x, s') \<Longrightarrow> pp_line s' = pp_line s \<and> in_sources s' = in_sources s) \<Longrightarrow> within input_order m"
  by (auto simp: within_def input_order_def line_left_def total_pending_def)

lemma order_read_token [order_intros]: "within input_order (read_token l)"
  by (rule order_same) (auto simp: read_token_def outcome_simps)

lemma order_macro_definition [order_intros]: "within input_order (macro_definition name)"
proof -
  have "within input_order table" by (rule order_same) (auto simp: table_def split: option.splits)
  moreover have "within input_order (set_table t)" for t by (rule order_same) (auto simp: set_table_def emodify_def)
  moreover have "within input_order get__line__token" "within input_order get__file__token"
    by (rule order_same, auto simp: get__line__token_def get__file__token_def read_string_def ev_simps outcome_simps)+
  ultimately show ?thesis unfolding macro_definition_def replace_first_def Let_def by (intro order_intros)
qed

lemma order_tok_is [order_intros]: "within input_order (tok_is t ident)"
  unfolding tok_is_def by (intro order_intros)

lemma order_calls [order_intros]:
  "within input_order (read_through_newline line)" "within input_order (read_Pragma_invocation line)"
  "within input_order (read_macro_invocation def line)" "within input_order (read_defined_operator line)"
proof -
  show *: "within input_order (read_through_newline line)" for line unfolding read_through_newline_def by (intro order_intros)
  show "within input_order (read_Pragma_invocation line)" unfolding read_Pragma_invocation_def by (intro order_intros *)
  show "within input_order (read_macro_invocation def line)" unfolding read_macro_invocation_def by (intro order_intros)
  show "within input_order (read_defined_operator line)" unfolding read_defined_operator_def by (intro order_intros)
qed

section \<open>Complete lines\<close>

text \<open>One token of a line that is read, with the number of macros that it begins to expand.\<close>

definition complete_token :: "bool \<Rightarrow> bool \<Rightarrow> token \<Rightarrow> token list \<Rightarrow> ('z, token list \<times> nat) pp" where
  "complete_token directive expandable t line =
     (if expandable \<and> is_expandable t then
        ebind (if directive then tok_is t ident__defined else eret False) (\<lambda>defined.
        if defined then ebind (read_defined_operator line) (\<lambda>l. eret (l, 0))
        else
          ebind (tok_is t ident__Pragma) (\<lambda>p.
          if p then ebind (read_Pragma_invocation (line @ [t])) (\<lambda>l. eret (l, 0))
          else
            ebind (olift (tok_str t)) (\<lambda>name.
            ebind (macro_definition name) (\<lambda>d.
              case d of
                None \<Rightarrow> eret (line @ [t], 0)
              | Some def \<Rightarrow>
                  if mac_type def = FUNCTION_LIKE then ebind (read_macro_invocation def (line @ [t])) (\<lambda>l. eret (l, 1))
                  else eret (line @ [t], 1)))))
      else eret (line @ [t], 0))"

lemma order_complete_token [order_intros]: "within input_order (complete_token directive expandable t line)"
  unfolding complete_token_def by (intro order_intros)

function complete_loop :: "bool \<Rightarrow> bool \<Rightarrow> token \<Rightarrow> token list \<Rightarrow> nat \<Rightarrow> ('z, token list \<times> nat) pp" where
  "complete_loop directive expandable t line macros s =
     (if ttype t = TK_NEWLINE then Inr ((line @ [t], macros), s)
      else if ttype t = TK_END then Inl Assert_Failed
      else
        case ebind (complete_token directive expandable t line) (\<lambda>r. ebind get_token (\<lambda>t'. eret (r, t'))) s of
          Inl e \<Rightarrow> Inl e
        | Inr (((line', n), t'), s') \<Rightarrow>
            if ttype t' = TK_END then Inl Assert_Failed else complete_loop directive expandable t' line' (macros + n) s')"
  by pat_completeness auto
termination
proof (relation "inv_image {(s', s). consumed s s'} (\<lambda>(directive, expandable, t, line, macros, s). s)")
  fix directive expandable t line macros and s s' :: "'z preprocess_state_scheme" and r x y z l n
  assume "ebind (complete_token directive expandable t line) (\<lambda>r. ebind get_token (\<lambda>t'. eret (r, t'))) s = Inr r"
    "(x, s') = r" "(y, z) = x" "(l, n) = y" "ttype z \<noteq> TK_END"
  then obtain s1 where "complete_token directive expandable t line s = Inr (y, s1)" "get_token s1 = Inr (z, s')"
    by (auto simp: ebind_Inr eret_def)
  then have "consumed s s'"
    using withinD [OF order_complete_token] get_token_consumed consumed_order(2) \<open>ttype z \<noteq> TK_END\<close> by blast
  then show "((directive, expandable, z, l, macros + n, s'), directive, expandable, t, line, macros, s)
    \<in> inv_image {(s', s). consumed s s'} (\<lambda>(directive, expandable, t, line, macros, s). s)"
    by simp
qed (simp add: wf_consumed wf_inv_image)

declare complete_loop.simps [simp del]

definition read_complete_line :: "token list \<Rightarrow> token \<Rightarrow> bool \<Rightarrow> ('z, token list \<times> nat) pp" where
  "read_complete_line line t directive =
     (if directive then
        ebind (if ttype t = TK_IF then eret True else tok_is t ident__elif) (\<lambda>expandable.
        ebind get_token (\<lambda>t'. complete_loop True expandable t' (line @ [t]) 0))
      else complete_loop False True t line 0)"

section \<open>Lines that are expanded again\<close>

definition skip_or_get_token :: "token list \<Rightarrow> nat \<Rightarrow> ('z, token \<times> token list) pp" where
  "skip_or_get_token line0 i =
     (let line = (if i + 1 = length line0 \<and> ttype (line0 ! i) = TK_NEWLINE then butlast line0 else line0) in
      if i = length line then
        ebind skip_newlines (\<lambda>t. ebind (eassert (ttype t \<noteq> TK_END)) (\<lambda>_. eret (t, line @ [t])))
      else ebind (eassert (i < length line)) (\<lambda>_. eret (line ! i, line)))"

lemma skip_newlines_consumed: "skip_newlines s = Inr (t, s') \<Longrightarrow> ttype t \<noteq> TK_END \<Longrightarrow> consumed s s'"
proof (induction s rule: skip_newlines.induct)
  case (1 s)
  obtain u s1 where u: "get_token s = Inr (u, s1)" using "1.prems" by (subst (asm) skip_newlines.simps) (auto split: sum.splits)
  show ?case
  proof (cases "ttype u = TK_NEWLINE")
    case True
    have "skip_newlines s1 = Inr (t, s')" using "1.prems"(1) u True by (subst (asm) skip_newlines.simps) simp
    then have "consumed s1 s'" using "1.IH" [OF u refl True] "1.prems"(2) by blast
    then show ?thesis using get_token_left [OF u] consumed_order(2) by blast
  next
    case False
    have "u = t \<and> s1 = s'" using "1.prems"(1) u False by (subst (asm) skip_newlines.simps) simp
    then show ?thesis using get_token_consumed [OF u] "1.prems"(2) by simp
  qed
qed

lemma skip_or_get_token_progress:
  "skip_or_get_token line i s = Inr ((t, line'), s') \<Longrightarrow> consumed s s' \<or> s' = s \<and> line' = line \<and> i < length line"
  by (auto simp: skip_or_get_token_def Let_def ebind_Inr eret_def eassert_def efail_def intro: skip_newlines_consumed split: if_splits)

function expansion_loop :: "nat \<Rightarrow> token list \<Rightarrow> nat \<Rightarrow> ('z, nat \<times> token list) pp" where
  "expansion_loop nest line i s =
     (if nest = 0 then Inr ((i, line), s)
      else
        case skip_or_get_token line i s of
          Inl e \<Rightarrow> Inl e
        | Inr ((t, line'), s') \<Rightarrow>
            expansion_loop (if ttype t = TK_OPEN_PAREN then nest + 1 else if ttype t = TK_CLOSE_PAREN then nest - 1 else nest) line' (i + 1) s')"
  by pat_completeness auto
termination
proof (relation "inv_image ({(s', s). consumed s s'} <*lex*> less_than) (\<lambda>(nest, line, i, s). (s, length line - i))")
  fix nest i and line line' :: "token list" and s s' :: "'z preprocess_state_scheme" and r y t n
  assume "skip_or_get_token line i s = Inr r" "(y, s') = r" "(t, line') = y"
  then have "consumed s s' \<or> s' = s \<and> line' = line \<and> i < length line" using skip_or_get_token_progress by blast
  then show "((if ttype t = TK_OPEN_PAREN then nest + 1 else if ttype t = TK_CLOSE_PAREN then nest - 1 else nest, line', i + 1, s'), nest, line, i, s)
    \<in> inv_image ({(s', s). consumed s s'} <*lex*> less_than) (\<lambda>(nest, line, i, s). (s, length line - i))"
    by auto
qed (simp add: wf_consumed wf_inv_image wf_lex_prod)

declare expansion_loop.simps [simp del]

text \<open>The result is the number of tokens that were passed, and the line.\<close>

definition skip_or_read_expansion :: "token list \<Rightarrow> nat \<Rightarrow> ('z, nat \<times> token list) pp" where
  "skip_or_read_expansion line start =
     ebind (skip_or_get_token line start) (\<lambda>(t, line').
       if ttype t \<noteq> TK_OPEN_PAREN then eret (1, line')
       else ebind (expansion_loop 1 line' (start + 1)) (\<lambda>(i, line''). eret (i - start, line'')))"

text \<open>
  The loop over the tokens that the line has at first; it returns the last token that was looked at, the number of
  calls found, and the line.
\<close>

function refill_loop :: "nat \<Rightarrow> nat \<Rightarrow> token \<Rightarrow> nat \<Rightarrow> token list \<Rightarrow> ('z, token \<times> nat \<times> token list) pp" where
  "refill_loop len i t n line s =
     (if len \<le> i then Inr ((t, n, line), s)
      else if length line \<le> i then Inl Undefined_Behaviour
      else
        let u = line ! i in
        case
          (if is_expandable u \<and> \<not> disable_expand u then
             ebind (olift (tok_str u)) (\<lambda>name.
             ebind (macro_definition name) (\<lambda>d.
               if d \<noteq> None \<and> map_option mac_type d = Some FUNCTION_LIKE then
                 ebind (skip_or_read_expansion line (i + 1)) (\<lambda>(k, line'). eret (k, n + 1, line'))
               else eret (0, n, line)))
           else
             ebind (tok_is u ident__Pragma) (\<lambda>p.
               if p then ebind (skip_or_read_expansion line (i + 1)) (\<lambda>(k, line'). eret (k, n, line')) else eret (0, n, line))) s of
          Inl e \<Rightarrow> Inl e
        | Inr ((k, n', line'), s') \<Rightarrow> refill_loop len (i + k + 1) u n' line' s')"
  by pat_completeness auto
termination
  by (relation "measure (\<lambda>(len, i, t, n, line, s). len - i)") auto

declare refill_loop.simps [simp del]

definition refill_expanding_line :: "token list \<Rightarrow> ('z, nat \<times> token list) pp" where
  "refill_expanding_line line =
     (if line = [] then eret (0, [])
      else
        ebind (refill_loop (length line) 0 zero_token 0 line) (\<lambda>(t, n, line').
          if ttype t \<noteq> TK_NEWLINE then
            ebind get_token (\<lambda>t'. ebind (read_complete_line line' t' False) (\<lambda>(line'', m). eret (n + m, line'')))
          else eret (n, line')))"

text \<open>Expansion is repeated while it changes something and calls are left.\<close>

fun expand_again :: "nat \<Rightarrow> nat \<Rightarrow> token list \<Rightarrow> ('z, token list) pp" where
  "expand_again turns i line =
     (if i = 0 then eret line
      else
        (case turns of
           0 \<Rightarrow> efail Stack_Overflow
         | Suc m \<Rightarrow>
             ebind (expand line) (\<lambda>(line', n).
               if n = 0 then eret line' else ebind (refill_expanding_line line') (\<lambda>(i', line''). expand_again m i' line''))))"

declare expand_again.simps [simp del]

section \<open>The lookahead\<close>

definition convert_string :: "token \<Rightarrow> ('z, token) mac" where
  "convert_string t s = obind (convert_preprocessing_string (mc_strtab s) t) (\<lambda>(st, r). Inr (r, s\<lparr>mc_strtab := st\<rparr>))"

definition concat_strings :: "c_string \<Rightarrow> c_string \<Rightarrow> ('z, c_string) mac" where
  "concat_strings a b s = obind (str_cat (mc_strtab s) a b) (\<lambda>(st, r). Inr (r, s\<lparr>mc_strtab := st\<rparr>))"

definition push_lookahead :: "token \<Rightarrow> ('z, unit) pp" where
  "push_lookahead t = emodify (\<lambda>s. s\<lparr>pp_lookahead := pp_lookahead s @ [t]\<rparr>)"

definition add_string :: "token \<Rightarrow> ('z, unit) pp" where
  "add_string t =
     ebind (eget pp_lookahead) (\<lambda>la.
       if la \<noteq> [] \<and> ttype (last la) = TK_STRING then
         ebind (olift (tok_str (last la))) (\<lambda>a.
         ebind (olift (tok_str t)) (\<lambda>b.
         ebind (concat_strings a b) (\<lambda>r.
           emodify (\<lambda>s. s\<lparr>pp_lookahead := butlast (pp_lookahead s) @ [t\<lparr>tdata := TStr r\<rparr>]\<rparr>))))
       else push_lookahead t)"

definition add_to_lookahead :: "token \<Rightarrow> ('z, unit) pp" where
  "add_to_lookahead t =
     ebind (eget pp_output) (\<lambda>out.
       if out then push_lookahead t
       else if ttype t = TK_PREP_CHAR then ebind (olift (convert_preprocessing_char t)) push_lookahead
       else if ttype t = TK_PREP_NUMBER then
         ebind (eget dr_lib) (\<lambda>lib. ebind (olift (convert_preprocessing_number lib t)) push_lookahead)
       else if ttype t = TK_PREP_STRING then ebind (convert_string t) add_string
       else if ttype t = TK_STRING then add_string t
       else push_lookahead t)"

definition is_lookahead_ready :: "nat \<Rightarrow> 'z preprocess_state_scheme \<Rightarrow> bool" where
  "is_lookahead_ready n s \<longleftrightarrow>
     \<not> length (pp_lookahead s) < n \<and>
     \<not> (pp_lookahead s \<noteq> [] \<and> \<not> pp_output s \<and> ttype (last (pp_lookahead s)) = TK_STRING)"

section \<open>Pragmas\<close>

text \<open>The last pragma name seen decides what a string means; modules that are imported and warnings are recorded.\<close>

datatype pragma_id = PRAGMA_UNKNOWN | PRAGMA_IMPORT | PRAGMA_LIB | PRAGMA_DISWARN

definition record_pragma :: "pragma_id \<Rightarrow> string \<Rightarrow> ('z, unit) pp" where
  "record_pragma i text =
     (case i of
        PRAGMA_IMPORT \<Rightarrow> emodify (\<lambda>s. s\<lparr>pp_pragmas := pp_pragmas s @ [Import_Module text]\<rparr>)
      | PRAGMA_LIB \<Rightarrow> emodify (\<lambda>s. s\<lparr>pp_pragmas := pp_pragmas s @ [Reference_Module text]\<rparr>)
      | PRAGMA_DISWARN \<Rightarrow>
          if text = ''warning:all'' then emodify (\<lambda>s. s\<lparr>pp_pragmas := pp_pragmas s @ [Disable_Warning text]\<rparr>) else eret ()
      | PRAGMA_UNKNOWN \<Rightarrow> eret ())"

fun pragma_loop :: "pragma_id \<Rightarrow> token list \<Rightarrow> ('z, unit) pp" where
  "pragma_loop i [] = eret ()"
| "pragma_loop i (t # ts) =
     (if ttype t = TK_IDENTIFIER then
        ebind (olift (tok_str t)) (\<lambda>str.
          let name = c_text str in
          pragma_loop (if name = ''import'' then PRAGMA_IMPORT else if name = ''lib'' then PRAGMA_LIB
            else if name = ''disable'' then PRAGMA_DISWARN else i) ts)
      else if ttype t = TK_STRING \<or> ttype t = TK_PREP_STRING then
        ebind (olift (tok_str t)) (\<lambda>str. ebind (record_pragma i (c_text str)) (\<lambda>_. pragma_loop i ts))
      else pragma_loop i ts)"

definition preprocess_pragma :: "token list \<Rightarrow> ('z, unit) pp" where
  "preprocess_pragma line =
     ebind (eassert (line \<noteq> [])) (\<lambda>_.
     ebind (tok_is (hd line) ident__pragma) (\<lambda>p.
     ebind (eassert p) (\<lambda>_.
     ebind (eget pp_output) (\<lambda>out.
       if out then
         ebind (add_to_lookahead (basic_token TK_NEWLINE)) (\<lambda>_.
         ebind (add_to_lookahead (basic_token TK_HASH)) (\<lambda>_.
         ebind (eiter (\<lambda>t. ebind (eassert (ttype t \<noteq> TK_END)) (\<lambda>_. add_to_lookahead t)) line) (\<lambda>_.
           if ttype (last line) \<noteq> TK_NEWLINE then add_to_lookahead (basic_token TK_NEWLINE) else eret ())))
       else pragma_loop PRAGMA_UNKNOWN line))))"

text \<open>A backslash at the end of the text is followed by the zero byte that ends it.\<close>

fun destringize_text :: "string \<Rightarrow> string" where
  "destringize_text [] = []"
| "destringize_text (c # cs) =
     (if c = BACKSLASH then
        (case cs of
           [] \<Rightarrow> [c, NUL]
         | d # ds \<Rightarrow> (if d = DQUOTE \<or> d = BACKSLASH then [d] else [c, d]) @ destringize_text ds)
      else c # destringize_text cs)"

text \<open>
  The result is written to the front of a buffer that is kept between calls and cleared only when it grows.
  What was written before follows it.
\<close>

definition destringize :: "c_string \<Rightarrow> ('z, string) pp" where
  "destringize str s =
     (let raw = str_chars str;
          buf = (if length raw + 1 > length (pp_destring s) then replicate (length raw + 1) NUL else pp_destring s);
          text = destringize_text raw;
          buf' = text @ drop (length text) buf
      in Inr (buf', s\<lparr>pp_destring := buf'\<rparr>))"

function pragma_tokens :: "string \<Rightarrow> ('z, token list) mac" where
  "pragma_tokens str s =
     (case read_token str s of
        Inl e \<Rightarrow> Inl e
      | Inr ((t, rest), s') \<Rightarrow>
          if ttype t = TK_END then Inr ([], s')
          else if length rest < length str then obind (pragma_tokens rest s') (\<lambda>(ts, s''). Inr (t # ts, s''))
          else Inl Undefined_Behaviour)"
  by pat_completeness auto
termination
  by (relation "measure (\<lambda>(str, s). length str)") auto

declare pragma_tokens.simps [simp del]

text \<open>
  The operator \<open>_Pragma\<close> at the front of what is left of a line, of which it takes four tokens; the second token of the result is
  given a space. Where the result has one token only, the code writes to an unused element of its array instead.
\<close>

definition preprocess_Pragma :: "token list \<Rightarrow> ('z, token list) pp" where
  "preprocess_Pragma line =
     (if length line < 3 then eerror ''Wrong application of _Pragma operator.''
      else if ttype (line ! 1) \<noteq> TK_OPEN_PAREN \<or> (ttype (line ! 2) \<noteq> TK_STRING \<and> ttype (line ! 2) \<noteq> TK_PREP_STRING)
      then eerror ''Wrong application of _Pragma operator.''
      else if length line < 4 then efail Undefined_Behaviour
      else if ttype (line ! 3) \<noteq> TK_CLOSE_PAREN then eerror ''Wrong application of _Pragma operator.''
      else
        ebind (olift (tok_str (line ! 2))) (\<lambda>str.
        ebind (destringize str) (\<lambda>text.
        ebind (pragma_tokens text) (\<lambda>ts.
          case ts of
            [] \<Rightarrow> eret [ident__pragma]
          | t # ts' \<Rightarrow> eret (ident__pragma # t\<lparr>leading_whitespace := 1\<rparr> # ts')))))"

section \<open>Lines\<close>

function line_tokens :: "token list \<Rightarrow> ('z, unit) pp" where
  "line_tokens [] s = Inr ((), s)"
| "line_tokens (t # ts) s =
     (case tok_is t ident__Pragma s of
        Inl e \<Rightarrow> Inl e
      | Inr (is_pragma, s1) \<Rightarrow>
          if is_pragma then
            (case ebind (preprocess_Pragma (t # ts)) preprocess_pragma s1 of
               Inl e \<Rightarrow> Inl e
             | Inr (u, s2) \<Rightarrow> line_tokens (drop 3 ts) s2)
          else
            (case ebind (eget pp_output) (\<lambda>out. if ttype t \<noteq> TK_NEWLINE \<or> out then add_to_lookahead t else eret ()) s1 of
               Inl e \<Rightarrow> Inl e
             | Inr (u, s2) \<Rightarrow> line_tokens ts s2))"
  by pat_completeness auto
termination
  by (relation "measure (\<lambda>(line, s). length line)") auto

text \<open>Whether a line that begins with a hash is executed although the block is inactive.\<close>

definition conditional_directive :: "token \<Rightarrow> ('z, bool) mac" where
  "conditional_directive t =
     (if ttype t = TK_IF \<or> ttype t = TK_ELSE then eret True
      else
        ebind (tok_is t ident__ifdef) (\<lambda>b. if b then eret True else
        ebind (tok_is t ident__ifndef) (\<lambda>b. if b then eret True else
        ebind (tok_is t ident__elif) (\<lambda>b. if b then eret True else tok_is t ident__endif))))"

definition directive_line :: "('z, unit) pp" where
  "directive_line =
     ebind get_token (\<lambda>t.
     ebind (eget in_active_block) (\<lambda>active.
     ebind (if ttype t \<noteq> TK_NEWLINE \<and> active then eret True else conditional_directive t) (\<lambda>b.
       if b then
         ebind (read_complete_line [] t True) (\<lambda>(line, n).
         ebind (tok_is t ident__pragma) (\<lambda>p. if p then preprocess_pragma line else preprocess_directive line))
       else set_line None)))"

definition text_line :: "token \<Rightarrow> ('z, unit) pp" where
  "text_line t =
     ebind (eget in_active_block) (\<lambda>active.
     ebind (eassert active) (\<lambda>_.
     ebind (read_complete_line [] t False) (\<lambda>(line, i).
     ebind (eget pp_turns) (\<lambda>turns.
     ebind (expand_again turns i line) line_tokens))))"

text \<open>One turn: whether the input has ended.\<close>

definition preprocess_turn :: "('z, bool) pp" where
  "preprocess_turn =
     ebind get_token (\<lambda>t.
       if ttype t = TK_END then eret True
       else ebind (if ttype t = TK_HASH then directive_line else text_line t) (\<lambda>_. eret False))"

fun preprocess_turns :: "nat \<Rightarrow> nat \<Rightarrow> ('z, unit) pp" where
  "preprocess_turns 0 n = efail Stack_Overflow"
| "preprocess_turns (Suc m) n =
     ebind preprocess_turn (\<lambda>ended.
       if ended then eret ()
       else ebind (eget (is_lookahead_ready n)) (\<lambda>ready. if ready then eret () else preprocess_turns m n))"

definition preprocess_line :: "nat \<Rightarrow> ('z, unit) pp" where
  "preprocess_line n =
     ebind (eget pp_turns) (\<lambda>turns.
     ebind (preprocess_turns turns n) (\<lambda>_.
     ebind (eget (\<lambda>s. n - length (pp_lookahead s))) (\<lambda>missing.
       eiter (\<lambda>_. add_to_lookahead (basic_token TK_END)) (replicate missing ()))))"

definition inject_line :: "string \<Rightarrow> ('z, unit) pp" where
  "inject_line line =
     ebind (eget pp_line) (\<lambda>l.
     ebind (eassert (l = None)) (\<lambda>_.
     ebind (set_line (Some line)) (\<lambda>_.
     ebind (preprocess_line 0) (\<lambda>_.
     ebind (emodify (\<lambda>s. s\<lparr>pp_lookahead := rev (dropWhile (\<lambda>t. ttype t = TK_END) (rev (pp_lookahead s)))\<rparr>)) (\<lambda>_.
       set_line None)))))"

section \<open>The interface to the parser\<close>

definition pop_lookahead :: "('z, token) pp" where
  "pop_lookahead s = (case pp_lookahead s of [] \<Rightarrow> Inl Assert_Failed | t # ts \<Rightarrow> Inr (t, s\<lparr>pp_lookahead := ts\<rparr>))"

definition next_token :: "('z, token) pp" where
  "next_token =
     ebind (eget (\<lambda>s. length (pp_lookahead s))) (\<lambda>n.
     ebind (if n < 1 then preprocess_line 1 else eret ()) (\<lambda>_. pop_lookahead))"

definition peekn :: "nat \<Rightarrow> ('z, token) pp" where
  "peekn n =
     ebind (eassert (n > 0)) (\<lambda>_.
     ebind (eget (\<lambda>s. length (pp_lookahead s))) (\<lambda>k.
     ebind (if k < n then preprocess_line n else eret ()) (\<lambda>_.
     ebind (eget pp_lookahead) (\<lambda>la. if n - 1 < length la then eret (la ! (n - 1)) else efail Assert_Failed))))"

definition peek :: "('z, token) pp" where
  "peek = peekn 1"

definition consume :: "token_type \<Rightarrow> ('z, token) pp" where
  "consume tk = ebind next_token (\<lambda>t. if ttype t \<noteq> tk then eerror ''Expected %s but got %s.'' else eret t)"

text \<open>The text of a token in preprocessed output.\<close>

definition output_token :: "token \<Rightarrow> string outcome" where
  "output_token t =
     obind (oassert (ttype t \<noteq> TK_NUMBER)) (\<lambda>_.
     obind (tok_str t) (\<lambda>str.
       let quote = (if ttype t = TK_PREP_STRING \<or> ttype t = TK_STRING then [DQUOTE]
                    else if ttype t = TK_PREP_CHAR then [SQUOTE] else [])
       in Inr (replicate (leading_whitespace t) (CHR '' '') @ quote @ c_text str @ quote)))"

fun output_loop :: "nat \<Rightarrow> ('z, string) pp" where
  "output_loop 0 = efail Stack_Overflow"
| "output_loop (Suc m) =
     ebind next_token (\<lambda>t.
       if ttype t = TK_END then eret []
       else ebind (olift (output_token t)) (\<lambda>text. ebind (output_loop m) (\<lambda>rest. eret (text @ rest))))"

definition preprocess :: "('z, string) pp" where
  "preprocess =
     ebind (emodify (\<lambda>s. s\<lparr>pp_output := True\<rparr>)) (\<lambda>_.
     ebind (eget pp_turns) output_loop)"

definition preprocess_reset :: "('z, unit) pp" where
  "preprocess_reset =
     ebind (set_line None) (\<lambda>_.
     ebind macro_reset (\<lambda>_.
     ebind (\<lambda>s. obind (strtab_reset (mc_strtab s)) (\<lambda>st. Inr ((), s\<lparr>mc_strtab := st\<rparr>))) (\<lambda>_.
       emodify (\<lambda>s. s\<lparr>pp_lookahead := []\<rparr>))))"

definition preprocess_finalize :: "('z, unit) pp" where
  "preprocess_finalize =
     ebind preprocess_reset (\<lambda>_.
     ebind input_finalize (\<lambda>_.
     ebind macro_finalize (\<lambda>_.
       emodify (\<lambda>s. s\<lparr>pp_lookahead := []\<rparr>))))"

end
