(* ===== verification/Preprocess_Frame.thy ===== *)
theory Preprocess_Frame
  imports Preprocess Directive_Correct
begin

text \<open>
  What the operations of the preprocessor leave alone. Most of them change only the tables of strings and macros and the position in the
  input; they are called quiet. A relation that they, the conditional directives and the addition of a token
  to the lookahead respect is respected by all of preprocessing, which is proved once, in a locale.
\<close>

section \<open>Quiet operations\<close>

definition quiet_part where
  "quiet_part s = ((in_branches s, pp_lookahead s, pp_output s), mc_types s, mc_std s, mc_stack s, in_search s, in_files s, in_stdin s,
     dr_lib s, dr_floats s, pp_turns s)"

abbreviation quiet :: "('z preprocess_state_scheme, 'a) sm \<Rightarrow> bool" where
  "quiet \<equiv> leaves quiet_part"

named_theorems quiet_intros "quiet operations"

lemmas quiet_basic [quiet_intros] = leaves_basic [where k = quiet_part]
lemmas quiet_ebind [quiet_intros] = leaves_ebind [where k = quiet_part]
lemmas quiet_cases [quiet_intros] = leaves_cases [where k = quiet_part]

lemma quiet_emodify [quiet_intros]: "(\<And>s. quiet_part (f s) = quiet_part s) \<Longrightarrow> quiet (emodify f)"
  by (rule leaves_emodify)

lemma quiet_state: "(\<And>s x s'. m s = Inr (x, s') \<Longrightarrow> quiet_part s' = quiet_part s) \<Longrightarrow> quiet m"
  by (auto simp: within_def)

lemma quiet_updates [simp]:
  "quiet_part (s\<lparr>mc_strtab := v1\<rparr>) = quiet_part s" "quiet_part (s\<lparr>mc_table := v2\<rparr>) = quiet_part s"
  "quiet_part (s\<lparr>mc_path := v3\<rparr>) = quiet_part s" "quiet_part (s\<lparr>mc_line := v4\<rparr>) = quiet_part s"
  "quiet_part (s\<lparr>in_sources := v5\<rparr>) = quiet_part s" "quiet_part (s\<lparr>in_stale := v6\<rparr>) = quiet_part s"
  "quiet_part (s\<lparr>pp_line := v7\<rparr>) = quiet_part s" "quiet_part (s\<lparr>pp_destring := v8\<rparr>) = quiet_part s"
  "quiet_part (s\<lparr>pp_pragmas := v9\<rparr>) = quiet_part s"
  by (simp_all add: quiet_part_def)

lemma quiet_tables [quiet_intros]:
  "quiet (read_string buf)" "quiet (read_token text)" "quiet (macro_definition name)" "quiet table" "quiet (set_table t)"
proof -
  show "quiet (read_string buf)" "quiet (read_token text)"
    by (rule quiet_state, auto simp: read_string_def read_token_def outcome_simps)+
  show "quiet (macro_definition name)" by (rule leaves_macro_definition) simp_all
  show "quiet table" "quiet (set_table t)" by (rule quiet_state, auto simp: table_def set_table_def emodify_def split: option.splits)+
qed

lemma quiet_macro_ops [quiet_intros]:
  "quiet (stringify list)" "quiet (paste l r)" "quiet (define_macro m)" "quiet (undef name)"
proof -
  show "quiet (stringify list)" unfolding stringify_def Let_def by (intro quiet_intros)
  show "quiet (paste l r)" unfolding paste_def Let_def by (intro quiet_intros)
  show "quiet (define_macro m)" unfolding define_macro_def Let_def by (intro quiet_intros)
  show "quiet (undef name)" unfolding undef_def by (intro quiet_intros)
qed

lemma quiet_paste_param [quiet_intros]: "quiet (paste_param def args list t s)"
  unfolding paste_param_def by (intro quiet_intros)

lemma quiet_paste_tokens [quiet_intros]: "quiet (paste_tokens def args list s)"
  unfolding paste_tokens_def by (intro quiet_intros)

lemma quiet_stringify_and_paste_loop [quiet_intros]:
  "quiet (stringify_and_paste_loop def args list ts :: ('z preprocess_state_scheme, token list) sm)"
proof (induction "length ts" arbitrary: list ts rule: less_induct)
  case less
  show ?case
  proof (cases ts)
    case (Cons t ts')
    have *: "quiet (stringify_and_paste_loop def args list' us :: ('z preprocess_state_scheme, token list) sm)" if "length us < length ts" for list' us
      using that by (rule less)
    show ?thesis
    proof (cases ts')
      case Nil
      show ?thesis
        unfolding Cons Nil by (subst stringify_and_paste_loop.simps(2), unfold list.case, intro quiet_intros *) (simp add: Cons)
    next
      case (Cons s rest)
      show ?thesis
        unfolding \<open>ts = t # ts'\<close> Cons
        by (subst stringify_and_paste_loop.simps(2), unfold list.case, intro quiet_intros *) (simp_all add: \<open>ts = t # ts'\<close> Cons)
    qed
  qed (simp add: quiet_intros)
qed

lemma quiet_expand_stringify_and_paste [quiet_intros]: "quiet (expand_stringify_and_paste def args)"
  unfolding expand_stringify_and_paste_def Let_def by (intro quiet_intros)

text \<open>The expansion of a line, given that of a single macro, and then of a macro of any depth.\<close>

lemma quiet_expand_line_with [quiet_intros]:
  assumes "\<And>scope def args. quiet (em scope def args)"
  shows "quiet (expand_line_with em scope list)"
proof (induction "length list" arbitrary: list rule: less_induct)
  case less
  show ?case
  proof (cases list)
    case (Cons t ts)
    have *: "quiet (expand_line_with em scope us)" if "length us < length list" for us
      using that by (rule less)
    show ?thesis
      unfolding Cons expand_line_with.simps Let_def
      by (intro quiet_intros * assms) (simp_all add: Cons)
  qed (simp add: quiet_intros)
qed

lemma quiet_expand_args [quiet_intros]:
  assumes "\<And>a. quiet (ex a)"
  shows "quiet (expand_args ex as)"
proof (induction as)
  case (Cons a as)
  then show ?case unfolding expand_args.simps by (intro quiet_intros assms)
qed (simp add: quiet_intros)

lemma quiet_expand_macro: "quiet (expand_macro d scope def args)"
proof (induction d arbitrary: scope def args)
  case (Suc d)
  show ?case unfolding expand_macro.simps by (intro quiet_intros Suc)
qed (simp add: quiet_intros)

lemma quiet_expand [quiet_intros]: "quiet (expand list)"
  unfolding expand_def expand_line_def by (intro quiet_intros quiet_expand_macro)

text \<open>Directives that do not concern conditional blocks.\<close>

lemma quiet_files [quiet_intros]:
  "quiet current_file" "quiet (push_file f)" "quiet (open_source path t)" "quiet (include_from ps name)"
  "quiet (include_system_file name)" "quiet (include_file name)"
proof -
  show 1: "quiet current_file" by (rule quiet_state) (auto simp: current_file_def split: list.splits)
  show 2: "quiet (push_file f)" for f unfolding push_file_def by (intro quiet_intros) simp
  show 3: "quiet (open_source path t)" for path t unfolding open_source_def by (intro quiet_intros)
  show 4: "quiet (include_from ps name)" for ps name
  proof (induction ps)
    case (Cons p ps)
    then show ?case unfolding include_from.simps by (intro quiet_intros 2 3)
  qed (simp add: quiet_intros)
  show 5: "quiet (include_system_file name)" for name unfolding include_system_file_def by (intro quiet_intros 4)
  show "quiet (include_file name)" unfolding include_file_def Let_def by (intro quiet_intros 1 2 3 5)
qed

lemma quiet_tok_is [quiet_intros]: "quiet (tok_is t ident)"
  unfolding tok_is_def by (intro quiet_intros)

lemma quiet_expands_line [quiet_intros]: "quiet (expands_line t)"
  unfolding expands_line_def by (intro quiet_intros)

lemma quiet_join_tokens [quiet_intros]: "quiet (join_tokens ts path :: ('z preprocess_state_scheme, c_string) sm)"
proof (induction ts arbitrary: path)
  case (Cons t ts)
  have *: "quiet (\<lambda>s :: 'z preprocess_state_scheme. obind (str_cat (mc_strtab s) path str) (\<lambda>(st, r). join_tokens ts r (s\<lparr>mc_strtab := st\<rparr>)))" for str
  proof (rule quiet_state)
    fix s x and s' :: "'z preprocess_state_scheme"
    assume "obind (str_cat (mc_strtab s) path str) (\<lambda>(st, r). join_tokens ts r (s\<lparr>mc_strtab := st\<rparr>)) = Inr (x, s')"
    then obtain st r where "join_tokens ts r (s\<lparr>mc_strtab := st\<rparr>) = Inr (x, s')" by (auto simp: outcome_simps)
    then show "quiet_part s' = quiet_part s" using leavesD [OF Cons, of r "s\<lparr>mc_strtab := st\<rparr>"] by simp
  qed
  show ?case unfolding join_tokens.simps by (rule quiet_ebind [OF quiet_basic(5) *])
qed (simp add: quiet_intros)

lemma quiet_include [quiet_intros]: "quiet (preprocess_include line)"
proof -
  have *: "quiet other \<Longrightarrow> quiet (include_line other l)" for other and l :: "token list"
    unfolding include_line_def by (intro quiet_intros)
  show ?thesis unfolding preprocess_include_def by (intro quiet_intros *)
qed

lemma quiet_directives [quiet_intros]:
  "quiet (preprocess_define line)" "quiet (directive_undef line)" "quiet (preprocess_line_directive line)"
proof -
  show "quiet (preprocess_define line)" unfolding preprocess_define_def Let_def by (intro quiet_intros)
  show "quiet (directive_undef line)" unfolding directive_undef_def by (intro quiet_intros)
  show "quiet (preprocess_line_directive line)" unfolding preprocess_line_directive_def by (intro quiet_intros) simp_all
qed

lemma quiet_directive_active [quiet_intros]: "quiet (directive_active line t)"
  unfolding directive_active_def by (intro quiet_intros)

section \<open>Reading lines\<close>

lemma quiet_getprepline [quiet_intros]: "quiet getprepline"
proof -
  have "getprepline s = Inr (x, s') \<Longrightarrow> quiet_part s' = quiet_part s" for s x and s' :: "'z preprocess_state_scheme"
  proof (induction s rule: getprepline.induct)
    case (1 s)
    then show ?case by (subst (asm) (3) getprepline.simps) (auto simp: Let_def split: list.splits sum.splits option.splits if_splits)
  qed
  then show ?thesis by (rule quiet_state)
qed

lemma quiet_set_line [quiet_intros]: "quiet (set_line l)"
  unfolding set_line_def by (intro quiet_intros) simp

lemma quiet_get_token [quiet_intros]: "quiet get_token"
proof -
  have "quiet (tokenize_line l)" for l unfolding tokenize_line_def by (intro quiet_intros)
  then show ?thesis unfolding get_token_def by (intro quiet_intros)
qed

text \<open>A loop that is given by cases on the outcome of a quiet step.\<close>

lemma quiet_part_step: "quiet m \<Longrightarrow> m s = Inr (x, s1) \<Longrightarrow> quiet_part s1 = quiet_part s"
  by (rule leavesD)

lemma quiet_skip_newlines [quiet_intros]: "quiet skip_newlines"
proof -
  have "skip_newlines s = Inr (t, s') \<Longrightarrow> quiet_part s' = quiet_part s" for t s and s' :: "'z preprocess_state_scheme"
  proof (induction s rule: skip_newlines.induct)
    case (1 s)
    then show ?case using quiet_part_step [OF quiet_get_token, of s]
      by (subst (asm) (2) skip_newlines.simps) (auto split: sum.splits if_splits)
  qed
  then show ?thesis by (rule quiet_state)
qed

lemma quiet_invocation_loop [quiet_intros]: "quiet (invocation_loop n line)"
proof -
  have "invocation_loop n line s = Inr (x, s') \<Longrightarrow> quiet_part s' = quiet_part s" for s x and s' :: "'z preprocess_state_scheme"
  proof (induction n line s rule: invocation_loop.induct)
    case (1 n line s)
    then show ?case using quiet_part_step [OF quiet_get_token, of s]
      by (subst (asm) (3) invocation_loop.simps) (auto split: sum.splits if_splits)
  qed
  then show ?thesis by (rule quiet_state)
qed

lemma quiet_calls [quiet_intros]:
  "quiet (read_through_newline line)" "quiet (read_Pragma_invocation line)"
  "quiet (read_macro_invocation def line)" "quiet (read_defined_operator line)"
proof -
  show *: "quiet (read_through_newline line)" for line unfolding read_through_newline_def by (intro quiet_intros)
  show "quiet (read_Pragma_invocation line)" unfolding read_Pragma_invocation_def by (intro quiet_intros *)
  show "quiet (read_macro_invocation def line)" unfolding read_macro_invocation_def by (intro quiet_intros)
  show "quiet (read_defined_operator line)" unfolding read_defined_operator_def by (intro quiet_intros)
qed

lemma quiet_complete_token [quiet_intros]: "quiet (complete_token directive expandable t line)"
  unfolding complete_token_def by (intro quiet_intros)

lemma quiet_complete_loop [quiet_intros]: "quiet (complete_loop directive expandable t line macros)"
proof -
  have step: "quiet (ebind (complete_token directive expandable t line) (\<lambda>r. ebind get_token (\<lambda>t'. eret (r, t'))))"
    for directive expandable t line by (intro quiet_intros)
  have "complete_loop directive expandable t line macros s = Inr (x, s') \<Longrightarrow> quiet_part s' = quiet_part s"
    for s x and s' :: "'z preprocess_state_scheme"
  proof (induction directive expandable t line macros s rule: complete_loop.induct)
    case (1 directive expandable t line macros s)
    then show ?case using quiet_part_step [OF step, of directive expandable t line s]
      by (subst (asm) (2) complete_loop.simps) (auto split: sum.splits if_splits)
  qed
  then show ?thesis by (rule quiet_state)
qed

lemma quiet_read_complete_line [quiet_intros]: "quiet (read_complete_line line t directive)"
  unfolding read_complete_line_def by (intro quiet_intros)

lemma quiet_skip_or_get_token [quiet_intros]: "quiet (skip_or_get_token line i)"
  unfolding skip_or_get_token_def Let_def by (intro quiet_intros)

lemma quiet_expansion_loop [quiet_intros]: "quiet (expansion_loop nest line i)"
proof -
  have "expansion_loop nest line i s = Inr (x, s') \<Longrightarrow> quiet_part s' = quiet_part s" for s x and s' :: "'z preprocess_state_scheme"
  proof (induction nest line i s rule: expansion_loop.induct)
    case (1 nest line i s)
    then show ?case using quiet_part_step [OF quiet_skip_or_get_token, of line i s]
      by (subst (asm) (2) expansion_loop.simps) (auto split: sum.splits if_splits)
  qed
  then show ?thesis by (rule quiet_state)
qed

lemma quiet_skip_or_read_expansion [quiet_intros]: "quiet (skip_or_read_expansion line start)"
  unfolding skip_or_read_expansion_def by (intro quiet_intros)

lemma quiet_refill_loop [quiet_intros]: "quiet (refill_loop len i t n line)"
proof -
  let ?m = "\<lambda>u i n line. if is_expandable u \<and> \<not> disable_expand u then
        ebind (olift (tok_str u)) (\<lambda>name.
        ebind (macro_definition name) (\<lambda>d.
          if d \<noteq> None \<and> map_option mac_type d = Some FUNCTION_LIKE then
            ebind (skip_or_read_expansion line (i + 1)) (\<lambda>(k, line'). eret (k, n + 1, line'))
          else eret (0, n, line)))
      else
        ebind (tok_is u ident__Pragma) (\<lambda>p.
          if p then ebind (skip_or_read_expansion line (i + 1)) (\<lambda>(k, line'). eret (k, n, line')) else eret (0, n, line))"
  have step: "quiet (?m u i n line :: ('z preprocess_state_scheme, nat \<times> nat \<times> token list) sm)" for u i n line by (intro quiet_intros)
  have "refill_loop len i t n line s = Inr (x, s') \<Longrightarrow> quiet_part s' = quiet_part s" for s x and s' :: "'z preprocess_state_scheme"
  proof (induction len i t n line s rule: refill_loop.induct)
    case (1 len i t n line s)
    show ?case
    proof (cases "len \<le> i \<or> length line \<le> i")
      case True
      then show ?thesis using "1.prems" by (subst (asm) refill_loop.simps) (auto split: if_splits)
    next
      case False
      obtain k n' line' s1 where m: "?m (line ! i) i n line s = Inr ((k, n', line'), s1)"
        and r: "refill_loop len (i + k + 1) (line ! i) n' line' s1 = Inr (x, s')"
        using "1.prems" False by (subst (asm) refill_loop.simps) (auto simp: Let_def split: sum.splits)
      show ?thesis using "1.IH" [OF _ _ refl m refl refl refl r] False quiet_part_step [OF step m] by simp
    qed
  qed
  then show ?thesis by (rule quiet_state)
qed

lemma quiet_refill_expanding_line [quiet_intros]: "quiet (refill_expanding_line line)"
  unfolding refill_expanding_line_def by (intro quiet_intros)

lemma quiet_expand_again [quiet_intros]: "quiet (expand_again turns i line)"
proof (induction turns arbitrary: i line)
  case (Suc m)
  then show ?case by (subst expand_again.simps) (simp only: nat.case, intro quiet_intros)
qed (subst expand_again.simps, simp only: nat.case, intro quiet_intros)

lemma quiet_strings [quiet_intros]: "quiet (convert_string t)" "quiet (concat_strings a b)" "quiet (destringize str)"
  by (rule quiet_state, auto simp: convert_string_def concat_strings_def destringize_def Let_def outcome_simps)+

lemma quiet_record_pragma [quiet_intros]: "quiet (record_pragma i txt')"
  unfolding record_pragma_def by (cases i) (auto simp: quiet_basic intro!: quiet_emodify)

lemma quiet_pragma_loop [quiet_intros]: "quiet (pragma_loop i ts)"
proof (induction ts arbitrary: i)
  case (Cons t ts)
  then show ?case unfolding pragma_loop.simps Let_def by (intro quiet_intros)
qed (simp add: quiet_intros)

lemma quiet_pragma_tokens [quiet_intros]: "quiet (pragma_tokens str)"
proof -
  have "pragma_tokens str s = Inr (x, s') \<Longrightarrow> quiet_part s' = quiet_part s" for s x and s' :: "'z preprocess_state_scheme"
  proof (induction str s arbitrary: x s' rule: pragma_tokens.induct)
    case (1 str s)
    then show ?case using quiet_part_step [OF quiet_tables(2), of str s]
      by (subst (asm) (2) pragma_tokens.simps) (fastforce simp: outcome_simps split: sum.splits if_splits)
  qed
  then show ?thesis by (rule quiet_state)
qed

lemma quiet_preprocess_Pragma [quiet_intros]: "quiet (preprocess_Pragma line)"
  unfolding preprocess_Pragma_def by (intro quiet_intros)

lemma quiet_conditional_directive [quiet_intros]: "quiet (conditional_directive t)"
  unfolding conditional_directive_def by (intro quiet_intros)

section \<open>All of preprocessing\<close>

locale preprocessing =
  fixes R :: "'z preprocess_state_scheme \<Rightarrow> 'z preprocess_state_scheme \<Rightarrow> bool"
  assumes quiet_respected: "quiet_part s' = quiet_part s \<Longrightarrow> R s s'"
    and R_trans: "transp R"
    and conditional_respected: "within R (do_conditional d)"
    and adding_respected: "within R (add_to_lookahead t)"
begin

lemma quietly: "quiet m \<Longrightarrow> within R m"
  using quiet_respected by (auto simp: within_def)

lemma R_refl: "reflp R"
  by (rule reflpI) (simp add: quiet_respected)

lemmas basic = within_basic [OF R_refl]
lemmas sequence = within_ebind [OF R_trans]
lemmas cases_respected = within_cases [of R]
lemmas respected = basic sequence cases_respected adding_respected

lemma iteration: "(\<And>x. within R (f x)) \<Longrightarrow> within R (eiter f xs)"
  by (induction xs) (auto intro: basic sequence)

lemma conditionals:
  "within R (directive_if line)" "within R directive_else" "within R (directive_elif line)" "within R (ebind pop_state (\<lambda>_. eret ()))"
  "within R (directive_ifdef positive msg line)"
  using conditional_respected [of "C_If line"] conditional_respected [of C_Else] conditional_respected [of "C_Elif line"]
    conditional_respected [of C_Endif] conditional_respected [of "C_Ifdef positive msg line"]
  by simp_all

lemma directive_respected: "within R (preprocess_directive line)"
proof -
  note q = quietly [OF quiet_tok_is] quietly [OF quiet_expands_line] quietly [OF quiet_expand] quietly [OF quiet_directive_active]
  show ?thesis unfolding preprocess_directive_def by (intro conditionals respected q)
qed

lemma pragma_respected: "within R (preprocess_pragma line)"
  unfolding preprocess_pragma_def
  by (intro respected iteration quietly [OF quiet_tok_is] quietly [OF quiet_pragma_loop])

lemma line_tokens_respected: "within R (line_tokens line)"
proof -
  have prag: "within R (ebind (preprocess_Pragma l) preprocess_pragma)" for l
    by (intro respected pragma_respected quietly [OF quiet_preprocess_Pragma])
  have tok: "within R (ebind (eget pp_output) (\<lambda>out. if ttype t \<noteq> TK_NEWLINE \<or> out then add_to_lookahead t else eret ()))" for t
    by (intro respected)
  have "line_tokens line s = Inr (x, s') \<Longrightarrow> R s s'" for s x s'
  proof (induction line s rule: line_tokens.induct)
    case (2 t ts s)
    obtain p s1 where p: "tok_is t ident__Pragma s = Inr (p, s1)" using "2.prems" by (auto split: sum.splits)
    have s1: "R s s1" using withinD [OF quietly [OF quiet_tok_is] p] .
    show ?case
    proof (cases p)
      case True
      then obtain u s2 where u: "ebind (preprocess_Pragma (t # ts)) preprocess_pragma s1 = Inr (u, s2)"
        and rest: "line_tokens (drop 3 ts) s2 = Inr (x, s')"
        using "2.prems" p by (auto split: sum.splits)
      show ?thesis using "2.IH"(1) [OF p refl True u refl rest] withinD [OF prag u] s1 transpD [OF R_trans] by blast
    next
      case False
      then obtain u s2 where u: "ebind (eget pp_output) (\<lambda>out. if ttype t \<noteq> TK_NEWLINE \<or> out then add_to_lookahead t else eret ()) s1 = Inr (u, s2)"
        and rest: "line_tokens ts s2 = Inr (x, s')"
        using "2.prems" p by (auto split: sum.splits)
      show ?thesis using "2.IH"(2) [OF p refl False u refl rest] withinD [OF tok u] s1 transpD [OF R_trans] by blast
    qed
  qed (simp add: quiet_respected)
  then show ?thesis by (auto simp: within_def)
qed

lemma directive_line_respected: "within R directive_line"
  unfolding directive_line_def
  by (intro respected directive_respected pragma_respected quietly quiet_intros)

lemma text_line_respected: "within R (text_line t)"
  unfolding text_line_def
  by (intro respected line_tokens_respected quietly [OF quiet_read_complete_line] quietly [OF quiet_expand_again])

lemma turns_respected: "within R (preprocess_turns m n)"
proof (induction m)
  case (Suc m)
  have "within R preprocess_turn"
    unfolding preprocess_turn_def by (intro respected directive_line_respected text_line_respected quietly [OF quiet_get_token])
  then show ?case unfolding preprocess_turns.simps by (intro respected Suc)
qed (simp add: basic)

lemma preprocess_line_respected: "within R (preprocess_line n)"
  unfolding preprocess_line_def by (intro respected iteration turns_respected)

lemma peekn_respected: "within R (peekn n)"
  unfolding peekn_def by (intro respected preprocess_line_respected)

end

end
