(* ===== verification/Preprocess_Correct.thy ===== *)
theory Preprocess_Correct
  imports Preprocess_Frame
begin

text \<open>
  What the parser gets from the preprocessor. The locale of \<open>Preprocess_Frame\<close> is interpreted for
  the stack of branches and for the growth of the lookahead; from this follows that the calls of the parser read
  a stream of tokens. Adjacent literals are joined as texts, and inactive blocks leave no token.
\<close>

section \<open>The stack of branches\<close>

text \<open>The options of the preprocessor do not change, and the stack of branches remains a history of conditions.\<close>

definition steady_options where
  "steady_options s s' \<longleftrightarrow> pp_output s' = pp_output s \<and> snd (quiet_part s') = snd (quiet_part s) \<and>
     ((\<exists>gs. in_branches s = branches_of gs) \<longrightarrow> (\<exists>gs. in_branches s' = branches_of gs))"

definition branches_only where
  "branches_only s = (pp_lookahead s, pp_output s, snd (quiet_part s), pp_line s, in_sources s)"

lemma branches_only_conditional: "leaves branches_only (do_conditional d)"
proof -
  have push: "leaves branches_only (push_state b)" for b
    unfolding push_state_def by (rule leaves_emodify) (simp add: branches_only_def quiet_part_def)
  have pop: "leaves branches_only pop_state"
    by (auto simp: within_def pop_state_def branches_only_def quiet_part_def split: list.splits)
  have m: "leaves branches_only (macro_definition name)" for name
    by (rule leaves_macro_definition) (simp_all add: branches_only_def)
  have e: "leaves branches_only (preprocess_constant_expression line)" for line
    using steady_constant_expression [of line] by (auto simp: within_def)
  have "leaves branches_only (directive_if line)" for line unfolding directive_if_def by (intro leaves_intros push e)
  moreover have "leaves branches_only directive_else" unfolding directive_else_def by (intro leaves_intros push pop)
  moreover have "leaves branches_only (directive_elif line)" for line unfolding directive_elif_def by (intro leaves_intros push pop e)
  moreover have "leaves branches_only (directive_ifdef positive msg line)" for positive msg line
    unfolding directive_ifdef_def by (intro leaves_intros push m)
  moreover have "leaves branches_only (ebind pop_state (\<lambda>_. eret ()))" by (intro leaves_intros pop)
  ultimately show ?thesis by (cases d) simp_all
qed

lemma branches_stay_histories:
  "do_conditional d s = Inr (u, s') \<Longrightarrow> in_branches s = branches_of gs \<Longrightarrow> \<exists>gs'. in_branches s' = branches_of gs'"
  using conditional_refines [of s gs d] by auto

text \<open>What is added to the lookahead: one token at its end, or one literal in place of the last.\<close>

definition is_literal :: "token \<Rightarrow> bool" where
  "is_literal t \<longleftrightarrow> ttype t = TK_STRING"

definition lookahead_added :: "bool \<Rightarrow> token list \<Rightarrow> token list \<Rightarrow> bool" where
  "lookahead_added out la la' \<longleftrightarrow>
     (\<exists>t. la' = la @ [t] \<and> (out \<or> \<not> is_literal t \<or> la = [] \<or> \<not> is_literal (last la))) \<or>
     (\<exists>t. la \<noteq> [] \<and> \<not> out \<and> is_literal (last la) \<and> is_literal t \<and> la' = butlast la @ [t])"

lemma push_lookahead_eq: "push_lookahead t s = Inr ((), s\<lparr>pp_lookahead := pp_lookahead s @ [t]\<rparr>)"
  by (simp add: push_lookahead_def emodify_def)

lemma convert_preprocessing_type:
  "convert_preprocessing_char t = Inr u \<Longrightarrow> ttype u = TK_NUMBER"
  "convert_preprocessing_number lib t = Inr u \<Longrightarrow> ttype u = TK_NUMBER"
  "convert_string t s = Inr (u, s') \<Longrightarrow> ttype u = TK_STRING \<and> (\<exists>st. s' = s\<lparr>mc_strtab := st\<rparr>)"
  by (auto simp: convert_preprocessing_char_def convert_preprocessing_number_def convert_string_def convert_preprocessing_string_def
      num_token_def outcome_simps Let_def split: option.splits if_splits prod.splits)

definition adds_token :: "'z preprocess_state_scheme \<Rightarrow> 'z preprocess_state_scheme \<Rightarrow> bool" where
  "adds_token s s' \<longleftrightarrow>
     (\<exists>st la. s' = s\<lparr>mc_strtab := st, pp_lookahead := la\<rparr> \<and> lookahead_added (pp_output s) (pp_lookahead s) la)"

lemma adds_pushed:
  assumes "pp_output s \<or> ttype t \<noteq> TK_STRING \<or> pp_lookahead s = [] \<or> ttype (last (pp_lookahead s)) \<noteq> TK_STRING"
  shows "adds_token s (s\<lparr>mc_strtab := st, pp_lookahead := pp_lookahead s @ [t]\<rparr>)"
  unfolding adds_token_def
  by (rule exI [of _ st], rule exI [of _ "pp_lookahead s @ [t]"]) (use assms in \<open>auto simp: lookahead_added_def is_literal_def\<close>)

lemma adds_pushed_same:
  assumes "pp_output s \<or> ttype t \<noteq> TK_STRING \<or> pp_lookahead s = [] \<or> ttype (last (pp_lookahead s)) \<noteq> TK_STRING"
  shows "adds_token s (s\<lparr>pp_lookahead := pp_lookahead s @ [t]\<rparr>)"
  using adds_pushed [OF assms, of "mc_strtab s"] by simp

lemma add_string_adds:
  assumes "add_string t s = Inr (u, s')" "ttype t = TK_STRING" "\<not> pp_output s"
  shows "adds_token s s'"
proof (cases "pp_lookahead s \<noteq> [] \<and> ttype (last (pp_lookahead s)) = TK_STRING")
  case True
  then obtain st t' where "s' = s\<lparr>mc_strtab := st, pp_lookahead := butlast (pp_lookahead s) @ [t\<lparr>tdata := t'\<rparr>]\<rparr>"
    using assms(1) by (auto simp: add_string_def concat_strings_def ev_simps outcome_simps)
  then show ?thesis using True assms(2,3)
    unfolding adds_token_def lookahead_added_def is_literal_def
    by (intro exI [of _ st] exI [of _ "butlast (pp_lookahead s) @ [t\<lparr>tdata := t'\<rparr>]"]) auto
next
  case False
  then have "s' = s\<lparr>pp_lookahead := pp_lookahead s @ [t]\<rparr>"
    using assms(1) by (auto simp: add_string_def push_lookahead_eq ev_simps)
  then show ?thesis using adds_pushed_same False by auto
qed

lemma add_to_lookahead_adds:
  assumes "add_to_lookahead t s = Inr (u, s')"
  shows "adds_token s s'"
proof -
  note [simp] = add_to_lookahead_def push_lookahead_eq ev_simps outcome_simps
  consider "pp_output s" | "\<not> pp_output s" "ttype t = TK_PREP_STRING" | "\<not> pp_output s" "ttype t = TK_STRING"
    | "\<not> pp_output s" "ttype t \<noteq> TK_PREP_STRING" "ttype t \<noteq> TK_STRING" by blast
  then show ?thesis
  proof cases
    case 1
    then show ?thesis using assms adds_pushed_same by auto
  next
    case 2
    then obtain v s1 where v: "convert_string t s = Inr (v, s1)" "add_string v s1 = Inr (u, s')" using assms by auto
    then obtain st where st: "s1 = s\<lparr>mc_strtab := st\<rparr>" "ttype v = TK_STRING" using convert_preprocessing_type(3) by blast
    then have "adds_token s1 s'" using v(2) add_string_adds 2(1) by fastforce
    then show ?thesis using st(1) unfolding adds_token_def by auto
  next
    case 3
    then show ?thesis using assms add_string_adds by auto
  next
    case 4
    then obtain v where "s' = s\<lparr>pp_lookahead := pp_lookahead s @ [v]\<rparr>" "ttype v \<noteq> TK_STRING"
      using assms by (auto dest!: convert_preprocessing_type split: if_splits)
    then show ?thesis using adds_pushed_same by auto
  qed
qed

interpretation branch_history: preprocessing steady_options
proof
  show "transp steady_options" by (auto simp: transp_def steady_options_def)
  show "within steady_options (do_conditional d)" for d
    using leavesD [OF branches_only_conditional, of d] branches_stay_histories
    by (fastforce simp: within_def steady_options_def branches_only_def)
  show "within steady_options (add_to_lookahead t)" for t
    by (auto simp: within_def steady_options_def quiet_part_def adds_token_def dest!: add_to_lookahead_adds) blast
qed (auto simp: steady_options_def quiet_part_def)

lemma branches_stay_histories_line:
  assumes "preprocess_line n s = Inr (u, s')" "in_branches s = branches_of gs"
  obtains gs' where "in_branches s' = branches_of gs'" "pp_output s' = pp_output s" "mc_std s' = mc_std s" "in_search s' = in_search s"
  using withinD [OF branch_history.preprocess_line_respected assms(1)] assms(2) that
  by (auto simp: steady_options_def quiet_part_def)

section \<open>Literals in the lookahead\<close>

text \<open>No literal follows another, and the lookahead only grows, but that its last token may be a literal that is continued.\<close>

definition is_joined :: "token list \<Rightarrow> bool" where
  "is_joined la \<longleftrightarrow> successively (\<lambda>t u. \<not> (is_literal t \<and> is_literal u)) la"

definition continues :: "bool \<Rightarrow> token list \<Rightarrow> token list \<Rightarrow> bool" where
  "continues out la la' \<longleftrightarrow>
     length la \<le> length la' \<and>
     (\<forall>i < length la. la' ! i = la ! i \<or> Suc i = length la \<and> \<not> out \<and> is_literal (la ! i) \<and> is_literal (la' ! i))"

definition grows :: "'z preprocess_state_scheme \<Rightarrow> 'z preprocess_state_scheme \<Rightarrow> bool" where
  "grows s s' \<longleftrightarrow>
     pp_output s' = pp_output s \<and> continues (pp_output s) (pp_lookahead s) (pp_lookahead s') \<and>
     (\<not> pp_output s \<and> is_joined (pp_lookahead s) \<longrightarrow> is_joined (pp_lookahead s'))"

lemma continues_trans: "continues out l1 l2 \<Longrightarrow> continues out l2 l3 \<Longrightarrow> continues out l1 l3"
  unfolding continues_def by (metis le_antisym le_trans less_le_trans Suc_leI)

lemma lookahead_added_simps:
  "lookahead_added out [] la' \<longleftrightarrow> (\<exists>t. la' = [t])"
  "lookahead_added out (la @ [x]) la' \<longleftrightarrow>
     (\<exists>t. la' = la @ [x, t] \<and> (out \<or> \<not> is_literal t \<or> \<not> is_literal x)) \<or>
     (\<exists>t. la' = la @ [t] \<and> \<not> out \<and> is_literal x \<and> is_literal t)"
  by (auto simp: lookahead_added_def)

lemma lookahead_added_continues: "lookahead_added out la la' \<Longrightarrow> continues out la la'"
  by (cases la rule: rev_cases) (auto simp: lookahead_added_simps continues_def nth_append)

lemma lookahead_added_joined: "lookahead_added False la la' \<Longrightarrow> is_joined la \<Longrightarrow> is_joined la'"
  by (cases la rule: rev_cases) (auto simp: lookahead_added_simps is_joined_def successively_append_iff)

interpretation lookahead_growth: preprocessing grows
proof
  show "transp grows"
  proof (rule transpI)
    fix s1 s2 s3 :: "'z preprocess_state_scheme"
    assume "grows s1 s2" "grows s2 s3"
    then show "grows s1 s3"
      using continues_trans [of "pp_output s1" "pp_lookahead s1" "pp_lookahead s2" "pp_lookahead s3"] by (simp add: grows_def)
  qed
  show "within grows (do_conditional d)" for d
    using leavesD [OF branches_only_conditional, of d] by (auto simp: within_def grows_def branches_only_def continues_def)
  show "within grows (add_to_lookahead t)" for t
    using lookahead_added_continues lookahead_added_joined
    by (fastforce simp: within_def grows_def adds_token_def dest!: add_to_lookahead_adds)
qed (auto simp: grows_def quiet_part_def continues_def)

text \<open>The end of the input, and that the last token of the lookahead is final.\<close>

definition input_ended :: "'z preprocess_state_scheme \<Rightarrow> bool" where
  "input_ended s \<longleftrightarrow> pp_line s = None \<and> in_sources s = []"

definition settled :: "token list \<Rightarrow> 'z preprocess_state_scheme \<Rightarrow> bool" where
  "settled before s \<longleftrightarrow>
     (let la = before @ pp_lookahead s in la = [] \<or> \<not> is_literal (last la)) \<or> input_ended s"

lemma end_tokens:
  "ttype (basic_token TK_END) = TK_END" "ttype (basic_token TK_NEWLINE) = TK_NEWLINE" "\<not> is_literal (basic_token TK_END)"
  unfolding is_literal_def by code_simp+

lemma getprepline_end: "getprepline s = Inr (None, s') \<Longrightarrow> in_sources s' = []"
proof (induction s rule: getprepline.induct)
  case (1 s)
  then show ?case by (subst (asm) (3) getprepline.simps) (auto simp: Let_def split: list.splits sum.splits option.splits if_splits)
qed

lemma get_token_end: "get_token s = Inr (t, s') \<Longrightarrow> ttype t = TK_END \<Longrightarrow> input_ended s'"
proof -
  assume t: "get_token s = Inr (t, s')" "ttype t = TK_END"
  have no: "tokenize_line l s1 \<noteq> Inr (t, s')" for l s1
    using t(2) by (auto simp: tokenize_line_def ev_simps outcome_simps end_tokens split: if_splits)
  then obtain s1 where "pp_line s = None" "getprepline s = Inr (None, s1)"
    using t(1) by (auto simp: get_token_def ev_simps outcome_simps split: option.splits)
  then show ?thesis
    using t(1) getprepline_end by (auto simp: get_token_def ev_simps set_line_def input_ended_def)
qed

lemma get_token_ended: "input_ended s \<Longrightarrow> get_token s = Inr (basic_token TK_END, s)"
proof -
  assume e: "input_ended s"
  then have "getprepline s = Inr (None, s)" by (subst getprepline.simps) (simp add: input_ended_def)
  then show ?thesis using e by (simp add: get_token_def set_line_def ev_simps input_ended_def)
qed

lemma turn_end: "preprocess_turn s = Inr (True, s') \<Longrightarrow> input_ended s'"
  by (auto simp: preprocess_turn_def ev_simps outcome_simps split: if_splits dest: get_token_end)

lemma turn_ended: "input_ended s \<Longrightarrow> preprocess_turn s = Inr (True, s)"
  by (simp add: preprocess_turn_def get_token_ended end_tokens ev_simps)

lemma turns_end: "preprocess_turns m n s = Inr (u, s') \<Longrightarrow> input_ended s' \<or> is_lookahead_ready n s'"
proof (induction m arbitrary: s)
  case (Suc m)
  then show ?case by (auto simp: ev_simps outcome_simps split: if_splits dest: turn_end)
qed (simp add: ev_simps)

lemma add_end: "add_to_lookahead (basic_token TK_END) s = Inr ((), s\<lparr>pp_lookahead := pp_lookahead s @ [basic_token TK_END]\<rparr>)"
  by (simp add: add_to_lookahead_def push_lookahead_eq ev_simps end_tokens)

lemma add_ends:
  "eiter (\<lambda>_. add_to_lookahead (basic_token TK_END)) (replicate k ()) s =
     Inr ((), s\<lparr>pp_lookahead := pp_lookahead s @ replicate k (basic_token TK_END)\<rparr>)"
  by (induction k arbitrary: s) (simp_all add: ebind_def eret_def add_end)

lemma preprocess_line_end:
  assumes "preprocess_line n s = Inr (u, s')"
  shows "n \<le> length (pp_lookahead s')" "input_ended s' \<or> pp_output s' \<or> settled [] s'"
proof -
  obtain v s1 where s1: "preprocess_turns (pp_turns s) n s = Inr (v, s1)"
    and s': "s' = s1\<lparr>pp_lookahead := pp_lookahead s1 @ replicate (n - length (pp_lookahead s1)) (basic_token TK_END)\<rparr>"
    using assms by (auto simp: preprocess_line_def add_ends ev_simps outcome_simps)
  show "n \<le> length (pp_lookahead s')" by (simp add: s')
  from turns_end [OF s1] show "input_ended s' \<or> pp_output s' \<or> settled [] s'"
    by (auto simp: s' input_ended_def is_lookahead_ready_def settled_def is_literal_def Let_def)
qed

lemma preprocess_line_ended:
  assumes "preprocess_line n s = Inr (u, s')" "input_ended s"
  shows "input_ended s' \<and> pp_lookahead s' = pp_lookahead s @ replicate (n - length (pp_lookahead s)) (basic_token TK_END)"
proof (cases "pp_turns s")
  case (Suc m)
  then have "s' = s\<lparr>pp_lookahead := pp_lookahead s @ replicate (n - length (pp_lookahead s)) (basic_token TK_END)\<rparr>"
    using assms by (auto simp: preprocess_line_def add_ends turn_ended ev_simps outcome_simps)
  then show ?thesis using assms(2) by (simp add: input_ended_def)
qed (use assms in \<open>simp add: preprocess_line_def ev_simps\<close>)

section \<open>The stream of tokens\<close>

text \<open>The calls of the parser, and the same calls on a list of tokens that is known in advance.\<close>

datatype parser_call = Peek_Call nat | Next_Call

fun parser_calls :: "parser_call list \<Rightarrow> ('z, token list) pp" where
  "parser_calls [] = eret []"
| "parser_calls (Peek_Call k # cs) = ebind (peekn k) (\<lambda>t. ebind (parser_calls cs) (\<lambda>ts. eret (t # ts)))"
| "parser_calls (Next_Call # cs) = ebind next_token (\<lambda>t. ebind (parser_calls cs) (\<lambda>ts. eret (t # ts)))"

fun stream_calls :: "parser_call list \<Rightarrow> token list \<Rightarrow> token list option" where
  "stream_calls [] xs = Some []"
| "stream_calls (Peek_Call k # cs) xs =
     (if 0 < k \<and> k \<le> length xs then map_option ((#) (xs ! (k - 1))) (stream_calls cs xs) else None)"
| "stream_calls (Next_Call # cs) xs = (case xs of [] \<Rightarrow> None | x # xs' \<Rightarrow> map_option ((#) x) (stream_calls cs xs'))"

text \<open>What holds between calls, with the tokens that were read before.\<close>

definition lookahead_ok :: "token list \<Rightarrow> 'z preprocess_state_scheme \<Rightarrow> bool" where
  "lookahead_ok before s \<longleftrightarrow> \<not> pp_output s \<and> is_joined (before @ pp_lookahead s) \<and> settled before s"

lemma is_joined_append:
  "is_joined (xs @ ys) \<longleftrightarrow> is_joined xs \<and> is_joined ys \<and> (xs = [] \<or> ys = [] \<or> \<not> (is_literal (last xs) \<and> is_literal (hd ys)))"
  by (simp add: is_joined_def successively_append_iff)

lemma is_joined_ends: "is_joined (replicate n (basic_token TK_END))"
  by (auto simp: is_joined_def successively_conv_nth end_tokens)

lemma continues_final:
  assumes "continues out la la'" "la = [] \<or> \<not> is_literal (last la)"
  obtains ys where "la' = la @ ys"
proof -
  have "la ! i = last la" if "Suc i = length la" for i
    using that by (cases la rule: rev_cases) simp_all
  then have "take (length la) la' = la"
    using assms by (intro nth_equalityI) (auto simp: continues_def)
  then show thesis using that [of "drop (length la) la'"] append_take_drop_id by metis
qed

lemma preprocess_line_ok:
  assumes "preprocess_line k s = Inr (u, s')" "lookahead_ok before s"
  obtains ys where "pp_lookahead s' = pp_lookahead s @ ys" "lookahead_ok before s'" "k \<le> length (pp_lookahead s')"
proof -
  have g: "grows s s'" using withinD [OF lookahead_growth.preprocess_line_respected assms(1)] .
  then have out: "\<not> pp_output s'" using assms(2) by (simp add: grows_def lookahead_ok_def)
  note len = preprocess_line_end(1) [OF assms(1)]
  show thesis
  proof (cases "input_ended s")
    case True
    note * = preprocess_line_ended [OF assms(1) True]
    then have "is_joined (before @ pp_lookahead s')"
      using assms(2) is_joined_append [of "before @ pp_lookahead s"] is_joined_ends [of "k - length (pp_lookahead s)"]
      by (cases "k - length (pp_lookahead s)") (auto simp: lookahead_ok_def end_tokens)
    then show thesis using that * out len by (auto simp: lookahead_ok_def settled_def)
  next
    case False
    then have last: "before @ pp_lookahead s = [] \<or> \<not> is_literal (last (before @ pp_lookahead s))"
      using assms(2) by (auto simp: lookahead_ok_def settled_def Let_def)
    have joined: "is_joined (pp_lookahead s')" and cont: "continues False (pp_lookahead s) (pp_lookahead s')"
      using g assms(2) by (auto simp: grows_def lookahead_ok_def is_joined_append)
    obtain ys where ys: "pp_lookahead s' = pp_lookahead s @ ys"
      using continues_final [OF cont] last by (auto simp: last_append split: if_splits)
    have "is_joined (before @ pp_lookahead s')"
      using assms(2) joined last ys by (cases "pp_lookahead s = []") (auto simp: lookahead_ok_def is_joined_append)
    moreover have "settled before s'"
      using preprocess_line_end(2) [OF assms(1)] out last ys by (auto simp: settled_def Let_def last_append split: if_splits)
    ultimately show thesis using that ys out len by (auto simp: lookahead_ok_def)
  qed
qed

lemma peekn_ok:
  assumes "peekn k s = Inr (t, s')" "lookahead_ok before s"
  obtains ys where "pp_lookahead s' = pp_lookahead s @ ys" "lookahead_ok before s'" "0 < k" "k \<le> length (pp_lookahead s')"
    "t = pp_lookahead s' ! (k - 1)"
proof (cases "length (pp_lookahead s) < k")
  case True
  then obtain u where "preprocess_line k s = Inr (u, s')" "0 < k" "t = pp_lookahead s' ! (k - 1)"
    using assms(1) by (auto simp: peekn_def ev_simps outcome_simps split: if_splits)
  then show thesis using preprocess_line_ok [OF _ assms(2)] that by metis
next
  case False
  then have "s' = s" "0 < k" "t = pp_lookahead s ! (k - 1)"
    using assms(1) by (auto simp: peekn_def ev_simps outcome_simps split: if_splits)
  then show thesis using that [of "[]"] False assms(2) by simp
qed

lemma next_ok:
  assumes "next_token s = Inr (t, s')" "lookahead_ok before s"
  obtains ys where "t # pp_lookahead s' = pp_lookahead s @ ys" "lookahead_ok (before @ [t]) s'"
proof -
  have pop: "lookahead_ok (before @ [t]) s2 \<and> t # pp_lookahead s2 = pp_lookahead s1"
    if "pop_lookahead s1 = Inr (t, s2)" "lookahead_ok before s1" for s1 s2 :: "'a preprocess_state_scheme"
    using that by (auto simp: pop_lookahead_def lookahead_ok_def settled_def input_ended_def Let_def split: list.splits)
  show thesis
  proof (cases "pp_lookahead s")
    case Nil
    then obtain u s1 where s1: "preprocess_line 1 s = Inr (u, s1)" "pop_lookahead s1 = Inr (t, s')"
      using assms(1) by (auto simp: next_token_def ev_simps outcome_simps)
    obtain ys where "pp_lookahead s1 = pp_lookahead s @ ys" "lookahead_ok before s1"
      using preprocess_line_ok [OF s1(1) assms(2)] by blast
    then show thesis using pop [OF s1(2)] that by simp
  next
    case (Cons x la)
    then have "pop_lookahead s = Inr (t, s')" using assms(1) by (auto simp: next_token_def ev_simps)
    then show thesis using pop assms(2) that [of "[]"] by simp
  qed
qed

lemma parser_calls_stream:
  assumes "parser_calls cs s = Inr (rs, s')" "lookahead_ok before s"
  shows "\<exists>ys. is_joined (before @ pp_lookahead s @ ys) \<and> stream_calls cs (pp_lookahead s @ ys) = Some rs"
  using assms
proof (induction cs arbitrary: s rs before)
  case Nil
  then show ?case by (intro exI [of _ "[]"]) (simp add: lookahead_ok_def ev_simps)
next
  case (Cons c cs)
  show ?case
  proof (cases c)
    case (Peek_Call k)
    then obtain t s1 rs' where s1: "peekn k s = Inr (t, s1)" "parser_calls cs s1 = Inr (rs', s')" "rs = t # rs'"
      using Cons.prems(1) by (auto simp: ev_simps outcome_simps)
    obtain ys where ys: "pp_lookahead s1 = pp_lookahead s @ ys" "lookahead_ok before s1" "0 < k" "k \<le> length (pp_lookahead s1)"
        "t = pp_lookahead s1 ! (k - 1)"
      using peekn_ok [OF s1(1) Cons.prems(2)] by blast
    obtain zs where "is_joined (before @ pp_lookahead s1 @ zs)" "stream_calls cs (pp_lookahead s1 @ zs) = Some rs'"
      using Cons.IH [OF s1(2) ys(2)] by blast
    then show ?thesis using ys s1(3) Peek_Call by (intro exI [of _ "ys @ zs"]) (auto simp: nth_append)
  next
    case Next_Call
    then obtain t s1 rs' where s1: "next_token s = Inr (t, s1)" "parser_calls cs s1 = Inr (rs', s')" "rs = t # rs'"
      using Cons.prems(1) by (auto simp: ev_simps outcome_simps)
    obtain ys where ys: "t # pp_lookahead s1 = pp_lookahead s @ ys" "lookahead_ok (before @ [t]) s1"
      using next_ok [OF s1(1) Cons.prems(2)] by blast
    obtain zs where zs: "is_joined ((before @ [t]) @ pp_lookahead s1 @ zs)" "stream_calls cs (pp_lookahead s1 @ zs) = Some rs'"
      using Cons.IH [OF s1(2) ys(2)] by blast
    have eq: "pp_lookahead s @ ys @ zs = t # pp_lookahead s1 @ zs" using ys(1) by (metis append_Cons append_assoc)
    show ?thesis using zs s1(3) Next_Call by (intro exI [of _ "ys @ zs"]) (simp add: eq)
  qed
qed

text \<open>
  Property C14. The parser reads a stream of tokens. Whatever calls of \<open>peekn\<close> and \<open>next\<close> it makes, their results are those of the same
  calls on one list of tokens, which begins with the tokens of the lookahead: a token that was peeked is the one that
  is read later. In this list no string literal follows another, since adjacent literals are joined
  before one of them is given out.
\<close>

theorem parser_reads_stream:
  assumes "\<not> pp_output s" "is_joined (pp_lookahead s)" "settled [] s" "parser_calls cs s = Inr (rs, s')"
  shows "\<exists>ys. is_joined (pp_lookahead s @ ys) \<and> stream_calls cs (pp_lookahead s @ ys) = Some rs"
  using parser_calls_stream [OF assms(4), of "[]"] assms(1-3) by (simp add: lookahead_ok_def)

definition preprocess_start :: "string \<Rightarrow> preprocess_state" where
  "preprocess_start line = \<lparr>mc_strtab = strtab_empty, mc_types = empty_types, mc_std = STD_C89, mc_table = None, mc_path = zero_string,
     mc_line = 1, mc_stack = 8, in_search = [], in_sources = [], in_stale = False, in_branches = [], in_files = \<lambda>p. None,
     in_stdin = [], dr_lib = \<lparr>strtod = \<lambda>s. (0, 0, False), double_to_float = \<lambda>d. 0\<rparr>, dr_floats = no_floats,
     pp_line = Some line, pp_lookahead = [], pp_output = False, pp_destring = [], pp_pragmas = [], pp_turns = 8\<rparr>"

text \<open>A line with one operator.\<close>

lemma plus_tokens:
  "tokenize st std ''+'' = Inr (st, basic_token TK_PLUS, [])" "tokenize st std [] = Inr (st, basic_token TK_END, [])"
  by (simp_all add: tokenize_def skip_spaces_def scan_token_def ch_def strtoop_def strtoop_match_def schar_def
      ctype_simps basic_token_def basic_token_table_def TOK_def zero_token_def)

lemma plus_types: "ttype (basic_token TK_PLUS) = TK_PLUS" "\<not> is_expandable (basic_token TK_PLUS)" "ttype ident__Pragma = TK_IDENTIFIER"
  by code_simp+

lemma plus_get_token:
  "pp_line s = Some ''+'' \<Longrightarrow> get_token s = Inr (basic_token TK_PLUS, s\<lparr>pp_line := Some []\<rparr>)"
  "pp_line s = Some [] \<Longrightarrow> get_token s = Inr (basic_token TK_NEWLINE, s\<lparr>pp_line := None\<rparr>)"
  by (simp_all add: get_token_def tokenize_line_def read_token_def plus_tokens plus_types end_tokens set_line_def ev_simps)

lemma plus_tok_is:
  "tok_is (basic_token TK_PLUS) ident__Pragma s = Inr (False, s)" "tok_is (basic_token TK_NEWLINE) ident__Pragma s = Inr (False, s)"
  by (simp_all add: tok_is_def tok_cmp_def plus_types end_tokens ev_simps)

lemma plus_line:
  assumes "pp_line s = Some ''+''" "in_branches s = []" "pp_lookahead s = []" "\<not> pp_output s" "pp_turns s = Suc m"
  shows "preprocess_line 1 s = Inr ((), s\<lparr>pp_line := None, pp_lookahead := [basic_token TK_PLUS]\<rparr>)"
  using assms
  by (simp add: preprocess_line_def preprocess_turn_def plus_get_token plus_types end_tokens text_line_def in_active_block_def
      read_complete_line_def complete_loop.simps complete_token_def expand_again.simps plus_tok_is line_tokens.simps
      add_to_lookahead_def push_lookahead_def is_lookahead_ready_def ev_simps del: One_nat_def)

theorem parser_reads_stream_witness:
  "\<exists>s' ys. parser_calls [Peek_Call 1, Next_Call] (preprocess_start ''+'') = Inr ([basic_token TK_PLUS, basic_token TK_PLUS], s') \<and>
     is_joined ys \<and> stream_calls [Peek_Call 1, Next_Call] ys = Some [basic_token TK_PLUS, basic_token TK_PLUS]"
proof -
  obtain s' where "parser_calls [Peek_Call 1, Next_Call] (preprocess_start ''+'') = Inr ([basic_token TK_PLUS, basic_token TK_PLUS], s')"
    by (simp add: peekn_def next_token_def pop_lookahead_def plus_line ev_simps preprocess_start_def del: One_nat_def)
  then show ?thesis
    using parser_reads_stream [of "preprocess_start ''+''" "[Peek_Call 1, Next_Call]"]
    by (fastforce simp: preprocess_start_def is_joined_def settled_def)
qed

section \<open>The text of adjacent literals\<close>

definition is_text :: "token \<Rightarrow> string \<Rightarrow> bool" where
  "is_text t cs \<longleftrightarrow> ttype t = TK_STRING \<and> (\<exists>str. tdata t = TStr str \<and> wf_string str \<and> str_chars str = cs)"

text \<open>A literal as it is in the line, or one that is converted already.\<close>

definition reads_as :: "token \<Rightarrow> string \<Rightarrow> bool" where
  "reads_as t cs \<longleftrightarrow> ttype t = TK_PREP_STRING \<and> convert_chars (token_text t) = Inr cs \<or> is_text t cs"

definition strings_ok :: "'z preprocess_state_scheme \<Rightarrow> bool" where
  "strings_ok s \<longleftrightarrow> strtab_inv (mc_strtab s) \<and> length (catbuf (mc_strtab s)) = catlen (mc_strtab s) \<and> \<not> pp_output s"

lemma convert_string_ok:
  assumes "strings_ok s" "convert_chars (token_text t) = Inr cs" "length cs < 65536"
  obtains st u where "convert_string t s = Inr (u, s\<lparr>mc_strtab := st\<rparr>)" "is_text u cs" "strings_ok (s\<lparr>mc_strtab := st\<rparr>)"
proof -
  obtain st v where "str_register (mc_strtab s) cs (length cs) = Inr (st, v)" "strtab_inv st" "wf_string v" "str_chars v = cs"
      "catbuf st = catbuf (mc_strtab s)" "catlen st = catlen (mc_strtab s)"
    using str_register_ok [of "mc_strtab s" "length cs" cs] assms by (auto simp: strings_ok_def)
  then show thesis
    using that [of "zero_token\<lparr>ttype := TK_STRING, tdata := TStr v\<rparr>" st] assms
    by (simp add: convert_string_def convert_preprocessing_string_def is_text_def strings_ok_def)
qed

lemma add_converted:
  assumes "strings_ok s" "reads_as t cs" "length cs < 65536"
  obtains st u where "add_to_lookahead t s = add_string u (s\<lparr>mc_strtab := st\<rparr>)" "is_text u cs" "strings_ok (s\<lparr>mc_strtab := st\<rparr>)"
proof (cases "ttype t = TK_PREP_STRING")
  case True
  then have "convert_chars (token_text t) = Inr cs" using assms(2) by (auto simp: reads_as_def is_text_def)
  then obtain st u where u: "convert_string t s = Inr (u, s\<lparr>mc_strtab := st\<rparr>)" "is_text u cs" "strings_ok (s\<lparr>mc_strtab := st\<rparr>)"
    using convert_string_ok assms(1,3) by metis
  then have "add_to_lookahead t s = add_string u (s\<lparr>mc_strtab := st\<rparr>)"
    using True assms(1) by (simp add: add_to_lookahead_def strings_ok_def ev_simps)
  then show thesis using that u by blast
next
  case False
  then have "is_text t cs" using assms(2) by (auto simp: reads_as_def)
  then show thesis
    using that [of t "mc_strtab s"] assms(1) by (simp add: add_to_lookahead_def strings_ok_def ev_simps is_text_def)
qed

lemma add_first_literal:
  assumes "strings_ok s" "reads_as t cs" "length cs < 65536" "pp_lookahead s = [] \<or> \<not> is_literal (last (pp_lookahead s))"
  obtains s' u where "add_to_lookahead t s = Inr ((), s')" "pp_lookahead s' = pp_lookahead s @ [u]" "is_text u cs" "strings_ok s'"
proof -
  obtain st u where "add_to_lookahead t s = add_string u (s\<lparr>mc_strtab := st\<rparr>)" "is_text u cs" "strings_ok (s\<lparr>mc_strtab := st\<rparr>)"
    using add_converted [OF assms(1-3)] by blast
  then show thesis
    using assms(4) that [of "s\<lparr>mc_strtab := st, pp_lookahead := pp_lookahead s @ [u]\<rparr>" u]
    by (auto simp: add_string_def push_lookahead_eq ev_simps is_literal_def strings_ok_def)
qed

lemma add_next_literal:
  assumes "strings_ok s" "reads_as t cs" "pp_lookahead s = la @ [v]" "is_text v ds" "length ds + length cs < 65536"
  obtains s' u where "add_to_lookahead t s = Inr ((), s')" "pp_lookahead s' = la @ [u]" "is_text u (ds @ cs)" "strings_ok s'"
proof -
  obtain st u where u: "add_to_lookahead t s = add_string u (s\<lparr>mc_strtab := st\<rparr>)" "is_text u cs" "strings_ok (s\<lparr>mc_strtab := st\<rparr>)"
    using add_converted [OF assms(1,2)] assms(5) by (metis add_lessD1 add.commute)
  obtain a b where ab: "tdata v = TStr a" "wf_string a" "str_chars a = ds" "tdata u = TStr b" "wf_string b" "str_chars b = cs"
    using assms(4) u(2) by (auto simp: is_text_def)
  obtain st' r where r: "str_cat st a b = Inr (st', r)" "strtab_inv st'" "wf_string r" "str_chars r = ds @ cs" "length (catbuf st') = catlen st'"
    using str_cat_concatenates [of st a b] u(3) ab assms(5) by (auto simp: strings_ok_def)
  have "ttype v = TK_STRING" using assms(4) by (simp add: is_text_def)
  then have "add_string u (s\<lparr>mc_strtab := st\<rparr>) =
      Inr ((), s\<lparr>mc_strtab := st', pp_lookahead := la @ [u\<lparr>tdata := TStr r\<rparr>]\<rparr>)"
    using assms(3) ab r(1) by (simp add: add_string_def concat_strings_def tok_str_def ev_simps)
  then show thesis
    using that [of "s\<lparr>mc_strtab := st', pp_lookahead := la @ [u\<lparr>tdata := TStr r\<rparr>]\<rparr>" "u\<lparr>tdata := TStr r\<rparr>"] u r
    by (simp add: is_text_def strings_ok_def)
qed

lemma add_more_literals:
  assumes "list_all2 reads_as ts css" "strings_ok s" "pp_lookahead s = la @ [v]" "is_text v ds" "length (ds @ concat css) < 65536"
  shows "\<exists>s' u. eiter add_to_lookahead ts s = Inr ((), s') \<and> pp_lookahead s' = la @ [u] \<and> is_text u (ds @ concat css) \<and> strings_ok s'"
  using assms
proof (induction ts css arbitrary: s v ds rule: list_all2_induct)
  case Nil
  then show ?case by (simp add: ev_simps)
next
  case (Cons t ts cs css)
  obtain s1 u where s1: "add_to_lookahead t s = Inr ((), s1)" "pp_lookahead s1 = la @ [u]" "is_text u (ds @ cs)" "strings_ok s1"
    using add_next_literal [OF Cons.prems(1) Cons.hyps(1) Cons.prems(2,3)] Cons.prems(4) by auto
  then show ?case using Cons.IH [OF s1(4,2,3)] Cons.prems(4) by (auto simp: ebind_def)
qed

text \<open>A literal as it is printed is read as its characters.\<close>

definition printed_literal :: "string \<Rightarrow> token" where
  "printed_literal cs = zero_token\<lparr>ttype := TK_PREP_STRING, tdata := TStr (str_init (print_body cs))\<rparr>"

lemma printed_literal_reads: "length (print_body cs) < 65536 \<Longrightarrow> reads_as (printed_literal cs) cs"
  by (simp add: reads_as_def printed_literal_def token_text_def convert_chars_print_body)

text \<open>
  Property C15. String literals that follow one another reach the parser as one. Given any number of literals that are not preceded by
  another, the lookahead gets one string token, whose text is the texts of the literals one after the other, each
  with its escape sequences replaced on its own, as long as the whole text is shorter than 65536 characters.
\<close>

theorem adjacent_literals_joined:
  assumes "list_all2 reads_as ts css" "ts \<noteq> []" "length (concat css) < 65536" "strings_ok s"
    and "pp_lookahead s = [] \<or> \<not> is_literal (last (pp_lookahead s))"
  shows "\<exists>s' t. eiter add_to_lookahead ts s = Inr ((), s') \<and> pp_lookahead s' = pp_lookahead s @ [t] \<and> ttype t = TK_STRING \<and>
     token_text t = concat css \<and> strings_ok s'"
proof -
  obtain t ts' cs css' where l: "ts = t # ts'" "css = cs # css'" "reads_as t cs" "list_all2 reads_as ts' css'"
    using assms(1,2) by (cases ts; cases css) auto
  obtain s1 u where s1: "add_to_lookahead t s = Inr ((), s1)" "pp_lookahead s1 = pp_lookahead s @ [u]" "is_text u cs" "strings_ok s1"
    using add_first_literal [OF assms(4) l(3) _ assms(5)] assms(3) l(2) by auto
  show ?thesis
    using add_more_literals [OF l(4) s1(4,2,3)] assms(3) l s1(1) by (auto simp: ebind_def is_text_def token_text_def)
qed

text \<open>The second literal is an octal escape sequence, which the digit of the third does not continue.\<close>

theorem adjacent_literals_joined_witness:
  "\<exists>s' t. eiter add_to_lookahead [printed_literal ''a'', printed_literal [CHR 0x01], printed_literal ''1''] (preprocess_start []) = Inr ((), s') \<and>
    pp_lookahead s' = [t] \<and> ttype t = TK_STRING \<and> token_text t = [CHR ''a'', CHR 0x01, CHR ''1'']"
proof -
  have "list_all2 reads_as [printed_literal ''a'', printed_literal [CHR 0x01], printed_literal ''1''] [''a'', [CHR 0x01], ''1'']"
    by (simp add: printed_literal_reads printchar_def isprint_def octal3_def)
  moreover have "strings_ok (preprocess_start [])" "pp_lookahead (preprocess_start []) = []"
    by (simp_all add: strings_ok_def preprocess_start_def strtab_empty_def strtab_inv_def)
  ultimately show ?thesis
    using adjacent_literals_joined [of _ "[''a'', [CHR 0x01], ''1'']" "preprocess_start []"] by fastforce
qed

section \<open>The operator \<open>_Pragma\<close>\<close>

text \<open>
  The text of a literal that was made of another text by escaping quotes and backslashes is that text again; but the
  buffer that it is written to is not cleared, so that the end of a longer text that was there before
  follows it.
\<close>

lemma destringize_text_escaped [simp]: "destringize_text (str_write_escaped cs) = cs"
  by (induction cs) auto

lemma length_str_write_escaped: "length cs \<le> length (str_write_escaped cs)"
  by (induction cs) auto

lemma destringize_escaped:
  assumes "str_chars str = str_write_escaped cs" "NUL \<notin> set cs" "destringize str s = Inr (buf, s')"
  shows "takeWhile (\<lambda>c. c \<noteq> NUL) buf =
    cs @ (if length (pp_destring s) \<le> length (str_write_escaped cs) then []
          else takeWhile (\<lambda>c. c \<noteq> NUL) (drop (length cs) (pp_destring s)))"
proof -
  have *: "takeWhile (\<lambda>c. c \<noteq> NUL) (replicate n NUL) = []" for n by (cases n) simp_all
  have "takeWhile (\<lambda>c. c \<noteq> NUL) (cs @ xs) = cs @ takeWhile (\<lambda>c. c \<noteq> NUL) xs" for xs
    using assms(2) by (intro takeWhile_append2) auto
  moreover have "drop (length cs) (replicate n NUL) = replicate (n - length cs) NUL" for n by simp
  ultimately show ?thesis using assms by (auto simp: destringize_def Let_def * simp del: replicate_Suc drop_replicate)
qed

text \<open>Lines that begin with two hash signs are taken for directives by the reader of lines, but not here.\<close>

lemma text_line_inactive: "\<not> in_active_block s \<Longrightarrow> text_line t s = Inl Assert_Failed"
  by (simp add: text_line_def ev_simps)

lemma double_hash_inactive:
  assumes "pp_line s = Some ''##''" "\<not> in_active_block s"
  shows "is_directive ''##'' \<and> preprocess_turn s = Inl Assert_Failed"
proof -
  have "tokenize st std ''##'' = Inr (st, basic_token TK_TOKEN_PASTE, [])" for st std
    by (simp add: tokenize_def skip_spaces_def scan_token_def ch_def strtoop_def strtoop_match_def match_token_def token_text_def
        ctype_simps basic_token_def basic_token_table_def TOK_def zero_token_def)
  moreover have "ttype (basic_token TK_TOKEN_PASTE) = TK_TOKEN_PASTE" by code_simp
  ultimately have "get_token s = Inr (basic_token TK_TOKEN_PASTE, s\<lparr>pp_line := Some []\<rparr>)"
    using assms(1) by (simp add: get_token_def tokenize_line_def read_token_def set_line_def ev_simps)
  then show ?thesis
    using assms(2) \<open>ttype (basic_token TK_TOKEN_PASTE) = TK_TOKEN_PASTE\<close>
    by (simp add: preprocess_turn_def text_line_inactive in_active_block_def ev_simps is_directive_def ch_def)
qed

end
