(* ===== verification/Spec2Isabelle.thy ===== *)
theory Spec2Isabelle
  imports Tokenizer_Correct Dyn_Array Symtab_Correct VM_Correct Struct_Layout Optimizer_Correct Switch_Correct
    Cfg_Correct Assign_Correct Macro_Correct Line_Buffer Directive_Correct Preprocess_Correct
begin

text \<open>
  A verification library for KCS, a C compiler that runs programs as scripts.

  The program. The preprocessor (\<open>src/src/preprocessor\<close>) turns lines into tokens,
  whose texts live in a table of interned strings (\<open>strtab.c\<close>) on top of a
  hash table (\<open>src/src/util/hash.c\<close>) and compact strings (\<open>util/string.c\<close>,
  \<open>include/lacc/string.h\<close>). The parser (\<open>src/src/parser\<close>) builds types
  (\<open>typetree.c\<close>), symbols (\<open>symtab.c\<close>) and, for each function, a graph of basic
  blocks of three-address code (\<open>include/lacc/ir.h\<close>). The optimizer
  (\<open>src/src/optimizer\<close>) works on this graph. The back ends translate it to native
  code or to instructions of a stack machine (\<open>src/src/backend/vm\<close>), which
  \<open>vmrunlir.c\<close> interprets. Dynamic arrays (\<open>include/lacc/array.h\<close>) and deques
  (\<open>deque.h\<close>) are used throughout.

  Conventions. An operation of the code is a function that returns an outcome: a
  value, or an error of the type \<open>kcs_error\<close>, which tells a failed assertion, a
  reported error that ends the program, undefined behaviour and exhausted stack
  apart. State that the code keeps in static variables is passed explicitly.
  Numbers that wrap around are words of their width; sizes and counts that the
  code bounds are natural numbers. Allocation always succeeds.

  Theories, from the ground up:

  \<^item> \<open>Prelude\<close>: outcomes, machine words, character classes, alignment, and the
    locale \<open>fuel_recursion\<close> for recursions with a depth bound.
  \<^item> \<open>C_String\<close>, \<open>Dyn_Array\<close>, \<open>Hash_Table\<close>, \<open>Strtab\<close>: the containers. Arrays and
    deques refine lists, the hash table refines an insert-once map, interning
    gives identical strings for equal texts. Each contract is a locale that the
    model interprets.
  \<^item> \<open>Tokenize\<close>, \<open>Tokenizer_Correct\<close>: \<open>tokenize.c\<close>, with the classification of
    identifiers and operators, the conversion of constants, progress of the
    scanner, and the round trip of string literals through \<open>fprintstr\<close>.
  \<^item> \<open>State_Error\<close>: sequencing of operations that change a state or fail.
  \<^item> \<open>Macro\<close>, \<open>Macro_Correct\<close>: \<open>macro.c\<close>, the table of macros and their expansion. The table refines a map whose
    redefinitions are decided by a comparison of its own, expansion of object-like macros is a relation that never repeats
    an active name, and \<open>#\<close> gives literals that are read back, or overruns its buffer exactly where that is too small.
  \<^item> \<open>Input\<close>, \<open>Input_Correct\<close>: \<open>input.c\<close>, the buffers, lines and files. The lines of a file do not depend
    on the buffer. \<open>Line_Buffer\<close> has the loops that write a line as writes to an array of \<open>rlen\<close> bytes, with its
    \<open>realloc\<close>: no write is outside of it, and the line in it is the line of \<open>Input\<close>.
  \<^item> \<open>Directive\<close>, \<open>Directive_Correct\<close>: \<open>directive.c\<close>. The stack of branches is the history of the conditions
    of the open groups. A condition has the value that C prescribes, on the expressions for which the code does not
    deviate from it, and the deviations are shown.
  \<^item> \<open>Preprocess\<close>, \<open>Preprocess_Frame\<close>, \<open>Preprocess_Correct\<close>: \<open>preprocess.c\<close>, from lines to the lookahead that the parser
    reads. What conditional directives and additions to the lookahead respect, all of preprocessing respects; this is a locale,
    interpreted for the stack of branches and for the growth of the lookahead. The calls of the parser
    read a stream of tokens, in which adjacent literals are joined.
  \<^item> \<open>C_Type\<close>, \<open>Symbol\<close>, \<open>Typetree\<close>: type values of \<open>include/lacc/type.h\<close>, symbols
    of \<open>symbol.h\<close>, and all of \<open>typetree.c\<close> over a store of type trees.
    \<open>Typetree_Correct\<close> proves conversions, comparison and sizes; \<open>Struct_Layout\<close> the layout of structs and bit-fields.
  \<^item> \<open>Symtab\<close>, \<open>Symtab_Correct\<close>: the symbol table of \<open>symtab.c\<close> on the hash table:
    name spaces refine a stack of maps, and declarations at file scope and inside
    functions make or reuse symbols as stated there.
  \<^item> \<open>IR\<close>, \<open>Optimizer\<close>: the intermediate representation and the whole optimizer.
    \<open>Liveness_Correct\<close> states by paths, including those through jump tables, whether an object is read later, from what
    the expressions of a statement read. For objects that are accessed by name only, on graphs without jump tables, the iterative analysis
    is exact and dead store elimination removes no store that is read. \<open>Optimizer_Correct\<close> treats serialization, which follows
    \<open>jump[0]\<close> and \<open>jump[1]\<close> and so reaches all blocks of graphs without jump tables, numbering and empty blocks.
  \<^item> \<open>Switch\<close>, \<open>Switch_Correct\<close>: the lowering of switch statements in
    \<open>statement.c\<close> to comparisons, binary search or a jump table, with the operands and jumps of the generated blocks, and that each
    value of a switch on \<open>int\<close> reaches its case.
  \<^item> \<open>Cfg\<close>, \<open>Cfg_Correct\<close>: definitions and blocks of \<open>parse.c\<close>, which are reused, and that
    each block has one owner over all histories of calls, and is reset but for its jump table when it is given out.
  \<^item> \<open>Host_Float\<close>, \<open>C_Arith\<close>: floating point and integer arithmetic of the host, shared by
    the compiler and the interpreter.
  \<^item> \<open>Eval\<close>, \<open>Eval_Stmt\<close>: all of \<open>eval.c\<close>. \<open>Eval_Frame\<close> proves, for every state relation
    that the primitive steps respect, that all of evaluation does, and so what evaluation
    leaves alone; \<open>Eval_Depth\<close> that its recursion ends; \<open>Eval_Correct\<close> that constants
    are converted as C prescribes, that folding agrees with the interpreter, and the types of results;
    \<open>Assign_Correct\<close> treats assignment to bit-fields.
  \<^item> \<open>VM_Memory\<close>, \<open>VM\<close>: the memory and the interpreter of \<open>vmrunlir.c\<close>, one
    definition for each instruction. \<open>VM_Correct\<close> proves arithmetic, casts, calls and
    returns, non-local jumps and the alignment of the stack.

  Fuel. A recursion over type trees takes the number of trees as its depth
  bound; \<open>type_recursion_fuel_exact\<close> shows that a result within some bound is the
  result within every larger one, and \<open>Stack_Overflow\<close> is the outcome of unbounded
  recursion. Serialization takes one more than the number of blocks, which
  suffices since each level colors a block. The iteration of the analysis needs 64
  passes for each block, one for each bit, which \<open>liveness_bits\<close> proves. Evaluation of
  operators is unrolled four times, which \<open>eval_expr_recursion_ends\<close> shows to be all of it. The
  interpreter takes fuel for its steps, and \<open>vm_fuel_irrelevant\<close> shows that more of
  it does not change the result of a run that ends. Expansion of macros takes the number of nested
  expansions that the stack of the host holds; \<open>expand_object_macros\<close> shows that the number of macros is enough where all are
  object-like, and \<open>argument_expansion_diverges\<close> that no number is in general. The parser of conditions takes the number of
  tokens as the bound of its loops and of its depth, and \<open>condition_value\<close> shows that this is enough. Reading tokens
  always ends, since the input gets shorter; a line that is expanded again and files that include
  each other need not end, and take a number of turns that is part of the state.

  Defects that the proofs met are stated as properties or lemmas where the model shows
  them: comparison of types that ignores pointers or never returns, sizes of arrays that
  wrap around, casts of negative integers, jumps over empty blocks that never
  end, the shortcut of the binary search for switch cases, duplicate local
  declarations that are accepted, names of labels that repeat, constants that are
  converted to \<open>long\<close>, string literals that are equal to zero, expansion of arguments without end, a buffer
  that is too small for the quotes of literals, identifiers that begin with \<open>_Static_assert\<close>, conditions with an
  unsigned operand of \<open>!\<close> or of a shift or an operand that C does not evaluate, jump tables that the optimizer does not follow and that blocks
  keep when they are reused, and case constants of type \<open>long\<close> that are truncated.

  Not modelled: the recursive descent that parses expressions, declarations, initializers and statements other than the
  switch lowering; the lowering of blocks to instructions (\<open>vminstr.c\<close>); native
  code generation, object files and the linker, which would need a semantics of the
  processor; diagnostics, the command line and printing, which are input and output;
  the runtime library; and the vendored libraries under \<open>src/src/_extdll\<close> and
  \<open>src/utility\<close>. What comes next is the lowering to instructions, and the
  descent of the parser on top of \<open>Preprocess\<close> and \<open>Eval\<close>.
\<close>

end
